(* ===== verification/Prelude.thy ===== *)
theory Prelude
  imports Complex_Main "HOL-Library.Word" "HOL-Library.Sublist"
begin

text \<open>
  Shared vocabulary of the development: the Rust standard-library types and functions that every
  component uses, as Isabelle definitions, with the lemmas the component theories rely on.

  \<^item> A Rust \<open>String\<close>/\<open>&str\<close> and a \<open>Vec<u8>\<close>/\<open>&[u8]\<close> are both \<open>char list\<close>: one \<open>char\<close> is one
    byte, so \<open>length\<close> is \<open>len()\<close>. A \<open>String\<close> is a byte list that satisfies \<open>utf8_valid\<close>.
  \<^item> \<open>i64\<close>, \<open>u64\<close>, \<open>u32\<close>, \<open>u16\<close>, \<open>i16\<close> are machine words, read with \<open>sint\<close> or \<open>unat\<close>.
  \<^item> \<open>Result<T, E>\<close> is \<open>E + T\<close> (\<open>Inl\<close> is \<open>Err\<close>); the \<open>?\<close> operator is \<open>r_bind\<close>.
  \<^item> \<open>f64\<close> keeps infinities and NaN as values of their own; finite values are reals, so the
    rounding of finite floating-point arithmetic is not modelled.
\<close>

named_theorems codec "unfolding rules for the encoders and decoders of stored documents"

type_synonym bytes = "char list"
type_synonym i64 = "64 word"
type_synonym u64 = "64 word"
type_synonym u32 = "32 word"
type_synonym u16 = "16 word"
type_synonym i16 = "16 word"

section \<open>Results\<close>

fun r_bind :: "'e + 'a \<Rightarrow> ('a \<Rightarrow> 'e + 'b) \<Rightarrow> 'e + 'b" where
  "r_bind (Inl e) f = Inl e"
| "r_bind (Inr x) f = f x"

fun r_map :: "('a \<Rightarrow> 'b) \<Rightarrow> 'e + 'a \<Rightarrow> 'e + 'b" where
  "r_map f (Inl e) = Inl e"
| "r_map f (Inr x) = Inr (f x)"

definition ok_or :: "'e \<Rightarrow> 'a option \<Rightarrow> 'e + 'a" where
  "ok_or e o' = (case o' of None \<Rightarrow> Inl e | Some x \<Rightarrow> Inr x)"

lemma ok_or_simps [simp]: "ok_or e None = Inl e" "ok_or e (Some x) = Inr x"
  by (simp_all add: ok_or_def)

lemma ok_or_Inr [simp]: "ok_or e o' = Inr x \<longleftrightarrow> o' = Some x"
  by (cases o') simp_all

lemma r_bind_Inr: "r_bind r f = Inr y \<longleftrightarrow> (\<exists>x. r = Inr x \<and> f x = Inr y)"
  by (cases r) simp_all

lemma r_map_Inr [simp]: "r_map f r = Inr y \<longleftrightarrow> (\<exists>x. r = Inr x \<and> y = f x)"
  by (cases r) auto

text \<open>\<open>iter().map(f).collect::<Result<Vec<_>, _>>()\<close>: stops at the first error.\<close>

fun r_collect :: "('a \<Rightarrow> 'e + 'b) \<Rightarrow> 'a list \<Rightarrow> 'e + 'b list" where
  "r_collect f [] = Inr []"
| "r_collect f (x # xs) = r_bind (f x) (\<lambda>y. r_map (Cons y) (r_collect f xs))"

lemma r_collect_map_Inr:
  "(\<And>x. x \<in> set xs \<Longrightarrow> f (g x) = Inr (h x)) \<Longrightarrow> r_collect f (map g xs) = Inr (map h xs)"
  by (induction xs) auto

lemma r_collect_Inr_iff: "r_collect f xs = Inr ys \<longleftrightarrow> list_all2 (\<lambda>x y. f x = Inr y) xs ys"
  by (induction xs arbitrary: ys) (auto simp: r_bind_Inr list_all2_Cons1)

lemma r_collect_append:
  "r_collect f (xs @ ys) = r_bind (r_collect f xs) (\<lambda>as. r_map ((@) as) (r_collect f ys))"
proof (induction xs)
  case Nil
  then show ?case by (cases "r_collect f ys") simp_all
next
  case (Cons x xs)
  then show ?case
    by (cases "f x"; cases "r_collect f xs"; cases "r_collect f ys") simp_all
qed

lemma r_collect_cong [fundef_cong]:
  "xs = ys \<Longrightarrow> (\<And>x. x \<in> set ys \<Longrightarrow> f x = g x) \<Longrightarrow> r_collect f xs = r_collect g ys"
  by (induction xs arbitrary: ys) auto

section \<open>Machine integers\<close>

definition i64_of_u32 :: "u32 \<Rightarrow> i64" where
  "i64_of_u32 w = word_of_int (uint w)"

definition i64_of_u16 :: "u16 \<Rightarrow> i64" where
  "i64_of_u16 w = word_of_int (uint w)"

definition i64_of_i16 :: "i16 \<Rightarrow> i64" where
  "i64_of_i16 w = word_of_int (sint w)"

definition i64_max :: i64 where
  "i64_max = word_of_int (2 ^ 63 - 1)"

definition i64_min :: i64 where
  "i64_min = word_of_int (- (2 ^ 63))"

text \<open>\<open>i64::try_from(u64).unwrap_or(i64::MAX)\<close>.\<close>

definition i64_of_u64_sat :: "u64 \<Rightarrow> i64" where
  "i64_of_u64_sat w = (if uint w < 2 ^ 63 then w else i64_max)"

text \<open>\<open>u32::try_from(i64)\<close> and its kin: \<open>None\<close> where the conversion fails.\<close>

definition u32_of_i64 :: "i64 \<Rightarrow> u32 option" where
  "u32_of_i64 w = (if 0 \<le> sint w \<and> sint w < 2 ^ 32 then Some (word_of_int (sint w)) else None)"

definition u16_of_i64 :: "i64 \<Rightarrow> u16 option" where
  "u16_of_i64 w = (if 0 \<le> sint w \<and> sint w < 2 ^ 16 then Some (word_of_int (sint w)) else None)"

definition i16_of_i64 :: "i64 \<Rightarrow> i16 option" where
  "i16_of_i64 w =
     (if - (2 ^ 15) \<le> sint w \<and> sint w < 2 ^ 15 then Some (word_of_int (sint w)) else None)"

definition u64_of_i64 :: "i64 \<Rightarrow> u64 option" where
  "u64_of_i64 w = (if 0 \<le> sint w then Some w else None)"

definition u64_saturating_add :: "u64 \<Rightarrow> u64 \<Rightarrow> u64" where
  "u64_saturating_add a b = (if uint a + uint b < 2 ^ 64 then a + b else - 1)"

definition u32_saturating_add :: "u32 \<Rightarrow> u32 \<Rightarrow> u32" where
  "u32_saturating_add a b = (if uint a + uint b < 2 ^ 32 then a + b else - 1)"

lemma sint_word_of_int_i64:
  "- (2 ^ 63) \<le> n \<Longrightarrow> n < 2 ^ 63 \<Longrightarrow> sint (word_of_int n :: i64) = n"
  by (simp add: sint_sbintrunc' signed_take_bit_int_eq_self)

lemma sint_bounds_i16: "- (2 ^ 15) \<le> sint (w :: i16)" "sint (w :: i16) < 2 ^ 15"
  using sint_greater_eq [of w] sint_less [of w] by simp_all

lemma u32_of_i64_of_u32 [simp]: "u32_of_i64 (i64_of_u32 w) = Some w"
proof -
  have b: "0 \<le> uint w" "uint w < 2 ^ 32" using uint_bounded [of w] by simp_all
  then have "sint (i64_of_u32 w) = uint w"
    unfolding i64_of_u32_def using b(2)
    by (intro sint_word_of_int_i64 order_trans [OF _ uint_ge_0]) simp_all
  then show ?thesis using b by (simp add: u32_of_i64_def)
qed

lemma u16_of_i64_of_u16 [simp]: "u16_of_i64 (i64_of_u16 w) = Some w"
proof -
  have b: "0 \<le> uint w" "uint w < 2 ^ 16" using uint_bounded [of w] by simp_all
  then have "sint (i64_of_u16 w) = uint w"
    unfolding i64_of_u16_def using b(2)
    by (intro sint_word_of_int_i64 order_trans [OF _ uint_ge_0]) simp_all
  then show ?thesis using b by (simp add: u16_of_i64_def)
qed

lemma i16_of_i64_of_i16 [simp]: "i16_of_i64 (i64_of_i16 w) = Some w"
proof -
  have "sint (i64_of_i16 w) = sint w"
    unfolding i64_of_i16_def using sint_bounds_i16 [of w] by (intro sint_word_of_int_i64) simp_all
  then show ?thesis using sint_bounds_i16 [of w] by (simp add: i16_of_i64_def)
qed

lemma sint_eq_uint_i64:
  assumes "uint (w :: i64) < 2 ^ 63" shows "sint w = uint w"
proof -
  have "sint (word_of_int (uint w) :: i64) = uint w"
    using assms uint_ge_0 [of w] by (intro sint_word_of_int_i64) linarith+
  then show ?thesis by (simp only: word_of_int_uint)
qed

lemma u64_of_i64_of_u64_sat:
  "u64_of_i64 (i64_of_u64_sat w) = Some (if uint w < 2 ^ 63 then w else i64_max)"
  by (simp add: u64_of_i64_def i64_of_u64_sat_def sint_eq_uint_i64 i64_max_def sint_word_of_int_i64)

section \<open>Bytes\<close>

text \<open>\<open>to_le_bytes\<close>: \<open>k\<close> bytes, least significant first.\<close>

fun le_bytes :: "nat \<Rightarrow> nat \<Rightarrow> bytes" where
  "le_bytes 0 n = []"
| "le_bytes (Suc k) n = char_of (n mod 256) # le_bytes k (n div 256)"

definition u64_le :: "nat \<Rightarrow> bytes" where
  "u64_le n = le_bytes 8 n"

definition i64_le :: "i64 \<Rightarrow> bytes" where
  "i64_le w = le_bytes 8 (unat w)"

lemma length_le_bytes [simp]: "length (le_bytes k n) = k"
  by (induction k arbitrary: n) auto

lemma le_bytes_inj:
  "n < 256 ^ k \<Longrightarrow> m < 256 ^ k \<Longrightarrow> le_bytes k n = le_bytes k m \<Longrightarrow> n = m"
proof (induction k arbitrary: n m)
  case (Suc k)
  from Suc.prems(3) have c: "char_of (n mod 256) = char_of (m mod 256)"
    and r: "le_bytes k (n div 256) = le_bytes k (m div 256)" by simp_all
  from c have "of_char (char_of (n mod 256)) = (of_char (char_of (m mod 256)) :: nat)" by simp
  then have "n mod 256 = m mod 256" by simp
  moreover have "n div 256 = m div 256"
    using Suc.prems(1,2) r by (intro Suc.IH) (auto simp: less_mult_imp_div_less mult.commute)
  ultimately show ?case by (metis div_mult_mod_eq)
qed simp

lemma length_u64_le [simp]: "length (u64_le n) = 8" "length (i64_le w) = 8"
  by (simp_all add: u64_le_def i64_le_def)

lemma u64_le_inj: "n < 2 ^ 64 \<Longrightarrow> m < 2 ^ 64 \<Longrightarrow> u64_le n = u64_le m \<Longrightarrow> n = m"
  unfolding u64_le_def by (rule le_bytes_inj [of n 8 m]) simp_all

lemma i64_le_inj [simp]: "i64_le v = i64_le w \<longleftrightarrow> v = w"
proof
  assume "i64_le v = i64_le w"
  then have "unat v = unat w"
    unfolding i64_le_def using unsigned_less [of v] unsigned_less [of w]
    by (intro le_bytes_inj [of _ 8]) simp_all
  then show "v = w" by (simp add: word_unat_eq_iff)
qed simp

section \<open>Decimal rendering of integers\<close>

definition digit_char :: "nat \<Rightarrow> char" where
  "digit_char d = char_of (48 + d)"

fun dec_nat :: "nat \<Rightarrow> string" where
  "dec_nat n = (if n < 10 then [digit_char n] else dec_nat (n div 10) @ [digit_char (n mod 10)])"

declare dec_nat.simps [simp del]

text \<open>\<open>i64::to_string\<close>.\<close>

definition dec_i64 :: "i64 \<Rightarrow> string" where
  "dec_i64 w = (if sint w < 0 then CHR ''-'' # dec_nat (nat (- sint w)) else dec_nat (nat (sint w)))"

definition is_digit_char :: "char \<Rightarrow> bool" where
  "is_digit_char c \<longleftrightarrow> 48 \<le> (of_char c :: nat) \<and> (of_char c :: nat) \<le> 57"

lemma of_char_digit: "d < 10 \<Longrightarrow> of_char (digit_char d) = 48 + d"
  by (simp add: digit_char_def)

lemma dec_nat_digits: "c \<in> set (dec_nat n) \<Longrightarrow> is_digit_char c"
proof (induction n rule: dec_nat.induct)
  case (1 n)
  then show ?case
    by (subst (asm) dec_nat.simps)
       (auto simp: is_digit_char_def of_char_digit split: if_splits)
qed

lemma dec_nat_nonempty [simp]: "dec_nat n \<noteq> []"
  by (subst dec_nat.simps) simp

lemma digit_char_inj: "a < 10 \<Longrightarrow> b < 10 \<Longrightarrow> digit_char a = digit_char b \<Longrightarrow> a = b"
  by (metis add_left_cancel of_char_digit)

lemma dec_nat_inj: "dec_nat n = dec_nat m \<Longrightarrow> n = m"
proof (induction n arbitrary: m rule: dec_nat.induct)
  case (1 n)
  have last: "last (dec_nat k) = digit_char (k mod 10)" for k
    by (subst dec_nat.simps) simp
  have mods: "n mod 10 = m mod 10"
    using "1.prems" last by (metis digit_char_inj mod_less_divisor zero_less_numeral)
  have but: "butlast (dec_nat k) = (if k < 10 then [] else dec_nat (k div 10))" for k
    by (subst dec_nat.simps) simp
  have b: "(if n < 10 then [] else dec_nat (n div 10)) = (if m < 10 then [] else dec_nat (m div 10))"
    using "1.prems" but by metis
  show ?case
  proof (cases "n < 10")
    case True
    with b have "m < 10" by (metis dec_nat_nonempty)
    with True mods show ?thesis by simp
  next
    case False
    with b have m: "\<not> m < 10" by (metis dec_nat_nonempty)
    with False b have "n div 10 = m div 10" by (intro "1.IH") simp_all
    with mods show ?thesis by (metis div_mult_mod_eq)
  qed
qed

lemma dec_i64_inj: "dec_i64 v = dec_i64 w \<Longrightarrow> v = w"
proof -
  assume eq: "dec_i64 v = dec_i64 w"
  have no: "dec_nat n \<noteq> CHR ''-'' # xs" for n xs
  proof
    assume "dec_nat n = CHR ''-'' # xs"
    then have "is_digit_char CHR ''-''" by (intro dec_nat_digits [of _ n]) simp
    then show False by (simp add: is_digit_char_def)
  qed
  have "sint v = sint w"
    using eq no no [symmetric]
    by (auto simp: dec_i64_def split: if_splits dest!: dec_nat_inj)
  then show "v = w" by (simp add: signed_word_eqI)
qed

lemma dec_i64_chars: "c \<in> set (dec_i64 w) \<Longrightarrow> is_digit_char c \<or> c = CHR ''-''"
  by (auto simp: dec_i64_def dest: dec_nat_digits split: if_splits)

end
