(* ===== verification/Rust_Text.thy ===== *)
theory Rust_Text
  imports Prelude
begin

text \<open>
  The parts of Rust's \<open>str\<close>, \<open>char\<close> and \<open>f64\<close> that the program calls: the split of a UTF-8 byte
  string into characters, its validity, \<open>trim\<close>, \<open>char::is_control\<close>, prefix and segment operations,
  and the conversion of floating-point scalars to the integer nanos the store keeps.
\<close>

section \<open>UTF-8\<close>

definition code :: "char \<Rightarrow> nat" where
  "code c = of_char c"

text \<open>The width a leading byte announces.\<close>

definition char_width :: "char \<Rightarrow> nat" where
  "char_width c = (if code c < 128 then 1 else if code c < 224 then 2 else if code c < 240 then 3 else 4)"

fun chars :: "bytes \<Rightarrow> bytes list" where
  "chars [] = []"
| "chars (c # cs) = take (char_width c) (c # cs) # chars (drop (char_width c - 1) cs)"

definition cont_byte :: "char \<Rightarrow> bool" where
  "cont_byte c \<longleftrightarrow> 128 \<le> code c \<and> code c \<le> 191"

definition byte_in :: "nat \<Rightarrow> nat \<Rightarrow> char \<Rightarrow> bool" where
  "byte_in lo hi c \<longleftrightarrow> lo \<le> code c \<and> code c \<le> hi"

fun utf8_char :: "bytes \<Rightarrow> bool" where
  "utf8_char [a] = (code a < 128)"
| "utf8_char [a, b] = (byte_in 194 223 a \<and> cont_byte b)"
| "utf8_char [a, b, c] =
     ((code a = 224 \<and> byte_in 160 191 b \<or> byte_in 225 236 a \<and> cont_byte b
       \<or> code a = 237 \<and> byte_in 128 159 b \<or> byte_in 238 239 a \<and> cont_byte b) \<and> cont_byte c)"
| "utf8_char [a, b, c, d] =
     ((code a = 240 \<and> byte_in 144 191 b \<or> byte_in 241 243 a \<and> cont_byte b
       \<or> code a = 244 \<and> byte_in 128 143 b) \<and> cont_byte c \<and> cont_byte d)"
| "utf8_char _ = False"

definition utf8_valid :: "bytes \<Rightarrow> bool" where
  "utf8_valid s \<longleftrightarrow> list_all utf8_char (chars s)"

definition ascii :: "bytes \<Rightarrow> bool" where
  "ascii s \<longleftrightarrow> list_all (\<lambda>c. code c < 128) s"

lemma char_width_pos [simp]: "0 < char_width c" "char_width c \<noteq> 0"
  by (simp_all add: char_width_def)

lemma concat_chars [simp]: "concat (chars s) = s"
proof (induction s rule: chars.induct)
  case (2 c cs)
  obtain k where k: "char_width c = Suc k" by (metis char_width_pos(2) not0_implies_Suc)
  with "2.IH" show ?case by simp
qed simp

lemma chars_ascii: "ascii s \<Longrightarrow> chars s = map (\<lambda>c. [c]) s"
  by (induction s) (auto simp: ascii_def char_width_def)

lemma ascii_append [simp]: "ascii (s @ t) \<longleftrightarrow> ascii s \<and> ascii t"
  by (simp add: ascii_def)

lemma ascii_utf8_valid: "ascii s \<Longrightarrow> utf8_valid s"
  by (auto simp: utf8_valid_def chars_ascii) (simp add: ascii_def list_all_iff)

lemma chars_ascii_append: "ascii s \<Longrightarrow> chars (s @ t) = map (\<lambda>c. [c]) s @ chars t"
  by (induction s) (auto simp: ascii_def char_width_def)

lemma utf8_valid_ascii_append: "ascii s \<Longrightarrow> utf8_valid (s @ t) \<longleftrightarrow> utf8_valid t"
  unfolding utf8_valid_def by (simp add: chars_ascii_append) (simp add: ascii_def list_all_iff)

text \<open>\<open>char::is_control\<close> (general category Cc).\<close>

definition is_control :: "bytes \<Rightarrow> bool" where
  "is_control ch = (case map code ch of
     [a] \<Rightarrow> a < 32 \<or> a = 127
   | [a, b] \<Rightarrow> a = 194 \<and> 128 \<le> b \<and> b \<le> 159
   | _ \<Rightarrow> False)"

text \<open>\<open>char::is_whitespace\<close> (property \<open>White_Space\<close>).\<close>

definition is_whitespace :: "bytes \<Rightarrow> bool" where
  "is_whitespace ch = (case map code ch of
     [a] \<Rightarrow> 9 \<le> a \<and> a \<le> 13 \<or> a = 32
   | [a, b] \<Rightarrow> a = 194 \<and> (b = 133 \<or> b = 160)
   | [a, b, c] \<Rightarrow> a = 225 \<and> b = 154 \<and> c = 128
       \<or> a = 226 \<and> b = 128 \<and> (128 \<le> c \<and> c \<le> 138 \<or> c = 168 \<or> c = 169 \<or> c = 175)
       \<or> a = 226 \<and> b = 129 \<and> c = 159 \<or> a = 227 \<and> b = 128 \<and> c = 128
   | _ \<Rightarrow> False)"

definition trim :: "bytes \<Rightarrow> bytes" where
  "trim s = concat (rev (dropWhile is_whitespace (rev (dropWhile is_whitespace (chars s)))))"

definition has_control :: "bytes \<Rightarrow> bool" where
  "has_control s = list_ex is_control (chars s)"

text \<open>\<open>s.chars().take(n).collect::<String>()\<close>.\<close>

definition take_chars :: "nat \<Rightarrow> bytes \<Rightarrow> bytes" where
  "take_chars n s = concat (take n (chars s))"

lemma trim_ascii_id:
  assumes "ascii s" and "s \<noteq> []"
    and "\<not> is_whitespace [hd s]" and "\<not> is_whitespace [last s]"
  shows "trim s = s"
proof -
  obtain c cs where s: "s = c # cs" using assms(2) by (cases s) auto
  have 1: "dropWhile is_whitespace (chars s) = chars s"
    unfolding chars_ascii [OF assms(1)] using assms(3) by (simp add: s)
  have "chars s = map (\<lambda>c. [c]) (butlast s @ [last s])"
    using assms(1,2) by (simp add: chars_ascii)
  then have 2: "dropWhile is_whitespace (rev (chars s)) = rev (chars s)"
    using assms(4) by simp
  show ?thesis unfolding trim_def by (simp only: 1 2 rev_rev_ident concat_chars)
qed

section \<open>Prefixes and segments\<close>

text \<open>\<open>s.strip_prefix(p)\<close>.\<close>

definition strip_prefix :: "bytes \<Rightarrow> bytes \<Rightarrow> bytes option" where
  "strip_prefix p s = (if prefix p s then Some (drop (length p) s) else None)"

lemma strip_prefix_append [simp]: "strip_prefix p (p @ s) = Some s"
  by (simp add: strip_prefix_def)

text \<open>\<open>s.rsplit('/').next()\<close>: the segment after the last slash, the whole string without one.\<close>

definition last_segment :: "bytes \<Rightarrow> bytes" where
  "last_segment s = rev (takeWhile (\<lambda>c. c \<noteq> CHR ''/'') (rev s))"

lemma last_segment_append [simp]:
  "CHR ''/'' \<notin> set t \<Longrightarrow> last_segment (s @ CHR ''/'' # t) = t"
proof -
  assume "CHR ''/'' \<notin> set t"
  then have "takeWhile (\<lambda>c. c \<noteq> CHR ''/'') (rev t @ CHR ''/'' # rev s) = rev t"
    by (subst takeWhile_append2) auto
  then show ?thesis by (simp add: last_segment_def)
qed

text \<open>\<open>split_whitespace\<close> and \<open>contains\<close>.\<close>

fun split_ws :: "bytes list \<Rightarrow> bytes \<Rightarrow> bytes list" where
  "split_ws [] acc = (if acc = [] then [] else [acc])"
| "split_ws (c # cs) acc =
     (if is_whitespace c then (if acc = [] then [] else [acc]) @ split_ws cs []
      else split_ws cs (acc @ c))"

definition split_whitespace :: "bytes \<Rightarrow> bytes list" where
  "split_whitespace s = split_ws (chars s) []"

definition join_with :: "bytes \<Rightarrow> bytes list \<Rightarrow> bytes" where
  "join_with sep ws = (case ws of [] \<Rightarrow> [] | w # ws \<Rightarrow> w @ concat (map (\<lambda>x. sep @ x) ws))"

fun contains :: "bytes \<Rightarrow> bytes \<Rightarrow> bool" where
  "contains [] t = (t = [])"
| "contains (c # s) t = (prefix t (c # s) \<or> contains s t)"

text \<open>\<open>s.split(p)\<close> for a predicate on characters: the pieces between them, empty ones included.\<close>

fun split_pieces :: "(bytes \<Rightarrow> bool) \<Rightarrow> bytes list \<Rightarrow> bytes \<Rightarrow> bytes list" where
  "split_pieces P [] acc = [acc]"
| "split_pieces P (c # cs) acc =
     (if P c then acc # split_pieces P cs [] else split_pieces P cs (acc @ c))"

definition split_text :: "(bytes \<Rightarrow> bool) \<Rightarrow> bytes \<Rightarrow> bytes list" where
  "split_text P s = split_pieces P (chars s) []"

section \<open>Floating-point scalars as integer nanos\<close>

datatype f64 = Fin real | PosInf | NegInf | NaN

fun is_finite :: "f64 \<Rightarrow> bool" where
  "is_finite (Fin r) = True"
| "is_finite _ = False"

text \<open>\<open>f64::round\<close>: to the nearest integer, halves away from zero.\<close>

definition round_half_away :: "real \<Rightarrow> int" where
  "round_half_away x = (if 0 \<le> x then \<lfloor>x + 1 / 2\<rfloor> else - \<lfloor>- x + 1 / 2\<rfloor>)"

text \<open>The saturating cast \<open>as i64\<close> of an integral value.\<close>

definition saturate_i64 :: "int \<Rightarrow> i64" where
  "saturate_i64 n = (if n < - (2 ^ 63) then i64_min else if 2 ^ 63 \<le> n then i64_max else word_of_int n)"

text \<open>\<open>(value * NANOS).round() as i64\<close>, and back \<open>nanos as f64 / NANOS\<close>.\<close>

fun to_nanos :: "f64 \<Rightarrow> i64" where
  "to_nanos (Fin r) = saturate_i64 (round_half_away (r * 1000000000))"
| "to_nanos PosInf = i64_max"
| "to_nanos NegInf = i64_min"
| "to_nanos NaN = 0"

definition of_nanos :: "i64 \<Rightarrow> f64" where
  "of_nanos w = Fin (real_of_int (sint w) / 1000000000)"

text \<open>\<open>value.clamp(lo, hi)\<close>: NaN stays NaN.\<close>

fun f64_clamp :: "f64 \<Rightarrow> real \<Rightarrow> real \<Rightarrow> f64" where
  "f64_clamp (Fin r) lo hi = Fin (if r < lo then lo else if hi < r then hi else r)"
| "f64_clamp PosInf lo hi = Fin hi"
| "f64_clamp NegInf lo hi = Fin lo"
| "f64_clamp NaN lo hi = NaN"

lemma round_half_away_of_int [simp]: "round_half_away (real_of_int n) = n"
proof (cases "0 \<le> n")
  case True
  then have "\<lfloor>real_of_int n + 1 / 2\<rfloor> = n" by linarith
  with True show ?thesis by (simp add: round_half_away_def)
next
  case False
  then have "\<lfloor>- real_of_int n + 1 / 2\<rfloor> = - n" by linarith
  with False show ?thesis by (simp add: round_half_away_def)
qed

lemma saturate_i64_sint [simp]: "saturate_i64 (sint w) = w"
proof -
  have "- (2 ^ 63) \<le> sint w" "sint w < 2 ^ 63"
    using sint_greater_eq [of w] sint_less [of w] by simp_all
  then show ?thesis by (simp add: saturate_i64_def)
qed

lemma to_nanos_of_nanos [simp]: "to_nanos (of_nanos w) = w"
  by (simp add: of_nanos_def del: of_int_sint)

text \<open>\<open>snap x\<close> is what a scalar becomes once it has been through the store.\<close>

definition snap :: "f64 \<Rightarrow> f64" where
  "snap x = of_nanos (to_nanos x)"

lemma snap_idem [simp]: "snap (snap x) = snap x" "to_nanos (snap x) = to_nanos x"
  by (simp_all add: snap_def)

lemma round_half_away_error: "\<bar>real_of_int (round_half_away x) - x\<bar> \<le> 1 / 2"
  unfolding round_half_away_def abs_le_iff by (cases "0 \<le> x") (simp_all only: if_True if_False, linarith+)

lemma snap_error:
  assumes "\<bar>r\<bar> < 9000000000"
  shows "\<exists>q. snap (Fin r) = Fin q \<and> \<bar>q - r\<bar> \<le> 1 / 2000000000"
proof -
  let ?n = "round_half_away (r * 1000000000)"
  have n: "\<bar>real_of_int ?n - r * 1000000000\<bar> \<le> 1 / 2"
    by (rule round_half_away_error)
  have "\<bar>r * 1000000000\<bar> < 9000000000000000000" using assms by (simp add: abs_mult)
  with n have "\<bar>real_of_int ?n\<bar> < 9000000000000000001" by linarith
  then have b: "\<bar>?n\<bar> < 9000000000000000001" by linarith
  then have "to_nanos (Fin r) = word_of_int ?n" by (auto simp: saturate_i64_def)
  moreover have "sint (word_of_int ?n :: i64) = ?n" using b by (intro sint_word_of_int_i64) auto
  ultimately have "snap (Fin r) = Fin (real_of_int ?n / 1000000000)"
    by (simp add: snap_def of_nanos_def)
  moreover have "\<bar>real_of_int ?n / 1000000000 - r\<bar> \<le> 1 / 2000000000"
    using n by (simp add: abs_le_iff field_simps)
  ultimately show ?thesis by blast
qed

end
