(* ===== verification/Hash_Framing.thy ===== *)
theory Hash_Framing
  imports Rust_Text
begin

text \<open>
  Two interfaces the hashing code of the engine shares. \<open>field_framing\<close>: a length-prefixed field
  writer, whose laws make the byte stream fed to the hasher determine the fields.
  \<open>hash_chain\<close>: entries that carry the hash of their predecessor and a digest of a preimage that
  determines their body; the history of such a chain is determined by its last hash.
  The hash function is a parameter \<open>b3\<close>; feeding a hasher piecewise is concatenation.
\<close>

section \<open>Length-prefixed fields\<close>

definition fits :: "bytes \<Rightarrow> bool" where
  "fits bs \<longleftrightarrow> length bs < 2 ^ 64"

definition frame :: "(bytes \<Rightarrow> bytes \<Rightarrow> bytes) \<Rightarrow> (bytes \<times> bytes) list \<Rightarrow> bytes" where
  "frame enc fs = concat (map (\<lambda>(n, v). enc n v) fs)"

lemma frame_simps [simp]:
  "frame enc [] = []" "frame enc ((n, v) # fs) = enc n v @ frame enc fs"
  "frame enc (fs @ gs) = frame enc fs @ frame enc gs"
  by (simp_all add: frame_def)

definition fits_all :: "(bytes \<times> bytes) list \<Rightarrow> bool" where
  "fits_all fs \<longleftrightarrow> (\<forall>(n, v)\<in>set fs. fits n \<and> fits v)"

lemma fits_all_simps [simp]:
  "fits_all []" "fits_all ((n, v) # fs) \<longleftrightarrow> fits n \<and> fits v \<and> fits_all fs"
  "fits_all (fs @ gs) \<longleftrightarrow> fits_all fs \<and> fits_all gs"
  by (auto simp: fits_all_def)

locale field_framing =
  fixes enc :: "bytes \<Rightarrow> bytes \<Rightarrow> bytes"
  assumes enc_nonempty: "enc n v \<noteq> []"
    and enc_split: "fits n \<Longrightarrow> fits v \<Longrightarrow> fits n' \<Longrightarrow> fits v' \<Longrightarrow>
      enc n v @ r = enc n' v' @ r' \<Longrightarrow> n = n' \<and> v = v' \<and> r = r'"
begin

lemma frame_inj: "fits_all fs \<Longrightarrow> fits_all gs \<Longrightarrow> frame enc fs = frame enc gs \<Longrightarrow> fs = gs"
proof (induction fs arbitrary: gs)
  case Nil
  then show ?case using enc_nonempty by (cases gs) auto
next
  case (Cons f fs)
  obtain n v where f: "f = (n, v)" by (cases f)
  from Cons.prems(3) f enc_nonempty obtain g gs' where gs: "gs = g # gs'" by (cases gs) auto
  obtain n' v' where g: "g = (n', v')" by (cases g)
  from Cons.prems have "n = n' \<and> v = v' \<and> frame enc fs = frame enc gs'"
    by (intro enc_split) (simp_all add: f g gs)
  with Cons.prems Cons.IH [of gs'] show ?case by (simp add: f g gs)
qed

end

text \<open>The layout both instances share: length and bytes of the name, length and bytes of the value.\<close>

definition framed :: "bytes \<Rightarrow> bytes \<Rightarrow> bytes" where
  "framed name v = u64_le (length name) @ name @ u64_le (length v) @ v"

lemma framed_split:
  assumes "fits n" "fits v" "fits n'" "fits v'" "framed n v @ r = framed n' v' @ r'"
  shows "n = n' \<and> v = v' \<and> r = r'"
proof -
  from assms(5) have l: "u64_le (length n) = u64_le (length n')"
    and 1: "n @ u64_le (length v) @ v @ r = n' @ u64_le (length v') @ v' @ r'"
    by (simp_all add: framed_def)
  have "length n = length n'" using l assms(1,3) unfolding fits_def by (rule_tac u64_le_inj)
  with 1 have n: "n = n'" and 2: "u64_le (length v) @ v @ r = u64_le (length v') @ v' @ r'"
    by simp_all
  from 2 have l2: "u64_le (length v) = u64_le (length v')" and 3: "v @ r = v' @ r'" by simp_all
  have "length v = length v'" using l2 assms(2,4) unfolding fits_def by (rule_tac u64_le_inj)
  with 3 n show ?thesis by simp
qed

lemma framed_nonempty: "framed n v \<noteq> []"
  by (metis append_is_Nil_conv framed_def length_0_conv length_u64_le(1) zero_neq_numeral)

text \<open>An optional field: a presence byte under the name, then the value under the same name.\<close>

definition opt_fields :: "bytes \<Rightarrow> bytes option \<Rightarrow> (bytes \<times> bytes) list" where
  "opt_fields n o' =
     (case o' of None \<Rightarrow> [(n, [char_of (0 :: nat)])] | Some v \<Rightarrow> [(n, [char_of (1 :: nat)]), (n, v)])"

lemma opt_fields_append_inj:
  "opt_fields n a @ r = opt_fields n b @ s \<longleftrightarrow> a = b \<and> r = s"
  by (cases a; cases b) (auto simp: opt_fields_def)

lemma fits_all_opt [simp]: "fits_all (opt_fields n o') \<longleftrightarrow> fits n \<and> pred_option fits o'"
  by (cases o') (auto simp: opt_fields_def fits_def)

text \<open>A run of fields with one name, closed by a field of another name.\<close>

lemma run_inj:
  "m \<noteq> n \<Longrightarrow> map (Pair n) xs @ (m, v) # r = map (Pair n) ys @ (m, w) # s
   \<longleftrightarrow> xs = ys \<and> v = w \<and> r = s"
proof (induction xs arbitrary: ys)
  case Nil
  then show ?case by (cases ys) auto
next
  case (Cons x xs)
  then show ?case by (cases ys) auto
qed

section \<open>Hash chains\<close>

fun chain_ok ::
  "('e \<Rightarrow> string option) \<Rightarrow> ('e \<Rightarrow> string) \<Rightarrow> ('e \<Rightarrow> bytes) \<Rightarrow> (bytes \<Rightarrow> string)
   \<Rightarrow> string option \<Rightarrow> 'e list \<Rightarrow> bool" where
  "chain_ok prev hash pre b3 expected [] = True"
| "chain_ok prev hash pre b3 expected (e # es) =
     (prev e = expected \<and> hash e = b3 (pre e) \<and> chain_ok prev hash pre b3 (Some (hash e)) es)"

definition head_hash :: "('e \<Rightarrow> string) \<Rightarrow> string option \<Rightarrow> 'e list \<Rightarrow> string option" where
  "head_hash hash p es = (if es = [] then p else Some (hash (last es)))"

lemma chain_ok_append:
  "chain_ok prev hash pre b3 p (es @ fs) \<longleftrightarrow>
     chain_ok prev hash pre b3 p es \<and> chain_ok prev hash pre b3 (head_hash hash p es) fs"
  by (induction es arbitrary: p) (auto simp: head_hash_def)

lemma chain_ok_prev:
  "chain_ok prev hash pre b3 p es \<Longrightarrow> e \<in> set es
   \<Longrightarrow> prev e = p \<or> (\<exists>x. prev e = Some (b3 x))"
  by (induction es arbitrary: p) auto

locale hash_chain =
  fixes prev :: "'e \<Rightarrow> string option"
    and hash :: "'e \<Rightarrow> string"
    and pre :: "'e \<Rightarrow> bytes"
    and body :: "'e \<Rightarrow> 'b"
    and good :: "'e \<Rightarrow> bool"
  assumes pre_inj: "good e \<Longrightarrow> good f \<Longrightarrow> pre e = pre f \<Longrightarrow> body e = body f \<and> prev e = prev f"
begin

lemma history_determined:
  assumes "chain_ok prev hash pre b3 None es" and "chain_ok prev hash pre b3 None fs"
    and "list_all good es" and "list_all good fs"
    and "inj_on b3 (pre ` (set es \<union> set fs))"
    and "head_hash hash None es = head_hash hash None fs"
  shows "map (\<lambda>e. (body e, hash e)) es = map (\<lambda>e. (body e, hash e)) fs"
  using assms
proof (induction es arbitrary: fs rule: rev_induct)
  case Nil
  then show ?case by (cases fs) (auto simp: head_hash_def)
next
  case (snoc e es)
  from snoc.prems(6) obtain gs g where fs: "fs = gs @ [g]" and h: "hash e = hash g"
    by (cases fs rule: rev_cases) (auto simp: head_hash_def)
  from snoc.prems(1,2) have pe: "prev e = head_hash hash None es" "hash e = b3 (pre e)"
    and pg: "prev g = head_hash hash None gs" "hash g = b3 (pre g)"
    by (simp_all add: fs chain_ok_append)
  from h pe pg have "b3 (pre e) = b3 (pre g)" by simp
  then have "pre e = pre g"
    by (rule inj_onD [OF snoc.prems(5)]) (simp_all add: fs)
  with snoc.prems(3,4) have bg: "body e = body g" "prev e = prev g"
    using pre_inj [of e g] by (simp_all add: fs)
  have "map (\<lambda>e. (body e, hash e)) es = map (\<lambda>e. (body e, hash e)) gs"
  proof (rule snoc.IH)
    show "chain_ok prev hash pre b3 None es" "chain_ok prev hash pre b3 None gs"
      using snoc.prems(1,2) by (simp_all add: fs chain_ok_append)
    show "list_all good es" "list_all good gs"
      using snoc.prems(3,4) by (simp_all add: fs)
    show "inj_on b3 (pre ` (set es \<union> set gs))"
      by (rule inj_on_subset [OF snoc.prems(5)]) (auto simp: fs)
    show "head_hash hash None es = head_hash hash None gs"
      using pe(1) pg(1) bg(2) by simp
  qed
  with bg h show ?case by (simp add: fs)
qed

lemma extend:
  "chain_ok prev hash pre b3 None es \<Longrightarrow> prev e = head_hash hash None es \<Longrightarrow> hash e = b3 (pre e)
   \<Longrightarrow> chain_ok prev hash pre b3 None (es @ [e])"
  by (simp add: chain_ok_append)

end

end
