(* ===== verification/Store_Value.thy ===== *)
theory Store_Value
  imports Rust_Text
begin

text \<open>
  The document model the engine stores its state in (\<open>hyphae_query::Value\<close>, \<open>Record\<close>), restricted
  to what the source builds and matches, and the field readers of \<open>memory.rs\<close>, \<open>journal.rs\<close>,
  \<open>governance_audit.rs\<close> and \<open>governance_state.rs\<close>. The enum is a third-party type: \<open>VOther\<close> stands
  for every variant the source never names, so a reader's wildcard arm is a case of the model.
  An object is a \<open>BTreeMap<String, Value>\<close>, a finite partial map.
\<close>

datatype val =
    VNull
  | VInteger i64
  | VString string
  | VBytes bytes
  | VArray "val list"
  | VObject "string \<rightharpoonup> val"
  | VOther nat

type_synonym fields = "string \<rightharpoonup> val"

record doc =
  doc_key :: bytes
  doc_value :: val

datatype decode_error = FieldErr string | KeyErr

type_synonym 'a decoded = "decode_error + 'a"

section \<open>Writers\<close>

definition opt_string :: "string option \<Rightarrow> val" where
  "opt_string o' = (case o' of None \<Rightarrow> VNull | Some s \<Rightarrow> VString s)"

definition opt_integer :: "i64 option \<Rightarrow> val" where
  "opt_integer o' = (case o' of None \<Rightarrow> VNull | Some n \<Rightarrow> VInteger n)"

definition string_array_value :: "string list \<Rightarrow> val" where
  "string_array_value xs = VArray (map VString xs)"

definition nanos_value :: "f64 \<Rightarrow> val" where
  "nanos_value x = VInteger (to_nanos x)"

section \<open>Readers\<close>

definition root_fields :: "val \<Rightarrow> fields decoded" where
  "root_fields v = (case v of VObject fs \<Rightarrow> Inr fs | _ \<Rightarrow> Inl (FieldErr ''(root)''))"

definition integer_field :: "fields \<Rightarrow> string \<Rightarrow> i64 decoded" where
  "integer_field fs f = (case fs f of Some (VInteger n) \<Rightarrow> Inr n | _ \<Rightarrow> Inl (FieldErr f))"

definition string_field :: "fields \<Rightarrow> string \<Rightarrow> string decoded" where
  "string_field fs f = (case fs f of Some (VString s) \<Rightarrow> Inr s | _ \<Rightarrow> Inl (FieldErr f))"

definition nanos_field :: "fields \<Rightarrow> string \<Rightarrow> f64 decoded" where
  "nanos_field fs f = r_map of_nanos (integer_field fs f)"

text \<open>The memory decoder reads a missing optional field as an absent one ...\<close>

definition optional_string_field :: "fields \<Rightarrow> string \<Rightarrow> string option decoded" where
  "optional_string_field fs f = (case fs f of
     None \<Rightarrow> Inr None
   | Some VNull \<Rightarrow> Inr None
   | Some (VString s) \<Rightarrow> Inr (Some s)
   | _ \<Rightarrow> Inl (FieldErr f))"

definition optional_integer_field :: "fields \<Rightarrow> string \<Rightarrow> i64 option decoded" where
  "optional_integer_field fs f = (case fs f of
     None \<Rightarrow> Inr None
   | Some VNull \<Rightarrow> Inr None
   | Some (VInteger n) \<Rightarrow> Inr (Some n)
   | _ \<Rightarrow> Inl (FieldErr f))"

text \<open>... the journal and audit decoders require the field, with an explicit null.\<close>

definition required_string_option :: "fields \<Rightarrow> string \<Rightarrow> string option decoded" where
  "required_string_option fs f = (case fs f of
     Some (VString s) \<Rightarrow> Inr (Some s)
   | Some VNull \<Rightarrow> Inr None
   | _ \<Rightarrow> Inl (FieldErr f))"

definition required_nanos_option :: "fields \<Rightarrow> string \<Rightarrow> f64 option decoded" where
  "required_nanos_option fs f = (case fs f of
     Some (VInteger n) \<Rightarrow> r_map Some (nanos_field fs f)
   | Some VNull \<Rightarrow> Inr None
   | _ \<Rightarrow> Inl (FieldErr f))"

definition string_item :: "string \<Rightarrow> val \<Rightarrow> string decoded" where
  "string_item f v = (case v of VString s \<Rightarrow> Inr s | _ \<Rightarrow> Inl (FieldErr f))"

definition string_array_field :: "fields \<Rightarrow> string \<Rightarrow> string list decoded" where
  "string_array_field fs f = (case fs f of
     Some (VArray vs) \<Rightarrow> r_collect (string_item f) vs
   | _ \<Rightarrow> Inl (FieldErr f))"

section \<open>What a reader makes of a written field\<close>

lemma root_fields_VObject [codec]: "root_fields (VObject fs) = Inr fs"
  by (simp add: root_fields_def)

lemma read_integer [codec]: "fs f = Some (VInteger n) \<Longrightarrow> integer_field fs f = Inr n"
  by (simp add: integer_field_def)

lemma read_string [codec]: "fs f = Some (VString s) \<Longrightarrow> string_field fs f = Inr s"
  by (simp add: string_field_def)

lemma read_nanos [codec]: "fs f = Some (nanos_value x) \<Longrightarrow> nanos_field fs f = Inr (snap x)"
  by (simp add: nanos_field_def nanos_value_def read_integer snap_def)

lemma read_opt_string [codec]:
  "fs f = Some (opt_string o') \<Longrightarrow> optional_string_field fs f = Inr o'"
  by (cases o') (simp_all add: optional_string_field_def opt_string_def)

lemma read_present_string [codec]:
  "fs f = Some (VString s) \<Longrightarrow> optional_string_field fs f = Inr (Some s)"
  by (simp add: optional_string_field_def)

lemma read_absent_string [codec]: "fs f = None \<Longrightarrow> optional_string_field fs f = Inr None"
  by (simp add: optional_string_field_def)

lemma read_opt_integer [codec]:
  "fs f = Some (opt_integer o') \<Longrightarrow> optional_integer_field fs f = Inr o'"
  by (cases o') (simp_all add: optional_integer_field_def opt_integer_def)

lemma read_present_integer [codec]:
  "fs f = Some (VInteger n) \<Longrightarrow> optional_integer_field fs f = Inr (Some n)"
  by (simp add: optional_integer_field_def)

lemma read_required_string [codec]:
  "fs f = Some (opt_string o') \<Longrightarrow> required_string_option fs f = Inr o'"
  by (cases o') (simp_all add: required_string_option_def opt_string_def)

lemma read_required_nanos [codec]:
  "fs f = Some (case o' of None \<Rightarrow> VNull | Some x \<Rightarrow> nanos_value x)
   \<Longrightarrow> required_nanos_option fs f = Inr (map_option snap o')"
  by (cases o')
     (simp_all add: required_nanos_option_def nanos_field_def nanos_value_def integer_field_def snap_def)

lemma read_string_array [codec]:
  "fs f = Some (string_array_value xs) \<Longrightarrow> string_array_field fs f = Inr xs"
  using r_collect_map_Inr [of xs "string_item f" VString id]
  by (simp add: string_array_field_def string_array_value_def string_item_def)

section \<open>Enumerations stored by name\<close>

text \<open>
  The contract every stored enumeration keeps: \<open>parse\<close> reads back exactly the names \<open>as_str\<close>
  writes. What the decoders need of an enumeration is proved once here.
\<close>

locale enum_codec =
  fixes to_name :: "'a \<Rightarrow> string"
    and of_name :: "string \<Rightarrow> 'a option"
  assumes of_to_name: "of_name (to_name x) = Some x"
    and to_of_name: "of_name s = Some x \<Longrightarrow> to_name x = s"
begin

lemma of_name_iff: "of_name s = Some x \<longleftrightarrow> s = to_name x"
  using of_to_name to_of_name by blast

lemma to_name_inj: "to_name x = to_name y \<longleftrightarrow> x = y"
  by (metis of_to_name option.inject)

lemma of_name_None: "of_name s = None \<longleftrightarrow> s \<notin> range to_name"
  by (metis (no_types, lifting) not_None_eq of_name_iff rangeE rangeI)

lemma decode_to_name: "ok_or e (of_name (to_name x)) = Inr x"
  by (simp add: of_to_name)

lemma collect_names: "r_collect (\<lambda>s. ok_or e (of_name s)) (map to_name xs) = Inr xs"
  by (induction xs) (simp_all add: of_to_name)

end

end
