(* ===== verification/Cognition_Types.thy ===== *)
theory Cognition_Types
  imports Store_Value
begin

text \<open>
  The closed vocabularies of \<open>celiums-cognition\<close> (\<open>lib.rs\<close>, \<open>journal.rs\<close>, \<open>entities.rs\<close>,
  \<open>affect.rs\<close>) that stored documents refer to by name, each with its \<open>as_str\<close> and \<open>parse\<close>, and the
  agent-identifier check of the journal. Every pair is an instance of the contract \<open>enum_codec\<close>.
\<close>

section \<open>Memories\<close>

datatype memory_type = Episodic | Semantic | Procedural | Emotional

fun memory_type_as_str :: "memory_type \<Rightarrow> string" where
  "memory_type_as_str Episodic = ''episodic''"
| "memory_type_as_str Semantic = ''semantic''"
| "memory_type_as_str Procedural = ''procedural''"
| "memory_type_as_str Emotional = ''emotional''"

definition memory_type_parse :: "string \<Rightarrow> memory_type option" where
  "memory_type_parse s =
     (if s = ''episodic'' then Some Episodic
      else if s = ''semantic'' then Some Semantic
      else if s = ''procedural'' then Some Procedural
      else if s = ''emotional'' then Some Emotional
      else None)"

datatype memory_state = Active | Consolidated | Archived

fun memory_state_as_str :: "memory_state \<Rightarrow> string" where
  "memory_state_as_str Active = ''active''"
| "memory_state_as_str Consolidated = ''consolidated''"
| "memory_state_as_str Archived = ''archived''"

definition memory_state_parse :: "string \<Rightarrow> memory_state option" where
  "memory_state_parse s =
     (if s = ''active'' then Some Active
      else if s = ''consolidated'' then Some Consolidated
      else if s = ''archived'' then Some Archived
      else None)"

datatype scope = Session | Project | Global

fun scope_as_str :: "scope \<Rightarrow> string" where
  "scope_as_str Session = ''session''"
| "scope_as_str Project = ''project''"
| "scope_as_str Global = ''global''"

definition scope_parse :: "string \<Rightarrow> scope option" where
  "scope_parse s =
     (if s = ''session'' then Some Session
      else if s = ''project'' then Some Project
      else if s = ''global'' then Some Global
      else None)"

interpretation memory_type: enum_codec memory_type_as_str memory_type_parse
  by unfold_locales ((case_tac x; simp add: memory_type_parse_def),
    (auto simp: memory_type_parse_def split: if_splits))

interpretation memory_state: enum_codec memory_state_as_str memory_state_parse
  by unfold_locales ((case_tac x; simp add: memory_state_parse_def),
    (auto simp: memory_state_parse_def split: if_splits))

interpretation scope: enum_codec scope_as_str scope_parse
  by unfold_locales ((case_tac x; simp add: scope_parse_def),
    (auto simp: scope_parse_def split: if_splits))

text \<open>A point in pleasure-arousal-dominance space.\<close>

record pad =
  pleasure :: f64
  arousal :: f64
  dominance :: f64

section \<open>Entities\<close>

datatype entity_kind = Person | Technology | ProjectEntity

fun entity_kind_as_str :: "entity_kind \<Rightarrow> string" where
  "entity_kind_as_str Person = ''person''"
| "entity_kind_as_str Technology = ''technology''"
| "entity_kind_as_str ProjectEntity = ''project''"

definition entity_kind_parse :: "string \<Rightarrow> entity_kind option" where
  "entity_kind_parse s =
     (if s = ''person'' then Some Person
      else if s = ''technology'' then Some Technology
      else if s = ''project'' then Some ProjectEntity
      else None)"

interpretation entity_kind: enum_codec entity_kind_as_str entity_kind_parse
  by unfold_locales ((case_tac x; simp add: entity_kind_parse_def),
    (auto simp: entity_kind_parse_def split: if_splits))

record extracted_entity =
  ent_name :: string
  ent_kind :: entity_kind
  ent_salience :: f64

section \<open>Journal\<close>

datatype journal_entry_type =
  Reflection | Decision | Lesson | Belief | Emotion | Arc | Doubt

fun entry_type_as_str :: "journal_entry_type \<Rightarrow> string" where
  "entry_type_as_str Reflection = ''reflection''"
| "entry_type_as_str Decision = ''decision''"
| "entry_type_as_str Lesson = ''lesson''"
| "entry_type_as_str Belief = ''belief''"
| "entry_type_as_str Emotion = ''emotion''"
| "entry_type_as_str Arc = ''arc''"
| "entry_type_as_str Doubt = ''doubt''"

definition entry_type_parse :: "string \<Rightarrow> journal_entry_type option" where
  "entry_type_parse s =
     (if s = ''reflection'' then Some Reflection
      else if s = ''decision'' then Some Decision
      else if s = ''lesson'' then Some Lesson
      else if s = ''belief'' then Some Belief
      else if s = ''emotion'' then Some Emotion
      else if s = ''arc'' then Some Arc
      else if s = ''doubt'' then Some Doubt
      else None)"

fun entry_type_importance :: "journal_entry_type \<Rightarrow> real" where
  "entry_type_importance Reflection = 60 / 100"
| "entry_type_importance Decision = 85 / 100"
| "entry_type_importance Lesson = 75 / 100"
| "entry_type_importance Belief = 80 / 100"
| "entry_type_importance Emotion = 55 / 100"
| "entry_type_importance Arc = 90 / 100"
| "entry_type_importance Doubt = 65 / 100"

datatype supersession_relation = Superseded | Nuanced | Reaffirmed | Recanted

fun supersession_as_str :: "supersession_relation \<Rightarrow> string" where
  "supersession_as_str Superseded = ''superseded''"
| "supersession_as_str Nuanced = ''nuanced''"
| "supersession_as_str Reaffirmed = ''reaffirmed''"
| "supersession_as_str Recanted = ''recanted''"

definition supersession_parse :: "string \<Rightarrow> supersession_relation option" where
  "supersession_parse s =
     (if s = ''superseded'' then Some Superseded
      else if s = ''nuanced'' then Some Nuanced
      else if s = ''reaffirmed'' then Some Reaffirmed
      else if s = ''recanted'' then Some Recanted
      else None)"

interpretation entry_type: enum_codec entry_type_as_str entry_type_parse
  by unfold_locales ((case_tac x; simp add: entry_type_parse_def),
    (auto simp: entry_type_parse_def split: if_splits))

interpretation supersession_relation: enum_codec supersession_as_str supersession_parse
  by unfold_locales ((case_tac x; simp add: supersession_parse_def),
    (auto simp: supersession_parse_def split: if_splits))

text \<open>\<open>[A-Za-z0-9_:.-]{1,128}\<close>.\<close>

definition agent_byte :: "char \<Rightarrow> bool" where
  "agent_byte c \<longleftrightarrow>
     byte_in 48 57 c \<or> byte_in 65 90 c \<or> byte_in 97 122 c \<or> c \<in> set ''_:.-''"

definition is_valid_agent_id :: "string \<Rightarrow> bool" where
  "is_valid_agent_id s \<longleftrightarrow> s \<noteq> [] \<and> length s \<le> 128 \<and> list_all agent_byte s"

lemma valid_agent_id_no_separator:
  assumes "is_valid_agent_id s"
  shows "CHR ''/'' \<notin> set s" "CHR ''|'' \<notin> set s"
  using assms by (auto simp: is_valid_agent_id_def list_all_iff agent_byte_def byte_in_def code_def)

lemma valid_agent_id_ascii: "is_valid_agent_id s \<Longrightarrow> ascii s"
  by (auto simp: is_valid_agent_id_def ascii_def list_all_iff agent_byte_def byte_in_def code_def)

end
