(* ===== verification/Governance.thy ===== *)
theory Governance
  imports Cognition_Types "HOL-Library.Product_Lexorder"
begin

text \<open>
  \<open>governance.rs\<close>: how a text is classified when it is stored (trust, poisoning risk, sensitivity,
  treatment, enforcement), what an authority may be shown of it, and the redaction of the spans the
  detectors report. The regular expressions belong to a third-party engine; a \<open>detectors\<close> record of
  the matches they report is a parameter of the classification.
\<close>

section \<open>Vocabulary\<close>

datatype content_role = Observation | Description | OperationalRequest

datatype memory_purpose = ConversationalContext | Personalization | TaskExecution | SafetyAudit

datatype sensitivity =
  Sensitivity_None | Sensitivity_Personal | Sensitivity_HighlySensitive | Sensitivity_Secret

datatype trust_level = Trust_Trusted | Trust_UserProvided | Trust_Untrusted

datatype source_trust = Source_Trusted | Source_UserProvided | Source_External | Source_Unknown

datatype poisoning_risk = Poisoning_None | SuspiciousInstruction | PersistentInstruction

datatype disclosure_class =
  Disclose_Include | Disclose_Summarize | Disclose_Redact | Disclose_Restrict | Disclose_Abstain

datatype treatment =
  Treatment_Normal | Treatment_Sensitive | Treatment_Restricted | Treatment_Quarantined

datatype enforcement_decision =
  Enforce_Allow | Enforce_AllowRestricted | Enforce_Reject | Enforce_Quarantine

datatype pii_kind = EmailAddress | PhoneNumber | SocialSecurityNumber | PaymentCard

datatype secret_kind = AwsAccessKey | BearerToken | PrivateKey | ApiKey | Password

datatype redaction_category = Pii pii_kind | Secret secret_kind

datatype disclosure_authority = Owner | Agent | Auditor | ThirdParty

text \<open>The derived orders of \<open>PiiKind\<close> and \<open>SecretKind\<close>: the order of the constructors.\<close>

fun pii_rank :: "pii_kind \<Rightarrow> nat" where
  "pii_rank EmailAddress = 0"
| "pii_rank PhoneNumber = 1"
| "pii_rank SocialSecurityNumber = 2"
| "pii_rank PaymentCard = 3"

fun secret_rank :: "secret_kind \<Rightarrow> nat" where
  "secret_rank AwsAccessKey = 0"
| "secret_rank BearerToken = 1"
| "secret_rank PrivateKey = 2"
| "secret_rank ApiKey = 3"
| "secret_rank Password = 4"

lemma pii_rank_inj: "pii_rank a = pii_rank b \<Longrightarrow> a = b"
  by (cases a; cases b) simp_all

lemma secret_rank_inj: "secret_rank a = secret_rank b \<Longrightarrow> a = b"
  by (cases a; cases b) simp_all

instantiation pii_kind :: linorder
begin

definition less_eq_pii_kind :: "pii_kind \<Rightarrow> pii_kind \<Rightarrow> bool" where
  "less_eq_pii_kind a b \<longleftrightarrow> pii_rank a \<le> pii_rank b"

definition less_pii_kind :: "pii_kind \<Rightarrow> pii_kind \<Rightarrow> bool" where
  "less_pii_kind a b \<longleftrightarrow> pii_rank a < pii_rank b"

instance
  by standard (auto simp: less_eq_pii_kind_def less_pii_kind_def intro: pii_rank_inj)

end

instantiation secret_kind :: linorder
begin

definition less_eq_secret_kind :: "secret_kind \<Rightarrow> secret_kind \<Rightarrow> bool" where
  "less_eq_secret_kind a b \<longleftrightarrow> secret_rank a \<le> secret_rank b"

definition less_secret_kind :: "secret_kind \<Rightarrow> secret_kind \<Rightarrow> bool" where
  "less_secret_kind a b \<longleftrightarrow> secret_rank a < secret_rank b"

instance
  by standard (auto simp: less_eq_secret_kind_def less_secret_kind_def intro: secret_rank_inj)

end

record redaction_span =
  span_start :: nat
  span_end :: nat
  span_category :: redaction_category
  span_replacement :: string

record governance_trace =
  policy_id :: string
  policy_version :: string
  trace_policy_hash :: string
  evaluated_at_ms :: i64
  ethics_enforcement_blocked :: bool
  pii :: "pii_kind list"
  secrets :: "secret_kind list"
  redaction_spans :: "redaction_span list"

record governance_classification =
  gov_role :: content_role
  gov_purpose :: memory_purpose
  gov_trust :: trust_level
  gov_sensitivity :: sensitivity
  gov_poisoning_risk :: poisoning_risk
  gov_treatment :: treatment
  gov_enforcement :: enforcement_decision
  gov_disclosure :: disclosure_class
  gov_trace :: governance_trace

record disclosure_outcome =
  disclosure_class :: disclosure_class
  disclosure_summary :: "string option"

section \<open>Policy identity\<close>

definition governance_policy_id :: string where
  "governance_policy_id = ''celiums-memory-governance''"

definition governance_policy_version :: string where
  "governance_policy_version = ''2.0.0''"

definition restricted_summary :: string where
  "restricted_summary = ''Content withheld by memory governance policy.''"

definition policy_manifest :: string where
  "policy_manifest =
     ''celiums-memory-governance|2.0.0|''
     @ ''precedence=untrusted-poison,secret,ethics,pii,normal|''
     @ ''roles=observation,description,operational-request|''
     @ ''treatments=normal,sensitive,restricted,quarantined|''
     @ ''disclosure=include,summarize,redact,restrict,abstain|''
     @ ''hash=fnv1a64''"

definition hex_digit :: "nat \<Rightarrow> char" where
  "hex_digit d = (if d < 10 then char_of (48 + d) else char_of (87 + d))"

fun hex_nat :: "nat \<Rightarrow> nat \<Rightarrow> string" where
  "hex_nat 0 n = []"
| "hex_nat (Suc k) n = hex_nat k (n div 16) @ [hex_digit (n mod 16)]"

definition fnv1a64_step :: "u64 \<Rightarrow> char \<Rightarrow> u64" where
  "fnv1a64_step h c = xor h (word_of_nat (code c)) * 0x100000001b3"

definition fnv1a64 :: "bytes \<Rightarrow> u64" where
  "fnv1a64 bs = foldl fnv1a64_step 0xcbf29ce484222325 bs"

definition policy_hash :: string where
  "policy_hash = ''fnv1a64:'' @ hex_nat 16 (unat (fnv1a64 policy_manifest))"

section \<open>Detection\<close>

text \<open>The matches the compiled patterns report on a text: ranges for \<open>find_iter\<close>, the range of
  capture group 1 (if it took part in the match) for \<open>captures_iter\<close>, a truth value for
  \<open>is_match\<close>.\<close>

record detectors =
  email_re :: "bytes \<Rightarrow> (nat \<times> nat) list"
  phone_re :: "bytes \<Rightarrow> (nat \<times> nat) list"
  ssn_re :: "bytes \<Rightarrow> (nat \<times> nat) list"
  card_re :: "bytes \<Rightarrow> (nat \<times> nat) list"
  aws_re :: "bytes \<Rightarrow> (nat \<times> nat) list"
  bearer_re :: "bytes \<Rightarrow> (nat \<times> nat) list"
  private_key_re :: "bytes \<Rightarrow> (nat \<times> nat) list"
  api_key_re :: "bytes \<Rightarrow> (nat \<times> nat) option list"
  password_re :: "bytes \<Rightarrow> (nat \<times> nat) option list"
  persistent_instruction_re :: "(bytes \<Rightarrow> bool) list"
  suspicious_instruction_re :: "(bytes \<Rightarrow> bool) list"

definition slice :: "'a list \<Rightarrow> nat \<Rightarrow> nat \<Rightarrow> 'a list" where
  "slice xs a b = take (b - a) (drop a xs)"

fun mk_span :: "redaction_category \<Rightarrow> string \<Rightarrow> nat \<times> nat \<Rightarrow> redaction_span" where
  "mk_span cat rep (a, b) =
     \<lparr>span_start = a, span_end = b, span_category = cat, span_replacement = rep\<rparr>"

definition add_matches ::
  "(bytes \<Rightarrow> (nat \<times> nat) list) \<Rightarrow> bytes \<Rightarrow> redaction_category \<Rightarrow> string \<Rightarrow> redaction_span list" where
  "add_matches re content cat rep = map (mk_span cat rep) (re content)"

definition add_capture_matches ::
  "(bytes \<Rightarrow> (nat \<times> nat) option list) \<Rightarrow> bytes \<Rightarrow> redaction_category \<Rightarrow> string
   \<Rightarrow> redaction_span list" where
  "add_capture_matches re content cat rep =
     map (mk_span cat rep) (List.map_filter (\<lambda>x. x) (re content))"

definition luhn_digits :: "bytes \<Rightarrow> nat list" where
  "luhn_digits s = map (\<lambda>c. code c - 48) (filter (byte_in 48 57) s)"

definition luhn_value :: "nat \<Rightarrow> nat \<Rightarrow> nat \<Rightarrow> nat" where
  "luhn_value parity i d =
     (if i mod 2 = parity then (let doubled = d * 2 in if 9 < doubled then doubled - 9 else doubled)
      else d)"

definition luhn_sum :: "nat list \<Rightarrow> nat" where
  "luhn_sum ds = sum_list (map (\<lambda>(i, d). luhn_value (length ds mod 2) i d) (enumerate 0 ds))"

definition valid_luhn :: "bytes \<Rightarrow> bool" where
  "valid_luhn s =
     (let ds = luhn_digits s
      in if length ds < 13 \<or> 19 < length ds then False else luhn_sum ds mod 10 = 0)"

definition span_key :: "redaction_span \<Rightarrow> nat \<times> nat" where
  "span_key s = (span_start s, span_end s)"

text \<open>\<open>sort_by\<close> start, then the longer span first; the key is \<open>(start, -end)\<close>.\<close>

definition span_order :: "redaction_span \<Rightarrow> int \<times> int" where
  "span_order s = (int (span_start s), - int (span_end s))"

fun keep_disjoint :: "redaction_span list \<Rightarrow> redaction_span list \<Rightarrow> redaction_span list" where
  "keep_disjoint kept [] = kept"
| "keep_disjoint kept (c # cs) =
     (if kept = [] \<or> span_end (last kept) \<le> span_start c
      then keep_disjoint (kept @ [c]) cs else keep_disjoint kept cs)"

definition normalize_spans :: "redaction_span list \<Rightarrow> redaction_span list" where
  "normalize_spans spans = keep_disjoint [] (sort_key span_order spans)"

definition raw_redactions :: "detectors \<Rightarrow> bytes \<Rightarrow> redaction_span list" where
  "raw_redactions D content =
     add_matches (email_re D) content (Pii EmailAddress) ''[REDACTED_EMAIL]''
     @ add_matches (phone_re D) content (Pii PhoneNumber) ''[REDACTED_PHONE]''
     @ add_matches (ssn_re D) content (Pii SocialSecurityNumber) ''[REDACTED_SSN]''
     @ map (mk_span (Pii PaymentCard) ''[REDACTED_CARD]'')
         (filter (\<lambda>(a, b). valid_luhn (slice content a b)) (card_re D content))
     @ add_matches (aws_re D) content (Secret AwsAccessKey) ''[REDACTED_AWS_KEY]''
     @ add_matches (bearer_re D) content (Secret BearerToken) ''[REDACTED_BEARER_TOKEN]''
     @ add_matches (private_key_re D) content (Secret PrivateKey) ''[REDACTED_PRIVATE_KEY]''
     @ add_capture_matches (api_key_re D) content (Secret ApiKey) ''[REDACTED_API_KEY]''
     @ add_capture_matches (password_re D) content (Secret Password) ''[REDACTED_PASSWORD]''"

definition detect_redactions :: "detectors \<Rightarrow> bytes \<Rightarrow> redaction_span list" where
  "detect_redactions D content = normalize_spans (raw_redactions D content)"

definition detect_poisoning :: "detectors \<Rightarrow> bytes \<Rightarrow> poisoning_risk" where
  "detect_poisoning D content =
     (if list_ex (\<lambda>p. p content) (persistent_instruction_re D) then PersistentInstruction
      else if list_ex (\<lambda>p. p content) (suspicious_instruction_re D) then SuspiciousInstruction
      else Poisoning_None)"

text \<open>A \<open>BTreeSet\<close> read back in order: ascending, without repetitions.\<close>

definition detected_pii :: "redaction_span list \<Rightarrow> pii_kind list" where
  "detected_pii spans =
     sorted_list_of_set (set (List.map_filter
       (\<lambda>s. case span_category s of Pii k \<Rightarrow> Some k | Secret _ \<Rightarrow> None) spans))"

definition detected_secrets :: "redaction_span list \<Rightarrow> secret_kind list" where
  "detected_secrets spans =
     sorted_list_of_set (set (List.map_filter
       (\<lambda>s. case span_category s of Secret k \<Rightarrow> Some k | Pii _ \<Rightarrow> None) spans))"

section \<open>Classification\<close>

fun trust_level_of :: "source_trust \<Rightarrow> trust_level" where
  "trust_level_of Source_Trusted = Trust_Trusted"
| "trust_level_of Source_UserProvided = Trust_UserProvided"
| "trust_level_of Source_External = Trust_Untrusted"
| "trust_level_of Source_Unknown = Trust_Untrusted"

definition sensitivity_of :: "pii_kind list \<Rightarrow> secret_kind list \<Rightarrow> sensitivity" where
  "sensitivity_of ps ss =
     (if ss \<noteq> [] then Sensitivity_Secret
      else if list_ex (\<lambda>k. k = SocialSecurityNumber \<or> k = PaymentCard) ps
        then Sensitivity_HighlySensitive
      else if ps \<noteq> [] then Sensitivity_Personal
      else Sensitivity_None)"

definition treatment_of ::
  "trust_level \<Rightarrow> poisoning_risk \<Rightarrow> sensitivity \<Rightarrow> bool \<Rightarrow> treatment" where
  "treatment_of trust poisoning sens ethics_blocked =
     (if trust = Trust_Untrusted \<and> poisoning \<noteq> Poisoning_None then Treatment_Quarantined
      else if sens = Sensitivity_Secret \<or> poisoning \<noteq> Poisoning_None \<or> ethics_blocked
        then Treatment_Restricted
      else if sens \<noteq> Sensitivity_None then Treatment_Sensitive
      else Treatment_Normal)"

definition enforcement_of :: "treatment \<Rightarrow> content_role \<Rightarrow> bool \<Rightarrow> enforcement_decision" where
  "enforcement_of t role ethics_blocked =
     (if t = Treatment_Quarantined then Enforce_Quarantine
      else if ethics_blocked \<and> role = OperationalRequest then Enforce_Reject
      else if t = Treatment_Sensitive \<or> t = Treatment_Restricted then Enforce_AllowRestricted
      else Enforce_Allow)"

fun disclosure_class_of ::
  "treatment \<Rightarrow> disclosure_authority \<Rightarrow> memory_purpose \<Rightarrow> disclosure_class" where
  "disclosure_class_of Treatment_Normal _ _ = Disclose_Include"
| "disclosure_class_of Treatment_Sensitive Owner _ = Disclose_Include"
| "disclosure_class_of Treatment_Sensitive Auditor SafetyAudit = Disclose_Include"
| "disclosure_class_of Treatment_Sensitive Auditor _ = Disclose_Redact"
| "disclosure_class_of Treatment_Sensitive Agent TaskExecution = Disclose_Redact"
| "disclosure_class_of Treatment_Sensitive Agent _ = Disclose_Summarize"
| "disclosure_class_of Treatment_Sensitive ThirdParty _ = Disclose_Restrict"
| "disclosure_class_of Treatment_Restricted Auditor SafetyAudit = Disclose_Summarize"
| "disclosure_class_of Treatment_Restricted Owner _ = Disclose_Summarize"
| "disclosure_class_of Treatment_Restricted _ _ = Disclose_Restrict"
| "disclosure_class_of Treatment_Quarantined Auditor SafetyAudit = Disclose_Restrict"
| "disclosure_class_of Treatment_Quarantined _ _ = Disclose_Abstain"

definition disclosure_decision ::
  "treatment \<Rightarrow> disclosure_authority \<Rightarrow> memory_purpose \<Rightarrow> disclosure_outcome" where
  "disclosure_decision t auth purpose =
     (let c = disclosure_class_of t auth purpose
      in \<lparr>disclosure_class = c,
          disclosure_summary =
            (if c = Disclose_Summarize \<or> c = Disclose_Restrict then Some restricted_summary
             else None)\<rparr>)"

definition classify_governance ::
  "detectors \<Rightarrow> bytes \<Rightarrow> source_trust \<Rightarrow> content_role \<Rightarrow> memory_purpose \<Rightarrow> i64 \<Rightarrow> bool
   \<Rightarrow> governance_classification" where
  "classify_governance D content source role purpose now ethics_blocked =
     (let trust = trust_level_of source;
          poisoning = detect_poisoning D content;
          spans = detect_redactions D content;
          ps = detected_pii spans;
          ss = detected_secrets spans;
          sens = sensitivity_of ps ss;
          t = treatment_of trust poisoning sens ethics_blocked
      in \<lparr>gov_role = role, gov_purpose = purpose, gov_trust = trust, gov_sensitivity = sens,
          gov_poisoning_risk = poisoning, gov_treatment = t,
          gov_enforcement = enforcement_of t role ethics_blocked,
          gov_disclosure = disclosure_class (disclosure_decision t Agent purpose),
          gov_trace =
            \<lparr>policy_id = governance_policy_id, policy_version = governance_policy_version,
             trace_policy_hash = policy_hash, evaluated_at_ms = now,
             ethics_enforcement_blocked = ethics_blocked, pii = ps, secrets = ss,
             redaction_spans = spans\<rparr>\<rparr>)"

section \<open>Redaction\<close>

text \<open>\<open>str::is_char_boundary\<close>.\<close>

definition is_char_boundary :: "bytes \<Rightarrow> nat \<Rightarrow> bool" where
  "is_char_boundary s i \<longleftrightarrow>
     i = 0 \<or> i = length s \<or> i < length s \<and> \<not> (128 \<le> code (s ! i) \<and> code (s ! i) < 192)"

definition span_skipped :: "bytes \<Rightarrow> nat \<Rightarrow> redaction_span \<Rightarrow> bool" where
  "span_skipped content cursor s \<longleftrightarrow>
     span_start s < cursor \<or> span_end s \<le> span_start s \<or> length content < span_end s
     \<or> \<not> is_char_boundary content (span_start s) \<or> \<not> is_char_boundary content (span_end s)"

fun redact_loop :: "bytes \<Rightarrow> redaction_span list \<Rightarrow> nat \<Rightarrow> bytes \<Rightarrow> bytes" where
  "redact_loop content [] cursor out = out @ drop cursor content"
| "redact_loop content (s # ss) cursor out =
     (if span_skipped content cursor s then redact_loop content ss cursor out
      else redact_loop content ss (span_end s)
             (out @ slice content cursor (span_start s) @ span_replacement s))"

definition redact :: "bytes \<Rightarrow> redaction_span list \<Rightarrow> bytes" where
  "redact content spans = redact_loop content (sort_key span_key spans) 0 []"

end
