(* ===== verification/Redaction.thy ===== *)
theory Redaction
  imports Governance
begin

text \<open>
  Correctness of the redaction path of \<open>governance.rs\<close>: what the span normalisation keeps, a
  positional specification of \<open>redact\<close> that the loop is proved equal to, and the secrecy of the
  covered bytes that follows from it.
\<close>

section \<open>Normalised spans\<close>

definition disjoint_after :: "redaction_span \<Rightarrow> redaction_span \<Rightarrow> bool" where
  "disjoint_after a b \<longleftrightarrow> span_end a \<le> span_start b"

definition proper_span :: "redaction_span \<Rightarrow> bool" where
  "proper_span s \<longleftrightarrow> span_start s < span_end s"

definition covers :: "redaction_span \<Rightarrow> nat \<Rightarrow> bool" where
  "covers s i \<longleftrightarrow> span_start s \<le> i \<and> i < span_end s"

lemma set_keep_disjoint: "set (keep_disjoint kept cs) \<subseteq> set kept \<union> set cs"
proof (induction cs arbitrary: kept)
  case (Cons c cs)
  show ?case using Cons.IH [of kept] Cons.IH [of "kept @ [c]"] by auto
qed simp

lemma kept_stay: "set kept \<subseteq> set (keep_disjoint kept cs)"
  by (induction cs arbitrary: kept) (simp, fastforce)

lemma sorted_wrt_snoc_last:
  assumes "sorted_wrt disjoint_after kept" and "\<forall>s\<in>set kept. proper_span s"
    and "kept = [] \<or> span_end (last kept) \<le> span_start c"
  shows "sorted_wrt disjoint_after (kept @ [c])"
proof (cases kept rule: rev_cases)
  case (snoc ks k)
  have "disjoint_after x c" if "x \<in> set kept" for x
    using assms that snoc
    by (auto simp: sorted_wrt_append disjoint_after_def proper_span_def)
  then show ?thesis using assms(1) by (simp add: sorted_wrt_append)
qed simp

lemma keep_disjoint_sorted:
  "sorted_wrt disjoint_after kept \<Longrightarrow> \<forall>s\<in>set kept \<union> set cs. proper_span s
   \<Longrightarrow> sorted_wrt disjoint_after (keep_disjoint kept cs)"
proof (induction cs arbitrary: kept)
  case (Cons c cs)
  show ?case
  proof (cases "kept = [] \<or> span_end (last kept) \<le> span_start c")
    case True
    then have "sorted_wrt disjoint_after (kept @ [c])"
      using Cons.prems by (intro sorted_wrt_snoc_last) auto
    with True Cons.prems(2) show ?thesis by (auto intro!: Cons.IH)
  next
    case False
    with Cons.prems show ?thesis by (auto intro!: Cons.IH)
  qed
qed simp

lemma keep_disjoint_covers:
  "sorted (map span_start (kept @ cs)) \<Longrightarrow> \<forall>s\<in>set cs. proper_span s \<Longrightarrow> s \<in> set cs
   \<Longrightarrow> \<exists>k\<in>set (keep_disjoint kept cs). covers k (span_start s)"
proof (induction cs arbitrary: kept)
  case (Cons c cs)
  show ?case
  proof (cases "kept = [] \<or> span_end (last kept) \<le> span_start c")
    case True
    show ?thesis
    proof (cases "s = c")
      case True': True
      have "c \<in> set (keep_disjoint (kept @ [c]) cs)"
        using kept_stay [of "kept @ [c]" cs] by auto
      with True' True Cons.prems(2) show ?thesis
        by (auto simp: covers_def proper_span_def)
    next
      case False
      with True Cons.prems show ?thesis by (auto intro!: Cons.IH)
    qed
  next
    case False
    then have ne: "kept \<noteq> []" by simp
    show ?thesis
    proof (cases "s = c")
      case True
      from ne have "last kept \<in> set kept" by simp
      then have "last kept \<in> set (keep_disjoint kept cs)" using kept_stay by blast
      moreover have "span_start (last kept) \<le> span_start c"
        using Cons.prems(1) ne by (auto simp: sorted_append)
      ultimately show ?thesis using False True
        by (auto simp: covers_def intro!: bexI [of _ "last kept"])
    next
      case s: False
      have "sorted (map span_start (kept @ cs))"
        using Cons.prems(1) by (auto simp: sorted_append)
      with False s Cons.prems show ?thesis by (auto intro!: Cons.IH)
    qed
  qed
qed simp

lemma sort_key_span_order: "sorted (map span_start (sort_key span_order spans))"
proof -
  have "sorted_wrt (\<lambda>x y. span_order x \<le> span_order y) (sort_key span_order spans)"
    using sorted_sort_key [of span_order spans] by (simp only: sorted_map)
  then show ?thesis
    unfolding sorted_map
    by (rule sorted_wrt_mono_rel [rotated]) (auto simp: less_eq_prod_def span_order_def)
qed

lemma normalize_spans_subset: "set (normalize_spans spans) \<subseteq> set spans"
  using set_keep_disjoint [of "[]"] by (simp add: normalize_spans_def) force

lemma normalize_spans_sorted:
  "\<forall>s\<in>set spans. proper_span s \<Longrightarrow> sorted_wrt disjoint_after (normalize_spans spans)"
  unfolding normalize_spans_def by (rule keep_disjoint_sorted) simp_all

lemma normalize_spans_covers:
  "\<forall>s\<in>set spans. proper_span s \<Longrightarrow> s \<in> set spans
   \<Longrightarrow> \<exists>k\<in>set (normalize_spans spans). covers k (span_start s)"
  unfolding normalize_spans_def using sort_key_span_order [of spans]
  by (intro keep_disjoint_covers) simp_all

section \<open>A positional specification of redaction\<close>

text \<open>What the output holds for the byte at one position.\<close>

definition piece :: "bytes \<Rightarrow> redaction_span list \<Rightarrow> nat \<Rightarrow> bytes" where
  "piece content spans i =
     (case find (\<lambda>s. covers s i) spans of
        None \<Rightarrow> [content ! i]
      | Some s \<Rightarrow> if i = span_start s then span_replacement s else [])"

definition redact_spec :: "bytes \<Rightarrow> redaction_span list \<Rightarrow> bytes" where
  "redact_spec content spans = concat (map (piece content spans) [0..<length content])"

definition span_in :: "bytes \<Rightarrow> redaction_span \<Rightarrow> bool" where
  "span_in content s \<longleftrightarrow>
     proper_span s \<and> span_end s \<le> length content
     \<and> is_char_boundary content (span_start s) \<and> is_char_boundary content (span_end s)"

lemma slice_upt: "b \<le> length xs \<Longrightarrow> concat (map (\<lambda>i. [xs ! i]) [a..<b]) = slice xs a b"
proof -
  assume "b \<le> length xs"
  then have "map ((!) xs) [a..<b] = slice xs a b"
    by (intro nth_equalityI) (auto simp: slice_def)
  then show ?thesis by (simp add: concat_map_singleton)
qed

lemma find_none_iff: "find P xs = None \<longleftrightarrow> (\<forall>x\<in>set xs. \<not> P x)"
  by (auto simp: find_None_iff)

lemma redact_loop_spec:
  "sorted_wrt disjoint_after ss \<Longrightarrow> \<forall>s\<in>set ss. span_in content s \<and> cur \<le> span_start s
   \<Longrightarrow> cur \<le> length content
   \<Longrightarrow> redact_loop content ss cur out
       = out @ concat (map (piece content ss) [cur..<length content])"
proof (induction ss arbitrary: cur out)
  case Nil
  have "piece content [] = (\<lambda>i. [content ! i])" by (auto simp: piece_def)
  then show ?case using slice_upt [of "length content" content cur] by (simp add: slice_def)
next
  case (Cons s ss)
  let ?a = "span_start s" and ?b = "span_end s" and ?n = "length content"
  from Cons.prems have s: "span_in content s" "cur \<le> ?a" and ab: "?a < ?b" "?b \<le> ?n"
    by (auto simp: span_in_def proper_span_def)
  have rest: "?b \<le> span_start t" if "t \<in> set ss" for t
    using Cons.prems(1) that by (simp add: disjoint_after_def)
  have acc: "\<not> span_skipped content cur s"
    using s ab by (auto simp: span_skipped_def span_in_def)
  have low: "piece content (s # ss) i = [content ! i]" if "i < ?a" for i
  proof -
    have "\<not> covers t i" if "t \<in> set (s # ss)" for t
      using that \<open>i < ?a\<close> ab rest by (fastforce simp: covers_def)
    then have "find (\<lambda>s. covers s i) (s # ss) = None" by (simp only: find_none_iff) blast
    then show ?thesis by (simp only: piece_def option.case)
  qed
  have mid: "piece content (s # ss) i = (if i = ?a then span_replacement s else [])"
    if "?a \<le> i" "i < ?b" for i
    using that by (simp add: piece_def covers_def)
  have high: "piece content (s # ss) i = piece content ss i" if "?b \<le> i" for i
    using that by (simp add: piece_def covers_def)
  have split: "[cur..<?n] = [cur..<?a] @ ?a # [Suc ?a..<?b] @ [?b..<?n]"
  proof -
    have "[cur..<?n] = [cur..<?a] @ [?a..<?n]"
      using upt_add_eq_append [of cur ?a "?n - ?a"] s(2) ab by simp
    also have "[?a..<?n] = [?a..<?b] @ [?b..<?n]"
      using upt_add_eq_append [of ?a ?b "?n - ?b"] ab by simp
    also have "[?a..<?b] = ?a # [Suc ?a..<?b]" using ab by (simp add: upt_conv_Cons)
    finally show ?thesis by simp
  qed
  have m1: "concat (map (piece content (s # ss)) [cur..<?a]) = slice content cur ?a"
    using slice_upt [of ?a content cur] ab low
    by (metis (no_types, lifting) atLeastLessThan_iff less_le_trans less_or_eq_imp_le map_cong set_upt)
  have m2: "concat (map (piece content (s # ss)) [Suc ?a..<?b]) = []"
    using mid by (auto simp: concat_eq_Nil_conv)
  have m3: "map (piece content (s # ss)) [?b..<?n] = map (piece content ss) [?b..<?n]"
    using high by simp
  have "redact_loop content (s # ss) cur out
        = redact_loop content ss ?b (out @ slice content cur ?a @ span_replacement s)"
    using acc by simp
  also have "\<dots> = (out @ slice content cur ?a @ span_replacement s)
       @ concat (map (piece content ss) [?b..<?n])"
    using Cons.prems rest ab by (intro Cons.IH) auto
  finally have eq: "redact_loop content (s # ss) cur out
    = (out @ slice content cur ?a @ span_replacement s)
       @ concat (map (piece content ss) [?b..<?n])" .
  have at: "piece content (s # ss) ?a = span_replacement s" using mid [of ?a] ab by simp
  show ?case
    unfolding eq split map_append concat_append list.map(2) concat.simps(2) m1 m2 m3 at by simp
qed

lemma sorted_span_key:
  "sorted_wrt disjoint_after ss \<Longrightarrow> \<forall>s\<in>set ss. proper_span s \<Longrightarrow> sorted (map span_key ss)"
  by (induction ss)
     (fastforce simp: span_key_def disjoint_after_def proper_span_def less_eq_prod_def)+

lemma redact_eq_spec:
  assumes "sorted_wrt disjoint_after spans" and "\<forall>s\<in>set spans. span_in content s"
  shows "redact content spans = redact_spec content spans"
proof -
  have "sort_key span_key spans = spans"
    using assms by (intro sorted_sort_id [THEN trans] sort_key_id_if_sorted sorted_span_key)
      (auto simp: span_in_def)
  then show ?thesis
    using redact_loop_spec [of spans content 0 "[]"] assms
    by (simp add: redact_def redact_spec_def)
qed

lemma piece_cong:
  assumes "\<not> (\<exists>s\<in>set spans. covers s i) \<Longrightarrow> c ! i = d ! i"
  shows "piece c spans i = piece d spans i"
proof (cases "find (\<lambda>s. covers s i) spans")
  case None
  with assms have "c ! i = d ! i" by (auto simp: find_none_iff)
  with None show ?thesis by (simp add: piece_def)
next
  case (Some s)
  then show ?thesis by (simp add: piece_def)
qed

lemma redact_spec_cong:
  assumes "length c = length d"
    and "\<And>i. i < length c \<Longrightarrow> \<forall>s\<in>set spans. \<not> covers s i \<Longrightarrow> c ! i = d ! i"
  shows "redact_spec c spans = redact_spec d spans"
proof -
  have "map (piece c spans) [0..<length c] = map (piece d spans) [0..<length c]"
    by (rule map_cong [OF refl], rule piece_cong) (auto intro: assms(2))
  then show ?thesis by (simp only: redact_spec_def assms(1))
qed

section \<open>Properties\<close>

text \<open>
  Span normalisation, whatever the detectors report: it invents no span, the spans it keeps
  are in order and do not overlap, and the start of every reported span is covered by a kept one.
\<close>

theorem normalize_spans_correct:
  assumes "\<forall>s\<in>set spans. span_start s < span_end s"
  shows "set (normalize_spans spans) \<subseteq> set spans
    \<and> sorted_wrt (\<lambda>a b. span_end a \<le> span_start b) (normalize_spans spans)
    \<and> (\<forall>s\<in>set spans. \<exists>k\<in>set (normalize_spans spans).
          span_start k \<le> span_start s \<and> span_start s < span_end k)"
proof -
  have p: "\<forall>s\<in>set spans. proper_span s" using assms by (simp add: proper_span_def)
  show ?thesis
    using normalize_spans_subset [of spans] normalize_spans_sorted [OF p]
      normalize_spans_covers [OF p]
    by (simp add: disjoint_after_def [abs_def] covers_def)
qed

text \<open>
  C12. Redaction is secret: after normalisation, the redacted text depends only on the bytes outside
  the kept spans. Two texts of the same length with the same spans (in range, on character
  boundaries in both) that differ only inside the spans are redacted to the same output.
\<close>

theorem redact_hides_covered_bytes:
  assumes "\<forall>s\<in>set spans. span_in c s \<and> span_in d s"
    and "length c = length d"
    and "\<And>i. i < length c \<Longrightarrow> \<forall>s\<in>set (normalize_spans spans). \<not> covers s i \<Longrightarrow> c ! i = d ! i"
  shows "redact c (normalize_spans spans) = redact d (normalize_spans spans)"
proof -
  let ?n = "normalize_spans spans"
  have s: "sorted_wrt disjoint_after ?n"
    using assms(1) by (intro normalize_spans_sorted) (auto simp: span_in_def)
  have "redact c ?n = redact_spec c ?n" and "redact d ?n = redact_spec d ?n"
    using assms(1) normalize_spans_subset [of spans] by (auto intro!: redact_eq_spec s)
  with redact_spec_cong [OF assms(2,3)] show ?thesis by simp
qed

definition example_span :: redaction_span where
  "example_span =
     \<lparr>span_start = 3, span_end = 6, span_category = Secret Password,
      span_replacement = ''[REDACTED_PASSWORD]''\<rparr>"

lemma example_span_in:
  "span_in ''pw=abc!'' example_span" "span_in ''pw=xyz!'' example_span"
  by (simp_all add: span_in_def proper_span_def example_span_def is_char_boundary_def code_def)

lemma normalize_single: "normalize_spans [s] = [s]"
  by (simp add: normalize_spans_def)

theorem redact_hides_covered_bytes_witness:
  "redact ''pw=abc!'' (normalize_spans [example_span])
   = redact ''pw=xyz!'' (normalize_spans [example_span])"
proof (rule redact_hides_covered_bytes)
  fix i
  assume i: "i < length ''pw=abc!''"
    and out: "\<forall>s\<in>set (normalize_spans [example_span]). \<not> covers s i"
  from out have "i < 3 \<or> 6 \<le> i"
    by (auto simp: normalize_single covers_def example_span_def)
  with i have "i = 0 \<or> i = 1 \<or> i = 2 \<or> i = 6" by auto
  then show "''pw=abc!'' ! i = ''pw=xyz!'' ! i" by auto
qed (simp_all add: example_span_in)

theorem normalize_spans_correct_witness:
  "set (normalize_spans [example_span]) \<subseteq> set [example_span]"
  using normalize_spans_correct [of "[example_span]"] by (simp add: example_span_def)

text \<open>
  C40. The redaction loop implements the positional specification: on spans that are in range, in
  order and disjoint, every byte outside the spans is kept, and every span becomes exactly its
  replacement.
\<close>

theorem redact_refines_spec:
  assumes "sorted_wrt (\<lambda>a b. span_end a \<le> span_start b) spans"
    and "\<forall>s\<in>set spans. span_in content s"
  shows "redact content spans = redact_spec content spans"
  using assms by (intro redact_eq_spec) (simp_all add: disjoint_after_def [abs_def])

theorem redact_refines_spec_witness:
  "redact ''pw=abc!'' [example_span] = ''pw=[REDACTED_PASSWORD]!''"
proof -
  have "redact ''pw=abc!'' [example_span] = redact_spec ''pw=abc!'' [example_span]"
    by (rule redact_refines_spec) (simp_all add: example_span_in)
  also have "\<dots> = ''pw=[REDACTED_PASSWORD]!''"
    by (simp add: redact_spec_def piece_def covers_def example_span_def upt_rec)
  finally show ?thesis .
qed

end
