(* ===== verification/Governance_Policy.thy ===== *)
theory Governance_Policy
  imports Redaction
begin

text \<open>
  Properties of the decisions of \<open>governance.rs\<close>: the disclosure table as an order on what may be
  shown, the classification as a function of what was detected, the Luhn check of payment cards,
  and the interaction of span normalisation with the secret precedence of the policy manifest.
\<close>

section \<open>Disclosure\<close>

text \<open>How much of a text each disclosure class shows, and how strict each treatment is.\<close>

fun openness :: "disclosure_class \<Rightarrow> nat" where
  "openness Disclose_Abstain = 0"
| "openness Disclose_Restrict = 1"
| "openness Disclose_Summarize = 2"
| "openness Disclose_Redact = 3"
| "openness Disclose_Include = 4"

fun strictness :: "treatment \<Rightarrow> nat" where
  "strictness Treatment_Normal = 0"
| "strictness Treatment_Sensitive = 1"
| "strictness Treatment_Restricted = 2"
| "strictness Treatment_Quarantined = 3"

text \<open>
  The disclosure table is monotone: a stricter treatment never shows more to the same authority
  for the same purpose, and no authority is shown less than a third party or more than the treatment
  of a normal text would show.
\<close>

theorem disclosure_monotone:
  "(strictness t \<le> strictness t' \<longrightarrow>
      openness (disclosure_class (disclosure_decision t' a p))
      \<le> openness (disclosure_class (disclosure_decision t a p)))
   \<and> openness (disclosure_class (disclosure_decision t ThirdParty p))
      \<le> openness (disclosure_class (disclosure_decision t a p))"
  by (cases t; cases t'; cases a; cases p) (simp_all add: disclosure_decision_def)

theorem disclosure_monotone_witness:
  "strictness Treatment_Sensitive \<le> strictness Treatment_Quarantined
   \<and> openness (disclosure_class (disclosure_decision Treatment_Quarantined Owner SafetyAudit))
     \<le> openness (disclosure_class (disclosure_decision Treatment_Sensitive Owner SafetyAudit))"
  using disclosure_monotone [of Treatment_Sensitive Treatment_Quarantined Owner SafetyAudit]
  by simp

text \<open>When the text itself is shown, in full or redacted.\<close>

lemma disclosure_include_iff:
  "disclosure_class (disclosure_decision t a p) = Disclose_Include \<longleftrightarrow>
     t = Treatment_Normal
     \<or> t = Treatment_Sensitive \<and> (a = Owner \<or> a = Auditor \<and> p = SafetyAudit)"
  by (cases t; cases a; cases p) (simp_all add: disclosure_decision_def)

lemma disclosure_redact_iff:
  "disclosure_class (disclosure_decision t a p) = Disclose_Redact \<longleftrightarrow>
     t = Treatment_Sensitive
     \<and> (a = Auditor \<and> p \<noteq> SafetyAudit \<or> a = Agent \<and> p = TaskExecution)"
  by (cases t; cases a; cases p) (simp_all add: disclosure_decision_def)

lemma disclosure_summary_iff:
  "disclosure_summary (disclosure_decision t a p) =
     (if disclosure_class (disclosure_decision t a p) \<in> {Disclose_Summarize, Disclose_Restrict}
      then Some restricted_summary else None)"
  by (simp add: disclosure_decision_def Let_def)

section \<open>Classification\<close>

definition has_secret_span :: "redaction_span list \<Rightarrow> bool" where
  "has_secret_span spans \<longleftrightarrow> (\<exists>s\<in>set spans. \<exists>k. span_category s = Secret k)"

definition has_pii_span :: "redaction_span list \<Rightarrow> bool" where
  "has_pii_span spans \<longleftrightarrow> (\<exists>s\<in>set spans. \<exists>k. span_category s = Pii k)"

lemma set_detected_pii:
  "set (detected_pii spans) = {k. \<exists>s\<in>set spans. span_category s = Pii k}"
  unfolding detected_pii_def
  by (subst set_sorted_list_of_set)
     (force simp: List.map_filter_def image_iff split: redaction_category.splits)+

lemma set_detected_secrets:
  "set (detected_secrets spans) = {k. \<exists>s\<in>set spans. span_category s = Secret k}"
  unfolding detected_secrets_def
  by (subst set_sorted_list_of_set)
     (force simp: List.map_filter_def image_iff split: redaction_category.splits)+

lemma has_span_iff:
  "has_secret_span spans \<longleftrightarrow> detected_secrets spans \<noteq> []"
  "has_pii_span spans \<longleftrightarrow> detected_pii spans \<noteq> []"
  using set_detected_secrets [of spans] set_detected_pii [of spans]
  by (auto simp: has_secret_span_def has_pii_span_def simp flip: set_empty)

lemma trust_level_of_untrusted:
  "trust_level_of src = Trust_Untrusted \<longleftrightarrow> src = Source_External \<or> src = Source_Unknown"
  by (cases src) simp_all

text \<open>
  The whole classification as a function of what was detected. Only an untrusted source with an
  embedded instruction is quarantined; only an operational request is rejected, and only when the
  ethics evaluation blocks it; a text is treated as normal exactly when nothing at all was detected,
  and this is also when it is allowed without restriction and shown to an agent in full.
\<close>

theorem classify_governance_decisions:
  fixes D content src role purpose now blocked
  defines "g \<equiv> classify_governance D content src role purpose now blocked"
    and "risky \<equiv> detect_poisoning D content \<noteq> Poisoning_None"
    and "untrusted \<equiv> src = Source_External \<or> src = Source_Unknown"
    and "spans \<equiv> detect_redactions D content"
  shows "(gov_enforcement g = Enforce_Quarantine \<longleftrightarrow> untrusted \<and> risky)
    \<and> (gov_enforcement g = Enforce_Reject \<longleftrightarrow>
         \<not> (untrusted \<and> risky) \<and> blocked \<and> role = OperationalRequest)
    \<and> (gov_treatment g = Treatment_Normal \<longleftrightarrow>
         \<not> risky \<and> \<not> has_secret_span spans \<and> \<not> has_pii_span spans \<and> \<not> blocked)
    \<and> (gov_enforcement g = Enforce_Allow \<longleftrightarrow> gov_treatment g = Treatment_Normal)
    \<and> (gov_disclosure g = Disclose_Include \<longleftrightarrow> gov_treatment g = Treatment_Normal)"
  unfolding g_def risky_def untrusted_def spans_def
  by (simp add: classify_governance_def Let_def enforcement_of_def treatment_of_def
      trust_level_of_untrusted sensitivity_of_def has_span_iff disclosure_include_iff)

text \<open>A detector set for the text \<open>password: foo@bar.com\<close>: the address and, nested in it, the
  password the assignment pattern captures (it stops at the dot).\<close>

definition masked_secret_text :: bytes where
  "masked_secret_text = ''password: foo@bar.com''"

definition masked_secret_detectors :: detectors where
  "masked_secret_detectors =
     \<lparr>email_re = (\<lambda>_. [(10, 21)]), phone_re = (\<lambda>_. []), ssn_re = (\<lambda>_. []), card_re = (\<lambda>_. []),
      aws_re = (\<lambda>_. []), bearer_re = (\<lambda>_. []), private_key_re = (\<lambda>_. []),
      api_key_re = (\<lambda>_. []), password_re = (\<lambda>_. [Some (10, 17)]),
      persistent_instruction_re = [], suspicious_instruction_re = []\<rparr>"

lemma masked_secret_spans:
  "detect_redactions masked_secret_detectors masked_secret_text =
     [\<lparr>span_start = 10, span_end = 21, span_category = Pii EmailAddress,
       span_replacement = ''[REDACTED_EMAIL]''\<rparr>]"
  by (simp add: detect_redactions_def raw_redactions_def masked_secret_detectors_def
      add_matches_def add_capture_matches_def normalize_spans_def span_order_def
      insort_key.simps less_eq_prod_def)

text \<open>
  Secrets are counted after normalisation, so a secret inside a longer personal-data match is
  not counted: the text \<open>password: foo@bar.com\<close>, where a password is reported inside an e-mail
  address, is classified as personal and sensitive, not as secret and restricted, although the
  policy manifest gives secrets precedence over personal data.
\<close>

theorem masked_secret_not_restricted:
  "List.map_filter (\<lambda>x. x) (password_re masked_secret_detectors masked_secret_text) \<noteq> []
   \<and> (let g = classify_governance masked_secret_detectors masked_secret_text Source_UserProvided
               Observation ConversationalContext 0 False
      in gov_sensitivity g = Sensitivity_Personal \<and> gov_treatment g = Treatment_Sensitive
         \<and> secrets (gov_trace g) = [])"
proof -
  let ?spans = "detect_redactions masked_secret_detectors masked_secret_text"
  have s: "detected_secrets ?spans = []" and p: "detected_pii ?spans = [EmailAddress]"
    unfolding masked_secret_spans
    by (simp_all add: detected_secrets_def detected_pii_def List.map_filter_def)
  show ?thesis
    by (simp add: classify_governance_def Let_def s p sensitivity_of_def treatment_of_def)
       (simp add: masked_secret_detectors_def detect_poisoning_def)
qed

section \<open>The Luhn check\<close>

lemma luhn_digits_append [simp]: "luhn_digits (u @ v) = luhn_digits u @ luhn_digits v"
  by (simp add: luhn_digits_def)

lemma luhn_value_less: "d < 10 \<Longrightarrow> luhn_value p i d < 10"
  by (simp add: luhn_value_def Let_def) linarith

lemma luhn_value_inj:
  assumes "d < 10" "e < 10" "luhn_value p i d mod 10 = luhn_value p i e mod 10"
  shows "d = e"
proof -
  have "luhn_value p i d = luhn_value p i e"
    using assms luhn_value_less [of d p i] luhn_value_less [of e p i] by simp
  then have eq: "i mod 2 = p \<Longrightarrow>
      (if 9 < d * 2 then d * 2 - 9 else d * 2) = (if 9 < e * 2 then e * 2 - 9 else e * 2)"
    and ne: "i mod 2 \<noteq> p \<Longrightarrow> d = e"
    by (simp_all add: luhn_value_def Let_def)
  have odd: "2 * a - 9 \<noteq> 2 * b" if "9 < 2 * a" for a b :: nat
    using that by presburger
  show ?thesis
    using eq ne odd [of d e] odd [of e d]
    by (cases "i mod 2 = p") (auto simp: mult.commute split: if_splits)
qed

lemma luhn_sum_replace:
  "luhn_sum (xs @ d # ys) + luhn_value ((length xs + length ys + 1) mod 2) (length xs) e
   = luhn_sum (xs @ e # ys) + luhn_value ((length xs + length ys + 1) mod 2) (length xs) d"
  by (simp add: luhn_sum_def enumerate_append_eq)

lemma luhn_sum_detects:
  assumes "d < 10" "e < 10" "d \<noteq> e" "luhn_sum (xs @ d # ys) mod 10 = 0"
  shows "luhn_sum (xs @ e # ys) mod 10 \<noteq> 0"
proof
  assume z: "luhn_sum (xs @ e # ys) mod 10 = 0"
  let ?v = "luhn_value ((length xs + length ys + 1) mod 2) (length xs)"
  have "(luhn_sum (xs @ d # ys) + ?v e) mod 10 = (luhn_sum (xs @ e # ys) + ?v d) mod 10"
    by (simp only: luhn_sum_replace)
  moreover have drop: "(a + b) mod 10 = b mod 10" if "a mod 10 = 0" for a b :: nat
    using that by (simp add: mod_add_left_eq [symmetric])
  ultimately have "?v d mod 10 = ?v e mod 10"
    by (simp only: drop [OF assms(4)] drop [OF z])
  with assms(3) luhn_value_inj [OF assms(1,2)] show False by metis
qed

text \<open>
  The payment-card check detects every single-digit error: replacing one digit of a candidate
  that passes by another digit gives one that fails.
\<close>

theorem luhn_detects_single_digit_error:
  assumes "valid_luhn (u @ c # v)" and "byte_in 48 57 c" and "byte_in 48 57 c'" and "c \<noteq> c'"
  shows "\<not> valid_luhn (u @ c' # v)"
proof -
  let ?d = "code c - 48" and ?e = "code c' - 48"
  have "code c \<noteq> code c'" using assms(4) by (simp add: code_def)
  then have ne: "?d \<noteq> ?e" and b: "?d < 10" "?e < 10"
    using assms(2,3) by (auto simp: byte_in_def)
  have digits: "luhn_digits (u @ x # v) = luhn_digits u @ (code x - 48) # luhn_digits v"
    if "byte_in 48 57 x" for x
    using that by (simp add: luhn_digits_def)
  have "luhn_sum (luhn_digits u @ ?d # luhn_digits v) mod 10 = 0"
    using assms(1) digits [OF assms(2)] by (simp add: valid_luhn_def Let_def split: if_splits)
  then have "luhn_sum (luhn_digits u @ ?e # luhn_digits v) mod 10 \<noteq> 0"
    using b ne by (intro luhn_sum_detects)
  then show ?thesis using digits [OF assms(3)] by (auto simp: valid_luhn_def Let_def)
qed

theorem luhn_detects_single_digit_error_witness:
  "valid_luhn (''4111 1111 1111 111'' @ CHR ''1'' # [])
   \<and> \<not> valid_luhn (''4111 1111 1111 111'' @ CHR ''2'' # [])"
proof -
  have v: "valid_luhn (''4111 1111 1111 111'' @ CHR ''1'' # [])"
    by (simp add: valid_luhn_def luhn_digits_def byte_in_def code_def luhn_sum_def luhn_value_def)
  show ?thesis
    using v luhn_detects_single_digit_error [OF v, of "CHR ''2''"]
    by (simp add: byte_in_def code_def)
qed

end
