(* ===== verification/Governance_State.thy ===== *)
theory Governance_State
  imports Governance_Policy
begin

text \<open>
  \<open>governance_state.rs\<close>: the stored form of a governance classification, as a document value.
  The \<open>enum_codec!\<close> macro's ten instances are ten pairs of functions, each interpreted as an
  \<open>enum_codec\<close>; the round trip of the whole classification rests on them.
\<close>

section \<open>The enumerations of the classification\<close>

fun role_str :: "content_role \<Rightarrow> string" where
  "role_str Observation = ''observation''"
| "role_str Description = ''description''"
| "role_str OperationalRequest = ''operational_request''"

definition parse_role :: "string \<Rightarrow> content_role option" where
  "parse_role s =
     (if s = ''observation'' then Some Observation
      else if s = ''description'' then Some Description
      else if s = ''operational_request'' then Some OperationalRequest
      else None)"

fun purpose_str :: "memory_purpose \<Rightarrow> string" where
  "purpose_str ConversationalContext = ''conversational_context''"
| "purpose_str Personalization = ''personalization''"
| "purpose_str TaskExecution = ''task_execution''"
| "purpose_str SafetyAudit = ''safety_audit''"

definition parse_purpose :: "string \<Rightarrow> memory_purpose option" where
  "parse_purpose s =
     (if s = ''conversational_context'' then Some ConversationalContext
      else if s = ''personalization'' then Some Personalization
      else if s = ''task_execution'' then Some TaskExecution
      else if s = ''safety_audit'' then Some SafetyAudit
      else None)"

fun trust_str :: "trust_level \<Rightarrow> string" where
  "trust_str Trust_Trusted = ''trusted''"
| "trust_str Trust_UserProvided = ''user_provided''"
| "trust_str Trust_Untrusted = ''untrusted''"

definition parse_trust :: "string \<Rightarrow> trust_level option" where
  "parse_trust s =
     (if s = ''trusted'' then Some Trust_Trusted
      else if s = ''user_provided'' then Some Trust_UserProvided
      else if s = ''untrusted'' then Some Trust_Untrusted
      else None)"

fun sensitivity_str :: "sensitivity \<Rightarrow> string" where
  "sensitivity_str Sensitivity_None = ''none''"
| "sensitivity_str Sensitivity_Personal = ''personal''"
| "sensitivity_str Sensitivity_HighlySensitive = ''highly_sensitive''"
| "sensitivity_str Sensitivity_Secret = ''secret''"

definition parse_sensitivity :: "string \<Rightarrow> sensitivity option" where
  "parse_sensitivity s =
     (if s = ''none'' then Some Sensitivity_None
      else if s = ''personal'' then Some Sensitivity_Personal
      else if s = ''highly_sensitive'' then Some Sensitivity_HighlySensitive
      else if s = ''secret'' then Some Sensitivity_Secret
      else None)"

fun poisoning_str :: "poisoning_risk \<Rightarrow> string" where
  "poisoning_str Poisoning_None = ''none''"
| "poisoning_str SuspiciousInstruction = ''suspicious_instruction''"
| "poisoning_str PersistentInstruction = ''persistent_instruction''"

definition parse_poisoning :: "string \<Rightarrow> poisoning_risk option" where
  "parse_poisoning s =
     (if s = ''none'' then Some Poisoning_None
      else if s = ''suspicious_instruction'' then Some SuspiciousInstruction
      else if s = ''persistent_instruction'' then Some PersistentInstruction
      else None)"

fun treatment_str :: "treatment \<Rightarrow> string" where
  "treatment_str Treatment_Normal = ''normal''"
| "treatment_str Treatment_Sensitive = ''sensitive''"
| "treatment_str Treatment_Restricted = ''restricted''"
| "treatment_str Treatment_Quarantined = ''quarantined''"

definition parse_treatment :: "string \<Rightarrow> treatment option" where
  "parse_treatment s =
     (if s = ''normal'' then Some Treatment_Normal
      else if s = ''sensitive'' then Some Treatment_Sensitive
      else if s = ''restricted'' then Some Treatment_Restricted
      else if s = ''quarantined'' then Some Treatment_Quarantined
      else None)"

fun enforcement_str :: "enforcement_decision \<Rightarrow> string" where
  "enforcement_str Enforce_Allow = ''allow''"
| "enforcement_str Enforce_AllowRestricted = ''allow_restricted''"
| "enforcement_str Enforce_Reject = ''reject''"
| "enforcement_str Enforce_Quarantine = ''quarantine''"

definition parse_enforcement :: "string \<Rightarrow> enforcement_decision option" where
  "parse_enforcement s =
     (if s = ''allow'' then Some Enforce_Allow
      else if s = ''allow_restricted'' then Some Enforce_AllowRestricted
      else if s = ''reject'' then Some Enforce_Reject
      else if s = ''quarantine'' then Some Enforce_Quarantine
      else None)"

fun disclosure_str :: "disclosure_class \<Rightarrow> string" where
  "disclosure_str Disclose_Include = ''include''"
| "disclosure_str Disclose_Summarize = ''summarize''"
| "disclosure_str Disclose_Redact = ''redact''"
| "disclosure_str Disclose_Restrict = ''restrict''"
| "disclosure_str Disclose_Abstain = ''abstain''"

definition parse_disclosure :: "string \<Rightarrow> disclosure_class option" where
  "parse_disclosure s =
     (if s = ''include'' then Some Disclose_Include
      else if s = ''summarize'' then Some Disclose_Summarize
      else if s = ''redact'' then Some Disclose_Redact
      else if s = ''restrict'' then Some Disclose_Restrict
      else if s = ''abstain'' then Some Disclose_Abstain
      else None)"

fun pii_str :: "pii_kind \<Rightarrow> string" where
  "pii_str EmailAddress = ''email''"
| "pii_str PhoneNumber = ''phone''"
| "pii_str SocialSecurityNumber = ''ssn''"
| "pii_str PaymentCard = ''payment_card''"

definition parse_pii :: "string \<Rightarrow> pii_kind option" where
  "parse_pii s =
     (if s = ''email'' then Some EmailAddress
      else if s = ''phone'' then Some PhoneNumber
      else if s = ''ssn'' then Some SocialSecurityNumber
      else if s = ''payment_card'' then Some PaymentCard
      else None)"

fun secret_str :: "secret_kind \<Rightarrow> string" where
  "secret_str AwsAccessKey = ''aws_access_key''"
| "secret_str BearerToken = ''bearer_token''"
| "secret_str PrivateKey = ''private_key''"
| "secret_str ApiKey = ''api_key''"
| "secret_str Password = ''password''"

definition parse_secret :: "string \<Rightarrow> secret_kind option" where
  "parse_secret s =
     (if s = ''aws_access_key'' then Some AwsAccessKey
      else if s = ''bearer_token'' then Some BearerToken
      else if s = ''private_key'' then Some PrivateKey
      else if s = ''api_key'' then Some ApiKey
      else if s = ''password'' then Some Password
      else None)"

interpretation role_codec: enum_codec role_str parse_role
  by unfold_locales ((case_tac x; simp add: parse_role_def),
    (auto simp: parse_role_def split: if_splits))

interpretation purpose_codec: enum_codec purpose_str parse_purpose
  by unfold_locales ((case_tac x; simp add: parse_purpose_def),
    (auto simp: parse_purpose_def split: if_splits))

interpretation trust_codec: enum_codec trust_str parse_trust
  by unfold_locales ((case_tac x; simp add: parse_trust_def),
    (auto simp: parse_trust_def split: if_splits))

interpretation sensitivity_codec: enum_codec sensitivity_str parse_sensitivity
  by unfold_locales ((case_tac x; simp add: parse_sensitivity_def),
    (auto simp: parse_sensitivity_def split: if_splits))

interpretation poisoning_codec: enum_codec poisoning_str parse_poisoning
  by unfold_locales ((case_tac x; simp add: parse_poisoning_def),
    (auto simp: parse_poisoning_def split: if_splits))

interpretation treatment_codec: enum_codec treatment_str parse_treatment
  by unfold_locales ((case_tac x; simp add: parse_treatment_def),
    (auto simp: parse_treatment_def split: if_splits))

interpretation enforcement_codec: enum_codec enforcement_str parse_enforcement
  by unfold_locales ((case_tac x; simp add: parse_enforcement_def),
    (auto simp: parse_enforcement_def split: if_splits))

interpretation disclosure_codec: enum_codec disclosure_str parse_disclosure
  by unfold_locales ((case_tac x; simp add: parse_disclosure_def),
    (auto simp: parse_disclosure_def split: if_splits))

interpretation pii_codec: enum_codec pii_str parse_pii
  by unfold_locales ((case_tac x; simp add: parse_pii_def),
    (auto simp: parse_pii_def split: if_splits))

interpretation secret_codec: enum_codec secret_str parse_secret
  by unfold_locales ((case_tac x; simp add: parse_secret_def),
    (auto simp: parse_secret_def split: if_splits))

lemmas governance_names =
  role_codec.of_to_name role_codec.collect_names
  purpose_codec.of_to_name purpose_codec.collect_names
  trust_codec.of_to_name trust_codec.collect_names
  sensitivity_codec.of_to_name sensitivity_codec.collect_names
  poisoning_codec.of_to_name poisoning_codec.collect_names
  treatment_codec.of_to_name treatment_codec.collect_names
  enforcement_codec.of_to_name enforcement_codec.collect_names
  disclosure_codec.of_to_name disclosure_codec.collect_names
  pii_codec.of_to_name pii_codec.collect_names
  secret_codec.of_to_name secret_codec.collect_names

section \<open>Writers\<close>

fun category_names :: "redaction_category \<Rightarrow> string \<times> string" where
  "category_names (Pii k) = (''pii'', pii_str k)"
| "category_names (Secret k) = (''secret'', secret_str k)"

definition span_value :: "redaction_span \<Rightarrow> val" where
  "span_value s = VObject
     [''start'' \<mapsto> VInteger (word_of_int (int (span_start s))),
      ''end'' \<mapsto> VInteger (word_of_int (int (span_end s))),
      ''kind'' \<mapsto> VString (fst (category_names (span_category s))),
      ''category'' \<mapsto> VString (snd (category_names (span_category s))),
      ''replacement'' \<mapsto> VString (span_replacement s)]"

definition trace_value :: "governance_trace \<Rightarrow> val" where
  "trace_value t = VObject
     [''policy_id'' \<mapsto> VString (policy_id t),
      ''policy_version'' \<mapsto> VString (policy_version t),
      ''policy_hash'' \<mapsto> VString (trace_policy_hash t),
      ''evaluated_at_ms'' \<mapsto> VInteger (evaluated_at_ms t),
      ''ethics_enforcement_blocked'' \<mapsto> VInteger (if ethics_enforcement_blocked t then 1 else 0),
      ''pii'' \<mapsto> string_array_value (map pii_str (pii t)),
      ''secrets'' \<mapsto> string_array_value (map secret_str (secrets t)),
      ''redaction_spans'' \<mapsto> VArray (map span_value (redaction_spans t))]"

definition governance_to_value :: "governance_classification \<Rightarrow> val" where
  "governance_to_value g = VObject
     [''role'' \<mapsto> VString (role_str (gov_role g)),
      ''purpose'' \<mapsto> VString (purpose_str (gov_purpose g)),
      ''trust'' \<mapsto> VString (trust_str (gov_trust g)),
      ''sensitivity'' \<mapsto> VString (sensitivity_str (gov_sensitivity g)),
      ''poisoning_risk'' \<mapsto> VString (poisoning_str (gov_poisoning_risk g)),
      ''treatment'' \<mapsto> VString (treatment_str (gov_treatment g)),
      ''enforcement'' \<mapsto> VString (enforcement_str (gov_enforcement g)),
      ''disclosure'' \<mapsto> VString (disclosure_str (gov_disclosure g)),
      ''trace'' \<mapsto> trace_value (gov_trace g)]"

section \<open>Readers\<close>

definition boolean_field :: "fields \<Rightarrow> string \<Rightarrow> bool decoded" where
  "boolean_field fs f = (case fs f of
     Some (VInteger n) \<Rightarrow> if n = 0 then Inr False else if n = 1 then Inr True else Inl (FieldErr f)
   | _ \<Rightarrow> Inl (FieldErr f))"

text \<open>\<open>i64\<close> to \<open>usize\<close> (64 bits wide): fails on negative values.\<close>

definition usize_of_i64 :: "i64 \<Rightarrow> nat option" where
  "usize_of_i64 n = (if 0 \<le> sint n then Some (nat (sint n)) else None)"

definition parse_category :: "string \<Rightarrow> string \<Rightarrow> redaction_category decoded" where
  "parse_category kind name =
     (if kind = ''pii'' then
        r_bind (ok_or (FieldErr ''governance.redaction_span'') (parse_pii name)) (\<lambda>k. Inr (Pii k))
      else if kind = ''secret'' then
        r_bind (ok_or (FieldErr ''governance.redaction_span'') (parse_secret name))
          (\<lambda>k. Inr (Secret k))
      else Inl (FieldErr ''governance.redaction_span''))"

definition span_of_value :: "val \<Rightarrow> redaction_span decoded" where
  "span_of_value v = (case v of
     VObject fs \<Rightarrow>
       r_bind (string_field fs ''category'') (\<lambda>name.
       r_bind (string_field fs ''kind'') (\<lambda>kind.
       r_bind (parse_category kind name) (\<lambda>cat.
       r_bind (integer_field fs ''start'') (\<lambda>a.
       r_bind (ok_or (FieldErr ''governance.redaction_span'') (usize_of_i64 a)) (\<lambda>a.
       r_bind (integer_field fs ''end'') (\<lambda>b.
       r_bind (ok_or (FieldErr ''governance.redaction_span'') (usize_of_i64 b)) (\<lambda>b.
       r_bind (string_field fs ''replacement'') (\<lambda>rep.
         Inr \<lparr>span_start = a, span_end = b, span_category = cat, span_replacement = rep\<rparr>))))))))
   | _ \<Rightarrow> Inl (FieldErr ''governance.redaction_span''))"

definition spans_field :: "fields \<Rightarrow> redaction_span list decoded" where
  "spans_field fs = (case fs ''redaction_spans'' of
     Some (VArray vs) \<Rightarrow> r_collect span_of_value vs
   | _ \<Rightarrow> Inl (FieldErr ''governance.redaction_spans''))"

definition parse_trace :: "val \<Rightarrow> governance_trace decoded" where
  "parse_trace v = (case v of
     VObject fs \<Rightarrow>
       r_bind (string_field fs ''policy_id'') (\<lambda>pid.
       r_bind (string_field fs ''policy_version'') (\<lambda>pv.
       r_bind (string_field fs ''policy_hash'') (\<lambda>ph.
       r_bind (integer_field fs ''evaluated_at_ms'') (\<lambda>when_ms.
       r_bind (boolean_field fs ''ethics_enforcement_blocked'') (\<lambda>eb.
       r_bind (string_array_field fs ''pii'') (\<lambda>ps.
       r_bind (r_collect (\<lambda>s. ok_or (FieldErr ''governance.pii'') (parse_pii s)) ps) (\<lambda>ps.
       r_bind (string_array_field fs ''secrets'') (\<lambda>ss.
       r_bind (r_collect (\<lambda>s. ok_or (FieldErr ''governance.secrets'') (parse_secret s)) ss) (\<lambda>ss.
       r_bind (spans_field fs) (\<lambda>spans.
         Inr \<lparr>policy_id = pid, policy_version = pv, trace_policy_hash = ph, evaluated_at_ms = when_ms,
              ethics_enforcement_blocked = eb, pii = ps, secrets = ss,
              redaction_spans = spans\<rparr>))))))))))
   | _ \<Rightarrow> Inl (FieldErr ''governance.trace''))"

definition enum_field :: "(string \<Rightarrow> 'a option) \<Rightarrow> fields \<Rightarrow> string \<Rightarrow> string \<Rightarrow> 'a decoded" where
  "enum_field parse fs f err =
     r_bind (string_field fs f) (\<lambda>s. ok_or (FieldErr err) (parse s))"

definition governance_from_value :: "val \<Rightarrow> governance_classification decoded" where
  "governance_from_value v = (case v of
     VObject fs \<Rightarrow>
       r_bind (enum_field parse_role fs ''role'' ''governance.role'') (\<lambda>role.
       r_bind (enum_field parse_purpose fs ''purpose'' ''governance.purpose'') (\<lambda>purpose.
       r_bind (enum_field parse_trust fs ''trust'' ''governance.trust'') (\<lambda>trust.
       r_bind (enum_field parse_sensitivity fs ''sensitivity'' ''governance.sensitivity'') (\<lambda>sens.
       r_bind (enum_field parse_poisoning fs ''poisoning_risk'' ''governance.poisoning'') (\<lambda>pois.
       r_bind (enum_field parse_treatment fs ''treatment'' ''governance.treatment'') (\<lambda>treat.
       r_bind (enum_field parse_enforcement fs ''enforcement'' ''governance.enforcement'') (\<lambda>enf.
       r_bind (enum_field parse_disclosure fs ''disclosure'' ''governance.disclosure'') (\<lambda>disc.
       r_bind (ok_or (FieldErr ''governance.trace'') (fs ''trace'')) (\<lambda>tv.
       r_bind (parse_trace tv) (\<lambda>trace.
         Inr \<lparr>gov_role = role, gov_purpose = purpose, gov_trust = trust, gov_sensitivity = sens,
              gov_poisoning_risk = pois, gov_treatment = treat, gov_enforcement = enf,
              gov_disclosure = disc, gov_trace = trace\<rparr>))))))))))
   | _ \<Rightarrow> Inl (FieldErr ''governance''))"

section \<open>Round trip\<close>

definition span_fits :: "redaction_span \<Rightarrow> bool" where
  "span_fits s \<longleftrightarrow> span_start s < 2 ^ 63 \<and> span_end s < 2 ^ 63"

definition wf_governance :: "governance_classification \<Rightarrow> bool" where
  "wf_governance g \<longleftrightarrow> (\<forall>s\<in>set (redaction_spans (gov_trace g)). span_fits s)"

lemma usize_of_word [codec]: "n < 2 ^ 63 \<Longrightarrow> usize_of_i64 (word_of_int (int n)) = Some n"
  by (subst usize_of_i64_def, subst (1 2) sint_word_of_int_i64) auto

lemma usize_of_word_nat [codec]:
  "n < 9223372036854775808 \<Longrightarrow> usize_of_i64 (word_of_nat n) = Some n"
  using usize_of_word [of n] by simp

lemma parse_category_names:
  "parse_category (fst (category_names c)) (snd (category_names c)) = Inr c"
  by (cases c) (simp_all add: parse_category_def governance_names)

lemma span_of_span_value: "span_fits s \<Longrightarrow> span_of_value (span_value s) = Inr s"
  by (simp add: span_of_value_def span_value_def codec parse_category_names span_fits_def)

lemma read_boolean [codec]:
  "fs f = Some (VInteger (if b then 1 else 0)) \<Longrightarrow> boolean_field fs f = Inr b"
  by (cases b) (simp_all add: boolean_field_def)

lemma read_enum [codec]:
  "fs f = Some (VString s) \<Longrightarrow> parse s = Some x \<Longrightarrow> enum_field parse fs f e = Inr x"
  by (simp add: enum_field_def read_string)

lemma spans_field_written:
  "fs ''redaction_spans'' = Some (VArray (map span_value spans)) \<Longrightarrow> \<forall>s\<in>set spans. span_fits s
   \<Longrightarrow> spans_field fs = Inr spans"
  using r_collect_map_Inr [of spans span_of_value span_value id]
  by (simp add: spans_field_def span_of_span_value)

lemma parse_trace_value:
  "\<forall>s\<in>set (redaction_spans t). span_fits s \<Longrightarrow> parse_trace (trace_value t) = Inr t"
  by (simp add: parse_trace_def trace_value_def codec governance_names spans_field_written)

lemma governance_roundtrip:
  "wf_governance g \<Longrightarrow> governance_from_value (governance_to_value g) = Inr g"
  by (simp add: governance_from_value_def governance_to_value_def codec governance_names
      parse_trace_value wf_governance_def)

text \<open>The codec is injective: two classifications with the same stored form are equal.\<close>

lemma governance_to_value_inj:
  "wf_governance g \<Longrightarrow> wf_governance h \<Longrightarrow> governance_to_value g = governance_to_value h \<Longrightarrow> g = h"
  by (metis governance_roundtrip sum.inject(2))

end
