(* ===== verification/Journal.thy ===== *)
theory Journal
  imports Hash_Framing Cognition_Types Governance_State
begin

text \<open>
  \<open>journal.rs\<close> of the engine: journal entries and supersession links with their stored form, the
  keys that keep the agents apart, and the chain digest.
\<close>

section \<open>Entries and links\<close>

record journal_entry =
  je_id :: string
  je_agent_id :: string
  je_entry_type :: journal_entry_type
  je_content :: string
  je_preceded_by :: "string list"
  je_valence :: "f64 option"
  je_valence_reason :: "string option"
  je_importance :: f64
  je_tags :: "string list"
  je_conversation_id :: "string option"
  je_written_at_ms :: i64
  je_prev_hash :: "string option"
  je_hash :: string

record supersession =
  ss_id :: string
  ss_agent_id :: string
  ss_original_entry_id :: string
  ss_new_entry_id :: string
  ss_relation :: supersession_relation
  ss_written_at_ms :: i64

datatype broken_reason = PrevHashMismatch | ContentTampered

record broken_link =
  bl_entry_id :: string
  bl_reason :: broken_reason

record chain_report =
  cr_agent_id :: string
  cr_total :: nat
  cr_valid :: bool
  cr_broken :: "broken_link list"

definition max_valence_reason_chars :: nat where
  "max_valence_reason_chars = 500"

section \<open>Chain digest\<close>

definition chain_preimage ::
  "string \<Rightarrow> string \<Rightarrow> string \<Rightarrow> i64 \<Rightarrow> string option \<Rightarrow> bytes" where
  "chain_preimage i agent text' time prev =
     i @ ''|'' @ agent @ ''|'' @ text' @ ''|'' @ dec_i64 time @ ''|''
     @ (case prev of None \<Rightarrow> '''' | Some h \<Rightarrow> h)"

definition chain_hash ::
  "(bytes \<Rightarrow> string) \<Rightarrow> string \<Rightarrow> string \<Rightarrow> string \<Rightarrow> i64 \<Rightarrow> string option \<Rightarrow> string" where
  "chain_hash b3 i agent text' time prev = b3 (chain_preimage i agent text' time prev)"

section \<open>Keys\<close>

definition entry_key :: "string \<Rightarrow> string \<Rightarrow> bytes" where
  "entry_key agent entry_id = ''journal/'' @ agent @ ''/'' @ entry_id"

definition agent_prefix :: "string \<Rightarrow> bytes" where
  "agent_prefix agent = ''journal/'' @ agent @ ''/''"

definition supersession_key :: "string \<Rightarrow> string \<Rightarrow> bytes" where
  "supersession_key agent link_id = ''journal-supersession/'' @ agent @ ''/'' @ link_id"

definition supersession_prefix :: "string \<Rightarrow> bytes" where
  "supersession_prefix agent = ''journal-supersession/'' @ agent @ ''/''"

section \<open>Stored form\<close>

definition opt_nanos :: "f64 option \<Rightarrow> val" where
  "opt_nanos o' = (case o' of None \<Rightarrow> VNull | Some x \<Rightarrow> nanos_value x)"

definition journal_to_record :: "journal_entry \<Rightarrow> doc" where
  "journal_to_record e =
     \<lparr>doc_key = entry_key (je_agent_id e) (je_id e),
      doc_value = VObject
        [''kind'' \<mapsto> VString ''journal'',
         ''agent_id'' \<mapsto> VString (je_agent_id e),
         ''entry_type'' \<mapsto> VString (entry_type_as_str (je_entry_type e)),
         ''journal_content'' \<mapsto> VString (je_content e),
         ''preceded_by'' \<mapsto> string_array_value (je_preceded_by e),
         ''valence'' \<mapsto> opt_nanos (je_valence e),
         ''valence_reason'' \<mapsto> opt_string (je_valence_reason e),
         ''importance'' \<mapsto> nanos_value (je_importance e),
         ''tags'' \<mapsto> string_array_value (je_tags e),
         ''conversation_id'' \<mapsto> opt_string (je_conversation_id e),
         ''written_at_ms'' \<mapsto> VInteger (je_written_at_ms e),
         ''prev_hash'' \<mapsto> opt_string (je_prev_hash e),
         ''hash'' \<mapsto> VString (je_hash e)]\<rparr>"

definition id_from_segment :: "bytes \<Rightarrow> string decoded" where
  "id_from_segment key =
     (if \<not> utf8_valid key then Inl KeyErr
      else if last_segment key = [] then Inl KeyErr else Inr (last_segment key))"

definition journal_from_record :: "doc \<Rightarrow> journal_entry decoded" where
  "journal_from_record rec =
     r_bind (root_fields (doc_value rec)) (\<lambda>fs.
     r_bind (id_from_segment (doc_key rec)) (\<lambda>i.
     r_bind (string_field fs ''agent_id'') (\<lambda>agent.
     r_bind (enum_field entry_type_parse fs ''entry_type'' ''entry_type'') (\<lambda>ty.
     r_bind (string_field fs ''journal_content'') (\<lambda>text'.
     r_bind (string_array_field fs ''preceded_by'') (\<lambda>pred.
     r_bind (required_nanos_option fs ''valence'') (\<lambda>vl.
     r_bind (required_string_option fs ''valence_reason'') (\<lambda>vr.
     r_bind (nanos_field fs ''importance'') (\<lambda>imp.
     r_bind (string_array_field fs ''tags'') (\<lambda>ts.
     r_bind (required_string_option fs ''conversation_id'') (\<lambda>conv.
     r_bind (integer_field fs ''written_at_ms'') (\<lambda>when_ms.
     r_bind (required_string_option fs ''prev_hash'') (\<lambda>prev.
     r_bind (string_field fs ''hash'') (\<lambda>h.
       Inr \<lparr>je_id = i, je_agent_id = agent, je_entry_type = ty, je_content = text',
            je_preceded_by = pred, je_valence = vl, je_valence_reason = vr, je_importance = imp,
            je_tags = ts, je_conversation_id = conv, je_written_at_ms = when_ms,
            je_prev_hash = prev, je_hash = h\<rparr>))))))))))))))"

definition supersession_to_record :: "supersession \<Rightarrow> doc" where
  "supersession_to_record s =
     \<lparr>doc_key = supersession_key (ss_agent_id s) (ss_id s),
      doc_value = VObject
        [''kind'' \<mapsto> VString ''journal_supersession'',
         ''agent_id'' \<mapsto> VString (ss_agent_id s),
         ''original_entry_id'' \<mapsto> VString (ss_original_entry_id s),
         ''new_entry_id'' \<mapsto> VString (ss_new_entry_id s),
         ''relation'' \<mapsto> VString (supersession_as_str (ss_relation s)),
         ''written_at_ms'' \<mapsto> VInteger (ss_written_at_ms s)]\<rparr>"

definition supersession_from_record :: "doc \<Rightarrow> supersession decoded" where
  "supersession_from_record rec =
     r_bind (root_fields (doc_value rec)) (\<lambda>fs.
     r_bind (id_from_segment (doc_key rec)) (\<lambda>i.
     r_bind (string_field fs ''agent_id'') (\<lambda>agent.
     r_bind (string_field fs ''original_entry_id'') (\<lambda>orig.
     r_bind (string_field fs ''new_entry_id'') (\<lambda>new.
     r_bind (enum_field supersession_parse fs ''relation'' ''relation'') (\<lambda>rel.
     r_bind (integer_field fs ''written_at_ms'') (\<lambda>when_ms.
       Inr \<lparr>ss_id = i, ss_agent_id = agent, ss_original_entry_id = orig, ss_new_entry_id = new,
            ss_relation = rel, ss_written_at_ms = when_ms\<rparr>)))))))"

section \<open>Verification of a chain\<close>

fun broken_links ::
  "(bytes \<Rightarrow> string) \<Rightarrow> string option \<Rightarrow> journal_entry list \<Rightarrow> broken_link list" where
  "broken_links b3 expected [] = []"
| "broken_links b3 expected (e # es) =
     (let computed = chain_hash b3 (je_id e) (je_agent_id e) (je_content e) (je_written_at_ms e)
                       expected
      in (if je_prev_hash e \<noteq> expected
          then [\<lparr>bl_entry_id = je_id e, bl_reason = PrevHashMismatch\<rparr>]
          else if je_hash e \<noteq> computed
          then [\<lparr>bl_entry_id = je_id e, bl_reason = ContentTampered\<rparr>]
          else [])
         @ broken_links b3 (Some (je_hash e)) es)"

definition verify_entries ::
  "(bytes \<Rightarrow> string) \<Rightarrow> string \<Rightarrow> journal_entry list \<Rightarrow> chain_report" where
  "verify_entries b3 agent es =
     (let broken = broken_links b3 None es
      in \<lparr>cr_agent_id = agent, cr_total = length es, cr_valid = (broken = []), cr_broken = broken\<rparr>)"

section \<open>Keys keep agents apart\<close>

lemma separated_inj:
  "c \<notin> set x \<Longrightarrow> c \<notin> set y \<Longrightarrow> x @ c # r = y @ c # s \<Longrightarrow> x = y \<and> r = s"
proof (induction x arbitrary: y)
  case Nil
  then show ?case by (cases y) auto
next
  case (Cons a x)
  then show ?case by (cases y) auto
qed

lemma separated_last_inj:
  assumes "c \<notin> set r" and "c \<notin> set s" and "x @ c # r = y @ c # s"
  shows "x = y \<and> r = s"
proof -
  from assms(3) have "rev r @ c # rev x = rev s @ c # rev y"
    by (metis append.assoc append_Cons append_Nil rev.simps(2) rev_append)
  with assms(1,2) separated_inj [of c "rev r" "rev s" "rev x" "rev y"] show ?thesis by simp
qed

lemma prefix_separated:
  assumes "c \<notin> set a" and "c \<notin> set b"
  shows "prefix (a @ [c]) (b @ c # r) \<longleftrightarrow> a = b"
proof
  assume "prefix (a @ [c]) (b @ c # r)"
  then obtain t where "b @ c # r = (a @ [c]) @ t" by (auto simp: prefix_def)
  then have "b @ c # r = a @ c # t" by simp
  with assms separated_inj [of c b a r t] show "a = b" by blast
qed (simp add: prefix_def)

lemma agent_prefix_entry_key:
  assumes "is_valid_agent_id a" and "is_valid_agent_id b"
  shows "prefix (agent_prefix a) (entry_key b i) \<longleftrightarrow> a = b"
  using prefix_separated [OF valid_agent_id_no_separator(1) [OF assms(1)]
      valid_agent_id_no_separator(1) [OF assms(2)], of i]
  by (simp add: agent_prefix_def entry_key_def)

lemma supersession_prefix_key:
  assumes "is_valid_agent_id a" and "is_valid_agent_id b"
  shows "prefix (supersession_prefix a) (supersession_key b i) \<longleftrightarrow> a = b"
  using prefix_separated [OF valid_agent_id_no_separator(1) [OF assms(1)]
      valid_agent_id_no_separator(1) [OF assms(2)], of i]
  by (simp add: supersession_prefix_def supersession_key_def)

lemma journal_namespaces_disjoint:
  "\<not> prefix (agent_prefix a) (supersession_key b i)"
  "\<not> prefix (supersession_prefix a) (entry_key b i)"
  by (simp_all add: agent_prefix_def supersession_prefix_def entry_key_def supersession_key_def)

lemma entry_key_inj:
  assumes "is_valid_agent_id a" and "is_valid_agent_id b"
  shows "entry_key a i = entry_key b j \<longleftrightarrow> a = b \<and> i = j"
  using separated_inj [OF valid_agent_id_no_separator(1) [OF assms(1)]
      valid_agent_id_no_separator(1) [OF assms(2)], of i j]
  by (auto simp: entry_key_def)

section \<open>The digest determines what it covers\<close>

definition covered :: "journal_entry \<Rightarrow> string \<times> string \<times> string \<times> i64" where
  "covered e = (je_id e, je_agent_id e, je_content e, je_written_at_ms e)"

definition entry_preimage :: "journal_entry \<Rightarrow> bytes" where
  "entry_preimage e =
     chain_preimage (je_id e) (je_agent_id e) (je_content e) (je_written_at_ms e) (je_prev_hash e)"

definition good_entry :: "journal_entry \<Rightarrow> bool" where
  "good_entry e \<longleftrightarrow> CHR ''|'' \<notin> set (je_id e) \<and> CHR ''|'' \<notin> set (je_agent_id e)
     \<and> pred_option (\<lambda>h. h \<noteq> [] \<and> CHR ''|'' \<notin> set h) (je_prev_hash e)"

lemma dec_i64_no_bar: "CHR ''|'' \<notin> set (dec_i64 w)"
proof
  assume "CHR ''|'' \<in> set (dec_i64 w)"
  then have "is_digit_char CHR ''|'' \<or> CHR ''|'' = CHR ''-''" by (rule dec_i64_chars)
  then show False by (simp add: is_digit_char_def)
qed

lemma entry_preimage_inj:
  assumes e: "good_entry e" and f: "good_entry f" and eq: "entry_preimage e = entry_preimage f"
  shows "covered e = covered f \<and> je_prev_hash e = je_prev_hash f"
proof -
  let ?p = "\<lambda>e. case je_prev_hash e of None \<Rightarrow> '''' | Some h \<Rightarrow> h"
  let ?t = "\<lambda>e. dec_i64 (je_written_at_ms e)"
  have bar: "CHR ''|'' \<notin> set (je_id g)" "CHR ''|'' \<notin> set (je_agent_id g)"
    "CHR ''|'' \<notin> set (?p g)" if "good_entry g" for g
    using that by (cases "je_prev_hash g"; simp add: good_entry_def)+
  from eq have "je_id e @ CHR ''|'' # je_agent_id e @ ''|'' @ je_content e @ ''|'' @ ?t e @ ''|'' @ ?p e
      = je_id f @ CHR ''|'' # je_agent_id f @ ''|'' @ je_content f @ ''|'' @ ?t f @ ''|'' @ ?p f"
    by (simp add: entry_preimage_def chain_preimage_def)
  from separated_inj [OF bar(1) [OF e] bar(1) [OF f] this]
  have i: "je_id e = je_id f"
    and 1: "je_agent_id e @ CHR ''|'' # je_content e @ ''|'' @ ?t e @ ''|'' @ ?p e
      = je_agent_id f @ CHR ''|'' # je_content f @ ''|'' @ ?t f @ ''|'' @ ?p f" by simp_all
  from separated_inj [OF bar(2) [OF e] bar(2) [OF f] 1]
  have a: "je_agent_id e = je_agent_id f"
    and 2: "(je_content e @ ''|'' @ ?t e) @ CHR ''|'' # ?p e
      = (je_content f @ ''|'' @ ?t f) @ CHR ''|'' # ?p f" by simp_all
  from separated_last_inj [OF bar(3) [OF e] bar(3) [OF f] 2]
  have p: "?p e = ?p f" and 3: "je_content e @ CHR ''|'' # ?t e = je_content f @ CHR ''|'' # ?t f"
    by simp_all
  from separated_last_inj [OF dec_i64_no_bar dec_i64_no_bar 3]
  have c: "je_content e = je_content f" "?t e = ?t f" by simp_all
  from p e f have "je_prev_hash e = je_prev_hash f"
    by (cases "je_prev_hash e"; cases "je_prev_hash f") (auto simp: good_entry_def)
  with i a c(1) dec_i64_inj [OF c(2)] show ?thesis by (simp add: covered_def)
qed

interpretation journal_chain:
  hash_chain je_prev_hash je_hash entry_preimage covered good_entry
  by unfold_locales (rule entry_preimage_inj)

lemma broken_links_Nil:
  "broken_links b3 p es = [] \<longleftrightarrow> chain_ok je_prev_hash je_hash entry_preimage b3 p es"
  by (induction es arbitrary: p) (auto simp: Let_def chain_hash_def entry_preimage_def)

lemma verify_entries_valid:
  "cr_valid (verify_entries b3 agent es) \<longleftrightarrow>
     chain_ok je_prev_hash je_hash entry_preimage b3 None es"
  by (simp add: verify_entries_def Let_def broken_links_Nil)

section \<open>Round trip\<close>

lemma last_segment_entry_key:
  "CHR ''/'' \<notin> set i \<Longrightarrow> last_segment (entry_key a i) = i"
  "CHR ''/'' \<notin> set i \<Longrightarrow> last_segment (supersession_key a i) = i"
  using last_segment_append [of i "''journal/'' @ a"]
    last_segment_append [of i "''journal-supersession/'' @ a"]
  by (simp_all add: entry_key_def supersession_key_def)

definition entry_as_stored :: "journal_entry \<Rightarrow> journal_entry" where
  "entry_as_stored e =
     e\<lparr>je_valence := map_option snap (je_valence e), je_importance := snap (je_importance e)\<rparr>"

lemma journal_key_ok:
  assumes "is_valid_agent_id a" and "i \<noteq> []" and "CHR ''/'' \<notin> set i" and "utf8_valid i"
  shows "id_from_segment (entry_key a i) = Inr i" "id_from_segment (supersession_key a i) = Inr i"
proof -
  have "ascii (''journal/'' @ a @ ''/'')" "ascii (''journal-supersession/'' @ a @ ''/'')"
    using valid_agent_id_ascii [OF assms(1)] by (simp_all add: ascii_def code_def)
  from this [THEN utf8_valid_ascii_append, of i]
  have "utf8_valid (entry_key a i)" "utf8_valid (supersession_key a i)"
    using assms(4) by (simp_all add: entry_key_def supersession_key_def)
  with assms(2,3) show "id_from_segment (entry_key a i) = Inr i"
    "id_from_segment (supersession_key a i) = Inr i"
    by (simp_all add: id_from_segment_def last_segment_entry_key)
qed

lemma read_opt_nanos [codec]:
  "fs f = Some (opt_nanos o') \<Longrightarrow> required_nanos_option fs f = Inr (map_option snap o')"
  by (rule read_required_nanos) (simp add: opt_nanos_def)

lemma journal_decode_encode:
  assumes "is_valid_agent_id (je_agent_id e)" and "je_id e \<noteq> []" and "CHR ''/'' \<notin> set (je_id e)"
    and "utf8_valid (je_id e)"
  shows "journal_from_record (journal_to_record e) = Inr (entry_as_stored e)"
  using journal_key_ok [OF assms]
  by (simp add: journal_from_record_def journal_to_record_def codec entry_type.of_to_name
      entry_as_stored_def)

lemma supersession_decode_encode:
  assumes "is_valid_agent_id (ss_agent_id s)" and "ss_id s \<noteq> []" and "CHR ''/'' \<notin> set (ss_id s)"
    and "utf8_valid (ss_id s)"
  shows "supersession_from_record (supersession_to_record s) = Inr s"
  using journal_key_ok [OF assms]
  by (simp add: supersession_from_record_def supersession_to_record_def codec
      supersession_relation.of_to_name)

end
