(* ===== verification/Store_Api.thy ===== *)
theory Store_Api
  imports Store_Value "HOL-Library.List_Lexorder" "HOL-Library.Char_ord"
begin

text \<open>
  The part of the Hyphae store the engine calls, and \<open>scan_prefix\<close> of \<open>engine.rs\<close>. Hyphae is a
  third-party crate: its operations are the record \<open>hyphae\<close> of functions on an abstract state, and
  what the engine relies on is the predicate \<open>faithful_store\<close>, a hypothesis where it is needed.
  The rows of a store are its documents in ascending order of their binary key. The transaction id of
  a write (a new \<open>Uuid::now_v7\<close>, or one derived from what is written) is not modelled: \<open>hy_put\<close> takes
  none.
\<close>

section \<open>The interface\<close>

record ('s, 'c, 'e) hyphae =
  hy_get :: "'s \<Rightarrow> bytes \<Rightarrow> 'e + doc option"
  hy_put :: "'s \<Rightarrow> doc \<Rightarrow> 'e + 's"
  hy_page :: "'s \<Rightarrow> 'c option \<Rightarrow> nat \<Rightarrow> 'e + (doc list \<times> 'c option)"

text \<open>\<open>hy_page s c n\<close> is the query with filter \<open>MatchAll\<close>, no sort, cursor \<open>c\<close> and limit \<open>n\<close>.\<close>

definition key_sorted :: "doc list \<Rightarrow> bool" where
  "key_sorted ds \<longleftrightarrow> sorted_wrt (\<lambda>a b. doc_key a < doc_key b) ds"

definition lookup_doc :: "doc list \<Rightarrow> bytes \<Rightarrow> doc option" where
  "lookup_doc ds k = find (\<lambda>d. doc_key d = k) ds"

fun upsert :: "doc \<Rightarrow> doc list \<Rightarrow> doc list" where
  "upsert d [] = [d]"
| "upsert d (e # ds) =
     (if doc_key d < doc_key e then d # e # ds
      else if doc_key d = doc_key e then d # ds
      else e # upsert d ds)"

text \<open>\<open>valid\<close> holds of the states the store can be in, \<open>rows\<close> reads the documents of a state,
  \<open>rest\<close> those after a cursor.\<close>

definition faithful_store ::
  "('s, 'c, 'e) hyphae \<Rightarrow> ('s \<Rightarrow> bool) \<Rightarrow> ('s \<Rightarrow> doc list) \<Rightarrow> ('s \<Rightarrow> 'c option \<Rightarrow> doc list) \<Rightarrow> bool" where
  "faithful_store H valid rows rest \<longleftrightarrow>
     (\<forall>s. valid s \<longrightarrow> key_sorted (rows s))
     \<and> (\<forall>s k r. valid s \<longrightarrow> hy_get H s k = Inr r \<longrightarrow> r = lookup_doc (rows s) k)
     \<and> (\<forall>s d s'. valid s \<longrightarrow> hy_put H s d = Inr s' \<longrightarrow> valid s' \<and> rows s' = upsert d (rows s))
     \<and> (\<forall>s. valid s \<longrightarrow> rest s None = rows s)
     \<and> (\<forall>s c n ds nx. valid s \<longrightarrow> hy_page H s c n = Inr (ds, nx) \<longrightarrow>
          ds = take n (rest s c)
          \<and> (case nx of None \<Rightarrow> length (rest s c) \<le> n
             | Some c' \<Rightarrow> n < length (rest s c) \<and> rest s (Some c') = drop n (rest s c)))"

lemma faithful_storeD:
  assumes "faithful_store H valid rows rest" and "valid s"
  shows "key_sorted (rows s)"
    and "hy_get H s k = Inr r \<Longrightarrow> r = lookup_doc (rows s) k"
    and "hy_put H s d = Inr s' \<Longrightarrow> valid s' \<and> rows s' = upsert d (rows s)"
    and "rest s None = rows s"
    and "hy_page H s c n = Inr (ds, nx) \<Longrightarrow> ds = take n (rest s c)"
    and "hy_page H s c n = Inr (ds, None) \<Longrightarrow> length (rest s c) \<le> n"
    and "hy_page H s c n = Inr (ds, Some c') \<Longrightarrow>
           n < length (rest s c) \<and> rest s (Some c') = drop n (rest s c)"
proof -
  note laws = assms(1) [unfolded faithful_store_def]
  show "key_sorted (rows s)" using laws assms(2) by (elim conjE) blast
  show "hy_get H s k = Inr r \<Longrightarrow> r = lookup_doc (rows s) k"
    using laws assms(2) by (elim conjE) blast
  show "hy_put H s d = Inr s' \<Longrightarrow> valid s' \<and> rows s' = upsert d (rows s)"
    using laws assms(2) by (elim conjE) blast
  show "rest s None = rows s" using laws assms(2) by (elim conjE) blast
  have page: "ds = take n (rest s c)
      \<and> (case nx of None \<Rightarrow> length (rest s c) \<le> n
         | Some c' \<Rightarrow> n < length (rest s c) \<and> rest s (Some c') = drop n (rest s c))"
    if "hy_page H s c n = Inr (ds, nx)" for nx
    using laws assms(2) that by (elim conjE) blast
  show "hy_page H s c n = Inr (ds, nx) \<Longrightarrow> ds = take n (rest s c)" using page by blast
  show "hy_page H s c n = Inr (ds, None) \<Longrightarrow> length (rest s c) \<le> n" using page by fastforce
  show "hy_page H s c n = Inr (ds, Some c') \<Longrightarrow>
      n < length (rest s c) \<and> rest s (Some c') = drop n (rest s c)" using page by fastforce
qed

section \<open>Rows and keys\<close>

lemma key_sorted_Cons:
  "key_sorted (d # ds) \<longleftrightarrow> (\<forall>e\<in>set ds. doc_key d < doc_key e) \<and> key_sorted ds"
  by (simp add: key_sorted_def)

lemma set_upsert: "set (upsert d ds) \<subseteq> insert d (set ds)"
  by (induction ds) auto

lemma key_sorted_distinct: "key_sorted ds \<Longrightarrow> distinct (map doc_key ds)"
  by (induction ds) (auto simp: key_sorted_Cons)

lemma key_sorted_unique:
  "key_sorted ds \<Longrightarrow> x \<in> set ds \<Longrightarrow> y \<in> set ds \<Longrightarrow> doc_key x = doc_key y \<Longrightarrow> x = y"
  by (induction ds) (auto simp: key_sorted_def)

lemma key_sorted_upsert: "key_sorted ds \<Longrightarrow> key_sorted (upsert d ds)"
proof (induction ds)
  case Nil
  then show ?case by (simp add: key_sorted_def)
next
  case (Cons e ds)
  then have e: "\<forall>x\<in>set ds. doc_key e < doc_key x" and ds: "key_sorted ds"
    by (simp_all add: key_sorted_Cons)
  consider "doc_key d < doc_key e" | "doc_key d = doc_key e" | "doc_key e < doc_key d"
    by (metis linorder_cases)
  then show ?case
  proof cases
    case 1
    then have "\<forall>x\<in>set ds. doc_key d < doc_key x" using e by (meson order_less_trans)
    with 1 e ds show ?thesis by (simp add: key_sorted_Cons)
  next
    case 2
    with e ds show ?thesis by (simp add: key_sorted_Cons)
  next
    case 3
    then have "\<forall>x\<in>set (upsert d ds). doc_key e < doc_key x"
      using e set_upsert [of d ds] by blast
    moreover have "\<not> doc_key d < doc_key e" "doc_key d \<noteq> doc_key e" using 3 by simp_all
    ultimately show ?thesis using Cons.IH [OF ds] by (simp add: key_sorted_Cons)
  qed
qed

lemma lookup_upsert:
  "key_sorted ds \<Longrightarrow> lookup_doc (upsert d ds) k = (if doc_key d = k then Some d else lookup_doc ds k)"
proof (induction ds)
  case Nil
  then show ?case by (simp add: lookup_doc_def)
next
  case (Cons e ds)
  then show ?case by (auto simp: lookup_doc_def key_sorted_Cons)
qed

lemma lookup_doc_None: "lookup_doc ds k = None \<longleftrightarrow> (\<forall>d\<in>set ds. doc_key d \<noteq> k)"
  by (auto simp: lookup_doc_def find_None_iff)

lemma lookup_doc_Some: "lookup_doc ds k = Some d \<Longrightarrow> d \<in> set ds \<and> doc_key d = k"
  by (auto simp: lookup_doc_def find_Some_iff)

lemma filter_upsert_other:
  "\<not> P (doc_key d) \<Longrightarrow> filter (\<lambda>x. P (doc_key x)) (upsert d ds) = filter (\<lambda>x. P (doc_key x)) ds"
  by (induction ds) auto

lemma filter_upsert_last:
  assumes "key_sorted ds" and "P (doc_key d)"
    and "\<forall>e\<in>set ds. P (doc_key e) \<longrightarrow> doc_key e < doc_key d"
  shows "filter (\<lambda>x. P (doc_key x)) (upsert d ds) = filter (\<lambda>x. P (doc_key x)) ds @ [d]"
  using assms
proof (induction ds)
  case (Cons e ds)
  show ?case
  proof (cases "doc_key d < doc_key e \<or> doc_key d = doc_key e")
    case True
    have "\<not> P (doc_key x)" if "x \<in> set (e # ds)" for x
    proof
      assume "P (doc_key x)"
      with Cons.prems(3) that have "doc_key x < doc_key d" by blast
      moreover have "doc_key e \<le> doc_key x"
        using that Cons.prems(1) by (auto simp: key_sorted_Cons intro: less_imp_le)
      ultimately show False using True by auto
    qed
    then have no: "\<not> P (doc_key e)" "filter (\<lambda>x. P (doc_key x)) ds = []"
      by (auto simp: filter_empty_conv)
    from True Cons.prems(2) no show ?thesis by (auto simp: no(2))
  next
    case False
    then have "filter (\<lambda>x. P (doc_key x)) (upsert d ds) = filter (\<lambda>x. P (doc_key x)) ds @ [d]"
      using Cons.prems by (intro Cons.IH) (auto simp: key_sorted_Cons)
    with False show ?thesis by auto
  qed
qed simp

text \<open>In lexicographic order, the keys with a prefix come together, right after the prefix.\<close>

lemma after_prefix_range:
  "p < k \<Longrightarrow> \<not> prefix p k \<Longrightarrow> k < k' \<Longrightarrow> \<not> prefix (p :: bytes) k'"
proof (induction p arbitrary: k k')
  case (Cons c p)
  from Cons.prems(1) obtain d ds where k: "k = d # ds" by (cases k) auto
  from Cons.prems(3) k obtain d' ds' where k': "k' = d' # ds'" by (cases k') auto
  show ?case
  proof
    assume "prefix (c # p) k'"
    then have d': "d' = c" and pre: "prefix p ds'" by (simp_all add: k')
    from Cons.prems(1) have "c < d \<or> c = d \<and> p < ds" by (simp add: k)
    moreover from Cons.prems(3) d' have "d < c \<or> d = c \<and> ds < ds'" by (simp add: k k')
    ultimately have "c = d" "p < ds" "ds < ds'" by auto
    moreover have "\<not> prefix p ds" using Cons.prems(2) \<open>c = d\<close> by (simp add: k)
    ultimately show False using Cons.IH pre by blast
  qed
qed simp

section \<open>Scanning a key prefix\<close>

text \<open>One page: the records found so far, and whether the scan has passed the range.\<close>

fun scan_rows :: "bytes \<Rightarrow> doc list \<Rightarrow> doc list \<Rightarrow> doc list \<times> bool" where
  "scan_rows p [] found = (found, False)"
| "scan_rows p (d # ds) found =
     (if prefix p (doc_key d) then scan_rows p ds (found @ [d])
      else if p < doc_key d then (found, True)
      else scan_rows p ds found)"

partial_function (option) scan_loop ::
  "('s, 'c, 'e) hyphae \<Rightarrow> 's \<Rightarrow> bytes \<Rightarrow> 'c option \<Rightarrow> doc list \<Rightarrow> ('e + doc list) option" where
  "scan_loop H s p cursor found =
     (case hy_page H s cursor 1000 of
        Inl e \<Rightarrow> Some (Inl e)
      | Inr (ds, nx) \<Rightarrow>
          (case scan_rows p ds found of (found', passed) \<Rightarrow>
             (case nx of
                None \<Rightarrow> Some (Inr found')
              | Some c \<Rightarrow> if passed then Some (Inr found') else scan_loop H s p (Some c) found')))"

definition scan_prefix :: "('s, 'c, 'e) hyphae \<Rightarrow> 's \<Rightarrow> bytes \<Rightarrow> ('e + doc list) option" where
  "scan_prefix H s p = scan_loop H s p None []"

definition has_prefix :: "bytes \<Rightarrow> doc \<Rightarrow> bool" where
  "has_prefix p d \<longleftrightarrow> prefix p (doc_key d)"

lemma scan_rows_filter:
  assumes "key_sorted (ds @ es)"
  shows "\<exists>passed. scan_rows p ds found = (found @ filter (has_prefix p) ds, passed)
    \<and> (passed \<longrightarrow> filter (has_prefix p) es = [])"
  using assms
proof (induction ds arbitrary: found)
  case (Cons d ds)
  from Cons.prems have s: "key_sorted (ds @ es)"
    and less: "\<forall>e\<in>set (ds @ es). doc_key d < doc_key e" by (simp_all add: key_sorted_Cons)
  show ?case
  proof (cases "\<not> prefix p (doc_key d) \<and> p < doc_key d")
    case True
    then have "\<forall>e\<in>set (ds @ es). \<not> prefix p (doc_key e)"
      using less after_prefix_range by blast
    with True show ?thesis by (auto simp: has_prefix_def filter_empty_conv)
  next
    case False
    then consider "prefix p (doc_key d)" | "\<not> prefix p (doc_key d)" "\<not> p < doc_key d" by blast
    then show ?thesis
    proof cases
      case 1
      with Cons.IH [OF s, of "found @ [d]"] show ?thesis by (simp add: has_prefix_def)
    next
      case 2
      with Cons.IH [OF s, of found] show ?thesis by (simp add: has_prefix_def)
    qed
  qed
next
  case Nil
  then show ?case by (intro exI [of _ False]) simp
qed

lemma scan_loop_filter:
  assumes H: "faithful_store H valid rows rest" and v: "valid s"
  shows "key_sorted (rest s c) \<Longrightarrow>
    \<exists>r. scan_loop H s p c found = Some r
      \<and> (case r of Inr ds \<Rightarrow> ds = found @ filter (has_prefix p) (rest s c)
         | Inl e \<Rightarrow> \<exists>c'. hy_page H s c' 1000 = Inl e)"
proof (induction "length (rest s c)" arbitrary: c found rule: less_induct)
  case less
  show ?case
  proof (cases "hy_page H s c 1000")
    case (Inl e)
    then show ?thesis by (subst scan_loop.simps) auto
  next
    case (Inr y)
    obtain ds nx where y: "y = (ds, nx)" by (cases y)
    note page = Inr [unfolded y]
    have ds: "ds = take 1000 (rest s c)" by (rule faithful_storeD(5) [OF H v page])
    have "key_sorted (ds @ drop 1000 (rest s c))" using less.prems by (simp add: ds)
    from scan_rows_filter [OF this, of p found] obtain passed where
      sc: "scan_rows p ds found = (found @ filter (has_prefix p) ds, passed)"
      and pass: "passed \<Longrightarrow> filter (has_prefix p) (drop 1000 (rest s c)) = []" by blast
    have split: "filter (has_prefix p) (rest s c)
        = filter (has_prefix p) ds @ filter (has_prefix p) (drop 1000 (rest s c))"
      unfolding ds by (metis append_take_drop_id filter_append)
    show ?thesis
    proof (cases nx)
      case None
      with faithful_storeD(6) [OF H v] page have "length (rest s c) \<le> 1000" by blast
      with split have "filter (has_prefix p) (rest s c) = filter (has_prefix p) ds" by simp
      with sc None show ?thesis by (subst scan_loop.simps) (simp add: page)
    next
      case (Some c')
      with faithful_storeD(7) [OF H v] page
      have n: "1000 < length (rest s c)" and r: "rest s (Some c') = drop 1000 (rest s c)" by blast+
      show ?thesis
      proof (cases passed)
        case True
        with pass split have "filter (has_prefix p) (rest s c) = filter (has_prefix p) ds" by simp
        with sc Some True show ?thesis by (subst scan_loop.simps) (simp add: page)
      next
        case False
        have "key_sorted (rest s (Some c'))"
          using less.prems unfolding r key_sorted_def by (rule sorted_wrt_drop)
        moreover have "length (rest s (Some c')) < length (rest s c)" using n r by simp
        ultimately obtain x where
          x: "scan_loop H s p (Some c') (found @ filter (has_prefix p) ds) = Some x"
          and post: "case x of
              Inr ds' \<Rightarrow> ds' = (found @ filter (has_prefix p) ds)
                @ filter (has_prefix p) (rest s (Some c'))
            | Inl e \<Rightarrow> \<exists>c'. hy_page H s c' 1000 = Inl e"
          using less.hyps by blast
        from x False sc Some have "scan_loop H s p c found = Some x"
          by (subst scan_loop.simps) (simp add: page)
        moreover have "case x of
              Inr ds' \<Rightarrow> ds' = found @ filter (has_prefix p) (rest s c)
            | Inl e \<Rightarrow> \<exists>c'. hy_page H s c' 1000 = Inl e"
          using post by (cases x) (simp_all add: split r)
        ultimately show ?thesis by blast
      qed
    qed
  qed
qed

lemma scan_prefix_filter:
  assumes "faithful_store H valid rows rest" and "valid s"
  shows "\<exists>r. scan_prefix H s p = Some r
    \<and> (case r of Inr ds \<Rightarrow> ds = filter (has_prefix p) (rows s)
       | Inl e \<Rightarrow> \<exists>c. hy_page H s c 1000 = Inl e)"
proof -
  note start = faithful_storeD(1,4) [OF assms]
  from start have "key_sorted (rest s None)" by simp
  from scan_loop_filter [OF assms this, of p "[]"] start(2) show ?thesis
    unfolding scan_prefix_def append_Nil by metis
qed

lemma scan_prefix_Inr:
  assumes "faithful_store H valid rows rest" and "valid s" and "scan_prefix H s p = Some (Inr ds)"
  shows "ds = filter (has_prefix p) (rows s)"
  using scan_prefix_filter [OF assms(1,2), of p] assms(3) by auto

section \<open>A concrete store\<close>

text \<open>A sorted list of documents with an offset as cursor, which never fails. It keeps the laws, so
  they are consistent; witnesses run the engine on it.\<close>

definition list_store :: "(doc list, nat, unit) hyphae" where
  "list_store =
     \<lparr>hy_get = (\<lambda>s k. Inr (lookup_doc s k)),
      hy_put = (\<lambda>s d. Inr (upsert d s)),
      hy_page = (\<lambda>s c n.
        let off = (case c of None \<Rightarrow> 0 | Some k \<Rightarrow> k)
        in Inr (take n (drop off s), if off + n < length s then Some (off + n) else None))\<rparr>"

definition list_rest :: "doc list \<Rightarrow> nat option \<Rightarrow> doc list" where
  "list_rest s c = drop (case c of None \<Rightarrow> 0 | Some k \<Rightarrow> k) s"

lemma list_store_faithful: "faithful_store list_store key_sorted (\<lambda>s. s) list_rest"
  unfolding faithful_store_def
  by (auto simp: list_store_def list_rest_def Let_def key_sorted_upsert add.commute
      split: option.splits if_splits)

lemma list_scan:
  assumes "key_sorted s"
  shows "scan_prefix list_store s p = Some (Inr (filter (has_prefix p) s))"
proof -
  obtain r where r: "scan_prefix list_store s p = Some r"
    and post: "case r of Inr ds \<Rightarrow> ds = filter (has_prefix p) s
       | Inl e \<Rightarrow> \<exists>c. hy_page list_store s c 1000 = Inl e"
    using scan_prefix_filter [OF list_store_faithful assms, of p] by blast
  show ?thesis using r post by (cases r) (simp_all add: list_store_def Let_def)
qed

lemma list_get_put [simp]:
  "hy_get list_store s k = Inr (lookup_doc s k)" "hy_put list_store s d = Inr (upsert d s)"
  by (simp_all add: list_store_def)

text \<open>
  C33. A prefix scan always ends, whatever the store holds and however it pages its rows, and returns
  exactly the documents whose key starts with the prefix, in key order, or the error of a page it
  asked for. Stopping at the first key beyond the range loses nothing.
\<close>

theorem scan_prefix_correct:
  assumes "faithful_store H valid rows rest" and "valid s"
  shows "(\<exists>e c. scan_prefix H s p = Some (Inl e) \<and> hy_page H s c 1000 = Inl e)
    \<or> scan_prefix H s p = Some (Inr (filter (\<lambda>d. prefix p (doc_key d)) (rows s)))"
proof -
  obtain r where r: "scan_prefix H s p = Some r"
    and post: "case r of Inr ds \<Rightarrow> ds = filter (has_prefix p) (rows s)
       | Inl e \<Rightarrow> \<exists>c. hy_page H s c 1000 = Inl e"
    using scan_prefix_filter [OF assms] by blast
  show ?thesis
    using r post by (cases r) (auto simp: has_prefix_def [abs_def])
qed

theorem scan_prefix_correct_witness:
  "scan_prefix list_store [\<lparr>doc_key = ''a'', doc_value = VNull\<rparr>, \<lparr>doc_key = ''b/1'', doc_value = VNull\<rparr>] ''b/''
   = Some (Inr [\<lparr>doc_key = ''b/1'', doc_value = VNull\<rparr>])"
proof -
  have "key_sorted [\<lparr>doc_key = ''a'', doc_value = VNull\<rparr>, \<lparr>doc_key = ''b/1'', doc_value = VNull\<rparr>]"
    by (simp add: key_sorted_def)
  from scan_prefix_correct [OF list_store_faithful this, of "''b/''"] show ?thesis
    by (auto simp: list_store_def)
qed

end
