(* ===== verification/Filter_Language.thy ===== *)
theory Filter_Language
  imports Rust_Text
begin

text \<open>The types of \<open>filter.rs\<close>: the filter language of the memory API and the errors of its validation.\<close>

section \<open>The filter language\<close>

datatype memory_field =
    AgentId | ProjectId | ConversationId | SessionId | ScopeField | MemoryTypeField | StateField
  | ImportanceField | Strength | RetrievalCount | ConsolidationCount | Valence | Arousal | Dominance
  | Tags | CreatedAt | EventAt | IngestedAt | LastRetrievedAt | SourceKindField | SourceId
  | SourceUri | SourceActor | ContentHash

datatype filter_operator =
    OpEq | OpNe | OpLt | OpLte | OpGt | OpGte | OpIn | OpNotIn | OpPrefix | OpContains | OpIsNull
  | OpIsNotNull | OpBetween

datatype filter_value =
    FString string | FInteger i64 | FFloat f64
  | FStrings "string list" | FIntegers "i64 list" | FFloats "f64 list"

record memory_predicate =
  mp_field :: memory_field
  mp_operator :: filter_operator
  mp_value :: "filter_value option"

datatype memory_filter =
    MatchAll
  | AllOf "memory_filter list"
  | AnyOf "memory_filter list"
  | NotF memory_filter
  | Predicate memory_predicate

datatype filter_error =
    TooManyNodes nat nat
  | TooDeep nat nat
  | TooManyValues nat nat
  | InvalidOperator memory_field filter_operator
  | MissingValue filter_operator
  | UnexpectedValue filter_operator
  | InvalidValue memory_field filter_operator
  | EmptyList
  | InvalidRangeLength nat
  | NonFiniteFloat
  | FloatOutOfRange

end
