(* ===== verification/Engine_Result.thy ===== *)
theory Engine_Result
  imports Store_Api Filter_Language
begin

text \<open>
  Results of engine operations. An operation may fail with a value of \<open>engine_error\<close> (the variants
  of \<open>MemoryEngineError\<close> the modelled operations raise; \<open>Hyphae\<close> carries a failure of the store), and
  a scan is a loop, so an operation that scans is an \<open>option\<close>: \<open>None\<close> would be a scan that does not
  end, which \<open>scan_prefix_correct\<close> excludes.
\<close>

text \<open>\<open>InvalidClaim\<close> of \<open>claim.rs\<close>.\<close>

datatype invalid_claim = ClaimText string | ClaimConfidence | ClaimNoEvidence | ClaimValidity

text \<open>\<open>InvalidGraph\<close> of \<open>graph.rs\<close> and \<open>InvalidDerived\<close> of \<open>derived.rs\<close>.\<close>

datatype invalid_graph = GraphText string | GraphEvidence | GraphValidity | GraphLineageTargets | GraphTraversalBudget

datatype invalid_derived = DerivedText string | DerivedPeriod

datatype 'e engine_error =
    Hyphae 'e
  | Decode decode_error
  | InvalidAgentId string
  | JournalEntryNotFound string string
  | TenantMismatch string string
  | EmbeddingSpaceMismatch string string
  | RevisionConflict u64 u64
  | EmptyPatch
  | EthicsBlocked string "string list"
  | QuantizeDimension u16 nat
  | QuantizeNotFinite nat
  | QuantizeVector
  | ContentHashMismatch
  | IdempotencyConflict
  | BrokenIdempotencyReference string
  | IdempotencyDecode decode_error
  | MissingCandidate string
  | IngestionConflict string
  | IngestionBatchConflict string
  | InvalidIngestionBatch string
  | ConversationMismatch nat
  | IngestionEventNotFound string
  | IngestionDecode decode_error
  | InvalidClaim invalid_claim
  | ClaimDecode decode_error
  | ClaimEvidenceNotFound string
  | ClaimConflict string
  | ClaimEvidenceExcerptMismatch string
  | ClaimPropertyMismatch
  | ClaimSuccessorRequired
  | ClaimSupersessionCycle
  | ClaimNotFound string
  | InvalidGraph invalid_graph
  | GraphDecode decode_error
  | GraphEntityNotFound string
  | GraphEntityTypeNotFound string
  | GraphEvidenceNotFound string
  | GraphEvidenceExcerptMismatch string
  | GraphLineageCycle
  | GraphRelationEndpointType
  | GraphRelationTypeNotFound string
  | InvalidDerived invalid_derived
  | DerivedDecode decode_error
  | ConsolidationSourcesEmpty
  | ConsolidationPlanConflict
  | InvalidRerankerScores string
  | InvalidRecallRequest string
  | FilterError filter_error
  | Snapshot string

type_synonym ('e, 'a) outcome = "('e engine_error + 'a) option"

definition m_return :: "'a \<Rightarrow> ('e, 'a) outcome" where
  "m_return x = Some (Inr x)"

definition m_fail :: "'e engine_error \<Rightarrow> ('e, 'a) outcome" where
  "m_fail e = Some (Inl e)"

definition m_bind :: "('e, 'a) outcome \<Rightarrow> ('a \<Rightarrow> ('e, 'b) outcome) \<Rightarrow> ('e, 'b) outcome" where
  "m_bind m f = (case m of
     None \<Rightarrow> None
   | Some (Inl e) \<Rightarrow> Some (Inl e)
   | Some (Inr x) \<Rightarrow> f x)"

text \<open>The conversions the \<open>?\<close> operator applies.\<close>

definition from_store :: "'e + 'a \<Rightarrow> ('e, 'a) outcome" where
  "from_store r = (case r of Inl e \<Rightarrow> Some (Inl (Hyphae e)) | Inr x \<Rightarrow> Some (Inr x))"

definition from_decode :: "'a decoded \<Rightarrow> ('e, 'a) outcome" where
  "from_decode r = (case r of Inl e \<Rightarrow> Some (Inl (Decode e)) | Inr x \<Rightarrow> Some (Inr x))"

definition from_scan :: "('e + 'a) option \<Rightarrow> ('e, 'a) outcome" where
  "from_scan m = (case m of None \<Rightarrow> None | Some r \<Rightarrow> from_store r)"

lemma m_simps [simp]:
  "m_bind (m_return x) f = f x" "m_bind (m_fail e) f = m_fail e"
  "m_bind (Some (Inr x)) f = f x" "m_bind (Some (Inl e)) f = Some (Inl e)" "m_bind None f = None"
  by (simp_all add: m_bind_def m_return_def m_fail_def)

lemma m_bind_Inr:
  "m_bind m f = Some (Inr y) \<longleftrightarrow> (\<exists>x. m = Some (Inr x) \<and> f x = Some (Inr y))"
  by (auto simp: m_bind_def split: option.splits sum.splits)

lemma m_bind_assoc: "m_bind (m_bind m f) g = m_bind m (\<lambda>x. m_bind (f x) g)"
  by (simp add: m_bind_def split: option.split sum.split)

lemma m_return_Inr [simp]: "m_return x = Some (Inr y) \<longleftrightarrow> x = y"
  by (simp add: m_return_def)

lemma m_fail_Inr [simp]: "m_fail e \<noteq> Some (Inr y)" "m_fail e = Some (Inl e') \<longleftrightarrow> e = e'"
  by (simp_all add: m_fail_def)

lemma from_store_Inr [simp]: "from_store r = Some (Inr x) \<longleftrightarrow> r = Inr x"
  by (cases r) (simp_all add: from_store_def)

lemma from_decode_Inr [simp]: "from_decode r = Some (Inr x) \<longleftrightarrow> r = Inr x"
  by (cases r) (simp_all add: from_decode_def)

lemma from_scan_Inr [simp]: "from_scan m = Some (Inr x) \<longleftrightarrow> m = Some (Inr x)"
  by (cases m) (simp_all add: from_scan_def)

text \<open>An outcome that is a value or a failure of the store, and nothing else.\<close>

definition ok_or_hyphae :: "('e, 'a) outcome \<Rightarrow> ('a \<Rightarrow> bool) \<Rightarrow> bool" where
  "ok_or_hyphae m P \<longleftrightarrow> (\<exists>e. m = Some (Inl (Hyphae e))) \<or> (\<exists>x. m = Some (Inr x) \<and> P x)"

lemma ok_or_hyphae_bind:
  "ok_or_hyphae m P \<Longrightarrow> (\<And>x. P x \<Longrightarrow> ok_or_hyphae (f x) Q) \<Longrightarrow> ok_or_hyphae (m_bind m f) Q"
  unfolding ok_or_hyphae_def by (elim disjE exE conjE) simp_all

lemma ok_or_hyphae_weaken: "ok_or_hyphae m P \<Longrightarrow> (\<And>x. P x \<Longrightarrow> Q x) \<Longrightarrow> ok_or_hyphae m Q"
  by (auto simp: ok_or_hyphae_def)

lemma ok_or_hyphae_simps [simp]:
  "ok_or_hyphae (m_return x) P \<longleftrightarrow> P x" "ok_or_hyphae (Some (Inr x)) P \<longleftrightarrow> P x"
  by (auto simp: ok_or_hyphae_def m_return_def)

lemma scan_ok:
  assumes "faithful_store H valid rows rest" and "valid s"
  shows "ok_or_hyphae (from_scan (scan_prefix H s p)) (\<lambda>ds. ds = filter (has_prefix p) (rows s))"
proof -
  obtain r where r: "scan_prefix H s p = Some r"
    and post: "case r of Inr ds \<Rightarrow> ds = filter (has_prefix p) (rows s)
       | Inl e \<Rightarrow> \<exists>c. hy_page H s c 1000 = Inl e"
    using scan_prefix_filter [OF assms] by blast
  show ?thesis
    using r post by (cases r) (simp_all add: from_scan_def from_store_def ok_or_hyphae_def)
qed

text \<open>What a write changes of a scan: nothing outside its prefix, one more document at the end when
  the new key is the largest with the prefix.\<close>

lemma scan_after_other:
  "rows s' = upsert d (rows s) \<Longrightarrow> \<not> prefix p (doc_key d)
   \<Longrightarrow> filter (has_prefix p) (rows s') = filter (has_prefix p) (rows s)"
  using filter_upsert_other [of "prefix p" d "rows s"] by (simp add: has_prefix_def [abs_def])

lemma scan_after_append:
  "rows s' = upsert d (rows s) \<Longrightarrow> key_sorted (rows s) \<Longrightarrow> prefix p (doc_key d)
   \<Longrightarrow> \<forall>e\<in>set (rows s). prefix p (doc_key e) \<longrightarrow> doc_key e < doc_key d
   \<Longrightarrow> filter (has_prefix p) (rows s') = filter (has_prefix p) (rows s) @ [d]"
  using filter_upsert_last [of "rows s" "prefix p" d] by (simp add: has_prefix_def [abs_def])

end
