(* ===== verification/Journal_Engine.thy ===== *)
theory Journal_Engine
  imports Journal Engine_Result
begin

text \<open>
  The journal operations of \<open>engine.rs\<close> on the store: \<open>journal_write\<close>, \<open>journal_recall\<close>,
  \<open>journal_supersede\<close>, \<open>journal_verify_chain\<close> and their helpers. Parameters: the store \<open>H\<close>, the
  digest \<open>b3\<close>, the new entry id that \<open>Uuid::now_v7\<close> returned, and \<open>lower\<close>, the Unicode tables of
  \<open>str::to_lowercase\<close>.
\<close>

section \<open>Requests\<close>

record journal_write_request =
  jw_agent_id :: string
  jw_entry_type :: journal_entry_type
  jw_content :: string
  jw_preceded_by :: "string list"
  jw_valence :: "f64 option"
  jw_valence_reason :: "string option"
  jw_tags :: "string list"
  jw_conversation_id :: "string option"
  jw_now_ms :: i64

record journal_recall_request =
  jr_agent_id :: string
  jr_query :: string
  jr_entry_type :: "journal_entry_type option"
  jr_limit :: nat
  jr_include_superseded :: bool

definition validated_agent_id :: "string \<Rightarrow> ('e, string) outcome" where
  "validated_agent_id candidate =
     (let trimmed = trim candidate
      in if is_valid_agent_id trimmed then m_return trimmed
         else m_fail (InvalidAgentId (take_chars 64 trimmed)))"

section \<open>Reading\<close>

definition agent_journal_entries ::
  "('s, 'c, 'e) hyphae \<Rightarrow> 's \<Rightarrow> string \<Rightarrow> ('e, journal_entry list) outcome" where
  "agent_journal_entries H s agent =
     m_bind (from_scan (scan_prefix H s (agent_prefix agent))) (\<lambda>records.
       from_decode (r_collect journal_from_record records))"

definition last_journal_entry ::
  "('s, 'c, 'e) hyphae \<Rightarrow> 's \<Rightarrow> string \<Rightarrow> ('e, journal_entry option) outcome" where
  "last_journal_entry H s agent =
     m_bind (agent_journal_entries H s agent) (\<lambda>es.
       m_return (if es = [] then None else Some (last es)))"

definition retires :: "supersession_relation \<Rightarrow> bool" where
  "retires r \<longleftrightarrow> r = Superseded \<or> r = Recanted"

text \<open>The ids form a \<open>BTreeSet\<close>; only membership is used.\<close>

definition superseded_entry_ids ::
  "('s, 'c, 'e) hyphae \<Rightarrow> 's \<Rightarrow> string \<Rightarrow> ('e, string list) outcome" where
  "superseded_entry_ids H s agent =
     m_bind (from_scan (scan_prefix H s (supersession_prefix agent))) (\<lambda>records.
     m_bind (from_decode (r_collect supersession_from_record records)) (\<lambda>links.
       m_return (map ss_original_entry_id (filter (\<lambda>l. retires (ss_relation l)) links))))"

definition query_hits :: "(bytes \<Rightarrow> bytes) \<Rightarrow> bytes list \<Rightarrow> journal_entry \<Rightarrow> nat" where
  "query_hits lower tokens e = length (filter (contains (lower (je_content e))) tokens)"

definition rank_entries ::
  "(bytes \<Rightarrow> bytes) \<Rightarrow> bytes list \<Rightarrow> journal_entry list \<Rightarrow> journal_entry list" where
  "rank_entries lower tokens es =
     map snd (sort_key (\<lambda>(hits, e). - int hits)
       (filter (\<lambda>(hits, e). 0 < hits) (map (\<lambda>e. (query_hits lower tokens e, e)) es)))"

definition journal_recall ::
  "('s, 'c, 'e) hyphae \<Rightarrow> (bytes \<Rightarrow> bytes) \<Rightarrow> 's \<Rightarrow> journal_recall_request
   \<Rightarrow> ('e, journal_entry list) outcome" where
  "journal_recall H lower s req =
     m_bind (validated_agent_id (jr_agent_id req)) (\<lambda>agent.
     m_bind (agent_journal_entries H s agent) (\<lambda>es.
     let es = (case jr_entry_type req of
                 None \<Rightarrow> es
               | Some ty \<Rightarrow> filter (\<lambda>e. je_entry_type e = ty) es)
     in m_bind
          (if jr_include_superseded req then m_return es
           else m_bind (superseded_entry_ids H s agent) (\<lambda>ids.
                  m_return (filter (\<lambda>e. je_id e \<notin> set ids) es))) (\<lambda>es.
        let es = rev es;
            tokens = map lower (split_whitespace (jr_query req));
            es = (if tokens = [] then es else rank_entries lower tokens es)
        in m_return (take (max (jr_limit req) 1) es))))"

definition journal_verify_chain ::
  "('s, 'c, 'e) hyphae \<Rightarrow> (bytes \<Rightarrow> string) \<Rightarrow> 's \<Rightarrow> string \<Rightarrow> ('e, chain_report) outcome" where
  "journal_verify_chain H b3 s candidate =
     m_bind (validated_agent_id candidate) (\<lambda>agent.
     m_bind (agent_journal_entries H s agent) (\<lambda>es.
       m_return (verify_entries b3 agent es)))"

section \<open>Writing\<close>

fun require_entries ::
  "('s, 'c, 'e) hyphae \<Rightarrow> 's \<Rightarrow> string \<Rightarrow> string list \<Rightarrow> ('e, unit) outcome" where
  "require_entries H s agent [] = m_return ()"
| "require_entries H s agent (i # ids) =
     m_bind (from_store (hy_get H s (entry_key agent i))) (\<lambda>found.
       if found = None then m_fail (JournalEntryNotFound agent i)
       else require_entries H s agent ids)"

definition new_entry ::
  "(bytes \<Rightarrow> string) \<Rightarrow> string \<Rightarrow> string \<Rightarrow> journal_write_request \<Rightarrow> string option
   \<Rightarrow> journal_entry" where
  "new_entry b3 i agent req prev =
     \<lparr>je_id = i, je_agent_id = agent, je_entry_type = jw_entry_type req,
      je_content = jw_content req, je_preceded_by = jw_preceded_by req,
      je_valence = map_option (\<lambda>x. f64_clamp x (-1) 1) (jw_valence req),
      je_valence_reason = map_option (take_chars max_valence_reason_chars) (jw_valence_reason req),
      je_importance = Fin (entry_type_importance (jw_entry_type req)), je_tags = jw_tags req,
      je_conversation_id = jw_conversation_id req, je_written_at_ms = jw_now_ms req,
      je_prev_hash = prev,
      je_hash = chain_hash b3 i agent (jw_content req) (jw_now_ms req) prev\<rparr>"

definition journal_write ::
  "('s, 'c, 'e) hyphae \<Rightarrow> (bytes \<Rightarrow> string) \<Rightarrow> 's \<Rightarrow> string \<Rightarrow> journal_write_request
   \<Rightarrow> ('e, journal_entry \<times> 's) outcome" where
  "journal_write H b3 s i req =
     m_bind (validated_agent_id (jw_agent_id req)) (\<lambda>agent.
     m_bind (require_entries H s agent (jw_preceded_by req)) (\<lambda>_.
     m_bind (last_journal_entry H s agent) (\<lambda>last_entry.
     let e = new_entry b3 i agent req (map_option je_hash last_entry)
     in m_bind (from_store (hy_put H s (journal_to_record e))) (\<lambda>s'.
        m_return (e, s')))))"

definition journal_supersede ::
  "('s, 'c, 'e) hyphae \<Rightarrow> 's \<Rightarrow> string \<Rightarrow> string \<Rightarrow> string \<Rightarrow> string \<Rightarrow> supersession_relation \<Rightarrow> i64
   \<Rightarrow> ('e, supersession \<times> 's) outcome" where
  "journal_supersede H s i candidate original new rel now =
     m_bind (validated_agent_id candidate) (\<lambda>agent.
     m_bind (require_entries H s agent [original, new]) (\<lambda>_.
     let link = \<lparr>ss_id = i, ss_agent_id = agent, ss_original_entry_id = original,
                 ss_new_entry_id = new, ss_relation = rel, ss_written_at_ms = now\<rparr>
     in m_bind (from_store (hy_put H s (supersession_to_record link))) (\<lambda>s'.
        m_return (link, s'))))"

end
