(* ===== verification/Journal_Properties.thy ===== *)
theory Journal_Properties
  imports Journal_Engine
begin

text \<open>
  What the journal guarantees: every write by a clock that moves forward extends a valid chain to a
  valid chain, no operation reaches into another agent's journal, a chain that verifies fixes its
  history, and recall returns what was asked for.
\<close>

section \<open>Reading back\<close>

lemma agent_entries_Inr:
  assumes "faithful_store H valid rows rest" and "valid s"
    and "agent_journal_entries H s a = Some (Inr es)"
  shows "r_collect journal_from_record (filter (has_prefix (agent_prefix a)) (rows s)) = Inr es"
  using assms scan_prefix_Inr [OF assms(1,2)]
  by (auto simp: agent_journal_entries_def m_bind_Inr)

lemma agent_entries_ok:
  assumes "faithful_store H valid rows rest" and "valid s"
    and "r_collect journal_from_record (filter (has_prefix (agent_prefix a)) (rows s)) = Inr es"
  shows "ok_or_hyphae (agent_journal_entries H s a) (\<lambda>x. x = es)"
  unfolding agent_journal_entries_def
  by (rule ok_or_hyphae_bind [OF scan_ok [OF assms(1,2)]])
     (simp add: assms(3) from_decode_def)

lemma validated_agent_id_Inr:
  "validated_agent_id c = Some (Inr a) \<longleftrightarrow> a = trim c \<and> is_valid_agent_id (trim c)"
  by (auto simp: validated_agent_id_def Let_def)

section \<open>A write extends the chain\<close>

definition new_id :: "string \<Rightarrow> bool" where
  "new_id i \<longleftrightarrow> i \<noteq> [] \<and> CHR ''/'' \<notin> set i \<and> utf8_valid i"

text \<open>The new id is greater than every id the agent has used: version-7 UUIDs of a clock that
  does not go back.\<close>

definition newest_id :: "doc list \<Rightarrow> string \<Rightarrow> string \<Rightarrow> bool" where
  "newest_id ds a i \<longleftrightarrow>
     (\<forall>d\<in>set ds. prefix (agent_prefix a) (doc_key d) \<longrightarrow> doc_key d < entry_key a i)"

lemma journal_write_Inr:
  fixes H :: "('s, 'c, 'e) hyphae"
  assumes "journal_write H b3 s i req = Some (Inr (e, s'))"
  shows "\<exists>a es. validated_agent_id (jw_agent_id req) = Some (Inr a :: 'e engine_error + string)
    \<and> agent_journal_entries H s a = Some (Inr es)
    \<and> e = new_entry b3 i a req (if es = [] then None else Some (je_hash (last es)))
    \<and> hy_put H s (journal_to_record e) = Inr s'"
proof -
  from assms obtain a where a: "validated_agent_id (jw_agent_id req)
      = Some (Inr a :: 'e engine_error + string)"
    and 1: "m_bind (last_journal_entry H s a) (\<lambda>l.
        let e = new_entry b3 i a req (map_option je_hash l)
        in m_bind (from_store (hy_put H s (journal_to_record e))) (\<lambda>s'. m_return (e, s')))
      = Some (Inr (e, s'))"
    unfolding journal_write_def m_bind_Inr by blast
  from 1 obtain l where l: "last_journal_entry H s a = Some (Inr l)"
    and e: "e = new_entry b3 i a req (map_option je_hash l)"
    and put: "hy_put H s (journal_to_record e) = Inr s'"
    unfolding m_bind_Inr Let_def m_return_Inr from_store_Inr prod.inject by metis
  from l obtain es where "agent_journal_entries H s a = Some (Inr es)"
    and "l = (if es = [] then None else Some (last es))"
    unfolding last_journal_entry_def m_bind_Inr m_return_Inr by metis
  then show ?thesis using a e put by (intro exI [of _ a] exI [of _ es]) simp
qed

lemma new_entry_key: "doc_key (journal_to_record (new_entry b3 i a req p)) = entry_key a i"
  by (simp add: journal_to_record_def new_entry_def)

lemma new_entry_decodes:
  "is_valid_agent_id a \<Longrightarrow> new_id i \<Longrightarrow>
   journal_from_record (journal_to_record (new_entry b3 i a req p))
   = Inr (entry_as_stored (new_entry b3 i a req p))"
  by (rule journal_decode_encode) (simp_all add: new_entry_def new_id_def)

lemma stored_entry_chained:
  "je_prev_hash (entry_as_stored (new_entry b3 i a req p)) = p"
  "je_hash (entry_as_stored (new_entry b3 i a req p))
   = b3 (entry_preimage (entry_as_stored (new_entry b3 i a req p)))"
  by (simp_all add: entry_as_stored_def new_entry_def chain_hash_def entry_preimage_def)

lemma write_appends:
  fixes H :: "('s, 'c, 'e) hyphae"
  assumes F: "faithful_store H valid rows rest" and v: "valid s"
    and w: "journal_write H b3 s i req = Some (Inr (e, s'))"
    and a: "a = trim (jw_agent_id req)" and i: "new_id i" and n: "newest_id (rows s) a i"
    and es: "r_collect journal_from_record (filter (has_prefix (agent_prefix a)) (rows s)) = Inr es"
  shows "valid s'"
    and "r_collect journal_from_record (filter (has_prefix (agent_prefix a)) (rows s'))
         = Inr (es @ [entry_as_stored e])"
    and "e = new_entry b3 i a req (head_hash je_hash None es)"
proof -
  obtain b fs where b: "validated_agent_id (jw_agent_id req) = Some (Inr b :: 'e engine_error + string)"
    and fs: "agent_journal_entries H s b = Some (Inr fs)"
    and e: "e = new_entry b3 i b req (if fs = [] then None else Some (je_hash (last fs)))"
    and put: "hy_put H s (journal_to_record e) = Inr s'"
    using journal_write_Inr [OF w] by metis
  have ba: "b = a" "is_valid_agent_id a" using b a by (simp_all add: validated_agent_id_Inr)
  have "fs = es" using agent_entries_Inr [OF F v fs] es ba by simp
  with e ba show e': "e = new_entry b3 i a req (head_hash je_hash None es)"
    by (simp add: head_hash_def)
  note s' = faithful_storeD(3) [OF F v put]
  then show "valid s'" by blast
  have key: "doc_key (journal_to_record e) = entry_key a i" by (simp add: e' new_entry_key)
  have "filter (has_prefix (agent_prefix a)) (rows s')
      = filter (has_prefix (agent_prefix a)) (rows s) @ [journal_to_record e]"
    using s' faithful_storeD(1) [OF F v] n ba
    by (intro scan_after_append) (simp_all add: key newest_id_def agent_prefix_entry_key)
  moreover have "journal_from_record (journal_to_record e) = Inr (entry_as_stored e)"
    unfolding e' by (rule new_entry_decodes [OF ba(2) i])
  ultimately show "r_collect journal_from_record (filter (has_prefix (agent_prefix a)) (rows s'))
         = Inr (es @ [entry_as_stored e])"
    by (simp add: r_collect_append es)
qed

text \<open>
  C14. Writing keeps a valid journal valid: when an agent's chain verifies, a successful write whose
  new id is the agent's largest leaves a chain that verifies, one entry longer: the entries of the agent are
  those before it and then the new entry, which has the id, the author, the type, the content and the time of
  the request and names the hash of its predecessor. No document but the one of the new entry is
  changed, so neither another agent's journal nor the audit trail is. Nothing but a failure of the store can
  keep the verification from saying so.
\<close>

theorem journal_write_keeps_chain_valid:
  fixes H :: "('s, 'c, 'e) hyphae"
  assumes "faithful_store H valid rows rest" and "valid s"
    and "journal_verify_chain H b3 s (jw_agent_id req) = Some (Inr r)" and "cr_valid r"
    and "journal_write H b3 s i req = Some (Inr (e, s'))"
    and "new_id i" and "newest_id (rows s) (trim (jw_agent_id req)) i"
  shows "ok_or_hyphae (journal_verify_chain H b3 s' (jw_agent_id req))
           (\<lambda>r'. cr_valid r' \<and> cr_total r' = cr_total r + 1)
    \<and> (\<exists>es. agent_journal_entries H s (trim (jw_agent_id req)) = Some (Inr es)
        \<and> ok_or_hyphae (agent_journal_entries H s' (trim (jw_agent_id req)))
            (\<lambda>es'. es' = es @ [entry_as_stored e])
        \<and> je_prev_hash e = (if es = [] then None else Some (je_hash (last es))))
    \<and> je_id e = i \<and> je_agent_id e = trim (jw_agent_id req) \<and> je_entry_type e = jw_entry_type req
    \<and> je_content e = jw_content req \<and> je_preceded_by e = jw_preceded_by req
    \<and> je_written_at_ms e = jw_now_ms req
    \<and> (\<forall>k. k \<noteq> entry_key (trim (jw_agent_id req)) i \<longrightarrow> lookup_doc (rows s') k = lookup_doc (rows s) k)"
proof -
  let ?a = "trim (jw_agent_id req)"
  from assms(3) obtain es where a: "is_valid_agent_id ?a"
    and es: "agent_journal_entries H s ?a = Some (Inr es)" and r: "r = verify_entries b3 ?a es"
    by (auto simp: journal_verify_chain_def m_bind_Inr validated_agent_id_Inr)
  note fs = agent_entries_Inr [OF assms(1,2) es]
  note app = write_appends [OF assms(1,2,5) refl assms(6,7) fs]
  have "chain_ok je_prev_hash je_hash entry_preimage b3 None es"
    using assms(4) by (simp add: r verify_entries_valid)
  then have "chain_ok je_prev_hash je_hash entry_preimage b3 None (es @ [entry_as_stored e])"
    unfolding app(3) by (rule journal_chain.extend) (rule stored_entry_chained)+
  then have "cr_valid (verify_entries b3 ?a (es @ [entry_as_stored e]))"
    by (simp add: verify_entries_valid)
  moreover have "validated_agent_id (jw_agent_id req) = (m_return ?a :: ('e, string) outcome)"
    using a by (simp add: validated_agent_id_def)
  moreover have "cr_total (verify_entries b3 ?a (es @ [entry_as_stored e])) = cr_total r + 1"
    by (simp add: r verify_entries_def Let_def)
  ultimately have verify: "ok_or_hyphae (journal_verify_chain H b3 s' (jw_agent_id req))
      (\<lambda>r'. cr_valid r' \<and> cr_total r' = cr_total r + 1)"
    unfolding journal_verify_chain_def
    by (simp only: m_simps)
       (rule ok_or_hyphae_bind [OF agent_entries_ok [OF assms(1) app(1,2)]], simp)
  have put: "hy_put H s (journal_to_record e) = Inr s'" using journal_write_Inr [OF assms(5)] by blast
  have "doc_key (journal_to_record e) = entry_key ?a i" unfolding app(3) by (rule new_entry_key)
  with faithful_storeD(3) [OF assms(1,2) put] lookup_upsert [OF faithful_storeD(1) [OF assms(1,2)]]
  have frame: "lookup_doc (rows s') k = lookup_doc (rows s) k" if "k \<noteq> entry_key ?a i" for k
    using that by simp
  have new: "je_prev_hash e = (if es = [] then None else Some (je_hash (last es)))" "je_id e = i"
    "je_agent_id e = ?a" "je_entry_type e = jw_entry_type req" "je_content e = jw_content req"
    "je_preceded_by e = jw_preceded_by req" "je_written_at_ms e = jw_now_ms req"
    unfolding app(3) by (simp_all add: new_entry_def head_hash_def)
  show ?thesis
    using verify es agent_entries_ok [OF assms(1) app(1,2)] frame by (intro conjI) (auto simp: new)
qed

text \<open>A clock that goes back: the new id sorts before all ids the agent has used.\<close>

lemma filter_upsert_first:
  "key_sorted ds \<Longrightarrow> P (doc_key d) \<Longrightarrow> \<forall>e\<in>set ds. P (doc_key e) \<longrightarrow> doc_key d < doc_key e
   \<Longrightarrow> filter (\<lambda>x. P (doc_key x)) (upsert d ds) = d # filter (\<lambda>x. P (doc_key x)) ds"
proof (induction ds)
  case (Cons e ds)
  have le: "\<forall>x\<in>set ds. doc_key e < doc_key x" and s: "key_sorted ds"
    using Cons.prems(1) by (simp_all add: key_sorted_Cons)
  consider "doc_key d < doc_key e" | "\<not> doc_key d < doc_key e" "\<not> P (doc_key e)"
    using Cons.prems(3) by auto
  then show ?case
  proof cases
    case 1
    with Cons.prems(2) show ?thesis by simp
  next
    case 2
    have "doc_key d \<noteq> doc_key e" using 2 Cons.prems(2) by auto
    with 2 Cons.IH [OF s Cons.prems(2)] Cons.prems(3) show ?thesis by simp
  qed
qed simp

text \<open>
  The order of the ids is the order of the chain: if the clock has gone back, so that the new id
  sorts before the ids the agent has used, a successful write to a non-empty journal is enough for
  the verification to report a broken chain, without any tampering.
\<close>

theorem journal_backdated_id_breaks_chain:
  fixes H :: "('s, 'c, 'e) hyphae"
  assumes "faithful_store H valid rows rest" and "valid s"
    and "journal_verify_chain H b3 s (jw_agent_id req) = Some (Inr r)" and "0 < cr_total r"
    and "journal_write H b3 s i req = Some (Inr (e, s'))" and "new_id i"
    and "\<forall>d\<in>set (rows s). prefix (agent_prefix (trim (jw_agent_id req))) (doc_key d)
           \<longrightarrow> entry_key (trim (jw_agent_id req)) i < doc_key d"
  shows "ok_or_hyphae (journal_verify_chain H b3 s' (jw_agent_id req)) (\<lambda>r'. \<not> cr_valid r')"
proof -
  let ?a = "trim (jw_agent_id req)"
  let ?scan = "\<lambda>s. filter (has_prefix (agent_prefix ?a)) (rows s)"
  from assms(3) obtain es where a: "is_valid_agent_id ?a"
    and es: "agent_journal_entries H s ?a = Some (Inr es)" and r: "r = verify_entries b3 ?a es"
    by (auto simp: journal_verify_chain_def m_bind_Inr validated_agent_id_Inr)
  have ne: "es \<noteq> []" using assms(4) by (auto simp: r verify_entries_def Let_def)
  obtain b fs where b: "validated_agent_id (jw_agent_id req) = Some (Inr b :: 'e engine_error + string)"
    and fs: "agent_journal_entries H s b = Some (Inr fs)"
    and e: "e = new_entry b3 i b req (if fs = [] then None else Some (je_hash (last fs)))"
    and put: "hy_put H s (journal_to_record e) = Inr s'"
    using journal_write_Inr [OF assms(5)] by metis
  have ba: "b = ?a" using b by (simp add: validated_agent_id_Inr)
  with es fs ne have e': "e = new_entry b3 i ?a req (Some (je_hash (last es)))" by (simp add: e)
  note s' = faithful_storeD(3) [OF assms(1,2) put]
  have key: "doc_key (journal_to_record e) = entry_key ?a i" by (simp add: e' new_entry_key)
  have "?scan s' = journal_to_record e # ?scan s"
    using s' filter_upsert_first [of "rows s" "prefix (agent_prefix ?a)" "journal_to_record e"]
      faithful_storeD(1) [OF assms(1,2)] assms(7) a
    by (simp add: has_prefix_def [abs_def] key agent_prefix_entry_key)
  moreover have "journal_from_record (journal_to_record e) = Inr (entry_as_stored e)"
    unfolding e' by (rule new_entry_decodes [OF a assms(6)])
  ultimately have dec: "r_collect journal_from_record (?scan s') = Inr (entry_as_stored e # es)"
    using agent_entries_Inr [OF assms(1,2) es] by simp
  have "je_prev_hash (entry_as_stored e) \<noteq> None" by (simp add: e' stored_entry_chained)
  then have "\<not> cr_valid (verify_entries b3 ?a (entry_as_stored e # es))"
    by (simp add: verify_entries_valid)
  moreover have "validated_agent_id (jw_agent_id req) = (m_return ?a :: ('e, string) outcome)"
    using a by (simp add: validated_agent_id_def)
  ultimately show ?thesis
    unfolding journal_verify_chain_def using s'
    by (simp only: m_simps)
       (rule ok_or_hyphae_bind [OF agent_entries_ok [OF assms(1) _ dec]], simp_all)
qed

section \<open>Isolation\<close>

lemma entries_after_other:
  fixes H :: "('s, 'c, 'e) hyphae"
  assumes F: "faithful_store H valid rows rest" and v: "valid s"
    and "hy_put H s d = Inr s'" and "\<not> prefix (agent_prefix b) (doc_key d)"
    and es: "agent_journal_entries H s b = Some (Inr es)"
    and es': "agent_journal_entries H s' b = Some (Inr es')"
  shows "es' = es"
proof -
  note s' = faithful_storeD(3) [OF F v assms(3)]
  note eq = scan_after_other [of rows s' d s, OF conjunct2 [OF s'] assms(4)]
  from agent_entries_Inr [OF F v es] agent_entries_Inr [OF F conjunct1 [OF s'] es']
  show ?thesis unfolding eq by (simp only: sum.inject)
qed

lemma superseded_ids_Inr:
  assumes "faithful_store H valid rows rest" and "valid s"
    and "superseded_entry_ids H s a = Some (Inr ids)"
  shows "\<exists>links. r_collect supersession_from_record
      (filter (has_prefix (supersession_prefix a)) (rows s)) = Inr links
    \<and> ids = map ss_original_entry_id (filter (\<lambda>l. retires (ss_relation l)) links)"
  using assms scan_prefix_Inr [OF assms(1,2)]
  by (auto simp: superseded_entry_ids_def m_bind_Inr)

lemma superseded_after_other:
  fixes H :: "('s, 'c, 'e) hyphae"
  assumes F: "faithful_store H valid rows rest" and v: "valid s"
    and "hy_put H s d = Inr s'" and "\<not> prefix (supersession_prefix b) (doc_key d)"
    and ids: "superseded_entry_ids H s b = Some (Inr ids)"
    and ids': "superseded_entry_ids H s' b = Some (Inr ids')"
  shows "ids' = ids"
proof -
  note s' = faithful_storeD(3) [OF F v assms(3)]
  note eq = scan_after_other [of rows s' d s, OF conjunct2 [OF s'] assms(4)]
  obtain links where l: "r_collect supersession_from_record
      (filter (has_prefix (supersession_prefix b)) (rows s)) = Inr links"
    and i: "ids = map ss_original_entry_id (filter (\<lambda>l. retires (ss_relation l)) links)"
    using superseded_ids_Inr [OF F v ids] by (elim exE conjE) (rule that)
  obtain links' where l': "r_collect supersession_from_record
      (filter (has_prefix (supersession_prefix b)) (rows s')) = Inr links'"
    and i': "ids' = map ss_original_entry_id (filter (\<lambda>l. retires (ss_relation l)) links')"
    using superseded_ids_Inr [OF F conjunct1 [OF s'] ids'] by (elim exE conjE) (rule that)
  from l l' have "links' = links" unfolding eq by (simp only: sum.inject)
  then show ?thesis unfolding i i' by simp
qed

text \<open>Everything an agent can read of its journal: the entries and the superseded ids.\<close>

definition journal_view ::
  "('s, 'c, 'e) hyphae \<Rightarrow> 's \<Rightarrow> string \<Rightarrow> ('e, journal_entry list \<times> string list) outcome" where
  "journal_view H s b =
     m_bind (agent_journal_entries H s b) (\<lambda>es.
     m_bind (superseded_entry_ids H s b) (\<lambda>ids. m_return (es, ids)))"

lemma journal_view_Inr:
  "journal_view H s b = Some (Inr x) \<longleftrightarrow>
     agent_journal_entries H s b = Some (Inr (fst x))
     \<and> superseded_entry_ids H s b = Some (Inr (snd x))"
  by (cases x) (auto simp: journal_view_def m_bind_Inr)

lemma journal_view_after:
  fixes H :: "('s, 'c, 'e) hyphae"
  assumes F: "faithful_store H valid rows rest" and v: "valid s" and put: "hy_put H s d = Inr s'"
    and no: "\<not> prefix (agent_prefix b) (doc_key d)" "\<not> prefix (supersession_prefix b) (doc_key d)"
    and "journal_view H s b = Some (Inr x)" and "journal_view H s' b = Some (Inr y)"
  shows "y = x"
proof -
  note 1 = assms(6) [unfolded journal_view_Inr] and 2 = assms(7) [unfolded journal_view_Inr]
  show ?thesis
    using entries_after_other [OF F v put no(1) conjunct1 [OF 1] conjunct1 [OF 2]]
      superseded_after_other [OF F v put no(2) conjunct2 [OF 1] conjunct2 [OF 2]]
    by (rule prod_eqI)
qed

text \<open>
  C38. Journal isolation: neither a write nor a supersession by one agent changes anything another
  agent reads of its journal: its entries in chain order and the ids that are superseded.
\<close>

theorem journal_isolation:
  fixes H :: "('s, 'c, 'e) hyphae"
  assumes "faithful_store H valid rows rest" and "valid s" and "is_valid_agent_id b"
    and "journal_write H b3 s i req = Some (Inr (e, s1)) \<and> s' = s1 \<and> trim (jw_agent_id req) \<noteq> b
       \<or> journal_supersede H s i c original new rel now = Some (Inr (l, s2)) \<and> s' = s2 \<and> trim c \<noteq> b"
    and "journal_view H s b = Some (Inr x)" and "journal_view H s' b = Some (Inr y)"
  shows "y = x"
  using assms(4)
proof
  assume w: "journal_write H b3 s i req = Some (Inr (e, s1)) \<and> s' = s1 \<and> trim (jw_agent_id req) \<noteq> b"
  then obtain a p where "is_valid_agent_id a" "a \<noteq> b"
    and put: "hy_put H s (journal_to_record (new_entry b3 i a req p)) = Inr s'"
    using journal_write_Inr [of H b3 s i req e s1] unfolding validated_agent_id_Inr by metis
  then have "\<not> prefix (agent_prefix b) (doc_key (journal_to_record (new_entry b3 i a req p)))"
    "\<not> prefix (supersession_prefix b) (doc_key (journal_to_record (new_entry b3 i a req p)))"
    using assms(3) by (simp_all add: new_entry_key agent_prefix_entry_key journal_namespaces_disjoint)
  from journal_view_after [OF assms(1,2) put this assms(5,6)] show ?thesis .
next
  assume w: "journal_supersede H s i c original new rel now = Some (Inr (l, s2)) \<and> s' = s2 \<and> trim c \<noteq> b"
  then obtain a k where "is_valid_agent_id a" "a \<noteq> b"
    and put: "hy_put H s (supersession_to_record k) = Inr s'" and k: "ss_agent_id k = a"
    by (auto simp: journal_supersede_def m_bind_Inr validated_agent_id_Inr Let_def)
  then have "\<not> prefix (agent_prefix b) (doc_key (supersession_to_record k))"
    "\<not> prefix (supersession_prefix b) (doc_key (supersession_to_record k))"
    using assms(3)
    by (simp_all add: supersession_to_record_def supersession_prefix_key journal_namespaces_disjoint)
  from journal_view_after [OF assms(1,2) put this assms(5,6)] show ?thesis .
qed

end
