(* ===== verification/Journal_Recall.thy ===== *)
theory Journal_Recall
  imports Journal_Properties "HOL-Library.Multiset"
begin

text \<open>
  Recall and supersession of journal entries, the tamper evidence of the journal chain, and runs of
  the journal on the concrete list store.
\<close>

section \<open>Recall\<close>

definition journal_matches ::
  "(bytes \<Rightarrow> bytes) \<Rightarrow> journal_recall_request \<Rightarrow> string list \<Rightarrow> journal_entry \<Rightarrow> bool" where
  "journal_matches lower rq ids e \<longleftrightarrow>
     (case jr_entry_type rq of None \<Rightarrow> True | Some ty \<Rightarrow> je_entry_type e = ty)
     \<and> je_id e \<notin> set ids
     \<and> (split_whitespace (jr_query rq) = []
        \<or> 0 < query_hits lower (map lower (split_whitespace (jr_query rq))) e)"

lemma rank_entries_sorted:
  fixes lower tokens
  defines "h \<equiv> query_hits lower tokens"
  shows "mset (rank_entries lower tokens es) = mset (filter (\<lambda>e. 0 < h e) es)"
    and "sorted_wrt (\<lambda>x y. h y \<le> h x) (rank_entries lower tokens es)"
proof -
  let ?f = "\<lambda>(hits :: nat, e :: journal_entry). - int hits"
  let ?ps = "filter (\<lambda>(hits, e). 0 < hits) (map (\<lambda>e. (h e, e)) es)"
  have "mset (map snd (sort_key ?f ?ps)) = image_mset snd (mset ?ps)" by simp
  also have "\<dots> = mset (map snd ?ps)" by simp
  also have "map snd ?ps = filter (\<lambda>e. 0 < h e) es" by (induction es) auto
  finally show "mset (rank_entries lower tokens es) = mset (filter (\<lambda>e. 0 < h e) es)"
    by (simp add: rank_entries_def h_def)
  have "sorted_wrt (\<lambda>p q. ?f p \<le> ?f q) (sort_key ?f ?ps)"
    using sorted_sort_key [of ?f ?ps] by (simp add: sorted_map)
  then have "sorted_wrt (\<lambda>p q. h (snd q) \<le> h (snd p)) (sort_key ?f ?ps)"
    by (rule sorted_wrt_mono_rel [rotated]) auto
  then show "sorted_wrt (\<lambda>x y. h y \<le> h x) (rank_entries lower tokens es)"
    by (simp add: rank_entries_def sorted_wrt_map h_def)
qed

text \<open>The ranking is stable: entries with the same number of hits stay in the order they came in.\<close>

lemma ranked_stable:
  fixes h :: "'a \<Rightarrow> nat"
  defines "f \<equiv> \<lambda>(n, e :: 'a). - int n"
  shows "filter (\<lambda>e. h e = k) (map snd (sort_key f (filter (\<lambda>(n, e). 0 < n) (map (\<lambda>e. (h e, e)) es))))
    = filter (\<lambda>e. h e = k) (filter (\<lambda>e. 0 < h e) es)"
proof -
  let ?ps = "filter (\<lambda>(n, e). 0 < n) (map (\<lambda>e. (h e, e)) es)"
  have own: "(h (snd p) = k) = (f p = - int k)" if "p \<in> set (sort_key f ?ps)" for p
  proof -
    from that have "p \<in> (\<lambda>e. (h e, e)) ` set es" unfolding set_sort set_filter set_map by blast
    then show ?thesis by (auto simp: f_def)
  qed
  have "filter (\<lambda>e. h e = k) (map snd (sort_key f ?ps)) = map snd (filter (\<lambda>p. h (snd p) = k) (sort_key f ?ps))"
    by (simp only: filter_map comp_def)
  also have "filter (\<lambda>p. h (snd p) = k) (sort_key f ?ps) = filter (\<lambda>p. f p = - int k) (sort_key f ?ps)"
    using own by (rule filter_cong [OF refl])
  also have "\<dots> = filter (\<lambda>p. f p = - int k) ?ps" by (rule sort_key_stable)
  also have "map snd \<dots> = filter (\<lambda>e. h e = k) (filter (\<lambda>e. 0 < h e) es)"
    by (induction es) (simp_all add: f_def)
  finally show ?thesis .
qed

lemma rank_entries_stable:
  "filter (\<lambda>e. query_hits lower tokens e = k) (rank_entries lower tokens es)
   = filter (\<lambda>e. query_hits lower tokens e = k) (filter (\<lambda>e. 0 < query_hits lower tokens e) es)"
  unfolding rank_entries_def by (rule ranked_stable)

lemma filter_take_prefix: "prefix (filter P (take n xs)) (filter P xs)"
  by (metis append_take_drop_id filter_append prefixI)

lemma journal_recall_Inr:
  assumes "journal_recall H lower s rq = Some (Inr out)"
  shows "\<exists>es ids. agent_journal_entries H s (trim (jr_agent_id rq)) = Some (Inr es)
    \<and> (if jr_include_superseded rq then ids = []
       else superseded_entry_ids H s (trim (jr_agent_id rq)) = Some (Inr ids))
    \<and> out = take (max (jr_limit rq) 1)
        (let visible = rev (filter (\<lambda>e. je_id e \<notin> set ids)
              (case jr_entry_type rq of None \<Rightarrow> es | Some ty \<Rightarrow> filter (\<lambda>e. je_entry_type e = ty) es));
             tokens = map lower (split_whitespace (jr_query rq))
         in if tokens = [] then visible else rank_entries lower tokens visible)"
proof -
  let ?a = "trim (jr_agent_id rq)"
  let ?typed = "\<lambda>es. case jr_entry_type rq of None \<Rightarrow> es | Some ty \<Rightarrow> filter (\<lambda>e. je_entry_type e = ty) es"
  from assms obtain es where es: "agent_journal_entries H s ?a = Some (Inr es)"
    and 1: "m_bind
        (if jr_include_superseded rq then m_return (?typed es)
         else m_bind (superseded_entry_ids H s ?a) (\<lambda>ids.
                m_return (filter (\<lambda>e. je_id e \<notin> set ids) (?typed es)))) (\<lambda>es.
        let es = rev es; tokens = map lower (split_whitespace (jr_query rq));
            es = (if tokens = [] then es else rank_entries lower tokens es)
        in m_return (take (max (jr_limit rq) 1) es)) = Some (Inr out)"
    unfolding journal_recall_def m_bind_Inr validated_agent_id_Inr Let_def by blast
  show ?thesis
  proof (cases "jr_include_superseded rq")
    case True
    with 1 show ?thesis
      by (intro exI [of _ es] exI [of _ "[]"]) (simp add: es Let_def split: if_splits)
  next
    case False
    with 1 obtain ids where "superseded_entry_ids H s ?a = Some (Inr ids)"
      and "out = take (max (jr_limit rq) 1)
        (let es = rev (filter (\<lambda>e. je_id e \<notin> set ids) (?typed es));
             tokens = map lower (split_whitespace (jr_query rq))
         in if tokens = [] then es else rank_entries lower tokens es)"
      by (auto simp: m_bind_Inr Let_def)
    with False es show ?thesis
      by (intro exI [of _ es] exI [of _ ids]) simp
  qed
qed

lemma take_top:
  assumes "sorted_wrt (\<lambda>x y. h y \<le> (h x :: nat)) xs" and "e \<in> set xs" and "e \<notin> set (take n xs)"
    and "o' \<in> set (take n xs)"
  shows "h e \<le> h o'"
proof -
  from assms(2,3) have "e \<in> set (drop n xs)"
    by (metis Un_iff append_take_drop_id set_append)
  moreover have "sorted_wrt (\<lambda>x y. h y \<le> h x) (take n xs @ drop n xs)"
    unfolding append_take_drop_id by (rule assms(1))
  ultimately show ?thesis using assms(4) unfolding sorted_wrt_append by blast
qed

lemma ranked_answer:
  fixes lower :: "string \<Rightarrow> string" and tokens :: "string list"
  defines "h \<equiv> query_hits lower tokens"
  assumes "tokens \<noteq> []" and ms: "ms = filter (\<lambda>e. 0 < h e) es" and o: "out = take n (rank_entries lower tokens (rev es))"
  shows "length out = min n (length ms)" and "set out \<subseteq> set ms" and "sorted_wrt (\<lambda>x y. h y \<le> h x) out"
    and "\<forall>e\<in>set ms - set out. \<forall>o'\<in>set out. h e \<le> h o'"
    and "prefix (filter (\<lambda>e. h e = k) out) (filter (\<lambda>e. h e = k) (rev ms))"
proof -
  let ?r = "rank_entries lower tokens (rev es)"
  have m: "mset ?r = mset ms" and srt: "sorted_wrt (\<lambda>x y. h y \<le> h x) ?r"
    using rank_entries_sorted [of lower tokens "rev es"] by (simp_all add: ms h_def rev_filter [symmetric])
  have len: "length ?r = length ms" and st: "set ?r = set ms"
    using m by (metis size_mset, metis set_mset_mset)
  show "length out = min n (length ms)" by (simp add: o len min.commute)
  show "set out \<subseteq> set ms" unfolding o st [symmetric] by (rule set_take_subset)
  show "sorted_wrt (\<lambda>x y. h y \<le> h x) out" unfolding o using srt by (rule sorted_wrt_take)
  show "\<forall>e\<in>set ms - set out. \<forall>o'\<in>set out. h e \<le> h o'"
    using take_top [OF srt] unfolding o st [symmetric] by blast
  have "rev ms = filter (\<lambda>e. 0 < h e) (rev es)" by (simp add: ms rev_filter)
  then show "prefix (filter (\<lambda>e. h e = k) out) (filter (\<lambda>e. h e = k) (rev ms))"
    using filter_take_prefix [of "\<lambda>e. h e = k" n ?r] rank_entries_stable [of lower tokens k "rev es"]
    unfolding o h_def by simp
qed

text \<open>
  C39. Recall returns the best matches and only matches: entries of the agent's journal of the
  requested type, not superseded unless asked for, at most \<open>max limit 1\<close> and as many as there are.
  Without a query they are the newest entries, newest first; with one, every entry contains a query
  token, the entries are in descending number of tokens, no entry left out has more of them than
  one returned, and those with the same number of tokens are the newest of them, newest first.
\<close>

theorem journal_recall_correct:
  assumes "journal_recall H lower s rq = Some (Inr out)"
  shows "\<exists>es ids. agent_journal_entries H s (trim (jr_agent_id rq)) = Some (Inr es)
    \<and> (if jr_include_superseded rq then ids = []
       else superseded_entry_ids H s (trim (jr_agent_id rq)) = Some (Inr ids))
    \<and> (let n = max (jr_limit rq) 1; ms = filter (journal_matches lower rq ids) es;
           hits = query_hits lower (map lower (split_whitespace (jr_query rq)))
       in length out = min n (length ms) \<and> set out \<subseteq> set ms
          \<and> (split_whitespace (jr_query rq) = [] \<longrightarrow> out = take n (rev ms))
          \<and> (split_whitespace (jr_query rq) \<noteq> [] \<longrightarrow>
               sorted_wrt (\<lambda>x y. hits y \<le> hits x) out
               \<and> (\<forall>e\<in>set ms - set out. \<forall>o'\<in>set out. hits e \<le> hits o')
               \<and> (\<forall>k. prefix (filter (\<lambda>e. hits e = k) out) (filter (\<lambda>e. hits e = k) (rev ms)))))"
proof -
  let ?ts = "split_whitespace (jr_query rq)"
  let ?h = "query_hits lower (map lower ?ts)"
  let ?n = "max (jr_limit rq) 1"
  obtain es ids where e: "agent_journal_entries H s (trim (jr_agent_id rq)) = Some (Inr es)"
    and i: "if jr_include_superseded rq then ids = []
       else superseded_entry_ids H s (trim (jr_agent_id rq)) = Some (Inr ids)"
    and out: "out = take ?n
        (let visible = rev (filter (\<lambda>e. je_id e \<notin> set ids)
              (case jr_entry_type rq of None \<Rightarrow> es | Some ty \<Rightarrow> filter (\<lambda>e. je_entry_type e = ty) es));
             tokens = map lower ?ts
         in if tokens = [] then visible else rank_entries lower tokens visible)"
    using journal_recall_Inr [OF assms] by blast
  define vis where "vis = filter (\<lambda>e. je_id e \<notin> set ids)
    (case jr_entry_type rq of None \<Rightarrow> es | Some ty \<Rightarrow> filter (\<lambda>e. je_entry_type e = ty) es)"
  define ms where "ms = filter (journal_matches lower rq ids) es"
  have ms: "ms = filter (\<lambda>e. ?ts = [] \<or> 0 < ?h e) vis"
    by (cases "jr_entry_type rq")
       (auto simp: ms_def vis_def journal_matches_def intro!: filter_cong)
  have out': "out = take ?n (if ?ts = [] then rev vis else rank_entries lower (map lower ?ts) (rev vis))"
    by (simp add: out vis_def Let_def)
  have "length out = min ?n (length ms) \<and> set out \<subseteq> set ms
      \<and> (?ts = [] \<longrightarrow> out = take ?n (rev ms))
      \<and> (?ts \<noteq> [] \<longrightarrow> sorted_wrt (\<lambda>x y. ?h y \<le> ?h x) out
           \<and> (\<forall>e\<in>set ms - set out. \<forall>o'\<in>set out. ?h e \<le> ?h o')
           \<and> (\<forall>k. prefix (filter (\<lambda>e. ?h e = k) out) (filter (\<lambda>e. ?h e = k) (rev ms))))"
  proof (cases "?ts = []")
    case True
    then have "ms = vis" by (simp add: ms)
    with True show ?thesis by (auto simp: out' min.commute dest: in_set_takeD)
  next
    case False
    then have tokens: "map lower ?ts \<noteq> []" by simp
    have "ms = filter (\<lambda>e. 0 < ?h e) vis" and "out = take ?n (rank_entries lower (map lower ?ts) (rev vis))"
      using False by (simp_all add: ms out')
    from ranked_answer [OF tokens this] False show ?thesis by blast
  qed
  with e i show ?thesis unfolding Let_def ms_def by blast
qed

section \<open>Supersession\<close>

lemma in_set_upsert: "d \<in> set (upsert d ds)"
  by (induction ds) auto

lemma r_collect_member:
  "r_collect f xs = Inr ys \<Longrightarrow> x \<in> set xs \<Longrightarrow> \<exists>y\<in>set ys. f x = Inr y"
  by (induction xs arbitrary: ys) (auto simp: r_bind_Inr)

lemma journal_supersede_Inr:
  assumes "journal_supersede H s i c original new rel now = Some (Inr (l, s'))"
  shows "is_valid_agent_id (trim c)
    \<and> l = \<lparr>ss_id = i, ss_agent_id = trim c, ss_original_entry_id = original,
          ss_new_entry_id = new, ss_relation = rel, ss_written_at_ms = now\<rparr>
    \<and> hy_put H s (supersession_to_record l) = Inr s'"
  using assms by (auto simp: journal_supersede_def m_bind_Inr validated_agent_id_Inr Let_def)

text \<open>
  Superseding hides the original: after a link that supersedes or recants an entry, no recall of
  the agent that leaves superseded entries out returns the original, whatever the query; and the
  entries themselves, so the chain, are as they were.
\<close>

theorem journal_supersede_hides:
  fixes H :: "('s, 'c, 'e) hyphae"
  assumes "faithful_store H valid rows rest" and "valid s" and "new_id i" and "retires rel"
    and "journal_supersede H s i c original new rel now = Some (Inr (l, s'))"
  shows "(journal_recall H lower s' rq = Some (Inr out) \<and> trim (jr_agent_id rq) = trim c
      \<and> \<not> jr_include_superseded rq \<longrightarrow> (\<forall>e\<in>set out. je_id e \<noteq> original))
    \<and> (agent_journal_entries H s b = Some (Inr es) \<and> agent_journal_entries H s' b = Some (Inr es')
       \<longrightarrow> es' = es)"
proof
  note l = journal_supersede_Inr [OF assms(5)]
  then have put: "hy_put H s (supersession_to_record l) = Inr s'" by blast
  note s' = faithful_storeD(3) [OF assms(1,2) put]
  have dec: "supersession_from_record (supersession_to_record l) = Inr l"
    using l assms(3) by (intro supersession_decode_encode) (simp_all add: new_id_def)
  show "journal_recall H lower s' rq = Some (Inr out) \<and> trim (jr_agent_id rq) = trim c
      \<and> \<not> jr_include_superseded rq \<longrightarrow> (\<forall>e\<in>set out. je_id e \<noteq> original)"
  proof (intro impI ballI, elim conjE)
    fix e
    assume rec: "journal_recall H lower s' rq = Some (Inr out)" and a: "trim (jr_agent_id rq) = trim c"
      and inc: "\<not> jr_include_superseded rq" and e: "e \<in> set out"
    let ?ts = "map lower (split_whitespace (jr_query rq))"
    from journal_recall_Inr [OF rec] inc a obtain es ids where
      ids: "superseded_entry_ids H s' (trim c) = Some (Inr ids)"
      and out: "out = take (max (jr_limit rq) 1)
        (let visible = rev (filter (\<lambda>e. je_id e \<notin> set ids)
              (case jr_entry_type rq of None \<Rightarrow> es | Some ty \<Rightarrow> filter (\<lambda>e. je_entry_type e = ty) es))
         in if ?ts = [] then visible else rank_entries lower ?ts visible)"
      by (auto simp: Let_def)
    obtain links where links: "r_collect supersession_from_record
        (filter (has_prefix (supersession_prefix (trim c))) (rows s')) = Inr links"
      and ids': "ids = map ss_original_entry_id (filter (\<lambda>l. retires (ss_relation l)) links)"
      using superseded_ids_Inr [OF assms(1) conjunct1 [OF s'] ids] by (elim exE conjE) (rule that)
    have "supersession_to_record l
        \<in> set (filter (has_prefix (supersession_prefix (trim c))) (rows s'))"
      using s' l in_set_upsert [of "supersession_to_record l" "rows s"]
      by (simp add: has_prefix_def) (simp add: supersession_to_record_def supersession_prefix_key)
    from r_collect_member [OF links this] dec have "l \<in> set links" by auto
    then have "original \<in> set ids" using l assms(4) by (force simp: ids')
    moreover have "je_id e \<notin> set ids"
    proof -
      let ?v = "rev (filter (\<lambda>e. je_id e \<notin> set ids)
        (case jr_entry_type rq of None \<Rightarrow> es | Some ty \<Rightarrow> filter (\<lambda>e. je_entry_type e = ty) es))"
      have "set (rank_entries lower ?ts ?v) \<subseteq> set ?v"
        using rank_entries_sorted(1) [of lower ?ts ?v]
        by (metis (no_types, lifting) filter_is_subset set_mset_mset)
      then have "e \<in> set ?v" using e unfolding out Let_def by (auto dest!: in_set_takeD split: if_splits)
      then show ?thesis by simp
    qed
    ultimately show "je_id e \<noteq> original" by blast
  qed
  show "agent_journal_entries H s b = Some (Inr es) \<and> agent_journal_entries H s' b = Some (Inr es')
       \<longrightarrow> es' = es"
  proof (intro impI, elim conjE)
    assume es: "agent_journal_entries H s b = Some (Inr es)" "agent_journal_entries H s' b = Some (Inr es')"
    have "\<not> prefix (agent_prefix b) (doc_key (supersession_to_record l))"
      by (simp add: supersession_to_record_def journal_namespaces_disjoint)
    from entries_after_other [OF assms(1,2) put this es] show "es' = es" .
  qed
qed

section \<open>Tampering and concrete runs\<close>

text \<open>
  The tamper evidence of the journal chain, and runs of the journal operations on the concrete list
  store, at which the properties of the journal are applied.
\<close>

section \<open>Tamper evidence\<close>

text \<open>What is used of \<open>Hash::to_hex\<close>: the digest is a non-empty text without a vertical bar.\<close>

definition hex_like :: "(bytes \<Rightarrow> string) \<Rightarrow> bool" where
  "hex_like b3 \<longleftrightarrow> (\<forall>x. b3 x \<noteq> [] \<and> CHR ''|'' \<notin> set (b3 x))"

definition plain_ids :: "journal_entry \<Rightarrow> bool" where
  "plain_ids e \<longleftrightarrow> CHR ''|'' \<notin> set (je_id e) \<and> is_valid_agent_id (je_agent_id e)"

lemma verified_good:
  assumes "cr_valid (verify_entries b3 a es)" and "list_all plain_ids es" and "hex_like b3"
  shows "list_all good_entry es"
  unfolding list_all_iff
proof
  fix e
  assume e: "e \<in> set es"
  have "je_prev_hash e = None \<or> (\<exists>x. je_prev_hash e = Some (b3 x))"
    using chain_ok_prev [OF assms(1) [unfolded verify_entries_valid] e] .
  then have "pred_option (\<lambda>h. h \<noteq> [] \<and> CHR ''|'' \<notin> set h) (je_prev_hash e)"
    using assms(3) by (auto simp: hex_like_def)
  moreover have "plain_ids e" using assms(2) e by (simp add: list_all_iff)
  ultimately show "good_entry e"
    by (simp add: good_entry_def plain_ids_def valid_agent_id_no_separator)
qed

text \<open>
  Tamper evidence of the journal: two chains that both verify and end in the same hash agree
  entry by entry in id, agent, content, time and hash, as long as the digest has no collision among
  their entries, although the fields are joined by a separator that the content may contain. The
  digest covers exactly these fields: the verdict on a chain does not change when the type, valence,
  importance, tags, predecessors or conversation of its entries change.
\<close>

theorem journal_chain_tamper_evident:
  assumes "cr_valid (verify_entries b3 a es)" and "cr_valid (verify_entries b3 a fs)"
    and "list_all plain_ids es" and "list_all plain_ids fs" and "hex_like b3"
    and "inj_on b3 (entry_preimage ` (set es \<union> set fs))"
    and "head_hash je_hash None es = head_hash je_hash None fs"
  shows "map (\<lambda>e. (covered e, je_hash e)) es = map (\<lambda>e. (covered e, je_hash e)) fs
    \<and> (map (\<lambda>e. (covered e, je_prev_hash e, je_hash e)) gs
         = map (\<lambda>e. (covered e, je_prev_hash e, je_hash e)) hs
       \<longrightarrow> verify_entries b3 a gs = verify_entries b3 a hs)"
proof
  show "map (\<lambda>e. (covered e, je_hash e)) es = map (\<lambda>e. (covered e, je_hash e)) fs"
    by (rule journal_chain.history_determined
        [OF assms(1,2) [unfolded verify_entries_valid]
          verified_good [OF assms(1,3,5)] verified_good [OF assms(2,4,5)] assms(6,7)])
  have "broken_links b3 p gs = broken_links b3 p hs"
    if "map (\<lambda>e. (covered e, je_prev_hash e, je_hash e)) gs
      = map (\<lambda>e. (covered e, je_prev_hash e, je_hash e)) hs" for p
    using that
  proof (induction gs arbitrary: hs p)
    case (Cons g gs)
    then obtain h hs' where "hs = h # hs'" by (cases hs) auto
    with Cons show ?case by (auto simp: covered_def Let_def)
  qed simp
  moreover have "length gs = length hs"
    if "map (\<lambda>e. (covered e, je_prev_hash e, je_hash e)) gs
      = map (\<lambda>e. (covered e, je_prev_hash e, je_hash e)) hs"
    using that by (rule map_eq_imp_length_eq)
  ultimately show "map (\<lambda>e. (covered e, je_prev_hash e, je_hash e)) gs
         = map (\<lambda>e. (covered e, je_prev_hash e, je_hash e)) hs
       \<longrightarrow> verify_entries b3 a gs = verify_entries b3 a hs"
    by (simp add: verify_entries_def Let_def)
qed

section \<open>Runs on the list store\<close>

definition agent_a :: string where
  "agent_a = ''a''"

lemma agent_a: "is_valid_agent_id agent_a" "trim agent_a = agent_a"
proof -
  show "is_valid_agent_id agent_a"
    by (simp add: agent_a_def is_valid_agent_id_def agent_byte_def byte_in_def code_def)
  show "trim agent_a = agent_a"
    unfolding agent_a_def
    by (rule trim_ascii_id) (simp_all add: ascii_def is_whitespace_def code_def)
qed

lemma validated_a: "validated_agent_id agent_a = m_return agent_a"
  by (simp add: validated_agent_id_def agent_a)

definition run_request :: journal_write_request where
  "run_request =
     \<lparr>jw_agent_id = agent_a, jw_entry_type = Lesson, jw_content = ''hi'', jw_preceded_by = [],
      jw_valence = None, jw_valence_reason = None, jw_tags = [], jw_conversation_id = None,
      jw_now_ms = 7\<rparr>"

definition run_digest :: "bytes \<Rightarrow> string" where
  "run_digest x = ''d''"

definition run_entry :: "string \<Rightarrow> string option \<Rightarrow> journal_entry" where
  "run_entry i p = new_entry run_digest i agent_a run_request p"

definition run_store :: "doc list" where
  "run_store = [journal_to_record (run_entry ''1'' None)]"

lemma run_ids: "new_id ''0''" "new_id ''1''"
  by (simp_all add: new_id_def ascii_utf8_valid ascii_def code_def)

lemma run_first_write:
  "journal_write list_store run_digest [] ''1'' run_request
   = Some (Inr (run_entry ''1'' None, run_store))"
  by (simp add: journal_write_def run_request_def validated_a last_journal_entry_def
      agent_journal_entries_def list_scan key_sorted_def from_scan_def from_store_def
      from_decode_def run_entry_def run_store_def m_return_def Let_def)

lemma run_first_chain:
  "journal_verify_chain list_store run_digest [] (jw_agent_id run_request)
   = Some (Inr (verify_entries run_digest agent_a []))"
  by (simp add: run_request_def journal_verify_chain_def validated_a agent_journal_entries_def list_scan
      key_sorted_def from_scan_def from_store_def from_decode_def)

lemma run_store_sorted: "key_sorted run_store"
  by (simp add: run_store_def key_sorted_def)

lemma run_entries:
  "agent_journal_entries list_store run_store agent_a
   = Some (Inr [entry_as_stored (run_entry ''1'' None)])"
  using new_entry_decodes [OF agent_a(1) run_ids(2), of run_digest run_request None] agent_a(1)
  by (simp add: agent_journal_entries_def list_scan [OF run_store_sorted] from_scan_def
      from_store_def from_decode_def)
     (simp add: run_store_def has_prefix_def run_entry_def new_entry_key agent_prefix_entry_key)

theorem journal_write_keeps_chain_valid_witness:
  "ok_or_hyphae (journal_verify_chain list_store run_digest run_store agent_a)
     (\<lambda>r. cr_valid r \<and> cr_total r = 1)"
proof -
  note run = journal_write_keeps_chain_valid
      [OF list_store_faithful _ run_first_chain _ run_first_write run_ids(2)]
  have "ok_or_hyphae (journal_verify_chain list_store run_digest run_store (jw_agent_id run_request))
     (\<lambda>r. cr_valid r \<and> cr_total r = cr_total (verify_entries run_digest agent_a []) + 1)"
    by (rule conjunct1 [OF run]) (simp_all add: key_sorted_def newest_id_def verify_entries_def)
  then show ?thesis by (simp add: run_request_def verify_entries_def)
qed

lemma run_second_write:
  "\<exists>s'. journal_write list_store run_digest run_store ''0'' run_request
     = Some (Inr (run_entry ''0'' (Some ''d''), s'))"
  by (simp add: journal_write_def run_request_def validated_a last_journal_entry_def run_entries
      from_store_def run_entry_def m_return_def Let_def)
     (simp add: entry_as_stored_def new_entry_def chain_hash_def run_digest_def)

lemma run_second_chain:
  "journal_verify_chain list_store run_digest run_store (jw_agent_id run_request)
   = Some (Inr (verify_entries run_digest agent_a [entry_as_stored (run_entry ''1'' None)]))"
  by (simp add: run_request_def journal_verify_chain_def validated_a run_entries)

theorem journal_backdated_id_breaks_chain_witness:
  "\<exists>s'. journal_write list_store run_digest run_store ''0'' run_request
       = Some (Inr (run_entry ''0'' (Some ''d''), s'))
     \<and> ok_or_hyphae (journal_verify_chain list_store run_digest s' agent_a) (\<lambda>r. \<not> cr_valid r)"
proof -
  obtain s' where w: "journal_write list_store run_digest run_store ''0'' run_request
     = Some (Inr (run_entry ''0'' (Some ''d''), s'))" using run_second_write by blast
  have "ok_or_hyphae (journal_verify_chain list_store run_digest s' (jw_agent_id run_request))
     (\<lambda>r. \<not> cr_valid r)"
    by (rule journal_backdated_id_breaks_chain
        [OF list_store_faithful run_store_sorted run_second_chain _ w run_ids(1)])
       (simp_all add: verify_entries_def Let_def run_store_def run_entry_def new_entry_key,
         simp add: run_request_def agent_a(2), simp add: entry_key_def agent_a_def)
  with w show ?thesis by (auto simp: run_request_def)
qed

theorem journal_isolation_witness:
  "journal_view list_store run_store ''b'' = Some (Inr ([], []))"
proof -
  have b: "is_valid_agent_id ''b''"
    by (simp add: is_valid_agent_id_def agent_byte_def byte_in_def code_def)
  have no: "\<not> has_prefix (agent_prefix ''b'') (journal_to_record (run_entry ''1'' None))"
    "\<not> has_prefix (supersession_prefix ''b'') (journal_to_record (run_entry ''1'' None))"
    using agent_prefix_entry_key [OF b agent_a(1), of "''1''"]
    by (simp_all add: has_prefix_def run_entry_def new_entry_key journal_namespaces_disjoint)
       (simp add: agent_a_def)
  have "filter (has_prefix (agent_prefix ''b'')) run_store = []"
    "filter (has_prefix (supersession_prefix ''b'')) run_store = []"
    by (simp_all add: run_store_def no)
  then have after: "journal_view list_store run_store ''b'' = Some (Inr ([], []))"
    by (simp add: journal_view_Inr agent_journal_entries_def superseded_entry_ids_def list_scan
        [OF run_store_sorted] from_scan_def from_store_def from_decode_def m_return_def)
  have before: "journal_view list_store [] ''b'' = Some (Inr ([], []))"
    by (simp add: journal_view_Inr agent_journal_entries_def superseded_entry_ids_def list_scan
        key_sorted_def from_scan_def from_store_def from_decode_def m_return_def)
  have "([], []) = ([] :: journal_entry list, [] :: string list)"
  proof (rule journal_isolation [OF list_store_faithful _ b disjI1 before after])
    have "trim (jw_agent_id run_request) = agent_a" by (simp add: run_request_def agent_a(2))
    then have "trim (jw_agent_id run_request) \<noteq> ''b''" by (simp add: agent_a_def)
    with run_first_write show "journal_write list_store run_digest [] ''1'' run_request
       = Some (Inr (run_entry ''1'' None, run_store)) \<and> run_store = run_store
         \<and> trim (jw_agent_id run_request) \<noteq> ''b''" by blast
  qed (simp add: key_sorted_def)
  with after show ?thesis by simp
qed

definition run_recall :: journal_recall_request where
  "run_recall =
     \<lparr>jr_agent_id = agent_a, jr_query = '''', jr_entry_type = None, jr_limit = 0,
      jr_include_superseded = True\<rparr>"

lemma run_recalled:
  "journal_recall list_store (\<lambda>x. x) run_store run_recall
   = Some (Inr [entry_as_stored (run_entry ''1'' None)])"
  by (simp add: journal_recall_def run_recall_def validated_a run_entries Let_def
      split_whitespace_def m_return_def)

theorem journal_recall_correct_witness:
  "\<exists>es. agent_journal_entries list_store run_store agent_a = Some (Inr es)
     \<and> [entry_as_stored (run_entry ''1'' None)] = take 1 (rev es)"
  using journal_recall_correct [OF run_recalled]
  by (auto simp: run_recall_def agent_a journal_matches_def split_whitespace_def Let_def)

theorem journal_supersede_hides_witness:
  "\<exists>l s'. journal_supersede list_store run_store ''1'' agent_a ''1'' ''1'' Recanted 9 = Some (Inr (l, s'))
     \<and> (\<forall>es'. agent_journal_entries list_store s' agent_a = Some (Inr es')
          \<longrightarrow> es' = [entry_as_stored (run_entry ''1'' None)])"
proof -
  have "lookup_doc run_store (entry_key agent_a ''1'') \<noteq> None"
    by (simp add: lookup_doc_def run_store_def run_entry_def new_entry_key)
  then obtain l s' where
    s: "journal_supersede list_store run_store ''1'' agent_a ''1'' ''1'' Recanted 9 = Some (Inr (l, s'))"
    by (auto simp: journal_supersede_def validated_a from_store_def Let_def m_return_def)
  show ?thesis
    using journal_supersede_hides [OF list_store_faithful run_store_sorted run_ids(2) _ s] s run_entries
    by (auto simp: retires_def)
qed

theorem journal_chain_tamper_evident_witness:
  "cr_valid (verify_entries run_digest agent_a [run_entry ''1'' None])
   \<and> map (\<lambda>e. (covered e, je_hash e)) [run_entry ''1'' None]
     = map (\<lambda>e. (covered e, je_hash e)) [run_entry ''1'' None]"
proof -
  have v: "cr_valid (verify_entries run_digest agent_a [run_entry ''1'' None])"
    by (simp add: verify_entries_def run_entry_def new_entry_def)
  have p: "list_all plain_ids [run_entry ''1'' None]"
    by (simp add: plain_ids_def run_entry_def new_entry_def agent_a)
  have "hex_like run_digest" by (simp add: hex_like_def run_digest_def)
  from journal_chain_tamper_evident [OF v v p p this, of "[]" "[]"] v show ?thesis
    by simp
qed

end
