(* ===== verification/Governance_Audit.thy ===== *)
theory Governance_Audit
  imports Hash_Framing Governance_State
begin

text \<open>
  \<open>governance_audit.rs\<close>: audit entries, feedback and resolutions with their stored form, the digest
  of an entry, and the verification of a tenant's audit chain. The digest function \<open>b3\<close> stands for
  BLAKE3 in hexadecimal.
\<close>

section \<open>Vocabulary\<close>

datatype governed_operation = Ingest | Store | Recall | Disclose | Update | Delete

fun operation_as_str :: "governed_operation \<Rightarrow> string" where
  "operation_as_str Ingest = ''ingest''"
| "operation_as_str Store = ''store''"
| "operation_as_str Recall = ''recall''"
| "operation_as_str Disclose = ''disclose''"
| "operation_as_str Update = ''update''"
| "operation_as_str Delete = ''delete''"

definition operation_parse :: "string \<Rightarrow> governed_operation option" where
  "operation_parse s =
     (if s = ''ingest'' then Some Ingest
      else if s = ''store'' then Some Store
      else if s = ''recall'' then Some Recall
      else if s = ''disclose'' then Some Disclose
      else if s = ''update'' then Some Update
      else if s = ''delete'' then Some Delete
      else None)"

datatype audit_decision =
  Audit_Allow | Audit_Summarize | Audit_Redact | Audit_Restrict | Audit_Abstain
| Audit_Quarantine | Audit_Reject

fun audit_decision_as_str :: "audit_decision \<Rightarrow> string" where
  "audit_decision_as_str Audit_Allow = ''allow''"
| "audit_decision_as_str Audit_Summarize = ''summarize''"
| "audit_decision_as_str Audit_Redact = ''redact''"
| "audit_decision_as_str Audit_Restrict = ''restrict''"
| "audit_decision_as_str Audit_Abstain = ''abstain''"
| "audit_decision_as_str Audit_Quarantine = ''quarantine''"
| "audit_decision_as_str Audit_Reject = ''reject''"

definition audit_decision_parse :: "string \<Rightarrow> audit_decision option" where
  "audit_decision_parse s =
     (if s = ''allow'' then Some Audit_Allow
      else if s = ''summarize'' then Some Audit_Summarize
      else if s = ''redact'' then Some Audit_Redact
      else if s = ''restrict'' then Some Audit_Restrict
      else if s = ''abstain'' then Some Audit_Abstain
      else if s = ''quarantine'' then Some Audit_Quarantine
      else if s = ''reject'' then Some Audit_Reject
      else None)"

datatype review_state = Unreviewed | Pending | Reviewed

fun review_state_as_str :: "review_state \<Rightarrow> string" where
  "review_state_as_str Unreviewed = ''unreviewed''"
| "review_state_as_str Pending = ''pending''"
| "review_state_as_str Reviewed = ''reviewed''"

definition review_state_parse :: "string \<Rightarrow> review_state option" where
  "review_state_parse s =
     (if s = ''unreviewed'' then Some Unreviewed
      else if s = ''pending'' then Some Pending
      else if s = ''reviewed'' then Some Reviewed
      else None)"

datatype feedback_kind = FalsePositive | FalseNegative | Appeal | Correction

fun feedback_kind_as_str :: "feedback_kind \<Rightarrow> string" where
  "feedback_kind_as_str FalsePositive = ''false_positive''"
| "feedback_kind_as_str FalseNegative = ''false_negative''"
| "feedback_kind_as_str Appeal = ''appeal''"
| "feedback_kind_as_str Correction = ''correction''"

definition feedback_kind_parse :: "string \<Rightarrow> feedback_kind option" where
  "feedback_kind_parse s =
     (if s = ''false_positive'' then Some FalsePositive
      else if s = ''false_negative'' then Some FalseNegative
      else if s = ''appeal'' then Some Appeal
      else if s = ''correction'' then Some Correction
      else None)"

datatype review_disposition = Upheld | Overturned | PartiallyOverturned | Dismissed

fun disposition_as_str :: "review_disposition \<Rightarrow> string" where
  "disposition_as_str Upheld = ''upheld''"
| "disposition_as_str Overturned = ''overturned''"
| "disposition_as_str PartiallyOverturned = ''partially_overturned''"
| "disposition_as_str Dismissed = ''dismissed''"

definition disposition_parse :: "string \<Rightarrow> review_disposition option" where
  "disposition_parse s =
     (if s = ''upheld'' then Some Upheld
      else if s = ''overturned'' then Some Overturned
      else if s = ''partially_overturned'' then Some PartiallyOverturned
      else if s = ''dismissed'' then Some Dismissed
      else None)"

interpretation operation_codec: enum_codec operation_as_str operation_parse
  by unfold_locales ((case_tac x; simp add: operation_parse_def),
    (auto simp: operation_parse_def split: if_splits))

interpretation audit_decision_codec: enum_codec audit_decision_as_str audit_decision_parse
  by unfold_locales ((case_tac x; simp add: audit_decision_parse_def),
    (auto simp: audit_decision_parse_def split: if_splits))

interpretation review_state_codec: enum_codec review_state_as_str review_state_parse
  by unfold_locales ((case_tac x; simp add: review_state_parse_def),
    (auto simp: review_state_parse_def split: if_splits))

interpretation feedback_kind_codec: enum_codec feedback_kind_as_str feedback_kind_parse
  by unfold_locales ((case_tac x; simp add: feedback_kind_parse_def),
    (auto simp: feedback_kind_parse_def split: if_splits))

interpretation disposition_codec: enum_codec disposition_as_str disposition_parse
  by unfold_locales ((case_tac x; simp add: disposition_parse_def),
    (auto simp: disposition_parse_def split: if_splits))

lemmas audit_names =
  operation_codec.of_to_name audit_decision_codec.of_to_name review_state_codec.of_to_name
  feedback_kind_codec.of_to_name disposition_codec.of_to_name

record audit_entry =
  ae_id :: string
  ae_tenant_id :: string
  ae_operation :: governed_operation
  ae_subject_id :: string
  ae_content_digest :: "string option"
  ae_purpose :: string
  ae_treatment :: string
  ae_policy_id :: string
  ae_policy_version :: string
  ae_decision :: audit_decision
  ae_reason_codes :: "string list"
  ae_review_state :: review_state
  ae_actor_id :: "string option"
  ae_occurred_at_ms :: i64
  ae_previous_hash :: "string option"
  ae_hash :: string

record audit_chain_report =
  acr_tenant_id :: string
  acr_total :: nat
  acr_valid :: bool
  acr_broken_entry_ids :: "string list"

record feedback_entry =
  fb_id :: string
  fb_tenant_id :: string
  fb_audit_entry_id :: string
  fb_kind :: feedback_kind
  fb_reason_code :: string
  fb_submitted_by :: "string option"
  fb_submitted_at_ms :: i64

record feedback_resolution =
  fr_id :: string
  fr_tenant_id :: string
  fr_feedback_entry_id :: string
  fr_disposition :: review_disposition
  fr_reason_code :: string
  fr_reviewed_by :: "string option"
  fr_resolved_at_ms :: i64

section \<open>The digest of an entry\<close>

definition hash_bytes :: "bytes \<Rightarrow> bytes \<Rightarrow> bytes" where
  "hash_bytes name v = u64_le (length name) @ name @ u64_le (length v) @ v"

definition hash_text :: "string \<Rightarrow> string \<Rightarrow> bytes" where
  "hash_text name v = hash_bytes name v"

definition hash_optional_text :: "string \<Rightarrow> string option \<Rightarrow> bytes" where
  "hash_optional_text name o' = (case o' of
     Some v \<Rightarrow> hash_bytes name [char_of (1 :: nat)] @ hash_text name v
   | None \<Rightarrow> hash_bytes name [char_of (0 :: nat)])"

definition audit_hash_domain :: bytes where
  "audit_hash_domain = ''celiums-memory/ethics-audit/v1''"

definition audit_preimage :: "audit_entry \<Rightarrow> bytes" where
  "audit_preimage e =
     audit_hash_domain
     @ hash_text ''id'' (ae_id e)
     @ hash_text ''tenant_id'' (ae_tenant_id e)
     @ hash_text ''operation'' (operation_as_str (ae_operation e))
     @ hash_text ''subject_id'' (ae_subject_id e)
     @ hash_optional_text ''content_digest'' (ae_content_digest e)
     @ hash_text ''purpose'' (ae_purpose e)
     @ hash_text ''treatment'' (ae_treatment e)
     @ hash_text ''policy_id'' (ae_policy_id e)
     @ hash_text ''policy_version'' (ae_policy_version e)
     @ hash_text ''decision'' (audit_decision_as_str (ae_decision e))
     @ concat (map (hash_text ''reason_code'') (ae_reason_codes e))
     @ hash_text ''review_state'' (review_state_as_str (ae_review_state e))
     @ hash_optional_text ''actor_id'' (ae_actor_id e)
     @ hash_bytes ''occurred_at_ms'' (i64_le (ae_occurred_at_ms e))
     @ hash_optional_text ''previous_hash'' (ae_previous_hash e)"

definition compute_hash :: "(bytes \<Rightarrow> string) \<Rightarrow> audit_entry \<Rightarrow> string" where
  "compute_hash b3 e = b3 (audit_preimage e)"

section \<open>Verification of a chain\<close>

fun broken_entries ::
  "(bytes \<Rightarrow> string) \<Rightarrow> string \<Rightarrow> string option \<Rightarrow> audit_entry list \<Rightarrow> string list" where
  "broken_entries b3 tenant expected [] = []"
| "broken_entries b3 tenant expected (e # es) =
     (if ae_tenant_id e = tenant \<and> ae_previous_hash e = expected \<and> ae_hash e = compute_hash b3 e
      then [] else [ae_id e])
     @ broken_entries b3 tenant (Some (ae_hash e)) es"

definition verify_audit_chain ::
  "(bytes \<Rightarrow> string) \<Rightarrow> string \<Rightarrow> audit_entry list \<Rightarrow> audit_chain_report" where
  "verify_audit_chain b3 tenant es =
     (let broken = broken_entries b3 tenant None es
      in \<lparr>acr_tenant_id = tenant, acr_total = length es, acr_valid = (broken = []),
          acr_broken_entry_ids = broken\<rparr>)"

section \<open>Stored form\<close>

definition audit_key_prefix :: string where
  "audit_key_prefix = ''__celiums/ethics_audit/''"

definition feedback_key_prefix :: string where
  "feedback_key_prefix = ''__celiums/ethics_feedback/''"

definition audit_key :: "string \<Rightarrow> bytes" where
  "audit_key entry_id = audit_key_prefix @ entry_id"

definition feedback_key :: "string \<Rightarrow> bytes" where
  "feedback_key entry_id = feedback_key_prefix @ entry_id"

definition require_kind :: "fields \<Rightarrow> string \<Rightarrow> unit decoded" where
  "require_kind fs expected =
     r_bind (string_field fs ''kind'') (\<lambda>k.
       if k = expected then Inr () else Inl (FieldErr ''kind''))"

definition id_from_key :: "bytes \<Rightarrow> string \<Rightarrow> string decoded" where
  "id_from_key key p =
     (if \<not> utf8_valid key then Inl KeyErr else
      case strip_prefix p key of
        None \<Rightarrow> Inl KeyErr
      | Some i \<Rightarrow> if i = [] \<or> CHR ''/'' \<in> set i then Inl KeyErr else Inr i)"

definition audit_to_record :: "audit_entry \<Rightarrow> doc" where
  "audit_to_record e =
     \<lparr>doc_key = audit_key (ae_id e),
      doc_value = VObject
        [''kind'' \<mapsto> VString ''ethics_audit'',
         ''tenant_id'' \<mapsto> VString (ae_tenant_id e),
         ''operation'' \<mapsto> VString (operation_as_str (ae_operation e)),
         ''subject_id'' \<mapsto> VString (ae_subject_id e),
         ''content_digest'' \<mapsto> opt_string (ae_content_digest e),
         ''purpose'' \<mapsto> VString (ae_purpose e),
         ''treatment'' \<mapsto> VString (ae_treatment e),
         ''policy_id'' \<mapsto> VString (ae_policy_id e),
         ''policy_version'' \<mapsto> VString (ae_policy_version e),
         ''decision'' \<mapsto> VString (audit_decision_as_str (ae_decision e)),
         ''reason_codes'' \<mapsto> string_array_value (ae_reason_codes e),
         ''review_state'' \<mapsto> VString (review_state_as_str (ae_review_state e)),
         ''actor_id'' \<mapsto> opt_string (ae_actor_id e),
         ''occurred_at_ms'' \<mapsto> VInteger (ae_occurred_at_ms e),
         ''previous_hash'' \<mapsto> opt_string (ae_previous_hash e),
         ''hash'' \<mapsto> VString (ae_hash e)]\<rparr>"

definition audit_from_record :: "doc \<Rightarrow> audit_entry decoded" where
  "audit_from_record rec =
     r_bind (id_from_key (doc_key rec) audit_key_prefix) (\<lambda>i.
     r_bind (root_fields (doc_value rec)) (\<lambda>fs.
     r_bind (require_kind fs ''ethics_audit'') (\<lambda>_.
     r_bind (string_field fs ''tenant_id'') (\<lambda>tenant.
     r_bind (enum_field operation_parse fs ''operation'' ''operation'') (\<lambda>op.
     r_bind (string_field fs ''subject_id'') (\<lambda>subject.
     r_bind (required_string_option fs ''content_digest'') (\<lambda>digest.
     r_bind (string_field fs ''purpose'') (\<lambda>purpose.
     r_bind (string_field fs ''treatment'') (\<lambda>treat.
     r_bind (string_field fs ''policy_id'') (\<lambda>pid.
     r_bind (string_field fs ''policy_version'') (\<lambda>pv.
     r_bind (enum_field audit_decision_parse fs ''decision'' ''decision'') (\<lambda>dec.
     r_bind (string_array_field fs ''reason_codes'') (\<lambda>reasons.
     r_bind (enum_field review_state_parse fs ''review_state'' ''review_state'') (\<lambda>review.
     r_bind (required_string_option fs ''actor_id'') (\<lambda>act.
     r_bind (integer_field fs ''occurred_at_ms'') (\<lambda>when_ms.
     r_bind (required_string_option fs ''previous_hash'') (\<lambda>prev.
     r_bind (string_field fs ''hash'') (\<lambda>h.
       Inr \<lparr>ae_id = i, ae_tenant_id = tenant, ae_operation = op, ae_subject_id = subject,
            ae_content_digest = digest, ae_purpose = purpose, ae_treatment = treat,
            ae_policy_id = pid, ae_policy_version = pv, ae_decision = dec,
            ae_reason_codes = reasons, ae_review_state = review, ae_actor_id = act,
            ae_occurred_at_ms = when_ms, ae_previous_hash = prev, ae_hash = h\<rparr>))))))))))))))))))"

definition feedback_to_record :: "feedback_entry \<Rightarrow> doc" where
  "feedback_to_record f =
     \<lparr>doc_key = feedback_key (fb_id f),
      doc_value = VObject
        [''kind'' \<mapsto> VString ''ethics_feedback'',
         ''tenant_id'' \<mapsto> VString (fb_tenant_id f),
         ''audit_entry_id'' \<mapsto> VString (fb_audit_entry_id f),
         ''feedback_kind'' \<mapsto> VString (feedback_kind_as_str (fb_kind f)),
         ''reason_code'' \<mapsto> VString (fb_reason_code f),
         ''submitted_by'' \<mapsto> opt_string (fb_submitted_by f),
         ''submitted_at_ms'' \<mapsto> VInteger (fb_submitted_at_ms f)]\<rparr>"

definition feedback_from_record :: "doc \<Rightarrow> feedback_entry decoded" where
  "feedback_from_record rec =
     r_bind (id_from_key (doc_key rec) feedback_key_prefix) (\<lambda>i.
     r_bind (root_fields (doc_value rec)) (\<lambda>fs.
     r_bind (require_kind fs ''ethics_feedback'') (\<lambda>_.
     r_bind (string_field fs ''tenant_id'') (\<lambda>tenant.
     r_bind (string_field fs ''audit_entry_id'') (\<lambda>aid.
     r_bind (enum_field feedback_kind_parse fs ''feedback_kind'' ''feedback_kind'') (\<lambda>kind.
     r_bind (string_field fs ''reason_code'') (\<lambda>reason.
     r_bind (required_string_option fs ''submitted_by'') (\<lambda>by'.
     r_bind (integer_field fs ''submitted_at_ms'') (\<lambda>when_ms.
       Inr \<lparr>fb_id = i, fb_tenant_id = tenant, fb_audit_entry_id = aid, fb_kind = kind,
            fb_reason_code = reason, fb_submitted_by = by', fb_submitted_at_ms = when_ms\<rparr>)))))))))"

definition resolution_to_record :: "feedback_resolution \<Rightarrow> doc" where
  "resolution_to_record f =
     \<lparr>doc_key = feedback_key (fr_id f),
      doc_value = VObject
        [''kind'' \<mapsto> VString ''ethics_feedback_resolution'',
         ''tenant_id'' \<mapsto> VString (fr_tenant_id f),
         ''feedback_entry_id'' \<mapsto> VString (fr_feedback_entry_id f),
         ''disposition'' \<mapsto> VString (disposition_as_str (fr_disposition f)),
         ''reason_code'' \<mapsto> VString (fr_reason_code f),
         ''reviewed_by'' \<mapsto> opt_string (fr_reviewed_by f),
         ''resolved_at_ms'' \<mapsto> VInteger (fr_resolved_at_ms f)]\<rparr>"

definition resolution_from_record :: "doc \<Rightarrow> feedback_resolution decoded" where
  "resolution_from_record rec =
     r_bind (id_from_key (doc_key rec) feedback_key_prefix) (\<lambda>i.
     r_bind (root_fields (doc_value rec)) (\<lambda>fs.
     r_bind (require_kind fs ''ethics_feedback_resolution'') (\<lambda>_.
     r_bind (string_field fs ''tenant_id'') (\<lambda>tenant.
     r_bind (string_field fs ''feedback_entry_id'') (\<lambda>fid.
     r_bind (enum_field disposition_parse fs ''disposition'' ''disposition'') (\<lambda>disp.
     r_bind (string_field fs ''reason_code'') (\<lambda>reason.
     r_bind (required_string_option fs ''reviewed_by'') (\<lambda>by'.
     r_bind (integer_field fs ''resolved_at_ms'') (\<lambda>when_ms.
       Inr \<lparr>fr_id = i, fr_tenant_id = tenant, fr_feedback_entry_id = fid, fr_disposition = disp,
            fr_reason_code = reason, fr_reviewed_by = by', fr_resolved_at_ms = when_ms\<rparr>)))))))))"

end
