(* ===== verification/Audit_Integrity.thy ===== *)
theory Audit_Integrity
  imports Governance_Audit
begin

text \<open>
  What the audit digest and the chain verification guarantee: the digest covers every field of an
  entry, a chain that verifies fixes the whole history behind its last hash, and the stored form of
  entries, feedback and resolutions is read back exactly.
\<close>

section \<open>The digest covers every field\<close>

interpretation audit_field: field_framing hash_bytes
proof unfold_locales
  show "hash_bytes n v \<noteq> []" for n v
    using framed_nonempty [of n v] by (simp add: hash_bytes_def framed_def)
  show "n = n' \<and> v = v' \<and> r = r'"
    if "fits n" "fits v" "fits n'" "fits v'" "hash_bytes n v @ r = hash_bytes n' v' @ r'"
    for n v n' v' r r'
    using framed_split [OF that(1-4), of r r'] that(5) by (simp add: hash_bytes_def framed_def)
qed

definition audit_fields :: "audit_entry \<Rightarrow> (bytes \<times> bytes) list" where
  "audit_fields e =
     [(''id'', ae_id e), (''tenant_id'', ae_tenant_id e),
      (''operation'', operation_as_str (ae_operation e)), (''subject_id'', ae_subject_id e)]
     @ opt_fields ''content_digest'' (ae_content_digest e)
     @ [(''purpose'', ae_purpose e), (''treatment'', ae_treatment e), (''policy_id'', ae_policy_id e),
        (''policy_version'', ae_policy_version e),
        (''decision'', audit_decision_as_str (ae_decision e))]
     @ map (Pair ''reason_code'') (ae_reason_codes e)
     @ (''review_state'', review_state_as_str (ae_review_state e))
     # opt_fields ''actor_id'' (ae_actor_id e)
     @ [(''occurred_at_ms'', i64_le (ae_occurred_at_ms e))]
     @ opt_fields ''previous_hash'' (ae_previous_hash e)"

lemma hash_optional_text_frame: "hash_optional_text n o' = frame hash_bytes (opt_fields n o')"
  by (cases o') (simp_all add: hash_optional_text_def opt_fields_def hash_text_def)

lemma frame_run: "concat (map (hash_text n) xs) = frame hash_bytes (map (Pair n) xs)"
  by (induction xs) (simp_all add: hash_text_def)

lemma audit_preimage_frame:
  "audit_preimage e = audit_hash_domain @ frame hash_bytes (audit_fields e)"
  by (simp add: audit_preimage_def audit_fields_def hash_optional_text_frame frame_run hash_text_def)

text \<open>Every string of an entry is shorter than \<open>2 ^ 64\<close> bytes, as every Rust string is.\<close>

definition wf_audit_entry :: "audit_entry \<Rightarrow> bool" where
  "wf_audit_entry e \<longleftrightarrow>
     fits (ae_id e) \<and> fits (ae_tenant_id e) \<and> fits (ae_subject_id e)
     \<and> pred_option fits (ae_content_digest e) \<and> fits (ae_purpose e) \<and> fits (ae_treatment e)
     \<and> fits (ae_policy_id e) \<and> fits (ae_policy_version e) \<and> list_all fits (ae_reason_codes e)
     \<and> pred_option fits (ae_actor_id e) \<and> pred_option fits (ae_previous_hash e)"

lemma fits_enum_names:
  "fits (operation_as_str x)" "fits (audit_decision_as_str y)" "fits (review_state_as_str z)"
proof -
  show "fits (operation_as_str x)" by (cases x; simp add: fits_def)
  show "fits (audit_decision_as_str y)" by (cases y; simp add: fits_def)
  show "fits (review_state_as_str z)" by (cases z; simp add: fits_def)
qed

lemma fits_short: "length n < 32 \<Longrightarrow> fits n"
  by (simp add: fits_def)

lemma fits_i64_le: "fits (i64_le w)"
  by (simp add: fits_def)

lemma fits_all_run: "fits_all (map (Pair n) xs) \<longleftrightarrow> (xs = [] \<or> fits n) \<and> list_all fits xs"
  by (cases xs) (auto simp: fits_all_def list_all_iff)

lemma audit_fields_fit: "wf_audit_entry e \<Longrightarrow> fits_all (audit_fields e)"
  unfolding audit_fields_def wf_audit_entry_def
  by (simp only: fits_all_simps fits_all_opt fits_all_run fits_enum_names fits_i64_le)
     (intro conjI disjI2 TrueI; (elim conjE; assumption | (rule fits_short, simp)))

lemma opt_fields_inj: "opt_fields n a = opt_fields n b \<longleftrightarrow> a = b"
  using opt_fields_append_inj [of n a "[]" b "[]"] by simp

lemma audit_fields_inj:
  assumes "audit_fields e = audit_fields f"
  shows "e\<lparr>ae_hash := ''''\<rparr> = f\<lparr>ae_hash := ''''\<rparr>"
proof -
  have r: "''review_state'' \<noteq> ''reason_code''" by simp
  note eqs = assms [unfolded audit_fields_def append.simps list.inject prod.inject append_assoc
      opt_fields_append_inj run_inj [OF r] opt_fields_inj operation_codec.to_name_inj
      audit_decision_codec.to_name_inj review_state_codec.to_name_inj i64_le_inj]
  show ?thesis
    using eqs by (cases e; cases f)
      (simp only: audit_entry.select_convs audit_entry.update_convs)
qed

lemma audit_preimage_inj:
  "wf_audit_entry e \<Longrightarrow> wf_audit_entry f \<Longrightarrow> audit_preimage e = audit_preimage f
   \<Longrightarrow> e\<lparr>ae_hash := ''''\<rparr> = f\<lparr>ae_hash := ''''\<rparr>"
  by (rule audit_fields_inj, rule audit_field.frame_inj)
     (simp_all only: audit_fields_fit audit_preimage_frame append_same_eq same_append_eq)

interpretation audit_chain:
  hash_chain ae_previous_hash ae_hash audit_preimage "\<lambda>e. e\<lparr>ae_hash := ''''\<rparr>" wf_audit_entry
proof unfold_locales
  fix e f
  assume "wf_audit_entry e" "wf_audit_entry f" "audit_preimage e = audit_preimage f"
  then have eq: "e\<lparr>ae_hash := ''''\<rparr> = f\<lparr>ae_hash := ''''\<rparr>" by (rule audit_preimage_inj)
  then have "ae_previous_hash (e\<lparr>ae_hash := ''''\<rparr>) = ae_previous_hash (f\<lparr>ae_hash := ''''\<rparr>)"
    by simp
  then have "ae_previous_hash e = ae_previous_hash f" by simp
  with eq show "e\<lparr>ae_hash := ''''\<rparr> = f\<lparr>ae_hash := ''''\<rparr> \<and> ae_previous_hash e = ae_previous_hash f" ..
qed

lemma broken_entries_Nil:
  "broken_entries b3 tenant p es = [] \<longleftrightarrow>
     chain_ok ae_previous_hash ae_hash audit_preimage b3 p es
     \<and> list_all (\<lambda>e. ae_tenant_id e = tenant) es"
  by (induction es arbitrary: p) (auto simp: compute_hash_def)

lemma verify_valid_iff:
  "acr_valid (verify_audit_chain b3 tenant es) \<longleftrightarrow>
     chain_ok ae_previous_hash ae_hash audit_preimage b3 None es
     \<and> list_all (\<lambda>e. ae_tenant_id e = tenant) es"
  by (simp add: verify_audit_chain_def Let_def broken_entries_Nil)

lemma entry_eqI:
  "e\<lparr>ae_hash := h\<rparr> = f\<lparr>ae_hash := h\<rparr> \<Longrightarrow> ae_hash e = ae_hash f \<Longrightarrow> e = f"
  by (cases e; cases f) simp

text \<open>
  C13. Tamper evidence of the audit trail: two chains of a tenant that both verify and end in the
  same hash are equal entry by entry, in every field, as long as the digest has no collision among
  the entries of the two chains. No entry can be altered, removed, inserted or reordered without
  changing the last hash.
\<close>

theorem audit_chain_tamper_evident:
  assumes "acr_valid (verify_audit_chain b3 tenant es)"
    and "acr_valid (verify_audit_chain b3 tenant fs)"
    and "list_all wf_audit_entry es" and "list_all wf_audit_entry fs"
    and "inj_on b3 (audit_preimage ` (set es \<union> set fs))"
    and "head_hash ae_hash None es = head_hash ae_hash None fs"
  shows "es = fs"
proof -
  let ?b = "\<lambda>e :: audit_entry. (e\<lparr>ae_hash := ''''\<rparr>, ae_hash e)"
  have m: "map ?b es = map ?b fs"
  proof (rule audit_chain.history_determined [OF _ _ assms(3-6)])
    show "chain_ok ae_previous_hash ae_hash audit_preimage b3 None es"
      using assms(1) unfolding verify_valid_iff by (rule conjunct1)
    show "chain_ok ae_previous_hash ae_hash audit_preimage b3 None fs"
      using assms(2) unfolding verify_valid_iff by (rule conjunct1)
  qed
  have "inj ?b"
  proof (rule injI)
    fix e f :: audit_entry
    assume "(e\<lparr>ae_hash := ''''\<rparr>, ae_hash e) = (f\<lparr>ae_hash := ''''\<rparr>, ae_hash f)"
    then show "e = f" unfolding prod.inject by (rule conjE) (rule entry_eqI)
  qed
  then show ?thesis using m by (simp only: inj_map_eq_map)
qed

definition example_audit_entry :: audit_entry where
  "example_audit_entry =
     \<lparr>ae_id = ''a1'', ae_tenant_id = ''t'', ae_operation = Ingest, ae_subject_id = ''action'',
      ae_content_digest = None, ae_purpose = ''task_execution'', ae_treatment = ''normal'',
      ae_policy_id = governance_policy_id, ae_policy_version = governance_policy_version,
      ae_decision = Audit_Allow, ae_reason_codes = [], ae_review_state = Unreviewed,
      ae_actor_id = None, ae_occurred_at_ms = 7, ae_previous_hash = None, ae_hash = ''''\<rparr>"

definition example_chain :: "audit_entry list" where
  "example_chain =
     [example_audit_entry\<lparr>ae_hash := audit_preimage example_audit_entry\<rparr>]"

lemma preimage_hash_irrelevant: "audit_preimage (e\<lparr>ae_hash := h\<rparr>) = audit_preimage e"
  by (simp add: audit_preimage_def)

lemma example_chain_valid:
  "acr_valid (verify_audit_chain (\<lambda>x. x) ''t'' example_chain)"
  "list_all wf_audit_entry example_chain"
  by (simp_all add: verify_valid_iff example_chain_def preimage_hash_irrelevant)
     (simp_all add: example_audit_entry_def wf_audit_entry_def fits_def governance_policy_id_def
       governance_policy_version_def)

theorem audit_chain_tamper_evident_witness:
  "acr_valid (verify_audit_chain (\<lambda>x. x) ''t'' example_chain) \<and> example_chain = example_chain"
  using audit_chain_tamper_evident [of "\<lambda>x. x" "''t''" example_chain example_chain]
    example_chain_valid by simp

section \<open>Stored form\<close>

definition valid_entry_id :: "string \<Rightarrow> bool" where
  "valid_entry_id i \<longleftrightarrow> i \<noteq> [] \<and> utf8_valid i \<and> CHR ''/'' \<notin> set i"

lemma ascii_audit_prefixes: "ascii audit_key_prefix" "ascii feedback_key_prefix"
  by (simp_all add: ascii_def audit_key_prefix_def feedback_key_prefix_def code_def)

lemma id_from_audit_key:
  "valid_entry_id i \<Longrightarrow> id_from_key (audit_key i) audit_key_prefix = Inr i"
  by (simp add: id_from_key_def audit_key_def valid_entry_id_def utf8_valid_ascii_append
      ascii_audit_prefixes)

lemma id_from_feedback_key:
  "valid_entry_id i \<Longrightarrow> id_from_key (feedback_key i) feedback_key_prefix = Inr i"
  by (simp add: id_from_key_def feedback_key_def valid_entry_id_def utf8_valid_ascii_append
      ascii_audit_prefixes)

lemma require_kind_written [codec]:
  "fs ''kind'' = Some (VString k) \<Longrightarrow> require_kind fs k = Inr ()"
  by (simp add: require_kind_def codec)

lemma require_kind_other:
  "fs ''kind'' = Some (VString k) \<Longrightarrow> k \<noteq> k' \<Longrightarrow> require_kind fs k' = Inl (FieldErr ''kind'')"
  by (simp add: require_kind_def codec)

lemma audit_roundtrip:
  "valid_entry_id (ae_id e) \<Longrightarrow> audit_from_record (audit_to_record e) = Inr e"
  by (simp add: audit_from_record_def audit_to_record_def id_from_audit_key codec audit_names)

lemma feedback_roundtrip:
  "valid_entry_id (fb_id f) \<Longrightarrow> feedback_from_record (feedback_to_record f) = Inr f"
  by (simp add: feedback_from_record_def feedback_to_record_def id_from_feedback_key codec
      audit_names)

lemma resolution_roundtrip:
  "valid_entry_id (fr_id r) \<Longrightarrow> resolution_from_record (resolution_to_record r) = Inr r"
  by (simp add: resolution_from_record_def resolution_to_record_def id_from_feedback_key codec
      audit_names)

text \<open>
  The audit trail and its feedback survive the store: entries, feedback and resolutions are read
  back exactly as written, and although feedback and resolutions share one key prefix, a record of
  either kind is never read as the other.
\<close>

theorem audit_records_roundtrip:
  assumes "valid_entry_id (ae_id e)" and "valid_entry_id (fb_id f)" and "valid_entry_id (fr_id r)"
  shows "audit_from_record (audit_to_record e) = Inr e
    \<and> feedback_from_record (feedback_to_record f) = Inr f
    \<and> resolution_from_record (resolution_to_record r) = Inr r
    \<and> feedback_from_record (resolution_to_record r) = Inl (FieldErr ''kind'')
    \<and> resolution_from_record (feedback_to_record f) = Inl (FieldErr ''kind'')"
proof -
  have "feedback_from_record (resolution_to_record r) = Inl (FieldErr ''kind'')"
    using assms(3)
    by (simp add: feedback_from_record_def resolution_to_record_def id_from_feedback_key codec
        require_kind_other)
  moreover have "resolution_from_record (feedback_to_record f) = Inl (FieldErr ''kind'')"
    using assms(2)
    by (simp add: resolution_from_record_def feedback_to_record_def id_from_feedback_key codec
        require_kind_other)
  ultimately show ?thesis
    using assms by (simp add: audit_roundtrip feedback_roundtrip resolution_roundtrip)
qed

theorem audit_records_roundtrip_witness:
  "audit_from_record (audit_to_record example_audit_entry) = Inr example_audit_entry"
proof -
  have v: "valid_entry_id ''a1''"
    by (simp add: valid_entry_id_def ascii_utf8_valid ascii_def code_def)
  show ?thesis
    using audit_records_roundtrip [of example_audit_entry
        "\<lparr>fb_id = ''a1'', fb_tenant_id = ''t'', fb_audit_entry_id = ''a1'', fb_kind = Appeal,
          fb_reason_code = ''r'', fb_submitted_by = None, fb_submitted_at_ms = 1\<rparr>"
        "\<lparr>fr_id = ''a1'', fr_tenant_id = ''t'', fr_feedback_entry_id = ''a1'',
          fr_disposition = Upheld, fr_reason_code = ''r'', fr_reviewed_by = None,
          fr_resolved_at_ms = 1\<rparr>"] v
    by (simp add: example_audit_entry_def)
qed

end
