(* ===== verification/Identity.thy ===== *)
theory Identity
  imports Cognition_Types
begin

text \<open>
  \<open>identity.rs\<close> and \<open>embedding_space.rs\<close>: the validated identifiers of tenants, users, agents,
  projects, conversations and sessions, the provenance of a memory, and the identity of an
  embedding space. An identifier newtype is the string it wraps; \<open>identity_new\<close> is the only
  constructor, so \<open>valid_identity\<close> is the type invariant of every identifier in a state.
\<close>

section \<open>Validated identifiers\<close>

definition max_id_bytes :: nat where
  "max_id_bytes = 255"

record invalid_identity =
  id_kind :: string

definition valid_identity :: "string \<Rightarrow> bool" where
  "valid_identity s \<longleftrightarrow> s \<noteq> [] \<and> trim s = s \<and> length s \<le> max_id_bytes \<and> \<not> has_control s"

definition identity_new :: "string \<Rightarrow> string \<Rightarrow> invalid_identity + string" where
  "identity_new kind s =
     (if s = [] \<or> trim s \<noteq> s \<or> max_id_bytes < length s \<or> has_control s
      then Inl \<lparr>id_kind = kind\<rparr> else Inr s)"

lemma identity_new_Inr: "identity_new k s = Inr t \<longleftrightarrow> valid_identity s \<and> t = s"
  by (auto simp: identity_new_def valid_identity_def split: if_splits)

lemma identity_new_valid [codec]: "valid_identity s \<Longrightarrow> identity_new k s = Inr s"
  by (simp add: identity_new_Inr)

lemma valid_identity_local [simp]: "valid_identity ''local''"
  unfolding valid_identity_def has_control_def trim_def max_id_bytes_def
  by (simp add: char_width_def code_def is_whitespace_def is_control_def)

record memory_identity =
  tenant_id :: string
  user_id :: string
  agent_id :: "string option"
  project_id :: "string option"
  conversation_id :: "string option"
  session_id :: "string option"

record recall_scope =
  rs_tenant_id :: string
  rs_user_id :: string
  rs_project_id :: "string option"
  rs_conversation_id :: "string option"
  rs_session_id :: "string option"

definition memory_identity_local :: memory_identity where
  "memory_identity_local =
     \<lparr>tenant_id = ''local'', user_id = ''local'', agent_id = None, project_id = None,
      conversation_id = None, session_id = None\<rparr>"

definition recall_scope_local :: recall_scope where
  "recall_scope_local =
     \<lparr>rs_tenant_id = tenant_id memory_identity_local, rs_user_id = user_id memory_identity_local,
      rs_project_id = None, rs_conversation_id = None, rs_session_id = None\<rparr>"

definition wf_memory_identity :: "memory_identity \<Rightarrow> bool" where
  "wf_memory_identity i \<longleftrightarrow>
     valid_identity (tenant_id i) \<and> valid_identity (user_id i)
     \<and> pred_option valid_identity (agent_id i) \<and> pred_option valid_identity (project_id i)
     \<and> pred_option valid_identity (conversation_id i) \<and> pred_option valid_identity (session_id i)"

section \<open>Provenance\<close>

datatype source_kind = User | Assistant | Tool | Document | System | Benchmark | Legacy

fun source_kind_as_str :: "source_kind \<Rightarrow> string" where
  "source_kind_as_str User = ''user''"
| "source_kind_as_str Assistant = ''assistant''"
| "source_kind_as_str Tool = ''tool''"
| "source_kind_as_str Document = ''document''"
| "source_kind_as_str System = ''system''"
| "source_kind_as_str Benchmark = ''benchmark''"
| "source_kind_as_str Legacy = ''legacy''"

definition source_kind_parse :: "string \<Rightarrow> source_kind option" where
  "source_kind_parse s =
     (if s = ''user'' then Some User
      else if s = ''assistant'' then Some Assistant
      else if s = ''tool'' then Some Tool
      else if s = ''document'' then Some Document
      else if s = ''system'' then Some System
      else if s = ''benchmark'' then Some Benchmark
      else if s = ''legacy'' then Some Legacy
      else None)"

interpretation source_kind: enum_codec source_kind_as_str source_kind_parse
  by unfold_locales ((case_tac x; simp add: source_kind_parse_def),
    (auto simp: source_kind_parse_def split: if_splits))

record provenance =
  source_kind :: source_kind
  source_namespace :: "string option"
  source_id :: "string option"
  event_id :: "string option"
  turn_id :: "string option"
  source_uri :: "string option"
  actor :: "string option"
  content_hash :: string

text \<open>The digest \<open>b3\<close> is \<open>blake3::hash(_).to_hex()\<close>, a parameter of the model.\<close>

definition provenance_observed ::
  "(bytes \<Rightarrow> string) \<Rightarrow> source_kind \<Rightarrow> string \<Rightarrow> string option \<Rightarrow> string option \<Rightarrow> string option
   \<Rightarrow> provenance" where
  "provenance_observed b3 kind content sid uri act =
     \<lparr>source_kind = kind, source_namespace = None, source_id = sid, event_id = None,
      turn_id = None, source_uri = uri, actor = act, content_hash = b3 content\<rparr>"

definition provenance_legacy :: "(bytes \<Rightarrow> string) \<Rightarrow> string \<Rightarrow> provenance" where
  "provenance_legacy b3 content = provenance_observed b3 Legacy content None None None"

record remember_context =
  rc_identity :: memory_identity
  rc_provenance :: provenance
  rc_event_at_ms :: "i64 option"
  rc_ingested_at_ms :: i64

definition remember_context_local :: "(bytes \<Rightarrow> string) \<Rightarrow> string \<Rightarrow> i64 \<Rightarrow> remember_context" where
  "remember_context_local b3 content ingested =
     \<lparr>rc_identity = memory_identity_local,
      rc_provenance = provenance_observed b3 User content None None None,
      rc_event_at_ms = None, rc_ingested_at_ms = ingested\<rparr>"

section \<open>Embedding spaces\<close>

datatype invalid_embedding_space = SpaceText string | SpaceDimension

datatype embedding_normalization = L2

fun normalization_as_str :: "embedding_normalization \<Rightarrow> string" where
  "normalization_as_str L2 = ''l2''"

definition normalization_parse :: "string \<Rightarrow> embedding_normalization option" where
  "normalization_parse s = (if s = ''l2'' then Some L2 else None)"

interpretation normalization: enum_codec normalization_as_str normalization_parse
  by unfold_locales ((case_tac x; simp add: normalization_parse_def),
    (auto simp: normalization_parse_def split: if_splits))

record embedding_space =
  provider :: string
  model :: string
  revision :: string
  dimension :: u16
  normalization :: embedding_normalization

definition validate_text :: "string \<Rightarrow> string \<Rightarrow> invalid_embedding_space + string" where
  "validate_text s field =
     (if s = [] \<or> trim s \<noteq> s \<or> 255 < length s \<or> has_control s
      then Inl (SpaceText field) else Inr s)"

definition embedding_space_new ::
  "string \<Rightarrow> string \<Rightarrow> string \<Rightarrow> u16 \<Rightarrow> embedding_normalization
   \<Rightarrow> invalid_embedding_space + embedding_space" where
  "embedding_space_new p m r d n =
     r_bind (validate_text p ''provider'') (\<lambda>p.
     r_bind (validate_text m ''model'') (\<lambda>m.
     r_bind (validate_text r ''revision'') (\<lambda>r.
       if 1 \<le> unat d \<and> unat d \<le> 4096
       then Inr \<lparr>provider = p, model = m, revision = r, dimension = d, normalization = n\<rparr>
       else Inl SpaceDimension)))"

text \<open>The \<open>expect\<close> of the source is the \<open>None\<close> case.\<close>

definition embedding_space_deterministic :: "u16 \<Rightarrow> embedding_space option" where
  "embedding_space_deterministic d =
     (case embedding_space_new ''celiums'' ''deterministic-word-bigram-hash'' ''v1'' d L2 of
        Inl _ \<Rightarrow> None | Inr s \<Rightarrow> Some s)"

definition wf_embedding_space :: "embedding_space \<Rightarrow> bool" where
  "wf_embedding_space s \<longleftrightarrow>
     valid_identity (provider s) \<and> valid_identity (model s) \<and> valid_identity (revision s)
     \<and> 1 \<le> unat (dimension s) \<and> unat (dimension s) \<le> 4096"

definition embedding_space_key :: bytes where
  "embedding_space_key = ''__celiums/embedding_space''"

definition embedding_space_to_record :: "embedding_space \<Rightarrow> doc" where
  "embedding_space_to_record s =
     \<lparr>doc_key = embedding_space_key,
      doc_value = VObject
        [''kind'' \<mapsto> VString ''embedding_space'',
         ''provider'' \<mapsto> VString (provider s),
         ''model'' \<mapsto> VString (model s),
         ''revision'' \<mapsto> VString (revision s),
         ''dimension'' \<mapsto> VInteger (i64_of_u16 (dimension s)),
         ''normalization'' \<mapsto> VString (normalization_as_str (normalization s))]\<rparr>"

definition map_err :: "'f \<Rightarrow> 'e + 'a \<Rightarrow> 'f + 'a" where
  "map_err f r = (case r of Inl _ \<Rightarrow> Inl f | Inr x \<Rightarrow> Inr x)"

lemma map_err_simps [simp]: "map_err f (Inl e) = Inl f" "map_err f (Inr x) = Inr x"
  by (simp_all add: map_err_def)

lemma map_err_Inr [simp]: "map_err f r = Inr x \<longleftrightarrow> r = Inr x"
  by (cases r) simp_all

definition embedding_space_from_record :: "doc \<Rightarrow> embedding_space decoded" where
  "embedding_space_from_record rec =
     (case doc_value rec of
        VObject fs \<Rightarrow>
          r_bind (integer_field fs ''dimension'') (\<lambda>n.
          r_bind (ok_or (FieldErr ''dimension'') (u16_of_i64 n)) (\<lambda>d.
          r_bind (string_field fs ''normalization'') (\<lambda>nn.
          r_bind (ok_or (FieldErr ''normalization'') (normalization_parse nn)) (\<lambda>norm.
          r_bind (string_field fs ''provider'') (\<lambda>p.
          r_bind (string_field fs ''model'') (\<lambda>m.
          r_bind (string_field fs ''revision'') (\<lambda>r.
            map_err (FieldErr ''embedding_space'') (embedding_space_new p m r d norm))))))))
      | _ \<Rightarrow> Inl (FieldErr ''embedding_space''))"

lemma validate_text_Inr: "validate_text s f = Inr t \<longleftrightarrow> valid_identity s \<and> t = s"
  by (auto simp: validate_text_def valid_identity_def max_id_bytes_def split: if_splits)

lemma embedding_space_new_Inr:
  "embedding_space_new p m r d n = Inr s \<longleftrightarrow>
     s = \<lparr>provider = p, model = m, revision = r, dimension = d, normalization = n\<rparr>
     \<and> wf_embedding_space s"
  by (auto simp: embedding_space_new_def wf_embedding_space_def r_bind_Inr validate_text_Inr)

lemma embedding_space_new_wf [codec]:
  "wf_embedding_space s \<Longrightarrow>
   embedding_space_new (provider s) (model s) (revision s) (dimension s) (normalization s) = Inr s"
  by (simp add: embedding_space_new_Inr)

text \<open>A stored embedding space is read back as it was written.\<close>

lemma embedding_space_roundtrip:
  "wf_embedding_space s \<Longrightarrow> embedding_space_from_record (embedding_space_to_record s) = Inr s"
  by (simp add: embedding_space_from_record_def embedding_space_to_record_def codec
      normalization.of_to_name)

text \<open>Whatever the decoder accepts satisfies the constructor's checks.\<close>

lemma embedding_space_from_record_wf:
  "embedding_space_from_record rec = Inr s \<Longrightarrow> wf_embedding_space s"
  by (auto simp: embedding_space_from_record_def r_bind_Inr embedding_space_new_Inr
      split: val.splits)

section \<open>Scopes in documents\<close>

text \<open>
  The readers and writers \<open>claim.rs\<close>, \<open>ingestion.rs\<close>, \<open>derived.rs\<close> and \<open>graph.rs\<close> share: required
  fields with an explicit null, unsigned integers, identifiers and authorization scopes.
\<close>

definition required_integer_option :: "fields \<Rightarrow> string \<Rightarrow> i64 option decoded" where
  "required_integer_option fs f = (case fs f of
     Some VNull \<Rightarrow> Inr None
   | Some (VInteger n) \<Rightarrow> Inr (Some n)
   | _ \<Rightarrow> Inl (FieldErr f))"

definition unsigned_field :: "fields \<Rightarrow> string \<Rightarrow> u64 decoded" where
  "unsigned_field fs f = r_bind (integer_field fs f) (\<lambda>n. ok_or (FieldErr f) (u64_of_i64 n))"

definition checked_field :: "(string \<Rightarrow> bool) \<Rightarrow> fields \<Rightarrow> string \<Rightarrow> string \<Rightarrow> string decoded" where
  "checked_field ok fs f err =
     r_bind (string_field fs f) (\<lambda>s. if ok s then Inr s else Inl (FieldErr err))"

definition required_identity :: "fields \<Rightarrow> string \<Rightarrow> string option decoded" where
  "required_identity fs f =
     r_bind (required_string_option fs f) (\<lambda>o'. case o' of
       None \<Rightarrow> Inr None
     | Some s \<Rightarrow> if valid_identity s then Inr (Some s) else Inl (FieldErr f))"

definition scope_fields :: "recall_scope \<Rightarrow> fields" where
  "scope_fields sc =
     [''tenant_id'' \<mapsto> VString (rs_tenant_id sc), ''user_id'' \<mapsto> VString (rs_user_id sc),
      ''project_id'' \<mapsto> opt_string (rs_project_id sc),
      ''conversation_id'' \<mapsto> opt_string (rs_conversation_id sc),
      ''session_id'' \<mapsto> opt_string (rs_session_id sc)]"

text \<open>\<open>tenant_err\<close> and \<open>user_err\<close>: the field the two decoders name for an invalid owner.\<close>

definition scope_from_fields :: "string \<Rightarrow> string \<Rightarrow> fields \<Rightarrow> recall_scope decoded" where
  "scope_from_fields tenant_err user_err fs =
     r_bind (checked_field valid_identity fs ''tenant_id'' tenant_err) (\<lambda>t.
     r_bind (checked_field valid_identity fs ''user_id'' user_err) (\<lambda>u.
     r_bind (required_identity fs ''project_id'') (\<lambda>p.
     r_bind (required_identity fs ''conversation_id'') (\<lambda>c.
     r_bind (required_identity fs ''session_id'') (\<lambda>s.
       Inr \<lparr>rs_tenant_id = t, rs_user_id = u, rs_project_id = p, rs_conversation_id = c,
            rs_session_id = s\<rparr>)))))"

definition wf_scope :: "recall_scope \<Rightarrow> bool" where
  "wf_scope sc \<longleftrightarrow>
     valid_identity (rs_tenant_id sc) \<and> valid_identity (rs_user_id sc)
     \<and> pred_option valid_identity (rs_project_id sc)
     \<and> pred_option valid_identity (rs_conversation_id sc)
     \<and> pred_option valid_identity (rs_session_id sc)"

section \<open>Reading what was written\<close>

lemma read_required_integer [codec]:
  "fs f = Some (opt_integer o') \<Longrightarrow> required_integer_option fs f = Inr o'"
  by (cases o') (simp_all add: required_integer_option_def opt_integer_def)

lemma read_checked [codec]: "fs f = Some (VString s) \<Longrightarrow> ok s \<Longrightarrow> checked_field ok fs f e = Inr s"
  by (simp add: checked_field_def string_field_def)

lemma read_identity [codec]:
  "fs f = Some (opt_string o') \<Longrightarrow> pred_option valid_identity o' \<Longrightarrow> required_identity fs f = Inr o'"
  by (cases o') (simp_all add: required_identity_def read_required_string)

text \<open>A counter is stored as an \<open>i64\<close> and saturates there.\<close>

definition u64_sat :: "u64 \<Rightarrow> u64" where
  "u64_sat n = (if uint n < 2 ^ 63 then n else i64_max)"

lemma read_unsigned [codec]:
  "fs f = Some (VInteger (i64_of_u64_sat n)) \<Longrightarrow> unsigned_field fs f = Inr (u64_sat n)"
  by (simp add: unsigned_field_def integer_field_def u64_of_i64_of_u64_sat u64_sat_def)

lemma scope_roundtrip:
  assumes "wf_scope sc"
    and "fs ''tenant_id'' = Some (VString (rs_tenant_id sc))"
    and "fs ''user_id'' = Some (VString (rs_user_id sc))"
    and "fs ''project_id'' = Some (opt_string (rs_project_id sc))"
    and "fs ''conversation_id'' = Some (opt_string (rs_conversation_id sc))"
    and "fs ''session_id'' = Some (opt_string (rs_session_id sc))"
  shows "scope_from_fields te ue fs = Inr sc"
  using assms by (simp add: scope_from_fields_def wf_scope_def codec)

lemma scope_fields_lookup [simp]:
  "scope_fields sc ''tenant_id'' = Some (VString (rs_tenant_id sc))"
  "scope_fields sc ''user_id'' = Some (VString (rs_user_id sc))"
  "scope_fields sc ''project_id'' = Some (opt_string (rs_project_id sc))"
  "scope_fields sc ''conversation_id'' = Some (opt_string (rs_conversation_id sc))"
  "scope_fields sc ''session_id'' = Some (opt_string (rs_session_id sc))"
  by (simp_all add: scope_fields_def)

lemma scope_fields_roundtrip: "wf_scope sc \<Longrightarrow> scope_from_fields te ue (scope_fields sc) = Inr sc"
  by (rule scope_roundtrip) simp_all

end
