(* ===== verification/Audit_Engine.thy ===== *)
theory Audit_Engine
  imports Audit_Integrity Engine_Result Identity
begin

text \<open>
  The audit operations of \<open>engine.rs\<close>: \<open>append_audit\<close>, \<open>audit_entries\<close>, \<open>audit_verify_chain\<close>,
  \<open>submit_ethics_feedback\<close> and \<open>resolve_ethics_feedback\<close>, and the parts of \<open>evaluate_action\<close>, which
  \<open>Audit_Runs\<close> puts together with the ethics evaluation. The engine is bound to one tenant.
  Parameters: the store \<open>H\<close>, the digest \<open>b3\<close> and the new entry id of \<open>Uuid::now_v7\<close>.
\<close>

section \<open>Names\<close>

fun treatment_name :: "treatment \<Rightarrow> string" where
  "treatment_name Treatment_Normal = ''normal''"
| "treatment_name Treatment_Sensitive = ''sensitive''"
| "treatment_name Treatment_Restricted = ''restricted''"
| "treatment_name Treatment_Quarantined = ''quarantined''"

fun purpose_name :: "memory_purpose \<Rightarrow> string" where
  "purpose_name ConversationalContext = ''conversational_context''"
| "purpose_name Personalization = ''personalization''"
| "purpose_name TaskExecution = ''task_execution''"
| "purpose_name SafetyAudit = ''safety_audit''"

fun audit_decision_for_enforcement :: "enforcement_decision \<Rightarrow> audit_decision" where
  "audit_decision_for_enforcement Enforce_Allow = Audit_Allow"
| "audit_decision_for_enforcement Enforce_AllowRestricted = Audit_Restrict"
| "audit_decision_for_enforcement Enforce_Reject = Audit_Reject"
| "audit_decision_for_enforcement Enforce_Quarantine = Audit_Quarantine"

definition governance_reason_codes :: "governance_classification \<Rightarrow> string list" where
  "governance_reason_codes g =
     (if ethics_enforcement_blocked (gov_trace g) then [''ethics_enforcement''] else [])
     @ (if gov_poisoning_risk g \<noteq> Poisoning_None then [''memory_poisoning''] else [])
     @ (if pii (gov_trace g) \<noteq> [] then [''pii''] else [])
     @ (if secrets (gov_trace g) \<noteq> [] then [''secret''] else [])"

definition source_trust_of :: "remember_context option \<Rightarrow> source_trust" where
  "source_trust_of ctx = (case map_option (source_kind \<circ> rc_provenance) ctx of
     Some User \<Rightarrow> Source_UserProvided
   | Some System \<Rightarrow> Source_Trusted
   | Some _ \<Rightarrow> Source_External
   | None \<Rightarrow> Source_UserProvided)"

section \<open>The audit trail\<close>

definition audit_entries ::
  "('s, 'c, 'e) hyphae \<Rightarrow> 's \<Rightarrow> ('e, audit_entry list) outcome" where
  "audit_entries H s =
     m_bind (from_scan (scan_prefix H s audit_key_prefix)) (\<lambda>records.
       from_decode (r_collect audit_from_record records))"

definition audit_verify_chain ::
  "('s, 'c, 'e) hyphae \<Rightarrow> (bytes \<Rightarrow> string) \<Rightarrow> 's \<Rightarrow> string \<Rightarrow> ('e, audit_chain_report) outcome" where
  "audit_verify_chain H b3 s tenant =
     m_bind (audit_entries H s) (\<lambda>es. m_return (verify_audit_chain b3 tenant es))"

definition new_audit ::
  "string \<Rightarrow> string \<Rightarrow> governed_operation \<Rightarrow> string \<Rightarrow> string option \<Rightarrow> memory_purpose
   \<Rightarrow> treatment \<Rightarrow> audit_decision \<Rightarrow> string list \<Rightarrow> i64 \<Rightarrow> string option \<Rightarrow> audit_entry" where
  "new_audit tenant i op subject digest purpose treat dec reasons now previous =
     \<lparr>ae_id = i, ae_tenant_id = tenant, ae_operation = op, ae_subject_id = subject,
      ae_content_digest = digest, ae_purpose = purpose_name purpose,
      ae_treatment = treatment_name treat, ae_policy_id = governance_policy_id,
      ae_policy_version = governance_policy_version, ae_decision = dec,
      ae_reason_codes = reasons, ae_review_state = Unreviewed, ae_actor_id = None,
      ae_occurred_at_ms = now, ae_previous_hash = previous, ae_hash = ''''\<rparr>"

definition append_audit ::
  "('s, 'c, 'e) hyphae \<Rightarrow> (bytes \<Rightarrow> string) \<Rightarrow> string \<Rightarrow> 's \<Rightarrow> string \<Rightarrow> governed_operation \<Rightarrow> string
   \<Rightarrow> string option \<Rightarrow> memory_purpose \<Rightarrow> treatment \<Rightarrow> audit_decision \<Rightarrow> string list \<Rightarrow> i64
   \<Rightarrow> ('e, audit_entry \<times> 's) outcome" where
  "append_audit H b3 tenant s i op subject digest purpose treat dec reasons now =
     m_bind (audit_entries H s) (\<lambda>es.
     let previous = (if es = [] then None else Some (ae_hash (last es)));
         e = new_audit tenant i op subject digest purpose treat dec reasons now previous;
         e = e\<lparr>ae_hash := compute_hash b3 e\<rparr>
     in m_bind (from_store (hy_put H s (audit_to_record e))) (\<lambda>s'. m_return (e, s')))"

record action_decision =
  ad_allowed :: bool
  ad_governance :: governance_classification
  ad_audit :: audit_entry

definition action_context ::
  "(bytes \<Rightarrow> string) \<Rightarrow> bytes \<Rightarrow> source_kind \<Rightarrow> i64 \<Rightarrow> remember_context" where
  "action_context b3 content kind now =
     \<lparr>rc_identity = memory_identity_local,
      rc_provenance = provenance_observed b3 kind content None None None,
      rc_event_at_ms = None, rc_ingested_at_ms = now\<rparr>"

definition submit_ethics_feedback ::
  "('s, 'c, 'e) hyphae \<Rightarrow> string \<Rightarrow> 's \<Rightarrow> string \<Rightarrow> string \<Rightarrow> feedback_kind \<Rightarrow> string
   \<Rightarrow> string option \<Rightarrow> i64 \<Rightarrow> ('e, feedback_entry \<times> 's) outcome" where
  "submit_ethics_feedback H tenant s i audit_id kind reason submitter now =
     (let f = \<lparr>fb_id = i, fb_tenant_id = tenant, fb_audit_entry_id = audit_id, fb_kind = kind,
               fb_reason_code = reason, fb_submitted_by = submitter, fb_submitted_at_ms = now\<rparr>
      in m_bind (from_store (hy_put H s (feedback_to_record f))) (\<lambda>s'. m_return (f, s')))"

definition resolve_ethics_feedback ::
  "('s, 'c, 'e) hyphae \<Rightarrow> string \<Rightarrow> 's \<Rightarrow> string \<Rightarrow> string \<Rightarrow> review_disposition \<Rightarrow> string
   \<Rightarrow> string option \<Rightarrow> i64 \<Rightarrow> ('e, feedback_resolution \<times> 's) outcome" where
  "resolve_ethics_feedback H tenant s i feedback_id disp reason reviewer now =
     (let r = \<lparr>fr_id = i, fr_tenant_id = tenant, fr_feedback_entry_id = feedback_id,
               fr_disposition = disp, fr_reason_code = reason, fr_reviewed_by = reviewer,
               fr_resolved_at_ms = now\<rparr>
      in m_bind (from_store (hy_put H s (resolution_to_record r))) (\<lambda>s'. m_return (r, s')))"

definition ethics_feedback_records ::
  "('s, 'c, 'e) hyphae \<Rightarrow> 's \<Rightarrow> ('e, doc list) outcome" where
  "ethics_feedback_records H s = from_scan (scan_prefix H s feedback_key_prefix)"

section \<open>Appending\<close>

lemma audit_entries_Inr:
  assumes "faithful_store H valid rows rest" and "valid s" and "audit_entries H s = Some (Inr es)"
  shows "r_collect audit_from_record (filter (has_prefix audit_key_prefix) (rows s)) = Inr es"
  using assms scan_prefix_Inr [OF assms(1,2)] by (auto simp: audit_entries_def m_bind_Inr)

lemma audit_entries_ok:
  assumes "faithful_store H valid rows rest" and "valid s"
    and "r_collect audit_from_record (filter (has_prefix audit_key_prefix) (rows s)) = Inr es"
  shows "ok_or_hyphae (audit_entries H s) (\<lambda>x. x = es)"
  unfolding audit_entries_def
  by (rule ok_or_hyphae_bind [OF scan_ok [OF assms(1,2)]]) (simp add: assms(3) from_decode_def)

definition newest_audit_id :: "doc list \<Rightarrow> string \<Rightarrow> bool" where
  "newest_audit_id ds i \<longleftrightarrow>
     (\<forall>d\<in>set ds. prefix audit_key_prefix (doc_key d) \<longrightarrow> doc_key d < audit_key i)"

lemma append_audit_Inr:
  assumes "append_audit H b3 tenant s i op subject digest purpose treat dec reasons now
    = Some (Inr (e, s'))"
  shows "\<exists>es. audit_entries H s = Some (Inr es)
    \<and> ae_id e = i \<and> ae_tenant_id e = tenant \<and> ae_operation e = op \<and> ae_subject_id e = subject
    \<and> ae_content_digest e = digest \<and> ae_purpose e = purpose_name purpose
    \<and> ae_treatment e = treatment_name treat \<and> ae_decision e = dec \<and> ae_reason_codes e = reasons
    \<and> ae_occurred_at_ms e = now
    \<and> ae_previous_hash e = head_hash ae_hash None es \<and> ae_hash e = b3 (audit_preimage e)
    \<and> hy_put H s (audit_to_record e) = Inr s'"
proof -
  obtain es where es: "audit_entries H s = Some (Inr es)"
    and e: "e = (new_audit tenant i op subject digest purpose treat dec reasons now
        (if es = [] then None else Some (ae_hash (last es))))
        \<lparr>ae_hash := compute_hash b3 (new_audit tenant i op subject digest purpose treat dec reasons
          now (if es = [] then None else Some (ae_hash (last es))))\<rparr>"
    and put: "hy_put H s (audit_to_record e) = Inr s'"
    using assms unfolding append_audit_def m_bind_Inr Let_def m_return_Inr prod.inject from_store_Inr
    by metis
  show ?thesis
  proof (intro exI [of _ es] conjI)
    show "ae_hash e = b3 (audit_preimage e)"
      by (simp only: e preimage_hash_irrelevant compute_hash_def) simp
  qed (simp_all add: es put, simp_all add: e new_audit_def head_hash_def)
qed

lemma append_audit_appends:
  assumes F: "faithful_store H valid rows rest" and v: "valid s" and i: "valid_entry_id i"
    and n: "newest_audit_id (rows s) i"
    and a: "append_audit H b3 tenant s i op subject digest purpose treat dec reasons now
      = Some (Inr (e, s'))"
    and es: "r_collect audit_from_record (filter (has_prefix audit_key_prefix) (rows s)) = Inr es"
  shows "valid s'"
    and "r_collect audit_from_record (filter (has_prefix audit_key_prefix) (rows s')) = Inr (es @ [e])"
    and "ae_previous_hash e = head_hash ae_hash None es"
proof -
  obtain fs where fs: "audit_entries H s = Some (Inr fs)" and id: "ae_id e = i"
    and p: "ae_previous_hash e = head_hash ae_hash None fs"
    and put: "hy_put H s (audit_to_record e) = Inr s'"
    using append_audit_Inr [OF a] by (elim exE conjE) (rule that)
  have "fs = es" using audit_entries_Inr [OF F v fs] es by simp
  with p show "ae_previous_hash e = head_hash ae_hash None es" by simp
  note s' = faithful_storeD(3) [OF F v put]
  then show "valid s'" by (rule conjunct1)
  have key: "doc_key (audit_to_record e) = audit_key i" by (simp add: audit_to_record_def id)
  have sc: "filter (has_prefix audit_key_prefix) (rows s')
      = filter (has_prefix audit_key_prefix) (rows s) @ [audit_to_record e]"
  proof (rule scan_after_append [of rows s' _ s, OF conjunct2 [OF s'] faithful_storeD(1) [OF F v]])
    show "prefix audit_key_prefix (doc_key (audit_to_record e))" by (simp add: key audit_key_def)
    show "\<forall>d\<in>set (rows s). prefix audit_key_prefix (doc_key d)
        \<longrightarrow> doc_key d < doc_key (audit_to_record e)"
      using n by (simp add: key newest_audit_id_def)
  qed
  have "audit_from_record (audit_to_record e) = Inr e"
    by (rule audit_roundtrip) (simp add: id i)
  then show "r_collect audit_from_record (filter (has_prefix audit_key_prefix) (rows s')) = Inr (es @ [e])"
    unfolding sc by (simp add: r_collect_append es)
qed

lemma chain_after_append:
  assumes "acr_valid (verify_audit_chain b3 tenant es)" and "ae_tenant_id e = tenant"
    and "ae_previous_hash e = head_hash ae_hash None es" and "ae_hash e = b3 (audit_preimage e)"
  shows "acr_valid (verify_audit_chain b3 tenant (es @ [e]))"
  using assms by (simp add: verify_valid_iff chain_ok_append)

end
