(* ===== verification/Float_Arith.thy ===== *)
theory Float_Arith
  imports Rust_Text
begin

text \<open>
  Arithmetic on \<open>f64\<close> values as the cognition crate uses it: exact on finite values (rounding, the
  overflow of finite operations and the sign of zero are abstracted away), with the infinities and
  NaN as IEEE 754 and Rust's \<open>min\<close>, \<open>max\<close> and comparisons treat them. A NaN operand of \<open>min\<close> and
  \<open>max\<close> is ignored, and every comparison with NaN is false.
\<close>

section \<open>Operations\<close>

instantiation f64 :: "{plus, minus, uminus, times, inverse, ord}"
begin

fun plus_f64 :: "f64 \<Rightarrow> f64 \<Rightarrow> f64" where
  "plus_f64 (Fin a) (Fin b) = Fin (a + b)"
| "plus_f64 NaN _ = NaN"
| "plus_f64 _ NaN = NaN"
| "plus_f64 PosInf NegInf = NaN"
| "plus_f64 NegInf PosInf = NaN"
| "plus_f64 PosInf _ = PosInf"
| "plus_f64 _ PosInf = PosInf"
| "plus_f64 NegInf _ = NegInf"
| "plus_f64 _ NegInf = NegInf"

fun uminus_f64 :: "f64 \<Rightarrow> f64" where
  "uminus_f64 (Fin a) = Fin (- a)"
| "uminus_f64 PosInf = NegInf"
| "uminus_f64 NegInf = PosInf"
| "uminus_f64 NaN = NaN"

definition minus_f64 :: "f64 \<Rightarrow> f64 \<Rightarrow> f64" where
  "minus_f64 a b = a + - b"

text \<open>An infinity times a finite number takes the sign of the number; times zero it is NaN.\<close>

definition signed_inf :: "real \<Rightarrow> f64" where
  "signed_inf r = (if r = 0 then NaN else if 0 < r then PosInf else NegInf)"

fun times_f64 :: "f64 \<Rightarrow> f64 \<Rightarrow> f64" where
  "times_f64 (Fin a) (Fin b) = Fin (a * b)"
| "times_f64 NaN _ = NaN"
| "times_f64 _ NaN = NaN"
| "times_f64 PosInf (Fin b) = signed_inf b"
| "times_f64 (Fin a) PosInf = signed_inf a"
| "times_f64 NegInf (Fin b) = signed_inf (- b)"
| "times_f64 (Fin a) NegInf = signed_inf (- a)"
| "times_f64 PosInf PosInf = PosInf"
| "times_f64 NegInf NegInf = PosInf"
| "times_f64 PosInf NegInf = NegInf"
| "times_f64 NegInf PosInf = NegInf"

fun divide_f64 :: "f64 \<Rightarrow> f64 \<Rightarrow> f64" where
  "divide_f64 (Fin a) (Fin b) = (if b = 0 then signed_inf a else Fin (a / b))"
| "divide_f64 NaN _ = NaN"
| "divide_f64 _ NaN = NaN"
| "divide_f64 (Fin a) _ = Fin 0"
| "divide_f64 PosInf (Fin b) = (if b < 0 then NegInf else PosInf)"
| "divide_f64 NegInf (Fin b) = (if b < 0 then PosInf else NegInf)"
| "divide_f64 _ _ = NaN"

definition inverse_f64 :: "f64 \<Rightarrow> f64" where
  "inverse_f64 a = divide (Fin 1) a"

fun less_f64 :: "f64 \<Rightarrow> f64 \<Rightarrow> bool" where
  "less_f64 (Fin a) (Fin b) = (a < b)"
| "less_f64 (Fin a) PosInf = True"
| "less_f64 NegInf (Fin b) = True"
| "less_f64 NegInf PosInf = True"
| "less_f64 _ _ = False"

fun less_eq_f64 :: "f64 \<Rightarrow> f64 \<Rightarrow> bool" where
  "less_eq_f64 (Fin a) (Fin b) = (a \<le> b)"
| "less_eq_f64 NaN _ = False"
| "less_eq_f64 _ NaN = False"
| "less_eq_f64 NegInf _ = True"
| "less_eq_f64 _ PosInf = True"
| "less_eq_f64 _ _ = False"

instance ..

end

fun f64_max :: "f64 \<Rightarrow> f64 \<Rightarrow> f64" where
  "f64_max NaN b = b"
| "f64_max a NaN = a"
| "f64_max a b = (if a < b then b else a)"

fun f64_min :: "f64 \<Rightarrow> f64 \<Rightarrow> f64" where
  "f64_min NaN b = b"
| "f64_min a NaN = a"
| "f64_min a b = (if b < a then b else a)"

fun f64_abs :: "f64 \<Rightarrow> f64" where
  "f64_abs (Fin a) = Fin \<bar>a\<bar>"
| "f64_abs NaN = NaN"
| "f64_abs _ = PosInf"

fun f64_exp :: "f64 \<Rightarrow> f64" where
  "f64_exp (Fin a) = Fin (exp a)"
| "f64_exp PosInf = PosInf"
| "f64_exp NegInf = Fin 0"
| "f64_exp NaN = NaN"

text \<open>\<open>b.powf(x)\<close> for a base between 0 and 1.\<close>

fun f64_powf :: "real \<Rightarrow> f64 \<Rightarrow> f64" where
  "f64_powf b (Fin x) = Fin (b powr x)"
| "f64_powf b PosInf = Fin 0"
| "f64_powf b NegInf = PosInf"
| "f64_powf b NaN = NaN"

fun f64_sqrt :: "f64 \<Rightarrow> f64" where
  "f64_sqrt (Fin a) = (if a < 0 then NaN else Fin (sqrt a))"
| "f64_sqrt PosInf = PosInf"
| "f64_sqrt _ = NaN"

fun f64_cos :: "f64 \<Rightarrow> f64" where
  "f64_cos (Fin a) = Fin (cos a)"
| "f64_cos _ = NaN"

fun f64_sin :: "f64 \<Rightarrow> f64" where
  "f64_sin (Fin a) = Fin (sin a)"
| "f64_sin _ = NaN"

text \<open>\<open>clamp\<close> of \<open>celiums-cognition\<close>, \<open>value.max(low).min(high)\<close>: unlike \<open>f64::clamp\<close> it turns NaN
  into a bound.\<close>

definition pad_clamp :: "f64 \<Rightarrow> real \<Rightarrow> real \<Rightarrow> f64" where
  "pad_clamp x lo hi = f64_min (f64_max x (Fin lo)) (Fin hi)"

section \<open>Facts\<close>

lemma minus_Fin [simp]: "Fin a - Fin b = Fin (a - b)"
  by (simp add: minus_f64_def)

lemma f64_minmax_Fin [simp]:
  "f64_max (Fin a) (Fin b) = Fin (max a b)" "f64_min (Fin a) (Fin b) = Fin (min a b)"
  by (simp_all add: max_def min_def)

lemma pad_clamp_Fin [simp]: "lo \<le> hi \<Longrightarrow> pad_clamp (Fin r) lo hi = Fin (min (max r lo) hi)"
  by (simp add: pad_clamp_def)

text \<open>\<open>ranged lo hi x\<close>: the value is a number between the bounds.\<close>

definition ranged :: "real \<Rightarrow> real \<Rightarrow> f64 \<Rightarrow> bool" where
  "ranged lo hi x \<longleftrightarrow> (\<exists>r. x = Fin r \<and> lo \<le> r \<and> r \<le> hi)"

named_theorems float_bounds "values stay between bounds"

lemma ranged_Fin [simp]: "ranged lo hi (Fin r) \<longleftrightarrow> lo \<le> r \<and> r \<le> hi"
  by (simp add: ranged_def)

lemma pad_clamp_ranged [float_bounds]: "lo \<le> hi \<Longrightarrow> ranged lo hi (pad_clamp x lo hi)"
  by (cases x) (simp_all add: pad_clamp_def ranged_def)

lemma f64_clamp_ranged: "lo \<le> hi \<Longrightarrow> x \<noteq> NaN \<Longrightarrow> ranged lo hi (f64_clamp x lo hi)"
  by (cases x) (simp_all add: ranged_def)

lemma ranged_obtain:
  assumes "ranged lo hi x"
  obtains r where "x = Fin r" and "lo \<le> r" and "r \<le> hi"
  using assms by (auto simp: ranged_def)

lemma f64_min_upper [float_bounds]: "ranged lo hi x \<Longrightarrow> 0 \<le> hi \<Longrightarrow> ranged lo hi (f64_min x (Fin hi))"
  by (auto simp: ranged_def)

end
