(* ===== verification/Ethics.thy ===== *)
theory Ethics
  imports Governance Float_Arith "HOL-Library.List_Lexorder" "HOL-Library.Char_ord"
begin

text \<open>
  Layer A of the ethics evaluation (\<open>ethics.rs\<close> with \<open>ethics_structural.rs\<close>): the lexicon with its
  suppression cascade, the category thresholds, the escape hatches and the structural detector. The
  regular expressions (run by a third-party engine), Unicode lower-casing and the Unicode class of
  letters and digits outside ASCII are the fields of a parameter record; tables and formulas are the
  code's. A search that may not end on an empty pattern is a \<open>partial_function\<close>.
\<close>

section \<open>Categories\<close>

datatype ethics_category =
  ViolenceHarm | ChildSafety | HateSpeech | SelfHarm | SexualContent | Deception | IllegalActivities | Misinformation | Privacy | Cybersecurity | Autonomy | SystemOverride

fun category_as_str :: "ethics_category \<Rightarrow> string" where
  "category_as_str ViolenceHarm = ''violence_harm''"
| "category_as_str ChildSafety = ''child_safety''"
| "category_as_str HateSpeech = ''hate_speech''"
| "category_as_str SelfHarm = ''self_harm''"
| "category_as_str SexualContent = ''sexual_content''"
| "category_as_str Deception = ''deception''"
| "category_as_str IllegalActivities = ''illegal_activities''"
| "category_as_str Misinformation = ''misinformation''"
| "category_as_str Privacy = ''privacy''"
| "category_as_str Cybersecurity = ''cybersecurity''"
| "category_as_str Autonomy = ''autonomy''"
| "category_as_str SystemOverride = ''system_override''"

text \<open>The weights from which a category is violated and blocked.\<close>

fun thresholds :: "ethics_category \<Rightarrow> real \<times> real" where
  "thresholds ChildSafety = (0.3, 0.7)"
| "thresholds SexualContent = (0.35, 0.75)"
| "thresholds ViolenceHarm = (0.4, 0.8)"
| "thresholds SystemOverride = (0.35, 0.8)"
| "thresholds SelfHarm = (0.35, 0.75)"
| "thresholds HateSpeech = (0.4, 0.8)"
| "thresholds IllegalActivities = (0.4, 0.8)"
| "thresholds Cybersecurity = (0.45, 0.85)"
| "thresholds Deception = (0.45, 0.85)"
| "thresholds Privacy = (0.45, 0.85)"
| "thresholds Misinformation = (0.45, 0.85)"
| "thresholds Autonomy = (0.5, 0.9)"

definition is_catastrophic :: "ethics_category \<Rightarrow> bool" where
  "is_catastrophic c \<longleftrightarrow>
     c \<in> {ChildSafety, SexualContent, SelfHarm, ViolenceHarm, HateSpeech, IllegalActivities}"

section \<open>The lexicon\<close>

record lexicon_entry =
  lx_term :: string
  lx_category :: ethics_category
  lx_weight :: real
  lx_living_target :: bool
  lx_technical :: bool

definition lex :: "string \<Rightarrow> ethics_category \<Rightarrow> real \<Rightarrow> bool \<Rightarrow> bool \<Rightarrow> lexicon_entry" where
  "lex t c w living technical =
     \<lparr>lx_term = t, lx_category = c, lx_weight = w, lx_living_target = living, lx_technical = technical\<rparr>"

definition lexicon :: "lexicon_entry list" where
  "lexicon =
     [lex ''kill'' ViolenceHarm 0.7 True True, lex ''murder'' ViolenceHarm 0.95 False False,
      lex ''torture'' ViolenceHarm 0.9 False False, lex ''stab'' ViolenceHarm 0.85 True False,
      lex ''genocide'' ViolenceHarm 0.98 False False, lex ''matar'' ViolenceHarm 0.85 True True,
      lex ''asesinar'' ViolenceHarm 0.95 False False, lex ''torturar'' ViolenceHarm 0.9 False False,
      lex ''secuestrar'' ViolenceHarm 0.9 False False, lex ''genocidio'' ViolenceHarm 0.98 False False,
      lex ''child abuse'' ChildSafety 0.98 False False,
      lex ''pedophilia'' ChildSafety 0.98 False False, lex ''csam'' ChildSafety 0.98 False False,
      lex ''child predator'' ChildSafety 0.95 False False,
      lex ''abuso infantil'' ChildSafety 0.98 False False,
      lex ''pedofilia'' ChildSafety 0.98 False False, lex ''hate speech'' HateSpeech 0.85 False False,
      lex ''racist'' HateSpeech 0.8 False False, lex ''ethnic cleansing'' HateSpeech 0.95 False False,
      lex ''subhuman'' HateSpeech 0.85 False False, lex ''racista'' HateSpeech 0.8 False False,
      lex ''limpieza etnica'' HateSpeech 0.95 False False,
      lex ''kill myself'' SelfHarm 0.92 False False, lex ''end my life'' SelfHarm 0.9 False False,
      lex ''suicide'' SelfHarm 0.7 False True, lex ''suicidio'' SelfHarm 0.7 False True,
      lex ''autolesion'' SelfHarm 0.85 False False, lex ''cortarme'' SelfHarm 0.8 False False,
      lex ''rape'' SexualContent 0.95 False False,
      lex ''sexual assault'' SexualContent 0.9 False False,
      lex ''revenge porn'' SexualContent 0.88 False False,
      lex ''violacion'' SexualContent 0.95 False False, lex ''violar'' SexualContent 0.95 False False,
      lex ''phishing'' Deception 0.85 False False, lex ''blackmail'' Deception 0.8 False False,
      lex ''identity theft'' Deception 0.85 False False, lex ''estafa'' Deception 0.75 False False,
      lex ''chantaje'' Deception 0.75 False False, lex ''extorsion'' Deception 0.8 False False,
      lex ''human trafficking'' IllegalActivities 0.95 False False,
      lex ''money laundering'' IllegalActivities 0.8 False False,
      lex ''cook meth'' IllegalActivities 0.88 False False,
      lex ''hitman'' IllegalActivities 0.85 False False,
      lex ''trata de personas'' IllegalActivities 0.95 False False,
      lex ''lavado de dinero'' IllegalActivities 0.8 False False,
      lex ''sicario'' IllegalActivities 0.85 False False,
      lex ''deepfake'' Misinformation 0.75 False False,
      lex ''disinformation'' Misinformation 0.7 False False,
      lex ''desinformacion'' Misinformation 0.7 False False, lex ''doxxing'' Privacy 0.85 False False,
      lex ''keylog'' Privacy 0.75 False False, lex ''wiretap'' Privacy 0.7 False False,
      lex ''doxxear'' Privacy 0.85 False False, lex ''doxear'' Privacy 0.85 False False,
      lex ''ransomware'' Cybersecurity 0.85 False False, lex ''malware'' Cybersecurity 0.8 False False,
      lex ''keylogger'' Cybersecurity 0.8 False False, lex ''rootkit'' Cybersecurity 0.8 False False,
      lex ''exploit'' Cybersecurity 0.65 False True, lex ''troyano'' Cybersecurity 0.75 False False,
      lex ''hackear'' Cybersecurity 0.65 False True, lex ''brainwash'' Autonomy 0.75 False False,
      lex ''mind control'' Autonomy 0.75 False False, lex ''gaslight'' Autonomy 0.65 False False,
      lex ''lavado cerebral'' Autonomy 0.75 False False,
      lex ''jailbreak'' SystemOverride 0.9 False True, lex ''dan mode'' SystemOverride 0.9 False True,
      lex ''bypass ethics'' SystemOverride 0.9 False True,
      lex ''override safety'' SystemOverride 0.9 False True,
      lex ''prompt injection'' SystemOverride 0.85 False True,
      lex ''ignora tus reglas'' SystemOverride 0.85 False True,
      lex ''sin restricciones'' SystemOverride 0.82 False True]"

definition meta_suppression :: f64 where
  "meta_suppression = Fin 0.03"

definition technical_suppression :: f64 where
  "technical_suppression = Fin 0.1"

definition non_living_suppression :: f64 where
  "non_living_suppression = Fin 0.1"

definition catastrophic_floor :: f64 where
  "catastrophic_floor = Fin 0.95"

section \<open>Results\<close>

record ethics_flag =
  fl_term :: string
  fl_category :: ethics_category
  fl_raw_weight :: f64
  fl_effective_weight :: f64
  fl_suppressed :: bool

record ethics_violation =
  vi_category :: ethics_category
  vi_confidence :: f64
  vi_blocked :: bool

record evaluation =
  el_passed :: bool
  el_violations :: "ethics_violation list"
  el_flags :: "ethics_flag list"
  el_enforcement_blocked :: bool
  el_meta_context :: bool
  el_technical_context :: bool
  el_arousal :: f64
  el_alarms :: "(string \<times> f64) list"
  el_confidence :: f64

section \<open>Parameters\<close>

datatype language = En | Es

record ethics_patterns =
  ep_lower :: "bytes \<Rightarrow> bytes"
  ep_alphanumeric :: "bytes \<Rightarrow> bool"
  ep_technical :: "(bytes \<Rightarrow> bool) list"
  ep_meta :: "(bytes \<Rightarrow> bool) list"
  ep_living :: "(bytes \<Rightarrow> bool) list"
  ep_volitional :: "(bytes \<Rightarrow> bool) list"
  ep_groups :: "language \<Rightarrow> bytes \<Rightarrow> (nat \<times> nat) list"
  ep_hate :: "language \<Rightarrow> nat \<Rightarrow> bytes \<Rightarrow> (bytes \<Rightarrow> bytes list) option"
  ep_vulnerability :: "(bytes \<Rightarrow> bool) list"
  ep_permanent :: "(bytes \<Rightarrow> bool) list"
  ep_cbrn :: "bytes \<Rightarrow> bool"
  ep_operational :: "bytes \<Rightarrow> bool"

text \<open>
  \<open>ep_groups\<close> gives the matches of the group expression of a language as byte ranges; \<open>ep_hate l k g\<close>
  compiles template \<open>k\<close> of the language for the group text \<open>g\<close> (it fails when the expression is too
  large) and finds its matches.
\<close>

definition any_match :: "(bytes \<Rightarrow> bool) list \<Rightarrow> bytes \<Rightarrow> bool" where
  "any_match signals s = list_ex (\<lambda>p. p s) signals"

section \<open>Searching\<close>

text \<open>\<open>str::find\<close>: the byte offset of the first occurrence.\<close>

fun find_sub :: "bytes \<Rightarrow> bytes \<Rightarrow> nat option" where
  "find_sub [] t = (if t = [] then Some 0 else None)"
| "find_sub (c # s) t = (if prefix t (c # s) then Some 0 else map_option Suc (find_sub s t))"

text \<open>The positions the \<open>while let\<close> loop visits.\<close>

partial_function (option) occurrences :: "bytes \<Rightarrow> bytes \<Rightarrow> nat \<Rightarrow> nat list option" where
  "occurrences s t search_from = (case find_sub (drop search_from s) t of
     None \<Rightarrow> Some []
   | Some k \<Rightarrow> Option.bind (occurrences s t (search_from + k + length t))
       (\<lambda>ps. Some ((search_from + k) # ps)))"

definition is_word :: "ethics_patterns \<Rightarrow> bytes \<Rightarrow> bool" where
  "is_word P c = (case map code c of
     [a] \<Rightarrow> 48 \<le> a \<and> a \<le> 57 \<or> 65 \<le> a \<and> a \<le> 90 \<or> 97 \<le> a \<and> a \<le> 122 \<or> a = 95
   | _ \<Rightarrow> ep_alphanumeric P c)"

definition has_word_boundary :: "ethics_patterns \<Rightarrow> bytes \<Rightarrow> nat \<Rightarrow> nat \<Rightarrow> bool" where
  "has_word_boundary P s position len \<longleftrightarrow>
     (case rev (chars (take position s)) of [] \<Rightarrow> True | c # _ \<Rightarrow> \<not> is_word P c)
     \<and> (case chars (drop (position + len) s) of [] \<Rightarrow> True | c # _ \<Rightarrow> \<not> is_word P c)"

section \<open>Context\<close>

definition is_meta_context :: "ethics_patterns \<Rightarrow> bytes \<Rightarrow> bool" where
  "is_meta_context P lower = any_match (ep_meta P) lower"

partial_function (option) delimiter_loop :: "bytes \<Rightarrow> nat \<Rightarrow> bytes \<Rightarrow> nat \<Rightarrow> bool \<Rightarrow> bool option" where
  "delimiter_loop s position delimiter cursor inside = (case find_sub (drop cursor s) delimiter of
     None \<Rightarrow> Some inside
   | Some found \<Rightarrow>
       if position < cursor + found then Some inside
       else delimiter_loop s position delimiter (cursor + found + length delimiter) (\<not> inside))"

definition inside_delimiter :: "bytes \<Rightarrow> nat \<Rightarrow> bytes \<Rightarrow> bool option" where
  "inside_delimiter s position delimiter = delimiter_loop s position delimiter 0 False"

definition inside_inline_code :: "bytes \<Rightarrow> nat \<Rightarrow> bool" where
  "inside_inline_code s position \<longleftrightarrow> odd (count_list (take position s) (CHR ''`''))"

text \<open>\<open>str::get\<close> of a range gives nothing when an end is inside a character.\<close>

definition is_technical_context :: "ethics_patterns \<Rightarrow> bytes \<Rightarrow> nat \<Rightarrow> bool option" where
  "is_technical_context P lower position =
     Option.bind (inside_delimiter lower position ''```'') (\<lambda>fenced.
       if fenced \<or> inside_inline_code lower position then Some True
       else
         let start = position - 200; stop = min (length lower) (position + 200)
         in if \<not> is_char_boundary lower start \<or> \<not> is_char_boundary lower stop then Some False
            else Some (2 \<le> length (filter (\<lambda>p. p (slice lower start stop)) (ep_technical P))))"

definition technical_objects :: "bytes list" where
  "technical_objects =
     [''process'', ''thread'', ''task'', ''job'', ''daemon'', ''service'', ''server'', ''instance'',
      ''container'', ''pod'', ''node'', ''signal'', ''sigkill'', ''sigterm'', ''session'',
      ''connection'', ''socket'', ''pipe'', ''buffer'', ''cache'', ''queue'', ''branch'', ''build'',
      ''test'', ''backup'', ''worker'', ''function'', ''method'', ''class'', ''module'', ''package'',
      ''file'', ''directory'', ''record'', ''entry'', ''key'', ''value'', ''token'', ''stream'',
      ''loop'', ''tag'', ''element'', ''request'', ''response'', ''query'', ''index'', ''table'',
      ''row'', ''column'', ''field'', ''endpoint'', ''route'', ''handler'', ''middleware'', ''script'',
      ''command'', ''proceso'', ''tarea'', ''servicio'', ''servidor'', ''archivo'',
      ''se'' @ [CHR 0xC3, CHR 0xB1] @ ''al'']"

definition articles :: "bytes list" where
  "articles = [''a '', ''the '', ''an '', ''el '', ''la '', ''un '', ''una '']"

definition prepositions :: "bytes list" where
  "prepositions = [''a '', ''to '', ''para '', ''a los '', ''a las '', ''a un '', ''a una '', ''al '']"

definition trim_start :: "bytes \<Rightarrow> bytes" where
  "trim_start s = concat (dropWhile is_whitespace (chars s))"

text \<open>The window starts with an object, possibly after one article.\<close>

definition names_object :: "bytes \<Rightarrow> bytes \<Rightarrow> bool" where
  "names_object window object \<longleftrightarrow> prefix object window
     \<or> list_ex (\<lambda>a. case strip_prefix a window of None \<Rightarrow> False | Some rest \<Rightarrow> prefix object rest) articles"

fun first_stripped :: "bytes list \<Rightarrow> bytes \<Rightarrow> bytes option" where
  "first_stripped [] s = None"
| "first_stripped (p # ps) s = (case strip_prefix p s of None \<Rightarrow> first_stripped ps s | Some r \<Rightarrow> Some r)"

definition is_living_target :: "ethics_patterns \<Rightarrow> bytes \<Rightarrow> bool" where
  "is_living_target P after =
     (let window = ep_lower P (trim_start (take_chars 60 after))
      in if window = [] then False
         else if list_ex (names_object window) technical_objects then False
         else if is_digit_char (hd window) \<or> hd window = CHR ''-'' then False
         else
           let after_preposition = trim_start (case first_stripped prepositions window of
                 None \<Rightarrow> window | Some r \<Rightarrow> r)
           in list_ex (\<lambda>p. p window \<or> p after_preposition) (ep_living P))"

definition has_volitional_intent :: "ethics_patterns \<Rightarrow> bytes \<Rightarrow> bool" where
  "has_volitional_intent P lower = any_match (ep_volitional P) lower"

section \<open>The suppression cascade\<close>

text \<open>The effective weight of a match, whether it is suppressed, and whether by a technical context.\<close>

definition disambiguate ::
  "ethics_patterns \<Rightarrow> bytes \<Rightarrow> bool \<Rightarrow> lexicon_entry \<Rightarrow> nat \<Rightarrow> (f64 \<times> bool \<times> bool) option" where
  "disambiguate P lower meta e position =
     (if meta then Some (Fin (lx_weight e) * meta_suppression, True, False)
      else Option.bind (if lx_technical e then is_technical_context P lower position else Some False)
        (\<lambda>technical. Some (
          if technical then (Fin (lx_weight e) * technical_suppression, True, True)
          else if lx_living_target e \<and> \<not> is_living_target P (drop (position + length (lx_term e)) lower)
          then (Fin (lx_weight e) * non_living_suppression, True, False)
          else (Fin (lx_weight e), False, False))))"

text \<open>The alarms are a map in key order; \<open>f\<close> makes the new value from the old one.\<close>

fun set_alarm :: "string \<Rightarrow> (f64 option \<Rightarrow> f64) \<Rightarrow> (string \<times> f64) list \<Rightarrow> (string \<times> f64) list" where
  "set_alarm k f [] = [(k, f None)]"
| "set_alarm k f ((k', v) # al) =
     (if k = k' then (k, f (Some v)) # al
      else if k < k' then (k, f None) # (k', v) # al
      else (k', v) # set_alarm k f al)"

record scan =
  sc_flags :: "ethics_flag list"
  sc_alarms :: "(string \<times> f64) list"
  sc_technical :: bool

definition flag_at ::
  "ethics_patterns \<Rightarrow> bytes \<Rightarrow> bool \<Rightarrow> lexicon_entry \<Rightarrow> scan \<Rightarrow> nat \<Rightarrow> scan option" where
  "flag_at P lower meta e st position =
     (if \<not> has_word_boundary P lower position (length (lx_term e)) then Some st
      else Option.bind (disambiguate P lower meta e position) (\<lambda>(w, suppressed, technical). Some
        \<lparr>sc_flags = sc_flags st @ [\<lparr>fl_term = lx_term e, fl_category = lx_category e,
             fl_raw_weight = Fin (lx_weight e), fl_effective_weight = w, fl_suppressed = suppressed\<rparr>],
         sc_alarms = set_alarm (category_as_str (lx_category e))
             (\<lambda>old. case old of None \<Rightarrow> w | Some v \<Rightarrow> f64_max w v) (sc_alarms st),
         sc_technical = (sc_technical st \<or> technical)\<rparr>))"

fun fold_option :: "('s \<Rightarrow> 'a \<Rightarrow> 's option) \<Rightarrow> 's \<Rightarrow> 'a list \<Rightarrow> 's option" where
  "fold_option f s [] = Some s"
| "fold_option f s (x # xs) = Option.bind (f s x) (\<lambda>s. fold_option f s xs)"

definition scan_entry ::
  "ethics_patterns \<Rightarrow> bytes \<Rightarrow> bool \<Rightarrow> scan \<Rightarrow> lexicon_entry \<Rightarrow> scan option" where
  "scan_entry P lower meta st e =
     Option.bind (occurrences lower (lx_term e) 0) (fold_option (flag_at P lower meta e) st)"

definition scan_lexicon :: "ethics_patterns \<Rightarrow> bytes \<Rightarrow> bool \<Rightarrow> scan option" where
  "scan_lexicon P lower meta =
     fold_option (scan_entry P lower meta) \<lparr>sc_flags = [], sc_alarms = [], sc_technical = False\<rparr> lexicon"

section \<open>Alarms and violations\<close>

definition f64_sum :: "f64 list \<Rightarrow> f64" where
  "f64_sum xs = foldl (+) (Fin 0) xs"

definition f64_mean :: "f64 list \<Rightarrow> f64" where
  "f64_mean xs = f64_sum xs / Fin (real (length xs))"

definition suppressed_high :: "ethics_flag list \<Rightarrow> ethics_flag list" where
  "suppressed_high fs = filter (\<lambda>f. fl_suppressed f \<and> Fin 0.5 \<le> fl_raw_weight f) fs"

definition escape_alarms ::
  "ethics_patterns \<Rightarrow> bytes \<Rightarrow> ethics_flag list \<Rightarrow> (string \<times> f64) list \<Rightarrow> (string \<times> f64) list" where
  "escape_alarms P lower fs al =
     (let high = suppressed_high fs;
          al = (if 2 \<le> length high
                then set_alarm ''ambiguous_suppression'' (\<lambda>_. f64_mean (map fl_raw_weight high) * Fin 0.5) al
                else al)
      in if has_volitional_intent P lower \<and> fs \<noteq> []
         then set_alarm ''volitional_intent'' (\<lambda>_. Fin 0.5) al else al)"

definition composite_arousal :: "(string \<times> f64) list \<Rightarrow> f64" where
  "composite_arousal al = (if al = [] then Fin 0 else f64_min (f64_mean (map snd al)) (Fin 1))"

definition flag_confidence :: "ethics_flag list \<Rightarrow> f64" where
  "flag_confidence fs =
     (if fs = [] then Fin 1
      else if list_all fl_suppressed fs then (if suppressed_high fs = [] then Fin 0.7 else Fin 0.4)
      else f64_min (f64_sum (map fl_effective_weight (filter (\<lambda>f. \<not> fl_suppressed f) fs))
             / Fin (real (length fs))) (Fin 1))"

definition lexical_violations :: "ethics_flag list \<Rightarrow> ethics_violation list" where
  "lexical_violations fs =
     map (\<lambda>f. \<lparr>vi_category = fl_category f, vi_confidence = fl_effective_weight f,
               vi_blocked = (Fin (snd (thresholds (fl_category f))) \<le> fl_effective_weight f)\<rparr>)
       (filter (\<lambda>f. \<not> fl_suppressed f \<and> Fin (fst (thresholds (fl_category f))) \<le> fl_effective_weight f) fs)"

definition catastrophic_hit :: "ethics_flag list \<Rightarrow> bool" where
  "catastrophic_hit fs = list_ex (\<lambda>f. \<not> fl_suppressed f \<and> catastrophic_floor \<le> fl_effective_weight f
     \<and> is_catastrophic (fl_category f)) fs"

section \<open>Structural detection\<close>

text \<open>
  The structural detector (\<open>ethics_structural.rs\<close>), which finds hateful statements about groups
  without trigger words, its merge with the findings of the lexicon, and the evaluation of Layer A
  (\<open>evaluate\<close> of \<open>ethics.rs\<close>).
\<close>

section \<open>Patterns\<close>

record structural_match =
  st_pattern_type :: string
  st_group :: bytes
  st_matched_text :: bytes
  st_confidence :: f64
  st_category :: ethics_category

text \<open>A pattern; its expression is that of its position in the table of its language.\<close>

record hate_pattern =
  hp_type :: string
  hp_confidence :: real
  hp_category :: ethics_category

definition hate :: "string \<Rightarrow> real \<Rightarrow> ethics_category \<Rightarrow> hate_pattern" where
  "hate t c cat = \<lparr>hp_type = t, hp_confidence = c, hp_category = cat\<rparr>"

definition en_patterns :: "hate_pattern list" where
  "en_patterns =
     [hate ''deportation_demand'' 0.85 HateSpeech, hate ''negative_attribute'' 0.8 HateSpeech,
      hate ''negative_attribute'' 0.82 HateSpeech, hate ''negative_attribute'' 0.78 HateSpeech,
      hate ''destroying_society'' 0.85 HateSpeech, hate ''undeserving'' 0.88 ViolenceHarm,
      hate ''undeserving'' 0.85 HateSpeech, hate ''taking_resources'' 0.82 HateSpeech,
      hate ''rights_denial'' 0.85 HateSpeech, hate ''rights_denial'' 0.85 HateSpeech,
      hate ''forced_action'' 0.88 HateSpeech, hate ''forced_action'' 0.8 Autonomy,
      hate ''natural_order'' 0.88 HateSpeech, hate ''segregation'' 0.85 HateSpeech,
      hate ''pathologization'' 0.85 HateSpeech, hate ''conversion_demand'' 0.88 HateSpeech]"

definition es_patterns :: "hate_pattern list" where
  "es_patterns =
     [hate ''deportacion'' 0.85 HateSpeech, hate ''atributo_negativo'' 0.8 HateSpeech,
      hate ''destruyendo_sociedad'' 0.85 HateSpeech, hate ''sin_derechos'' 0.85 HateSpeech,
      hate ''robo'' 0.82 HateSpeech, hate ''son_carga'' 0.82 HateSpeech]"

fun language_patterns :: "language \<Rightarrow> hate_pattern list" where
  "language_patterns En = en_patterns"
| "language_patterns Es = es_patterns"

section \<open>Detection\<close>

text \<open>The loop that moves an index down to the start of a character.\<close>

fun floor_boundary :: "bytes \<Rightarrow> nat \<Rightarrow> nat" where
  "floor_boundary s 0 = 0"
| "floor_boundary s (Suc n) = (if is_char_boundary s (Suc n) then Suc n else floor_boundary s n)"

definition match_context :: "bytes \<Rightarrow> nat \<Rightarrow> bytes" where
  "match_context lower group_pos =
     slice lower (floor_boundary lower (group_pos - 30))
       (floor_boundary lower (min (length lower) (group_pos + 200)))"

definition pattern_matches ::
  "ethics_patterns \<Rightarrow> language \<Rightarrow> bytes \<Rightarrow> bytes \<Rightarrow> nat \<times> hate_pattern \<Rightarrow> structural_match list" where
  "pattern_matches P l grp ctx = (\<lambda>(k, p). case ep_hate P l k grp of
     None \<Rightarrow> []
   | Some find_iter \<Rightarrow> map (\<lambda>m. \<lparr>st_pattern_type = hp_type p, st_group = grp,
       st_matched_text = take_chars 150 m, st_confidence = Fin (hp_confidence p),
       st_category = hp_category p\<rparr>) (find_iter ctx))"

text \<open>\<open>retain\<close> with a set of the keys seen: the first element of every key stays.\<close>

fun retain_new :: "('a \<Rightarrow> 'k) \<Rightarrow> 'k list \<Rightarrow> 'a list \<Rightarrow> 'a list" where
  "retain_new key seen [] = []"
| "retain_new key seen (x # xs) =
     (if key x \<in> set seen then retain_new key seen xs else x # retain_new key (key x # seen) xs)"

definition match_key :: "structural_match \<Rightarrow> bytes" where
  "match_key m = st_pattern_type m @ '':'' @ st_group m @ '':'' @ take_chars 50 (st_matched_text m)"

definition detect_structural_hate :: "ethics_patterns \<Rightarrow> bytes \<Rightarrow> language \<Rightarrow> structural_match list" where
  "detect_structural_hate P s l =
     (let lower = ep_lower P s
      in retain_new match_key []
           (concat (map (\<lambda>(start, stop).
              concat (map (pattern_matches P l (slice lower start stop) (match_context lower start))
                (enumerate 0 (language_patterns l))))
            (ep_groups P l lower))))"

definition violation_key :: "structural_match \<Rightarrow> bytes" where
  "violation_key m = st_pattern_type m @ '':'' @ take_chars 40 (st_matched_text m)"

definition structural_matches_to_violations :: "structural_match list \<Rightarrow> ethics_violation list" where
  "structural_matches_to_violations ms =
     map (\<lambda>m. \<lparr>vi_category = st_category m, vi_confidence = st_confidence m,
               vi_blocked = (Fin 0.85 \<le> st_confidence m)\<rparr>)
       (retain_new violation_key [] ms)"

section \<open>Merging\<close>

text \<open>The formats \<open>{:.2}\<close>, \<open>{:.3}\<close> and \<open>{:.4}\<close>: rounded half to even, the integer part and the digits.\<close>

definition round_half_even :: "real \<Rightarrow> int" where
  "round_half_even x =
     (let f = \<lfloor>x\<rfloor> in if x - of_int f < 1 / 2 then f
      else if 1 / 2 < x - of_int f then f + 1
      else if even f then f else f + 1)"

fun pad_digits :: "nat \<Rightarrow> nat \<Rightarrow> string" where
  "pad_digits 0 n = []"
| "pad_digits (Suc d) n = pad_digits d (n div 10) @ [digit_char (n mod 10)]"

fun format_fixed :: "nat \<Rightarrow> f64 \<Rightarrow> string" where
  "format_fixed d (Fin r) =
     (let n = nat (round_half_even (\<bar>r\<bar> * 10 ^ d))
      in (if r < 0 then ''-'' else []) @ dec_nat (n div 10 ^ d) @ ''.'' @ pad_digits d (n mod 10 ^ d))"
| "format_fixed d PosInf = ''inf''"
| "format_fixed d NegInf = ''-inf''"
| "format_fixed d NaN = ''NaN''"

definition reason_key :: "ethics_violation \<Rightarrow> string" where
  "reason_key v = category_as_str (vi_category v) @ '':'' @ format_fixed 2 (vi_confidence v)"

definition structural_flag :: "structural_match \<Rightarrow> ethics_flag" where
  "structural_flag m =
     \<lparr>fl_term = ''structural:'' @ st_pattern_type m, fl_category = st_category m,
      fl_raw_weight = st_confidence m, fl_effective_weight = st_confidence m, fl_suppressed = False\<rparr>"

definition structural_matches :: "ethics_patterns \<Rightarrow> bytes \<Rightarrow> structural_match list" where
  "structural_matches P s = detect_structural_hate P s En @ detect_structural_hate P s Es"

definition detect_structural ::
  "ethics_patterns \<Rightarrow> bytes \<Rightarrow> ethics_violation list \<Rightarrow> ethics_flag list
   \<Rightarrow> structural_match list \<times> ethics_violation list \<times> ethics_flag list" where
  "detect_structural P s vs fs =
     (let ms = structural_matches P s
      in (ms, vs @ retain_new reason_key (map reason_key vs) (structural_matches_to_violations ms),
          fs @ map structural_flag ms))"

section \<open>The evaluation of Layer A\<close>

definition judge ::
  "ethics_patterns \<Rightarrow> bytes \<Rightarrow> bool \<Rightarrow> scan \<Rightarrow> evaluation" where
  "judge P s meta st =
     (let alarms = escape_alarms P (ep_lower P s) (sc_flags st) (sc_alarms st)
      in case detect_structural P s (lexical_violations (sc_flags st)) (sc_flags st) of
        (_, violations, flags) \<Rightarrow>
          let hit = catastrophic_hit flags;
              any_blocked = list_ex vi_blocked violations;
              passed = (\<not> any_blocked \<and> \<not> hit)
          in \<lparr>el_passed = passed, el_violations = violations, el_flags = flags,
              el_enforcement_blocked = (\<not> passed \<or> any_blocked \<or> hit), el_meta_context = meta,
              el_technical_context = sc_technical st, el_arousal = composite_arousal alarms,
              el_alarms = alarms, el_confidence = flag_confidence (sc_flags st)\<rparr>)"

definition evaluate :: "ethics_patterns \<Rightarrow> bytes \<Rightarrow> evaluation option" where
  "evaluate P s =
     (let lower = ep_lower P s; meta = is_meta_context P lower
      in Option.bind (scan_lexicon P lower meta) (\<lambda>st. Some (judge P s meta st)))"

end
