(* ===== verification/Rust_Collections.thy ===== *)
theory Rust_Collections
  imports "HOL-Library.Multiset" Main
begin

text \<open>
  The stable sort of a slice by a comparison of its elements (\<open>slice::sort_by\<close>), as the engine and the
  ethics layers call it.
\<close>

text \<open>\<open>sort_by\<close>: \<open>le x y\<close> when the comparison of \<open>x\<close> with \<open>y\<close> is not \<open>Greater\<close>. The sort is stable.\<close>

fun insert_by :: "('a \<Rightarrow> 'a \<Rightarrow> bool) \<Rightarrow> 'a \<Rightarrow> 'a list \<Rightarrow> 'a list" where
  "insert_by le x [] = [x]"
| "insert_by le x (y # ys) = (if le x y then x # y # ys else y # insert_by le x ys)"

definition sort_by :: "('a \<Rightarrow> 'a \<Rightarrow> bool) \<Rightarrow> 'a list \<Rightarrow> 'a list" where
  "sort_by le xs = foldr (insert_by le) xs []"

lemma mset_insert_by [simp]: "mset (insert_by le x xs) = add_mset x (mset xs)"
  by (induction xs) auto

lemma mset_sort_by [simp]: "mset (sort_by le xs) = mset xs"
  unfolding sort_by_def by (induction xs) simp_all

lemma set_sort_by [simp]: "set (sort_by le xs) = set xs"
  by (rule mset_eq_setD) simp

lemma length_sort_by [simp]: "length (sort_by le xs) = length xs"
  by (metis mset_sort_by size_mset)

lemma sorted_insert_by:
  assumes "\<And>x y. le x y \<or> le y x" and "\<And>x y z. le x y \<Longrightarrow> le y z \<Longrightarrow> le x z" and "sorted_wrt le xs"
  shows "sorted_wrt le (insert_by le x xs)"
proof -
  have in_insert: "y \<in> set (insert_by le x ys) \<longleftrightarrow> y = x \<or> y \<in> set ys" for y ys
    by (metis insert_iff mset_insert_by set_mset_add_mset_insert set_mset_mset)
  from assms(3) show ?thesis
  proof (induction xs)
    case (Cons y ys)
    then show ?case using assms(1,2) by (auto simp: in_insert) blast+
  qed simp
qed

lemma sorted_sort_by:
  assumes "\<And>x y. le x y \<or> le y x" and "\<And>x y z. le x y \<Longrightarrow> le y z \<Longrightarrow> le x z"
  shows "sorted_wrt le (sort_by le xs)"
  unfolding sort_by_def using assms by (induction xs) (simp_all add: sorted_insert_by)

lemma sort_by_map: "sort_by le (map f xs) = map f (sort_by (\<lambda>x y. le (f x) (f y)) xs)"
proof -
  have "insert_by le (f x) (map f ys) = map f (insert_by (\<lambda>x y. le (f x) (f y)) x ys)" for x ys
    by (induction ys) auto
  then show ?thesis unfolding sort_by_def by (induction xs) auto
qed

section \<open>Ordered maps\<close>

text \<open>
  \<open>BTreeMap\<close> as its entries in ascending order of the keys: \<open>entry(k).or_insert(d)\<close> followed by an
  update of the value, insertion, and lookup.
\<close>

fun entry_update :: "'k::linorder \<Rightarrow> ('v \<Rightarrow> 'v) \<Rightarrow> 'v \<Rightarrow> ('k \<times> 'v) list \<Rightarrow> ('k \<times> 'v) list" where
  "entry_update k f d [] = [(k, f d)]"
| "entry_update k f d ((k', v) # xs) =
     (if k < k' then (k, f d) # (k', v) # xs
      else if k = k' then (k, f v) # xs
      else (k', v) # entry_update k f d xs)"

definition entry_insert :: "'k::linorder \<Rightarrow> 'v \<Rightarrow> ('k \<times> 'v) list \<Rightarrow> ('k \<times> 'v) list" where
  "entry_insert k v = entry_update k (\<lambda>_. v) v"

definition ascending :: "('k::linorder \<times> 'v) list \<Rightarrow> bool" where
  "ascending xs \<longleftrightarrow> sorted_wrt (<) (map fst xs)"

lemma entry_update_keys: "set (map fst (entry_update k f d xs)) = insert k (set (map fst xs))"
  by (induction k f d xs rule: entry_update.induct) auto

lemma ascending_update: "ascending xs \<Longrightarrow> ascending (entry_update k f d xs)"
proof (induction k f d xs rule: entry_update.induct)
  case (2 k f d k' v xs)
  have "\<forall>y\<in>set (map fst (entry_update k f d xs)). k' < y" if "k' < k"
    unfolding entry_update_keys using 2(2) that by (auto simp: ascending_def)
  with 2 show ?case by (auto simp: ascending_def)
qed (simp add: ascending_def)

lemma map_of_update:
  "ascending xs \<Longrightarrow> map_of (entry_update k f d xs)
     = (map_of xs)(k \<mapsto> f (case map_of xs k of None \<Rightarrow> d | Some v \<Rightarrow> v))"
proof (induction k f d xs rule: entry_update.induct)
  case (2 k f d k' v xs)
  have asc: "ascending xs" and less: "\<forall>y\<in>fst ` set xs. k' < y" using 2(2) by (auto simp: ascending_def)
  have "map_of xs k = None" if "k < k'" using less that by (auto simp: map_of_eq_None_iff)
  then show ?case using 2(1) asc by (auto simp: fun_eq_iff)
qed (simp add: fun_eq_iff)

lemma map_of_insert: "ascending xs \<Longrightarrow> map_of (entry_insert k v xs) = (map_of xs)(k \<mapsto> v)"
  by (simp add: entry_insert_def map_of_update split: option.split)

lemma ascending_insert: "ascending xs \<Longrightarrow> ascending (entry_insert k v xs)"
  by (simp add: entry_insert_def ascending_update)

lemma entry_keys_insert: "set (map fst (entry_insert k v xs)) = insert k (set (map fst xs))"
  unfolding entry_insert_def by (rule entry_update_keys)

end
