(* ===== verification/Ethics_Layers.thy ===== *)
theory Ethics_Layers
  imports Ethics Rust_Collections
begin

text \<open>
  The layers above the lexicon and their composition: the risk quantification of Layer B
  (\<open>ethics_layer_b.rs\<close>), the five philosophical frameworks of Layer C (\<open>ethics_layer_c.rs\<close>), the
  precedents of Layer K (\<open>ethics_layer_k.rs\<close>) and the pipeline (\<open>ethics_pipeline.rs\<close>).
\<close>

section \<open>Layer B: scales and profiles\<close>

datatype magnitude = Negligible | Minor | Moderate | Severe | Catastrophic

datatype reversibility = Reversible | Recoverable | Permanent | Existential

datatype breadth = Individual | Group | Collective | Generational

record category_risk_profile =
  rp_base_probability :: real
  rp_magnitude :: magnitude
  rp_reversibility :: reversibility
  rp_breadth :: breadth
  rp_technical_discount :: real
  rp_meta_discount :: real
  rp_living_target_boost :: real

fun magnitude_weight :: "magnitude \<Rightarrow> real" where
  "magnitude_weight Negligible = 0.05"
| "magnitude_weight Minor = 0.15"
| "magnitude_weight Moderate = 0.4"
| "magnitude_weight Severe = 0.75"
| "magnitude_weight Catastrophic = 1"

fun reversibility_weight :: "reversibility \<Rightarrow> real" where
  "reversibility_weight Reversible = 0.5"
| "reversibility_weight Recoverable = 1"
| "reversibility_weight Permanent = 2.5"
| "reversibility_weight Existential = 6"

fun breadth_weight :: "breadth \<Rightarrow> real" where
  "breadth_weight Individual = 1"
| "breadth_weight Group = 2.5"
| "breadth_weight Collective = 6"
| "breadth_weight Generational = 15"

definition category_vulnerability :: "ethics_category \<Rightarrow> real" where
  "category_vulnerability c = (if c = ChildSafety then 3 else if c = SelfHarm then 2.5 else 1)"

definition profile ::
  "real \<Rightarrow> magnitude \<Rightarrow> reversibility \<Rightarrow> breadth \<Rightarrow> real \<Rightarrow> real \<Rightarrow> real \<Rightarrow> category_risk_profile" where
  "profile p m r b technical meta living =
     \<lparr>rp_base_probability = p, rp_magnitude = m, rp_reversibility = r, rp_breadth = b,
      rp_technical_discount = technical, rp_meta_discount = meta, rp_living_target_boost = living\<rparr>"

fun risk_profile :: "ethics_category \<Rightarrow> category_risk_profile" where
  "risk_profile ViolenceHarm = profile 0.6 Severe Permanent Individual 0.05 0.02 2.5"
| "risk_profile ChildSafety = profile 0.8 Catastrophic Permanent Individual 0.05 0.02 3.0"
| "risk_profile SexualContent = profile 0.75 Severe Permanent Individual 0.05 0.02 3.0"
| "risk_profile SelfHarm = profile 0.7 Catastrophic Existential Individual 0.1 0.05 1.0"
| "risk_profile HateSpeech = profile 0.65 Severe Recoverable Group 0.1 0.05 1.5"
| "risk_profile Deception = profile 0.4 Moderate Recoverable Group 0.1 0.05 1.5"
| "risk_profile IllegalActivities = profile 0.6 Severe Permanent Collective 0.05 0.02 1.5"
| "risk_profile Cybersecurity = profile 0.5 Moderate Recoverable Collective 0.2 0.1 1.0"
| "risk_profile Misinformation = profile 0.35 Moderate Recoverable Collective 0.15 0.1 1.0"
| "risk_profile Privacy = profile 0.4 Moderate Recoverable Individual 0.1 0.05 1.0"
| "risk_profile Autonomy = profile 0.3 Minor Recoverable Individual 0.2 0.15 1.0"
| "risk_profile SystemOverride = profile 0.5 Severe Recoverable Collective 0.2 0.1 1.0"

definition block_threshold :: real where
  "block_threshold = 0.5"

definition flag_threshold :: real where
  "flag_threshold = 0.15"

definition hard_block_min_probability :: real where
  "hard_block_min_probability = 0.001"

definition vulnerability_factors :: "real list" where
  "vulnerability_factors = [2.5, 1.8, 2, 1.3]"

record risk =
  rk_category :: string
  rk_description :: string
  rk_probability :: f64
  rk_magnitude :: magnitude
  rk_reversibility :: reversibility
  rk_breadth :: breadth
  rk_vulnerability :: f64
  rk_composite :: f64
  rk_hard_block :: bool
  rk_reason :: "string option"

datatype layer_b_decision = B_Allow | B_Flag | B_Block

record layer_b_result =
  lb_risk_score :: f64
  lb_cvar5 :: f64
  lb_risks :: "risk list"
  lb_decision :: layer_b_decision
  lb_justification :: string
  lb_hard_block_reasons :: "string list"

section \<open>Layer B: risks\<close>

text \<open>\<open>{:?}\<close> of the scales.\<close>

fun magnitude_debug :: "magnitude \<Rightarrow> string" where
  "magnitude_debug Negligible = ''Negligible''"
| "magnitude_debug Minor = ''Minor''"
| "magnitude_debug Moderate = ''Moderate''"
| "magnitude_debug Severe = ''Severe''"
| "magnitude_debug Catastrophic = ''Catastrophic''"

fun reversibility_debug :: "reversibility \<Rightarrow> string" where
  "reversibility_debug Reversible = ''Reversible''"
| "reversibility_debug Recoverable = ''Recoverable''"
| "reversibility_debug Permanent = ''Permanent''"
| "reversibility_debug Existential = ''Existential''"

definition irreversible :: "reversibility \<Rightarrow> bool" where
  "irreversible r \<longleftrightarrow> r = Permanent \<or> r = Existential"

definition flag_probability :: "ethics_flag \<Rightarrow> evaluation \<Rightarrow> f64" where
  "flag_probability f a =
     (let pr = risk_profile (fl_category f);
          p = Fin (rp_base_probability pr) * (if Fin 0 < fl_raw_weight f
                then fl_effective_weight f / fl_raw_weight f else Fin 1);
          p = (if el_technical_context a then p * Fin (rp_technical_discount pr) else p);
          p = (if el_meta_context a then p * Fin (rp_meta_discount pr) else p);
          p = (if \<not> fl_suppressed f \<and> Fin 0.8 \<le> fl_raw_weight f then f64_max p (Fin 0.5) else p)
      in pad_clamp p 0 1)"

definition map_flag_to_risk :: "ethics_flag \<Rightarrow> evaluation \<Rightarrow> risk" where
  "map_flag_to_risk f a =
     (let pr = risk_profile (fl_category f); p = flag_probability f a;
          v = category_vulnerability (fl_category f);
          hard = (irreversible (rp_reversibility pr) \<and> 2 < v \<and> Fin hard_block_min_probability < p)
      in \<lparr>rk_category = category_as_str (fl_category f),
          rk_description = fl_term f @ [CHR '' '', CHR 0xE2, CHR 0x86, CHR 0x92, CHR '' '']
            @ magnitude_debug (rp_magnitude pr) @ '' '' @ reversibility_debug (rp_reversibility pr)
            @ '' harm (P='' @ format_fixed 3 p @ '')'',
          rk_probability = p, rk_magnitude = rp_magnitude pr, rk_reversibility = rp_reversibility pr,
          rk_breadth = rp_breadth pr, rk_vulnerability = Fin v,
          rk_composite = pad_clamp (p * Fin (magnitude_weight (rp_magnitude pr))
              * Fin (reversibility_weight (rp_reversibility pr) / 6)
              * Fin (breadth_weight (rp_breadth pr) / 15) * Fin v) 0 1,
          rk_hard_block = hard,
          rk_reason = (if hard
            then Some (''Irreversible harm to protected subject (P='' @ format_fixed 4 p @ '')'') else None)\<rparr>)"

definition compute_cvar5 :: "risk list \<Rightarrow> f64" where
  "compute_cvar5 rs =
     (if rs = [] then Fin 0
      else
        let weighted = sort_by (\<lambda>x y. \<not> x < y)
              (map (\<lambda>r. rk_composite r * Fin (reversibility_weight (rk_reversibility r))) rs);
            tail_count = max 1 (nat \<lceil>real (length weighted) * 0.05\<rceil>);
            worst = take (min tail_count (length weighted)) weighted
        in pad_clamp (f64_sum worst / Fin (real (length worst))) 0 1)"

definition inferred_reversibility :: "ethics_patterns \<Rightarrow> bytes \<Rightarrow> reversibility" where
  "inferred_reversibility P lower = (if any_match (ep_permanent P) lower then Permanent else Recoverable)"

definition inferred_vulnerability :: "ethics_patterns \<Rightarrow> bytes \<Rightarrow> f64" where
  "inferred_vulnerability P lower =
     foldl (\<lambda>v (p, factor). if p lower then f64_max v (Fin factor) else v) (Fin 1)
       (zip (ep_vulnerability P) vulnerability_factors)"

definition alarm_risk :: "string \<Rightarrow> string \<Rightarrow> f64 \<Rightarrow> f64 \<Rightarrow> reversibility \<Rightarrow> f64 \<Rightarrow> risk" where
  "alarm_risk category description probability base rv vulnerability =
     \<lparr>rk_category = category, rk_description = description, rk_probability = probability,
      rk_magnitude = (if rv = Permanent then Severe else Moderate), rk_reversibility = rv,
      rk_breadth = (if Fin 1.5 < vulnerability then Group else Individual),
      rk_vulnerability = vulnerability,
      rk_composite = pad_clamp (base * vulnerability * Fin (if rv = Permanent then 2 else 1)) 0 1,
      rk_hard_block = False, rk_reason = None\<rparr>"

definition flag_risks :: "evaluation \<Rightarrow> risk list" where
  "flag_risks a =
     map (\<lambda>f. map_flag_to_risk f a)
       (filter (\<lambda>f. \<not> fl_suppressed f \<and> Fin 0.3 \<le> fl_effective_weight f) (el_flags a))"

definition volitional_risks :: "evaluation \<Rightarrow> reversibility \<Rightarrow> f64 \<Rightarrow> risk list" where
  "volitional_risks a rv vulnerability = (case map_of (el_alarms a) ''volitional_intent'' of
     None \<Rightarrow> []
   | Some w \<Rightarrow> [alarm_risk ''volitional_harm''
       (''Volitional intent '' @ [CHR 0xE2, CHR 0x80, CHR 0x94]
          @ '' future action with harm-adjacent language'')
       w (Fin 0.25) rv vulnerability])"

definition ambiguous_risks :: "evaluation \<Rightarrow> reversibility \<Rightarrow> f64 \<Rightarrow> risk list" where
  "ambiguous_risks a rv vulnerability =
     (if map_of (el_alarms a) ''ambiguous_suppression'' = None then []
      else map (\<lambda>f. alarm_risk (category_as_str (fl_category f))
             (''Suppressed high-weight flag '' @ [CHR 0xE2, CHR 0x80, CHR 0x94]
                @ '' ambiguous, escalated for review'')
             (fl_raw_weight f * Fin 0.4) (fl_raw_weight f * Fin 0.15) rv vulnerability)
           (suppressed_high (el_flags a)))"

text \<open>The loop that applies what the content says of permanence and vulnerability to every risk.\<close>

definition escalate :: "reversibility \<Rightarrow> f64 \<Rightarrow> risk \<Rightarrow> risk" where
  "escalate rv vulnerability r =
     (let r = (if rv = Permanent \<and> rk_reversibility r = Recoverable
            then r\<lparr>rk_reversibility := Permanent, rk_magnitude := Severe,
                   rk_composite := pad_clamp (rk_composite r * Fin 2) 0 1\<rparr> else r);
          r = (if rk_vulnerability r < vulnerability
            then r\<lparr>rk_vulnerability := vulnerability,
                   rk_composite := pad_clamp (rk_composite r * vulnerability) 0 1\<rparr> else r)
      in if irreversible (rk_reversibility r) \<and> Fin 2 \<le> rk_vulnerability r
            \<and> Fin hard_block_min_probability < rk_probability r
         then r\<lparr>rk_hard_block := True,
                rk_reason := Some ''Irreversible harm to vulnerable subject (inferred from content)''\<rparr>
         else r)"

definition cbrn_risk :: risk where
  "cbrn_risk =
     \<lparr>rk_category = ''cbrn_mass_casualty'',
      rk_description = ''CBRN / mass-casualty weapon request with operational intent ''
        @ [CHR 0xE2, CHR 0x80, CHR 0x94]
        @ '' categorical hard block (bypasses probabilistic scoring)'',
      rk_probability = Fin 0.95, rk_magnitude = Catastrophic, rk_reversibility = Existential,
      rk_breadth = Generational, rk_vulnerability = Fin 3, rk_composite = Fin 1, rk_hard_block = True,
      rk_reason = Some (''CBRN / mass-casualty weapon synthesis or deployment instructions (categorical ''
        @ [CHR 0xE2, CHR 0x80, CHR 0x94] @ '' irreversible harm at population scale)'')\<rparr>"

definition content_risks :: "ethics_patterns \<Rightarrow> evaluation \<Rightarrow> bytes \<Rightarrow> risk list" where
  "content_risks P a s =
     (let lower = ep_lower P s; rv = inferred_reversibility P lower; v = inferred_vulnerability P lower
      in map (escalate rv v) (flag_risks a @ volitional_risks a rv v @ ambiguous_risks a rv v)
         @ (if ep_cbrn P s \<and> ep_operational P s then [cbrn_risk] else []))"

definition mean_risk :: "risk list \<Rightarrow> f64" where
  "mean_risk rs = (if rs = [] then Fin 0
     else pad_clamp (f64_sum (map rk_composite rs) / Fin (real (length rs))) 0 1)"

definition layer_b_decision_of :: "risk list \<Rightarrow> string list \<Rightarrow> f64 \<Rightarrow> layer_b_decision \<times> string" where
  "layer_b_decision_of rs reasons cvar =
     (if reasons \<noteq> [] then (B_Block, ''HARD BLOCK: '' @ join_with ''; '' reasons)
      else if Fin block_threshold \<le> cvar
      then (B_Block, ''CVaR5='' @ format_fixed 3 cvar @ '' exceeds block threshold (0.5). Primary risks: ''
             @ join_with ''; '' (map rk_description rs))
      else if Fin flag_threshold \<le> cvar
      then (B_Flag, ''CVaR5='' @ format_fixed 3 cvar
             @ '' exceeds flag threshold (0.15). Review recommended.'')
      else (B_Allow, ''CVaR5='' @ format_fixed 3 cvar
             @ '' below all thresholds. Risk profile acceptable.''))"

definition evaluate_layer_b :: "ethics_patterns \<Rightarrow> evaluation \<Rightarrow> bytes \<Rightarrow> layer_b_result" where
  "evaluate_layer_b P a s =
     (let rs = content_risks P a s; cvar = compute_cvar5 rs;
          reasons = List.map_filter (\<lambda>r. if rk_hard_block r then rk_reason r else None) rs
      in case layer_b_decision_of rs reasons cvar of (decision, justification) \<Rightarrow>
        \<lparr>lb_risk_score = mean_risk rs, lb_cvar5 = cvar, lb_risks = rs, lb_decision = decision,
         lb_justification = justification, lb_hard_block_reasons = reasons\<rparr>)"

section \<open>Layer C\<close>

datatype framework = Consequentialism | Deontology | Virtue | Contractualism | Care

fun framework_as_str :: "framework \<Rightarrow> string" where
  "framework_as_str Consequentialism = ''consequentialism''"
| "framework_as_str Deontology = ''deontology''"
| "framework_as_str Virtue = ''virtue''"
| "framework_as_str Contractualism = ''contractualism''"
| "framework_as_str Care = ''care''"

datatype verdict = Permit | Concern | Forbid

fun verdict_as_str :: "verdict \<Rightarrow> string" where
  "verdict_as_str Permit = ''permit''"
| "verdict_as_str Concern = ''concern''"
| "verdict_as_str Forbid = ''forbid''"

record framework_evaluation =
  fe_framework :: framework
  fe_verdict :: verdict
  fe_reasoning :: string
  fe_confidence :: f64

record layer_c_result =
  lc_frameworks :: "framework_evaluation list"
  lc_convergence :: f64
  lc_verdict :: verdict
  lc_divergence :: string
  lc_processing_ms :: f64
  lc_llm_available :: bool
  lc_fallback_reason :: "string option"

definition frameworks :: "framework list" where
  "frameworks = [Consequentialism, Deontology, Virtue, Contractualism, Care]"

definition rules_fallback_reason :: string where
  "rules_fallback_reason = ''No LLM evaluator available - using rules-based fallback''"

text \<open>The guards of the \<open>match\<close>, framework by framework.\<close>

definition consequentialism_rule :: "bool \<Rightarrow> bool \<Rightarrow> bool \<Rightarrow> bool \<Rightarrow> verdict \<times> string \<times> real" where
  "consequentialism_rule contextual crit moderate protect =
     (if contextual then (Concern, ''Consequentialist analysis deferred - content appears to be ''
        @ ''meta-discussion or technical context where outcomes are ambiguous.'', 0.4)
      else if crit \<and> protect then (Forbid, ''Catastrophic outcomes for protected subjects significantly outweigh any ''
        @ ''potential benefits. Net utility strongly negative.'', 0.85)
      else if crit then (Concern, ''Severe potential harm creates negative utility that likely outweighs any ''
        @ ''benefits. Requires careful consequence analysis.'', 0.7)
      else if moderate then (Concern, ''Moderate harm potential - net utility calculation depends on context and ''
        @ ''magnitude of outcomes.'', 0.55)
      else (Permit, ''No significant harm signals detected. Net utility appears neutral or ''
        @ ''positive.'', 0.8))"

definition deontology_rule :: "bool \<Rightarrow> bool \<Rightarrow> bool \<Rightarrow> bool \<Rightarrow> verdict \<times> string \<times> real" where
  "deontology_rule contextual crit protect deceptive =
     (if contextual then (Concern, ''Deontological analysis deferred - categorical imperative requires ''
        @ ''knowing whether action treats persons as means, which is unclear in ''
        @ ''meta/technical context.'', 0.4)
      else if protect then (Forbid, ''Actions involving protected subjects cannot be universalized without ''
        @ ''creating systemic exploitation. Fails the categorical imperative.'', 0.9)
      else if crit then (Concern, ''The action itself, regardless of outcome, raises deontological concerns ''
        @ ''about treating persons merely as means.'', 0.75)
      else if deceptive then (Concern, ''Deception inherently treats others as means to an end, violating the ''
        @ ''duty to be truthful.'', 0.7)
      else (Permit, ''The action itself does not appear to violate categorical duties to ''
        @ ''persons.'', 0.75))"

definition virtue_rule :: "bool \<Rightarrow> bool \<Rightarrow> bool \<Rightarrow> bool \<Rightarrow> verdict \<times> string \<times> real" where
  "virtue_rule contextual crit protect deceptive =
     (if contextual then (Permit, ''Virtue ethics analysis - meta-discussion about ethics systems itself ''
        @ ''reflects practical wisdom (phronesis) and intellectual virtue.'', 0.6)
      else if crit \<and> protect then (Forbid, ''No virtuous agent would engage with protected-subject harm. It is ''
        @ ''incompatible with justice and practical wisdom.'', 0.9)
      else if crit then (Concern, ''A person of practical wisdom would question the character motivations ''
        @ ''behind severe-harm actions.'', 0.7)
      else if deceptive then (Concern, ''Deception is incompatible with the virtue of honesty and the character ''
        @ ''of a trustworthy agent.'', 0.65)
      else (Permit, ''A virtuous agent would find no fundamental character flaw in this ''
        @ ''action.'', 0.75))"

definition contractualism_rule :: "bool \<Rightarrow> bool \<Rightarrow> bool \<Rightarrow> bool \<Rightarrow> verdict \<times> string \<times> real" where
  "contractualism_rule contextual crit protect deceptive =
     (if contextual then (Permit, ''Contractualist analysis - meta-discussion about safety systems would be ''
        @ ''accepted behind veil of ignorance as it protects all positions.'', 0.65)
      else if protect then (Forbid, ''Behind the veil of ignorance, no rational agent would permit ''
        @ ''exploitation of protected subjects.'', 0.9)
      else if crit then (Concern, ''Severe harm risks would not be accepted behind the veil of ignorance - ''
        @ ''the least advantaged are disproportionately affected.'', 0.75)
      else if deceptive then (Concern, ''Deception undermines the fair cooperation that contractualism requires - ''
        @ ''no agent would agree to be systematically deceived.'', 0.65)
      else (Permit, ''The action would likely be accepted in the original position as fair to ''
        @ ''all parties.'', 0.75))"

definition care_rule :: "bool \<Rightarrow> bool \<Rightarrow> bool \<Rightarrow> bool \<Rightarrow> verdict \<times> string \<times> real" where
  "care_rule contextual crit protect deceptive =
     (if contextual then (Permit, ''Care ethics analysis - building safety systems for AI demonstrates care ''
        @ ''for potential victims and the broader community.'', 0.7)
      else if protect then (Forbid, ''The duty of care to protected subjects is absolute; this action breaks ''
        @ ''trust and care relationships.'', 0.9)
      else if crit then (Concern, ''Caring for affected parties requires protecting them from severe harm - ''
        @ ''this action creates tension with that duty.'', 0.75)
      else if deceptive then (Concern, ''Deception damages the trust relationships that care ethics centers - ''
        @ ''caring requires honesty.'', 0.7)
      else (Permit, ''The web of relationships and duties of care do not appear threatened by ''
        @ ''this action.'', 0.75))"

fun framework_rule ::
  "framework \<Rightarrow> bool \<Rightarrow> bool \<Rightarrow> bool \<Rightarrow> bool \<Rightarrow> bool \<Rightarrow> verdict \<times> string \<times> real" where
  "framework_rule Consequentialism contextual crit moderate protect deceptive = consequentialism_rule contextual crit moderate protect"
| "framework_rule Deontology contextual crit moderate protect deceptive = deontology_rule contextual crit protect deceptive"
| "framework_rule Virtue contextual crit moderate protect deceptive = virtue_rule contextual crit protect deceptive"
| "framework_rule Contractualism contextual crit moderate protect deceptive = contractualism_rule contextual crit protect deceptive"
| "framework_rule Care contextual crit moderate protect deceptive = care_rule contextual crit protect deceptive"

definition rules_based_assessment :: "evaluation \<Rightarrow> framework \<Rightarrow> framework_evaluation" where
  "rules_based_assessment a fw =
     (let fs = filter (\<lambda>f. \<not> fl_suppressed f) (el_flags a)
      in case framework_rule fw (el_meta_context a \<or> el_technical_context a)
            (list_ex (\<lambda>f. Fin 0.8 \<le> fl_effective_weight f) fs)
            (list_ex (\<lambda>f. Fin 0.5 \<le> fl_effective_weight f) fs)
            (list_ex (\<lambda>f. fl_category f = ChildSafety) fs)
            (list_ex (\<lambda>f. fl_category f = Deception) fs) of
          (v, reasoning, c) \<Rightarrow> \<lparr>fe_framework = fw, fe_verdict = v, fe_reasoning = reasoning,
            fe_confidence = Fin c\<rparr>)"

definition count_verdict :: "verdict \<Rightarrow> framework_evaluation list \<Rightarrow> nat" where
  "count_verdict v es = length (filter (\<lambda>e. fe_verdict e = v) es)"

definition most_common_verdict :: "framework_evaluation list \<Rightarrow> verdict \<times> nat" where
  "most_common_verdict es =
     foldl (\<lambda>best v. if snd best < count_verdict v es then (v, count_verdict v es) else best)
       (Permit, count_verdict Permit es) [Concern, Forbid]"

definition convergence_score :: "framework_evaluation list \<Rightarrow> f64" where
  "convergence_score es = (if es = [] then Fin 0
     else Fin (real (snd (most_common_verdict es)) / real (length es)))"

definition aggregated_verdict :: "framework_evaluation list \<Rightarrow> bool \<Rightarrow> verdict" where
  "aggregated_verdict es refused =
     (let v = (if 3 \<le> count_verdict Forbid es \<or> 2 \<le> count_verdict Forbid es \<and> 1 \<le> count_verdict Concern es
            then Forbid
            else if 3 \<le> count_verdict Permit es then Permit else Concern)
      in if refused \<and> v = Permit then Concern else v)"

definition divergence_analysis :: "framework_evaluation list \<Rightarrow> string" where
  "divergence_analysis es =
     (let c = convergence_score es; majority = fst (most_common_verdict es)
      in if c < Fin 0.8
         then ''Divergence detected (convergence='' @ format_fixed 2 c @ ''). ''
           @ join_with ''. '' (map (\<lambda>e. framework_as_str (fe_framework e) @ '' says ''
                @ verdict_as_str (fe_verdict e) @ '': '' @ take_chars 100 (fe_reasoning e))
               (filter (\<lambda>e. fe_verdict e \<noteq> majority) es))
         else ''High convergence ('' @ format_fixed 2 c @ ''). All frameworks broadly agree on ''
           @ verdict_as_str majority @ ''.'')"

definition aggregate ::
  "framework_evaluation list \<Rightarrow> bool \<Rightarrow> string option \<Rightarrow> bool \<Rightarrow> layer_c_result" where
  "aggregate es llm fallback refused =
     \<lparr>lc_frameworks = es, lc_convergence = convergence_score es,
      lc_verdict = aggregated_verdict es refused, lc_divergence = divergence_analysis es,
      lc_processing_ms = Fin 0, lc_llm_available = llm, lc_fallback_reason = fallback\<rparr>"

definition evaluate_layer_c :: "evaluation \<Rightarrow> layer_c_result" where
  "evaluate_layer_c a =
     aggregate (map (rules_based_assessment a) frameworks) False (Some rules_fallback_reason) False"

definition aggregate_framework_evaluations :: "framework_evaluation list \<Rightarrow> bool \<Rightarrow> layer_c_result" where
  "aggregate_framework_evaluations es refused = aggregate es True None refused"

section \<open>Layer K\<close>

definition sim_floor :: f64 where
  "sim_floor = Fin 0.55"

definition hard_deny_hints :: "string list" where
  "hard_deny_hints =
     [''child'', ''csam'', ''minor'', ''sexual'', ''groom'', ''self_harm'', ''self-harm'',
      ''selfharm'', ''suicide'', ''hate'', ''harass'', ''violence'', ''violent'', ''weapon'', ''cbrn'',
      ''chemical'', ''biolog'', ''nuclear'', ''explos'', ''terror'', ''fraud'', ''illegal'',
      ''exploit'', ''traffick'']"

definition soft_allow_hints :: "string list" where
  "soft_allow_hints =
     [''compliance'', ''gdpr'', ''regulat'', ''privacy-by-design'', ''security-research'',
      ''security_research'', ''defensive'', ''defense-research'', ''detection-research'', ''academic'',
      ''research-method'', ''fairness'', ''bias-mitig'', ''mental-health-resource'',
      ''prevention-resource'']"

record knowledge_match =
  km_concept :: string
  km_verdict :: string
  km_severity :: string
  km_category :: "string option"
  km_similarity :: "f64 option"
  km_legitimate_exceptions :: "string list"
  km_distinction_rules :: "string list"
  km_benign_counterparts :: "string list option"
  km_legal_references :: "string list option"

datatype layer_k_decision = K_Flag | K_Abstain

record layer_k_result =
  lk_decision :: layer_k_decision
  lk_ruling :: "string option"
  lk_justification :: string
  lk_legal_references :: "string list option"
  lk_confidence :: f64

definition abstain :: "string \<Rightarrow> layer_k_result" where
  "abstain why = \<lparr>lk_decision = K_Abstain, lk_ruling = None, lk_justification = why,
     lk_legal_references = None, lk_confidence = Fin 0\<rparr>"

definition category_matches :: "string \<Rightarrow> string list \<Rightarrow> bool" where
  "category_matches category hints = list_ex (contains category) hints"

definition k_flag :: "knowledge_match \<Rightarrow> string \<Rightarrow> f64 \<Rightarrow> layer_k_result" where
  "k_flag best category similarity =
     \<lparr>lk_decision = K_Flag, lk_ruling = Some (km_concept best),
      lk_justification = ''Layer-A block in SOFT-ALLOW category '' @ [CHR 0x22] @ category @ [CHR 0x22]
        @ '' with precedent '' @ [CHR 0x22] @ km_concept best @ [CHR 0x22] @ '' (sim ''
        @ format_fixed 3 similarity @ '') that documents legitimate exceptions - candidate ''
        @ ''false-positive for human review. Enforcement unchanged (content remains blocked).'',
      lk_legal_references = km_legal_references best, lk_confidence = similarity\<rparr>"

definition documents_exceptions :: "knowledge_match \<Rightarrow> bool" where
  "documents_exceptions m \<longleftrightarrow> km_legitimate_exceptions m \<noteq> []
     \<or> (case km_benign_counterparts m of None \<Rightarrow> False | Some cs \<Rightarrow> cs \<noteq> [])"

definition evaluate_layer_k :: "ethics_patterns \<Rightarrow> knowledge_match list \<Rightarrow> bool \<Rightarrow> layer_k_result" where
  "evaluate_layer_k P ms blocked =
     (if \<not> blocked then abstain ''Layer A did not block - nothing to review''
      else case ms of [] \<Rightarrow> abstain ''no precedent matched''
      | best # _ \<Rightarrow>
        let similarity = (case km_similarity best of None \<Rightarrow> Fin 0 | Some x \<Rightarrow> x);
            severity = ep_lower P (km_severity best);
            category = ep_lower P (case km_category best of None \<Rightarrow> [] | Some c \<Rightarrow> c)
        in if \<not> is_finite similarity \<or> similarity < sim_floor
           then abstain (''top precedent below SIM_FLOOR ('' @ format_fixed 3 similarity @ '')'')
           else if severity = [] then abstain ''ruling has no severity - fail-closed, no advisory''
           else if severity = ''critical'' then abstain ''critical precedent - never advised as over-block''
           else if category = [] then abstain ''ruling has no category - fail-closed, no advisory''
           else if category_matches category hard_deny_hints
           then abstain (''HARD-DENY category ('' @ category @ '') - no advisory'')
           else if \<not> category_matches category soft_allow_hints
           then abstain (''category ('' @ category @ '') not in SOFT-ALLOW - fail-closed'')
           else if \<not> documents_exceptions best
           then abstain (''SOFT-ALLOW ('' @ category @ '') but ruling documents no exceptions'')
           else k_flag best category similarity)"

section \<open>The pipeline\<close>

record full_evaluation =
  fu_layer_a :: evaluation
  fu_layer_b :: layer_b_result
  fu_layer_c :: layer_c_result
  fu_layer_k :: "layer_k_result option"
  fu_enforcement_blocked :: bool

definition evaluate_ethics ::
  "ethics_patterns \<Rightarrow> bytes \<Rightarrow> knowledge_match list option \<Rightarrow> full_evaluation option" where
  "evaluate_ethics P s precedents =
     Option.bind (evaluate P s) (\<lambda>a.
       let b = evaluate_layer_b P a s;
           blocked = (el_enforcement_blocked a \<or> lb_decision b = B_Block)
       in Some \<lparr>fu_layer_a = a, fu_layer_b = b, fu_layer_c = evaluate_layer_c a,
            fu_layer_k = map_option (\<lambda>ms. evaluate_layer_k P ms blocked) precedents,
            fu_enforcement_blocked = blocked\<rparr>)"

end
