(* ===== verification/Ethics_Search.thy ===== *)
theory Ethics_Search
  imports Ethics_Layers
begin

text \<open>
  The search of the lexicon: it always ends, it visits every occurrence of a term that starts a word,
  and the flags it raises are exactly those of the visited whole words.
\<close>

section \<open>Finding a term\<close>

lemma find_sub_Some:
  "find_sub s t = Some k \<Longrightarrow> prefix t (drop k s) \<and> k + length t \<le> length s \<and> (\<forall>j<k. \<not> prefix t (drop j s))"
proof (induction s arbitrary: k)
  case (Cons c s)
  show ?case
  proof (cases "prefix t (c # s)")
    case True
    with Cons.prems show ?thesis by (auto dest: prefix_length_le)
  next
    case False
    with Cons.prems obtain k' where k: "find_sub s t = Some k'" "k = Suc k'" by auto
    have "\<not> prefix t (drop j (c # s))" if "j < k" for j
      using that False Cons.IH [OF k(1)] k(2) by (cases j) auto
    with Cons.IH [OF k(1)] k(2) show ?thesis by simp
  qed
qed (auto split: if_splits)

lemma find_sub_None: "find_sub s t = None \<Longrightarrow> \<not> prefix t (drop j s)"
proof (induction s arbitrary: j)
  case (Cons c s)
  then show ?case by (cases j) (auto split: if_splits)
qed (auto split: if_splits)

lemma prefix_drop_bound: "prefix t (drop p s) \<Longrightarrow> t \<noteq> [] \<Longrightarrow> p + length t \<le> length s"
  using prefix_length_le [of t "drop p s"] by (cases "p \<le> length s") auto

lemma occurrences_exist:
  assumes "t \<noteq> []"
  shows "\<exists>ps. occurrences s t from' = Some ps"
proof (induction "length s - from'" arbitrary: from' rule: less_induct)
  case less
  show ?case
  proof (cases "find_sub (drop from' s) t")
    case None
    then show ?thesis by (subst occurrences.simps) simp
  next
    case (Some k)
    with find_sub_Some [OF Some] assms have "length s - (from' + k + length t) < length s - from'"
      by (cases t) auto
    from less [OF this] obtain ps where "occurrences s t (from' + k + length t) = Some ps" by blast
    with Some show ?thesis by (subst occurrences.simps) simp
  qed
qed

lemma occurrences_visit:
  assumes "t \<noteq> []" and "prefix t (drop p s)"
    and "\<And>q. q < p \<Longrightarrow> p < q + length t \<Longrightarrow> \<not> prefix t (drop q s)"
    and "from' \<le> p" and "occurrences s t from' = Some ps"
  shows "p \<in> set ps"
  using assms(4,5)
proof (induction "length s - from'" arbitrary: from' ps rule: less_induct)
  case less
  have here: "prefix t (drop (p - from') (drop from' s))" using assms(2) less.prems(1) by simp
  show ?case
  proof (cases "find_sub (drop from' s) t")
    case None
    from find_sub_None [OF this] here show ?thesis by blast
  next
    case (Some k)
    note k = find_sub_Some [OF Some]
    let ?next = "from' + k + length t"
    obtain qs where qs: "occurrences s t ?next = Some qs" using occurrences_exist [OF assms(1)] by blast
    with Some less.prems(2) have ps: "ps = (from' + k) # qs" by (subst (asm) occurrences.simps) simp
    have "k \<le> p - from'" using k here by (meson not_less)
    with less.prems(1) have at': "from' + k \<le> p" by linarith
    show ?thesis
    proof (cases "from' + k = p")
      case True
      with ps show ?thesis by simp
    next
      case False
      have "prefix t (drop (from' + k) s)" using k by (simp add: add.commute)
      with assms(3) [of "from' + k"] False at' have "?next \<le> p" by linarith
      moreover have "length s - ?next < length s - from'" using k assms(1) by (cases t) auto
      ultimately show ?thesis using less.hyps [OF _ _ qs] ps by simp
    qed
  qed
qed

section \<open>Whole words\<close>

lemma utf8_char_last:
  assumes "utf8_char w" and "code (last w) < 128"
  shows "w = [last w]"
proof -
  from assms(1) have "w \<noteq> []" by auto
  with assms show ?thesis
    by (cases w rule: utf8_char.cases) (auto simp: cont_byte_def)
qed

lemma last_char_ascii:
  assumes "utf8_valid s" and "s \<noteq> []" and "code (last s) < 128"
  shows "\<exists>cs. rev (chars s) = [last s] # cs"
proof -
  from assms(2) have ne: "chars s \<noteq> []" by (cases s) simp_all
  then obtain cs w where cs: "chars s = cs @ [w]" by (metis rev_exhaust)
  have w: "utf8_char w" using assms(1) cs by (simp add: utf8_valid_def)
  then have "w \<noteq> []" by auto
  moreover have "s = concat cs @ w" using concat_chars [of s] cs by simp
  ultimately have "last s = last w" by simp
  with utf8_char_last [OF w] assms(3) cs show ?thesis by simp
qed

text \<open>A term that cannot overlap itself at the start of one of its words.\<close>

definition word_byte :: "char \<Rightarrow> bool" where
  "word_byte c \<longleftrightarrow> (let a = code c in 48 \<le> a \<and> a \<le> 57 \<or> 65 \<le> a \<and> a \<le> 90 \<or> 97 \<le> a \<and> a \<le> 122 \<or> a = 95)"

fun restarts :: "bytes \<Rightarrow> bytes \<Rightarrow> bool" where
  "restarts t [] = False"
| "restarts t (c # s) = (\<not> word_byte c \<and> s \<noteq> [] \<and> prefix s t \<or> restarts t s)"

definition separable :: "bytes \<Rightarrow> bool" where
  "separable t \<longleftrightarrow> t \<noteq> [] \<and> ascii t \<and> \<not> restarts t t"

lemma restarts_at:
  "\<not> restarts t s \<Longrightarrow> Suc d < length s \<Longrightarrow> word_byte (s ! d) \<or> \<not> prefix (drop (Suc d) s) t"
proof (induction s arbitrary: d)
  case (Cons c s)
  then show ?case by (cases d) auto
qed simp

lemma lexicon_terms:
  "map lx_term lexicon =
     [''kill'', ''murder'', ''torture'', ''stab'', ''genocide'', ''matar'', ''asesinar'', ''torturar'',
      ''secuestrar'', ''genocidio'', ''child abuse'', ''pedophilia'', ''csam'', ''child predator'',
      ''abuso infantil'', ''pedofilia'', ''hate speech'', ''racist'', ''ethnic cleansing'',
      ''subhuman'', ''racista'', ''limpieza etnica'', ''kill myself'', ''end my life'', ''suicide'',
      ''suicidio'', ''autolesion'', ''cortarme'', ''rape'', ''sexual assault'', ''revenge porn'',
      ''violacion'', ''violar'', ''phishing'', ''blackmail'', ''identity theft'', ''estafa'',
      ''chantaje'', ''extorsion'', ''human trafficking'', ''money laundering'', ''cook meth'',
      ''hitman'', ''trata de personas'', ''lavado de dinero'', ''sicario'', ''deepfake'',
      ''disinformation'', ''desinformacion'', ''doxxing'', ''keylog'', ''wiretap'', ''doxxear'',
      ''doxear'', ''ransomware'', ''malware'', ''keylogger'', ''rootkit'', ''exploit'', ''troyano'',
      ''hackear'', ''brainwash'', ''mind control'', ''gaslight'', ''lavado cerebral'', ''jailbreak'',
      ''dan mode'', ''bypass ethics'', ''override safety'', ''prompt injection'',
      ''ignora tus reglas'', ''sin restricciones'']"
  unfolding lexicon_def lex_def list.map by (simp only: lexicon_entry.simps)

lemma lexicon_separable: "e \<in> set lexicon \<Longrightarrow> separable (lx_term e)"
proof -
  have "list_all separable (map lx_term lexicon)" unfolding lexicon_terms by code_simp
  then show "e \<in> set lexicon \<Longrightarrow> separable (lx_term e)" by (auto simp: list_all_iff)
qed

lemma is_word_ascii: "is_word P [c] = word_byte c"
  unfolding is_word_def word_byte_def Let_def by (simp only: list.map list.case)

text \<open>The whole word \<open>t\<close> between \<open>pre\<close> and \<open>post\<close>.\<close>

definition whole_word :: "ethics_patterns \<Rightarrow> bytes \<Rightarrow> bytes \<Rightarrow> bool" where
  "whole_word P pre post \<longleftrightarrow> utf8_valid pre
     \<and> (case rev (chars pre) of [] \<Rightarrow> True | c # _ \<Rightarrow> \<not> is_word P c)
     \<and> (case chars post of [] \<Rightarrow> True | c # _ \<Rightarrow> \<not> is_word P c)"

lemma whole_word_boundary:
  "whole_word P pre post \<Longrightarrow> has_word_boundary P (pre @ t @ post) (length pre) (length t)"
proof -
  have "take (length pre) (pre @ t @ post) = pre" "drop (length pre + length t) (pre @ t @ post) = post"
    by simp_all
  then show "whole_word P pre post \<Longrightarrow> has_word_boundary P (pre @ t @ post) (length pre) (length t)"
    unfolding whole_word_def has_word_boundary_def by (simp only: simp_thms)
qed

lemma self_overlap:
  assumes "prefix t (u @ t @ post)" and "length u < length t"
  shows "take (length u) t = u" and "prefix (drop (length u) t) t"
proof -
  from assms(1) obtain z where z: "u @ t @ post = t @ z" by (auto simp: prefix_def)
  have "take (length u) (u @ t @ post) = take (length u) (t @ z)" by (simp only: z)
  with assms(2) show "take (length u) t = u" by simp
  have "drop (length u) (u @ t @ post) = drop (length u) (t @ z)" by (simp only: z)
  with assms(2) have "t @ post = drop (length u) t @ z" by simp
  then have "prefix (drop (length u) t) (t @ post)" by (metis prefix_def)
  from prefix_length_prefix [OF this, of t] show "prefix (drop (length u) t) t" by simp
qed

lemma whole_word_first:
  assumes "separable t" and "whole_word P pre post" and "q < length pre" and "length pre < q + length t"
  shows "\<not> prefix t (drop q (pre @ t @ post))"
proof
  assume p: "prefix t (drop q (pre @ t @ post))"
  let ?u = "drop q pre" and ?d = "length pre - q - 1"
  have "drop q (pre @ t @ post) = ?u @ t @ post" using assms(3) by simp
  with p have u: "prefix t (?u @ t @ post)" by (simp only:)
  have len: "length ?u < length t" "?u \<noteq> []" using assms(3,4) by auto
  note over = self_overlap [OF u len(1)]
  have "last pre = last (take (length ?u) t)" unfolding over(1) using assms(3) by (simp add: last_drop)
  also have "\<dots> = t ! ?d" using len assms(3) by (subst last_conv_nth) auto
  finally have last: "last pre = t ! ?d" .
  have "Suc ?d = length ?u" using assms(3) by simp
  with len(1) have d: "Suc ?d < length t" "drop (Suc ?d) t = drop (length ?u) t" by (simp_all only:)
  then have "code (t ! ?d) < 128" using assms(1) by (auto simp: separable_def ascii_def list_all_length)
  moreover have "pre \<noteq> []" using assms(3) by auto
  ultimately obtain cs where "rev (chars pre) = [t ! ?d] # cs"
    using last_char_ascii [of pre] assms(2) last unfolding whole_word_def by metis
  with assms(2) have "\<not> word_byte (t ! ?d)" unfolding whole_word_def by (simp only: list.case is_word_ascii simp_thms)
  moreover have "word_byte (t ! ?d) \<or> \<not> prefix (drop (Suc ?d) t) t"
    using restarts_at [of t t ?d] assms(1) d(1) by (simp add: separable_def)
  ultimately show False using over(2) d(2) by simp
qed

lemma whole_word_visited:
  assumes "separable t" and "whole_word P pre post" and "occurrences (pre @ t @ post) t 0 = Some ps"
  shows "length pre \<in> set ps"
proof (rule occurrences_visit [OF _ _ whole_word_first [OF assms(1,2)] _ assms(3)])
  show "t \<noteq> []" using assms(1) by (simp add: separable_def)
  show "prefix t (drop (length pre) (pre @ t @ post))" by simp
qed simp_all

end
