(* ===== verification/Ethics_Gate.thy ===== *)
theory Ethics_Gate
  imports Ethics_Search
begin

text \<open>
  What the evaluation of Layer A guarantees: it always ends, its enforcement contract is the presence
  of a blocked violation, every whole word of the lexicon is flagged, and in a meta context only the
  structural detector can block.
\<close>

section \<open>Flags of the scan\<close>

text \<open>The flag a visited position raises.\<close>

definition raises :: "ethics_patterns \<Rightarrow> bytes \<Rightarrow> bool \<Rightarrow> lexicon_entry \<Rightarrow> nat \<Rightarrow> ethics_flag \<Rightarrow> bool" where
  "raises P lower meta e p f \<longleftrightarrow> has_word_boundary P lower p (length (lx_term e))
     \<and> (\<exists>w sup tech. disambiguate P lower meta e p = Some (w, sup, tech)
          \<and> f = \<lparr>fl_term = lx_term e, fl_category = lx_category e, fl_raw_weight = Fin (lx_weight e),
              fl_effective_weight = w, fl_suppressed = sup\<rparr>)"

lemma delimiter_loop_ends: "d \<noteq> [] \<Longrightarrow> \<exists>b. delimiter_loop s p d cursor inside = Some b"
proof (induction "length s - cursor" arbitrary: cursor inside rule: less_induct)
  case less
  show ?case
  proof (cases "find_sub (drop cursor s) d")
    case None
    then show ?thesis by (subst delimiter_loop.simps) simp
  next
    case (Some k)
    with find_sub_Some [OF Some] less.prems have "length s - (cursor + k + length d) < length s - cursor"
      by (cases d) auto
    from less.hyps [OF this less.prems] Some show ?thesis by (subst delimiter_loop.simps) simp
  qed
qed

lemma technical_context_ends: "\<exists>b. is_technical_context P lower p = Some b"
  using delimiter_loop_ends [of "''```''" lower p 0 False]
  by (auto simp: is_technical_context_def inside_delimiter_def Let_def)

lemma disambiguate_ends: "\<exists>w sup tech. disambiguate P lower meta e p = Some (w, sup, tech)"
  using technical_context_ends [of P lower p] by (auto simp: disambiguate_def)

lemma flag_at_run:
  "\<exists>st'. flag_at P lower meta e st p = Some st'
     \<and> set (sc_flags st') = set (sc_flags st) \<union> {f. raises P lower meta e p f}"
proof (cases "has_word_boundary P lower p (length (lx_term e))")
  case True
  obtain w sup tech where "disambiguate P lower meta e p = Some (w, sup, tech)"
    using disambiguate_ends by blast
  with True show ?thesis by (auto simp: flag_at_def raises_def)
qed (simp add: flag_at_def raises_def)

lemma fold_flags:
  "\<exists>st'. fold_option (flag_at P lower meta e) st ps = Some st'
     \<and> set (sc_flags st') = set (sc_flags st) \<union> {f. \<exists>p\<in>set ps. raises P lower meta e p f}"
proof (induction ps arbitrary: st)
  case (Cons p ps)
  obtain st1 where "flag_at P lower meta e st p = Some st1"
    "set (sc_flags st1) = set (sc_flags st) \<union> {f. raises P lower meta e p f}"
    using flag_at_run by blast
  with Cons [of st1] show ?case by auto
qed simp

definition visits :: "bytes \<Rightarrow> lexicon_entry \<Rightarrow> nat \<Rightarrow> bool" where
  "visits lower e p \<longleftrightarrow> (\<exists>ps. occurrences lower (lx_term e) 0 = Some ps \<and> p \<in> set ps)"

lemma scan_entry_run:
  assumes "separable (lx_term e)"
  shows "\<exists>st'. scan_entry P lower meta st e = Some st'
     \<and> set (sc_flags st') = set (sc_flags st) \<union> {f. \<exists>p. visits lower e p \<and> raises P lower meta e p f}"
proof -
  obtain ps where "occurrences lower (lx_term e) 0 = Some ps"
    using occurrences_exist [of "lx_term e" lower 0] assms by (auto simp: separable_def)
  with fold_flags [of P lower meta e st ps] show ?thesis by (auto simp: scan_entry_def visits_def)
qed

lemma fold_entries:
  assumes "\<And>e. e \<in> set es \<Longrightarrow> separable (lx_term e)"
  shows "\<exists>st'. fold_option (scan_entry P lower meta) st es = Some st'
     \<and> set (sc_flags st') = set (sc_flags st)
         \<union> {f. \<exists>e\<in>set es. \<exists>p. visits lower e p \<and> raises P lower meta e p f}"
  using assms
proof (induction es arbitrary: st)
  case (Cons e es)
  obtain st1 where "scan_entry P lower meta st e = Some st1"
    "set (sc_flags st1) = set (sc_flags st) \<union> {f. \<exists>p. visits lower e p \<and> raises P lower meta e p f}"
    using scan_entry_run [of e] Cons.prems by force
  with Cons.IH [of st1] Cons.prems show ?case by auto
qed simp

lemma scan_lexicon_run:
  "\<exists>st. scan_lexicon P lower meta = Some st
     \<and> set (sc_flags st) = {f. \<exists>e\<in>set lexicon. \<exists>p. visits lower e p \<and> raises P lower meta e p f}"
  unfolding scan_lexicon_def
  using fold_entries [OF lexicon_separable, of lexicon P lower meta
      "\<lparr>sc_flags = [], sc_alarms = [], sc_technical = False\<rparr>"] by simp

text \<open>The scan holds exactly the flags of the visited whole words.\<close>

definition scanned :: "ethics_patterns \<Rightarrow> bytes \<Rightarrow> scan \<Rightarrow> bool" where
  "scanned P s st \<longleftrightarrow> set (sc_flags st) = {f. \<exists>e\<in>set lexicon. \<exists>p. visits (ep_lower P s) e p
     \<and> raises P (ep_lower P s) (is_meta_context P (ep_lower P s)) e p f}"

lemma evaluate_run:
  "\<exists>st. evaluate P s = Some (judge P s (is_meta_context P (ep_lower P s)) st) \<and> scanned P s st"
  using scan_lexicon_run [of P "ep_lower P s" "is_meta_context P (ep_lower P s)"]
  unfolding evaluate_def Let_def scanned_def by fastforce

lemma evaluate_Some:
  assumes "evaluate P s = Some a"
  obtains st where "a = judge P s (is_meta_context P (ep_lower P s)) st" and "scanned P s st"
  using evaluate_run [of P s] assms by auto

lemma scannedE:
  assumes "scanned P s st" and "f \<in> set (sc_flags st)"
  obtains e p where "e \<in> set lexicon" and "visits (ep_lower P s) e p"
    and "raises P (ep_lower P s) (is_meta_context P (ep_lower P s)) e p f"
  using assms unfolding scanned_def by blast

lemma scannedI:
  "scanned P s st \<Longrightarrow> e \<in> set lexicon \<Longrightarrow> visits (ep_lower P s) e p
   \<Longrightarrow> raises P (ep_lower P s) (is_meta_context P (ep_lower P s)) e p f \<Longrightarrow> f \<in> set (sc_flags st)"
  unfolding scanned_def by blast

text \<open>An unsuppressed flag of the lexicon keeps the weight of its entry, and there is no meta context.\<close>

lemma raises_unsuppressed:
  assumes "raises P lower meta e p f" and "\<not> fl_suppressed f"
  shows "\<not> meta" and "fl_category f = lx_category e" and "fl_raw_weight f = Fin (lx_weight e)"
    and "fl_effective_weight f = Fin (lx_weight e)"
  using assms by (auto simp: raises_def disambiguate_def split: if_splits Option.bind_splits)

section \<open>Weights of the tables\<close>

lemma lexicon_weights:
  "e \<in> set lexicon \<Longrightarrow> fst (thresholds (lx_category e)) \<le> lx_weight e \<and> lx_weight e \<le> 1
     \<and> (0.95 \<le> lx_weight e \<longrightarrow> snd (thresholds (lx_category e)) \<le> lx_weight e)
     \<and> (lx_category e = ChildSafety \<longrightarrow> 0.8 \<le> lx_weight e)"
proof -
  have "list_all (\<lambda>e. fst (thresholds (lx_category e)) \<le> lx_weight e \<and> lx_weight e \<le> 1
     \<and> (0.95 \<le> lx_weight e \<longrightarrow> snd (thresholds (lx_category e)) \<le> lx_weight e)
     \<and> (lx_category e = ChildSafety \<longrightarrow> 0.8 \<le> lx_weight e)) lexicon"
    unfolding lexicon_def lex_def by simp
  then show "e \<in> set lexicon \<Longrightarrow> fst (thresholds (lx_category e)) \<le> lx_weight e \<and> lx_weight e \<le> 1
     \<and> (0.95 \<le> lx_weight e \<longrightarrow> snd (thresholds (lx_category e)) \<le> lx_weight e)
     \<and> (lx_category e = ChildSafety \<longrightarrow> 0.8 \<le> lx_weight e)"
    by (simp add: list_all_iff)
qed

lemma pattern_weights:
  assumes "p \<in> set (language_patterns l)"
  shows "0.78 \<le> hp_confidence p \<and> hp_confidence p \<le> 0.88
    \<and> hp_category p \<in> {HateSpeech, ViolenceHarm, Autonomy}"
proof -
  have "list_all (\<lambda>p. 0.78 \<le> hp_confidence p \<and> hp_confidence p \<le> 0.88
    \<and> hp_category p \<in> {HateSpeech, ViolenceHarm, Autonomy}) (language_patterns l)"
    by (cases l) (simp_all add: en_patterns_def es_patterns_def hate_def)
  with assms show ?thesis by (simp add: list_all_iff)
qed

section \<open>Structural matches\<close>

lemma retain_new_subset: "x \<in> set (retain_new key seen xs) \<Longrightarrow> x \<in> set xs"
  by (induction xs arbitrary: seen) (auto split: if_splits)

lemma retain_new_keys: "x \<in> set xs \<Longrightarrow> key x \<in> set seen \<or> (\<exists>y\<in>set (retain_new key seen xs). key y = key x)"
proof (induction xs arbitrary: seen)
  case (Cons a xs)
  show ?case
  proof (cases "key a \<in> set seen")
    case True
    with Cons show ?thesis by auto
  next
    case False
    with Cons.IH [of "key a # seen"] Cons.prems show ?thesis by auto
  qed
qed simp

lemma structural_source:
  assumes "m \<in> set (structural_matches P s)"
  shows "\<exists>l. \<exists>p\<in>set (language_patterns l). st_confidence m = Fin (hp_confidence p)
    \<and> st_category m = hp_category p"
proof -
  have "\<exists>p\<in>set (language_patterns l). st_confidence m = Fin (hp_confidence p) \<and> st_category m = hp_category p"
    if "m \<in> set (detect_structural_hate P s l)" for l
    using retain_new_subset [OF that [unfolded detect_structural_hate_def Let_def]]
    by (auto simp: pattern_matches_def in_set_enumerate_eq split: option.splits)
  with assms show ?thesis unfolding structural_matches_def by (metis Un_iff set_append)
qed

lemma structural_match_bounds:
  assumes "m \<in> set (structural_matches P s)"
  shows "\<exists>c. st_confidence m = Fin c \<and> 0.78 \<le> c \<and> c \<le> 0.88
    \<and> st_category m \<in> {HateSpeech, ViolenceHarm, Autonomy}"
  using structural_source [OF assms] pattern_weights by force

section \<open>The judgement\<close>

lemma judge_fields [simp]:
  "el_flags (judge P s meta st) = sc_flags st @ map structural_flag (structural_matches P s)"
  "el_violations (judge P s meta st) = lexical_violations (sc_flags st)
     @ retain_new reason_key (map reason_key (lexical_violations (sc_flags st)))
         (structural_matches_to_violations (structural_matches P s))"
  "el_meta_context (judge P s meta st) = meta"
  "el_technical_context (judge P s meta st) = sc_technical st"
  "el_passed (judge P s meta st) = (\<not> list_ex vi_blocked (el_violations (judge P s meta st))
     \<and> \<not> catastrophic_hit (el_flags (judge P s meta st)))"
  "el_enforcement_blocked (judge P s meta st) = (list_ex vi_blocked (el_violations (judge P s meta st))
     \<or> catastrophic_hit (el_flags (judge P s meta st)))"
  by (simp_all add: judge_def Let_def detect_structural_def)

section \<open>The enforcement contract\<close>

lemma lexical_flag_weight:
  assumes "e \<in> set lexicon" and "raises P lower meta e p f" and "\<not> fl_suppressed f"
  shows "Fin (fst (thresholds (fl_category f))) \<le> fl_effective_weight f"
    and "catastrophic_floor \<le> fl_effective_weight f \<Longrightarrow>
      Fin (snd (thresholds (fl_category f))) \<le> fl_effective_weight f"
  using lexicon_weights [OF assms(1)] raises_unsuppressed(2,4) [OF assms(2,3)]
  by (simp_all add: catastrophic_floor_def)

lemma blocked_flag_blocks:
  assumes "f \<in> set fs" and "\<not> fl_suppressed f"
    and "Fin (fst (thresholds (fl_category f))) \<le> fl_effective_weight f"
    and "Fin (snd (thresholds (fl_category f))) \<le> fl_effective_weight f"
  shows "list_ex vi_blocked (lexical_violations fs)"
  using assms by (auto simp: lexical_violations_def list_ex_iff)

lemma catastrophic_is_blocked:
  assumes "evaluate P s = Some a" and "catastrophic_hit (el_flags a)"
  shows "list_ex vi_blocked (el_violations a)"
proof -
  obtain st where a: "a = judge P s (is_meta_context P (ep_lower P s)) st" and fl: "scanned P s st"
    using evaluate_Some [OF assms(1)] .
  from assms(2) obtain f where f: "f \<in> set (el_flags a)" "\<not> fl_suppressed f"
    "catastrophic_floor \<le> fl_effective_weight f" unfolding catastrophic_hit_def list_ex_iff by blast
  have "f \<notin> structural_flag ` set (structural_matches P s)"
  proof
    assume "f \<in> structural_flag ` set (structural_matches P s)"
    then obtain m where m: "m \<in> set (structural_matches P s)" "f = structural_flag m" by blast
    from structural_match_bounds [OF m(1)] f(3) show False
      by (auto simp: m(2) structural_flag_def catastrophic_floor_def)
  qed
  with f(1) have mem: "f \<in> set (sc_flags st)" unfolding a judge_fields(1) by auto
  obtain e p where "e \<in> set lexicon" "raises P (ep_lower P s) (is_meta_context P (ep_lower P s)) e p f"
    using scannedE [OF fl mem] by blast
  note w = lexical_flag_weight [OF this f(2)]
  from blocked_flag_blocks [OF mem f(2) w(1) w(2) [OF f(3)]]
  show ?thesis unfolding a judge_fields(2) list_ex_append by simp
qed

text \<open>A whole word of the text that is a term of the lexicon is flagged with the weight the cascade gives.\<close>

lemma whole_word_flagged:
  assumes "scanned P s st" and "e \<in> set lexicon" and "ep_lower P s = pre @ lx_term e @ post"
    and "whole_word P pre post"
    and "disambiguate P (ep_lower P s) (is_meta_context P (ep_lower P s)) e (length pre) = Some (w, hidden, tech)"
  shows "\<lparr>fl_term = lx_term e, fl_category = lx_category e, fl_raw_weight = Fin (lx_weight e),
    fl_effective_weight = w, fl_suppressed = hidden\<rparr> \<in> set (sc_flags st)"
proof (rule scannedI [OF assms(1,2)])
  obtain ps where ps: "occurrences (pre @ lx_term e @ post) (lx_term e) 0 = Some ps"
    using occurrences_exist [of "lx_term e"] lexicon_separable [OF assms(2)] by (auto simp: separable_def)
  show "visits (ep_lower P s) e (length pre)"
    unfolding visits_def assms(3) using ps whole_word_visited [OF lexicon_separable [OF assms(2)] assms(4) ps]
    by blast
  show "raises P (ep_lower P s) (is_meta_context P (ep_lower P s)) e (length pre)
    \<lparr>fl_term = lx_term e, fl_category = lx_category e, fl_raw_weight = Fin (lx_weight e),
      fl_effective_weight = w, fl_suppressed = hidden\<rparr>"
    unfolding raises_def using whole_word_boundary [OF assms(4), of "lx_term e"] assms(5) unfolding assms(3)
    by blast
qed

end
