(* ===== verification/Ethics_Claims.thy ===== *)
theory Ethics_Claims
  imports Ethics_Gate
begin

text \<open>
  The properties of the ethics evaluation: the contract of the write gate, the words it cannot miss,
  what a meta context switches off, the tail risk of Layer B, the verdicts of Layer C, and that the
  advisory layers never relax enforcement.
\<close>

section \<open>Layer A\<close>

text \<open>
  C16. The evaluation always ends, on every text, and its three outputs agree: content is blocked for
  enforcement exactly when it did not pass, and exactly when one of the reported violations is a
  blocked one. So the catastrophic floor adds nothing to the thresholds of the tables.
\<close>

theorem gate_contract:
  "\<exists>a. evaluate P s = Some a
     \<and> (el_enforcement_blocked a \<longleftrightarrow> \<not> el_passed a)
     \<and> (el_enforcement_blocked a \<longleftrightarrow> (\<exists>v\<in>set (el_violations a). vi_blocked v))"
proof -
  obtain st where run: "evaluate P s = Some (judge P s (is_meta_context P (ep_lower P s)) st)"
    using evaluate_run by blast
  let ?a = "judge P s (is_meta_context P (ep_lower P s)) st"
  from catastrophic_is_blocked [OF run] have "el_enforcement_blocked ?a \<longleftrightarrow> list_ex vi_blocked (el_violations ?a)"
    unfolding judge_fields(6) by blast
  moreover have "el_enforcement_blocked ?a \<longleftrightarrow> \<not> el_passed ?a"
    unfolding judge_fields(5,6) by blast
  ultimately show ?thesis using run unfolding list_ex_iff by blast
qed

text \<open>
  When an entry of the lexicon that no context suppresses reaches the block threshold of its category, a
  text that contains its term as a whole word, anywhere, is blocked, unless it is a meta context.
\<close>

lemma severe_violation:
  assumes "e \<in> set lexicon" and "\<not> lx_living_target e" and "\<not> lx_technical e"
    and "snd (thresholds (lx_category e)) \<le> lx_weight e"
    and "ep_lower P s = pre @ lx_term e @ post" and "whole_word P pre post"
    and "\<not> is_meta_context P (ep_lower P s)"
  shows "\<exists>a. evaluate P s = Some a \<and> el_enforcement_blocked a
     \<and> (\<exists>v\<in>set (el_violations a). vi_blocked v \<and> vi_category v = lx_category e)"
proof -
  obtain st where run: "evaluate P s = Some (judge P s (is_meta_context P (ep_lower P s)) st)"
    and sc: "scanned P s st" using evaluate_run by blast
  let ?a = "judge P s (is_meta_context P (ep_lower P s)) st"
  let ?f = "\<lparr>fl_term = lx_term e, fl_category = lx_category e, fl_raw_weight = Fin (lx_weight e),
    fl_effective_weight = Fin (lx_weight e), fl_suppressed = False\<rparr>"
  have f: "?f \<in> set (sc_flags st)"
    by (rule whole_word_flagged [OF sc assms(1,5,6)]) (use assms(2,3,7) in \<open>simp add: disambiguate_def\<close>)
  let ?v = "\<lparr>vi_category = lx_category e, vi_confidence = Fin (lx_weight e), vi_blocked = True\<rparr>"
  have "?v \<in> set (lexical_violations (sc_flags st))"
    unfolding lexical_violations_def set_map set_filter
    by (rule image_eqI [of _ _ ?f]) (use f lexicon_weights [OF assms(1)] assms(4) in simp_all)
  then have v: "?v \<in> set (el_violations ?a)" unfolding judge_fields(2) by simp
  then have "el_enforcement_blocked ?a" unfolding judge_fields(6) list_ex_iff by force
  with run v show ?thesis by force
qed

text \<open>
  C24. In a meta context the lexicon enforces nothing: every flag of a term is suppressed, whatever its
  weight, and the violations are those of the structural detector alone. A text that matches one of
  the meta signals and no structural pattern passes, whatever else it says.
\<close>

theorem meta_context_only_structural:
  assumes "is_meta_context P (ep_lower P s)" and "evaluate P s = Some a"
  shows "el_violations a = retain_new reason_key [] (structural_matches_to_violations (structural_matches P s))
    \<and> (\<forall>f\<in>set (el_flags a). fl_suppressed f \<or> f \<in> structural_flag ` set (structural_matches P s))
    \<and> (structural_matches P s = [] \<longrightarrow> el_passed a)"
proof -
  obtain st where a: "a = judge P s (is_meta_context P (ep_lower P s)) st" and sc: "scanned P s st"
    using evaluate_Some [OF assms(2)] .
  have sup: "fl_suppressed f" if f: "f \<in> set (sc_flags st)" for f
    using scannedE [OF sc f] raises_unsuppressed(1) assms(1) by metis
  then have none: "lexical_violations (sc_flags st) = []"
    by (auto simp: lexical_violations_def filter_empty_conv)
  have "el_passed a" if "structural_matches P s = []"
    using that sup none unfolding a judge_fields
    by (auto simp: structural_matches_to_violations_def catastrophic_hit_def list_ex_iff)
  with none sup show ?thesis unfolding a judge_fields by auto
qed

text \<open>
  The violations of the structural detector are compared by the type of their pattern and the first 40
  characters of the match. Two statements that differ after that point count once, with the first one's
  confidence, so a violation that blocks is lost behind one that does not.
\<close>

theorem structural_violation_lost:
  assumes "st_pattern_type m = st_pattern_type n"
    and "take_chars 40 (st_matched_text m) = take_chars 40 (st_matched_text n)"
  shows "structural_matches_to_violations [m, n] = structural_matches_to_violations [m]"
  using assms by (simp add: structural_matches_to_violations_def violation_key_def)

section \<open>Layer B\<close>

lemma pad_clamp_unit: "\<exists>r. pad_clamp x 0 1 = Fin r \<and> 0 \<le> r \<and> r \<le> 1"
  using pad_clamp_ranged [of 0 1 x] by (auto simp: ranged_def)

definition weighed :: "risk \<Rightarrow> bool" where
  "weighed r \<longleftrightarrow> (\<exists>c. rk_composite r = Fin c \<and> 0 \<le> c \<and> c \<le> 1) \<and> rk_reversibility r \<noteq> Reversible"

lemma profile_reversibility: "rp_reversibility (risk_profile c) \<noteq> Reversible"
  by (cases c) (simp_all add: profile_def)

lemma weighed_flag_risk: "weighed (map_flag_to_risk f a)"
  using pad_clamp_unit profile_reversibility by (simp add: weighed_def map_flag_to_risk_def Let_def)

lemma weighed_alarm_risk: "rv \<noteq> Reversible \<Longrightarrow> weighed (alarm_risk c d p b rv v)"
  using pad_clamp_unit by (simp add: weighed_def alarm_risk_def)

lemma weighed_escalate: "weighed r \<Longrightarrow> weighed (escalate rv v r)"
  using pad_clamp_unit by (auto simp: weighed_def escalate_def Let_def)

lemma weighed_content_risks: "r \<in> set (content_risks P a s) \<Longrightarrow> weighed r"
proof -
  have rv: "inferred_reversibility P l \<noteq> Reversible" for l by (simp add: inferred_reversibility_def)
  assume "r \<in> set (content_risks P a s)"
  then show "weighed r"
    unfolding content_risks_def Let_def flag_risks_def volitional_risks_def ambiguous_risks_def
    using weighed_escalate [OF weighed_flag_risk] weighed_escalate [OF weighed_alarm_risk [OF rv]]
    by (auto simp: weighed_def cbrn_risk_def split: option.splits if_splits)
qed

lemma f64_sum_Fin: "f64_sum (map Fin rs) = Fin (sum_list rs)"
proof -
  have "foldl (+) (Fin a) (map Fin rs) = Fin (a + sum_list rs)" for a
    by (induction rs arbitrary: a) (simp_all add: add.assoc)
  then show ?thesis by (simp add: f64_sum_def)
qed

lemma sum_list_lower: "(\<And>x. x \<in> set xs \<Longrightarrow> m \<le> x) \<Longrightarrow> real (length xs) * m \<le> sum_list xs"
  by (induction xs) (auto simp: algebra_simps intro: add_mono)

lemma sum_list_upper: "(\<And>x. x \<in> set xs \<Longrightarrow> x \<le> m) \<Longrightarrow> sum_list xs \<le> real (length xs) * m" for m :: real
  by (induction xs) (auto simp: algebra_simps intro: add_mono)

text \<open>The mean of the first elements of a descending list is at least the mean of all.\<close>

lemma top_mean:
  fixes rs :: "real list"
  assumes "sorted_wrt (\<lambda>x y. y \<le> x) rs" and "0 < k" and "k \<le> length rs"
  shows "sum_list rs / real (length rs) \<le> sum_list (take k rs) / real k"
proof -
  let ?m = "rs ! (k - 1)" and ?n = "length rs"
  have low: "?m \<le> x" if "x \<in> set (take k rs)" for x
  proof -
    from that assms(3) obtain i where "i < k" "x = rs ! i" by (auto simp: in_set_conv_nth)
    with assms show ?thesis using sorted_wrt_nth_less [OF assms(1), of i "k - 1"] by (cases "i = k - 1") auto
  qed
  have lo: "real k * ?m \<le> sum_list (take k rs)"
    using sum_list_lower [of "take k rs" ?m, OF low] assms(3) by simp
  have "x \<le> ?m" if "x \<in> set (drop k rs)" for x
  proof -
    from that obtain i where "i < length rs - k" "x = rs ! (k + i)" by (auto simp: in_set_conv_nth)
    with assms show ?thesis using sorted_wrt_nth_less [OF assms(1), of "k - 1" "k + i"] by auto
  qed
  then have hi: "sum_list (drop k rs) \<le> real (?n - k) * ?m"
    using sum_list_upper [of "drop k rs" ?m] by simp
  have "sum_list rs = sum_list (take k rs) + sum_list (drop k rs)"
    by (metis append_take_drop_id sum_list_append)
  then have "real k * sum_list rs \<le> real k * sum_list (take k rs) + real k * (real (?n - k) * ?m)"
    using hi assms(2) by (simp add: algebra_simps)
  also have "\<dots> \<le> real k * sum_list (take k rs) + real (?n - k) * sum_list (take k rs)"
    using mult_left_mono [OF lo, of "real (?n - k)"] by (simp add: algebra_simps)
  also have "\<dots> = real ?n * sum_list (take k rs)" using assms(3) by (simp add: of_nat_diff algebra_simps)
  finally have "sum_list rs * real k / (real ?n * real k) \<le> real ?n * sum_list (take k rs) / (real ?n * real k)"
    by (intro divide_right_mono) (simp_all add: mult.commute)
  moreover have "real ?n \<noteq> 0" "real k \<noteq> 0" using assms(2,3) by auto
  ultimately show ?thesis by simp
qed

lemma sort_by_Fin: "\<exists>qs. sort_by (\<lambda>x y. \<not> x < y) (map Fin rs) = map Fin qs
    \<and> sorted_wrt (\<lambda>x y. y \<le> x) qs \<and> mset qs = mset rs"
proof -
  have "sort_by (\<lambda>x y. \<not> x < y) (map Fin rs) = map Fin (sort_by (\<lambda>x y. \<not> x < y) rs)"
    by (subst sort_by_map) simp
  moreover have "sorted_wrt (\<lambda>x y. \<not> x < y) (sort_by (\<lambda>x y. \<not> x < y) rs)"
    by (rule sorted_sort_by) auto
  ultimately show ?thesis by (intro exI [of _ "sort_by (\<lambda>x y. \<not> x < y) rs"]) (simp add: not_less)
qed

lemma cvar_of_weighed:
  assumes "\<And>r. r \<in> set rs \<Longrightarrow> weighed r"
  shows "\<exists>m c. mean_risk rs = Fin m \<and> compute_cvar5 rs = Fin c \<and> 0 \<le> m \<and> m \<le> c \<and> c \<le> 1"
proof (cases "rs = []")
  case False
  define cs where "cs = map (\<lambda>r. case rk_composite r of Fin c \<Rightarrow> c | _ \<Rightarrow> 0) rs"
  define ws where "ws = map (\<lambda>r. (case rk_composite r of Fin c \<Rightarrow> c | _ \<Rightarrow> 0)
      * reversibility_weight (rk_reversibility r)) rs"
  have c: "map rk_composite rs = map Fin cs" using assms unfolding cs_def weighed_def by force
  have w: "map (\<lambda>r. rk_composite r * Fin (reversibility_weight (rk_reversibility r))) rs = map Fin ws"
    using assms unfolding ws_def weighed_def by force
  have le: "(\<forall>x\<in>set cs. 0 \<le> x \<and> x \<le> 1) \<and> sum_list cs \<le> sum_list ws"
    using assms unfolding cs_def ws_def
  proof (induction rs)
    case (Cons r rs)
    from Cons.prems [of r] obtain x where x: "rk_composite r = Fin x" "0 \<le> x" "x \<le> 1"
      "rk_reversibility r \<noteq> Reversible" unfolding weighed_def by auto
    then have "1 \<le> reversibility_weight (rk_reversibility r)" by (cases "rk_reversibility r") auto
    with x have "x \<le> x * reversibility_weight (rk_reversibility r)" using mult_left_mono by fastforce
    with Cons x show ?case by auto
  qed simp
  obtain qs where qs: "sort_by (\<lambda>x y. \<not> x < y) (map Fin ws) = map Fin qs"
    "sorted_wrt (\<lambda>x y. y \<le> x) qs" "mset qs = mset ws" using sort_by_Fin by blast
  have len: "length cs = length rs" "length ws = length rs" "length qs = length rs"
    using qs(3) mset_eq_length [OF qs(3)] by (simp_all add: cs_def ws_def)
  have sums: "sum_list qs = sum_list ws" using qs(3) by (metis sum_mset_sum_list)
  define k where "k = min (max 1 (nat \<lceil>real (length qs) * 0.05\<rceil>)) (length qs)"
  have k: "0 < k" "k \<le> length qs" using False len unfolding k_def by auto
  have mean: "sum_list cs / real (length rs) \<le> sum_list (take k qs) / real k"
  proof -
    have "sum_list cs / real (length rs) \<le> sum_list qs / real (length qs)"
      using le len sums by (simp add: divide_right_mono)
    also have "\<dots> \<le> sum_list (take k qs) / real k" by (rule top_mean [OF qs(2) k])
    finally show ?thesis .
  qed
  have "0 \<le> sum_list cs" using le by (intro sum_list_nonneg) auto
  moreover have "sum_list cs \<le> real (length rs)" using sum_list_upper [of cs 1] le len by simp
  ultimately have m: "0 \<le> sum_list cs / real (length rs)" "sum_list cs / real (length rs) \<le> 1"
    using False by (simp_all add: divide_le_eq)
  have "mean_risk rs = Fin (sum_list cs / real (length rs))"
    using False m by (simp add: mean_risk_def c f64_sum_Fin)
  moreover have "compute_cvar5 rs = Fin (min (sum_list (take k qs) / real k) 1)"
  proof -
    have worst: "take (min (max 1 (nat \<lceil>real (length (map Fin qs)) * 0.05\<rceil>)) (length (map Fin qs))) (map Fin qs)
        = map Fin (take k qs)"
      unfolding k_def length_map by (simp only: take_map)
    have "compute_cvar5 rs =
        pad_clamp (f64_sum (map Fin (take k qs)) / Fin (real (length (map Fin (take k qs))))) 0 1"
      unfolding compute_cvar5_def Let_def w qs(1) worst using False by (simp only: if_False)
    moreover have "0 \<le> sum_list (take k qs) / real k" using m mean by linarith
    moreover have "length (map Fin (take k qs)) = k" using k by simp
    ultimately show ?thesis using k unfolding f64_sum_Fin by (simp only:) (simp add: max_absorb1)
  qed
  ultimately show ?thesis
    using m mean by (intro exI [of _ "sum_list cs / real (length rs)"] exI [of _ "min (sum_list (take k qs) / real k) 1"]) simp
qed (simp add: mean_risk_def compute_cvar5_def)


section \<open>Protected subjects\<close>

lemma hard_block_decides:
  assumes "r \<in> set (content_risks P a s)" and "rk_hard_block r" and "rk_reason r = Some why"
  shows "lb_decision (evaluate_layer_b P a s) = B_Block"
proof -
  have "why \<in> set (List.map_filter (\<lambda>r. if rk_hard_block r then rk_reason r else None) (content_risks P a s))"
    unfolding List.map_filter_def using assms by (auto simp: image_iff intro!: bexI [of _ r])
  then have "List.map_filter (\<lambda>r. if rk_hard_block r then rk_reason r else None) (content_risks P a s) \<noteq> []"
    by auto
  then show ?thesis by (simp add: evaluate_layer_b_def Let_def layer_b_decision_of_def)
qed

lemma escalate_hard_block:
  assumes "rk_hard_block r" and "rk_reason r \<noteq> None"
  shows "rk_hard_block (escalate rv v r) \<and> rk_reason (escalate rv v r) \<noteq> None"
  using assms by (auto simp: escalate_def Let_def)

lemma protected_probability:
  assumes "\<not> fl_suppressed f" and "fl_raw_weight f = Fin w" and "fl_effective_weight f = Fin w" and "0.3 \<le> w"
    and "fl_category f = SelfHarm \<or> fl_category f = ChildSafety \<and> 0.8 \<le> w"
  shows "\<exists>p. flag_probability f a = Fin p \<and> 0.001 < p"
  using assms by (auto simp: flag_probability_def Let_def profile_def max_def min_def)

lemma protected_risk:
  assumes "\<not> fl_suppressed f" and "fl_raw_weight f = Fin w" and "fl_effective_weight f = Fin w" and "0.3 \<le> w"
    and "fl_category f = SelfHarm \<or> fl_category f = ChildSafety \<and> 0.8 \<le> w"
  shows "rk_hard_block (map_flag_to_risk f a) \<and> rk_reason (map_flag_to_risk f a) \<noteq> None"
proof -
  obtain p where "flag_probability f a = Fin p" "0.001 < p" using protected_probability [OF assms] by blast
  with assms(5) show ?thesis
    by (auto simp: map_flag_to_risk_def Let_def profile_def irreversible_def category_vulnerability_def
        hard_block_min_probability_def)
qed

text \<open>
  C17. Child safety and self harm are always enforced. Whenever the evaluation raises an unsuppressed flag
  of one of these categories, the pipeline blocks the content, by a hard block of Layer B where the
  thresholds of Layer A do not reach, in every technical context, and whatever precedents are supplied.
\<close>

theorem protected_subjects_enforced:
  assumes "evaluate_ethics P s precedents = Some r"
    and "f \<in> set (el_flags (fu_layer_a r))" and "\<not> fl_suppressed f"
    and "fl_category f = ChildSafety \<or> fl_category f = SelfHarm"
  shows "lb_decision (fu_layer_b r) = B_Block \<and> fu_enforcement_blocked r"
proof -
  from assms(1) have ev: "evaluate P s = Some (fu_layer_a r)"
    and b: "fu_layer_b r = evaluate_layer_b P (fu_layer_a r) s"
    and blk: "fu_enforcement_blocked r \<longleftrightarrow> el_enforcement_blocked (fu_layer_a r) \<or> lb_decision (fu_layer_b r) = B_Block"
    by (auto simp: evaluate_ethics_def Let_def Option.bind_eq_Some_conv)
  obtain st where a: "fu_layer_a r = judge P s (is_meta_context P (ep_lower P s)) st" and sc: "scanned P s st"
    using evaluate_Some [OF ev] .
  have "f \<notin> structural_flag ` set (structural_matches P s)"
    using structural_match_bounds assms(4) by (fastforce simp: structural_flag_def)
  with assms(2) have mem: "f \<in> set (sc_flags st)" unfolding a judge_fields(1) by auto
  obtain e p where e: "e \<in> set lexicon" and ra: "raises P (ep_lower P s) (is_meta_context P (ep_lower P s)) e p f"
    using scannedE [OF sc mem] by blast
  note un = raises_unsuppressed [OF ra assms(3)] and w = lexicon_weights [OF e]
  have w3: "0.3 \<le> lx_weight e" using w un(2) assms(4) by auto
  have "rk_hard_block (map_flag_to_risk f (fu_layer_a r)) \<and> rk_reason (map_flag_to_risk f (fu_layer_a r)) \<noteq> None"
    by (rule protected_risk [OF assms(3) un(3,4) w3]) (use w un(2) assms(4) in auto)
  note hard = escalate_hard_block [OF conjunct1 [OF this] conjunct2 [OF this]]
  have "map_flag_to_risk f (fu_layer_a r) \<in> set (flag_risks (fu_layer_a r))"
    using assms(2,3) un(4) w3 by (auto simp: flag_risks_def)
  then have "escalate (inferred_reversibility P (ep_lower P s)) (inferred_vulnerability P (ep_lower P s))
      (map_flag_to_risk f (fu_layer_a r)) \<in> set (content_risks P (fu_layer_a r) s)"
    by (simp add: content_risks_def Let_def)
  with hard have "lb_decision (fu_layer_b r) = B_Block" unfolding b by (metis hard_block_decides not_None_eq)
  with blk show ?thesis by blast
qed

section \<open>Layers C and K\<close>

text \<open>
  The verdict of Layer C in closed form: in a meta or technical context it permits, whatever the
  flags; otherwise it forbids exactly when a child-safety flag is unsuppressed, and is concerned when a
  critical weight or a deception flag is. When an external evaluator refused, it never permits.
\<close>

theorem layer_c_verdict_table:
  "lc_verdict (evaluate_layer_c a) =
     (let fs = filter (\<lambda>f. \<not> fl_suppressed f) (el_flags a)
      in if el_meta_context a \<or> el_technical_context a then Permit
         else if (\<exists>f\<in>set fs. fl_category f = ChildSafety) then Forbid
         else if (\<exists>f\<in>set fs. Fin 0.8 \<le> fl_effective_weight f \<or> fl_category f = Deception) then Concern
         else Permit)
   \<and> lc_verdict (aggregate_framework_evaluations es True) \<noteq> Permit"
proof
  have "lc_verdict (evaluate_layer_c a) = (if ctx then Permit else if protect then Forbid
      else if crit \<or> deceptive then Concern else Permit)"
    if "ctx \<longleftrightarrow> el_meta_context a \<or> el_technical_context a"
      and "fs = filter (\<lambda>f. \<not> fl_suppressed f) (el_flags a)"
      and "protect \<longleftrightarrow> list_ex (\<lambda>f. fl_category f = ChildSafety) fs"
      and "crit \<longleftrightarrow> list_ex (\<lambda>f. Fin 0.8 \<le> fl_effective_weight f) fs"
      and "deceptive \<longleftrightarrow> list_ex (\<lambda>f. fl_category f = Deception) fs" for ctx fs protect crit deceptive
    unfolding evaluate_layer_c_def rules_based_assessment_def Let_def that [symmetric]
    by (cases ctx; cases protect; cases crit; cases deceptive)
      (simp_all add: aggregate_def aggregated_verdict_def Let_def frameworks_def count_verdict_def
        consequentialism_rule_def deontology_rule_def virtue_rule_def contractualism_rule_def care_rule_def
        del: append.simps)
  from this [OF refl refl refl refl refl] show "lc_verdict (evaluate_layer_c a) =
     (let fs = filter (\<lambda>f. \<not> fl_suppressed f) (el_flags a)
      in if el_meta_context a \<or> el_technical_context a then Permit
         else if (\<exists>f\<in>set fs. fl_category f = ChildSafety) then Forbid
         else if (\<exists>f\<in>set fs. Fin 0.8 \<le> fl_effective_weight f \<or> fl_category f = Deception) then Concern
         else Permit)"
    unfolding Let_def list_ex_iff by (simp only: bex_disj_distrib)
qed (simp add: aggregate_framework_evaluations_def aggregate_def aggregated_verdict_def Let_def)

text \<open>
  C22. The advisory layers cannot change enforcement. The pipeline always returns; it blocks exactly when
  Layer A blocks or Layer B decides to; supplying precedents changes nothing but the annotation of
  Layer K; and Layer K flags only content that stays blocked, on a precedent it is similar enough to,
  outside the categories that are never advised, with documented exceptions.
\<close>

theorem advisory_layers_never_relax:
  "\<exists>r. evaluate_ethics P s precedents = Some r
     \<and> (fu_enforcement_blocked r \<longleftrightarrow>
          el_enforcement_blocked (fu_layer_a r) \<or> lb_decision (fu_layer_b r) = B_Block)
     \<and> evaluate_ethics P s None = Some (r\<lparr>fu_layer_k := None\<rparr>)
     \<and> (case fu_layer_k r of None \<Rightarrow> precedents = None
        | Some k \<Rightarrow> lk_decision k = K_Abstain
            \<or> fu_enforcement_blocked r
              \<and> (\<exists>best ms x. precedents = Some (best # ms) \<and> km_similarity best = Some x \<and> sim_floor \<le> x
                   \<and> \<not> category_matches (ep_lower P (case km_category best of None \<Rightarrow> [] | Some c \<Rightarrow> c)) hard_deny_hints
                   \<and> documents_exceptions best))"
proof -
  obtain a where a: "evaluate P s = Some a" using evaluate_run by blast
  let ?b = "evaluate_layer_b P a s"
  let ?blocked = "el_enforcement_blocked a \<or> lb_decision ?b = B_Block"
  have floor: "sim_floor \<le> x" if "is_finite x" "\<not> x < sim_floor" for x
    using that by (cases x) (simp_all add: sim_floor_def)
  have k: "lk_decision (evaluate_layer_k P ms blocked) = K_Abstain
      \<or> blocked \<and> (\<exists>best rest x. ms = best # rest \<and> km_similarity best = Some x \<and> sim_floor \<le> x
          \<and> \<not> category_matches (ep_lower P (case km_category best of None \<Rightarrow> [] | Some c \<Rightarrow> c)) hard_deny_hints
          \<and> documents_exceptions best)" for ms blocked
  proof (cases ms)
    case (Cons best rest)
    have zero: "Fin 0 < sim_floor" by (simp add: sim_floor_def)
    show ?thesis
      by (cases "km_similarity best")
        (auto simp: Cons evaluate_layer_k_def Let_def abstain_def zero intro: floor)
  qed (simp add: evaluate_layer_k_def abstain_def)
  show ?thesis
    unfolding evaluate_ethics_def a using k
    by (cases precedents) (auto simp: Let_def)
qed

end
