(* ===== verification/Store_Ops.thy ===== *)
theory Store_Ops
  imports Engine_Result
begin

text \<open>
  The other operations of the Hyphae store the engine calls: the atomic write of several documents,
  deletion, and the vectors of the memory space. As for \<open>hyphae\<close>, they are a record of functions and
  the documented behaviour the engine relies on is a predicate.
\<close>

record ('s, 'e) store_ops =
  op_put_records :: "'s \<Rightarrow> doc list \<Rightarrow> 'e + 's"
  op_delete :: "'s \<Rightarrow> bytes \<Rightarrow> 'e + 's"
  op_put_vectors :: "'s \<Rightarrow> (bytes \<times> i16 list) list \<Rightarrow> 'e + 's"
  op_delete_vectors :: "'s \<Rightarrow> bytes list \<Rightarrow> 'e + 's"

text \<open>\<open>vecs\<close> reads the vectors of a state by the key of their memory.\<close>

definition faithful_ops ::
  "('s, 'c, 'e) hyphae \<Rightarrow> ('s, 'e) store_ops \<Rightarrow> ('s \<Rightarrow> bool) \<Rightarrow> ('s \<Rightarrow> doc list)
   \<Rightarrow> ('s \<Rightarrow> bytes \<Rightarrow> i16 list option) \<Rightarrow> bool" where
  "faithful_ops H O' valid rows vecs \<longleftrightarrow>
     (\<forall>s d s'. valid s \<longrightarrow> hy_put H s d = Inr s' \<longrightarrow> vecs s' = vecs s)
     \<and> (\<forall>s ds s'. valid s \<longrightarrow> op_put_records O' s ds = Inr s' \<longrightarrow>
          valid s' \<and> rows s' = fold upsert ds (rows s) \<and> vecs s' = vecs s)
     \<and> (\<forall>s k s'. valid s \<longrightarrow> op_delete O' s k = Inr s' \<longrightarrow>
          valid s' \<and> rows s' = filter (\<lambda>d. doc_key d \<noteq> k) (rows s) \<and> vecs s' = vecs s)
     \<and> (\<forall>s kvs s'. valid s \<longrightarrow> op_put_vectors O' s kvs = Inr s' \<longrightarrow>
          valid s' \<and> rows s' = rows s \<and> vecs s' = fold (\<lambda>(k, v) m. m(k \<mapsto> v)) kvs (vecs s))
     \<and> (\<forall>s ks s'. valid s \<longrightarrow> op_delete_vectors O' s ks = Inr s' \<longrightarrow>
          valid s' \<and> rows s' = rows s \<and> vecs s' = (\<lambda>k. if k \<in> set ks then None else vecs s k))"

lemma faithful_opsD:
  assumes "faithful_ops H O' valid rows vecs" and "valid s"
  shows "hy_put H s d = Inr s' \<Longrightarrow> vecs s' = vecs s"
    and "op_put_records O' s ds = Inr s' \<Longrightarrow>
      valid s' \<and> rows s' = fold upsert ds (rows s) \<and> vecs s' = vecs s"
    and "op_delete O' s k = Inr s' \<Longrightarrow>
      valid s' \<and> rows s' = filter (\<lambda>d. doc_key d \<noteq> k) (rows s) \<and> vecs s' = vecs s"
    and "op_put_vectors O' s kvs = Inr s' \<Longrightarrow>
      valid s' \<and> rows s' = rows s \<and> vecs s' = fold (\<lambda>(k, v) m. m(k \<mapsto> v)) kvs (vecs s)"
    and "op_delete_vectors O' s ks = Inr s' \<Longrightarrow>
      valid s' \<and> rows s' = rows s \<and> vecs s' = (\<lambda>k. if k \<in> set ks then None else vecs s k)"
  using assms unfolding faithful_ops_def by blast+

section \<open>A concrete store with vectors\<close>

text \<open>The list store with a map of vectors; it never fails and keeps every law.\<close>

type_synonym vec_state = "doc list \<times> (bytes \<Rightarrow> i16 list option)"

definition vec_store :: "(vec_state, nat, unit) hyphae" where
  "vec_store =
     \<lparr>hy_get = (\<lambda>(ds, vs) k. Inr (lookup_doc ds k)),
      hy_put = (\<lambda>(ds, vs) d. Inr (upsert d ds, vs)),
      hy_page = (\<lambda>(ds, vs) c n. hy_page list_store ds c n)\<rparr>"

definition vec_ops :: "(vec_state, unit) store_ops" where
  "vec_ops =
     \<lparr>op_put_records = (\<lambda>(ds, vs) xs. Inr (fold upsert xs ds, vs)),
      op_delete = (\<lambda>(ds, vs) k. Inr (filter (\<lambda>d. doc_key d \<noteq> k) ds, vs)),
      op_put_vectors = (\<lambda>(ds, vs) kvs. Inr (ds, fold (\<lambda>(k, v) m. m(k \<mapsto> v)) kvs vs)),
      op_delete_vectors = (\<lambda>(ds, vs) ks. Inr (ds, \<lambda>k. if k \<in> set ks then None else vs k))\<rparr>"

lemma key_sorted_fold: "key_sorted ds \<Longrightarrow> key_sorted (fold upsert xs ds)"
  by (induction xs arbitrary: ds) (simp_all add: key_sorted_upsert)

lemma key_sorted_filter: "key_sorted ds \<Longrightarrow> key_sorted (filter P ds)"
  by (simp add: key_sorted_def sorted_wrt_filter)

lemma vec_store_faithful:
  "faithful_store vec_store (key_sorted \<circ> fst) fst (\<lambda>s. list_rest (fst s))"
  unfolding faithful_store_def
  by (auto simp: vec_store_def list_store_def list_rest_def Let_def key_sorted_upsert add.commute
      split: option.splits if_splits)

lemma vec_ops_faithful: "faithful_ops vec_store vec_ops (key_sorted \<circ> fst) fst snd"
  unfolding faithful_ops_def
  by (auto simp: vec_store_def vec_ops_def key_sorted_fold key_sorted_filter)

lemma vec_get_put [simp]:
  "hy_get vec_store (ds, vs) k = Inr (lookup_doc ds k)"
  "hy_put vec_store (ds, vs) d = Inr (upsert d ds, vs)"
  "op_put_records vec_ops (ds, vs) xs = Inr (fold upsert xs ds, vs)"
  "op_put_vectors vec_ops (ds, vs) kvs = Inr (ds, fold (\<lambda>(k, v) m. m(k \<mapsto> v)) kvs vs)"
  "op_delete vec_ops (ds, vs) k = Inr (filter (\<lambda>d. doc_key d \<noteq> k) ds, vs)"
  by (simp_all add: vec_store_def vec_ops_def)

lemma vec_scan:
  assumes "key_sorted (fst s)"
  shows "scan_prefix vec_store s p = Some (Inr (filter (has_prefix p) (fst s)))"
proof -
  have v: "(key_sorted \<circ> fst) s" using assms by simp
  obtain r where r: "scan_prefix vec_store s p = Some r"
    and post: "case r of Inr ds \<Rightarrow> ds = filter (has_prefix p) (fst s)
       | Inl e \<Rightarrow> \<exists>c. hy_page vec_store s c 1000 = Inl e"
    using scan_prefix_filter [OF vec_store_faithful v, of p] by blast
  show ?thesis using r post
    by (cases r; cases s) (simp_all add: vec_store_def list_store_def Let_def)
qed

end
