(* ===== verification/Limbic.thy ===== *)
theory Limbic
  imports Float_Arith Cognition_Types
begin

text \<open>
  The simulated limbic system of \<open>limbic.rs\<close>: the update of the emotional state by an input and the
  recalled memories, its return to the homeostatic baseline and the emotion labels; and the resonance
  of \<open>affect.rs\<close>.
\<close>

section \<open>Operations\<close>

record limbic_config =
  lc_homeostatic :: pad
  lc_resilience_alpha :: f64
  lc_input_beta :: f64
  lc_memory_gamma :: f64
  lc_change_threshold :: f64

definition default_limbic_config :: limbic_config where
  "default_limbic_config =
     \<lparr>lc_homeostatic = \<lparr>pleasure = Fin 0.1, arousal = Fin 0, dominance = Fin 0.1\<rparr>,
      lc_resilience_alpha = Fin 0.15, lc_input_beta = Fin 0.30, lc_memory_gamma = Fin 0.20,
      lc_change_threshold = Fin 0.02\<rparr>"

record memory_influence =
  mi_pad :: pad
  mi_weight :: f64

definition neutral_pad :: pad where
  "neutral_pad = \<lparr>pleasure = Fin 0, arousal = Fin 0, dominance = Fin 0\<rparr>"

fun weighted_pads :: "memory_influence list \<Rightarrow> pad \<Rightarrow> f64 \<Rightarrow> pad \<times> f64" where
  "weighted_pads [] acc weight_sum = (acc, weight_sum)"
| "weighted_pads (m # ms) acc weight_sum =
     weighted_pads ms
       \<lparr>pleasure = pleasure acc + pleasure (mi_pad m) * mi_weight m,
        arousal = arousal acc + arousal (mi_pad m) * mi_weight m,
        dominance = dominance acc + dominance (mi_pad m) * mi_weight m\<rparr>
       (weight_sum + mi_weight m)"

definition average_memory_pad :: "memory_influence list \<Rightarrow> pad" where
  "average_memory_pad ms =
     (case weighted_pads ms neutral_pad (Fin 0) of (acc, weight_sum) \<Rightarrow>
        if weight_sum < Fin 0.01 then neutral_pad
        else \<lparr>pleasure = pleasure acc / weight_sum, arousal = arousal acc / weight_sum,
              dominance = dominance acc / weight_sum\<rparr>)"

definition pad_distance :: "pad \<Rightarrow> pad \<Rightarrow> f64" where
  "pad_distance a b =
     f64_sqrt ((pleasure a - pleasure b) * (pleasure a - pleasure b)
       + (arousal a - arousal b) * (arousal a - arousal b)
       + (dominance a - dominance b) * (dominance a - dominance b))"

text \<open>The weights after the guard \<open>beta + gamma <= 1 - alpha\<close>.\<close>

definition guarded_weights :: "limbic_config \<Rightarrow> f64 \<times> f64" where
  "guarded_weights cfg =
     (let alpha = lc_resilience_alpha cfg; beta = lc_input_beta cfg; gamma = lc_memory_gamma cfg;
          bg_sum = beta + gamma
      in if Fin 1 - alpha < bg_sum
         then (let scale = (Fin 1 - alpha) / bg_sum in (beta * scale, gamma * scale))
         else (beta, gamma))"

definition limbic_axis :: "f64 \<Rightarrow> f64 \<Rightarrow> f64 \<Rightarrow> f64 \<Rightarrow> f64 \<Rightarrow> f64 \<Rightarrow> f64 \<Rightarrow> f64" where
  "limbic_axis alpha beta gamma h s i m =
     alpha * h + (Fin 1 - alpha) * (s + beta * i + gamma * m)"

definition cross_effect :: "f64 \<Rightarrow> f64 \<Rightarrow> f64" where
  "cross_effect p a =
     (if Fin 0.5 < a \<and> p < Fin 0 then p * (Fin 1 + Fin 0.4 * (a - Fin 0.5))
      else if Fin 0.7 < a \<and> Fin 0 < p then p * (Fin 1 + Fin 0.1 * (a - Fin 0.7))
      else p)"

definition limbic_update :: "pad \<Rightarrow> limbic_config \<Rightarrow> pad \<Rightarrow> memory_influence list \<Rightarrow> pad" where
  "limbic_update current cfg inp recalled =
     (case guarded_weights cfg of (beta, gamma) \<Rightarrow>
        let alpha = lc_resilience_alpha cfg;
            memory_pad = average_memory_pad recalled;
            h = lc_homeostatic cfg;
            p = limbic_axis alpha beta gamma (pleasure h) (pleasure current) (pleasure inp)
                  (pleasure memory_pad);
            a = limbic_axis alpha beta gamma (arousal h) (arousal current) (arousal inp)
                  (arousal memory_pad);
            d = limbic_axis alpha beta gamma (dominance h) (dominance current) (dominance inp)
                  (dominance memory_pad);
            next' = \<lparr>pleasure = pad_clamp (cross_effect p a) (-1) 1, arousal = pad_clamp a (-1) 1,
                     dominance = pad_clamp d (-1) 1\<rparr>
        in if lc_change_threshold cfg \<le> pad_distance current next' then next' else current)"

definition decay_axis :: "f64 \<Rightarrow> f64 \<Rightarrow> f64 \<Rightarrow> f64" where
  "decay_axis factor h c = pad_clamp (h + (c - h) * factor) (-1) 1"

definition limbic_decay :: "pad \<Rightarrow> limbic_config \<Rightarrow> f64 \<Rightarrow> pad" where
  "limbic_decay current cfg elapsed_minutes =
     (let elapsed = f64_max elapsed_minutes (Fin 0);
          factor = f64_powf 0.5 (elapsed / Fin 30);
          h = lc_homeostatic cfg
      in \<lparr>pleasure = decay_axis factor (pleasure h) (pleasure current),
          arousal = decay_axis factor (arousal h) (arousal current),
          dominance = decay_axis factor (dominance h) (dominance current)\<rparr>)"

definition emotion_label :: "pad \<Rightarrow> string" where
  "emotion_label st =
     (let p = pleasure st; a = arousal st; d = dominance st
      in if Fin 0.3 < p \<and> Fin 0.3 < a \<and> Fin 0.3 < d then ''exuberant''
         else if Fin 0.3 < p \<and> Fin 0.3 < a then ''dependent-happy''
         else if Fin 0.3 < p \<and> Fin 0.3 < d then ''relaxed''
         else if Fin 0.3 < p then ''docile''
         else if Fin 0.1 < p \<and> Fin (-0.2) < a \<and> a < Fin 0.3 then ''content''
         else if p \<le> Fin (-0.3) \<and> Fin 0.3 < a \<and> Fin 0.3 < d then ''hostile''
         else if p \<le> Fin (-0.3) \<and> Fin 0.3 < a \<and> d \<le> Fin (-0.3) then ''anxious''
         else if p \<le> Fin (-0.3) \<and> a \<le> Fin (-0.3) \<and> d \<le> Fin (-0.3) then ''bored''
         else if p \<le> Fin (-0.3) \<and> a \<le> Fin (-0.3) \<and> Fin 0.3 < d then ''disdainful''
         else if p \<le> Fin (-0.3) \<and> Fin 0.5 < a \<and> d \<le> Fin (-0.5) then ''afraid''
         else if p \<le> Fin (-0.5) \<and> a \<le> Fin 0 \<and> d \<le> Fin 0 then ''sad''
         else if Fin 0.5 < a then ''alert''
         else if a < Fin (-0.5) then ''drowsy''
         else ''neutral'')"

definition pad_magnitude :: "pad \<Rightarrow> f64" where
  "pad_magnitude p =
     f64_sqrt (pleasure p * pleasure p + arousal p * arousal p + dominance p * dominance p)"

definition resonance :: "pad \<Rightarrow> pad \<Rightarrow> f64" where
  "resonance st mem =
     (let dot = pleasure st * pleasure mem + arousal st * arousal mem + dominance st * dominance mem;
          m1 = pad_magnitude st; m2 = pad_magnitude mem
      in if m1 < Fin 0.01 \<or> m2 < Fin 0.01 then Fin 0
         else f64_max (Fin 0) ((dot / (m1 * m2) + Fin 1) / Fin 2))"

section \<open>The state stays in the cube\<close>

definition in_cube :: "pad \<Rightarrow> bool" where
  "in_cube p \<longleftrightarrow> ranged (-1) 1 (pleasure p) \<and> ranged (-1) 1 (arousal p) \<and> ranged (-1) 1 (dominance p)"

lemma limbic_update_cube: "in_cube current \<Longrightarrow> in_cube (limbic_update current cfg inp recalled)"
  by (simp add: limbic_update_def in_cube_def Let_def float_bounds split: prod.split)

lemma limbic_decay_cube: "in_cube (limbic_decay current cfg elapsed)"
  by (simp add: limbic_decay_def decay_axis_def in_cube_def Let_def float_bounds)

text \<open>The steps of the engine's emotional state: time passes, a stimulus is processed.\<close>

inductive affect_step :: "limbic_config \<Rightarrow> pad \<Rightarrow> pad \<Rightarrow> bool" for cfg where
  passes: "affect_step cfg s (limbic_decay s cfg elapsed)"
| stimulus: "affect_step cfg s (limbic_update s cfg inp recalled)"

inductive_cases affect_stepE: "affect_step cfg s t"

inductive affect_reachable :: "limbic_config \<Rightarrow> pad \<Rightarrow> pad \<Rightarrow> bool" for cfg s where
  here: "affect_reachable cfg s s"
| further: "affect_reachable cfg s t \<Longrightarrow> affect_step cfg t u \<Longrightarrow> affect_reachable cfg s u"

text \<open>
  The emotional state never leaves the cube: from a state within -1 and 1 on every axis, every
  sequence of stimuli and pauses leads to such a state again, whatever the inputs, the memories,
  their weights, the elapsed times and the configuration are, infinities and NaN included.
\<close>

theorem affect_stays_in_cube:
  assumes "affect_reachable cfg s t" and "in_cube s"
  shows "in_cube t"
  using assms
  by (induction rule: affect_reachable.induct)
    (auto elim!: affect_stepE simp: limbic_update_cube limbic_decay_cube)

theorem affect_stays_in_cube_witness:
  "in_cube (limbic_update (limbic_decay neutral_pad default_limbic_config PosInf)
     default_limbic_config \<lparr>pleasure = NaN, arousal = PosInf, dominance = Fin 7\<rparr> [])"
proof -
  have "affect_reachable default_limbic_config neutral_pad
      (limbic_update (limbic_decay neutral_pad default_limbic_config PosInf) default_limbic_config
        \<lparr>pleasure = NaN, arousal = PosInf, dominance = Fin 7\<rparr> [])"
    by (rule affect_reachable.further [OF affect_reachable.further
          [OF affect_reachable.here affect_step.passes] affect_step.stimulus])
  from affect_stays_in_cube [OF this] show ?thesis by (simp add: in_cube_def neutral_pad_def)
qed

section \<open>Return to the baseline\<close>

lemma decay_axis_Fin:
  assumes "-1 \<le> h" "h \<le> 1" "-1 \<le> c" "c \<le> 1" "0 \<le> f" "f \<le> 1"
  shows "decay_axis (Fin f) (Fin h) (Fin c) = Fin (h + (c - h) * f)"
proof -
  have "h + (c - h) * f = (1 - f) * h + f * c" by (simp add: algebra_simps)
  moreover have "(1 - f) * h + f * c \<le> 1" "-1 \<le> (1 - f) * h + f * c"
    using convex_bound_le [of h 1 c "1 - f" f] convex_bound_le [of "-h" 1 "-c" "1 - f" f] assms by auto
  ultimately show ?thesis by (simp add: decay_axis_def)
qed

definition real_pad :: "real \<Rightarrow> real \<Rightarrow> real \<Rightarrow> pad" where
  "real_pad p a d = \<lparr>pleasure = Fin p, arousal = Fin a, dominance = Fin d\<rparr>"

lemma in_cube_obtain:
  assumes "in_cube s"
  obtains p a d where "s = real_pad p a d" and "list_all (\<lambda>x. -1 \<le> x \<and> x \<le> 1) [p, a, d]"
  using assms by (cases s) (auto simp: in_cube_def ranged_def real_pad_def)

lemma limbic_decay_Fin:
  assumes "list_all (\<lambda>x. -1 \<le> x \<and> x \<le> 1) [p, a, d, h, k, l]" and "lc_homeostatic cfg = real_pad h k l"
    and "0 \<le> t"
  shows "limbic_decay (real_pad p a d) cfg (Fin t) =
    (let f = 0.5 powr (t / 30)
     in real_pad (h + (p - h) * f) (k + (a - k) * f) (l + (d - l) * f))"
proof -
  have "0.5 powr (t / 30) \<le> 1" "0 \<le> 0.5 powr (t / 30 :: real)"
    using assms(3) by (simp_all add: powr_le1)
  then show ?thesis
    using assms
    by (simp add: limbic_decay_def Let_def decay_axis_Fin real_pad_def max_def del: f64_max.simps)
qed

text \<open>
  The homeostatic return is consistent in time: pausing twice is the same as pausing once for
  the sum of the times, so it does not matter how often the state is read; after thirty minutes the
  distance of every axis to the baseline has halved.
\<close>

theorem decay_semigroup:
  assumes "in_cube s" and "in_cube (lc_homeostatic cfg)" and "0 \<le> t" and "0 \<le> u"
  shows "limbic_decay (limbic_decay s cfg (Fin t)) cfg (Fin u) = limbic_decay s cfg (Fin (t + u))
    \<and> pleasure (limbic_decay s cfg (Fin 30))
      = (pleasure s + pleasure (lc_homeostatic cfg)) / Fin 2"
proof -
  obtain p a d where s: "s = real_pad p a d" and ps: "list_all (\<lambda>x. -1 \<le> x \<and> x \<le> 1) [p, a, d]"
    using assms(1) by (rule in_cube_obtain)
  obtain h k l where h: "lc_homeostatic cfg = real_pad h k l"
    and hs: "list_all (\<lambda>x. -1 \<le> x \<and> x \<le> 1) [h, k, l]" using assms(2) by (rule in_cube_obtain)
  have all: "list_all (\<lambda>x. -1 \<le> x \<and> x \<le> 1) [p, a, d, h, k, l]" using ps hs by simp
  obtain p' a' d' where mid: "limbic_decay s cfg (Fin t) = real_pad p' a' d'"
    and ms: "list_all (\<lambda>x. -1 \<le> x \<and> x \<le> 1) [p', a', d']"
    using limbic_decay_cube by (rule in_cube_obtain)
  have eqs: "p' = h + (p - h) * 0.5 powr (t / 30)" "a' = k + (a - k) * 0.5 powr (t / 30)"
    "d' = l + (d - l) * 0.5 powr (t / 30)"
    using limbic_decay_Fin [OF all h assms(3)] mid s by (simp_all add: Let_def real_pad_def)
  have "list_all (\<lambda>x. -1 \<le> x \<and> x \<le> 1) [p', a', d', h, k, l]" using ms hs by simp
  note second = limbic_decay_Fin [OF this h assms(4)]
  have pw: "(0.5 :: real) powr ((t + u) / 30) = 0.5 powr (t / 30) * 0.5 powr (u / 30)"
    by (simp add: add_divide_distrib powr_add)
  have "0 \<le> t + u" using assms(3,4) by simp
  then have "limbic_decay (limbic_decay s cfg (Fin t)) cfg (Fin u) = limbic_decay s cfg (Fin (t + u))"
    unfolding mid second using limbic_decay_Fin [OF all h, of "t + u"]
    by (simp only: s eqs pw Let_def mult.assoc add_diff_cancel_left')
  moreover have "pleasure (limbic_decay s cfg (Fin 30)) = (pleasure s + pleasure (lc_homeostatic cfg)) / Fin 2"
    unfolding s using limbic_decay_Fin [OF all h, of 30]
    by (simp add: Let_def real_pad_def h field_simps)
  ultimately show ?thesis ..
qed

theorem decay_semigroup_witness:
  "limbic_decay (limbic_decay neutral_pad default_limbic_config (Fin 10)) default_limbic_config (Fin 20)
   = limbic_decay neutral_pad default_limbic_config (Fin 30)"
  using decay_semigroup [of neutral_pad default_limbic_config 10 20]
  by (simp add: in_cube_def neutral_pad_def default_limbic_config_def)

text \<open>The label \<open>afraid\<close> is never given: its region lies inside the one of \<open>anxious\<close>.\<close>

lemma never_afraid: "emotion_label st \<noteq> ''afraid''"
proof -
  have "a \<le> Fin (-0.3)" if "a \<le> Fin (-0.5)" for a using that by (cases a) auto
  moreover have "Fin 0.3 < a" if "Fin 0.5 < a" for a using that by (cases a) auto
  ultimately show ?thesis unfolding emotion_label_def Let_def by auto
qed

end
