(* ===== verification/Affect.thy ===== *)
theory Affect
  imports Limbic
begin

text \<open>
  What the engine reads from a text: its emotional coordinates and memory type (\<open>affect.rs\<close>), its
  importance (\<open>importance.rs\<close>) and its entities (\<open>entities.rs\<close>). The regular expressions, run by a
  third-party engine, and Unicode lower-casing are the fields of a parameter record; the lexicons and
  every formula are the code's.
\<close>

section \<open>Parameters\<close>

record text_patterns =
  lower_case :: "bytes \<Rightarrow> bytes"
  profanity :: "bytes \<Rightarrow> bool"
  strong_emotions :: "bytes \<Rightarrow> bool"
  caps_words :: "bytes \<Rightarrow> nat"
  repeated_questions :: "bytes \<Rightarrow> bool"
  high_dominance :: "(bytes \<Rightarrow> bool) list"
  low_dominance :: "(bytes \<Rightarrow> bool) list"
  procedural_re :: "bytes \<Rightarrow> bool"
  episodic_re :: "bytes \<Rightarrow> bool"
  decision_patterns :: "(bytes \<Rightarrow> bool) list"
  entity_patterns :: "(bytes \<Rightarrow> bool) list"
  emotion_patterns :: "(bytes \<Rightarrow> bool) list"
  fact_patterns :: "(bytes \<Rightarrow> bool) list"
  code_patterns :: "(bytes \<Rightarrow> bool) list"
  error_patterns :: "(bytes \<Rightarrow> bool) list"
  foundational_patterns :: "(bytes \<Rightarrow> bool) list"
  validation_patterns :: "(bytes \<Rightarrow> bool) list"
  name_matches :: "bytes \<Rightarrow> bytes list"
  url_matches :: "bytes \<Rightarrow> bytes list"

section \<open>Emotion\<close>

definition positive_emotions :: "(string \<times> real) list" where
  "positive_emotions =
     [(''love'', 0.9), (''amazing'', 0.8), (''excellent'', 0.8), (''perfect'', 0.9),
      (''brilliant'', 0.8), (''excited'', 0.7), (''happy'', 0.6), (''great'', 0.5), (''good'', 0.3),
      (''nice'', 0.2), (''thrilled'', 0.8), (''grateful'', 0.7), (''proud'', 0.6),
      (''delighted'', 0.7), (''fantastic'', 0.8), (''awesome'', 0.7), (''wonderful'', 0.7),
      (''beautiful'', 0.6), (''incredible'', 0.8)]"

definition negative_emotions :: "(string \<times> real) list" where
  "negative_emotions =
     [(''hate'', -0.9), (''terrible'', -0.8), (''awful'', -0.8), (''horrible'', -0.8),
      (''frustrated'', -0.7), (''angry'', -0.7), (''annoyed'', -0.6), (''disappointed'', -0.7),
      (''worried'', -0.5), (''anxious'', -0.5), (''confused'', -0.4), (''stuck'', -0.4),
      (''broken'', -0.6), (''failed'', -0.6), (''disaster'', -0.8), (''furious'', -0.9),
      (''desperate'', -0.7), (''overwhelmed'', -0.6)]"

definition compute_valence :: "text_patterns \<Rightarrow> bytes \<Rightarrow> f64" where
  "compute_valence T text' =
     (let hits = filter (\<lambda>(word, weight). contains (lower_case T text') word)
                   (positive_emotions @ negative_emotions)
      in if hits = [] then Fin 0
         else pad_clamp (Fin (sum_list (map snd hits)) / Fin (real (length hits))) (-1) 1)"

definition compute_arousal :: "text_patterns \<Rightarrow> bytes \<Rightarrow> f64" where
  "compute_arousal T text' =
     (let a = Fin 0 + f64_min (Fin 0.3) (Fin (real (count_list text' (CHR ''!''))) * Fin 0.1);
          a = a + f64_min (Fin 0.2) (Fin (real (caps_words T text')) * Fin 0.05);
          a = (if profanity T text' then a + Fin 0.3 else a);
          a = (if strong_emotions T text' then a + Fin 0.3 else a);
          a = (if repeated_questions T text' then a + Fin 0.1 else a)
      in f64_min (Fin 1) a)"

definition sentences :: "bytes \<Rightarrow> bytes list" where
  "sentences text' =
     filter (\<lambda>s. trim s \<noteq> []) (split_text (\<lambda>c. c \<in> {''.'', ''!'', ''?''}) text')"

definition average_sentence_words :: "bytes \<Rightarrow> real" where
  "average_sentence_words text' =
     (let ss = sentences text'
      in if ss = [] then 0
         else real (sum_list (map (\<lambda>s. length (split_whitespace s)) ss)) / real (length ss))"

definition compute_dominance :: "text_patterns \<Rightarrow> bytes \<Rightarrow> f64" where
  "compute_dominance T text' =
     (let high_signals = length (filter (\<lambda>p. p text') (high_dominance T));
          low_signals = length (filter (\<lambda>p. p text') (low_dominance T));
          pattern_score = Fin (0.3 * real high_signals - 0.3 * real low_signals);
          total_signals = high_signals + low_signals;
          coherence_bonus = pad_clamp (Fin ((average_sentence_words text' - 10) * 0.01)) (-0.1) 0.1;
          hedging_penalty = (if 0 < total_signals
            then Fin (real low_signals / real total_signals * 0.15) else Fin 0);
          serotonin_proxy = coherence_bonus - hedging_penalty;
          raw = pattern_score + serotonin_proxy
      in if total_signals = 0 \<and> f64_abs serotonin_proxy < Fin 0.02 then Fin 0
         else pad_clamp raw (-1) 1)"

definition extract_pad :: "text_patterns \<Rightarrow> bytes \<Rightarrow> pad" where
  "extract_pad T text' =
     (let raw_arousal = compute_arousal T text'
      in \<lparr>pleasure = compute_valence T text',
          arousal = (if Fin 0 < raw_arousal then raw_arousal * Fin 2 - Fin 1 else Fin (-0.3)),
          dominance = compute_dominance T text'\<rparr>)"

definition classify_memory_type :: "text_patterns \<Rightarrow> bytes \<Rightarrow> memory_type" where
  "classify_memory_type T text' =
     (if Fin 0.4 < compute_arousal T text' \<or> Fin 0.5 < f64_abs (compute_valence T text')
      then Emotional
      else if procedural_re T text' then Procedural
      else if episodic_re T text' then Episodic
      else Semantic)"

section \<open>Importance\<close>

record importance_signals =
  has_decision :: bool
  has_entity :: bool
  has_emotion :: bool
  has_fact :: bool
  has_code :: bool
  has_error :: bool

definition matches_any :: "bytes \<Rightarrow> (bytes \<Rightarrow> bool) list \<Rightarrow> bool" where
  "matches_any text' ps = list_ex (\<lambda>p. p text') ps"

definition count_matches :: "bytes \<Rightarrow> (bytes \<Rightarrow> bool) list \<Rightarrow> nat" where
  "count_matches text' ps = length (filter (\<lambda>p. p text') ps)"

definition extract_signals :: "text_patterns \<Rightarrow> bytes \<Rightarrow> importance_signals" where
  "extract_signals T text' =
     \<lparr>has_decision = matches_any text' (decision_patterns T),
      has_entity = matches_any text' (entity_patterns T),
      has_emotion = matches_any text' (emotion_patterns T),
      has_fact = matches_any text' (fact_patterns T),
      has_code = matches_any text' (code_patterns T),
      has_error = matches_any text' (error_patterns T)\<rparr>"

definition signal_weights :: "importance_signals \<Rightarrow> (bool \<times> real) list" where
  "signal_weights s =
     [(has_decision s, 0.30), (has_entity s, 0.10), (has_emotion s, 0.10), (has_fact s, 0.20),
      (has_code s, 0.20), (has_error s, 0.25)]"

definition score_importance :: "text_patterns \<Rightarrow> bytes \<Rightarrow> f64" where
  "score_importance T text' =
     (let trimmed = trim text'
      in if trimmed = [] then Fin 0
         else if length (chars trimmed) < 10 then Fin 0.01
         else let len = real (length (chars trimmed));
                  length_bonus = min 0.15 (max 0 (log 2 (len / 20)) * 0.03);
                  sc = 0.05 + length_bonus
                     + sum_list (map snd (filter fst (signal_weights (extract_signals T trimmed))))
              in Fin (real_of_int (round_half_away (min (max sc 0) 1 * 1000)) / 1000))"

definition content_boost :: "text_patterns \<Rightarrow> bytes \<Rightarrow> f64" where
  "content_boost T text' =
     (let low = lower_case T text';
          emotional_hits = count_matches low (emotion_patterns T);
          foundational_hits = count_matches low (foundational_patterns T);
          validation_hits = count_matches low (validation_patterns T);
          b = min (real emotional_hits * 0.08) 0.20;
          b = b + min (real foundational_hits * 0.12) 0.30;
          b = b + min (real validation_hits * 0.10) 0.20;
          b = (if 0 < foundational_hits \<and> 0 < validation_hits then b + 0.10 else b);
          b = (if 0 < emotional_hits \<and> 0 < foundational_hits then b + 0.08 else b)
      in Fin (min b 0.50))"

definition classify_importance :: "text_patterns \<Rightarrow> bytes \<Rightarrow> f64 \<times> importance_signals" where
  "classify_importance T text' =
     (f64_min (Fin 1) (score_importance T text' + content_boost T text'), extract_signals T text')"

section \<open>Entities\<close>

definition tech_keywords :: "string list" where
  "tech_keywords =
     [''react'', ''vue'', ''angular'', ''svelte'', ''nextjs'', ''typescript'', ''python'', ''go'',
      ''rust'', ''java'', ''kotlin'', ''swift'', ''docker'', ''kubernetes'', ''terraform'', ''aws'',
      ''gcp'', ''azure'', ''postgresql'', ''mongodb'', ''redis'', ''qdrant'', ''fastapi'',
      ''django'', ''flask'', ''nodejs'', ''graphql'', ''grpc'', ''websocket'', ''gemma'', ''llama'',
      ''gpt'', ''claude'', ''openai'', ''anthropic'']"

text \<open>One extractor: keep the first entity of every lower-cased name that was not seen.\<close>

fun add_entities ::
  "(bytes \<Rightarrow> bytes) \<Rightarrow> entity_kind \<Rightarrow> f64 \<Rightarrow> bytes list \<Rightarrow> extracted_entity list \<times> bytes list
   \<Rightarrow> extracted_entity list \<times> bytes list" where
  "add_entities key kind s [] (found, seen) = (found, seen)"
| "add_entities key kind s (n # ns) (found, seen) =
     add_entities key kind s ns
       (if key n \<in> set seen then (found, seen)
        else (found @ [\<lparr>ent_name = n, ent_kind = kind, ent_salience = s\<rparr>], key n # seen))"

definition tech_words :: "text_patterns \<Rightarrow> bytes \<Rightarrow> bytes list" where
  "tech_words T text' =
     filter (\<lambda>w. w \<in> set tech_keywords)
       (split_text (\<lambda>c. is_whitespace c \<or> c \<in> {'','', ''.'', ''/'', ''('', '')'', ''['', '']'',
            ''{'', ''}'', ''<'', ''>''}) (lower_case T text'))"

definition extract_entities :: "text_patterns \<Rightarrow> bytes \<Rightarrow> extracted_entity list" where
  "extract_entities T text' =
     fst (add_entities (lower_case T) ProjectEntity (Fin 0.4) (url_matches T text')
       (add_entities (\<lambda>w. w) Technology (Fin 0.5) (tech_words T text')
         (add_entities (lower_case T) Person (Fin 0.7) (name_matches T text') ([], []))))"

section \<open>Bounds\<close>

lemma compute_arousal_ranged: "ranged 0 1 (compute_arousal T text')"
  by (simp add: compute_arousal_def Let_def min_def)

lemma extract_pad_cube: "in_cube (extract_pad T text')"
proof -
  obtain a where a: "compute_arousal T text' = Fin a" "0 \<le> a" "a \<le> 1"
    using compute_arousal_ranged by (rule ranged_obtain)
  have "ranged (-1) 1 (compute_valence T text')"
    by (simp add: compute_valence_def Let_def float_bounds)
  moreover have "ranged (-1) 1 (compute_dominance T text')"
    by (simp add: compute_dominance_def Let_def float_bounds)
  ultimately show ?thesis using a by (simp add: extract_pad_def in_cube_def Let_def)
qed

lemma round_thousandths: "0 \<le> x \<Longrightarrow> x \<le> 1 \<Longrightarrow>
  0 \<le> real_of_int (round_half_away (x * 1000)) / 1000 \<and> real_of_int (round_half_away (x * 1000)) / 1000 \<le> 1"
  by (auto simp: round_half_away_def floor_le_iff)

lemma score_importance_ranged: "ranged 0 1 (score_importance T text')"
proof -
  have "ranged 0 1 (Fin (real_of_int (round_half_away (min (max x 0) 1 * 1000)) / 1000))" for x
    using round_thousandths [of "min (max x 0) 1"] by simp
  then show ?thesis by (simp add: score_importance_def Let_def)
qed

lemma content_boost_ranged: "ranged 0 0.5 (content_boost T text')"
  by (simp add: content_boost_def Let_def min_def)

text \<open>
  Whatever a text says and whatever the expressions match in it, its reading is within the
  documented bounds: the emotional coordinates lie in the cube of side -1 to 1, the importance lies
  between 0 and 1, its boost is at most one half, and an importance is never lowered by the boost.
\<close>

theorem text_readings_bounded:
  "in_cube (extract_pad T text') \<and> ranged 0 1 (compute_arousal T text')
   \<and> ranged 0 1 (score_importance T text') \<and> ranged 0 0.5 (content_boost T text')
   \<and> ranged 0 1 (fst (classify_importance T text'))
   \<and> score_importance T text' \<le> fst (classify_importance T text')"
proof -
  obtain s b where "score_importance T text' = Fin s" "0 \<le> s" "s \<le> 1"
    "content_boost T text' = Fin b" "0 \<le> b" "b \<le> 0.5"
    using score_importance_ranged [of T text'] content_boost_ranged [of T text']
    by (auto simp: ranged_def)
  then show ?thesis
    by (simp add: extract_pad_cube compute_arousal_ranged classify_importance_def)
qed

end
