(* ===== verification/Memory_Codec.thy ===== *)
theory Memory_Codec
  imports Identity Governance_State
begin

text \<open>
  \<open>memory.rs\<close>: the memory document, its encoder and its decoder. Two things are parameters:
  \<open>b3\<close>, the hexadecimal BLAKE3 digest of a text, and \<open>q15_ok\<close>, the acceptance test of the
  third-party \<open>Q15Vector::new\<close>; a \<open>Q15Vector\<close> is the component list it was built from.
\<close>

section \<open>The memory document\<close>

record memory =
  mem_id :: string
  schema_version :: u32
  mem_revision :: u64
  identity :: memory_identity
  provenance :: provenance
  embedding_space :: "embedding_space option"
  mem_vector :: "i16 list option"
  governance :: "governance_classification option"
  content :: string
  importance :: f64
  mem_pad :: pad
  strength :: f64
  retrieval_count :: u32
  memory_type :: memory_type
  mem_state :: memory_state
  mem_scope :: scope
  tags :: "string list"
  entities :: "extracted_entity list"
  consolidation_count :: u32
  created_at_ms :: i64
  updated_at_ms :: i64
  event_at_ms :: "i64 option"
  ingested_at_ms :: i64
  last_retrieved_at_ms :: i64

definition memory_kind :: string where
  "memory_kind = ''memory''"

definition memory_key :: "memory \<Rightarrow> bytes" where
  "memory_key m = mem_id m"

definition entity_value :: "extracted_entity \<Rightarrow> val" where
  "entity_value e = VObject
     [''name'' \<mapsto> VString (ent_name e),
      ''entity_kind'' \<mapsto> VString (entity_kind_as_str (ent_kind e)),
      ''salience'' \<mapsto> nanos_value (ent_salience e)]"

definition vector_value :: "i16 list option \<Rightarrow> val" where
  "vector_value v = (case v of None \<Rightarrow> VNull | Some xs \<Rightarrow> VArray (map (VInteger \<circ> i64_of_i16) xs))"

definition governance_value :: "governance_classification option \<Rightarrow> val" where
  "governance_value g = (case g of None \<Rightarrow> VNull | Some c \<Rightarrow> governance_to_value c)"

definition insert_identity :: "memory \<Rightarrow> fields \<Rightarrow> fields" where
  "insert_identity m fs = fs
     (''kind'' \<mapsto> VString memory_kind,
      ''schema_version'' \<mapsto> VInteger (i64_of_u32 (schema_version m)),
      ''revision'' \<mapsto> VInteger (i64_of_u64_sat (mem_revision m)),
      ''tenant_id'' \<mapsto> VString (tenant_id (identity m)),
      ''user_id'' \<mapsto> VString (user_id (identity m)),
      ''agent_id'' \<mapsto> opt_string (agent_id (identity m)),
      ''project_id'' \<mapsto> opt_string (project_id (identity m)),
      ''conversation_id'' \<mapsto> opt_string (conversation_id (identity m)),
      ''session_id'' \<mapsto> opt_string (session_id (identity m)))"

definition insert_provenance :: "memory \<Rightarrow> fields \<Rightarrow> fields" where
  "insert_provenance m fs = fs
     (''source_kind'' \<mapsto> VString (source_kind_as_str (source_kind (provenance m))),
      ''source_namespace'' \<mapsto> opt_string (source_namespace (provenance m)),
      ''source_id'' \<mapsto> opt_string (source_id (provenance m)),
      ''event_id'' \<mapsto> opt_string (event_id (provenance m)),
      ''turn_id'' \<mapsto> opt_string (turn_id (provenance m)),
      ''source_uri'' \<mapsto> opt_string (source_uri (provenance m)),
      ''source_actor'' \<mapsto> opt_string (actor (provenance m)),
      ''content_hash'' \<mapsto> VString (content_hash (provenance m)))"

definition insert_embedding :: "memory \<Rightarrow> fields \<Rightarrow> fields" where
  "insert_embedding m fs =
     (case embedding_space m of None \<Rightarrow> fs | Some s \<Rightarrow> fs
        (''embedding_provider'' \<mapsto> VString (provider s),
         ''embedding_model'' \<mapsto> VString (model s),
         ''embedding_revision'' \<mapsto> VString (revision s),
         ''embedding_dimension'' \<mapsto> VInteger (i64_of_u16 (dimension s)),
         ''embedding_normalization'' \<mapsto> VString (normalization_as_str (normalization s))))"

definition insert_content :: "memory \<Rightarrow> fields \<Rightarrow> fields" where
  "insert_content m fs = fs
     (''embedding_vector'' \<mapsto> vector_value (mem_vector m),
      ''governance'' \<mapsto> governance_value (governance m),
      ''content'' \<mapsto> VString (content m),
      ''importance'' \<mapsto> nanos_value (importance m),
      ''valence'' \<mapsto> nanos_value (pleasure (mem_pad m)),
      ''arousal'' \<mapsto> nanos_value (arousal (mem_pad m)),
      ''dominance'' \<mapsto> nanos_value (dominance (mem_pad m)),
      ''strength'' \<mapsto> nanos_value (strength m),
      ''retrieval_count'' \<mapsto> VInteger (i64_of_u32 (retrieval_count m)))"

definition insert_lifecycle :: "memory \<Rightarrow> fields \<Rightarrow> fields" where
  "insert_lifecycle m fs = fs
     (''memory_type'' \<mapsto> VString (memory_type_as_str (memory_type m)),
      ''state'' \<mapsto> VString (memory_state_as_str (mem_state m)),
      ''scope'' \<mapsto> VString (scope_as_str (mem_scope m)),
      ''tags'' \<mapsto> string_array_value (tags m),
      ''entities'' \<mapsto> VArray (map entity_value (entities m)),
      ''consolidation_count'' \<mapsto> VInteger (i64_of_u32 (consolidation_count m)),
      ''created_at_ms'' \<mapsto> VInteger (created_at_ms m),
      ''updated_at_ms'' \<mapsto> VInteger (updated_at_ms m),
      ''event_at_ms'' \<mapsto> opt_integer (event_at_ms m),
      ''ingested_at_ms'' \<mapsto> VInteger (ingested_at_ms m),
      ''last_retrieved_at_ms'' \<mapsto> VInteger (last_retrieved_at_ms m))"

definition memory_fields :: "memory \<Rightarrow> fields" where
  "memory_fields m =
     insert_lifecycle m (insert_content m (insert_embedding m
       (insert_provenance m (insert_identity m Map.empty))))"

definition memory_to_record :: "memory \<Rightarrow> doc" where
  "memory_to_record m = \<lparr>doc_key = memory_key m, doc_value = VObject (memory_fields m)\<rparr>"

section \<open>The decoder\<close>

definition optional_identity_field :: "fields \<Rightarrow> string \<Rightarrow> string \<Rightarrow> string option decoded" where
  "optional_identity_field fs f kind =
     r_bind (optional_string_field fs f) (\<lambda>o'. case o' of
       None \<Rightarrow> Inr None
     | Some v \<Rightarrow> r_map Some (map_err (FieldErr f) (identity_new kind v)))"

definition identity_fields :: "fields \<Rightarrow> memory_identity decoded" where
  "identity_fields fs =
     r_bind (optional_string_field fs ''tenant_id'') (\<lambda>t.
     r_bind (optional_string_field fs ''user_id'') (\<lambda>u.
     r_bind (map_err (FieldErr ''tenant_id'')
              (identity_new ''tenant id'' (case t of None \<Rightarrow> ''local'' | Some x \<Rightarrow> x))) (\<lambda>t.
     r_bind (map_err (FieldErr ''user_id'')
              (identity_new ''user id'' (case u of None \<Rightarrow> ''local'' | Some x \<Rightarrow> x))) (\<lambda>u.
     r_bind (optional_identity_field fs ''agent_id'' ''agent id'') (\<lambda>a.
     r_bind (optional_identity_field fs ''project_id'' ''project id'') (\<lambda>p.
     r_bind (optional_identity_field fs ''conversation_id'' ''conversation id'') (\<lambda>c.
     r_bind (optional_identity_field fs ''session_id'' ''session id'') (\<lambda>s.
       Inr \<lparr>tenant_id = t, user_id = u, agent_id = a, project_id = p, conversation_id = c,
            session_id = s\<rparr>))))))))"

definition provenance_fields :: "(bytes \<Rightarrow> string) \<Rightarrow> fields \<Rightarrow> string \<Rightarrow> provenance decoded" where
  "provenance_fields b3 fs text' =
     r_bind (optional_string_field fs ''source_kind'') (\<lambda>k. case k of
       None \<Rightarrow> Inr (provenance_legacy b3 text')
     | Some k \<Rightarrow>
         r_bind (ok_or (FieldErr ''source_kind'') (source_kind_parse k)) (\<lambda>kind.
         r_bind (optional_string_field fs ''source_namespace'') (\<lambda>ns.
         r_bind (optional_string_field fs ''source_id'') (\<lambda>sid.
         r_bind (optional_string_field fs ''event_id'') (\<lambda>eid.
         r_bind (optional_string_field fs ''turn_id'') (\<lambda>tid.
         r_bind (optional_string_field fs ''source_uri'') (\<lambda>uri.
         r_bind (optional_string_field fs ''source_actor'') (\<lambda>act.
         r_bind (string_field fs ''content_hash'') (\<lambda>h.
           Inr \<lparr>source_kind = kind, source_namespace = ns, source_id = sid, event_id = eid,
                turn_id = tid, source_uri = uri, actor = act, content_hash = h\<rparr>)))))))))"

definition embedding_space_fields :: "fields \<Rightarrow> embedding_space option decoded" where
  "embedding_space_fields fs =
     r_bind (optional_string_field fs ''embedding_provider'') (\<lambda>p. case p of
       None \<Rightarrow> Inr None
     | Some p \<Rightarrow>
         r_bind (string_field fs ''embedding_model'') (\<lambda>m.
         r_bind (string_field fs ''embedding_revision'') (\<lambda>r.
         r_bind (integer_field fs ''embedding_dimension'') (\<lambda>d.
         r_bind (ok_or (FieldErr ''embedding_dimension'') (u16_of_i64 d)) (\<lambda>d.
         r_bind (string_field fs ''embedding_normalization'') (\<lambda>n.
         r_bind (if n = ''l2'' then Inr L2 else Inl (FieldErr ''embedding_normalization'')) (\<lambda>n.
           r_map Some (map_err (FieldErr ''embedding_space'')
             (embedding_space_new p m r d n)))))))))"

definition vector_item :: "val \<Rightarrow> i16 decoded" where
  "vector_item v = (case v of
     VInteger n \<Rightarrow> ok_or (FieldErr ''embedding_vector'') (i16_of_i64 n)
   | _ \<Rightarrow> Inl (FieldErr ''embedding_vector''))"

definition vector_field :: "(i16 list \<Rightarrow> bool) \<Rightarrow> fields \<Rightarrow> i16 list option decoded" where
  "vector_field q15_ok fs = (case fs ''embedding_vector'' of
     None \<Rightarrow> Inr None
   | Some (VArray vs) \<Rightarrow>
       r_bind (r_collect vector_item vs) (\<lambda>xs.
         if q15_ok xs then Inr (Some xs) else Inl (FieldErr ''embedding_vector''))
   | Some VNull \<Rightarrow> Inr None
   | _ \<Rightarrow> Inl (FieldErr ''embedding_vector''))"

definition governance_field :: "fields \<Rightarrow> governance_classification option decoded" where
  "governance_field fs = (case fs ''governance'' of
     None \<Rightarrow> Inr None
   | Some VNull \<Rightarrow> Inr None
   | Some v \<Rightarrow> r_map Some (governance_from_value v))"

definition entity_of_value :: "val \<Rightarrow> extracted_entity decoded" where
  "entity_of_value v = (case v of
     VObject fs \<Rightarrow>
       r_bind (string_field fs ''name'') (\<lambda>n.
       r_bind (string_field fs ''entity_kind'') (\<lambda>k.
       r_bind (ok_or (FieldErr ''entities'') (entity_kind_parse k)) (\<lambda>k.
       r_bind (nanos_field fs ''salience'') (\<lambda>s.
         Inr \<lparr>ent_name = n, ent_kind = k, ent_salience = s\<rparr>))))
   | _ \<Rightarrow> Inl (FieldErr ''entities''))"

definition entities_field :: "fields \<Rightarrow> extracted_entity list decoded" where
  "entities_field fs = (case fs ''entities'' of
     Some (VArray vs) \<Rightarrow> r_collect entity_of_value vs
   | _ \<Rightarrow> Inl (FieldErr ''entities''))"

definition u32_field :: "fields \<Rightarrow> string \<Rightarrow> u32 decoded" where
  "u32_field fs f = r_bind (integer_field fs f) (\<lambda>n. ok_or (FieldErr f) (u32_of_i64 n))"

definition with_default :: "'a \<Rightarrow> 'a option \<Rightarrow> 'a" where
  "with_default d o' = (case o' of None \<Rightarrow> d | Some x \<Rightarrow> x)"

text \<open>The fields of the struct expression are evaluated in its order; the first error wins.\<close>

definition memory_from_record ::
  "(bytes \<Rightarrow> string) \<Rightarrow> (i16 list \<Rightarrow> bool) \<Rightarrow> doc \<Rightarrow> memory decoded" where
  "memory_from_record b3 q15_ok rec =
     (if \<not> utf8_valid (doc_key rec) then Inl KeyErr else
      r_bind (root_fields (doc_value rec)) (\<lambda>fs.
      r_bind (string_field fs ''content'') (\<lambda>text'.
      r_bind (optional_integer_field fs ''schema_version'') (\<lambda>sv.
      r_bind (ok_or (FieldErr ''schema_version'') (u32_of_i64 (with_default 0 sv))) (\<lambda>sv.
      r_bind (optional_integer_field fs ''revision'') (\<lambda>rev'.
      r_bind (ok_or (FieldErr ''revision'') (u64_of_i64 (with_default 1 rev'))) (\<lambda>rev'.
      r_bind (identity_fields fs) (\<lambda>ident.
      r_bind (provenance_fields b3 fs text') (\<lambda>prov.
      r_bind (embedding_space_fields fs) (\<lambda>space.
      r_bind (vector_field q15_ok fs) (\<lambda>vec.
      r_bind (governance_field fs) (\<lambda>gov.
      r_bind (nanos_field fs ''importance'') (\<lambda>imp.
      r_bind (nanos_field fs ''valence'') (\<lambda>val'.
      r_bind (nanos_field fs ''arousal'') (\<lambda>aro.
      r_bind (nanos_field fs ''dominance'') (\<lambda>dom'.
      r_bind (nanos_field fs ''strength'') (\<lambda>str.
      r_bind (u32_field fs ''retrieval_count'') (\<lambda>rc.
      r_bind (enum_field memory_type_parse fs ''memory_type'' ''memory_type'') (\<lambda>mt.
      r_bind (enum_field memory_state_parse fs ''state'' ''state'') (\<lambda>st.
      r_bind (enum_field scope_parse fs ''scope'' ''scope'') (\<lambda>sc.
      r_bind (string_array_field fs ''tags'') (\<lambda>ts.
      r_bind (entities_field fs) (\<lambda>ents.
      r_bind (u32_field fs ''consolidation_count'') (\<lambda>cc.
      r_bind (integer_field fs ''created_at_ms'') (\<lambda>created.
      r_bind (optional_integer_field fs ''updated_at_ms'') (\<lambda>upd.
      r_bind (optional_integer_field fs ''event_at_ms'') (\<lambda>evt.
      r_bind (optional_integer_field fs ''ingested_at_ms'') (\<lambda>ing.
      r_bind (integer_field fs ''last_retrieved_at_ms'') (\<lambda>last'.
        Inr \<lparr>mem_id = doc_key rec, schema_version = sv, mem_revision = rev', identity = ident,
             provenance = prov, embedding_space = space, mem_vector = vec, governance = gov,
             content = text', importance = imp,
             mem_pad = \<lparr>pleasure = val', arousal = aro, dominance = dom'\<rparr>, strength = str,
             retrieval_count = rc, memory_type = mt, mem_state = st, mem_scope = sc, tags = ts,
             entities = ents, consolidation_count = cc, created_at_ms = created,
             updated_at_ms = with_default created upd, event_at_ms = evt,
             ingested_at_ms = with_default created ing,
             last_retrieved_at_ms = last'\<rparr>)))))))))))))))))))))))))))))"

section \<open>Visibility\<close>

text \<open>
  The visibility rules of \<open>engine.rs\<close> between an owner's identity or scope and a requesting scope.
\<close>

definition memory_visible_to :: "memory \<Rightarrow> recall_scope \<Rightarrow> bool" where
  "memory_visible_to m sc =
     (if tenant_id (identity m) \<noteq> rs_tenant_id sc \<or> user_id (identity m) \<noteq> rs_user_id sc then False
      else case mem_scope m of
        Global \<Rightarrow> True
      | Project \<Rightarrow> project_id (identity m) = rs_project_id sc
      | Session \<Rightarrow> project_id (identity m) = rs_project_id sc
          \<and> session_id (identity m) = rs_session_id sc)"

definition validate_scope_identity :: "scope \<Rightarrow> memory_identity \<Rightarrow> unit decoded" where
  "validate_scope_identity sc i =
     (let valid = (case sc of
          Global \<Rightarrow> True
        | Project \<Rightarrow> project_id i \<noteq> None
        | Session \<Rightarrow> project_id i \<noteq> None \<and> session_id i \<noteq> None)
      in if valid then Inr () else Inl (FieldErr ''scope_identity''))"

definition recall_scope_visible_to :: "recall_scope \<Rightarrow> recall_scope \<Rightarrow> bool" where
  "recall_scope_visible_to owner requested \<longleftrightarrow>
     rs_tenant_id owner = rs_tenant_id requested \<and> rs_user_id owner = rs_user_id requested
     \<and> rs_project_id owner = rs_project_id requested
     \<and> rs_session_id owner = rs_session_id requested"

definition none_or_same :: "'a option \<Rightarrow> 'a option \<Rightarrow> bool" where
  "none_or_same owner requested = (case owner of None \<Rightarrow> True | Some x \<Rightarrow> requested = Some x)"

definition derived_visible_to :: "recall_scope \<Rightarrow> recall_scope \<Rightarrow> bool" where
  "derived_visible_to owner requested \<longleftrightarrow>
     rs_tenant_id owner = rs_tenant_id requested \<and> rs_user_id owner = rs_user_id requested
     \<and> none_or_same (rs_project_id owner) (rs_project_id requested)
     \<and> none_or_same (rs_session_id owner) (rs_session_id requested)"

definition derived_integrity_scope_visible :: "recall_scope \<Rightarrow> recall_scope \<Rightarrow> bool" where
  "derived_integrity_scope_visible owner requested \<longleftrightarrow>
     rs_tenant_id owner = rs_tenant_id requested \<and> rs_user_id owner = rs_user_id requested
     \<and> rs_project_id owner = rs_project_id requested"

definition ingestion_scope_visible_to :: "recall_scope \<Rightarrow> recall_scope \<Rightarrow> bool" where
  "ingestion_scope_visible_to owner requested \<longleftrightarrow>
     rs_tenant_id owner = rs_tenant_id requested \<and> rs_user_id owner = rs_user_id requested
     \<and> none_or_same (rs_project_id owner) (rs_project_id requested)
     \<and> none_or_same (rs_session_id owner) (rs_session_id requested)"

definition forgotten_source_reaches_derived :: "recall_scope \<Rightarrow> recall_scope \<Rightarrow> bool" where
  "forgotten_source_reaches_derived source derived \<longleftrightarrow>
     rs_tenant_id source = rs_tenant_id derived \<and> rs_user_id source = rs_user_id derived
     \<and> rs_project_id source = rs_project_id derived
     \<and> (rs_session_id source = rs_session_id derived \<or> rs_session_id derived = None)"

text \<open>What every visibility rule has in common: no tenant and no user is crossed.\<close>

locale owner_isolation =
  fixes visible :: "'o \<Rightarrow> recall_scope \<Rightarrow> bool"
    and owner_tenant :: "'o \<Rightarrow> string"
    and owner_user :: "'o \<Rightarrow> string"
  assumes visible_owner:
    "visible x sc \<Longrightarrow> owner_tenant x = rs_tenant_id sc \<and> owner_user x = rs_user_id sc"
begin

lemma filter_other_owner:
  "\<forall>x\<in>set xs. owner_tenant x \<noteq> rs_tenant_id sc \<or> owner_user x \<noteq> rs_user_id sc
   \<Longrightarrow> filter (\<lambda>x. visible x sc) xs = []"
  using visible_owner by (fastforce simp: filter_empty_conv)

lemma same_requester:
  "visible x sc \<Longrightarrow> visible x sc' \<Longrightarrow>
   rs_tenant_id sc = rs_tenant_id sc' \<and> rs_user_id sc = rs_user_id sc'"
  using visible_owner by metis

end

interpretation memory_isolation:
  owner_isolation memory_visible_to "tenant_id \<circ> identity" "user_id \<circ> identity"
  by unfold_locales (simp add: memory_visible_to_def split: if_splits)

interpretation scope_isolation:
  owner_isolation recall_scope_visible_to rs_tenant_id rs_user_id
  by unfold_locales (simp add: recall_scope_visible_to_def)

interpretation derived_isolation:
  owner_isolation derived_visible_to rs_tenant_id rs_user_id
  by unfold_locales (simp add: derived_visible_to_def)

interpretation ingestion_isolation:
  owner_isolation ingestion_scope_visible_to rs_tenant_id rs_user_id
  by unfold_locales (simp add: ingestion_scope_visible_to_def)

end
