(* ===== verification/Memory_Roundtrip.thy ===== *)
theory Memory_Roundtrip
  imports Memory_Codec
begin

text \<open>
  The memory document survives the store: decoding an encoded memory gives the memory back, up to
  the two places where the encoder loses precision on purpose (scalars on the nano grid, the
  revision saturated to \<open>i64\<close>), and decoding never accepts a document whose identifiers or
  embedding space the constructors would refuse.
\<close>

section \<open>What each field of an encoded memory holds\<close>

lemma insert_embedding_other:
  "f \<notin> {''embedding_provider'', ''embedding_model'', ''embedding_revision'',
         ''embedding_dimension'', ''embedding_normalization''}
   \<Longrightarrow> insert_embedding m fs f = fs f"
  by (simp add: insert_embedding_def split: option.splits)

lemma memory_fields_lookup:
  "memory_fields m ''kind'' = Some (VString memory_kind)"
  "memory_fields m ''schema_version'' = Some (VInteger (i64_of_u32 (schema_version m)))"
  "memory_fields m ''revision'' = Some (VInteger (i64_of_u64_sat (mem_revision m)))"
  "memory_fields m ''tenant_id'' = Some (VString (tenant_id (identity m)))"
  "memory_fields m ''user_id'' = Some (VString (user_id (identity m)))"
  "memory_fields m ''agent_id'' = Some (opt_string (agent_id (identity m)))"
  "memory_fields m ''project_id'' = Some (opt_string (project_id (identity m)))"
  "memory_fields m ''conversation_id'' = Some (opt_string (conversation_id (identity m)))"
  "memory_fields m ''session_id'' = Some (opt_string (session_id (identity m)))"
  "memory_fields m ''source_kind'' = Some (VString (source_kind_as_str (source_kind (provenance m))))"
  "memory_fields m ''source_namespace'' = Some (opt_string (source_namespace (provenance m)))"
  "memory_fields m ''source_id'' = Some (opt_string (source_id (provenance m)))"
  "memory_fields m ''event_id'' = Some (opt_string (event_id (provenance m)))"
  "memory_fields m ''turn_id'' = Some (opt_string (turn_id (provenance m)))"
  "memory_fields m ''source_uri'' = Some (opt_string (source_uri (provenance m)))"
  "memory_fields m ''source_actor'' = Some (opt_string (actor (provenance m)))"
  "memory_fields m ''content_hash'' = Some (VString (content_hash (provenance m)))"
  "memory_fields m ''embedding_vector'' = Some (vector_value (mem_vector m))"
  "memory_fields m ''governance'' = Some (governance_value (governance m))"
  "memory_fields m ''content'' = Some (VString (content m))"
  "memory_fields m ''importance'' = Some (nanos_value (importance m))"
  "memory_fields m ''valence'' = Some (nanos_value (pleasure (mem_pad m)))"
  "memory_fields m ''arousal'' = Some (nanos_value (arousal (mem_pad m)))"
  "memory_fields m ''dominance'' = Some (nanos_value (dominance (mem_pad m)))"
  "memory_fields m ''strength'' = Some (nanos_value (strength m))"
  "memory_fields m ''retrieval_count'' = Some (VInteger (i64_of_u32 (retrieval_count m)))"
  "memory_fields m ''memory_type'' = Some (VString (memory_type_as_str (memory_type m)))"
  "memory_fields m ''state'' = Some (VString (memory_state_as_str (mem_state m)))"
  "memory_fields m ''scope'' = Some (VString (scope_as_str (mem_scope m)))"
  "memory_fields m ''tags'' = Some (string_array_value (tags m))"
  "memory_fields m ''entities'' = Some (VArray (map entity_value (entities m)))"
  "memory_fields m ''consolidation_count'' = Some (VInteger (i64_of_u32 (consolidation_count m)))"
  "memory_fields m ''created_at_ms'' = Some (VInteger (created_at_ms m))"
  "memory_fields m ''updated_at_ms'' = Some (VInteger (updated_at_ms m))"
  "memory_fields m ''event_at_ms'' = Some (opt_integer (event_at_ms m))"
  "memory_fields m ''ingested_at_ms'' = Some (VInteger (ingested_at_ms m))"
  "memory_fields m ''last_retrieved_at_ms'' = Some (VInteger (last_retrieved_at_ms m))"
  by (simp_all add: memory_fields_def insert_lifecycle_def insert_content_def
      insert_embedding_other insert_provenance_def insert_identity_def)

lemma memory_fields_embedding:
  "memory_fields m ''embedding_provider'' = map_option (VString \<circ> provider) (embedding_space m)"
  "memory_fields m ''embedding_model'' = map_option (VString \<circ> model) (embedding_space m)"
  "memory_fields m ''embedding_revision'' = map_option (VString \<circ> revision) (embedding_space m)"
  "memory_fields m ''embedding_dimension'' =
     map_option (VInteger \<circ> i64_of_u16 \<circ> dimension) (embedding_space m)"
  "memory_fields m ''embedding_normalization'' =
     map_option (VString \<circ> normalization_as_str \<circ> normalization) (embedding_space m)"
  by (cases "embedding_space m"; simp add: memory_fields_def insert_lifecycle_def insert_content_def
      insert_embedding_def insert_provenance_def insert_identity_def)+

section \<open>Field groups\<close>

lemma optional_identity_written [codec]:
  "fs f = Some (opt_string o') \<Longrightarrow> pred_option valid_identity o'
   \<Longrightarrow> optional_identity_field fs f k = Inr o'"
  by (cases o') (simp_all add: optional_identity_field_def codec)

lemma identity_fields_written:
  "wf_memory_identity (identity m) \<Longrightarrow> identity_fields (memory_fields m) = Inr (identity m)"
  by (simp add: identity_fields_def memory_fields_lookup codec wf_memory_identity_def)

lemma provenance_fields_written:
  "provenance_fields b3 (memory_fields m) c = Inr (provenance m)"
  by (simp add: provenance_fields_def memory_fields_lookup codec source_kind.of_to_name)

lemma embedding_space_fields_written:
  assumes "pred_option wf_embedding_space (embedding_space m)"
  shows "embedding_space_fields (memory_fields m) = Inr (embedding_space m)"
proof (cases "embedding_space m")
  case None
  then show ?thesis by (simp add: embedding_space_fields_def memory_fields_embedding codec)
next
  case (Some s)
  have n: "normalization_as_str (normalization s) = ''l2''" "normalization s = L2"
    by (cases "normalization s"; simp)+
  have "embedding_space_new (provider s) (model s) (revision s) (dimension s) L2 = Inr s"
    using embedding_space_new_wf [of s] assms Some n by simp
  then show ?thesis
    by (simp add: embedding_space_fields_def memory_fields_embedding Some codec n)
qed

lemma vector_field_written:
  assumes "pred_option q15_ok (mem_vector m)"
  shows "vector_field q15_ok (memory_fields m) = Inr (mem_vector m)"
proof (cases "mem_vector m")
  case None
  then show ?thesis by (simp add: vector_field_def memory_fields_lookup vector_value_def)
next
  case (Some xs)
  have "r_collect vector_item (map (VInteger \<circ> i64_of_i16) xs) = Inr (map id xs)"
    by (rule r_collect_map_Inr) (simp add: vector_item_def)
  with Some assms show ?thesis
    by (simp add: vector_field_def memory_fields_lookup vector_value_def)
qed

lemma governance_field_written:
  assumes "pred_option wf_governance (governance m)"
  shows "governance_field (memory_fields m) = Inr (governance m)"
proof (cases "governance m")
  case None
  then show ?thesis by (simp add: governance_field_def memory_fields_lookup governance_value_def)
next
  case (Some g)
  with assms have "governance_from_value (governance_to_value g) = Inr g"
    by (intro governance_roundtrip) simp
  with Some show ?thesis
    by (simp add: governance_field_def memory_fields_lookup governance_value_def
        governance_to_value_def)
qed

definition snap_entity :: "extracted_entity \<Rightarrow> extracted_entity" where
  "snap_entity e = e\<lparr>ent_salience := snap (ent_salience e)\<rparr>"

lemma entities_field_written:
  "entities_field (memory_fields m) = Inr (map snap_entity (entities m))"
  using r_collect_map_Inr [of "entities m" entity_of_value entity_value snap_entity]
  by (simp add: entities_field_def memory_fields_lookup entity_of_value_def entity_value_def codec
      entity_kind.of_to_name snap_entity_def)

section \<open>Round trip\<close>

text \<open>What a memory is once it has been stored: scalars on the nano grid, revision at most
  \<open>i64::MAX\<close>.\<close>

definition as_stored :: "memory \<Rightarrow> memory" where
  "as_stored m = m
     \<lparr>mem_revision := (if uint (mem_revision m) < 2 ^ 63 then mem_revision m else i64_max),
      importance := snap (importance m),
      mem_pad := \<lparr>pleasure = snap (pleasure (mem_pad m)), arousal = snap (arousal (mem_pad m)),
                  dominance = snap (dominance (mem_pad m))\<rparr>,
      strength := snap (strength m), entities := map snap_entity (entities m)\<rparr>"

definition wf_memory :: "(i16 list \<Rightarrow> bool) \<Rightarrow> memory \<Rightarrow> bool" where
  "wf_memory q15_ok m \<longleftrightarrow>
     utf8_valid (mem_id m) \<and> wf_memory_identity (identity m)
     \<and> pred_option wf_embedding_space (embedding_space m)
     \<and> pred_option q15_ok (mem_vector m) \<and> pred_option wf_governance (governance m)"

lemma u32_field_written [codec]:
  "fs f = Some (VInteger (i64_of_u32 n)) \<Longrightarrow> u32_field fs f = Inr n"
  by (simp add: u32_field_def codec)

lemma memory_decode_encode:
  assumes "wf_memory q15_ok m"
  shows "memory_from_record b3 q15_ok (memory_to_record m) = Inr (as_stored m)"
proof -
  have wf: "utf8_valid (mem_id m)"
    "identity_fields (memory_fields m) = Inr (identity m)"
    "embedding_space_fields (memory_fields m) = Inr (embedding_space m)"
    "vector_field q15_ok (memory_fields m) = Inr (mem_vector m)"
    "governance_field (memory_fields m) = Inr (governance m)"
    using assms by (simp_all add: wf_memory_def identity_fields_written
        embedding_space_fields_written vector_field_written governance_field_written)
  show ?thesis
    by (simp add: memory_from_record_def memory_to_record_def memory_key_def root_fields_VObject wf
        provenance_fields_written entities_field_written memory_fields_lookup
        read_integer read_string read_nanos read_enum read_string_array read_opt_integer
        read_present_integer u32_field_written with_default_def
        memory_type.of_to_name memory_state.of_to_name scope.of_to_name
        u64_of_i64_of_u64_sat as_stored_def)
qed

lemma as_stored_idem: "as_stored (as_stored m) = as_stored m"
  by (simp add: as_stored_def i64_max_def snap_entity_def o_def)

lemma i64_of_u64_sat_max [simp]: "i64_of_u64_sat i64_max = i64_max"
  by (simp add: i64_of_u64_sat_def i64_max_def)

lemma nanos_value_snap [simp]: "nanos_value (snap x) = nanos_value x"
  by (simp add: nanos_value_def)

lemma insert_as_stored:
  "insert_identity (as_stored m) = insert_identity m"
  "insert_provenance (as_stored m) = insert_provenance m"
  "insert_embedding (as_stored m) = insert_embedding m"
  "insert_content (as_stored m) = insert_content m"
  "insert_lifecycle (as_stored m) = insert_lifecycle m"
proof -
  have r: "i64_of_u64_sat (mem_revision (as_stored m)) = i64_of_u64_sat (mem_revision m)"
    by (simp add: as_stored_def i64_of_u64_sat_def i64_max_def)
  have e: "map entity_value (entities (as_stored m)) = map entity_value (entities m)"
    by (simp add: as_stored_def entity_value_def snap_entity_def)
  have s: "nanos_value (importance (as_stored m)) = nanos_value (importance m)"
    "nanos_value (pleasure (mem_pad (as_stored m))) = nanos_value (pleasure (mem_pad m))"
    "nanos_value (arousal (mem_pad (as_stored m))) = nanos_value (arousal (mem_pad m))"
    "nanos_value (dominance (mem_pad (as_stored m))) = nanos_value (dominance (mem_pad m))"
    "nanos_value (strength (as_stored m)) = nanos_value (strength m)"
    by (simp_all add: as_stored_def)
  have rest: "identity (as_stored m) = identity m" "schema_version (as_stored m) = schema_version m"
    "provenance (as_stored m) = provenance m" "embedding_space (as_stored m) = embedding_space m"
    "mem_vector (as_stored m) = mem_vector m" "governance (as_stored m) = governance m"
    "content (as_stored m) = content m" "retrieval_count (as_stored m) = retrieval_count m"
    "memory_type (as_stored m) = memory_type m" "mem_state (as_stored m) = mem_state m"
    "mem_scope (as_stored m) = mem_scope m" "tags (as_stored m) = tags m"
    "consolidation_count (as_stored m) = consolidation_count m"
    "created_at_ms (as_stored m) = created_at_ms m" "updated_at_ms (as_stored m) = updated_at_ms m"
    "event_at_ms (as_stored m) = event_at_ms m" "ingested_at_ms (as_stored m) = ingested_at_ms m"
    "last_retrieved_at_ms (as_stored m) = last_retrieved_at_ms m"
    by (simp_all add: as_stored_def)
  show "insert_identity (as_stored m) = insert_identity m"
    by (rule ext) (simp only: insert_identity_def r rest)
  show "insert_provenance (as_stored m) = insert_provenance m"
    by (rule ext) (simp only: insert_provenance_def rest)
  show "insert_embedding (as_stored m) = insert_embedding m"
    by (rule ext) (simp only: insert_embedding_def rest)
  show "insert_content (as_stored m) = insert_content m"
    by (rule ext) (simp only: insert_content_def s rest)
  show "insert_lifecycle (as_stored m) = insert_lifecycle m"
    by (rule ext) (simp only: insert_lifecycle_def e rest)
qed

lemma encode_as_stored: "memory_to_record (as_stored m) = memory_to_record m"
proof -
  have "mem_id (as_stored m) = mem_id m" by (simp add: as_stored_def)
  then show ?thesis
    by (simp only: memory_to_record_def memory_fields_def memory_key_def insert_as_stored)
qed

section \<open>What the decoder guarantees\<close>

lemma optional_identity_field_valid:
  "optional_identity_field fs f k = Inr o' \<Longrightarrow> pred_option valid_identity o'"
  by (auto simp: optional_identity_field_def r_bind_Inr identity_new_Inr split: option.splits)

lemma identity_fields_wf: "identity_fields fs = Inr i \<Longrightarrow> wf_memory_identity i"
  by (auto simp: identity_fields_def r_bind_Inr identity_new_Inr wf_memory_identity_def
      dest!: optional_identity_field_valid)

lemma embedding_space_new_wfD: "embedding_space_new p m r d n = Inr s \<Longrightarrow> wf_embedding_space s"
  by (metis embedding_space_new_Inr)

lemma embedding_space_fields_wf:
  "embedding_space_fields fs = Inr s \<Longrightarrow> pred_option wf_embedding_space s"
  by (auto simp: embedding_space_fields_def r_bind_Inr dest!: embedding_space_new_wfD
      split: option.splits if_splits)

lemma vector_field_ok: "vector_field q15_ok fs = Inr v \<Longrightarrow> pred_option q15_ok v"
  by (auto simp: vector_field_def r_bind_Inr split: option.splits val.splits if_splits)

lemma usize_of_i64_bound: "usize_of_i64 n = Some k \<Longrightarrow> k < 2 ^ 63"
  using sint_lt [of n] by (auto simp: usize_of_i64_def split: if_splits)

lemma span_of_value_fits: "span_of_value v = Inr s \<Longrightarrow> span_fits s"
  by (auto simp: span_of_value_def r_bind_Inr ok_or_Inr span_fits_def split: val.splits
      dest!: usize_of_i64_bound)

lemma spans_field_fit: "spans_field fs = Inr spans \<Longrightarrow> list_all span_fits spans"
  by (auto simp: spans_field_def r_collect_Inr_iff list_all2_conv_all_nth list_all_length
      split: option.splits val.splits intro: span_of_value_fits)

lemma parse_trace_fits: "parse_trace v = Inr t \<Longrightarrow> list_all span_fits (redaction_spans t)"
  by (cases v) (auto simp: parse_trace_def r_bind_Inr dest!: spans_field_fit)

lemma governance_from_value_wf: "governance_from_value v = Inr g \<Longrightarrow> wf_governance g"
  by (cases v) (auto simp: governance_from_value_def r_bind_Inr wf_governance_def list_all_iff
      dest!: parse_trace_fits)

lemma governance_field_wf: "governance_field fs = Inr g \<Longrightarrow> pred_option wf_governance g"
  by (auto simp: governance_field_def r_map_Inr split: option.splits val.splits
      dest: governance_from_value_wf)

lemma memory_from_record_wf:
  assumes "memory_from_record b3 q15_ok rec = Inr m"
  shows "wf_memory q15_ok m \<and> mem_id m = doc_key rec"
proof -
  have key: "utf8_valid (doc_key rec)"
    using assms by (simp add: memory_from_record_def split: if_splits)
  from assms obtain fs where
    "identity_fields fs = Inr (identity m)" "embedding_space_fields fs = Inr (embedding_space m)"
    "vector_field q15_ok fs = Inr (mem_vector m)" "governance_field fs = Inr (governance m)"
    "mem_id m = doc_key rec"
    by (simp only: memory_from_record_def key r_bind_Inr not_True_eq_False if_False
        sum.inject) (elim exE conjE, hypsubst, simp only: memory.select_convs)
  with key show ?thesis
    unfolding wf_memory_def
    by (metis identity_fields_wf embedding_space_fields_wf vector_field_ok governance_field_wf)
qed

section \<open>Properties\<close>

text \<open>
  C32. A stored memory is read back exactly: decoding the encoded document gives the memory with its
  six kinds of score rounded to the nano grid of the store (and a revision above \<open>i64::MAX\<close>
  saturated), and nothing else changed; writing the memory that was read gives the same document,
  so a read-modify-write cycle never drifts.
\<close>

theorem memory_store_roundtrip:
  assumes "wf_memory q15_ok m"
  shows "memory_from_record b3 q15_ok (memory_to_record m) = Inr (as_stored m)
    \<and> memory_to_record (as_stored m) = memory_to_record m
    \<and> as_stored (as_stored m) = as_stored m"
  using assms by (simp only: memory_decode_encode encode_as_stored as_stored_idem simp_thms)

definition example_memory :: memory where
  "example_memory =
     \<lparr>mem_id = ''m1'', schema_version = 6, mem_revision = 1, identity = memory_identity_local,
      provenance = provenance_legacy (\<lambda>x. x) ''hi'', embedding_space = None, mem_vector = None,
      governance = None, content = ''hi'', importance = Fin 0,
      mem_pad = \<lparr>pleasure = Fin 0, arousal = Fin 0, dominance = Fin 0\<rparr>, strength = Fin 1,
      retrieval_count = 0, memory_type = Semantic, mem_state = Active, mem_scope = Global,
      tags = [''a''], entities = [], consolidation_count = 0, created_at_ms = 7,
      updated_at_ms = 7, event_at_ms = None, ingested_at_ms = 7, last_retrieved_at_ms = 7\<rparr>"

lemma example_memory_wf: "wf_memory (\<lambda>_. True) example_memory"
  by (simp add: example_memory_def wf_memory_def wf_memory_identity_def memory_identity_local_def
      ascii_utf8_valid ascii_def code_def)

theorem memory_store_roundtrip_witness:
  "memory_from_record (\<lambda>x. x) (\<lambda>_. True) (memory_to_record example_memory)
   = Inr (as_stored example_memory)"
  using memory_store_roundtrip [OF example_memory_wf, of "\<lambda>x. x"] by (rule conjunct1)

text \<open>
  The decoder never builds an invalid memory: whatever document it accepts, written by this
  version, an older one or by hand, the memory has the document's key as id, identifiers that pass
  the constructor's checks, an embedding space within its bounds, an accepted vector and redaction
  spans that fit the store's integers; and such a memory is written and read back as above.
\<close>

theorem memory_decoder_validates:
  assumes "memory_from_record b3 q15_ok rec = Inr m"
  shows "mem_id m = doc_key rec \<and> wf_memory_identity (identity m)
    \<and> pred_option wf_embedding_space (embedding_space m) \<and> pred_option q15_ok (mem_vector m)
    \<and> pred_option wf_governance (governance m)
    \<and> memory_from_record b3 q15_ok (memory_to_record m) = Inr (as_stored m)"
  using memory_from_record_wf [OF assms] memory_decode_encode [of q15_ok m b3]
  unfolding wf_memory_def by metis

theorem memory_decoder_validates_witness:
  "\<exists>m. memory_from_record (\<lambda>x. x) (\<lambda>_. True) (memory_to_record example_memory) = Inr m
     \<and> mem_id m = ''m1''"
  using memory_decoder_validates [OF memory_decode_encode [OF example_memory_wf, of "\<lambda>x. x"]]
    memory_decode_encode [OF example_memory_wf, of "\<lambda>x. x"]
  by (simp add: memory_to_record_def memory_key_def example_memory_def)

end
