(* ===== verification/Memory_Engine.thy ===== *)
theory Memory_Engine
  imports Memory_Codec Engine_Result Memory_Roundtrip
begin

text \<open>
  The memory operations of \<open>engine.rs\<close> that need the document store only: the tenant and embedding
  space an engine is bound to, reading, disclosing and updating memories. An engine is its store
  state \<open>s\<close> and the \<open>tenant\<close> it was opened for; \<open>b3\<close> and \<open>q15_ok\<close> are the parameters of the memory
  decoder.
\<close>

section \<open>Tenant and embedding space\<close>

definition require_tenant :: "string \<Rightarrow> string \<Rightarrow> ('e, unit) outcome" where
  "require_tenant tenant requested =
     (if requested = tenant then m_return () else m_fail (TenantMismatch requested tenant))"

definition embedding_space_label :: "embedding_space \<Rightarrow> string" where
  "embedding_space_label sp =
     provider sp @ ''/'' @ model sp @ ''/'' @ revision sp @ '':''
     @ dec_nat (unat (dimension sp)) @ '':'' @ normalization_as_str (normalization sp)"

definition ensure_embedding_space ::
  "embedding_space \<Rightarrow> embedding_space \<Rightarrow> ('e, unit) outcome" where
  "ensure_embedding_space expected received =
     (if expected = received then m_return ()
      else m_fail (EmbeddingSpaceMismatch (embedding_space_label expected)
                     (embedding_space_label received)))"

definition bind_embedding_space ::
  "('s, 'c, 'e) hyphae \<Rightarrow> 's \<Rightarrow> embedding_space \<Rightarrow> ('e, 's) outcome" where
  "bind_embedding_space H s sp =
     m_bind (from_store (hy_get H s embedding_space_key)) (\<lambda>found. case found of
       Some rec \<Rightarrow>
         m_bind (from_decode (embedding_space_from_record rec)) (\<lambda>stored.
         m_bind (ensure_embedding_space stored sp) (\<lambda>_. m_return s))
     | None \<Rightarrow> from_store (hy_put H s (embedding_space_to_record sp)))"

definition tenant_binding_key :: bytes where
  "tenant_binding_key = ''__celiums/tenant_binding''"

definition doc_tenant :: "doc \<Rightarrow> string option" where
  "doc_tenant d = (case doc_value d of
     VObject fs \<Rightarrow> (case fs ''tenant_id'' of Some (VString t) \<Rightarrow> Some t | _ \<Rightarrow> None)
   | _ \<Rightarrow> None)"

partial_function (option) tenants_loop ::
  "('s, 'c, 'e) hyphae \<Rightarrow> 's \<Rightarrow> 'c option \<Rightarrow> string list \<Rightarrow> ('e + string list) option" where
  "tenants_loop H s cursor tenants =
     (case hy_page H s cursor 1000 of
        Inl e \<Rightarrow> Some (Inl e)
      | Inr (ds, nx) \<Rightarrow>
          (let tenants' = tenants @ List.map_filter doc_tenant ds
           in case nx of
                None \<Rightarrow> Some (Inr tenants')
              | Some c \<Rightarrow> tenants_loop H s (Some c) tenants'))"

definition existing_memory_tenants :: "('s, 'c, 'e) hyphae \<Rightarrow> 's \<Rightarrow> ('e, string list) outcome" where
  "existing_memory_tenants H s =
     m_bind (from_scan (tenants_loop H s None [])) (\<lambda>ts. m_return (remdups_adj (sort ts)))"

definition tenant_binding :: "string \<Rightarrow> doc" where
  "tenant_binding tenant =
     \<lparr>doc_key = tenant_binding_key,
      doc_value = VObject [''kind'' \<mapsto> VString ''tenant_binding'', ''tenant_id'' \<mapsto> VString tenant]\<rparr>"

definition invalid_binding :: string where
  "invalid_binding = ''invalid durable tenant binding''"

definition ensure_tenant_binding ::
  "('s, 'c, 'e) hyphae \<Rightarrow> 's \<Rightarrow> string \<Rightarrow> ('e, 's) outcome" where
  "ensure_tenant_binding H s tenant =
     m_bind (from_store (hy_get H s tenant_binding_key)) (\<lambda>found. case found of
       Some rec \<Rightarrow>
         (case doc_value rec of
            VObject fs \<Rightarrow>
              (case fs ''tenant_id'' of
                 Some (VString stored) \<Rightarrow>
                   if stored \<noteq> tenant then m_fail (TenantMismatch tenant stored) else m_return s
               | _ \<Rightarrow> m_fail (TenantMismatch tenant invalid_binding))
          | _ \<Rightarrow> m_fail (TenantMismatch tenant invalid_binding))
     | None \<Rightarrow>
         m_bind (existing_memory_tenants H s) (\<lambda>ts.
           if list_ex (\<lambda>t. t \<noteq> tenant \<and> t \<noteq> ''local'') ts
           then m_fail (TenantMismatch tenant (case ts of [] \<Rightarrow> [] | t # _ \<Rightarrow> t))
           else from_store (hy_put H s (tenant_binding tenant))))"

section \<open>Reading\<close>

definition get_memory ::
  "('s, 'c, 'e) hyphae \<Rightarrow> (bytes \<Rightarrow> string) \<Rightarrow> (i16 list \<Rightarrow> bool) \<Rightarrow> string \<Rightarrow> 's \<Rightarrow> string
   \<Rightarrow> recall_scope \<Rightarrow> ('e, memory option) outcome" where
  "get_memory H b3 q15_ok tenant s i sc =
     m_bind (require_tenant tenant (rs_tenant_id sc)) (\<lambda>_.
     m_bind (from_store (hy_get H s i)) (\<lambda>found. case found of
       None \<Rightarrow> m_return None
     | Some rec \<Rightarrow>
         m_bind (from_decode (memory_from_record b3 q15_ok rec)) (\<lambda>m.
           m_return (if memory_visible_to m sc then Some m else None))))"

definition disclose_memory ::
  "memory \<Rightarrow> disclosure_authority \<Rightarrow> memory_purpose \<Rightarrow> disclosure_class \<times> bytes option" where
  "disclose_memory m auth purpose =
     (case governance m of
        None \<Rightarrow> (Disclose_Restrict, Some restricted_summary)
      | Some g \<Rightarrow>
          (let dec = disclosure_decision (gov_treatment g) auth purpose
           in (disclosure_class dec,
               case disclosure_class dec of
                 Disclose_Include \<Rightarrow> Some (content m)
               | Disclose_Redact \<Rightarrow> Some (redact (content m) (redaction_spans (gov_trace g)))
               | Disclose_Summarize \<Rightarrow> disclosure_summary dec
               | Disclose_Restrict \<Rightarrow> disclosure_summary dec
               | Disclose_Abstain \<Rightarrow> None)))"

record citation =
  cit_memory_id :: string
  cit_source_id :: "string option"
  cit_source_uri :: "string option"
  cit_event_id :: "string option"
  cit_content_hash :: string
  cit_claim_ids :: "string list"
  cit_graph_path :: "string list"

record hydrated_memory =
  hm_id :: string
  hm_revision :: u64
  hm_content :: bytes
  hm_disclosure :: disclosure_class
  hm_tags :: "string list"
  hm_importance :: f64
  hm_memory_type :: memory_type
  hm_created_at_ms :: i64
  hm_citation :: citation

text \<open>The citation of a memory that no search branch found (\<open>UnifiedCandidate::default\<close>).\<close>

definition plain_citation :: "memory \<Rightarrow> citation" where
  "plain_citation m =
     \<lparr>cit_memory_id = mem_id m, cit_source_id = None, cit_source_uri = None,
      cit_event_id = event_id (provenance m), cit_content_hash = content_hash (provenance m),
      cit_claim_ids = [], cit_graph_path = []\<rparr>"

definition hydrated_view :: "memory \<Rightarrow> disclosure_class \<Rightarrow> bytes \<Rightarrow> hydrated_memory" where
  "hydrated_view m cls text' =
     \<lparr>hm_id = mem_id m, hm_revision = mem_revision m, hm_content = text', hm_disclosure = cls,
      hm_tags = [], hm_importance = importance m, hm_memory_type = memory_type m,
      hm_created_at_ms = created_at_ms m, hm_citation = plain_citation m\<rparr>"

fun hydrate_ids ::
  "('s, 'c, 'e) hyphae \<Rightarrow> (bytes \<Rightarrow> string) \<Rightarrow> (i16 list \<Rightarrow> bool) \<Rightarrow> string \<Rightarrow> 's
   \<Rightarrow> recall_scope \<Rightarrow> disclosure_authority \<Rightarrow> memory_purpose \<Rightarrow> string list
   \<Rightarrow> ('e, hydrated_memory list) outcome" where
  "hydrate_ids H b3 q15_ok tenant s sc auth purpose [] = m_return []"
| "hydrate_ids H b3 q15_ok tenant s sc auth purpose (i # is) =
     m_bind (get_memory H b3 q15_ok tenant s i sc) (\<lambda>found. case found of
       None \<Rightarrow> hydrate_ids H b3 q15_ok tenant s sc auth purpose is
     | Some m \<Rightarrow>
         (case disclose_memory m auth purpose of
            (cls, None) \<Rightarrow> hydrate_ids H b3 q15_ok tenant s sc auth purpose is
          | (cls, Some text') \<Rightarrow>
              m_bind (hydrate_ids H b3 q15_ok tenant s sc auth purpose is) (\<lambda>hs.
                m_return (hydrated_view m cls text' # hs))))"

definition hydrate ::
  "('s, 'c, 'e) hyphae \<Rightarrow> (bytes \<Rightarrow> string) \<Rightarrow> (i16 list \<Rightarrow> bool) \<Rightarrow> string \<Rightarrow> 's
   \<Rightarrow> recall_scope \<Rightarrow> disclosure_authority \<Rightarrow> memory_purpose \<Rightarrow> string list
   \<Rightarrow> ('e, hydrated_memory list) outcome" where
  "hydrate H b3 q15_ok tenant s sc auth purpose ids =
     m_bind (require_tenant tenant (rs_tenant_id sc)) (\<lambda>_.
       hydrate_ids H b3 q15_ok tenant s sc auth purpose (take 200 ids))"

definition get_disclosed_memory ::
  "('s, 'c, 'e) hyphae \<Rightarrow> (bytes \<Rightarrow> string) \<Rightarrow> (i16 list \<Rightarrow> bool) \<Rightarrow> string \<Rightarrow> 's
   \<Rightarrow> recall_scope \<Rightarrow> disclosure_authority \<Rightarrow> memory_purpose \<Rightarrow> string
   \<Rightarrow> ('e, hydrated_memory option) outcome" where
  "get_disclosed_memory H b3 q15_ok tenant s sc auth purpose i =
     m_bind (hydrate H b3 q15_ok tenant s sc auth purpose [i]) (\<lambda>hs.
       m_return (case hs of [] \<Rightarrow> None | h # _ \<Rightarrow> Some h))"

section \<open>Updating\<close>

record memory_patch =
  pt_importance :: "f64 option"
  pt_state :: "memory_state option"
  pt_scope :: "scope option"
  pt_tags :: "string list option"
  pt_event_at_ms :: "i64 option option"

record update_memory_request =
  um_id :: string
  um_scope :: recall_scope
  um_patch :: memory_patch
  um_if_revision :: u64
  um_now_ms :: i64

definition empty_patch :: "memory_patch \<Rightarrow> bool" where
  "empty_patch p \<longleftrightarrow> pt_importance p = None \<and> pt_state p = None \<and> pt_scope p = None
     \<and> pt_tags p = None \<and> pt_event_at_ms p = None"

definition apply_patch :: "memory_patch \<Rightarrow> memory \<Rightarrow> memory" where
  "apply_patch p m = m
     \<lparr>importance := (case pt_importance p of None \<Rightarrow> importance m | Some x \<Rightarrow> f64_clamp x 0 1),
      mem_state := (case pt_state p of None \<Rightarrow> mem_state m | Some x \<Rightarrow> x),
      mem_scope := (case pt_scope p of None \<Rightarrow> mem_scope m | Some x \<Rightarrow> x),
      tags := (case pt_tags p of None \<Rightarrow> tags m | Some x \<Rightarrow> x),
      event_at_ms := (case pt_event_at_ms p of None \<Rightarrow> event_at_ms m | Some x \<Rightarrow> x)\<rparr>"

definition update_memory ::
  "('s, 'c, 'e) hyphae \<Rightarrow> (bytes \<Rightarrow> string) \<Rightarrow> (i16 list \<Rightarrow> bool) \<Rightarrow> string \<Rightarrow> 's
   \<Rightarrow> update_memory_request \<Rightarrow> ('e, memory option \<times> 's) outcome" where
  "update_memory H b3 q15_ok tenant s req =
     m_bind (get_memory H b3 q15_ok tenant s (um_id req) (um_scope req)) (\<lambda>found. case found of
       None \<Rightarrow> m_return (None, s)
     | Some m \<Rightarrow>
         if mem_revision m \<noteq> um_if_revision req
         then m_fail (RevisionConflict (um_if_revision req) (mem_revision m))
         else if empty_patch (um_patch req) then m_fail EmptyPatch
         else m_bind
           (case pt_scope (um_patch req) of
              None \<Rightarrow> m_return ()
            | Some sc \<Rightarrow> from_decode (validate_scope_identity sc (identity m))) (\<lambda>_.
         let m' = (apply_patch (um_patch req) m)
               \<lparr>mem_revision := u64_saturating_add (mem_revision m) 1,
                updated_at_ms := um_now_ms req\<rparr>
         in m_bind (from_store (hy_put H s (memory_to_record m'))) (\<lambda>s'.
            m_return (Some m', s'))))"

end
