(* ===== verification/Entity_Index.thy ===== *)
theory Entity_Index
  imports Store_Ops Affect Memory_Engine
begin

text \<open>
  The entity index (\<open>entity_index.rs\<close>), the reverse edge of the memory graph: one document per entity
  with the ids of the memories bound to it, and the operations of \<open>engine.rs\<close> that maintain it.
  \<open>low\<close> is Unicode lower-casing.
\<close>

record entity_record =
  en_name :: string
  en_kind :: entity_kind
  en_salience :: f64
  en_memory_ids :: "string list"

definition entity_key :: "(bytes \<Rightarrow> bytes) \<Rightarrow> entity_kind \<Rightarrow> string \<Rightarrow> bytes" where
  "entity_key low kind name = ''entity/'' @ entity_kind_as_str kind @ ''/'' @ low name"

definition entity_prefix :: bytes where
  "entity_prefix = ''entity/''"

definition entity_to_record :: "(bytes \<Rightarrow> bytes) \<Rightarrow> entity_record \<Rightarrow> doc" where
  "entity_to_record low e =
     \<lparr>doc_key = entity_key low (en_kind e) (en_name e),
      doc_value = VObject
        [''kind'' \<mapsto> VString ''entity'', ''name'' \<mapsto> VString (en_name e),
         ''entity_kind'' \<mapsto> VString (entity_kind_as_str (en_kind e)),
         ''salience'' \<mapsto> nanos_value (en_salience e),
         ''memory_ids'' \<mapsto> string_array_value (en_memory_ids e)]\<rparr>"

definition entity_from_record :: "doc \<Rightarrow> entity_record decoded" where
  "entity_from_record rec =
     r_bind (root_fields (doc_value rec)) (\<lambda>fs.
     r_bind (string_field fs ''name'') (\<lambda>n.
     r_bind (string_field fs ''entity_kind'') (\<lambda>k.
     r_bind (ok_or (FieldErr ''entity_kind'') (entity_kind_parse k)) (\<lambda>k.
     r_bind (string_array_field fs ''memory_ids'') (\<lambda>ids.
     r_bind (nanos_field fs ''salience'') (\<lambda>s.
       Inr \<lparr>en_name = n, en_kind = k, en_salience = s, en_memory_ids = ids\<rparr>))))))"

lemma entity_roundtrip:
  "entity_from_record (entity_to_record low e) = Inr (e\<lparr>en_salience := snap (en_salience e)\<rparr>)"
  by (simp add: entity_from_record_def entity_to_record_def root_fields_def codec
      entity_kind.decode_to_name string_array_value_def read_string_array)

definition load_memory ::
  "('s, 'c, 'e) hyphae \<Rightarrow> (bytes \<Rightarrow> string) \<Rightarrow> (i16 list \<Rightarrow> bool) \<Rightarrow> 's \<Rightarrow> bytes
   \<Rightarrow> ('e, memory) outcome" where
  "load_memory H b3 q15_ok s key =
     m_bind (from_store (hy_get H s key)) (\<lambda>found. case found of
       None \<Rightarrow> m_fail (MissingCandidate key)
     | Some rec \<Rightarrow> from_decode (memory_from_record b3 q15_ok rec))"

text \<open>One binding of \<open>index_entities\<close>.\<close>

definition bind_entity :: "string \<Rightarrow> extracted_entity \<Rightarrow> entity_record \<Rightarrow> entity_record" where
  "bind_entity i x e =
     e\<lparr>en_memory_ids := (if i \<in> set (en_memory_ids e) then en_memory_ids e else en_memory_ids e @ [i]),
       en_salience := f64_max (en_salience e) (ent_salience x)\<rparr>"

fun index_entities ::
  "('s, 'c, 'e) hyphae \<Rightarrow> (bytes \<Rightarrow> bytes) \<Rightarrow> string \<Rightarrow> extracted_entity list \<Rightarrow> 's \<Rightarrow> ('e, 's) outcome" where
  "index_entities H low i [] s = m_return s"
| "index_entities H low i (x # xs) s =
     m_bind (from_store (hy_get H s (entity_key low (ent_kind x) (ent_name x)))) (\<lambda>found.
     m_bind (case found of
         Some rec \<Rightarrow> from_decode (entity_from_record rec)
       | None \<Rightarrow> m_return \<lparr>en_name = low (ent_name x), en_kind = ent_kind x,
                           en_salience = ent_salience x, en_memory_ids = []\<rparr>) (\<lambda>e.
     m_bind (from_store (hy_put H s (entity_to_record low (bind_entity i x e)))) (\<lambda>s'.
       index_entities H low i xs s')))"

definition ascii_lower :: "char \<Rightarrow> char" where
  "ascii_lower c = (if 65 \<le> code c \<and> code c \<le> 90 then char_of (code c + 32) else c)"

definition max_salience :: "entity_record \<Rightarrow> memory \<Rightarrow> f64 \<Rightarrow> f64" where
  "max_salience e m acc =
     fold (\<lambda>x acc. f64_max acc (ent_salience x))
       (filter (\<lambda>x. ent_kind x = en_kind e \<and> map ascii_lower (ent_name x) = map ascii_lower (en_name e))
         (entities m)) acc"

fun entity_salience ::
  "('s, 'c, 'e) hyphae \<Rightarrow> (bytes \<Rightarrow> string) \<Rightarrow> (i16 list \<Rightarrow> bool) \<Rightarrow> 's \<Rightarrow> entity_record
   \<Rightarrow> string list \<Rightarrow> f64 \<Rightarrow> ('e, f64) outcome" where
  "entity_salience H b3 q15_ok s e [] acc = m_return acc"
| "entity_salience H b3 q15_ok s e (i # ids) acc =
     m_bind (load_memory H b3 q15_ok s i) (\<lambda>m.
       entity_salience H b3 q15_ok s e ids (max_salience e m acc))"

fun unindex_entities ::
  "('s, 'c, 'e) hyphae \<Rightarrow> ('s, 'e) store_ops \<Rightarrow> (bytes \<Rightarrow> string) \<Rightarrow> (i16 list \<Rightarrow> bool)
   \<Rightarrow> (bytes \<Rightarrow> bytes) \<Rightarrow> string \<Rightarrow> extracted_entity list \<Rightarrow> 's \<Rightarrow> ('e, 's) outcome" where
  "unindex_entities H O' b3 q15_ok low i [] s = m_return s"
| "unindex_entities H O' b3 q15_ok low i (x # xs) s =
     m_bind (from_store (hy_get H s (entity_key low (ent_kind x) (ent_name x)))) (\<lambda>found. case found of
       None \<Rightarrow> unindex_entities H O' b3 q15_ok low i xs s
     | Some rec \<Rightarrow>
         m_bind (from_decode (entity_from_record rec)) (\<lambda>e.
         let e = e\<lparr>en_memory_ids := filter (\<lambda>j. j \<noteq> i) (en_memory_ids e)\<rparr>
         in if en_memory_ids e = []
            then m_bind (from_store (op_delete O' s (entity_key low (ent_kind x) (ent_name x))))
                   (unindex_entities H O' b3 q15_ok low i xs)
            else m_bind (entity_salience H b3 q15_ok s e (en_memory_ids e) (Fin 0)) (\<lambda>sal.
                 m_bind (from_store (hy_put H s (entity_to_record low (e\<lparr>en_salience := sal\<rparr>))))
                   (unindex_entities H O' b3 q15_ok low i xs))))"

end
