(* ===== verification/Circadian.thy ===== *)
theory Circadian
  imports Float_Arith Limbic
begin

text \<open>
  The circadian clock of \<open>circadian.rs\<close>: physiological factors that events raise and time decays,
  the arousal curve, and the inference of the user's time zone from an activity histogram.
\<close>

section \<open>Factors\<close>

record circadian_config =
  cc_base_arousal :: f64
  cc_amplitude :: f64
  cc_peak_hour :: f64
  cc_lethargy_rate :: f64
  cc_seasonal_amplitude :: f64
  cc_day_of_year :: f64
  cc_hemisphere :: f64

definition default_circadian_config :: circadian_config where
  "default_circadian_config =
     \<lparr>cc_base_arousal = Fin 0, cc_amplitude = Fin 0.3, cc_peak_hour = Fin 11,
      cc_lethargy_rate = Fin 0.15, cc_seasonal_amplitude = Fin 0.05, cc_day_of_year = Fin 1,
      cc_hemisphere = Fin 1\<rparr>"

record factor_weights =
  fw_session_activity :: f64
  fw_stress :: f64
  fw_social_interaction :: f64
  fw_caffeine :: f64
  fw_sleep_debt :: f64
  fw_cognitive_load :: f64
  fw_emotional_events :: f64
  fw_seasonal :: f64
  fw_temperature :: f64
  fw_isolation :: f64
  fw_exercise :: f64
  fw_motivation :: f64

definition default_factor_weights :: factor_weights where
  "default_factor_weights =
     \<lparr>fw_session_activity = Fin 0.15, fw_stress = Fin 0.12, fw_social_interaction = Fin 0.08,
      fw_caffeine = Fin 0.10, fw_sleep_debt = Fin 0.15, fw_cognitive_load = Fin 0.10,
      fw_emotional_events = Fin 0.08, fw_seasonal = Fin 0.03, fw_temperature = Fin 0.04,
      fw_isolation = Fin 0.05, fw_exercise = Fin 0.05, fw_motivation = Fin 0.05\<rparr>"

record circadian_factors =
  session_activity :: f64
  stress_level :: f64
  social_signal :: f64
  caffeine_level :: f64
  sleep_debt :: f64
  cognitive_load :: f64
  emotional_accumulator :: f64
  exercise_level :: f64
  motivation_trend :: f64

definition default_factors :: circadian_factors where
  "default_factors =
     \<lparr>session_activity = Fin 0, stress_level = Fin 0, social_signal = Fin 0, caffeine_level = Fin 0,
      sleep_debt = Fin 0, cognitive_load = Fin 0, emotional_accumulator = Fin 0,
      exercise_level = Fin 0, motivation_trend = Fin 0\<rparr>"

datatype circadian_event =
    SessionActive
  | SessionIdle
  | ErrorOccurred f64
  | TaskCompleted f64
  | Caffeine f64
  | EmotionalSpike f64
  | HeavyProcessing f64
  | Consolidation

definition raise :: "f64 \<Rightarrow> f64 \<Rightarrow> f64" where
  "raise x by' = f64_min (Fin 1) (x + by')"

definition lower_by :: "f64 \<Rightarrow> real \<Rightarrow> f64" where
  "lower_by x by' = f64_max (Fin 0) (x - Fin by')"

fun record_event :: "circadian_event \<Rightarrow> circadian_factors \<Rightarrow> circadian_factors" where
  "record_event SessionActive f =
     f\<lparr>session_activity := raise (session_activity f) (Fin 0.2), sleep_debt := lower_by (sleep_debt f) 0.1\<rparr>"
| "record_event SessionIdle f = f\<lparr>session_activity := lower_by (session_activity f) 0.1\<rparr>"
| "record_event (ErrorOccurred x) f =
     f\<lparr>stress_level := raise (stress_level f) (x * Fin 0.3),
       cognitive_load := raise (cognitive_load f) (Fin 0.1)\<rparr>"
| "record_event (TaskCompleted x) f =
     f\<lparr>stress_level := lower_by (stress_level f) 0.1,
       motivation_trend := raise (motivation_trend f) (x * Fin 0.2)\<rparr>"
| "record_event (Caffeine x) f = f\<lparr>caffeine_level := raise (caffeine_level f) (x * Fin 0.4)\<rparr>"
| "record_event (EmotionalSpike x) f =
     f\<lparr>emotional_accumulator := raise (emotional_accumulator f) (x * Fin 0.3)\<rparr>"
| "record_event (HeavyProcessing x) f =
     f\<lparr>exercise_level := raise (exercise_level f) (x * Fin 0.3),
       cognitive_load := raise (cognitive_load f) (x * Fin 0.2)\<rparr>"
| "record_event Consolidation f =
     f\<lparr>sleep_debt := lower_by (sleep_debt f) 0.4, cognitive_load := lower_by (cognitive_load f) 0.3\<rparr>"

definition half_life_decay :: "f64 \<Rightarrow> f64 \<Rightarrow> real \<Rightarrow> f64" where
  "half_life_decay elapsed_minutes current half_life =
     current * f64_powf 0.5 (f64_max elapsed_minutes (Fin 0) / Fin half_life)"

definition decayed :: "circadian_factors \<Rightarrow> f64 \<Rightarrow> f64 \<Rightarrow> circadian_factors" where
  "decayed f elapsed_minutes hours_since_interaction =
     (let decay = half_life_decay elapsed_minutes
      in \<lparr>session_activity = decay (session_activity f) 30, stress_level = decay (stress_level f) 60,
          social_signal = decay (social_signal f) 45, caffeine_level = decay (caffeine_level f) 300,
          sleep_debt = f64_min (Fin 1) (f64_max hours_since_interaction (Fin 0) / Fin 24),
          cognitive_load = decay (cognitive_load f) 90,
          emotional_accumulator = decay (emotional_accumulator f) 120,
          exercise_level = decay (exercise_level f) 60,
          motivation_trend = decay (motivation_trend f) 180\<rparr>)"

section \<open>Arousal\<close>

definition stress_effect :: "f64 \<Rightarrow> f64" where
  "stress_effect s = (if s < Fin 0.5 then s * Fin 0.5 else Fin 0.25 - (s - Fin 0.5))"

definition circadian_arousal ::
  "circadian_config \<Rightarrow> factor_weights \<Rightarrow> circadian_factors \<Rightarrow> f64 \<Rightarrow> f64 \<Rightarrow> f64" where
  "circadian_arousal cfg w f local_hour inactive_hours =
     (let rhythm = f64_cos (Fin (2 * pi) * (local_hour - cc_peak_hour cfg) / Fin 24);
          lethargy = f64_exp (- cc_lethargy_rate cfg * f64_max inactive_hours (Fin 0));
          a = cc_base_arousal cfg + cc_amplitude cfg * rhythm * lethargy;
          a = a + fw_session_activity w * session_activity f;
          a = a + fw_stress w * stress_effect (stress_level f);
          a = a + fw_caffeine w * caffeine_level f;
          a = a - fw_sleep_debt w * sleep_debt f;
          a = a - fw_cognitive_load w * cognitive_load f * Fin 0.5;
          a = a + fw_emotional_events w * emotional_accumulator f;
          a = a + fw_exercise w * exercise_level f;
          a = a + fw_motivation w * (motivation_trend f - Fin 0.5) * Fin 0.4;
          a = a + fw_social_interaction w * social_signal f;
          seasonal = cc_seasonal_amplitude cfg
            * f64_sin (Fin (2 * pi) * (cc_day_of_year cfg - Fin 80) / Fin 365) * cc_hemisphere cfg;
          a = a + fw_seasonal w * seasonal;
          a = (if Fin 6 < inactive_hours
               then a - fw_isolation w * f64_min (Fin 0.3) ((inactive_hours - Fin 6) * Fin 0.03)
               else a)
      in pad_clamp a (-1) 1)"

definition modify_homeostatic ::
  "pad \<Rightarrow> circadian_config \<Rightarrow> factor_weights \<Rightarrow> circadian_factors \<Rightarrow> f64 \<Rightarrow> f64 \<Rightarrow> pad" where
  "modify_homeostatic baseline cfg w f local_hour inactive_hours =
     (let a = circadian_arousal cfg w f local_hour inactive_hours;
          penalty = stress_level f * Fin 0.1;
          boost = (motivation_trend f - Fin 0.5) * Fin 0.1
      in \<lparr>pleasure = pad_clamp (pleasure baseline - penalty) (-1) 1,
          arousal = pad_clamp (arousal baseline + a) (-1) 1,
          dominance = pad_clamp (dominance baseline + boost) (-1) 1\<rparr>)"

definition classify_time_of_day :: "f64 \<Rightarrow> string" where
  "classify_time_of_day h =
     (if h < Fin 5 then ''deep-night'' else if h < Fin 9 then ''morning-rise''
      else if h < Fin 12 then ''morning-peak'' else if h < Fin 15 then ''afternoon-peak''
      else if h < Fin 18 then ''afternoon-decline'' else if h < Fin 21 then ''evening-wind-down''
      else ''night-rest'')"

section \<open>Activity rhythm\<close>

record activity_rhythm =
  ar_offset_minutes :: "int option"
  ar_confidence :: f64
  ar_trough_centre_utc :: "f64 option"
  ar_samples :: u32

text \<open>The histogram has 24 buckets. Sums of \<open>u32\<close> wrap in a release build; they would panic in a
  debug build.\<close>

definition window_sum :: "u32 list \<Rightarrow> nat \<Rightarrow> u32" where
  "window_sum hist start = sum_list (map (\<lambda>k. hist ! ((start + k) mod 24)) [0..<8])"

fun best_window :: "u32 list \<Rightarrow> nat list \<Rightarrow> nat \<times> u32 \<Rightarrow> nat \<times> u32" where
  "best_window hist [] best = best"
| "best_window hist (start # starts) best =
     (let s = window_sum hist start
      in best_window hist starts (if s < snd best then (start, s) else best))"

text \<open>The two loops that bring the offset into (-12, 12].\<close>

function wrap_up :: "real \<Rightarrow> real" where
  "wrap_up x = (if x \<le> -12 then wrap_up (x + 24) else x)"
  by auto
termination
proof (relation "measure (\<lambda>x. nat \<lceil>- x\<rceil>)", goal_cases)
  case (2 x)
  then have "\<lceil>- (x + 24)\<rceil> < \<lceil>- x\<rceil>" by linarith
  moreover have "0 < \<lceil>- x\<rceil>" using 2 by linarith
  ultimately show ?case by simp
qed simp

function wrap_down :: "real \<Rightarrow> real" where
  "wrap_down x = (if 12 < x then wrap_down (x - 24) else x)"
  by auto
termination
proof (relation "measure (\<lambda>x. nat \<lceil>x\<rceil>)", goal_cases)
  case (2 x)
  then have "\<lceil>x - 24\<rceil> < \<lceil>x\<rceil>" "0 < \<lceil>x\<rceil>" by linarith+
  then show ?case by simp
qed simp

declare wrap_up.simps [simp del] wrap_down.simps [simp del]

definition infer_activity_rhythm :: "u32 list \<Rightarrow> activity_rhythm" where
  "infer_activity_rhythm hist =
     (let total' = sum_list hist
      in if total' < 12
         then \<lparr>ar_offset_minutes = None, ar_confidence = Fin 0, ar_trough_centre_utc = None,
               ar_samples = total'\<rparr>
         else (case best_window hist [0..<24] (0, - 1) of (best_start, best_sum) \<Rightarrow>
           let centre = real ((best_start + 4) mod 24);
               offset_hours = wrap_down (wrap_up (3.5 - centre));
               trough_avg = real (unat best_sum) / 8;
               mean_per_hour = real (unat total') / 24;
               contrast = (if 0 < mean_per_hour then max 0 (1 - trough_avg / mean_per_hour) else 0);
               volume = min 1 (real (unat total') / 120);
               confidence = real_of_int (round_half_away (min 1 (volume * contrast) * 1000)) / 1000
           in \<lparr>ar_offset_minutes = Some (round_half_away (offset_hours * 60)),
               ar_confidence = Fin confidence, ar_trough_centre_utc = Some (Fin centre),
               ar_samples = total'\<rparr>))"

section \<open>Bounds\<close>

text \<open>Bounds of the circadian factors, what decay keeps of them, and the inferred time zone.\<close>

section \<open>Factors\<close>

lemma raise_ranged [float_bounds]:
  assumes "ranged 0 1 x" and "\<not> y < Fin 0"
  shows "ranged 0 1 (raise x y)"
proof -
  obtain r where "x = Fin r" "0 \<le> r" "r \<le> 1" using assms(1) by (rule ranged_obtain)
  then show ?thesis using assms(2) by (cases y) (simp_all add: raise_def ranged_def not_less)
qed

lemma lower_by_ranged [float_bounds]: "ranged 0 1 x \<Longrightarrow> 0 \<le> y \<Longrightarrow> ranged 0 1 (lower_by x y)"
  by (auto simp: lower_by_def ranged_def)

lemma times_not_negative: "\<not> x < Fin 0 \<Longrightarrow> 0 < r \<Longrightarrow> \<not> x * Fin r < Fin 0"
  by (cases x) (simp_all add: not_less signed_inf_def)

lemma half_life_factor: "0 < half_life \<Longrightarrow>
  ranged 0 1 (f64_powf 0.5 (f64_max elapsed (Fin 0) / Fin half_life))"
  by (cases elapsed) (simp_all add: ranged_def powr_le1 max_def not_less del: f64_max.simps,
      simp_all)

lemma half_life_ranged [float_bounds]:
  assumes "ranged 0 1 x" and "0 < half_life"
  shows "ranged 0 1 (half_life_decay elapsed x half_life)"
proof -
  obtain r where "x = Fin r" "0 \<le> r" "r \<le> 1" using assms(1) by (rule ranged_obtain)
  moreover obtain q where "f64_powf 0.5 (f64_max elapsed (Fin 0) / Fin half_life) = Fin q" "0 \<le> q" "q \<le> 1"
    using half_life_factor [OF assms(2)] by (rule ranged_obtain)
  ultimately show ?thesis by (simp add: half_life_decay_def mult_le_one)
qed

lemma idle_debt_ranged [float_bounds]: "ranged 0 1 (f64_min (Fin 1) (f64_max h (Fin 0) / Fin 24))"
proof (cases h)
  case (Fin x)
  then have "f64_min (Fin 1) (f64_max h (Fin 0) / Fin 24) = Fin (min 1 (max x 0 / 24))"
    by (simp del: f64_max.simps f64_min.simps)
  then show ?thesis by (simp only: ranged_Fin) simp
qed (simp_all add: ranged_def)

definition factors_ok :: "circadian_factors \<Rightarrow> bool" where
  "factors_ok f \<longleftrightarrow> list_all (ranged 0 1)
     [session_activity f, stress_level f, social_signal f, caffeine_level f, sleep_debt f,
      cognitive_load f, emotional_accumulator f, exercise_level f, motivation_trend f]"

fun not_negative :: "circadian_event \<Rightarrow> bool" where
  "not_negative (ErrorOccurred x) = (\<not> x < Fin 0)"
| "not_negative (TaskCompleted x) = (\<not> x < Fin 0)"
| "not_negative (Caffeine x) = (\<not> x < Fin 0)"
| "not_negative (EmotionalSpike x) = (\<not> x < Fin 0)"
| "not_negative (HeavyProcessing x) = (\<not> x < Fin 0)"
| "not_negative _ = True"

lemma record_event_ok: "factors_ok f \<Longrightarrow> not_negative e \<Longrightarrow> factors_ok (record_event e f)"
  by (cases e) (auto simp: factors_ok_def float_bounds times_not_negative)

lemma decayed_ok: "factors_ok f \<Longrightarrow> factors_ok (decayed f t h)"
  by (simp add: factors_ok_def decayed_def Let_def float_bounds)

text \<open>One step of the clock: an event is recorded or time passes.\<close>

datatype clock_step = Event circadian_event | Elapse f64 f64

fun clock_run :: "clock_step list \<Rightarrow> circadian_factors \<Rightarrow> circadian_factors" where
  "clock_run [] f = f"
| "clock_run (Event e # xs) f = clock_run xs (record_event e f)"
| "clock_run (Elapse t h # xs) f = clock_run xs (decayed f t h)"

text \<open>
  Every factor stays between 0 and 1 through every sequence of events and pauses, provided no
  event has a negative intensity; intensities above 1, infinite or NaN and arbitrary elapsed times
  are harmless. The arousal read from any factors is between -1 and 1.
\<close>

theorem factors_stay_bounded:
  assumes "factors_ok f" and "list_all (\<lambda>x. case x of Event e \<Rightarrow> not_negative e | _ \<Rightarrow> True) xs"
  shows "factors_ok (clock_run xs f)
    \<and> ranged (-1) 1 (circadian_arousal cfg w (clock_run xs f) hour inactive)"
proof
  show "factors_ok (clock_run xs f)"
    using assms by (induction xs f rule: clock_run.induct) (simp_all add: record_event_ok decayed_ok)
  show "ranged (-1) 1 (circadian_arousal cfg w (clock_run xs f) hour inactive)"
    by (simp add: circadian_arousal_def Let_def float_bounds)
qed

theorem factors_stay_bounded_witness:
  "factors_ok (clock_run [Event (Caffeine PosInf), Elapse (Fin 300) NaN, Event (ErrorOccurred NaN)]
     default_factors)"
  using factors_stay_bounded [of default_factors
      "[Event (Caffeine PosInf), Elapse (Fin 300) NaN, Event (ErrorOccurred NaN)]"]
  by (simp add: factors_ok_def default_factors_def)

section \<open>What reading forgets\<close>

text \<open>
  The sleep debt that events change is never observed: every reader looks at the decayed factors,
  and decay replaces the debt by the hours of inactivity, so the relief of a consolidation (documented
  as a nap) or of an active session has no effect on any later reading. And the motivation trend,
  documented as neutral at one half, starts at zero and decays towards zero, so a fresh clock lowers
  the dominance of its owner by 0.05.
\<close>

theorem nap_has_no_effect:
  "decayed (f\<lparr>sleep_debt := x\<rparr>) t h = decayed f t h
   \<and> decayed (record_event Consolidation f) t h
     = decayed (f\<lparr>cognitive_load := lower_by (cognitive_load f) 0.3\<rparr>) t h
   \<and> dominance (modify_homeostatic \<lparr>pleasure = Fin 0, arousal = Fin 0, dominance = Fin 0.1\<rparr>
       default_circadian_config default_factor_weights default_factors hour inactive) = Fin 0.05"
  by (simp add: decayed_def Let_def modify_homeostatic_def default_factors_def)

section \<open>Time zone\<close>

lemma wrap_up_id: "-12 < x \<Longrightarrow> wrap_up x = x"
  by (subst wrap_up.simps) simp

lemma wrap_down_id: "x \<le> 12 \<Longrightarrow> wrap_down x = x"
  by (subst wrap_down.simps) simp

lemma wrapped_offset:
  assumes "-36 < x" and "x \<le> 12"
  shows "wrap_down (wrap_up x) = (if x \<le> -12 then x + 24 else x)"
proof (cases "x \<le> -12")
  case True
  then have "wrap_up x = x + 24" using assms by (subst wrap_up.simps) (simp add: wrap_up_id)
  with True show ?thesis by (simp add: wrap_down_id)
next
  case False
  with assms show ?thesis by (simp add: wrap_up_id wrap_down_id)
qed

lemma best_window_least:
  "best_window hist starts best = (b, s) \<Longrightarrow>
    (s \<le> snd best \<and> (\<forall>k\<in>set starts. s \<le> window_sum hist k))
    \<and> ((b, s) = best \<or> b \<in> set starts \<and> s = window_sum hist b)"
proof (induction starts arbitrary: best)
  case Nil
  then show ?case by simp
next
  case (Cons k ks)
  let ?best = "if window_sum hist k < snd best then (k, window_sum hist k) else best"
  have "best_window hist ks ?best = (b, s)" using Cons.prems by (simp add: Let_def)
  from Cons.IH [OF this] show ?case by (cases "window_sum hist k < snd best") auto
qed

lemma best_window_found:
  assumes "best_window hist [0..<24] (0, - 1) = (b, s)"
  shows "b < 24 \<and> s = window_sum hist b \<and> (\<forall>k<24. s \<le> window_sum hist k)"
proof -
  have max': "v \<le> - 1" for v :: u32 by (simp add: word_order.extremum)
  note facts = best_window_least [OF assms]
  have "s \<le> window_sum hist k" if "k < 24" for k using facts that by auto
  moreover have "b < 24 \<and> s = window_sum hist b"
  proof (cases "(b, s) = (0, - 1)")
    case True
    with facts have "- 1 \<le> window_sum hist 0" by auto
    then have "window_sum hist 0 = - 1" using max' [of "window_sum hist 0"] by (rule antisym [rotated])
    with True show ?thesis by simp
  next
    case False
    with facts show ?thesis by auto
  qed
  ultimately show ?thesis by blast
qed

text \<open>
  With at least twelve samples the inferred offset is a time zone: the trough is a window of
  eight hours no other window undercuts, the offset lies in (-12, 12] hours, and adding it to the
  centre of the trough gives half past three in the morning, modulo a day. With fewer samples no
  offset is claimed.
\<close>

theorem rhythm_offset_correct:
  "let r = infer_activity_rhythm hist in
   (if sum_list hist < 12 then ar_offset_minutes r = None \<and> ar_confidence r = Fin 0
    else \<exists>b m. b < 24 \<and> window_sum hist b = Min (window_sum hist ` {0..<24})
      \<and> ar_trough_centre_utc r = Some (Fin (real ((b + 4) mod 24)))
      \<and> ar_offset_minutes r = Some m \<and> -720 < m \<and> m \<le> 720
      \<and> (int ((b + 4) mod 24) * 60 + m) mod 1440 = 210)"
proof (cases "sum_list hist < 12")
  case True
  then show ?thesis by (simp add: infer_activity_rhythm_def)
next
  case False
  obtain b s where bw: "best_window hist [0..<24] (0, - 1) = (b, s)" by fastforce
  define c where "c = (b + 4) mod 24"
  have c: "c < 24" by (simp add: c_def)
  define o' where "o' = (if 3.5 - real c \<le> -12 then 3.5 - real c + 24 else 3.5 - real c)"
  have o': "wrap_down (wrap_up (3.5 - real c)) = o'"
    using c by (subst wrapped_offset) (auto simp: o'_def)
  define m where "m = (if 16 \<le> c then 210 - 60 * int c + 1440 else 210 - 60 * int c)"
  have "o' * 60 = real_of_int m"
    by (auto simp: o'_def m_def algebra_simps)
  then have "round_half_away (wrap_down (wrap_up (3.5 - real c)) * 60) = m" unfolding o' by simp
  then have m: "round_half_away (wrap_down (wrap_up (7 / 2 - real c)) * 60) = m" by simp
  have "-720 < m" "m \<le> 720" using c by (auto simp: m_def)
  moreover have "(int c * 60 + m) mod 1440 = 210" by (auto simp: m_def)
  moreover have "window_sum hist b = Min (window_sum hist ` {0..<24})"
    using best_window_found [OF bw] by (intro Min_eqI [symmetric]) auto
  ultimately show ?thesis
    using False best_window_found [OF bw]
    by (auto simp: infer_activity_rhythm_def Let_def bw m simp flip: c_def intro!: exI [of _ b])
qed

end
