(* ===== verification/Engine_State.thy ===== *)
theory Engine_State
  imports Circadian Memory_Engine
begin

text \<open>
  The engine as a state (\<open>MemoryEngine\<close> of \<open>engine.rs\<close>): the store and the emotional and circadian
  state it keeps in memory and persists as two reserved documents (\<open>affect_state.rs\<close>,
  \<open>circadian_state.rs\<close>), with the operations on that state.
\<close>

section \<open>Affect state\<close>

record affect_state =
  af_pad :: pad
  af_updated_at_ms :: i64

definition affect_state_key :: bytes where
  "affect_state_key = ''__celiums/limbic_state''"

definition affect_to_record :: "affect_state \<Rightarrow> doc" where
  "affect_to_record a =
     \<lparr>doc_key = affect_state_key,
      doc_value = VObject
        [''kind'' \<mapsto> VString ''affect_state'', ''pleasure'' \<mapsto> nanos_value (pleasure (af_pad a)),
         ''arousal'' \<mapsto> nanos_value (arousal (af_pad a)),
         ''dominance'' \<mapsto> nanos_value (dominance (af_pad a)),
         ''updated_at_ms'' \<mapsto> VInteger (af_updated_at_ms a)]\<rparr>"

definition affect_from_record :: "doc \<Rightarrow> affect_state decoded" where
  "affect_from_record rec =
     r_bind (root_fields (doc_value rec)) (\<lambda>fs.
     r_bind (nanos_field fs ''pleasure'') (\<lambda>p.
     r_bind (nanos_field fs ''arousal'') (\<lambda>a.
     r_bind (nanos_field fs ''dominance'') (\<lambda>d.
     r_bind (integer_field fs ''updated_at_ms'') (\<lambda>t.
       Inr \<lparr>af_pad = \<lparr>pleasure = p, arousal = a, dominance = d\<rparr>, af_updated_at_ms = t\<rparr>)))))"

definition snap_pad :: "pad \<Rightarrow> pad" where
  "snap_pad p = \<lparr>pleasure = snap (pleasure p), arousal = snap (arousal p), dominance = snap (dominance p)\<rparr>"

lemma affect_roundtrip:
  "affect_from_record (affect_to_record a) = Inr (a\<lparr>af_pad := snap_pad (af_pad a)\<rparr>)"
  by (simp add: affect_from_record_def affect_to_record_def snap_pad_def root_fields_def nanos_field_def
      nanos_value_def integer_field_def snap_def)

section \<open>Circadian state\<close>

type_synonym i32 = "32 word"

record circadian_state =
  cs_factors :: circadian_factors
  cs_histogram :: "u32 list"
  cs_timezone_override :: "i32 option"
  cs_last_interaction_ms :: i64
  cs_updated_at_ms :: i64

definition circadian_state_key :: bytes where
  "circadian_state_key = ''__celiums/circadian_state''"

definition circadian_state_new :: "i32 option \<Rightarrow> circadian_state" where
  "circadian_state_new tz =
     \<lparr>cs_factors = default_factors, cs_histogram = replicate 24 0, cs_timezone_override = tz,
      cs_last_interaction_ms = 0, cs_updated_at_ms = 0\<rparr>"

definition i64_of_i32 :: "i32 \<Rightarrow> i64" where
  "i64_of_i32 w = word_of_int (sint w)"

definition i32_of_i64 :: "i64 \<Rightarrow> i32 option" where
  "i32_of_i64 w =
     (if - (2 ^ 31) \<le> sint w \<and> sint w < 2 ^ 31 then Some (word_of_int (sint w)) else None)"

definition circadian_to_record :: "circadian_state \<Rightarrow> doc" where
  "circadian_to_record c =
     (let f = cs_factors c in
      \<lparr>doc_key = circadian_state_key,
       doc_value = VObject
        [''kind'' \<mapsto> VString ''circadian_state'',
         ''session_activity'' \<mapsto> nanos_value (session_activity f),
         ''stress_level'' \<mapsto> nanos_value (stress_level f),
         ''social_signal'' \<mapsto> nanos_value (social_signal f),
         ''caffeine_level'' \<mapsto> nanos_value (caffeine_level f),
         ''sleep_debt'' \<mapsto> nanos_value (sleep_debt f),
         ''cognitive_load'' \<mapsto> nanos_value (cognitive_load f),
         ''emotional_accumulator'' \<mapsto> nanos_value (emotional_accumulator f),
         ''exercise_level'' \<mapsto> nanos_value (exercise_level f),
         ''motivation_trend'' \<mapsto> nanos_value (motivation_trend f),
         ''activity_histogram'' \<mapsto> VArray (map (\<lambda>n. VInteger (i64_of_u32 n)) (cs_histogram c)),
         ''timezone_override_minutes'' \<mapsto> (case cs_timezone_override c of
            None \<Rightarrow> VNull | Some m \<Rightarrow> VInteger (i64_of_i32 m)),
         ''last_interaction_ms'' \<mapsto> VInteger (cs_last_interaction_ms c),
         ''updated_at_ms'' \<mapsto> VInteger (cs_updated_at_ms c)]\<rparr>)"

definition bucket_of_value :: "val \<Rightarrow> u32 decoded" where
  "bucket_of_value v = (case v of
     VInteger n \<Rightarrow> ok_or (FieldErr ''activity_histogram'') (u32_of_i64 n)
   | _ \<Rightarrow> Inl (FieldErr ''activity_histogram''))"

definition histogram_field :: "fields \<Rightarrow> u32 list decoded" where
  "histogram_field fs = (case fs ''activity_histogram'' of
     Some (VArray vs) \<Rightarrow>
       if length vs = 24 then r_collect bucket_of_value vs else Inl (FieldErr ''activity_histogram'')
   | _ \<Rightarrow> Inl (FieldErr ''activity_histogram''))"

definition timezone_field :: "fields \<Rightarrow> i32 option decoded" where
  "timezone_field fs = (case fs ''timezone_override_minutes'' of
     Some (VInteger n) \<Rightarrow> r_map Some (ok_or (FieldErr ''timezone_override_minutes'') (i32_of_i64 n))
   | Some VNull \<Rightarrow> Inr None
   | _ \<Rightarrow> Inl (FieldErr ''timezone_override_minutes''))"

definition factors_field :: "fields \<Rightarrow> circadian_factors decoded" where
  "factors_field fs =
     r_bind (nanos_field fs ''session_activity'') (\<lambda>a.
     r_bind (nanos_field fs ''stress_level'') (\<lambda>b.
     r_bind (nanos_field fs ''social_signal'') (\<lambda>c.
     r_bind (nanos_field fs ''caffeine_level'') (\<lambda>d.
     r_bind (nanos_field fs ''sleep_debt'') (\<lambda>e.
     r_bind (nanos_field fs ''cognitive_load'') (\<lambda>f.
     r_bind (nanos_field fs ''emotional_accumulator'') (\<lambda>g.
     r_bind (nanos_field fs ''exercise_level'') (\<lambda>h.
     r_bind (nanos_field fs ''motivation_trend'') (\<lambda>i.
       Inr \<lparr>session_activity = a, stress_level = b, social_signal = c, caffeine_level = d,
            sleep_debt = e, cognitive_load = f, emotional_accumulator = g, exercise_level = h,
            motivation_trend = i\<rparr>)))))))))"

definition circadian_from_record :: "doc \<Rightarrow> circadian_state decoded" where
  "circadian_from_record rec =
     r_bind (root_fields (doc_value rec)) (\<lambda>fs.
     r_bind (histogram_field fs) (\<lambda>hist.
     r_bind (timezone_field fs) (\<lambda>tz.
     r_bind (factors_field fs) (\<lambda>f.
     r_bind (integer_field fs ''last_interaction_ms'') (\<lambda>l.
     r_bind (integer_field fs ''updated_at_ms'') (\<lambda>u.
       Inr \<lparr>cs_factors = f, cs_histogram = hist, cs_timezone_override = tz,
            cs_last_interaction_ms = l, cs_updated_at_ms = u\<rparr>))))))"

definition snap_factors :: "circadian_factors \<Rightarrow> circadian_factors" where
  "snap_factors f =
     \<lparr>session_activity = snap (session_activity f), stress_level = snap (stress_level f),
      social_signal = snap (social_signal f), caffeine_level = snap (caffeine_level f),
      sleep_debt = snap (sleep_debt f), cognitive_load = snap (cognitive_load f),
      emotional_accumulator = snap (emotional_accumulator f),
      exercise_level = snap (exercise_level f), motivation_trend = snap (motivation_trend f)\<rparr>"

lemma i32_of_i64_of_i32 [simp]: "i32_of_i64 (i64_of_i32 w) = Some w"
proof -
  have b: "- (2 ^ 31) \<le> sint w" "sint w < 2 ^ 31"
    using sint_greater_eq [of w] sint_less [of w] by simp_all
  then have "sint (i64_of_i32 w) = sint w"
    unfolding i64_of_i32_def by (intro sint_word_of_int_i64) simp_all
  with b show ?thesis by (simp add: i32_of_i64_def)
qed

lemma circadian_roundtrip:
  assumes "length (cs_histogram c) = 24"
  shows "circadian_from_record (circadian_to_record c) = Inr (c\<lparr>cs_factors := snap_factors (cs_factors c)\<rparr>)"
proof -
  obtain fs where fs: "doc_value (circadian_to_record c) = VObject fs" 
    and at_fields: "fs ''session_activity'' = Some (nanos_value (session_activity (cs_factors c)))"
    "fs ''stress_level'' = Some (nanos_value (stress_level (cs_factors c)))"
    "fs ''social_signal'' = Some (nanos_value (social_signal (cs_factors c)))"
    "fs ''caffeine_level'' = Some (nanos_value (caffeine_level (cs_factors c)))"
    "fs ''sleep_debt'' = Some (nanos_value (sleep_debt (cs_factors c)))"
    "fs ''cognitive_load'' = Some (nanos_value (cognitive_load (cs_factors c)))"
    "fs ''emotional_accumulator'' = Some (nanos_value (emotional_accumulator (cs_factors c)))"
    "fs ''exercise_level'' = Some (nanos_value (exercise_level (cs_factors c)))"
    "fs ''motivation_trend'' = Some (nanos_value (motivation_trend (cs_factors c)))"
    and h: "fs ''activity_histogram'' = Some (VArray (map (\<lambda>n. VInteger (i64_of_u32 n)) (cs_histogram c)))"
    and z: "fs ''timezone_override_minutes'' = Some (case cs_timezone_override c of
            None \<Rightarrow> VNull | Some m \<Rightarrow> VInteger (i64_of_i32 m))"
    and t: "fs ''last_interaction_ms'' = Some (VInteger (cs_last_interaction_ms c))"
      "fs ''updated_at_ms'' = Some (VInteger (cs_updated_at_ms c))"
    by (simp add: circadian_to_record_def Let_def)
  have "factors_field fs = Inr (snap_factors (cs_factors c))"
    by (simp add: factors_field_def snap_factors_def codec at_fields)
  moreover have "r_collect bucket_of_value (map (\<lambda>n. VInteger (i64_of_u32 n)) xs) = Inr xs" for xs
    by (induction xs) (simp_all add: bucket_of_value_def)
  then have "histogram_field fs = Inr (cs_histogram c)"
    using assms by (simp add: histogram_field_def h)
  moreover have "timezone_field fs = Inr (cs_timezone_override c)"
    by (cases "cs_timezone_override c") (simp_all add: timezone_field_def z)
  ultimately show ?thesis
    by (simp add: circadian_from_record_def fs root_fields_def codec t)
qed

section \<open>Clocks\<close>

definition i64_saturating_sub :: "i64 \<Rightarrow> i64 \<Rightarrow> i64" where
  "i64_saturating_sub a b = saturate_i64 (sint a - sint b)"

definition days_between :: "i64 \<Rightarrow> i64 \<Rightarrow> f64" where
  "days_between earlier later =
     f64_max (Fin 0) (Fin (real_of_int (sint (i64_saturating_sub later earlier)) / 86400000))"

definition minutes_between :: "i64 \<Rightarrow> i64 \<Rightarrow> f64" where
  "minutes_between earlier later =
     f64_max (Fin 0) (Fin (real_of_int (sint (i64_saturating_sub later earlier)) / 60000))"

definition hours_between :: "i64 \<Rightarrow> i64 \<Rightarrow> f64" where
  "hours_between earlier later = minutes_between earlier later / Fin 60"

definition utc_hour :: "i64 \<Rightarrow> real" where
  "utc_hour now = real_of_int (sint now mod 86400000) / 3600000"

section \<open>The engine\<close>

record 's engine =
  en_store :: 's
  en_tenant :: string
  en_dimension :: u16
  en_space :: embedding_space
  en_limbic_config :: limbic_config
  en_affect :: affect_state
  en_circadian_config :: circadian_config
  en_factor_weights :: factor_weights
  en_circadian :: circadian_state

definition rhythm_of :: "'s engine \<Rightarrow> activity_rhythm" where
  "rhythm_of g = infer_activity_rhythm (cs_histogram (en_circadian g))"

definition effective_timezone :: "'s engine \<Rightarrow> int \<times> string" where
  "effective_timezone g =
     (case cs_timezone_override (en_circadian g) of
        Some m \<Rightarrow> (sint m, ''override'')
      | None \<Rightarrow>
          (case ar_offset_minutes (rhythm_of g) of
             Some m \<Rightarrow> if Fin 0.3 \<le> ar_confidence (rhythm_of g) then (m, ''behavior'')
                       else (0, ''utc-fallback'')
           | None \<Rightarrow> (0, ''utc-fallback'')))"

definition local_hour :: "'s engine \<Rightarrow> i64 \<Rightarrow> f64" where
  "local_hour g now =
     (let h = utc_hour now + real_of_int (fst (effective_timezone g)) / 60
      in Fin (h - 24 * real_of_int \<lfloor>h / 24\<rfloor>))"

definition inactive_hours :: "'s engine \<Rightarrow> i64 \<Rightarrow> f64" where
  "inactive_hours g now =
     (if cs_last_interaction_ms (en_circadian g) = 0 then Fin 0
      else hours_between (cs_last_interaction_ms (en_circadian g)) now)"

definition factors_now :: "'s engine \<Rightarrow> i64 \<Rightarrow> circadian_factors" where
  "factors_now g now =
     decayed (cs_factors (en_circadian g)) (minutes_between (cs_updated_at_ms (en_circadian g)) now)
       (inactive_hours g now)"

definition current_affect :: "'s engine \<Rightarrow> i64 \<Rightarrow> pad" where
  "current_affect g now =
     (let calm = limbic_decay (af_pad (en_affect g)) (en_limbic_config g)
                   (minutes_between (af_updated_at_ms (en_affect g)) now)
      in modify_homeostatic calm (en_circadian_config g) (en_factor_weights g) (factors_now g now)
           (local_hour g now) (inactive_hours g now))"

record circadian_status =
  st_offset_minutes :: int
  st_source :: string
  st_local_hour :: f64
  st_time_of_day :: string
  st_factors :: circadian_factors
  st_rhythm :: activity_rhythm

definition circadian_status_of :: "'s engine \<Rightarrow> i64 \<Rightarrow> circadian_status" where
  "circadian_status_of g now =
     \<lparr>st_offset_minutes = fst (effective_timezone g), st_source = snd (effective_timezone g),
      st_local_hour = local_hour g now, st_time_of_day = classify_time_of_day (local_hour g now),
      st_factors = factors_now g now, st_rhythm = rhythm_of g\<rparr>"

definition persist_circadian :: "('s, 'c, 'e) hyphae \<Rightarrow> 's engine \<Rightarrow> i64 \<Rightarrow> ('e, 's engine) outcome" where
  "persist_circadian H g now =
     (let c = (en_circadian g)\<lparr>cs_updated_at_ms := now\<rparr>
      in m_bind (from_store (hy_put H (en_store g) (circadian_to_record c))) (\<lambda>s'.
           m_return (g\<lparr>en_circadian := c, en_store := s'\<rparr>)))"

definition set_timezone_override ::
  "('s, 'c, 'e) hyphae \<Rightarrow> 's engine \<Rightarrow> i32 option \<Rightarrow> i64 \<Rightarrow> ('e, 's engine) outcome" where
  "set_timezone_override H g tz now =
     persist_circadian H (g\<lparr>en_circadian := (en_circadian g)\<lparr>cs_timezone_override := tz\<rparr>\<rparr>) now"

definition tick :: "'s engine \<Rightarrow> circadian_event \<Rightarrow> i64 \<Rightarrow> circadian_state" where
  "tick g ev now =
     (let c = en_circadian g; bucket = min (nat \<lfloor>utc_hour now\<rfloor>) 23
      in c\<lparr>cs_factors := record_event ev (factors_now g now),
           cs_histogram := (cs_histogram c)[bucket := u32_saturating_add (cs_histogram c ! bucket) 1],
           cs_last_interaction_ms := now\<rparr>)"

definition record_circadian_event ::
  "('s, 'c, 'e) hyphae \<Rightarrow> 's engine \<Rightarrow> circadian_event \<Rightarrow> i64 \<Rightarrow> ('e, 's engine) outcome" where
  "record_circadian_event H g ev now = persist_circadian H (g\<lparr>en_circadian := tick g ev now\<rparr>) now"

definition update_affect ::
  "('s, 'c, 'e) hyphae \<Rightarrow> 's engine \<Rightarrow> pad \<Rightarrow> memory_influence list \<Rightarrow> i64 \<Rightarrow> ('e, 's engine) outcome" where
  "update_affect H g inp recalled now =
     (let calm = limbic_decay (af_pad (en_affect g)) (en_limbic_config g)
                   (minutes_between (af_updated_at_ms (en_affect g)) now);
          a = \<lparr>af_pad = limbic_update calm (en_limbic_config g) inp recalled, af_updated_at_ms = now\<rparr>
      in m_bind (from_store (hy_put H (en_store g) (affect_to_record a))) (\<lambda>s'.
           m_return (g\<lparr>en_affect := a, en_store := s'\<rparr>)))"

end
