(* ===== verification/Idempotency.thy ===== *)
theory Idempotency
  imports Hash_Framing Memory_Roundtrip
begin

text \<open>
  \<open>idempotency.rs\<close>: caller-supplied idempotency keys, the durable ledger record of a remember
  operation, the canonical hash of a remember request and the stable memory id derived from a key.
  The digests are parameters: \<open>b3\<close> gives the hexadecimal text of a BLAKE3 hash, \<open>b3_raw\<close> its bytes,
  \<open>from_hex\<close> reads a hexadecimal hash, \<open>uuid_text\<close> prints sixteen bytes as a UUID.
\<close>

unbundle bit_operations_syntax

section \<open>Keys\<close>

definition max_key_bytes :: nat where
  "max_key_bytes = 255"

definition idempotency_key_new :: "string \<Rightarrow> string option" where
  "idempotency_key_new s =
     (if s = [] \<or> max_key_bytes < length s \<or> trim s \<noteq> s \<or> list_ex is_control (chars s)
      then None else Some s)"

definition remember_kind :: string where
  "remember_kind = ''remember''"

definition remember_key_prefix :: string where
  "remember_key_prefix = ''__celiums/idempotency/remember/''"

definition request_hash_domain :: bytes where
  "request_hash_domain = ''celiums-memory/remember-request/v1''"

definition uuid_domain :: bytes where
  "uuid_domain = ''celiums-memory/remember-id/v1''"

definition write_hash_field :: "bytes \<Rightarrow> bytes \<Rightarrow> bytes" where
  "write_hash_field name v = u64_le (length name) @ name @ u64_le (length v) @ v"

definition write_optional_text :: "bytes \<Rightarrow> string option \<Rightarrow> bytes" where
  "write_optional_text name o' = (case o' of
     Some v \<Rightarrow> write_hash_field name [char_of (1 :: nat)] @ write_hash_field name v
   | None \<Rightarrow> write_hash_field name [char_of (0 :: nat)])"

definition write_optional_i64 :: "bytes \<Rightarrow> i64 option \<Rightarrow> bytes" where
  "write_optional_i64 name o' = (case o' of
     Some v \<Rightarrow> write_hash_field name [char_of (1 :: nat)] @ write_hash_field name (i64_le v)
   | None \<Rightarrow> write_hash_field name [char_of (0 :: nat)])"

definition durable_key :: "(bytes \<Rightarrow> string) \<Rightarrow> string \<Rightarrow> string \<Rightarrow> string \<Rightarrow> bytes" where
  "durable_key b3 tenant user key =
     remember_key_prefix @ b3 (write_hash_field ''tenant_id'' tenant @ write_hash_field ''user_id'' user
       @ write_hash_field ''idempotency_key'' key)"

definition legacy_durable_key :: "(bytes \<Rightarrow> string) \<Rightarrow> string \<Rightarrow> string \<Rightarrow> bytes" where
  "legacy_durable_key b3 tenant key =
     remember_key_prefix @ b3 (write_hash_field ''tenant_id'' tenant
       @ write_hash_field ''idempotency_key'' key)"

section \<open>Ledger records\<close>

record remember_record =
  rr_kind :: string
  rr_memory_id :: string
  rr_request_hash :: string

definition remember_record_new :: "string \<Rightarrow> string \<Rightarrow> remember_record" where
  "remember_record_new i h = \<lparr>rr_kind = remember_kind, rr_memory_id = i, rr_request_hash = h\<rparr>"

definition ledger_to_record ::
  "(bytes \<Rightarrow> string) \<Rightarrow> string \<Rightarrow> string \<Rightarrow> string \<Rightarrow> remember_record \<Rightarrow> doc" where
  "ledger_to_record b3 tenant user key r =
     \<lparr>doc_key = durable_key b3 tenant user key,
      doc_value = VObject
        [''kind'' \<mapsto> VString (rr_kind r), ''memory_id'' \<mapsto> VString (rr_memory_id r),
         ''request_hash'' \<mapsto> VString (rr_request_hash r)]\<rparr>"

definition ledger_from_record :: "(string \<Rightarrow> string option) \<Rightarrow> doc \<Rightarrow> remember_record decoded" where
  "ledger_from_record from_hex rec =
     (if \<not> prefix remember_key_prefix (doc_key rec) then Inl KeyErr else
      r_bind (root_fields (doc_value rec)) (\<lambda>fs.
      r_bind (string_field fs ''kind'') (\<lambda>k.
      if k \<noteq> remember_kind then Inl (FieldErr ''kind'') else
      r_bind (string_field fs ''request_hash'') (\<lambda>h.
      r_bind (ok_or (FieldErr ''request_hash'') (from_hex h)) (\<lambda>h.
      r_bind (string_field fs ''memory_id'') (\<lambda>i.
        Inr \<lparr>rr_kind = k, rr_memory_id = i, rr_request_hash = h\<rparr>))))))"

section \<open>The canonical request\<close>

definition u16_le :: "u16 \<Rightarrow> bytes" where
  "u16_le w = le_bytes 2 (unat w)"

fun idem_role_name :: "content_role \<Rightarrow> string" where
  "idem_role_name Observation = ''observation''"
| "idem_role_name Description = ''description''"
| "idem_role_name OperationalRequest = ''operational_request''"

fun idem_purpose_name :: "memory_purpose \<Rightarrow> string" where
  "idem_purpose_name ConversationalContext = ''conversational_context''"
| "idem_purpose_name Personalization = ''personalization''"
| "idem_purpose_name TaskExecution = ''task_execution''"
| "idem_purpose_name SafetyAudit = ''safety_audit''"

definition write_identity :: "memory_identity \<Rightarrow> bytes" where
  "write_identity i =
     write_hash_field ''tenant_id'' (tenant_id i) @ write_hash_field ''user_id'' (user_id i)
     @ write_optional_text ''agent_id'' (agent_id i) @ write_optional_text ''project_id'' (project_id i)
     @ write_optional_text ''conversation_id'' (conversation_id i)
     @ write_optional_text ''session_id'' (session_id i)"

definition write_provenance :: "provenance \<Rightarrow> bytes" where
  "write_provenance p =
     write_hash_field ''source_kind'' (source_kind_as_str (source_kind p))
     @ write_optional_text ''source_namespace'' (source_namespace p)
     @ write_optional_text ''source_id'' (source_id p) @ write_optional_text ''event_id'' (event_id p)
     @ write_optional_text ''turn_id'' (turn_id p) @ write_optional_text ''source_uri'' (source_uri p)
     @ write_optional_text ''source_actor'' (actor p)
     @ write_hash_field ''content_hash'' (content_hash p)"

definition write_embedding :: "embedding_space option \<Rightarrow> i16 list \<Rightarrow> bytes" where
  "write_embedding space v =
     (case space of
        Some s \<Rightarrow>
          write_hash_field ''embedding_present'' [char_of (1 :: nat)]
          @ write_hash_field ''embedding_provider'' (provider s)
          @ write_hash_field ''embedding_model'' (model s)
          @ write_hash_field ''embedding_revision'' (revision s)
          @ write_hash_field ''embedding_dimension'' (u16_le (dimension s))
          @ write_hash_field ''embedding_normalization'' (normalization_as_str (normalization s))
      | None \<Rightarrow> write_hash_field ''embedding_present'' [char_of (0 :: nat)])
     @ write_hash_field ''vector_dimension'' (u64_le (length v))
     @ concat (map (\<lambda>c. write_hash_field ''q15'' (u16_le c)) v)"

definition write_role_purpose :: "bool \<Rightarrow> governance_classification option \<Rightarrow> bytes" where
  "write_role_purpose included gov =
     (if included then case gov of
        Some g \<Rightarrow> write_hash_field ''content_role'' (idem_role_name (gov_role g))
          @ write_hash_field ''purpose'' (idem_purpose_name (gov_purpose g))
      | None \<Rightarrow> []
      else [])"

definition remember_preimage :: "bool \<Rightarrow> memory \<Rightarrow> i16 list \<Rightarrow> bytes" where
  "remember_preimage include_governance m v =
     request_hash_domain @ write_hash_field ''content'' (content m) @ write_identity (identity m)
     @ write_provenance (provenance m) @ write_optional_i64 ''event_at_ms'' (event_at_ms m)
     @ write_hash_field ''scope'' (scope_as_str (mem_scope m))
     @ write_role_purpose include_governance (governance m)
     @ write_hash_field ''memory_type'' (memory_type_as_str (memory_type m))
     @ write_hash_field ''importance_nanos'' (i64_le (to_nanos (importance m)))
     @ write_hash_field ''pleasure_nanos'' (i64_le (to_nanos (pleasure (mem_pad m))))
     @ write_hash_field ''arousal_nanos'' (i64_le (to_nanos (arousal (mem_pad m))))
     @ write_hash_field ''dominance_nanos'' (i64_le (to_nanos (dominance (mem_pad m))))
     @ concat (map (write_hash_field ''tag'') (tags m))
     @ write_embedding (embedding_space m) v"

definition canonical_remember_hash :: "(bytes \<Rightarrow> string) \<Rightarrow> memory \<Rightarrow> i16 list \<Rightarrow> string" where
  "canonical_remember_hash b3 m v = b3 (remember_preimage True m v)"

definition legacy_remember_hash :: "(bytes \<Rightarrow> string) \<Rightarrow> memory \<Rightarrow> i16 list \<Rightarrow> string" where
  "legacy_remember_hash b3 m v = b3 (remember_preimage False m v)"

section \<open>Stable ids\<close>

definition byte_bits :: "char \<Rightarrow> nat \<Rightarrow> nat \<Rightarrow> char" where
  "byte_bits c kept bits = char_of (((of_char c :: nat) AND kept) OR bits)"

definition uuid_bytes :: "bytes \<Rightarrow> bytes" where
  "uuid_bytes digest =
     (let b = take 16 digest; b = b[6 := byte_bits (b ! 6) 15 128]
      in b[8 := byte_bits (b ! 8) 63 128])"

definition deterministic_remember_uuid ::
  "(bytes \<Rightarrow> bytes) \<Rightarrow> (bytes \<Rightarrow> string) \<Rightarrow> string \<Rightarrow> string \<Rightarrow> string \<Rightarrow> string" where
  "deterministic_remember_uuid b3_raw uuid_text tenant user key =
     uuid_text (uuid_bytes (b3_raw (uuid_domain @ write_hash_field ''tenant_id'' tenant
       @ write_hash_field ''user_id'' user @ write_hash_field ''idempotency_key'' key)))"

section \<open>Framing\<close>

interpretation remember_field: field_framing write_hash_field
proof
  show "write_hash_field n v \<noteq> []" for n v
    using framed_nonempty [of n v] by (simp add: write_hash_field_def framed_def)
  show "n = n' \<and> v = v' \<and> r = r'"
    if "fits n" "fits v" "fits n'" "fits v'" "write_hash_field n v @ r = write_hash_field n' v' @ r'"
    for n v n' v' r r'
    using framed_split [OF that(1-4), of r r'] that(5) by (simp add: write_hash_field_def framed_def)
qed

definition space_fields :: "embedding_space option \<Rightarrow> (bytes \<times> bytes) list" where
  "space_fields o' = (case o' of
     Some s \<Rightarrow> [(''embedding_present'', [char_of (1 :: nat)]), (''embedding_provider'', provider s),
        (''embedding_model'', model s), (''embedding_revision'', revision s),
        (''embedding_dimension'', u16_le (dimension s)),
        (''embedding_normalization'', normalization_as_str (normalization s))]
   | None \<Rightarrow> [(''embedding_present'', [char_of (0 :: nat)])])"

definition role_fields :: "bool \<Rightarrow> governance_classification option \<Rightarrow> (bytes \<times> bytes) list" where
  "role_fields included gov = (if included then case gov of
     Some g \<Rightarrow> [(''content_role'', idem_role_name (gov_role g)),
                (''purpose'', idem_purpose_name (gov_purpose g))]
   | None \<Rightarrow> [] else [])"

definition remember_fields :: "bool \<Rightarrow> memory \<Rightarrow> i16 list \<Rightarrow> (bytes \<times> bytes) list" where
  "remember_fields g m v =
     (''content'', content m)
     # (''tenant_id'', tenant_id (identity m)) # (''user_id'', user_id (identity m))
     # opt_fields ''agent_id'' (agent_id (identity m))
     @ opt_fields ''project_id'' (project_id (identity m))
     @ opt_fields ''conversation_id'' (conversation_id (identity m))
     @ opt_fields ''session_id'' (session_id (identity m))
     @ (''source_kind'', source_kind_as_str (source_kind (provenance m)))
     # opt_fields ''source_namespace'' (source_namespace (provenance m))
     @ opt_fields ''source_id'' (source_id (provenance m))
     @ opt_fields ''event_id'' (event_id (provenance m))
     @ opt_fields ''turn_id'' (turn_id (provenance m))
     @ opt_fields ''source_uri'' (source_uri (provenance m))
     @ opt_fields ''source_actor'' (actor (provenance m))
     @ (''content_hash'', content_hash (provenance m))
     # opt_fields ''event_at_ms'' (map_option i64_le (event_at_ms m))
     @ (''scope'', scope_as_str (mem_scope m))
     # role_fields g (governance m)
     @ (''memory_type'', memory_type_as_str (memory_type m))
     # (''importance_nanos'', i64_le (to_nanos (importance m)))
     # (''pleasure_nanos'', i64_le (to_nanos (pleasure (mem_pad m))))
     # (''arousal_nanos'', i64_le (to_nanos (arousal (mem_pad m))))
     # (''dominance_nanos'', i64_le (to_nanos (dominance (mem_pad m))))
     # map (Pair ''tag'') (tags m)
     @ space_fields (embedding_space m)
     @ (''vector_dimension'', u64_le (length v))
     # map (Pair ''q15'') (map u16_le v)"

lemma optional_text_frame: "write_optional_text n o' = frame write_hash_field (opt_fields n o')"
  by (cases o') (simp_all add: write_optional_text_def opt_fields_def)

lemma optional_i64_frame:
  "write_optional_i64 n o' = frame write_hash_field (opt_fields n (map_option i64_le o'))"
  by (cases o') (simp_all add: write_optional_i64_def opt_fields_def)

lemma run_frame:
  "concat (map (write_hash_field n) xs) = frame write_hash_field (map (Pair n) xs)"
  "concat (map (\<lambda>x. write_hash_field n (f x)) ys) = frame write_hash_field (map (Pair n) (map f ys))"
  by (induction xs, simp_all, induction ys, simp_all)

lemma embedding_frame:
  "write_embedding o' v = frame write_hash_field
     (space_fields o' @ (''vector_dimension'', u64_le (length v)) # map (Pair ''q15'') (map u16_le v))"
  by (cases o') (simp_all add: write_embedding_def space_fields_def run_frame)

lemma role_frame: "write_role_purpose g o' = frame write_hash_field (role_fields g o')"
  by (cases o') (simp_all add: write_role_purpose_def role_fields_def)

lemma remember_preimage_frame:
  "remember_preimage g m v = request_hash_domain @ frame write_hash_field (remember_fields g m v)"
  unfolding remember_preimage_def remember_fields_def write_identity_def write_provenance_def
    optional_text_frame optional_i64_frame embedding_frame role_frame run_frame(1) frame_simps
    append.assoc append_Cons ..

section \<open>What the hash identifies\<close>

lemma u16_le_inj: "u16_le v = u16_le w \<longleftrightarrow> v = w"
proof
  assume "u16_le v = u16_le w"
  then have "unat v = unat w"
    unfolding u16_le_def using unsigned_less [of v] unsigned_less [of w] by (intro le_bytes_inj [of _ 2]) simp_all
  then show "v = w" by (simp add: word_unat_eq_iff)
qed simp

lemma u16_map_inj: "map u16_le v = map u16_le w \<longleftrightarrow> v = w"
  using inj_map_eq_map [of u16_le v w] u16_le_inj by (simp add: inj_def)

lemma i64_option_inj: "map_option i64_le a = map_option i64_le b \<longleftrightarrow> a = b"
  by (cases a; cases b) auto

lemma idem_names_inj:
  "idem_role_name x = idem_role_name y \<longleftrightarrow> x = y" "idem_purpose_name p = idem_purpose_name q \<longleftrightarrow> p = q"
  by (cases x; cases y; simp) (cases p; cases q; simp)

lemma role_fields_inj:
  "role_fields True a @ (''memory_type'', x) # r = role_fields True b @ (''memory_type'', y) # s
   \<longleftrightarrow> map_option (\<lambda>g. (gov_role g, gov_purpose g)) a = map_option (\<lambda>g. (gov_role g, gov_purpose g)) b
     \<and> x = y \<and> r = s"
  by (cases a; cases b) (auto simp: role_fields_def idem_names_inj)

lemma space_fields_inj:
  "space_fields a @ (''vector_dimension'', x) # r = space_fields b @ (''vector_dimension'', y) # s
   \<longleftrightarrow> a = b \<and> x = y \<and> r = s"
  by (cases a; cases b)
    (auto simp: space_fields_def u16_le_inj normalization.to_name_inj embedding_space.equality)

lemma tag_run_inj:
  "map (Pair ''tag'') xs @ space_fields a @ r = map (Pair ''tag'') ys @ space_fields b @ s
   \<longleftrightarrow> xs = ys \<and> space_fields a @ r = space_fields b @ s"
proof -
  obtain v u where a: "space_fields a = (''embedding_present'', v) # u"
    by (cases a) (auto simp: space_fields_def)
  obtain w z where b: "space_fields b = (''embedding_present'', w) # z"
    by (cases b) (auto simp: space_fields_def)
  have "''embedding_present'' \<noteq> ''tag''" by simp
  from run_inj [OF this, of xs v "u @ r" ys w "z @ s"] show ?thesis by (simp add: a b)
qed

lemma run_inj_end: "map (Pair n) xs = map (Pair n) ys \<longleftrightarrow> xs = ys"
  by (simp add: inj_map_eq_map inj_def)

text \<open>The inputs of a remember request that its canonical hash covers.\<close>

definition request_identity where
  "request_identity m (v :: i16 list) =
     ((content m, identity m, provenance m, event_at_ms m, mem_scope m),
      (map_option (\<lambda>g. (gov_role g, gov_purpose g)) (governance m), memory_type m,
       to_nanos (importance m), to_nanos (pleasure (mem_pad m)), to_nanos (arousal (mem_pad m)),
       to_nanos (dominance (mem_pad m))), (tags m, embedding_space m, v))"

lemma remember_fields_inj:
  assumes "remember_fields True m v = remember_fields True m' v'"
  shows "request_identity m v = request_identity m' v'"
proof -
  note eqs = assms [unfolded remember_fields_def append.simps list.inject prod.inject append_assoc
      opt_fields_append_inj role_fields_inj tag_run_inj space_fields_inj run_inj_end i64_option_inj
      u16_map_inj source_kind.to_name_inj scope.to_name_inj memory_type.to_name_inj i64_le_inj]
  have "identity m = identity m'" using eqs by (intro memory_identity.equality) simp_all
  moreover have "provenance m = provenance m'" using eqs by (intro provenance.equality) simp_all
  ultimately show ?thesis
    unfolding request_identity_def using eqs by (simp only: prod.inject simp_thms)
qed

section \<open>Rust strings fit\<close>

lemma fits_short_name: "length n < 64 \<Longrightarrow> fits n"
  by (simp add: fits_def)

lemma fits_i64: "fits (i64_le w)" "pred_option fits (map_option i64_le o')"
  by (simp_all add: fits_def option.pred_map comp_def option.pred_True)

lemma fits_u16: "fits (u16_le w)"
  by (simp add: fits_def u16_le_def)

lemma fits_u64: "fits (u64_le n)"
  by (simp add: fits_def)

lemma fits_names:
  "fits (source_kind_as_str k)" "fits (scope_as_str sc)" "fits (memory_type_as_str mt)"
  "fits (idem_role_name ro)" "fits (idem_purpose_name pu)" "fits (normalization_as_str no)"
proof -
  show "fits (source_kind_as_str k)" by (cases k; simp add: fits_def)
  show "fits (scope_as_str sc)" by (cases sc; simp add: fits_def)
  show "fits (memory_type_as_str mt)" by (cases mt; simp add: fits_def)
  show "fits (idem_role_name ro)" by (cases ro; simp add: fits_def)
  show "fits (idem_purpose_name pu)" by (cases pu; simp add: fits_def)
  show "fits (normalization_as_str no)" by (cases no; simp add: fits_def)
qed

lemma fits_field_names:
  "fits ''content''" "fits ''tenant_id''" "fits ''user_id''" "fits ''agent_id''"
  "fits ''project_id''" "fits ''conversation_id''" "fits ''session_id''" "fits ''source_kind''"
  "fits ''source_namespace''" "fits ''source_id''" "fits ''event_id''" "fits ''turn_id''"
  "fits ''source_uri''" "fits ''source_actor''" "fits ''content_hash''" "fits ''event_at_ms''"
  "fits ''scope''" "fits ''content_role''" "fits ''purpose''" "fits ''memory_type''"
  "fits ''importance_nanos''" "fits ''pleasure_nanos''" "fits ''arousal_nanos''"
  "fits ''dominance_nanos''" "fits ''tag''" "fits ''embedding_present''"
  "fits ''embedding_provider''" "fits ''embedding_model''" "fits ''embedding_revision''"
  "fits ''embedding_dimension''" "fits ''embedding_normalization''" "fits ''vector_dimension''"
  "fits ''q15''" "fits ''idempotency_key''"
  by (simp_all add: fits_def)

lemma fits_run: "list_all fits xs \<Longrightarrow> fits n \<Longrightarrow> fits_all (map (Pair n) xs)"
  by (auto simp: fits_all_def list_all_iff)

text \<open>Every string of a memory is shorter than \<open>2 ^ 64\<close> bytes, as every Rust string is.\<close>

definition memory_fits :: "memory \<Rightarrow> bool" where
  "memory_fits m \<longleftrightarrow>
     fits (content m) \<and> fits (tenant_id (identity m)) \<and> fits (user_id (identity m))
     \<and> pred_option fits (agent_id (identity m)) \<and> pred_option fits (project_id (identity m))
     \<and> pred_option fits (conversation_id (identity m)) \<and> pred_option fits (session_id (identity m))
     \<and> pred_option fits (source_namespace (provenance m)) \<and> pred_option fits (source_id (provenance m))
     \<and> pred_option fits (event_id (provenance m)) \<and> pred_option fits (turn_id (provenance m))
     \<and> pred_option fits (source_uri (provenance m)) \<and> pred_option fits (actor (provenance m))
     \<and> fits (content_hash (provenance m)) \<and> list_all fits (tags m)
     \<and> pred_option (\<lambda>s. fits (provider s) \<and> fits (model s) \<and> fits (revision s)) (embedding_space m)"

lemma remember_fields_fit:
  assumes "memory_fits m"
  shows "fits_all (remember_fields g m v)"
proof -
  have "fits_all (space_fields (embedding_space m))"
    using assms by (cases "embedding_space m")
      (simp_all add: space_fields_def memory_fits_def fits_short_name fits_names fits_u16)
  moreover have "fits_all (role_fields g (governance m))"
    by (cases "governance m") (simp_all add: role_fields_def fits_short_name fits_names)
  moreover have "fits_all (map (Pair ''tag'') (tags m))"
    using assms by (intro fits_run) (simp_all add: memory_fits_def fits_short_name)
  moreover have "fits_all (map (Pair ''q15'') (map u16_le v))"
    by (intro fits_run) (simp_all add: list_all_iff fits_u16 fits_short_name)
  ultimately show ?thesis
    unfolding remember_fields_def
    by (simp only: fits_all_simps fits_all_opt fits_field_names fits_names fits_i64 fits_u64
        assms [unfolded memory_fits_def] simp_thms)
qed

lemma remember_preimage_inj:
  assumes "memory_fits m" and "memory_fits m'"
    and "remember_preimage True m v = remember_preimage True m' v'"
  shows "request_identity m v = request_identity m' v'"
proof (rule remember_fields_inj, rule remember_field.frame_inj)
  show "frame write_hash_field (remember_fields True m v)
      = frame write_hash_field (remember_fields True m' v')"
    using assms(3) unfolding remember_preimage_frame by (simp only: same_append_eq)
qed (simp_all only: remember_fields_fit assms(1,2))

section \<open>Properties\<close>

lemma durable_key_inj:
  assumes "inj b3" and "fits t" "fits u" "fits k" "fits t'" "fits u'" "fits k'"
    and "durable_key b3 t u k = durable_key b3 t' u' k'"
  shows "t = t' \<and> u = u' \<and> k = k'"
proof -
  define fs where "fs = [(''tenant_id'', t), (''user_id'', u), (''idempotency_key'', k)]"
  define gs where "gs = [(''tenant_id'', t'), (''user_id'', u'), (''idempotency_key'', k')]"
  have "b3 (frame write_hash_field fs) = b3 (frame write_hash_field gs)"
    using assms(8) by (simp add: durable_key_def fs_def gs_def)
  then have "frame write_hash_field fs = frame write_hash_field gs" by (rule injD [OF assms(1)])
  then have "fs = gs"
    by (intro remember_field.frame_inj) (simp_all add: fs_def gs_def assms fits_short_name)
  then show ?thesis by (simp add: fs_def gs_def)
qed

lemma durable_legacy_differ:
  assumes "inj b3" and "fits t" "fits u" "fits k" "fits t'" "fits k'"
  shows "durable_key b3 t u k \<noteq> legacy_durable_key b3 t' k'"
proof
  define fs where "fs = [(''tenant_id'', t), (''user_id'', u), (''idempotency_key'', k)]"
  define gs where "gs = [(''tenant_id'', t'), (''idempotency_key'', k')]"
  assume "durable_key b3 t u k = legacy_durable_key b3 t' k'"
  then have "b3 (frame write_hash_field fs) = b3 (frame write_hash_field gs)"
    by (simp add: durable_key_def legacy_durable_key_def fs_def gs_def)
  then have "frame write_hash_field fs = frame write_hash_field gs" by (rule injD [OF assms(1)])
  then have "fs = gs"
    by (intro remember_field.frame_inj) (simp_all add: fs_def gs_def assms fits_short_name)
  then show False by (simp add: fs_def gs_def)
qed

lemma ledger_roundtrip:
  assumes "from_hex h = Some h"
  shows "ledger_from_record from_hex (ledger_to_record b3 t u k (remember_record_new i h))
    = Inr (remember_record_new i h)"
  using assms by (simp add: ledger_from_record_def ledger_to_record_def remember_record_new_def
      durable_key_def root_fields_def string_field_def)

text \<open>
  C34. Two remember requests with the same canonical hash are the same request, up to a collision of
  the digest: the bytes that are hashed determine the content, the whole identity and provenance,
  the event time, the scope, the role and purpose, the memory type, the scores on the nano grid, the
  tags in order, the embedding space and the vector, so a key reused for a different request is
  always noticed.
\<close>

theorem request_hash_identifies:
  assumes "memory_fits m" and "memory_fits m'"
    and "inj_on b3 {remember_preimage True m v, remember_preimage True m' v'}"
    and "canonical_remember_hash b3 m v = canonical_remember_hash b3 m' v'"
  shows "request_identity m v = request_identity m' v'"
proof (rule remember_preimage_inj [OF assms(1,2)])
  show "remember_preimage True m v = remember_preimage True m' v'"
    by (rule inj_onD [OF assms(3) assms(4) [unfolded canonical_remember_hash_def]])
      (simp_all only: insert_iff simp_thms)
qed

text \<open>The clocks of a memory are not part of the request.\<close>

theorem request_hash_identifies_witness:
  "canonical_remember_hash (\<lambda>x. x) example_memory [1, 2]
     = canonical_remember_hash (\<lambda>x. x) (example_memory\<lparr>retrieval_count := 5, updated_at_ms := 9\<rparr>) [1, 2]
   \<and> request_identity example_memory [1, 2]
     = request_identity (example_memory\<lparr>retrieval_count := 5, updated_at_ms := 9\<rparr>) [1, 2]"
proof -
  let ?m = "example_memory\<lparr>retrieval_count := 5, updated_at_ms := 9\<rparr>"
  have same: "canonical_remember_hash (\<lambda>x. x) example_memory [1, 2] = canonical_remember_hash (\<lambda>x. x) ?m [1, 2]"
    by (simp add: canonical_remember_hash_def remember_preimage_def)
  have "memory_fits example_memory" "memory_fits ?m"
    by (simp_all add: memory_fits_def example_memory_def memory_identity_local_def provenance_legacy_def provenance_observed_def
        fits_short_name)
  from request_hash_identifies [OF this inj_on_id2 same] same show ?thesis by (rule conjI [rotated])
qed

end
