(* ===== verification/Remember.thy ===== *)
theory Remember
  imports Entity_Index Engine_State Idempotency Audit_Engine
begin

text \<open>
  The write path of the engine: quantisation of embeddings (\<open>quantize.rs\<close>) and \<open>remember\<close> of
  \<open>engine.rs\<close>, with its ethics gate, its idempotency ledger and every write in order. What the code
  reads from third-party crates and from the ethics evaluation is the record \<open>rust_env\<close>. A failed
  operation returns its error only; the state it leaves behind is not modelled.
\<close>

section \<open>Quantisation\<close>

fun quantize_values :: "nat \<Rightarrow> f64 list \<Rightarrow> 'e engine_error + i16 list" where
  "quantize_values index [] = Inr []"
| "quantize_values index (c # cs) =
     (case c of
        Fin r \<Rightarrow>
          (case quantize_values (index + 1) cs of
             Inl e \<Rightarrow> Inl e
           | Inr vs \<Rightarrow> Inr (word_of_int (round_half_away (min (max r (-1)) 1 * 32767)) # vs))
      | _ \<Rightarrow> Inl (QuantizeNotFinite index))"

definition quantize :: "(i16 list \<Rightarrow> bool) \<Rightarrow> f64 list \<Rightarrow> u16 \<Rightarrow> 'e engine_error + i16 list" where
  "quantize q15_ok embedding expected_dimension =
     (if length embedding \<noteq> unat expected_dimension
      then Inl (QuantizeDimension expected_dimension (length embedding))
      else case quantize_values 0 embedding of
        Inl e \<Rightarrow> Inl e
      | Inr vs \<Rightarrow> if q15_ok vs then Inr vs else Inl QuantizeVector)"

section \<open>Requests and environment\<close>

record ethics_verdict =
  ev_blocked :: bool
  ev_violations :: "string list"
  ev_risks :: "string list"

record rust_env =
  env_b3 :: "bytes \<Rightarrow> string"
  env_b3_raw :: "bytes \<Rightarrow> bytes"
  env_from_hex :: "string \<Rightarrow> string option"
  env_uuid_text :: "bytes \<Rightarrow> string"
  env_uuid_ok :: "string \<Rightarrow> bool"
  env_f64_bits :: "f64 \<Rightarrow> bytes"
  env_q15_ok :: "i16 list \<Rightarrow> bool"
  env_detectors :: detectors
  env_patterns :: text_patterns
  env_ethics :: "bytes \<Rightarrow> ethics_verdict"

record remember_request =
  rq_content :: bytes
  rq_embedding :: "f64 list"
  rq_tags :: "string list"
  rq_scope :: scope
  rq_importance :: "f64 option"
  rq_now_ms :: i64
  rq_context :: "remember_context option"
  rq_embedding_space :: "embedding_space option"
  rq_idempotency_key :: "string option"
  rq_content_role :: content_role
  rq_purpose :: memory_purpose

definition blocked_category :: "ethics_verdict \<Rightarrow> string" where
  "blocked_category v =
     (case ev_violations v of
        c # _ \<Rightarrow> c
      | [] \<Rightarrow> (case ev_risks v of r # _ \<Rightarrow> r | [] \<Rightarrow> ''catastrophic''))"

section \<open>The memory a request describes\<close>

definition request_context :: "rust_env \<Rightarrow> remember_request \<Rightarrow> remember_context" where
  "request_context E req = (case rq_context req of
     Some c \<Rightarrow> c | None \<Rightarrow> remember_context_local (env_b3 E) (rq_content req) (rq_now_ms req))"

definition request_governance :: "rust_env \<Rightarrow> remember_request \<Rightarrow> governance_classification" where
  "request_governance E req =
     classify_governance (env_detectors E) (rq_content req) (source_trust_of (rq_context req))
       (rq_content_role req) (rq_purpose req) (rq_now_ms req) (ev_blocked (env_ethics E (rq_content req)))"

definition new_memory ::
  "rust_env \<Rightarrow> 's engine \<Rightarrow> remember_request \<Rightarrow> string \<Rightarrow> i16 list \<Rightarrow> memory" where
  "new_memory E g req i vec =
     (let ctx = request_context E req; T = env_patterns E
      in \<lparr>mem_id = i, schema_version = 3, mem_revision = 1, identity = rc_identity ctx,
          provenance = rc_provenance ctx, embedding_space = Some (en_space g),
          mem_vector = Some vec, governance = Some (request_governance E req),
          content = rq_content req,
          importance = (case rq_importance req of
             None \<Rightarrow> fst (classify_importance T (rq_content req)) | Some x \<Rightarrow> f64_clamp x 0 1),
          mem_pad = extract_pad T (rq_content req), strength = Fin 1, retrieval_count = 0,
          memory_type = classify_memory_type T (rq_content req), mem_state = Active,
          mem_scope = rq_scope req, tags = rq_tags req,
          entities = extract_entities T (rq_content req), consolidation_count = 0,
          created_at_ms = rq_now_ms req, updated_at_ms = rq_now_ms req,
          event_at_ms = rc_event_at_ms ctx, ingested_at_ms = rc_ingested_at_ms ctx,
          last_retrieved_at_ms = rq_now_ms req\<rparr>)"

definition same_governance_request :: "memory \<Rightarrow> memory \<Rightarrow> bool" where
  "same_governance_request existing requested =
     (case (governance existing, governance requested) of
        (Some a, Some b) \<Rightarrow> gov_role a = gov_role b \<and> gov_purpose a = gov_purpose b
      | (None, None) \<Rightarrow> True
      | _ \<Rightarrow> False)"

definition is_quarantined :: "memory \<Rightarrow> bool" where
  "is_quarantined m = (case governance m of
     None \<Rightarrow> False | Some g \<Rightarrow> gov_treatment g = Treatment_Quarantined)"

section \<open>Idempotent replay\<close>

text \<open>The ledger record of a key: the current layout first, then the one without a user.\<close>

definition find_ledger ::
  "('s, 'c, 'e) hyphae \<Rightarrow> rust_env \<Rightarrow> 's engine \<Rightarrow> string \<Rightarrow> string \<Rightarrow> ('e, doc option \<times> bool) outcome" where
  "find_ledger H E g user key =
     m_bind (from_store (hy_get H (en_store g) (durable_key (env_b3 E) (en_tenant g) user key)))
       (\<lambda>found. case found of
          Some rec \<Rightarrow> m_return (Some rec, False)
        | None \<Rightarrow>
            m_bind (from_store (hy_get H (en_store g) (legacy_durable_key (env_b3 E) (en_tenant g) key)))
              (\<lambda>old. m_return (old, True)))"

definition from_ledger :: "'a decoded \<Rightarrow> ('e, 'a) outcome" where
  "from_ledger r = (case r of Inl e \<Rightarrow> m_fail (IdempotencyDecode e) | Inr x \<Rightarrow> m_return x)"

text \<open>\<open>None\<close> when the key has not been used: the request is then carried out.\<close>

definition replay ::
  "('s, 'c, 'e) hyphae \<Rightarrow> ('s, 'e) store_ops \<Rightarrow> rust_env \<Rightarrow> 's engine \<Rightarrow> string \<Rightarrow> memory \<Rightarrow> i16 list
   \<Rightarrow> ('e, (memory \<times> 's engine) option) outcome" where
  "replay H O' E g key m vec =
     m_bind (find_ledger H E g (user_id (identity m)) key) (\<lambda>(found, legacy). case found of
       None \<Rightarrow> m_return None
     | Some rec \<Rightarrow>
         m_bind (from_ledger (ledger_from_record (env_from_hex E) rec)) (\<lambda>existing.
         m_bind (from_store (hy_get H (en_store g) (rr_memory_id existing))) (\<lambda>stored. case stored of
           None \<Rightarrow> m_fail (BrokenIdempotencyReference (rr_memory_id existing))
         | Some doc \<Rightarrow>
             m_bind (from_decode (memory_from_record (env_b3 E) (env_q15_ok E) doc)) (\<lambda>old.
             if legacy \<and> user_id (identity old) \<noteq> user_id (identity m) then m_return None
             else if rr_request_hash existing \<noteq> canonical_remember_hash (env_b3 E) m vec
                  \<and> (\<not> legacy \<or> rr_request_hash existing \<noteq> legacy_remember_hash (env_b3 E) m vec
                     \<or> \<not> same_governance_request old m)
             then m_fail IdempotencyConflict
             else if is_quarantined old then m_return (Some (old, g))
             else m_bind (from_store (op_put_vectors O' (en_store g) [(rr_memory_id existing, vec)]))
                    (\<lambda>s'. m_return (Some (old, g\<lparr>en_store := s'\<rparr>)))))))"

section \<open>Carrying a request out\<close>

definition put_memory ::
  "('s, 'c, 'e) hyphae \<Rightarrow> ('s, 'e) store_ops \<Rightarrow> rust_env \<Rightarrow> 's engine \<Rightarrow> string option \<Rightarrow> memory \<Rightarrow> i16 list
   \<Rightarrow> ('e, 's) outcome" where
  "put_memory H O' E g key m vec =
     m_bind (from_store (case key of
         Some k \<Rightarrow> op_put_records O' (en_store g)
           [memory_to_record m,
            ledger_to_record (env_b3 E) (en_tenant g) (user_id (identity m)) k
              (remember_record_new (mem_id m) (canonical_remember_hash (env_b3 E) m vec))]
       | None \<Rightarrow> hy_put H (en_store g) (memory_to_record m))) (\<lambda>s.
     if is_quarantined m then m_return s
     else from_store (op_put_vectors O' s [(mem_id m, vec)]))"

definition emotional_intensity :: "memory \<Rightarrow> f64" where
  "emotional_intensity m = f64_max (f64_abs (arousal (mem_pad m))) (f64_abs (pleasure (mem_pad m)))"

definition stir :: "('s, 'c, 'e) hyphae \<Rightarrow> 's engine \<Rightarrow> memory \<Rightarrow> i64 \<Rightarrow> ('e, 's engine) outcome" where
  "stir H g m now =
     m_bind (update_affect H g (mem_pad m) [] now) (\<lambda>g.
     m_bind (record_circadian_event H g SessionActive now) (\<lambda>g.
     if Fin 0.5 < emotional_intensity m
     then persist_circadian H
            (g\<lparr>en_circadian := (en_circadian g)\<lparr>cs_factors :=
               record_event (EmotionalSpike (emotional_intensity m)) (cs_factors (en_circadian g))\<rparr>\<rparr>) now
     else m_return g))"

definition carry_out ::
  "('s, 'c, 'e) hyphae \<Rightarrow> ('s, 'e) store_ops \<Rightarrow> rust_env \<Rightarrow> 's engine \<Rightarrow> string \<Rightarrow> remember_request
   \<Rightarrow> memory \<Rightarrow> i16 list \<Rightarrow> ('e, memory \<times> 's engine) outcome" where
  "carry_out H O' E g audit_id req m vec =
     m_bind (put_memory H O' E g (rq_idempotency_key req) m vec) (\<lambda>s.
     m_bind (if is_quarantined m then m_return s
             else index_entities H (lower_case (env_patterns E)) (mem_id m) (entities m) s) (\<lambda>s.
     m_bind (append_audit H (env_b3 E) (en_tenant g) s audit_id Store (mem_id m)
               (Some (content_hash (provenance m))) (rq_purpose req)
               (gov_treatment (request_governance E req))
               (audit_decision_for_enforcement (gov_enforcement (request_governance E req)))
               (governance_reason_codes (request_governance E req)) (rq_now_ms req)) (\<lambda>(_, s).
     m_bind (stir H (g\<lparr>en_store := s\<rparr>) m (rq_now_ms req)) (\<lambda>g.
       m_return (m, g)))))"

definition memory_id_for :: "rust_env \<Rightarrow> 's engine \<Rightarrow> remember_request \<Rightarrow> string \<Rightarrow> string" where
  "memory_id_for E g req fresh_id = (case rq_idempotency_key req of
     None \<Rightarrow> fresh_id
   | Some k \<Rightarrow> deterministic_remember_uuid (env_b3_raw E) (env_uuid_text E) (en_tenant g)
       (user_id (rc_identity (request_context E req))) k)"

definition remember ::
  "('s, 'c, 'e) hyphae \<Rightarrow> ('s, 'e) store_ops \<Rightarrow> rust_env \<Rightarrow> 's engine \<Rightarrow> string \<Rightarrow> string
   \<Rightarrow> remember_request \<Rightarrow> ('e, memory \<times> 's engine) outcome" where
  "remember H O' E g fresh_id audit_id req =
     (if gov_enforcement (request_governance E req) = Enforce_Reject
      then m_fail (EthicsBlocked (blocked_category (env_ethics E (rq_content req)))
                     (ev_violations (env_ethics E (rq_content req))))
      else
        m_bind (Some (quantize (env_q15_ok E) (rq_embedding req) (en_dimension g))) (\<lambda>vec.
        m_bind (ensure_embedding_space (en_space g)
                  (case rq_embedding_space req of None \<Rightarrow> en_space g | Some sp \<Rightarrow> sp)) (\<lambda>_.
        m_bind (require_tenant (en_tenant g) (tenant_id (rc_identity (request_context E req)))) (\<lambda>_.
        if content_hash (rc_provenance (request_context E req)) \<noteq> env_b3 E (rq_content req)
        then m_fail ContentHashMismatch
        else
          let m = new_memory E g req (memory_id_for E g req fresh_id) vec
          in case rq_idempotency_key req of
               None \<Rightarrow> carry_out H O' E g audit_id req m vec
             | Some k \<Rightarrow>
                 m_bind (replay H O' E g k m vec) (\<lambda>done'. case done' of
                   Some r \<Rightarrow> m_return r
                 | None \<Rightarrow> carry_out H O' E g audit_id req m vec)))))"

end
