(* ===== verification/Remember_Example.thy ===== *)
theory Remember_Example
  imports Remember
begin

text \<open>A run of \<open>remember\<close> on the store of \<open>Store_Ops\<close>: an environment whose patterns match nothing and whose digests are the identity, and an empty
  engine: the laws can hold together, and \<open>remember\<close> succeeds there.\<close>

definition quiet_patterns :: text_patterns where
  "quiet_patterns =
     \<lparr>lower_case = (\<lambda>s. s), profanity = (\<lambda>_. False), strong_emotions = (\<lambda>_. False), caps_words = (\<lambda>_. 0),
      repeated_questions = (\<lambda>_. False), high_dominance = [], low_dominance = [],
      procedural_re = (\<lambda>_. False), episodic_re = (\<lambda>_. False), decision_patterns = [],
      entity_patterns = [], emotion_patterns = [], fact_patterns = [], code_patterns = [],
      error_patterns = [], foundational_patterns = [], validation_patterns = [],
      name_matches = (\<lambda>_. []), url_matches = (\<lambda>_. [])\<rparr>"

definition quiet_detectors :: detectors where
  "quiet_detectors =
     \<lparr>email_re = (\<lambda>_. []), phone_re = (\<lambda>_. []), ssn_re = (\<lambda>_. []), card_re = (\<lambda>_. []),
      aws_re = (\<lambda>_. []), bearer_re = (\<lambda>_. []), private_key_re = (\<lambda>_. []), api_key_re = (\<lambda>_. []),
      password_re = (\<lambda>_. []), persistent_instruction_re = [], suspicious_instruction_re = []\<rparr>"

definition quiet_env :: rust_env where
  "quiet_env =
     \<lparr>env_b3 = (\<lambda>x. x), env_b3_raw = (\<lambda>x. take 16 x), env_from_hex = Some, env_uuid_text = (\<lambda>_. ''u1''),
      env_uuid_ok = (\<lambda>_. True), env_f64_bits = (\<lambda>_. replicate 8 CHR 0x00),
      env_q15_ok = (\<lambda>_. True), env_detectors = quiet_detectors, env_patterns = quiet_patterns,
      env_ethics = (\<lambda>_. \<lparr>ev_blocked = False, ev_violations = [], ev_risks = []\<rparr>)\<rparr>"

definition example_space :: embedding_space where
  "example_space = \<lparr>provider = ''p'', model = ''m'', revision = ''1'', dimension = 1, normalization = L2\<rparr>"

definition example_engine :: "vec_state engine" where
  "example_engine =
     \<lparr>en_store = ([], Map.empty), en_tenant = ''local'', en_dimension = 1, en_space = example_space,
      en_limbic_config = default_limbic_config,
      en_affect = \<lparr>af_pad = neutral_pad, af_updated_at_ms = 0\<rparr>,
      en_circadian_config = default_circadian_config, en_factor_weights = default_factor_weights,
      en_circadian = circadian_state_new None\<rparr>"

definition example_request :: "string option \<Rightarrow> remember_request" where
  "example_request key =
     \<lparr>rq_content = ''hi'', rq_embedding = [Fin 1], rq_tags = [], rq_scope = Global,
      rq_importance = Some (Fin 0), rq_now_ms = 7, rq_context = None, rq_embedding_space = None,
      rq_idempotency_key = key, rq_content_role = Observation, rq_purpose = TaskExecution\<rparr>"

lemma vec_audit:
  assumes "key_sorted ds" and "filter (has_prefix audit_key_prefix) ds = []"
  shows "\<exists>e s'. append_audit vec_store b3 tenant (ds, vs) i op subject digest purpose treat dec reasons now
    = Some (Inr (e, s'))"
proof -
  have "audit_entries vec_store (ds, vs) = Some (Inr [])"
    using assms by (simp add: audit_entries_def vec_scan from_scan_def from_store_def from_decode_def)
  then show ?thesis by (simp add: append_audit_def Let_def from_store_def m_return_def)
qed

lemma vec_stir: "\<exists>g'. stir vec_store g m now = Some (Inr g')"
  by (cases "en_store g") (simp add: stir_def update_affect_def record_circadian_event_def persist_circadian_def Let_def
    from_store_def m_return_def split_beta)

lemma example_governance:
  "gov_treatment (request_governance quiet_env (example_request k)) = Treatment_Normal"
  "gov_enforcement (request_governance quiet_env (example_request k)) = Enforce_Allow"
  by (simp_all add: request_governance_def quiet_env_def example_request_def source_trust_of_def classify_governance_def
    detect_poisoning_def quiet_detectors_def detect_redactions_def Let_def raw_redactions_def add_matches_def
    add_capture_matches_def map_filter_simps normalize_spans_def detected_pii_def detected_secrets_def
    treatment_of_def sensitivity_of_def enforcement_of_def)

lemma example_entities: "extract_entities quiet_patterns ''hi'' = []"
proof -
  have "tech_words quiet_patterns ''hi'' = []" by code_simp
  then show ?thesis by (simp add: extract_entities_def quiet_patterns_def)
qed

definition example_new :: "string option \<Rightarrow> memory" where
  "example_new key = new_memory quiet_env example_engine (example_request key)
     (memory_id_for quiet_env example_engine (example_request key) ''m1'') [32767]"

lemma example_new_facts:
  "is_quarantined (example_new key) = False" "entities (example_new key) = []"
  "mem_id (example_new key) = (case key of None \<Rightarrow> ''m1'' | Some k \<Rightarrow> ''u1'')"
proof -
  have "governance (example_new key) = Some (request_governance quiet_env (example_request key))"
    by (simp add: example_new_def new_memory_def Let_def)
  then show "is_quarantined (example_new key) = False"
    by (simp add: is_quarantined_def example_governance)
  show "entities (example_new key) = []"
    by (simp add: example_new_def new_memory_def Let_def example_entities quiet_env_def example_request_def)
  show "mem_id (example_new key) = (case key of None \<Rightarrow> ''m1'' | Some k \<Rightarrow> ''u1'')"
    by (simp add: example_new_def new_memory_def Let_def memory_id_for_def example_request_def
        deterministic_remember_uuid_def quiet_env_def split: option.split)
qed

lemma example_put:
  "\<exists>s. put_memory vec_store vec_ops quiet_env example_engine key (example_new key) [32767] = Some (Inr s)
     \<and> key_sorted (fst s) \<and> filter (has_prefix audit_key_prefix) (fst s) = []"
proof -
  let ?m = "example_new key"
  let ?ds = "case key of None \<Rightarrow> upsert (memory_to_record ?m) []
    | Some k \<Rightarrow> fold upsert [memory_to_record ?m,
            ledger_to_record (env_b3 quiet_env) (en_tenant example_engine) (user_id (identity ?m)) k
              (remember_record_new (mem_id ?m) (canonical_remember_hash (env_b3 quiet_env) ?m [32767]))] []"
  have en: "en_store example_engine = ([], Map.empty)" by (simp add: example_engine_def)
  have "\<exists>vs. put_memory vec_store vec_ops quiet_env example_engine key ?m [32767] = Some (Inr (?ds, vs))"
    unfolding put_memory_def en example_new_facts(1) if_False
    by (cases key) (simp_all only: option.case vec_get_put from_store_def sum.case m_simps, blast+)
  moreover have "key_sorted ?ds"
    by (cases key) (simp_all only: option.case fold.simps o_def id_apply key_sorted_upsert key_sorted_def [of "[]"]
      sorted_wrt.simps)
  moreover have "filter (has_prefix audit_key_prefix) ?ds = []"
  proof -
    have "\<not> prefix audit_key_prefix (mem_id ?m)"
      by (cases key) (simp_all add: example_new_facts audit_key_prefix_def)
    then have "\<not> has_prefix audit_key_prefix (memory_to_record ?m)"
      by (simp only: has_prefix_def memory_to_record_def memory_key_def doc.select_convs not_False_eq_True)
    moreover have "\<not> has_prefix audit_key_prefix (ledger_to_record b3 x u k r)" for b3 x u k r
      by (simp add: ledger_to_record_def has_prefix_def audit_key_prefix_def durable_key_def remember_key_prefix_def)
    ultimately have "d \<in> set ?ds \<Longrightarrow> \<not> has_prefix audit_key_prefix d" for d
      by (cases key) (auto split: if_splits)
    then show ?thesis by (auto simp only: filter_empty_conv)
  qed
  ultimately show ?thesis by (metis fst_conv)
qed

lemma example_carry_out:
  "\<exists>g'. carry_out vec_store vec_ops quiet_env example_engine ''a1'' (example_request key) (example_new key)
     [32767] = Some (Inr (example_new key, g'))"
proof -
  obtain ds vs where put: "put_memory vec_store vec_ops quiet_env example_engine key (example_new key) [32767]
      = Some (Inr (ds, vs))" and "key_sorted ds" "filter (has_prefix audit_key_prefix) ds = []"
    using example_put [of key] by auto
  note audit = vec_audit [OF this(2,3)]
  have key: "rq_idempotency_key (example_request key) = key" by (simp add: example_request_def)
  show ?thesis
    using audit [of "env_b3 quiet_env" "en_tenant example_engine" vs "''a1''" Store "mem_id (example_new key)"]
      vec_stir unfolding carry_out_def key put m_simps example_new_facts(1,2) if_False index_entities.simps
    by (metis (no_types, lifting) m_simps(1,3) case_prod_conv m_return_def)
qed

lemma example_run:
  "\<exists>g'. remember vec_store vec_ops quiet_env example_engine ''m1'' ''a1'' (example_request key)
     = Some (Inr (example_new key, g'))"
proof -
  have q: "quantize (env_q15_ok quiet_env) (rq_embedding (example_request key)) (en_dimension example_engine)
      = Inr [32767]"
    by (simp add: quantize_def quiet_env_def example_request_def example_engine_def round_half_away_def)
  have gates: "gov_enforcement (request_governance quiet_env (example_request key)) \<noteq> Enforce_Reject"
    "rq_embedding_space (example_request key) = None"
    "tenant_id (rc_identity (request_context quiet_env (example_request key))) = en_tenant example_engine"
    "content_hash (rc_provenance (request_context quiet_env (example_request key)))
      = env_b3 quiet_env (rq_content (example_request key))"
    "rq_idempotency_key (example_request key) = key"
    by (simp_all only: example_governance)
      (simp_all add: example_request_def request_context_def remember_context_local_def memory_identity_local_def
        example_engine_def provenance_observed_def quiet_env_def)
  have unused: "replay vec_store vec_ops quiet_env example_engine k m v = m_return None" for k m v
    by (simp add: replay_def find_ledger_def example_engine_def lookup_doc_def from_store_def)
  have space: "ensure_embedding_space (en_space example_engine) (en_space example_engine) = m_return ()"
    by (simp add: ensure_embedding_space_def)
  show ?thesis
    using example_carry_out [of key] unfolding remember_def q gates
    by (cases key) (simp_all add: q gates example_governance space require_tenant_def unused Let_def example_new_def)
qed

end
