(* ===== verification/Entity_Claims.thy ===== *)
theory Entity_Claims
  imports Entity_Index
begin

text \<open>
  What the loops of the entity index do: \<open>index_entities\<close> adds the memory to the entry of each of its
  entities and \<open>unindex_entities\<close> takes it out, and neither touches another document. Both rest on an
  invariant of the index, that an entry is filed under the key of its own name and kind.
\<close>

lemma lookup_own: "key_sorted ds \<Longrightarrow> d \<in> set ds \<Longrightarrow> lookup_doc ds (doc_key d) = Some d"
  by (induction ds) (auto simp: lookup_doc_def key_sorted_def)

definition entity_keys :: "(bytes \<Rightarrow> bytes) \<Rightarrow> extracted_entity list \<Rightarrow> bytes set" where
  "entity_keys low xs = (\<lambda>x. entity_key low (ent_kind x) (ent_name x)) ` set xs"

definition keyed_index :: "(bytes \<Rightarrow> bytes) \<Rightarrow> doc list \<Rightarrow> bool" where
  "keyed_index low ds \<longleftrightarrow>
     (\<forall>d\<in>set ds. prefix entity_prefix (doc_key d) \<longrightarrow>
        (case entity_from_record d of Inl _ \<Rightarrow> True
         | Inr e \<Rightarrow> entity_key low (en_kind e) (en_name e) = doc_key d))"

text \<open>The memories an entry of the index lists; none when there is no entry.\<close>

definition bound_ids :: "doc list \<Rightarrow> bytes \<Rightarrow> string list" where
  "bound_ids ds k = (case lookup_doc ds k of None \<Rightarrow> []
     | Some d \<Rightarrow> (case entity_from_record d of Inl _ \<Rightarrow> [] | Inr e \<Rightarrow> en_memory_ids e))"

definition with_id :: "string \<Rightarrow> string list \<Rightarrow> string list" where
  "with_id i ids = (if i \<in> set ids then ids else ids @ [i])"

lemma with_id_idem [simp]: "with_id i (with_id i ids) = with_id i ids"
  by (simp add: with_id_def)

lemma entity_key_prefix [simp]: "prefix entity_prefix (entity_key low k n)"
  by (simp add: entity_key_def entity_prefix_def)

lemma entity_keys_prefix: "k \<in> entity_keys low xs \<Longrightarrow> prefix entity_prefix k"
  by (auto simp: entity_keys_def)

lemma keyed_indexD:
  assumes "keyed_index low ds" and "lookup_doc ds (entity_key low k n) = Some d"
    and "entity_from_record d = Inr e"
  shows "entity_key low (en_kind e) (en_name e) = entity_key low k n"
proof -
  have d: "d \<in> set ds" "doc_key d = entity_key low k n" using lookup_doc_Some [OF assms(2)] by simp_all
  with assms(1) have "case entity_from_record d of Inl _ \<Rightarrow> True
      | Inr e \<Rightarrow> entity_key low (en_kind e) (en_name e) = doc_key d"
    unfolding keyed_index_def by (metis entity_key_prefix)
  with d(2) assms(3) show ?thesis by simp
qed

lemma keyed_index_upsert: "keyed_index low ds \<Longrightarrow> keyed_index low (upsert (entity_to_record low e) ds)"
proof -
  have own: "entity_key low (en_kind e) (en_name e) = doc_key (entity_to_record low e)"
    by (simp add: entity_to_record_def)
  assume "keyed_index low ds"
  moreover have "case entity_from_record (entity_to_record low e) of Inl _ \<Rightarrow> True
      | Inr f \<Rightarrow> entity_key low (en_kind f) (en_name f) = doc_key (entity_to_record low e)"
    unfolding entity_roundtrip by (simp add: own)
  moreover have "d \<in> set (upsert x ds) \<Longrightarrow> d = x \<or> d \<in> set ds" for d x
    using set_upsert [of x ds] by blast
  ultimately show ?thesis unfolding keyed_index_def by blast
qed

lemma keyed_index_filter: "keyed_index low ds \<Longrightarrow> keyed_index low (filter P ds)"
  by (simp add: keyed_index_def)

lemma bound_ids_put:
  assumes "key_sorted ds"
  shows "bound_ids (upsert (entity_to_record low e) ds) k =
    (if k = entity_key low (en_kind e) (en_name e) then en_memory_ids e else bound_ids ds k)"
  by (simp add: bound_ids_def lookup_upsert [OF assms] entity_roundtrip)
    (simp add: entity_to_record_def)

section \<open>Indexing\<close>

lemma index_entities_effect:
  fixes H :: "('s, 'c, 'e) hyphae"
  assumes st: "faithful_store H valid rows rest" and ops: "faithful_ops H O' valid rows vecs"
    and low: "\<And>n. low (low n) = low n"
  shows "index_entities H low i xs s = Some (Inr s') \<Longrightarrow> valid s \<Longrightarrow> keyed_index low (rows s)
    \<Longrightarrow> valid s' \<and> vecs s' = vecs s \<and> keyed_index low (rows s')
      \<and> (\<forall>k. k \<notin> entity_keys low xs \<longrightarrow> lookup_doc (rows s') k = lookup_doc (rows s) k)
      \<and> (\<forall>k\<in>entity_keys low xs. bound_ids (rows s') k = with_id i (bound_ids (rows s) k))"
proof (induction xs arbitrary: s)
  case Nil
  then show ?case by (simp add: m_return_def entity_keys_def)
next
  case (Cons x xs)
  let ?k = "entity_key low (ent_kind x) (ent_name x)"
  have keys: "entity_keys low (x # xs) = insert ?k (entity_keys low xs)" by (simp add: entity_keys_def)
  note sorted = faithful_storeD(1) [OF st Cons.prems(2)]
  obtain found e t where get: "hy_get H s ?k = Inr found"
    and e: "(case found of Some rec \<Rightarrow> from_decode (entity_from_record rec)
       | None \<Rightarrow> m_return \<lparr>en_name = low (ent_name x), en_kind = ent_kind x,
                           en_salience = ent_salience x, en_memory_ids = []\<rparr>)
        = (Some (Inr e) :: ('e, entity_record) outcome)"
    and put: "hy_put H s (entity_to_record low (bind_entity i x e)) = Inr t"
    and tail: "index_entities H low i xs t = Some (Inr s')"
    using Cons.prems(1) by (auto simp only: index_entities.simps m_bind_Inr from_store_Inr)
  have found: "found = lookup_doc (rows s) ?k" using faithful_storeD(2) [OF st Cons.prems(2) get] .
  have entry: "entity_key low (en_kind e) (en_name e) = ?k \<and> en_memory_ids e = bound_ids (rows s) ?k"
  proof (cases found)
    case None
    with e found low show ?thesis by (auto simp: bound_ids_def entity_key_def m_return_def)
  next
    case (Some rec)
    with e have "entity_from_record rec = Inr e" by (simp add: from_decode_def split: sum.splits)
    with Some found keyed_indexD [OF Cons.prems(3)] show ?thesis by (simp add: bound_ids_def)
  qed
  have bound: "entity_key low (en_kind (bind_entity i x e)) (en_name (bind_entity i x e)) = ?k"
    "en_memory_ids (bind_entity i x e) = with_id i (bound_ids (rows s) ?k)"
    using entry by (simp_all add: bind_entity_def with_id_def)
  note t = faithful_storeD(3) [OF st Cons.prems(2) put] faithful_opsD(1) [OF ops Cons.prems(2) put]
  have rows: "rows t = upsert (entity_to_record low (bind_entity i x e)) (rows s)" using t(1) by blast
  have key: "doc_key (entity_to_record low (bind_entity i x e)) = ?k"
    using bound(1) by (simp add: entity_to_record_def)
  have one: "lookup_doc (rows t) k = lookup_doc (rows s) k" if "k \<noteq> ?k" for k
    unfolding rows using that by (simp add: lookup_upsert [OF sorted] key)
  have ids: "bound_ids (rows t) k = (if k = ?k then with_id i (bound_ids (rows s) k) else bound_ids (rows s) k)" for k
    unfolding rows by (simp add: bound_ids_put [OF sorted] bound)
  have "keyed_index low (rows t)" unfolding rows by (rule keyed_index_upsert [OF Cons.prems(3)])
  note ih = Cons.IH [OF tail conjunct1 [OF t(1)] this]
  have "bound_ids (rows s') k = with_id i (bound_ids (rows s) k)" if k: "k \<in> entity_keys low (x # xs)" for k
  proof (cases "k \<in> entity_keys low xs")
    case True
    with ih ids show ?thesis by simp
  next
    case False
    with ih have "bound_ids (rows s') k = bound_ids (rows t) k" by (simp add: bound_ids_def)
    with k False ids show ?thesis by (simp add: keys)
  qed
  with ih t(2) one show ?case by (simp add: keys)
qed

section \<open>Taking a memory out\<close>

lemma lookup_deleted:
  "lookup_doc (filter (\<lambda>d. doc_key d \<noteq> k) ds) j = (if j = k then None else lookup_doc ds j)"
  by (induction ds) (auto simp: lookup_doc_def)

lemma unindex_entities_effect:
  fixes H :: "('s, 'c, 'e) hyphae"
  assumes st: "faithful_store H valid rows rest" and ops: "faithful_ops H O' valid rows vecs"
  shows "unindex_entities H O' b3 q15_ok low i xs s = Some (Inr s') \<Longrightarrow> valid s \<Longrightarrow> keyed_index low (rows s)
    \<Longrightarrow> valid s' \<and> vecs s' = vecs s \<and> keyed_index low (rows s')
      \<and> (\<forall>k. k \<notin> entity_keys low xs \<longrightarrow> lookup_doc (rows s') k = lookup_doc (rows s) k)
      \<and> (\<forall>k\<in>entity_keys low xs. bound_ids (rows s') k = filter (\<lambda>j. j \<noteq> i) (bound_ids (rows s) k))"
proof (induction xs arbitrary: s)
  case Nil
  then show ?case by (simp add: m_return_def entity_keys_def)
next
  case (Cons x xs)
  let ?k = "entity_key low (ent_kind x) (ent_name x)"
  have keys: "entity_keys low (x # xs) = insert ?k (entity_keys low xs)" by (simp add: entity_keys_def)
  note sorted = faithful_storeD(1) [OF st Cons.prems(2)]
  have "\<exists>t. unindex_entities H O' b3 q15_ok low i xs t = Some (Inr s') \<and> valid t \<and> vecs t = vecs s
      \<and> keyed_index low (rows t) \<and> (\<forall>k. k \<noteq> ?k \<longrightarrow> lookup_doc (rows t) k = lookup_doc (rows s) k)
      \<and> bound_ids (rows t) ?k = filter (\<lambda>j. j \<noteq> i) (bound_ids (rows s) ?k)"
  proof -
    obtain found where get: "hy_get H s ?k = Inr found"
      and run: "(case found of None \<Rightarrow> unindex_entities H O' b3 q15_ok low i xs s
     | Some rec \<Rightarrow>
         m_bind (from_decode (entity_from_record rec)) (\<lambda>e.
         let e = e\<lparr>en_memory_ids := filter (\<lambda>j. j \<noteq> i) (en_memory_ids e)\<rparr>
         in if en_memory_ids e = []
            then m_bind (from_store (op_delete O' s ?k)) (unindex_entities H O' b3 q15_ok low i xs)
            else m_bind (entity_salience H b3 q15_ok s e (en_memory_ids e) (Fin 0)) (\<lambda>sal.
                 m_bind (from_store (hy_put H s (entity_to_record low (e\<lparr>en_salience := sal\<rparr>))))
                   (unindex_entities H O' b3 q15_ok low i xs)))) = Some (Inr s')"
      using Cons.prems(1) by (auto simp only: unindex_entities.simps m_bind_Inr from_store_Inr)
    note found = faithful_storeD(2) [OF st Cons.prems(2) get]
    show ?thesis
    proof (cases found)
      case None
      with run found have "unindex_entities H O' b3 q15_ok low i xs s = Some (Inr s')"
        and "bound_ids (rows s) ?k = []" by (simp_all add: bound_ids_def)
      with Cons.prems(2,3) show ?thesis by auto
    next
      case (Some rec)
      with run obtain e where e: "entity_from_record rec = Inr e"
        by (auto simp: m_bind_Inr from_decode_def split: sum.splits)
      let ?e = "e\<lparr>en_memory_ids := filter (\<lambda>j. j \<noteq> i) (en_memory_ids e)\<rparr>"
      have key: "entity_key low (en_kind e) (en_name e) = ?k"
        using keyed_indexD [OF Cons.prems(3) _ e] found Some by simp
      have old: "bound_ids (rows s) ?k = en_memory_ids e"
        unfolding bound_ids_def found [symmetric] Some by (simp add: e)
      show ?thesis
      proof (cases "en_memory_ids ?e = []")
        case True
        with run Some e obtain t where del: "op_delete O' s ?k = Inr t"
          and tail: "unindex_entities H O' b3 q15_ok low i xs t = Some (Inr s')"
          by (auto simp: m_bind_Inr from_decode_def Let_def)
        note t = faithful_opsD(3) [OF ops Cons.prems(2) del]
        then have "bound_ids (rows t) ?k = []" by (simp add: bound_ids_def lookup_deleted)
        with True tail t keyed_index_filter [OF Cons.prems(3)] show ?thesis
          by (intro exI [of _ t]) (simp add: lookup_deleted old)
      next
        case False
        with run Some e obtain sal t where put: "hy_put H s (entity_to_record low (?e\<lparr>en_salience := sal\<rparr>)) = Inr t"
          and tail: "unindex_entities H O' b3 q15_ok low i xs t = Some (Inr s')"
          by (auto simp: m_bind_Inr from_decode_def Let_def)
        note t = faithful_storeD(3) [OF st Cons.prems(2) put] faithful_opsD(1) [OF ops Cons.prems(2) put]
        have rows: "rows t = upsert (entity_to_record low (?e\<lparr>en_salience := sal\<rparr>)) (rows s)" using t(1) by blast
        have dk: "doc_key (entity_to_record low (?e\<lparr>en_salience := sal\<rparr>)) = ?k"
          using key by (simp add: entity_to_record_def)
        show ?thesis
          using tail t keyed_index_upsert [OF Cons.prems(3)] unfolding rows
          by (intro exI [of _ t]) (simp add: rows lookup_upsert [OF sorted] dk bound_ids_put [OF sorted] key old)
      qed
    qed
  qed
  then obtain t where tail: "unindex_entities H O' b3 q15_ok low i xs t = Some (Inr s')"
    and t: "valid t" "vecs t = vecs s" "keyed_index low (rows t)"
    and other: "\<And>k. k \<noteq> ?k \<Longrightarrow> lookup_doc (rows t) k = lookup_doc (rows s) k"
    and own: "bound_ids (rows t) ?k = filter (\<lambda>j. j \<noteq> i) (bound_ids (rows s) ?k)" by blast
  note ih = Cons.IH [OF tail t(1,3)]
  have "bound_ids (rows s') k = filter (\<lambda>j. j \<noteq> i) (bound_ids (rows s) k)"
    if k: "k \<in> entity_keys low (x # xs)" for k
  proof -
    have "bound_ids (rows t) k = bound_ids (rows s) k" if "k \<noteq> ?k"
      using other [OF that] by (simp add: bound_ids_def)
    moreover have "bound_ids (rows s') k = bound_ids (rows t) k" if "k \<notin> entity_keys low xs"
      using ih that by (simp add: bound_ids_def)
    moreover have "bound_ids (rows s') k = filter (\<lambda>j. j \<noteq> i) (bound_ids (rows t) k)" if "k \<in> entity_keys low xs"
      using ih that by simp
    ultimately show ?thesis using k own unfolding keys
      by (cases "k = ?k"; cases "k \<in> entity_keys low xs") auto
  qed
  with ih t(2) other show ?case by (simp add: keys)
qed

end
