(* ===== verification/Remember_Claims.thy ===== *)
theory Remember_Claims
  imports Remember_Example Entity_Claims
begin

text \<open>
  What \<open>remember\<close> guarantees: the memory is stored with its vector and ledger, nothing but the
  engine's own documents is touched besides, quarantined content stays out of every index, and a
  retry under the same key returns the memory without writing a document.
\<close>

section \<open>The documents an engine keeps about itself\<close>

definition mood_key :: "bytes \<Rightarrow> bool" where
  "mood_key k \<longleftrightarrow> k = affect_state_key \<or> k = circadian_state_key"

definition state_key :: "bytes \<Rightarrow> bool" where
  "state_key k \<longleftrightarrow> prefix audit_key_prefix k \<or> mood_key k"

definition engine_key :: "bytes \<Rightarrow> bool" where
  "engine_key k \<longleftrightarrow> prefix entity_prefix k \<or> state_key k"

text \<open>\<open>keeps Q\<close>: a step that writes documents whose key satisfies \<open>Q\<close> only.\<close>

definition keeps ::
  "(bytes \<Rightarrow> bool) \<Rightarrow> ('s \<Rightarrow> bool) \<Rightarrow> ('s \<Rightarrow> doc list) \<Rightarrow> ('s \<Rightarrow> bytes \<Rightarrow> i16 list option) \<Rightarrow> 's \<Rightarrow> 's \<Rightarrow> bool" where
  "keeps Q valid rows vecs s s' \<longleftrightarrow> valid s'
     \<and> (\<forall>k. \<not> Q k \<longrightarrow> lookup_doc (rows s') k = lookup_doc (rows s) k) \<and> vecs s' = vecs s"

lemma keeps_refl: "valid s \<Longrightarrow> keeps Q valid rows vecs s s"
  by (simp add: keeps_def)

lemma keeps_trans: "keeps Q valid rows vecs s t \<Longrightarrow> keeps Q valid rows vecs t u \<Longrightarrow> keeps Q valid rows vecs s u"
  by (simp add: keeps_def)

lemma keeps_put:
  assumes "faithful_store H valid rows rest" and "faithful_ops H O' valid rows vecs" and "valid s"
    and "hy_put H s d = Inr s'" and "Q (doc_key d)"
  shows "keeps Q valid rows vecs s s'"
proof -
  note s' = faithful_storeD(3) [OF assms(1,3,4)]
  have "lookup_doc (rows s') k = lookup_doc (rows s) k" if "\<not> Q k" for k
    unfolding conjunct2 [OF s'] lookup_upsert [OF faithful_storeD(1) [OF assms(1,3)]]
    using that assms(5) by auto
  with s' faithful_opsD(1) [OF assms(2,3,4)] show ?thesis by (simp add: keeps_def)
qed

lemma keeps_mono: "keeps P valid rows vecs s s' \<Longrightarrow> (\<And>k. P k \<Longrightarrow> Q k) \<Longrightarrow> keeps Q valid rows vecs s s'"
  by (auto simp: keeps_def)

lemma engine_keys [simp]:
  "engine_key (entity_key low kind n)" "state_key (audit_key i)" "mood_key affect_state_key"
  "mood_key circadian_state_key" "mood_key k \<Longrightarrow> state_key k" "state_key k \<Longrightarrow> engine_key k"
  by (simp_all add: engine_key_def state_key_def mood_key_def entity_key_def entity_prefix_def audit_key_def
      audit_key_prefix_def)

lemma index_entities_keeps:
  fixes H :: "('s, 'c, 'e) hyphae"
  assumes "faithful_store H valid rows rest" and "faithful_ops H O' valid rows vecs"
  shows "valid s \<Longrightarrow> index_entities H low i xs s = Some (Inr s') \<Longrightarrow> keeps engine_key valid rows vecs s s'"
proof (induction xs arbitrary: s)
  case Nil
  then show ?case by (simp add: keeps_refl)
next
  case (Cons x xs)
  obtain e s1 where put: "hy_put H s (entity_to_record low e) = Inr s1"
    and tail: "index_entities H low i xs s1 = Some (Inr s')"
    using Cons.prems(2) by (auto simp: m_bind_Inr)
  have "engine_key (doc_key (entity_to_record low e))" by (simp add: entity_to_record_def)
  from keeps_put [where Q = engine_key, OF assms Cons.prems(1) put this] have 1: "keeps engine_key valid rows vecs s s1" .
  then have "valid s1" by (simp add: keeps_def)
  from keeps_trans [OF 1 Cons.IH [OF this tail]] show ?case .
qed

lemma append_audit_keeps:
  fixes H :: "('s, 'c, 'e) hyphae"
  assumes "faithful_store H valid rows rest" and "faithful_ops H O' valid rows vecs" and "valid s"
    and "append_audit H b3 tenant s i op subject digest purpose treat dec reasons now = Some (Inr (e, s'))"
  shows "keeps (\<lambda>k. k = audit_key i) valid rows vecs s s'"
    and "lookup_doc (rows s') (audit_key i) = Some (audit_to_record e)"
proof -
  have put: "hy_put H s (audit_to_record e) = Inr s'" and id: "ae_id e = i"
    using append_audit_Inr [OF assms(4)] by blast+
  have key: "doc_key (audit_to_record e) = audit_key i" by (simp add: audit_to_record_def id)
  show "keeps (\<lambda>k. k = audit_key i) valid rows vecs s s'"
    by (rule keeps_put [where Q = "\<lambda>k. k = audit_key i", OF assms(1-3) put key])
  show "lookup_doc (rows s') (audit_key i) = Some (audit_to_record e)"
    using faithful_storeD(3) [OF assms(1,3) put] lookup_upsert [OF faithful_storeD(1) [OF assms(1,3)]] key
    by simp
qed

lemma persist_circadian_keeps:
  fixes H :: "('s, 'c, 'e) hyphae"
  assumes "faithful_store H valid rows rest" and "faithful_ops H O' valid rows vecs"
    and "valid (en_store g)" and "persist_circadian H g now = Some (Inr g')"
  shows "keeps mood_key valid rows vecs (en_store g) (en_store g')"
proof -
  obtain c s' where put: "hy_put H (en_store g) (circadian_to_record c) = Inr s'"
    and g': "en_store g' = s'"
    using assms(4) by (auto simp: persist_circadian_def Let_def m_bind_Inr)
  have "mood_key (doc_key (circadian_to_record c))" by (simp add: circadian_to_record_def Let_def)
  from keeps_put [where Q = mood_key, OF assms(1-3) put this] show ?thesis by (simp add: g')
qed

lemma stir_keeps:
  fixes H :: "('s, 'c, 'e) hyphae"
  assumes "faithful_store H valid rows rest" and "faithful_ops H O' valid rows vecs"
    and "valid (en_store g)" and "stir H g m now = Some (Inr g')"
  shows "keeps mood_key valid rows vecs (en_store g) (en_store g')"
proof -
  obtain g1 g2 where 1: "update_affect H g (mem_pad m) [] now = Some (Inr g1)"
    and 2: "record_circadian_event H g1 SessionActive now = Some (Inr g2)"
    and 3: "(if Fin 0.5 < emotional_intensity m
       then persist_circadian H (g2\<lparr>en_circadian := (en_circadian g2)\<lparr>cs_factors :=
         record_event (EmotionalSpike (emotional_intensity m)) (cs_factors (en_circadian g2))\<rparr>\<rparr>) now
       else m_return g2) = Some (Inr g')"
    using assms(4) unfolding stir_def m_bind_Inr by blast
  from 1 obtain a s1 where put: "hy_put H (en_store g) (affect_to_record a) = Inr s1"
    and g1: "en_store g1 = s1" by (auto simp: update_affect_def Let_def m_bind_Inr)
  have "mood_key (doc_key (affect_to_record a))" by (simp add: affect_to_record_def)
  from keeps_put [where Q = mood_key, OF assms(1-3) put this] have k1: "keeps mood_key valid rows vecs (en_store g) (en_store g1)"
    by (simp add: g1)
  then have "valid (en_store g1)" by (simp add: keeps_def)
  with persist_circadian_keeps [OF assms(1,2) _ 2 [unfolded record_circadian_event_def]]
  have k2: "keeps mood_key valid rows vecs (en_store g1) (en_store g2)" by simp
  then have v2: "valid (en_store g2)" by (simp add: keeps_def)
  have "keeps mood_key valid rows vecs (en_store g2) (en_store g')"
  proof (cases "Fin 0.5 < emotional_intensity m")
    case True
    note run = 3 [unfolded if_P [OF True]]
    from persist_circadian_keeps [OF assms(1,2) _ run] v2 show ?thesis by simp
  next
    case False
    with 3 v2 show ?thesis by (simp add: keeps_refl)
  qed
  with k1 k2 show ?thesis by (metis keeps_trans)
qed

section \<open>Carrying out\<close>

lemma put_memory_Inr:
  assumes st: "faithful_store H valid rows rest" "faithful_ops H O' valid rows vecs"
    and v: "valid (en_store g)"
    and run: "put_memory H O' E g key m vec = Some (Inr s')"
    and distinct: "\<And>k. key = Some k \<Longrightarrow>
      durable_key (env_b3 E) (en_tenant g) (user_id (identity m)) k \<noteq> mem_id m"
  shows "valid s' \<and> lookup_doc (rows s') (mem_id m) = Some (memory_to_record m)
    \<and> (case key of None \<Rightarrow> True | Some k \<Rightarrow>
        lookup_doc (rows s') (durable_key (env_b3 E) (en_tenant g) (user_id (identity m)) k)
        = Some (ledger_to_record (env_b3 E) (en_tenant g) (user_id (identity m)) k
             (remember_record_new (mem_id m) (canonical_remember_hash (env_b3 E) m vec))))
    \<and> (\<forall>j. j \<noteq> mem_id m \<longrightarrow>
        (\<forall>k. key = Some k \<longrightarrow> j \<noteq> durable_key (env_b3 E) (en_tenant g) (user_id (identity m)) k) \<longrightarrow>
        lookup_doc (rows s') j = lookup_doc (rows (en_store g)) j)
    \<and> vecs s' = (if is_quarantined m then vecs (en_store g) else (vecs (en_store g))(mem_id m \<mapsto> vec))"
proof -
  have mk: "doc_key (memory_to_record m) = mem_id m" by (simp add: memory_to_record_def memory_key_def)
  have sorted: "key_sorted (rows (en_store g))" by (rule faithful_storeD(1) [OF st(1) v])
  obtain s1 where w: "(case key of
         Some k \<Rightarrow> op_put_records O' (en_store g)
           [memory_to_record m,
            ledger_to_record (env_b3 E) (en_tenant g) (user_id (identity m)) k
              (remember_record_new (mem_id m) (canonical_remember_hash (env_b3 E) m vec))]
       | None \<Rightarrow> hy_put H (en_store g) (memory_to_record m)) = Inr s1"
    and rest: "(if is_quarantined m then m_return s1
       else from_store (op_put_vectors O' s1 [(mem_id m, vec)])) = Some (Inr s')"
    using run unfolding put_memory_def m_bind_Inr from_store_Inr by blast
  have s1: "valid s1 \<and> vecs s1 = vecs (en_store g)
    \<and> (\<forall>j. lookup_doc (rows s1) j =
        (case key of
           None \<Rightarrow> (if mem_id m = j then Some (memory_to_record m) else lookup_doc (rows (en_store g)) j)
         | Some k \<Rightarrow>
            (if durable_key (env_b3 E) (en_tenant g) (user_id (identity m)) k = j
             then Some (ledger_to_record (env_b3 E) (en_tenant g) (user_id (identity m)) k
               (remember_record_new (mem_id m) (canonical_remember_hash (env_b3 E) m vec)))
             else if mem_id m = j then Some (memory_to_record m)
             else lookup_doc (rows (en_store g)) j)))"
  proof (cases key)
    case None
    with w have put: "hy_put H (en_store g) (memory_to_record m) = Inr s1" by simp
    note f = faithful_storeD(3) [OF st(1) v put]
    show ?thesis using f faithful_opsD(1) [OF st(2) v put] None lookup_upsert [OF sorted] mk by simp
  next
    case (Some k)
    let ?l = "ledger_to_record (env_b3 E) (en_tenant g) (user_id (identity m)) k
               (remember_record_new (mem_id m) (canonical_remember_hash (env_b3 E) m vec))"
    from w Some have put: "op_put_records O' (en_store g) [memory_to_record m, ?l] = Inr s1" by simp
    note f = faithful_opsD(2) [OF st(2) v put]
    have "rows s1 = upsert ?l (upsert (memory_to_record m) (rows (en_store g)))" using f by simp
    moreover have "doc_key ?l = durable_key (env_b3 E) (en_tenant g) (user_id (identity m)) k"
      by (simp add: ledger_to_record_def)
    ultimately show ?thesis
      using f Some mk lookup_upsert [OF key_sorted_upsert [OF sorted]] lookup_upsert [OF sorted] by simp
  qed
  have s': "valid s' \<and> rows s' = rows s1
    \<and> vecs s' = (if is_quarantined m then vecs s1 else (vecs s1)(mem_id m \<mapsto> vec))"
  proof (cases "is_quarantined m")
    case True
    with rest s1 show ?thesis by simp
  next
    case False
    with rest have "op_put_vectors O' s1 [(mem_id m, vec)] = Inr s'" by simp
    from faithful_opsD(4) [OF st(2) conjunct1 [OF s1] this] False show ?thesis by simp
  qed
  show ?thesis
  proof (cases key)
    case None
    with s1 s' show ?thesis by simp
  next
    case (Some k)
    with s1 s' distinct [OF Some] show ?thesis by simp
  qed
qed

lemma carry_outE:
  fixes H :: "('s, 'c, 'e) hyphae"
  assumes "carry_out H O' E g audit_id req m vec = Some (Inr (m', g'))"
  obtains s1 s2 e s3 where "m' = m"
    and "put_memory H O' E g (rq_idempotency_key req) m vec = Some (Inr s1)"
    and "(if is_quarantined m then m_return s1
          else index_entities H (lower_case (env_patterns E)) (mem_id m) (entities m) s1) = Some (Inr s2)"
    and "append_audit H (env_b3 E) (en_tenant g) s2 audit_id Store (mem_id m)
               (Some (content_hash (provenance m))) (rq_purpose req)
               (gov_treatment (request_governance E req))
               (audit_decision_for_enforcement (gov_enforcement (request_governance E req)))
               (governance_reason_codes (request_governance E req)) (rq_now_ms req) = Some (Inr (e, s3))"
    and "stir H (g\<lparr>en_store := s3\<rparr>) m (rq_now_ms req) = Some (Inr g')"
  using assms unfolding carry_out_def by (auto simp only: m_bind_Inr split_paired_Ex prod.case m_return_Inr prod.inject)

lemma carry_out_keeps:
  fixes H :: "('s, 'c, 'e) hyphae"
  assumes st: "faithful_store H valid rows rest" "faithful_ops H O' valid rows vecs"
    and v: "valid (en_store g)"
    and run: "carry_out H O' E g audit_id req m vec = Some (Inr (m', g'))"
    and distinct: "\<And>k. rq_idempotency_key req = Some k \<Longrightarrow>
      durable_key (env_b3 E) (en_tenant g) (user_id (identity m)) k \<noteq> mem_id m"
  obtains s1 where "m' = m"
    and "put_memory H O' E g (rq_idempotency_key req) m vec = Some (Inr s1)"
    and "keeps (if is_quarantined m then state_key else engine_key) valid rows vecs s1 (en_store g')"
proof -
  obtain s1 s2 e s3 where m': "m' = m"
    and put: "put_memory H O' E g (rq_idempotency_key req) m vec = Some (Inr s1)"
    and index: "(if is_quarantined m then m_return s1
          else index_entities H (lower_case (env_patterns E)) (mem_id m) (entities m) s1) = Some (Inr s2)"
    and audit: "append_audit H (env_b3 E) (en_tenant g) s2 audit_id Store (mem_id m)
               (Some (content_hash (provenance m))) (rq_purpose req)
               (gov_treatment (request_governance E req))
               (audit_decision_for_enforcement (gov_enforcement (request_governance E req)))
               (governance_reason_codes (request_governance E req)) (rq_now_ms req) = Some (Inr (e, s3))"
    and stir': "stir H (g\<lparr>en_store := s3\<rparr>) m (rq_now_ms req) = Some (Inr g')"
    using run by (rule carry_outE)
  let ?Q = "if is_quarantined m then state_key else engine_key"
  have Q: "mood_key k \<Longrightarrow> ?Q k" "k = audit_key audit_id \<Longrightarrow> ?Q k" for k by simp_all
  have v1: "valid s1" using put_memory_Inr [OF st v put distinct] by blast
  have k1: "keeps ?Q valid rows vecs s1 s2"
  proof (cases "is_quarantined m")
    case True
    with index v1 show ?thesis by (simp add: keeps_refl)
  next
    case False
    with index index_entities_keeps [OF st v1] show ?thesis by simp
  qed
  then have v2: "valid s2" by (simp add: keeps_def)
  note k2 = append_audit_keeps(1) [OF st v2 audit]
  then have v3: "valid (en_store (g\<lparr>en_store := s3\<rparr>))" by (simp add: keeps_def)
  note k3 = stir_keeps [OF st v3 stir']
  have "keeps ?Q valid rows vecs s2 (en_store g')"
    using keeps_trans [OF keeps_mono [OF k2 Q(2)]] keeps_mono [OF k3 Q(1)] by simp
  from keeps_trans [OF k1 this] have "keeps ?Q valid rows vecs s1 (en_store g')" .
  with m' put show ?thesis by (rule that)
qed

lemma remember_unkeyed:
  fixes H :: "('s, 'c, 'e) hyphae"
  assumes "remember H O' E g fresh_id audit_id req = Some (Inr (m, g'))"
  obtains vec where "quantize (env_q15_ok E) (rq_embedding req) (en_dimension g)
      = (Inr vec :: 'e engine_error + i16 list)"
    and "gov_enforcement (request_governance E req) \<noteq> Enforce_Reject"
    and "tenant_id (rc_identity (request_context E req)) = en_tenant g"
    and "content_hash (rc_provenance (request_context E req)) = env_b3 E (rq_content req)"
    and "(case rq_idempotency_key req of
        None \<Rightarrow> carry_out H O' E g audit_id req (new_memory E g req (memory_id_for E g req fresh_id) vec) vec
      | Some k \<Rightarrow>
          m_bind (replay H O' E g k (new_memory E g req (memory_id_for E g req fresh_id) vec) vec)
            (\<lambda>done'. case done' of
               Some r \<Rightarrow> m_return r
             | None \<Rightarrow> carry_out H O' E g audit_id req
                 (new_memory E g req (memory_id_for E g req fresh_id) vec) vec)) = Some (Inr (m, g'))"
proof -
  have gate: "gov_enforcement (request_governance E req) \<noteq> Enforce_Reject"
    using assms by (auto simp: remember_def)
  obtain vec where q: "quantize (env_q15_ok E) (rq_embedding req) (en_dimension g)
      = (Inr vec :: 'e engine_error + i16 list)"
    and sp: "m_bind (ensure_embedding_space (en_space g)
                  (case rq_embedding_space req of None \<Rightarrow> en_space g | Some sp \<Rightarrow> sp)) (\<lambda>_.
        m_bind (require_tenant (en_tenant g) (tenant_id (rc_identity (request_context E req)))) (\<lambda>_.
        if content_hash (rc_provenance (request_context E req)) \<noteq> env_b3 E (rq_content req)
        then m_fail ContentHashMismatch
        else
          let m = new_memory E g req (memory_id_for E g req fresh_id) vec
          in case rq_idempotency_key req of
               None \<Rightarrow> carry_out H O' E g audit_id req m vec
             | Some k \<Rightarrow>
                 m_bind (replay H O' E g k m vec) (\<lambda>done'. case done' of
                   Some r \<Rightarrow> m_return r
                 | None \<Rightarrow> carry_out H O' E g audit_id req m vec))) = Some (Inr (m, g'))"
    using assms gate unfolding remember_def by (simp only: if_False m_bind_Inr) auto
  from sp have ten: "tenant_id (rc_identity (request_context E req)) = en_tenant g"
    and hash: "content_hash (rc_provenance (request_context E req)) = env_b3 E (rq_content req)"
    by (auto simp: m_bind_Inr require_tenant_def split: if_splits)
  from sp have "(case rq_idempotency_key req of
        None \<Rightarrow> carry_out H O' E g audit_id req (new_memory E g req (memory_id_for E g req fresh_id) vec) vec
      | Some k \<Rightarrow>
          m_bind (replay H O' E g k (new_memory E g req (memory_id_for E g req fresh_id) vec) vec)
            (\<lambda>done'. case done' of
               Some r \<Rightarrow> m_return r
             | None \<Rightarrow> carry_out H O' E g audit_id req
                 (new_memory E g req (memory_id_for E g req fresh_id) vec) vec)) = Some (Inr (m, g'))"
    unfolding m_bind_Inr Let_def hash by simp
  with q gate ten hash show ?thesis by (rule that)
qed

section \<open>An unkeyed write, document by document\<close>

lemma keyed_index_same:
  assumes "key_sorted ds'" and "\<And>k. prefix entity_prefix k \<Longrightarrow> lookup_doc ds' k = lookup_doc ds k"
    and "keyed_index low ds"
  shows "keyed_index low ds'"
  unfolding keyed_index_def
proof (intro ballI impI)
  fix d assume d: "d \<in> set ds'" and p: "prefix entity_prefix (doc_key d)"
  have "lookup_doc ds (doc_key d) = Some d" using lookup_own [OF assms(1) d] assms(2) [OF p] by simp
  then have "d \<in> set ds" using lookup_doc_Some by metis
  with assms(3) p show "case entity_from_record d of Inl _ \<Rightarrow> True
      | Inr e \<Rightarrow> entity_key low (en_kind e) (en_name e) = doc_key d"
    unfolding keyed_index_def by blast
qed

lemma entity_not_state:
  assumes "prefix entity_prefix k"
  shows "k \<noteq> audit_key i" and "\<not> mood_key k"
  using assms
  by (auto simp: prefix_def entity_prefix_def audit_key_def audit_key_prefix_def mood_key_def affect_state_key_def
      circadian_state_key_def)

lemma audit_not_mood: "\<not> mood_key (audit_key i)"
  by (simp add: mood_key_def audit_key_def audit_key_prefix_def affect_state_key_def circadian_state_key_def)

text \<open>The entity entries after the memory is bound to them.\<close>

definition index_grown :: "(bytes \<Rightarrow> bytes) \<Rightarrow> memory \<Rightarrow> doc list \<Rightarrow> doc list \<Rightarrow> bool" where
  "index_grown low m ds ds' \<longleftrightarrow>
     (\<forall>k\<in>entity_keys low (entities m). bound_ids ds' k = with_id (mem_id m) (bound_ids ds k))"

lemma carry_out_effect:
  fixes H :: "('s, 'c, 'e) hyphae"
  assumes st: "faithful_store H valid rows rest" "faithful_ops H O' valid rows vecs"
    and v: "valid (en_store g)"
    and low: "\<And>n. lower_case (env_patterns E) (lower_case (env_patterns E) n) = lower_case (env_patterns E) n"
    and keyed: "keyed_index (lower_case (env_patterns E)) (rows (en_store g))"
    and unkeyed: "rq_idempotency_key req = None" and own: "\<not> engine_key (mem_id m)"
    and run: "carry_out H O' E g audit_id req m vec = Some (Inr (m', g'))"
  shows "m' = m"
    and "lookup_doc (rows (en_store g')) (mem_id m) = Some (memory_to_record m)"
    and "\<exists>e. lookup_doc (rows (en_store g')) (audit_key audit_id) = Some (audit_to_record e)
      \<and> ae_operation e = Store \<and> ae_subject_id e = mem_id m
      \<and> ae_content_digest e = Some (content_hash (provenance m))
      \<and> ae_decision e = audit_decision_for_enforcement (gov_enforcement (request_governance E req))"
    and "\<forall>k. k \<noteq> mem_id m \<longrightarrow> k \<noteq> audit_key audit_id \<longrightarrow> \<not> mood_key k
      \<longrightarrow> (\<not> is_quarantined m \<longrightarrow> k \<notin> entity_keys (lower_case (env_patterns E)) (entities m))
      \<longrightarrow> lookup_doc (rows (en_store g')) k = lookup_doc (rows (en_store g)) k"
    and "vecs (en_store g') = (if is_quarantined m then vecs (en_store g) else (vecs (en_store g))(mem_id m \<mapsto> vec))"
    and "\<not> is_quarantined m \<Longrightarrow>
      index_grown (lower_case (env_patterns E)) m (rows (en_store g)) (rows (en_store g'))"
proof -
  let ?low = "lower_case (env_patterns E)"
  obtain s1 s2 e s3 where m': "m' = m"
    and put: "put_memory H O' E g (rq_idempotency_key req) m vec = Some (Inr s1)"
    and index: "(if is_quarantined m then m_return s1
          else index_entities H ?low (mem_id m) (entities m) s1) = Some (Inr s2)"
    and audit: "append_audit H (env_b3 E) (en_tenant g) s2 audit_id Store (mem_id m)
               (Some (content_hash (provenance m))) (rq_purpose req)
               (gov_treatment (request_governance E req))
               (audit_decision_for_enforcement (gov_enforcement (request_governance E req)))
               (governance_reason_codes (request_governance E req)) (rq_now_ms req) = Some (Inr (e, s3))"
    and stir': "stir H (g\<lparr>en_store := s3\<rparr>) m (rq_now_ms req) = Some (Inr g')"
    using run by (rule carry_outE)
  show "m' = m" by (rule m')
  note f1 = put_memory_Inr [OF st v put, unfolded unkeyed option.case, simplified]
  have k1: "keyed_index ?low (rows s1)"
  proof (rule keyed_index_same [OF _ _ keyed])
    show "key_sorted (rows s1)" using faithful_storeD(1) [OF st(1)] f1 by blast
    show "lookup_doc (rows s1) k = lookup_doc (rows (en_store g)) k" if "prefix entity_prefix k" for k
      using f1 own that by (auto simp: engine_key_def)
  qed
  have f2: "valid s2" "vecs s2 = vecs s1"
    "\<And>k. (\<not> is_quarantined m \<longrightarrow> k \<notin> entity_keys ?low (entities m)) \<Longrightarrow> lookup_doc (rows s2) k = lookup_doc (rows s1) k"
    "\<not> is_quarantined m \<Longrightarrow> index_grown ?low m (rows s1) (rows s2)"
  proof -
    have "is_quarantined m \<Longrightarrow> s2 = s1" using index by simp
    moreover have "\<not> is_quarantined m \<Longrightarrow> index_entities H ?low (mem_id m) (entities m) s1 = Some (Inr s2)"
      using index by simp
    moreover note index_entities_effect [OF st low _ conjunct1 [OF f1] k1]
    ultimately show "valid s2" "vecs s2 = vecs s1"
      "\<And>k. (\<not> is_quarantined m \<longrightarrow> k \<notin> entity_keys ?low (entities m)) \<Longrightarrow> lookup_doc (rows s2) k = lookup_doc (rows s1) k"
      "\<not> is_quarantined m \<Longrightarrow> index_grown ?low m (rows s1) (rows s2)"
      using f1 unfolding index_grown_def by metis+
  qed
  note f3 = append_audit_keeps [OF st f2(1) audit]
  from f3(1) have v3: "valid (en_store (g\<lparr>en_store := s3\<rparr>))" by (simp add: keeps_def)
  note f4 = stir_keeps [OF st v3 stir']
  have late: "lookup_doc (rows (en_store g')) k = lookup_doc (rows s2) k"
    if "k \<noteq> audit_key audit_id" "\<not> mood_key k" for k
    using f3(1) f4 that by (simp add: keeps_def)
  have own': "mem_id m \<noteq> audit_key audit_id" "\<not> mood_key (mem_id m)"
    "mem_id m \<notin> entity_keys ?low (entities m)"
    using own entity_keys_prefix engine_keys(2,5,6) by (metis, metis, auto simp: engine_key_def entity_keys_prefix)
  show "lookup_doc (rows (en_store g')) (mem_id m) = Some (memory_to_record m)"
    using late [OF own'(1,2)] f2(3) own'(3) f1 by simp
  have "lookup_doc (rows (en_store g')) (audit_key audit_id) = Some (audit_to_record e)"
    using f4 f3(2) audit_not_mood by (simp add: keeps_def)
  then show "\<exists>e. lookup_doc (rows (en_store g')) (audit_key audit_id) = Some (audit_to_record e)
      \<and> ae_operation e = Store \<and> ae_subject_id e = mem_id m
      \<and> ae_content_digest e = Some (content_hash (provenance m))
      \<and> ae_decision e = audit_decision_for_enforcement (gov_enforcement (request_governance E req))"
    using append_audit_Inr [OF audit] by blast
  show "\<forall>k. k \<noteq> mem_id m \<longrightarrow> k \<noteq> audit_key audit_id \<longrightarrow> \<not> mood_key k
      \<longrightarrow> (\<not> is_quarantined m \<longrightarrow> k \<notin> entity_keys ?low (entities m))
      \<longrightarrow> lookup_doc (rows (en_store g')) k = lookup_doc (rows (en_store g)) k"
    using late f2(3) f1 by simp
  show "vecs (en_store g') = (if is_quarantined m then vecs (en_store g) else (vecs (en_store g))(mem_id m \<mapsto> vec))"
    using f4 f3(1) f2(2) f1 by (simp add: keeps_def)
  show "index_grown ?low m (rows (en_store g)) (rows (en_store g'))" if q: "\<not> is_quarantined m"
    unfolding index_grown_def
  proof
    fix k assume k: "k \<in> entity_keys ?low (entities m)"
    note p = entity_keys_prefix [OF k]
    have "bound_ids (rows (en_store g')) k = bound_ids (rows s2) k"
      using late entity_not_state [OF p] by (simp add: bound_ids_def)
    moreover have "bound_ids (rows s2) k = with_id (mem_id m) (bound_ids (rows s1) k)"
      using f2(4) [OF q] k by (simp add: index_grown_def)
    moreover have "bound_ids (rows s1) k = bound_ids (rows (en_store g)) k"
      using f1 own p by (auto simp: bound_ids_def engine_key_def)
    ultimately show "bound_ids (rows (en_store g')) k = with_id (mem_id m) (bound_ids (rows (en_store g)) k)"
      by simp
  qed
qed

text \<open>
  The memory a request asks for, field by field: what the caller gave, what the classifiers say of the
  content, and the values a new memory starts with.
\<close>

definition as_requested ::
  "rust_env \<Rightarrow> 's engine \<Rightarrow> remember_request \<Rightarrow> string \<Rightarrow> i16 list \<Rightarrow> memory \<Rightarrow> bool" where
  "as_requested E g req i vec m \<longleftrightarrow>
     mem_id m = i \<and> schema_version m = 3 \<and> mem_revision m = 1
     \<and> content m = rq_content req \<and> tags m = rq_tags req \<and> mem_scope m = rq_scope req
     \<and> (case rq_context req of
          Some c \<Rightarrow> identity m = rc_identity c \<and> provenance m = rc_provenance c
            \<and> event_at_ms m = rc_event_at_ms c \<and> ingested_at_ms m = rc_ingested_at_ms c
        | None \<Rightarrow> identity m = memory_identity_local
            \<and> provenance m = provenance_observed (env_b3 E) User (rq_content req) None None None
            \<and> event_at_ms m = None \<and> ingested_at_ms m = rq_now_ms req)
     \<and> governance m = Some (request_governance E req)
     \<and> embedding_space m = Some (en_space g) \<and> mem_vector m = Some vec
     \<and> importance m = (case rq_importance req of
          Some x \<Rightarrow> f64_clamp x 0 1 | None \<Rightarrow> fst (classify_importance (env_patterns E) (rq_content req)))
     \<and> mem_pad m = extract_pad (env_patterns E) (rq_content req)
     \<and> memory_type m = classify_memory_type (env_patterns E) (rq_content req)
     \<and> entities m = extract_entities (env_patterns E) (rq_content req)
     \<and> strength m = Fin 1 \<and> mem_state m = Active \<and> retrieval_count m = 0 \<and> consolidation_count m = 0
     \<and> created_at_ms m = rq_now_ms req \<and> updated_at_ms m = rq_now_ms req
     \<and> last_retrieved_at_ms m = rq_now_ms req"

lemma new_memory_as_requested: "as_requested E g req i vec (new_memory E g req i vec)"
  by (simp add: as_requested_def new_memory_def Let_def request_context_def remember_context_local_def
      split: option.split)

text \<open>
  C1. A successful \<open>remember\<close> without a key stored exactly the memory that was asked for: it passed the
  ethics gate, belongs to the engine's tenant, has the digest its provenance claims, and every field is
  the requested or classified one. Its document is read back under the new id, the audit trail holds the
  entry of the decision under the new audit id, and, unless the content is quarantined, its vector is
  stored and the entry of each of its entities gained its id and lost none. No other document changes,
  apart from the two that hold the mood and the circadian state.
\<close>

theorem remember_stores_memory:
  fixes H :: "('s, 'c, 'e) hyphae"
  assumes "faithful_store H valid rows rest" and "faithful_ops H O' valid rows vecs"
    and "valid (en_store g)" and "rq_idempotency_key req = None" and "\<not> engine_key fresh_id"
    and "\<And>n. lower_case (env_patterns E) (lower_case (env_patterns E) n) = lower_case (env_patterns E) n"
    and "keyed_index (lower_case (env_patterns E)) (rows (en_store g))"
    and "remember H O' E g fresh_id audit_id req = Some (Inr (m, g'))"
  shows "tenant_id (identity m) = en_tenant g
    \<and> content_hash (provenance m) = env_b3 E (content m)
    \<and> gov_enforcement (request_governance E req) \<noteq> Enforce_Reject
    \<and> lookup_doc (rows (en_store g')) fresh_id = Some (memory_to_record m)
    \<and> (\<exists>e. lookup_doc (rows (en_store g')) (audit_key audit_id) = Some (audit_to_record e)
         \<and> ae_operation e = Store \<and> ae_subject_id e = fresh_id
         \<and> ae_content_digest e = Some (content_hash (provenance m))
         \<and> ae_decision e = audit_decision_for_enforcement (gov_enforcement (request_governance E req)))
    \<and> (\<exists>vec. quantize (env_q15_ok E) (rq_embedding req) (en_dimension g)
           = (Inr vec :: 'e engine_error + i16 list)
         \<and> as_requested E g req fresh_id vec m
         \<and> vecs (en_store g') = (if is_quarantined m then vecs (en_store g)
             else (vecs (en_store g))(fresh_id \<mapsto> vec)))
    \<and> (\<not> is_quarantined m \<longrightarrow>
         index_grown (lower_case (env_patterns E)) m (rows (en_store g)) (rows (en_store g')))
    \<and> (\<forall>k. k \<noteq> fresh_id \<longrightarrow> k \<noteq> audit_key audit_id \<longrightarrow> k \<noteq> affect_state_key \<longrightarrow> k \<noteq> circadian_state_key
         \<longrightarrow> (\<not> is_quarantined m \<longrightarrow> k \<notin> entity_keys (lower_case (env_patterns E)) (entities m))
         \<longrightarrow> lookup_doc (rows (en_store g')) k = lookup_doc (rows (en_store g)) k)"
proof -
  obtain vec where q: "quantize (env_q15_ok E) (rq_embedding req) (en_dimension g)
      = (Inr vec :: 'e engine_error + i16 list)"
    and gate: "gov_enforcement (request_governance E req) \<noteq> Enforce_Reject"
    and ten: "tenant_id (rc_identity (request_context E req)) = en_tenant g"
    and hash: "content_hash (rc_provenance (request_context E req)) = env_b3 E (rq_content req)"
    and run: "carry_out H O' E g audit_id req (new_memory E g req fresh_id vec) vec = Some (Inr (m, g'))"
    using remember_unkeyed [OF assms(8)] assms(4) by (auto simp: memory_id_for_def)
  let ?m = "new_memory E g req fresh_id vec"
  have fields: "mem_id ?m = fresh_id" "identity ?m = rc_identity (request_context E req)"
    "content ?m = rq_content req" "provenance ?m = rc_provenance (request_context E req)"
    by (simp_all add: new_memory_def Let_def)
  note effect = carry_out_effect [OF assms(1-3,6,7,4) _ run, unfolded fields(1), OF assms(5)]
  have "as_requested E g req fresh_id vec m" unfolding effect(1) by (rule new_memory_as_requested)
  then show ?thesis
    using effect q gate ten hash fields unfolding effect(1) mood_key_def by (intro conjI) auto
qed

theorem remember_stores_memory_witness:
  "\<exists>g'. remember vec_store vec_ops quiet_env example_engine ''m1'' ''a1'' (example_request None)
     = Some (Inr (example_new None, g'))
   \<and> lookup_doc (fst (en_store g')) ''m1'' = Some (memory_to_record (example_new None))"
proof -
  obtain g' where run: "remember vec_store vec_ops quiet_env example_engine ''m1'' ''a1'' (example_request None)
     = Some (Inr (example_new None, g'))" using example_run by blast
  have "\<not> engine_key ''m1''"
    by (simp add: engine_key_def state_key_def mood_key_def entity_prefix_def audit_key_prefix_def
        affect_state_key_def circadian_state_key_def)
  moreover have "(key_sorted \<circ> fst) (en_store example_engine)"
    "keyed_index low (fst (en_store example_engine))" for low
    by (simp_all add: example_engine_def key_sorted_def keyed_index_def)
  moreover have "rq_idempotency_key (example_request None) = None" by (simp add: example_request_def)
  moreover have "lower_case (env_patterns quiet_env) n = n" for n
    by (simp add: quiet_env_def quiet_patterns_def)
  ultimately have "lookup_doc (fst (en_store g')) ''m1'' = Some (memory_to_record (example_new None))"
    using remember_stores_memory [OF vec_store_faithful vec_ops_faithful _ _ _ _ _ run] by simp
  with run show ?thesis by blast
qed

end
