(* ===== verification/Ethics_Policy.thy ===== *)
theory Ethics_Policy
  imports Ethics_Claims Remember_Claims
begin

text \<open>
  The ethics evaluation inside the engine: the verdict \<open>remember\<close> takes from the
  pipeline, and what follows for a text with a severe word, from the scan of the lexicon to what is
  disclosed of the memory. The last section holds the witnesses of the ethics properties.
\<close>

section \<open>The verdict\<close>

text \<open>The evaluation always returns (\<open>gate_contract\<close>).\<close>

definition layered_verdict :: "ethics_patterns \<Rightarrow> bytes \<Rightarrow> ethics_verdict" where
  "layered_verdict P s =
     (let r = the (evaluate_ethics P s None)
      in \<lparr>ev_blocked = fu_enforcement_blocked r,
          ev_violations = map (category_as_str \<circ> vi_category) (el_violations (fu_layer_a r)),
          ev_risks = map rk_category (lb_risks (fu_layer_b r))\<rparr>)"

lemma layer_a_blocks:
  assumes "evaluate P s = Some a" and "el_enforcement_blocked a"
  shows "ev_blocked (layered_verdict P s)"
    and "ev_violations (layered_verdict P s) = map (category_as_str \<circ> vi_category) (el_violations a)"
  using assms by (simp_all add: layered_verdict_def evaluate_ethics_def Let_def)

lemma severe_word_verdict:
  assumes "e \<in> set lexicon" and "\<not> lx_living_target e" and "\<not> lx_technical e"
    and "snd (thresholds (lx_category e)) \<le> lx_weight e"
    and "ep_lower P s = pre @ lx_term e @ post" and "whole_word P pre post"
    and "\<not> is_meta_context P (ep_lower P s)"
  shows "ev_blocked (layered_verdict P s)" and "ev_violations (layered_verdict P s) \<noteq> []"
proof -
  obtain a v where a: "evaluate P s = Some a" "el_enforcement_blocked a" "v \<in> set (el_violations a)"
    using severe_violation [OF assms] by blast
  from layer_a_blocks [OF a(1,2)] a(3)
  show "ev_blocked (layered_verdict P s)" "ev_violations (layered_verdict P s) \<noteq> []" by auto
qed

text \<open>What a successful write without a key returns carries the classification of its request.\<close>

lemma unkeyed_governance:
  fixes H :: "('s, 'c, 'e) hyphae"
  assumes "remember H O' E g fresh_id audit_id req = Some (Inr (m, g'))" and "rq_idempotency_key req = None"
  shows "governance m = Some (request_governance E req)"
    and "gov_enforcement (request_governance E req) \<noteq> Enforce_Reject"
proof -
  obtain vec where "carry_out H O' E g audit_id req (new_memory E g req (memory_id_for E g req fresh_id) vec) vec
      = Some (Inr (m, g'))" and gate: "gov_enforcement (request_governance E req) \<noteq> Enforce_Reject"
    using remember_unkeyed [OF assms(1)] assms(2) by auto
  then have "m = new_memory E g req (memory_id_for E g req fresh_id) vec" by (elim carry_outE)
  then show "governance m = Some (request_governance E req)" by (simp add: new_memory_def Let_def)
  show "gov_enforcement (request_governance E req) \<noteq> Enforce_Reject" by (rule gate)
qed

text \<open>
  C6. Severe content is contained from end to end. When the text of a request has a severe word outside a
  meta context, the classification restricts it, or quarantines it when it is also an embedded
  instruction of an untrusted source; so neither an agent nor a third party is ever shown it or a
  redaction of it. An operational request with such a text is refused before anything is written, unless
  it is quarantined; and what a write without a key stores of such a text carries this classification, so
  an operational request is stored in quarantine or not at all.
\<close>

theorem severe_content_contained:
  fixes H :: "('s, 'c, 'e) hyphae"
  assumes "env_ethics E = layered_verdict P"
    and "e \<in> set lexicon" and "\<not> lx_living_target e" and "\<not> lx_technical e"
    and "snd (thresholds (lx_category e)) \<le> lx_weight e"
    and "ep_lower P (rq_content req) = pre @ lx_term e @ post" and "whole_word P pre post"
    and "\<not> is_meta_context P (ep_lower P (rq_content req))"
  shows "gov_treatment (request_governance E req) =
      (if trust_level_of (source_trust_of (rq_context req)) = Trust_Untrusted
          \<and> detect_poisoning (env_detectors E) (rq_content req) \<noteq> Poisoning_None
       then Treatment_Quarantined else Treatment_Restricted)
    \<and> disclosure_class_of (gov_treatment (request_governance E req)) Agent purpose
        \<in> {Disclose_Restrict, Disclose_Abstain}
    \<and> disclosure_class_of (gov_treatment (request_governance E req)) ThirdParty purpose
        \<in> {Disclose_Restrict, Disclose_Abstain}
    \<and> (rq_content_role req = OperationalRequest \<longrightarrow>
        gov_treatment (request_governance E req) = Treatment_Quarantined
        \<or> (\<exists>c cs. remember H O' E g fresh_id audit_id req = Some (Inl (EthicsBlocked c (c # cs)))))
    \<and> (\<forall>m g'. rq_idempotency_key req = None \<longrightarrow> remember H O' E g fresh_id audit_id req = Some (Inr (m, g')) \<longrightarrow>
        governance m = Some (request_governance E req)
        \<and> (rq_content_role req = OperationalRequest \<longrightarrow> is_quarantined m))"
proof -
  note v = severe_word_verdict [OF assms(2-8)]
  let ?g = "request_governance E req"
  have t: "gov_treatment ?g = (if trust_level_of (source_trust_of (rq_context req)) = Trust_Untrusted
          \<and> detect_poisoning (env_detectors E) (rq_content req) \<noteq> Poisoning_None
       then Treatment_Quarantined else Treatment_Restricted)"
    using v(1) by (simp add: request_governance_def classify_governance_def Let_def treatment_of_def assms(1))
  have reject: "gov_enforcement ?g = Enforce_Reject"
    if "rq_content_role req = OperationalRequest" "gov_treatment ?g \<noteq> Treatment_Quarantined"
    using that v(1) by (simp add: request_governance_def classify_governance_def Let_def enforcement_of_def assms(1))
  have refuse: "\<exists>c cs. remember H O' E g fresh_id audit_id req = Some (Inl (EthicsBlocked c (c # cs)))"
    if "rq_content_role req = OperationalRequest" "gov_treatment ?g \<noteq> Treatment_Quarantined"
    using reject [OF that] v(2)
    by (cases "ev_violations (layered_verdict P (rq_content req))")
      (simp_all add: remember_def m_fail_def blocked_category_def assms(1))
  have stored: "governance m = Some ?g \<and> (rq_content_role req = OperationalRequest \<longrightarrow> is_quarantined m)"
    if "rq_idempotency_key req = None" "remember H O' E g fresh_id audit_id req = Some (Inr (m, g'))" for m g'
    using unkeyed_governance [OF that(2,1)] reject by (auto simp: is_quarantined_def)
  from t have "disclosure_class_of (gov_treatment ?g) Agent purpose \<in> {Disclose_Restrict, Disclose_Abstain}"
    "disclosure_class_of (gov_treatment ?g) ThirdParty purpose \<in> {Disclose_Restrict, Disclose_Abstain}" by auto
  with t refuse stored show ?thesis by blast
qed

section \<open>Examples\<close>

text \<open>Patterns that match nothing, except one meta signal.\<close>

definition quiet_ethics :: ethics_patterns where
  "quiet_ethics =
     \<lparr>ep_lower = (\<lambda>s. s), ep_alphanumeric = (\<lambda>_. False), ep_technical = [],
      ep_meta = [\<lambda>s. contains s ''ethics engine''], ep_living = [], ep_volitional = [],
      ep_groups = (\<lambda>_ _. []), ep_hate = (\<lambda>_ _ _. None), ep_vulnerability = [], ep_permanent = [],
      ep_cbrn = (\<lambda>_. False), ep_operational = (\<lambda>_. False)\<rparr>"

lemma quiet_ethics_simps [simp]:
  "ep_lower quiet_ethics s = s" "structural_matches quiet_ethics s = []"
  by (simp_all add: quiet_ethics_def structural_matches_def detect_structural_hate_def)

lemma lexicon_member:
  "lex ''murder'' ViolenceHarm 0.95 False False \<in> set lexicon"
  "lex ''suicide'' SelfHarm 0.7 False True \<in> set lexicon"
  by (simp_all add: lexicon_def)

lemma quiet_meta: "is_meta_context quiet_ethics s = contains s ''ethics engine''"
  by (simp add: is_meta_context_def any_match_def quiet_ethics_def)

lemma quiet_words:
  "whole_word quiet_ethics ''a '' []" "whole_word quiet_ethics [] []"
  "\<not> contains ''a murder'' ''ethics engine''" "\<not> contains ''suicide'' ''ethics engine''"
  unfolding whole_word_def quiet_ethics_def by code_simp+

definition threat :: remember_request where
  "threat = (example_request None)\<lparr>rq_content := ''a murder'', rq_content_role := OperationalRequest\<rparr>"

lemma threat_not_quarantined:
  "gov_treatment (request_governance (quiet_env\<lparr>env_ethics := v\<rparr>) threat) \<noteq> Treatment_Quarantined"
  by (simp add: request_governance_def quiet_env_def threat_def example_request_def source_trust_of_def
      classify_governance_def detect_poisoning_def quiet_detectors_def Let_def treatment_of_def)

theorem severe_content_contained_witness:
  "\<exists>c cs. remember vec_store vec_ops (quiet_env\<lparr>env_ethics := layered_verdict quiet_ethics\<rparr>)
     example_engine ''m1'' ''a1'' threat = Some (Inl (EthicsBlocked c (c # cs)))"
  using severe_content_contained [of "quiet_env\<lparr>env_ethics := layered_verdict quiet_ethics\<rparr>" quiet_ethics
      "lex ''murder'' ViolenceHarm 0.95 False False" threat "''a ''" "[]" TaskExecution vec_store vec_ops
      example_engine "''m1''" "''a1''"]
    lexicon_member(1) quiet_words threat_not_quarantined
  by (simp add: lex_def quiet_meta threat_def)

theorem meta_context_only_structural_witness:
  "\<exists>a. evaluate quiet_ethics ''the ethics engine must know murder'' = Some a \<and> el_passed a"
proof -
  obtain a where a: "evaluate quiet_ethics ''the ethics engine must know murder'' = Some a"
    using evaluate_run by blast
  have "contains ''the ethics engine must know murder'' ''ethics engine''" by code_simp
  with meta_context_only_structural [OF _ a] a show ?thesis by (simp add: quiet_meta)
qed

lemma suicide_not_technical: "is_technical_context quiet_ethics ''suicide'' 0 = Some False"
proof -
  have "find_sub (drop 0 ''suicide'') ''```'' = None" by code_simp
  then have "inside_delimiter ''suicide'' 0 ''```'' = Some False"
    by (simp add: inside_delimiter_def delimiter_loop.simps)
  moreover have "\<not> inside_inline_code ''suicide'' 0" by (simp add: inside_inline_code_def)
  ultimately show ?thesis by (simp add: is_technical_context_def quiet_ethics_def Let_def)
qed

theorem protected_subjects_enforced_witness:
  "\<exists>r. evaluate_ethics quiet_ethics ''suicide'' None = Some r \<and> fu_enforcement_blocked r"
proof -
  let ?e = "lex ''suicide'' SelfHarm 0.7 False True"
  obtain st where run: "evaluate quiet_ethics ''suicide'' = Some (judge quiet_ethics ''suicide'' False st)"
    and sc: "scanned quiet_ethics ''suicide'' st"
    using evaluate_run [of quiet_ethics "''suicide''"] quiet_words(4) by (auto simp: quiet_meta)
  let ?f = "\<lparr>fl_term = lx_term ?e, fl_category = lx_category ?e, fl_raw_weight = Fin (lx_weight ?e),
    fl_effective_weight = Fin 0.7, fl_suppressed = False\<rparr>"
  have "?f \<in> set (sc_flags st)"
  proof (rule whole_word_flagged [OF sc lexicon_member(2) _ quiet_words(2)])
    show "ep_lower quiet_ethics ''suicide'' = [] @ lx_term ?e @ []" by (simp add: lex_def)
    show "disambiguate quiet_ethics (ep_lower quiet_ethics ''suicide'')
        (is_meta_context quiet_ethics (ep_lower quiet_ethics ''suicide'')) ?e (length []) = Some (Fin 0.7, False, False)"
      using quiet_words(4) suicide_not_technical by (simp add: disambiguate_def quiet_meta lex_def)
  qed
  moreover obtain r where r: "evaluate_ethics quiet_ethics ''suicide'' None = Some r"
    "fu_layer_a r = judge quiet_ethics ''suicide'' False st"
    by (simp add: evaluate_ethics_def run Let_def)
  ultimately have "?f \<in> set (el_flags (fu_layer_a r))" by simp
  from protected_subjects_enforced [OF r(1) this] r(1) show ?thesis by (simp add: lex_def)
qed

text \<open>The loss at two statements of the tables: the second alone blocks, after the first it does not.\<close>

definition statement :: "bytes \<Rightarrow> real \<Rightarrow> ethics_category \<Rightarrow> structural_match" where
  "statement tail c cat = \<lparr>st_pattern_type = ''forced_action'', st_group = ''developmentally handicapped people'',
     st_matched_text = ''developmentally handicapped people should be '' @ tail, st_confidence = Fin c,
     st_category = cat\<rparr>"

theorem structural_violation_lost_witness:
  "list_ex vi_blocked (structural_matches_to_violations [statement ''sterilized'' 0.88 HateSpeech])
   \<and> \<not> list_ex vi_blocked (structural_matches_to_violations
         [statement ''treated'' 0.8 Autonomy, statement ''sterilized'' 0.88 HateSpeech])"
proof -
  have "take_chars 40 (st_matched_text (statement ''treated'' 0.8 Autonomy))
      = take_chars 40 (st_matched_text (statement ''sterilized'' 0.88 HateSpeech))"
    unfolding statement_def structural_match.simps by code_simp
  then show ?thesis
    by (subst structural_violation_lost)
      (simp_all add: statement_def structural_matches_to_violations_def)
qed

end
