(* ===== verification/Audit_Runs.thy ===== *)
theory Audit_Runs
  imports Audit_Engine Governance_Policy Ethics_Policy
begin

text \<open>
  What the audited operations guarantee: every evaluation leaves a verifiable record of its decision
  and feedback never touches the trail.
\<close>

lemma enforcement_allowed:
  "(gov_enforcement g = Enforce_Allow \<or> gov_enforcement g = Enforce_AllowRestricted)
   \<longleftrightarrow> audit_decision_for_enforcement (gov_enforcement g) \<in> {Audit_Allow, Audit_Restrict}"
  by (cases "gov_enforcement g") simp_all

text \<open>
  \<open>evaluate_action\<close>: the ethics evaluation and the classification of the content, and the audit entry
  that records the answer. Parameters: the pattern matchers \<open>D\<close> of the governance rules and \<open>P\<close> of
  the ethics pipeline.
\<close>

definition evaluate_action ::
  "('s, 'c, 'e) hyphae \<Rightarrow> (bytes \<Rightarrow> string) \<Rightarrow> detectors \<Rightarrow> ethics_patterns \<Rightarrow> string \<Rightarrow> 's \<Rightarrow> string
   \<Rightarrow> bytes \<Rightarrow> source_kind \<Rightarrow> memory_purpose \<Rightarrow> i64 \<Rightarrow> ('e, action_decision \<times> 's) outcome" where
  "evaluate_action H b3 D P tenant s i body kind purpose now =
     Option.bind (evaluate_ethics P body None) (\<lambda>ethics.
     let g = classify_governance D body (source_trust_of (Some (action_context b3 body kind now)))
               OperationalRequest purpose now (fu_enforcement_blocked ethics);
         allowed = (gov_enforcement g = Enforce_Allow \<or> gov_enforcement g = Enforce_AllowRestricted)
     in m_bind
          (append_audit H b3 tenant s i Ingest ''action'' (Some (b3 body)) purpose
             (gov_treatment g) (audit_decision_for_enforcement (gov_enforcement g))
             (governance_reason_codes g) now)
          (\<lambda>(e, s'). m_return
             (\<lparr>ad_allowed = allowed, ad_governance = g, ad_audit = e\<rparr>, s')))"

lemma evaluate_action_Inr:
  fixes H :: "('s, 'c, 'e) hyphae"
  assumes "evaluate_action H b3 D P tenant s i body kind purpose now = Some (Inr (d, s'))"
  obtains r where "evaluate_ethics P body None = Some r"
    and "append_audit H b3 tenant s i Ingest ''action'' (Some (b3 body)) purpose
      (gov_treatment (ad_governance d))
      (audit_decision_for_enforcement (gov_enforcement (ad_governance d)))
      (governance_reason_codes (ad_governance d)) now = Some (Inr (ad_audit d, s'))"
    and "ad_governance d = classify_governance D body
      (source_trust_of (Some (action_context b3 body kind now))) OperationalRequest purpose now
      (fu_enforcement_blocked r)"
    and "ad_allowed d \<longleftrightarrow> gov_enforcement (ad_governance d) = Enforce_Allow
      \<or> gov_enforcement (ad_governance d) = Enforce_AllowRestricted"
proof -
  obtain r where r: "evaluate_ethics P body None = Some r"
    using assms by (auto simp: evaluate_action_def bind_eq_Some_conv)
  let ?g = "classify_governance D body
    (source_trust_of (Some (action_context b3 body kind now))) OperationalRequest purpose now
    (fu_enforcement_blocked r)"
  obtain x where a: "append_audit H b3 tenant s i Ingest ''action'' (Some (b3 body)) purpose
      (gov_treatment ?g) (audit_decision_for_enforcement (gov_enforcement ?g))
      (governance_reason_codes ?g) now = Some (Inr x)"
    and d: "(case x of (e, s') \<Rightarrow> m_return
      (\<lparr>ad_allowed = gov_enforcement ?g = Enforce_Allow \<or> gov_enforcement ?g = Enforce_AllowRestricted,
        ad_governance = ?g, ad_audit = e\<rparr>, s'))
      = (Some (Inr (d, s')) :: ('e, action_decision \<times> 's) outcome)"
    using assms unfolding evaluate_action_def r Option.bind.simps Let_def m_bind_Inr
    by (elim exE conjE) (rule that)
  obtain e s2 where x: "x = (e, s2)" by (cases x)
  from d have d: "d = \<lparr>ad_allowed = gov_enforcement ?g = Enforce_Allow
      \<or> gov_enforcement ?g = Enforce_AllowRestricted, ad_governance = ?g, ad_audit = e\<rparr>" "s2 = s'"
    unfolding x by (simp_all only: prod.case m_return_Inr prod.inject)
  show ?thesis
    by (rule that [OF r]) (use a in \<open>simp_all only: d x action_decision.simps\<close>)
qed

text \<open>The policy on a proposed action, from what the detectors and the pipeline say of its content.\<close>

definition action_poisoned :: "detectors \<Rightarrow> bytes \<Rightarrow> source_kind \<Rightarrow> bool" where
  "action_poisoned D body kind \<longleftrightarrow>
     kind \<noteq> User \<and> kind \<noteq> System \<and> detect_poisoning D body \<noteq> Poisoning_None"

definition action_answer :: "detectors \<Rightarrow> bytes \<Rightarrow> source_kind \<Rightarrow> bool \<Rightarrow> audit_decision" where
  "action_answer D body kind blocked =
     (if action_poisoned D body kind then Audit_Quarantine
      else if blocked then Audit_Reject
      else if detect_poisoning D body \<noteq> Poisoning_None \<or> detect_redactions D body \<noteq> []
        then Audit_Restrict
      else Audit_Allow)"

lemma sensitivity_none:
  "sensitivity_of (detected_pii spans) (detected_secrets spans) = Sensitivity_None \<longleftrightarrow> spans = []"
proof
  assume "sensitivity_of (detected_pii spans) (detected_secrets spans) = Sensitivity_None"
  then have "set (detected_pii spans) = {}" "set (detected_secrets spans) = {}"
    by (auto simp: sensitivity_of_def split: if_splits)
  then have none: "\<forall>s\<in>set spans. (\<forall>k. span_category s \<noteq> Pii k) \<and> (\<forall>k. span_category s \<noteq> Secret k)"
    unfolding set_detected_pii set_detected_secrets by auto
  show "spans = []"
  proof (cases spans)
    case (Cons s rest)
    with none show ?thesis by (cases "span_category s") auto
  qed simp
next
  assume "spans = []"
  then show "sensitivity_of (detected_pii spans) (detected_secrets spans) = Sensitivity_None"
    by (simp add: sensitivity_of_def detected_pii_def detected_secrets_def List.map_filter_def)
qed

lemma action_decision_exact:
  "audit_decision_for_enforcement (gov_enforcement (classify_governance D body
      (source_trust_of (Some (action_context b3 body kind now))) OperationalRequest purpose now blocked))
   = action_answer D body kind blocked"
proof -
  have trust: "trust_level_of (source_trust_of (Some (action_context b3 body kind now))) = Trust_Untrusted
      \<longleftrightarrow> kind \<noteq> User \<and> kind \<noteq> System"
    by (cases kind) (simp_all add: source_trust_of_def action_context_def provenance_observed_def)
  let ?sens = "sensitivity_of (detected_pii (detect_redactions D body))
      (detected_secrets (detect_redactions D body))"
  have "audit_decision_for_enforcement (gov_enforcement (classify_governance D body
      (source_trust_of (Some (action_context b3 body kind now))) OperationalRequest purpose now blocked))
    = audit_decision_for_enforcement (enforcement_of (treatment_of
        (trust_level_of (source_trust_of (Some (action_context b3 body kind now))))
        (detect_poisoning D body) ?sens blocked) OperationalRequest blocked)"
    by (simp add: classify_governance_def Let_def)
  also have "\<dots> = action_answer D body kind blocked"
    using sensitivity_none [of "detect_redactions D body"] sensitivity_none [of "[]"] trust
    by (simp add: treatment_of_def enforcement_of_def action_answer_def action_poisoned_def)
  finally show ?thesis .
qed

text \<open>
  C31. Evaluating an action appends exactly one audit entry and writes nothing else: the audit chain
  still verifies, the trail is the old one followed by the returned entry, which carries the digest
  of the content, and no other document changes. The answer is the policy's: an embedded instruction
  from a source that is neither the user nor the system is quarantined; otherwise content the ethics
  pipeline blocks is rejected; otherwise the action is allowed, with restrictions exactly when the
  content holds an instruction, personal data or a secret.
\<close>

theorem evaluate_action_audited:
  fixes H :: "('s, 'c, 'e) hyphae"
  assumes "faithful_store H valid rows rest" and "valid s"
    and "valid_entry_id i" and "newest_audit_id (rows s) i"
    and "audit_entries H s = Some (Inr es)" and "acr_valid (verify_audit_chain b3 tenant es)"
    and "evaluate_action H b3 D P tenant s i body kind purpose now = Some (Inr (d, s'))"
  shows "acr_valid (verify_audit_chain b3 tenant (es @ [ad_audit d]))
    \<and> ok_or_hyphae (audit_entries H s') (\<lambda>es'. es' = es @ [ad_audit d])
    \<and> (\<forall>k. k \<noteq> audit_key i \<longrightarrow> lookup_doc (rows s') k = lookup_doc (rows s) k)
    \<and> ae_content_digest (ad_audit d) = Some (b3 body)
    \<and> (\<exists>r. evaluate_ethics P body None = Some r
         \<and> ae_decision (ad_audit d) = action_answer D body kind (fu_enforcement_blocked r)
         \<and> (ad_allowed d \<longleftrightarrow> \<not> action_poisoned D body kind \<and> \<not> fu_enforcement_blocked r))"
proof -
  obtain r where r: "evaluate_ethics P body None = Some r"
    and run: "append_audit H b3 tenant s i Ingest ''action'' (Some (b3 body)) purpose
      (gov_treatment (ad_governance d))
      (audit_decision_for_enforcement (gov_enforcement (ad_governance d)))
      (governance_reason_codes (ad_governance d)) now = Some (Inr (ad_audit d, s'))"
    and g: "ad_governance d = classify_governance D body
      (source_trust_of (Some (action_context b3 body kind now))) OperationalRequest purpose now
      (fu_enforcement_blocked r)"
    and al: "ad_allowed d \<longleftrightarrow> gov_enforcement (ad_governance d) = Enforce_Allow
      \<or> gov_enforcement (ad_governance d) = Enforce_AllowRestricted"
    using assms(7) by (rule evaluate_action_Inr)
  note app = append_audit_appends [OF assms(1-4) run audit_entries_Inr [OF assms(1,2,5)]]
  obtain e: "ae_id (ad_audit d) = i" "ae_tenant_id (ad_audit d) = tenant"
    "ae_content_digest (ad_audit d) = Some (b3 body)"
    "ae_decision (ad_audit d) = audit_decision_for_enforcement (gov_enforcement (ad_governance d))"
    "ae_hash (ad_audit d) = b3 (audit_preimage (ad_audit d))"
    "hy_put H s (audit_to_record (ad_audit d)) = Inr s'"
    using append_audit_Inr [OF run] by (elim exE conjE) (rule that)
  have v: "acr_valid (verify_audit_chain b3 tenant (es @ [ad_audit d]))"
    using chain_after_append assms(6) e(2) app(3) e(5) by blast
  have ok: "ok_or_hyphae (audit_entries H s') (\<lambda>es'. es' = es @ [ad_audit d])"
    by (rule audit_entries_ok [OF assms(1) app(1,2)])
  have "lookup_doc (rows s') k = lookup_doc (rows s) k" if "k \<noteq> audit_key i" for k
    using that lookup_upsert [OF faithful_storeD(1) [OF assms(1,2)]] faithful_storeD(3) [OF assms(1,2) e(6)]
    by (simp add: audit_to_record_def e(1))
  moreover have answer: "ae_decision (ad_audit d) = action_answer D body kind (fu_enforcement_blocked r)"
    unfolding e(4) g by (rule action_decision_exact)
  moreover have "ad_allowed d \<longleftrightarrow> \<not> action_poisoned D body kind \<and> \<not> fu_enforcement_blocked r"
    unfolding al enforcement_allowed e(4) [symmetric] answer by (simp add: action_answer_def)
  ultimately show ?thesis using v ok e(3) r by blast
qed

section \<open>Feedback\<close>

lemma audit_prefix_feedback_key:
  "\<not> prefix audit_key_prefix (feedback_key i)" "\<not> prefix feedback_key_prefix (audit_key i)"
  by (simp_all add: audit_key_prefix_def feedback_key_prefix_def feedback_key_def audit_key_def)

lemma upsert_keeps: "x \<in> set ds \<Longrightarrow> doc_key x \<noteq> doc_key d \<Longrightarrow> x \<in> set (upsert d ds)"
  by (induction ds) auto

lemma upsert_member: "d \<in> set (upsert d ds)"
  by (induction ds) auto

text \<open>
  Feedback is append-only: submitting feedback or resolving it adds one document under the
  feedback prefix, leaves the audit trail as it was, and keeps every other document of the store, so
  in particular the feedback it refers to.
\<close>

theorem feedback_append_only:
  fixes H :: "('s, 'c, 'e) hyphae"
  assumes "faithful_store H valid rows rest" and "valid s"
    and "submit_ethics_feedback H tenant s i aid k reason submitter now = Some (Inr (f, s1)) \<and> s' = s1
       \<or> resolve_ethics_feedback H tenant s i fid disp reason reviewer now = Some (Inr (q, s2)) \<and> s' = s2"
    and "audit_entries H s = Some (Inr es)" and "audit_entries H s' = Some (Inr es')"
  shows "es' = es
    \<and> (\<forall>x\<in>set (rows s). doc_key x \<noteq> feedback_key i \<longrightarrow> x \<in> set (rows s'))
    \<and> (\<exists>x\<in>set (rows s'). doc_key x = feedback_key i)"
proof -
  obtain d where put: "hy_put H s d = Inr s'" and key: "doc_key d = feedback_key i"
    using assms(3)
    by (auto simp: submit_ethics_feedback_def resolve_ethics_feedback_def Let_def m_bind_Inr
        feedback_to_record_def resolution_to_record_def)
  note s' = faithful_storeD(3) [OF assms(1,2) put]
  have "\<not> prefix audit_key_prefix (doc_key d)" by (simp add: key audit_prefix_feedback_key)
  note eq = scan_after_other [of rows s' d s, OF conjunct2 [OF s'] this]
  from audit_entries_Inr [OF assms(1,2,4)] audit_entries_Inr [OF assms(1) conjunct1 [OF s'] assms(5)]
  have "es' = es" unfolding eq by (simp only: sum.inject)
  moreover have "rows s' = upsert d (rows s)" using s' by (rule conjunct2)
  ultimately show ?thesis using key upsert_keeps [of _ "rows s" d] upsert_member [of d "rows s"]
    by metis
qed

section \<open>Runs on the list store\<close>

definition injection_detectors :: detectors where
  "injection_detectors =
     \<lparr>email_re = (\<lambda>_. []), phone_re = (\<lambda>_. []), ssn_re = (\<lambda>_. []), card_re = (\<lambda>_. []),
      aws_re = (\<lambda>_. []), bearer_re = (\<lambda>_. []), private_key_re = (\<lambda>_. []), api_key_re = (\<lambda>_. []),
      password_re = (\<lambda>_. []), persistent_instruction_re = [],
      suspicious_instruction_re = [\<lambda>_. True]\<rparr>"

lemma empty_audit: "audit_entries list_store [] = Some (Inr [])"
  by (simp add: audit_entries_def list_scan key_sorted_def from_scan_def from_store_def from_decode_def)

lemma a1_id: "valid_entry_id ''a1''"
  by (simp add: valid_entry_id_def ascii_utf8_valid ascii_def code_def)

theorem evaluate_action_audited_witness:
  "\<exists>d s'. evaluate_action list_store (\<lambda>_. ''d'') injection_detectors quiet_ethics ''t'' [] ''a1'' ''hi''
       Tool TaskExecution 7 = Some (Inr (d, s'))
     \<and> \<not> ad_allowed d \<and> ae_decision (ad_audit d) = Audit_Quarantine"
proof -
  obtain a where "evaluate quiet_ethics ''hi'' = Some a" using evaluate_run by blast
  then obtain r where "evaluate_ethics quiet_ethics ''hi'' None = Some r"
    by (simp add: evaluate_ethics_def Let_def)
  then obtain d s' where run: "evaluate_action list_store (\<lambda>_. ''d'') injection_detectors quiet_ethics
      ''t'' [] ''a1'' ''hi'' Tool TaskExecution 7 = Some (Inr (d, s'))"
    by (auto simp: evaluate_action_def append_audit_def empty_audit from_store_def Let_def
        m_return_def)
  have "acr_valid (verify_audit_chain (\<lambda>_. ''d'') ''t'' [])"
    by (simp add: verify_audit_chain_def)
  moreover have "key_sorted []" "newest_audit_id [] ''a1''"
    by (simp_all add: key_sorted_def newest_audit_id_def)
  moreover have "action_poisoned injection_detectors ''hi'' Tool"
    by (simp add: action_poisoned_def injection_detectors_def detect_poisoning_def)
  ultimately show ?thesis
    using evaluate_action_audited [OF list_store_faithful _ a1_id _ empty_audit _ run] run
    by (auto simp: action_answer_def)
qed

theorem feedback_append_only_witness:
  "\<exists>f s'. submit_ethics_feedback list_store ''t'' [] ''a1'' ''a0'' Appeal ''r'' None 7
       = Some (Inr (f, s'))
     \<and> (\<exists>x\<in>set s'. doc_key x = feedback_key ''a1'')"
proof -
  obtain f s' where run: "submit_ethics_feedback list_store ''t'' [] ''a1'' ''a0'' Appeal ''r'' None 7
      = Some (Inr (f, s'))" and s': "\<exists>d. s' = [d] \<and> doc_key d = feedback_key ''a1''"
    by (auto simp: submit_ethics_feedback_def from_store_def Let_def m_return_def
        feedback_to_record_def)
  have sorted: "key_sorted []" "key_sorted s'" using s' by (auto simp: key_sorted_def)
  have "filter (has_prefix audit_key_prefix) s' = []"
    using s' audit_prefix_feedback_key(1) [of "''a1''"] by (auto simp: has_prefix_def)
  then have "audit_entries list_store s' = Some (Inr [])"
    by (simp add: audit_entries_def list_scan [OF sorted(2)] from_scan_def from_store_def
        from_decode_def)
  from feedback_append_only [OF list_store_faithful sorted(1) disjI1 [OF conjI [OF run refl]]
      empty_audit this] run
  show ?thesis by blast
qed

end
