(* ===== verification/Memory_Filter.thy ===== *)
theory Memory_Filter
  imports Memory_Codec Filter_Language
begin

text \<open>
  \<open>filter.rs\<close>: the filter language of the memory API, its validation, its compilation to the
  query filters of the store, and the authorization filter of a scope. \<open>query_filter\<close> has the
  constructors of \<open>hyphae_query::Filter\<close> the source builds; a \<open>FieldPath\<close> is the field name it was
  made from. What the store makes of a query filter is a parameter of the theorems.
\<close>

definition max_filter_nodes :: nat where "max_filter_nodes = 64"
definition max_filter_depth :: nat where "max_filter_depth = 8"
definition max_list_values :: nat where "max_list_values = 50"

fun field_path :: "memory_field \<Rightarrow> string" where
  "field_path AgentId = ''agent_id''"
| "field_path ProjectId = ''project_id''"
| "field_path ConversationId = ''conversation_id''"
| "field_path SessionId = ''session_id''"
| "field_path ScopeField = ''scope''"
| "field_path MemoryTypeField = ''memory_type''"
| "field_path StateField = ''state''"
| "field_path ImportanceField = ''importance''"
| "field_path Strength = ''strength''"
| "field_path RetrievalCount = ''retrieval_count''"
| "field_path ConsolidationCount = ''consolidation_count''"
| "field_path Valence = ''valence''"
| "field_path Arousal = ''arousal''"
| "field_path Dominance = ''dominance''"
| "field_path Tags = ''tags''"
| "field_path CreatedAt = ''created_at_ms''"
| "field_path EventAt = ''event_at_ms''"
| "field_path IngestedAt = ''ingested_at_ms''"
| "field_path LastRetrievedAt = ''last_retrieved_at_ms''"
| "field_path SourceKindField = ''source_kind''"
| "field_path SourceId = ''source_id''"
| "field_path SourceUri = ''source_uri''"
| "field_path SourceActor = ''source_actor''"
| "field_path ContentHash = ''content_hash''"

datatype field_kind = KText | KCategory | KFloat | KInteger | KTags

fun kind_of :: "memory_field \<Rightarrow> field_kind" where
  "kind_of AgentId = KText"
| "kind_of ProjectId = KText"
| "kind_of ConversationId = KText"
| "kind_of SessionId = KText"
| "kind_of SourceId = KText"
| "kind_of SourceUri = KText"
| "kind_of SourceActor = KText"
| "kind_of ContentHash = KText"
| "kind_of ScopeField = KCategory"
| "kind_of MemoryTypeField = KCategory"
| "kind_of StateField = KCategory"
| "kind_of SourceKindField = KCategory"
| "kind_of ImportanceField = KFloat"
| "kind_of Strength = KFloat"
| "kind_of Valence = KFloat"
| "kind_of Arousal = KFloat"
| "kind_of Dominance = KFloat"
| "kind_of RetrievalCount = KInteger"
| "kind_of ConsolidationCount = KInteger"
| "kind_of CreatedAt = KInteger"
| "kind_of EventAt = KInteger"
| "kind_of IngestedAt = KInteger"
| "kind_of LastRetrievedAt = KInteger"
| "kind_of Tags = KTags"

definition nullable :: "memory_field \<Rightarrow> bool" where
  "nullable f \<longleftrightarrow>
     f \<in> {AgentId, ProjectId, ConversationId, SessionId, EventAt, SourceId, SourceUri, SourceActor}"

fun supports :: "memory_field \<Rightarrow> filter_operator \<Rightarrow> bool" where
  "supports f OpIsNull = nullable f"
| "supports f OpIsNotNull = nullable f"
| "supports f OpEq = (kind_of f \<noteq> KTags)"
| "supports f OpNe = (kind_of f \<noteq> KTags)"
| "supports f OpIn = (kind_of f \<noteq> KTags)"
| "supports f OpNotIn = (kind_of f \<noteq> KTags)"
| "supports f OpLt = (kind_of f = KFloat \<or> kind_of f = KInteger)"
| "supports f OpLte = (kind_of f = KFloat \<or> kind_of f = KInteger)"
| "supports f OpGt = (kind_of f = KFloat \<or> kind_of f = KInteger)"
| "supports f OpGte = (kind_of f = KFloat \<or> kind_of f = KInteger)"
| "supports f OpBetween = (kind_of f = KFloat \<or> kind_of f = KInteger)"
| "supports f OpPrefix = (kind_of f = KText)"
| "supports f OpContains = (kind_of f = KText \<or> kind_of f = KTags)"

section \<open>Validation\<close>

fun list_length :: "filter_value \<Rightarrow> nat option" where
  "list_length (FStrings xs) = Some (length xs)"
| "list_length (FIntegers xs) = Some (length xs)"
| "list_length (FFloats xs) = Some (length xs)"
| "list_length _ = None"

fun validate_float_list :: "f64 list \<Rightarrow> filter_error + unit" where
  "validate_float_list [] = Inr ()"
| "validate_float_list (Fin r # xs) =
     (if r * 1000000000 < - (2 ^ 63) \<or> 2 ^ 63 \<le> r * 1000000000 then Inl FloatOutOfRange
      else validate_float_list xs)"
| "validate_float_list (_ # xs) = Inl NonFiniteFloat"

fun validate_floats :: "filter_value \<Rightarrow> filter_error + unit" where
  "validate_floats (FFloat x) = validate_float_list [x]"
| "validate_floats (FFloats xs) = validate_float_list xs"
| "validate_floats _ = Inr ()"

definition validate_scalar ::
  "memory_field \<Rightarrow> filter_operator \<Rightarrow> filter_value \<Rightarrow> filter_error + unit" where
  "validate_scalar f op v =
     (let valid = (case kind_of f of
          KText \<Rightarrow> (case v of FString _ \<Rightarrow> True | _ \<Rightarrow> False)
        | KCategory \<Rightarrow> (case v of FString _ \<Rightarrow> True | _ \<Rightarrow> False)
        | KTags \<Rightarrow> (case v of FString _ \<Rightarrow> True | _ \<Rightarrow> False)
        | KInteger \<Rightarrow> (case v of FInteger _ \<Rightarrow> True | _ \<Rightarrow> False)
        | KFloat \<Rightarrow> (case v of FFloat _ \<Rightarrow> True | _ \<Rightarrow> False))
      in if \<not> valid then Inl (InvalidValue f op) else validate_floats v)"

definition validate_list_budget :: "nat \<Rightarrow> filter_error + unit" where
  "validate_list_budget n =
     (if max_list_values < n then Inl (TooManyValues n max_list_values) else Inr ())"

definition validate_membership ::
  "memory_field \<Rightarrow> filter_operator \<Rightarrow> filter_value \<Rightarrow> filter_error + unit" where
  "validate_membership f op v =
     r_bind (ok_or (InvalidValue f op) (list_length v)) (\<lambda>n.
       if n = 0 then Inl EmptyList else
       r_bind (validate_list_budget n) (\<lambda>_.
         let valid = (case kind_of f of
             KText \<Rightarrow> (case v of FStrings _ \<Rightarrow> True | _ \<Rightarrow> False)
           | KCategory \<Rightarrow> (case v of FStrings _ \<Rightarrow> True | _ \<Rightarrow> False)
           | KInteger \<Rightarrow> (case v of FIntegers _ \<Rightarrow> True | _ \<Rightarrow> False)
           | KFloat \<Rightarrow> (case v of FFloats _ \<Rightarrow> True | _ \<Rightarrow> False)
           | KTags \<Rightarrow> False)
         in if \<not> valid then Inl (InvalidValue f op) else validate_floats v))"

definition validate_range ::
  "memory_field \<Rightarrow> filter_operator \<Rightarrow> filter_value \<Rightarrow> filter_error + unit" where
  "validate_range f op v =
     r_bind (ok_or (InvalidValue f op) (list_length v)) (\<lambda>n.
       if n \<noteq> 2 then Inl (InvalidRangeLength n) else
       let valid = (case kind_of f of
           KInteger \<Rightarrow> (case v of FIntegers _ \<Rightarrow> True | _ \<Rightarrow> False)
         | KFloat \<Rightarrow> (case v of FFloats _ \<Rightarrow> True | _ \<Rightarrow> False)
         | _ \<Rightarrow> False)
       in if \<not> valid then Inl (InvalidValue f op) else validate_floats v)"

text \<open>The null operators never reach \<open>validate_value\<close>; its \<open>unreachable!\<close> arm is the last one.\<close>

definition validate_value ::
  "memory_field \<Rightarrow> filter_operator \<Rightarrow> filter_value \<Rightarrow> filter_error + unit" where
  "validate_value f op v =
     (if op = OpIn \<or> op = OpNotIn then validate_membership f op v
      else if op = OpBetween then validate_range f op v
      else validate_scalar f op v)"

definition validate_predicate :: "memory_predicate \<Rightarrow> filter_error + unit" where
  "validate_predicate p =
     (let op = mp_operator p
      in if \<not> supports (mp_field p) op then Inl (InvalidOperator (mp_field p) op)
         else if op = OpIsNull \<or> op = OpIsNotNull then
           (if mp_value p = None then Inr () else Inl (UnexpectedValue op))
         else (case mp_value p of
             None \<Rightarrow> Inl (MissingValue op)
           | Some v \<Rightarrow> validate_value (mp_field p) op v))"

text \<open>The traversal with an explicit stack, its top first: the last child is visited first.\<close>

function validate_loop ::
  "(memory_filter \<times> nat) list \<Rightarrow> nat \<Rightarrow> nat \<Rightarrow> filter_error + nat \<times> nat" where
  "validate_loop [] nodes depth = Inr (nodes, depth)"
| "validate_loop ((f, d) # pending) nodes depth =
     (case f of
        AllOf fs \<Rightarrow> validate_loop (rev (map (\<lambda>c. (c, d + 1)) fs) @ pending) (nodes + 1) (max depth d)
      | AnyOf fs \<Rightarrow> validate_loop (rev (map (\<lambda>c. (c, d + 1)) fs) @ pending) (nodes + 1) (max depth d)
      | NotF c \<Rightarrow> validate_loop ((c, d + 1) # pending) (nodes + 1) (max depth d)
      | Predicate p \<Rightarrow>
          r_bind (validate_predicate p) (\<lambda>_. validate_loop pending (nodes + 1) (max depth d))
      | MatchAll \<Rightarrow> validate_loop pending (nodes + 1) (max depth d))"
  by pat_completeness auto
termination
  by (relation "measure (\<lambda>(pending, _, _). sum_list (map (Suc \<circ> size \<circ> fst) pending))")
     (auto simp: size_list_conv_sum_list o_def rev_map [symmetric] sum_list_rev sum_list_Suc)

definition validate :: "memory_filter \<Rightarrow> filter_error + unit" where
  "validate f =
     r_bind (validate_loop [(f, 1)] 0 0) (\<lambda>(nodes, depth).
       if max_filter_nodes < nodes then Inl (TooManyNodes nodes max_filter_nodes)
       else if max_filter_depth < depth then Inl (TooDeep depth max_filter_depth)
       else Inr ())"

section \<open>Compilation\<close>

datatype compare_operator = Equal | NotEqual | Less | LessOrEqual | Greater | GreaterOrEqual

datatype query_filter =
    QMatchAll
  | QAll "query_filter list"
  | QAny "query_filter list"
  | QNot query_filter
  | QExists string
  | QCompare string compare_operator val
  | QPrefix string val
  | QContains string val

fun compare_op :: "filter_operator \<Rightarrow> compare_operator option" where
  "compare_op OpEq = Some Equal"
| "compare_op OpNe = Some NotEqual"
| "compare_op OpLt = Some Less"
| "compare_op OpLte = Some LessOrEqual"
| "compare_op OpGt = Some Greater"
| "compare_op OpGte = Some GreaterOrEqual"
| "compare_op _ = None"

text \<open>\<open>unreachable!\<close> and \<open>expect\<close> on a value that was not validated are \<open>None\<close>.\<close>

fun scalar_value :: "filter_value \<Rightarrow> val option" where
  "scalar_value (FString s) = Some (VString s)"
| "scalar_value (FInteger n) = Some (VInteger n)"
| "scalar_value (FFloat x) = Some (VInteger (to_nanos x))"
| "scalar_value _ = None"

fun list_values :: "filter_value \<Rightarrow> val list option" where
  "list_values (FStrings xs) = Some (map VString xs)"
| "list_values (FIntegers xs) = Some (map VInteger xs)"
| "list_values (FFloats xs) = Some (map (VInteger \<circ> to_nanos) xs)"
| "list_values _ = None"

definition null_comparison :: "string \<Rightarrow> query_filter" where
  "null_comparison path = QCompare path Equal VNull"

definition compile_membership :: "memory_predicate \<Rightarrow> query_filter option" where
  "compile_membership p =
     map_option (\<lambda>vs.
       let included = QAny (map (QCompare (field_path (mp_field p)) Equal) vs)
       in if mp_operator p = OpNotIn then QNot included else included)
     (Option.bind (mp_value p) list_values)"

definition compile_between :: "memory_predicate \<Rightarrow> query_filter option" where
  "compile_between p =
     (case Option.bind (mp_value p) list_values of
        Some (lower # upper # _) \<Rightarrow>
          Some (QAll [QCompare (field_path (mp_field p)) GreaterOrEqual lower,
                      QCompare (field_path (mp_field p)) LessOrEqual upper])
      | _ \<Rightarrow> None)"

definition compile_predicate :: "memory_predicate \<Rightarrow> query_filter option" where
  "compile_predicate p =
     (let path = field_path (mp_field p); scalar = Option.bind (mp_value p) scalar_value
      in case mp_operator p of
        OpPrefix \<Rightarrow> map_option (QPrefix path) scalar
      | OpContains \<Rightarrow> map_option (QContains path) scalar
      | OpIn \<Rightarrow> compile_membership p
      | OpNotIn \<Rightarrow> compile_membership p
      | OpBetween \<Rightarrow> compile_between p
      | OpIsNull \<Rightarrow> Some (null_comparison path)
      | OpIsNotNull \<Rightarrow> Some (QAll [QExists path, QNot (null_comparison path)])
      | op \<Rightarrow> Option.bind (compare_op op) (\<lambda>c. map_option (QCompare path c) scalar))"

fun compile_valid_filter :: "memory_filter \<Rightarrow> query_filter option" where
  "compile_valid_filter MatchAll = Some QMatchAll"
| "compile_valid_filter (AllOf fs) = map_option QAll (those (map compile_valid_filter fs))"
| "compile_valid_filter (AnyOf fs) = map_option QAny (those (map compile_valid_filter fs))"
| "compile_valid_filter (NotF f) = map_option QNot (compile_valid_filter f)"
| "compile_valid_filter (Predicate p) = compile_predicate p"

text \<open>The outer option is the panic of the source, the sum its \<open>Result\<close>.\<close>

definition compile_filter :: "memory_filter \<Rightarrow> (filter_error + query_filter) option" where
  "compile_filter f = (case validate f of
     Inl e \<Rightarrow> Some (Inl e)
   | Inr _ \<Rightarrow> map_option Inr (compile_valid_filter f))"

section \<open>Authorization\<close>

definition string_eq :: "string \<Rightarrow> string \<Rightarrow> query_filter" where
  "string_eq f s = QCompare f Equal (VString s)"

definition authorization_filter :: "recall_scope \<Rightarrow> query_filter" where
  "authorization_filter sc =
     QAll
       [string_eq ''kind'' ''memory'',
        string_eq ''tenant_id'' (rs_tenant_id sc),
        string_eq ''user_id'' (rs_user_id sc),
        QAny (string_eq ''scope'' ''global''
          # (case rs_project_id sc of
               None \<Rightarrow> []
             | Some p \<Rightarrow>
                 QAll [string_eq ''scope'' ''project'', string_eq ''project_id'' p]
                 # (case rs_session_id sc of
                      None \<Rightarrow> []
                    | Some s \<Rightarrow>
                        [QAll [string_eq ''scope'' ''session'', string_eq ''project_id'' p,
                               string_eq ''session_id'' s]])))]"

end
