(* ===== verification/Filter_Semantics.thy ===== *)
theory Filter_Semantics
  imports Filter_Properties
begin

text \<open>
  The meaning of filters on memories, and its preservation by compilation. How the store evaluates a
  query filter is third-party code: \<open>sat q d\<close> is a parameter, and \<open>query_semantics\<close> states what is
  used of it: the connectives are the boolean ones, a comparison looks at the named field of the
  document, equality is equality of values, and order, prefix and containment are those of integers,
  strings and arrays when the field holds one.
\<close>

section \<open>What is used of the query filters\<close>

definition doc_field :: "doc \<Rightarrow> string \<Rightarrow> val option" where
  "doc_field d p = (case doc_value d of VObject fs \<Rightarrow> fs p | _ \<Rightarrow> None)"

fun int_compare :: "compare_operator \<Rightarrow> i64 \<Rightarrow> i64 \<Rightarrow> bool" where
  "int_compare Equal a b = (a = b)"
| "int_compare NotEqual a b = (a \<noteq> b)"
| "int_compare Less a b = (sint a < sint b)"
| "int_compare LessOrEqual a b = (sint a \<le> sint b)"
| "int_compare Greater a b = (sint b < sint a)"
| "int_compare GreaterOrEqual a b = (sint b \<le> sint a)"

definition query_semantics :: "(query_filter \<Rightarrow> doc \<Rightarrow> bool) \<Rightarrow> bool" where
  "query_semantics sat \<longleftrightarrow>
     (\<forall>d. sat QMatchAll d)
     \<and> (\<forall>qs d. sat (QAll qs) d \<longleftrightarrow> list_all (\<lambda>q. sat q d) qs)
     \<and> (\<forall>qs d. sat (QAny qs) d \<longleftrightarrow> list_ex (\<lambda>q. sat q d) qs)
     \<and> (\<forall>q d. sat (QNot q) d \<longleftrightarrow> \<not> sat q d)
     \<and> (\<forall>p d. sat (QExists p) d \<longleftrightarrow> doc_field d p \<noteq> None)
     \<and> (\<forall>p d v w. doc_field d p = Some v \<longrightarrow> (sat (QCompare p Equal w) d \<longleftrightarrow> v = w))
     \<and> (\<forall>p d s t. doc_field d p = Some (VString s) \<longrightarrow>
          (sat (QCompare p NotEqual (VString t)) d \<longleftrightarrow> s \<noteq> t)
          \<and> (sat (QPrefix p (VString t)) d \<longleftrightarrow> prefix t s)
          \<and> (sat (QContains p (VString t)) d \<longleftrightarrow> sublist t s))
     \<and> (\<forall>p d c m n. doc_field d p = Some (VInteger m) \<longrightarrow>
          (sat (QCompare p c (VInteger n)) d \<longleftrightarrow> int_compare c m n))
     \<and> (\<forall>p d vs w. doc_field d p = Some (VArray vs) \<longrightarrow> (sat (QContains p w) d \<longleftrightarrow> w \<in> set vs))"

section \<open>The meaning of a filter\<close>

fun field_value :: "memory_field \<Rightarrow> memory \<Rightarrow> val" where
  "field_value AgentId m = opt_string (agent_id (identity m))"
| "field_value ProjectId m = opt_string (project_id (identity m))"
| "field_value ConversationId m = opt_string (conversation_id (identity m))"
| "field_value SessionId m = opt_string (session_id (identity m))"
| "field_value ScopeField m = VString (scope_as_str (mem_scope m))"
| "field_value MemoryTypeField m = VString (memory_type_as_str (memory_type m))"
| "field_value StateField m = VString (memory_state_as_str (mem_state m))"
| "field_value ImportanceField m = nanos_value (importance m)"
| "field_value Strength m = nanos_value (strength m)"
| "field_value RetrievalCount m = VInteger (i64_of_u32 (retrieval_count m))"
| "field_value ConsolidationCount m = VInteger (i64_of_u32 (consolidation_count m))"
| "field_value Valence m = nanos_value (pleasure (mem_pad m))"
| "field_value Arousal m = nanos_value (arousal (mem_pad m))"
| "field_value Dominance m = nanos_value (dominance (mem_pad m))"
| "field_value Tags m = string_array_value (tags m)"
| "field_value CreatedAt m = VInteger (created_at_ms m)"
| "field_value EventAt m = opt_integer (event_at_ms m)"
| "field_value IngestedAt m = VInteger (ingested_at_ms m)"
| "field_value LastRetrievedAt m = VInteger (last_retrieved_at_ms m)"
| "field_value SourceKindField m = VString (source_kind_as_str (source_kind (provenance m)))"
| "field_value SourceId m = opt_string (source_id (provenance m))"
| "field_value SourceUri m = opt_string (source_uri (provenance m))"
| "field_value SourceActor m = opt_string (actor (provenance m))"
| "field_value ContentHash m = VString (content_hash (provenance m))"

text \<open>The meaning of a predicate on a field value; a number is compared at nano precision.\<close>

definition value_holds :: "val \<Rightarrow> filter_operator \<Rightarrow> filter_value option \<Rightarrow> bool" where
  "value_holds v op arg = (case op of
     OpIsNull \<Rightarrow> v = VNull
   | OpIsNotNull \<Rightarrow> v \<noteq> VNull
   | OpIn \<Rightarrow> (\<exists>ws. Option.bind arg list_values = Some ws \<and> v \<in> set ws)
   | OpNotIn \<Rightarrow> (\<forall>ws. Option.bind arg list_values = Some ws \<longrightarrow> v \<notin> set ws)
   | OpBetween \<Rightarrow> (\<exists>n lo hi. v = VInteger n \<and> Option.bind arg list_values = Some [VInteger lo, VInteger hi]
        \<and> sint lo \<le> sint n \<and> sint n \<le> sint hi)
   | OpPrefix \<Rightarrow> (\<exists>s t. v = VString s \<and> arg = Some (FString t) \<and> prefix t s)
   | OpContains \<Rightarrow> (\<exists>t. arg = Some (FString t) \<and>
        ((\<exists>s. v = VString s \<and> sublist t s) \<or> (\<exists>vs. v = VArray vs \<and> VString t \<in> set vs)))
   | OpEq \<Rightarrow> Option.bind arg scalar_value = Some v
   | OpNe \<Rightarrow> Option.bind arg scalar_value \<noteq> Some v
   | OpLt \<Rightarrow> (\<exists>n k. v = VInteger n \<and> Option.bind arg scalar_value = Some (VInteger k) \<and> sint n < sint k)
   | OpLte \<Rightarrow> (\<exists>n k. v = VInteger n \<and> Option.bind arg scalar_value = Some (VInteger k) \<and> sint n \<le> sint k)
   | OpGt \<Rightarrow> (\<exists>n k. v = VInteger n \<and> Option.bind arg scalar_value = Some (VInteger k) \<and> sint k < sint n)
   | OpGte \<Rightarrow> (\<exists>n k. v = VInteger n \<and> Option.bind arg scalar_value = Some (VInteger k) \<and> sint k \<le> sint n))"

fun filter_holds :: "memory_filter \<Rightarrow> memory \<Rightarrow> bool" where
  "filter_holds MatchAll m = True"
| "filter_holds (AllOf fs) m = list_all (\<lambda>f. filter_holds f m) fs"
| "filter_holds (AnyOf fs) m = list_ex (\<lambda>f. filter_holds f m) fs"
| "filter_holds (NotF f) m = (\<not> filter_holds f m)"
| "filter_holds (Predicate p) m = value_holds (field_value (mp_field p) m) (mp_operator p) (mp_value p)"

text \<open>How the store compares a null with a value by these operators is not assumed.\<close>

definition decided :: "memory \<Rightarrow> memory_predicate \<Rightarrow> bool" where
  "decided m p \<longleftrightarrow> field_value (mp_field p) m \<noteq> VNull
     \<or> mp_operator p \<in> {OpEq, OpIn, OpNotIn, OpIsNull, OpIsNotNull}"

section \<open>Compilation keeps the meaning\<close>

lemma stored_field: "doc_field (memory_to_record m) (field_path f) = Some (field_value f m)"
  by (cases f) (simp_all add: doc_field_def memory_to_record_def memory_fields_lookup)

text \<open>The value of a field is null only if the field is nullable, and else of the field's kind.\<close>

definition has_kind :: "field_kind \<Rightarrow> val \<Rightarrow> bool" where
  "has_kind k v = (case k of
     KText \<Rightarrow> (\<exists>s. v = VString s)
   | KCategory \<Rightarrow> (\<exists>s. v = VString s)
   | KFloat \<Rightarrow> (\<exists>n. v = VInteger n)
   | KInteger \<Rightarrow> (\<exists>n. v = VInteger n)
   | KTags \<Rightarrow> (\<exists>ts. v = VArray (map VString ts)))"

lemma field_value_kind: "field_value f m = VNull \<or> has_kind (kind_of f) (field_value f m)"
  by (cases f) (auto simp: has_kind_def opt_string_def opt_integer_def nanos_value_def
      string_array_value_def split: option.splits)

lemma scalar_kind:
  "validate_scalar f op v = Inr () \<Longrightarrow> kind_of f \<noteq> KTags \<Longrightarrow>
   \<exists>w. scalar_value v = Some w \<and> has_kind (kind_of f) w"
  by (cases v) (auto simp: validate_scalar_def has_kind_def Let_def split: field_kind.splits if_splits)

lemma text_scalar:
  "validate_scalar f op v = Inr () \<Longrightarrow> kind_of f \<in> {KText, KCategory, KTags} \<Longrightarrow> \<exists>s. v = FString s"
  by (cases v) (auto simp: validate_scalar_def Let_def split: field_kind.splits if_splits)

lemma range_kind:
  "validate_range f op v = Inr () \<Longrightarrow>
   \<exists>a b. list_values v = Some [VInteger a, VInteger b] \<and> kind_of f \<in> {KInteger, KFloat}"
  by (cases v)
     (auto simp: validate_range_def Let_def numeral_2_eq_2 length_Suc_conv split: if_splits
       field_kind.splits)

lemma query_semanticsD:
  assumes "query_semantics sat"
  shows "sat QMatchAll d"
    and "sat (QAll qs) d \<longleftrightarrow> list_all (\<lambda>q. sat q d) qs"
    and "sat (QAny qs) d \<longleftrightarrow> list_ex (\<lambda>q. sat q d) qs"
    and "sat (QNot q) d \<longleftrightarrow> \<not> sat q d"
    and "sat (QExists p) d \<longleftrightarrow> doc_field d p \<noteq> None"
    and "doc_field d p = Some v \<Longrightarrow> sat (QCompare p Equal w) d \<longleftrightarrow> v = w"
    and "doc_field d p = Some (VString s) \<Longrightarrow> sat (QCompare p NotEqual (VString u)) d \<longleftrightarrow> s \<noteq> u"
    and "doc_field d p = Some (VString s) \<Longrightarrow> sat (QPrefix p (VString u)) d \<longleftrightarrow> prefix u s"
    and "doc_field d p = Some (VString s) \<Longrightarrow> sat (QContains p (VString u)) d \<longleftrightarrow> sublist u s"
    and "doc_field d p = Some (VInteger k) \<Longrightarrow> sat (QCompare p c (VInteger n)) d \<longleftrightarrow> int_compare c k n"
    and "doc_field d p = Some (VArray vs) \<Longrightarrow> sat (QContains p w) d \<longleftrightarrow> w \<in> set vs"
  using assms unfolding query_semantics_def by simp_all

lemma value_holds_simps:
  "value_holds v OpIsNull arg \<longleftrightarrow> v = VNull"
  "value_holds v OpIsNotNull arg \<longleftrightarrow> v \<noteq> VNull"
  "value_holds v OpEq arg \<longleftrightarrow> Option.bind arg scalar_value = Some v"
  "value_holds v OpNe arg \<longleftrightarrow> Option.bind arg scalar_value \<noteq> Some v"
  "list_values a = Some ws \<Longrightarrow> value_holds v OpIn (Some a) \<longleftrightarrow> v \<in> set ws"
  "list_values a = Some ws \<Longrightarrow> value_holds v OpNotIn (Some a) \<longleftrightarrow> v \<notin> set ws"
  "list_values a = Some [VInteger lo, VInteger hi] \<Longrightarrow>
     value_holds (VInteger n) OpBetween (Some a) \<longleftrightarrow> sint lo \<le> sint n \<and> sint n \<le> sint hi"
  "value_holds (VString s) OpPrefix (Some (FString u)) \<longleftrightarrow> prefix u s"
  "value_holds (VString s) OpContains (Some (FString u)) \<longleftrightarrow> sublist u s"
  "value_holds (VArray vs) OpContains (Some (FString u)) \<longleftrightarrow> VString u \<in> set vs"
  "scalar_value a = Some (VInteger k) \<Longrightarrow> value_holds (VInteger n) OpLt (Some a) \<longleftrightarrow> sint n < sint k"
  "scalar_value a = Some (VInteger k) \<Longrightarrow> value_holds (VInteger n) OpLte (Some a) \<longleftrightarrow> sint n \<le> sint k"
  "scalar_value a = Some (VInteger k) \<Longrightarrow> value_holds (VInteger n) OpGt (Some a) \<longleftrightarrow> sint k < sint n"
  "scalar_value a = Some (VInteger k) \<Longrightarrow> value_holds (VInteger n) OpGte (Some a) \<longleftrightarrow> sint k \<le> sint n"
  by (simp_all add: value_holds_def)

lemma scalar_predicate:
  assumes "validate_predicate p = Inr ()"
    and "mp_operator p \<in> {OpEq, OpNe, OpLt, OpLte, OpGt, OpGte, OpPrefix, OpContains}"
  shows "\<exists>a. mp_value p = Some a \<and> validate_scalar (mp_field p) (mp_operator p) a = Inr ()
    \<and> supports (mp_field p) (mp_operator p)"
  using assms
  by (auto simp: validate_predicate_def validate_value_def Let_def split: if_splits option.splits)

lemma list_predicate:
  assumes "validate_predicate p = Inr ()"
  shows "mp_operator p \<in> {OpIn, OpNotIn} \<Longrightarrow> \<exists>a ws. mp_value p = Some a \<and> list_values a = Some ws"
    and "mp_operator p = OpBetween \<Longrightarrow> \<exists>a lo hi. mp_value p = Some a
      \<and> list_values a = Some [VInteger lo, VInteger hi] \<and> kind_of (mp_field p) \<in> {KInteger, KFloat}"
  using assms validate_membership_compiles [of "mp_field p" "mp_operator p"]
    range_kind [of "mp_field p" "mp_operator p"]
  by (auto simp: validate_predicate_def validate_value_def Let_def split: if_splits option.splits)

lemma order_predicate:
  assumes sem: "query_semantics sat" and fd: "doc_field d (field_path (mp_field p)) = Some v"
    and ok: "validate_predicate p = Inr ()" and k: "has_kind (kind_of (mp_field p)) v"
    and op: "mp_operator p \<in> {OpNe, OpLt, OpLte, OpGt, OpGte}"
    and c: "compile_predicate p = Some q"
  shows "sat q d \<longleftrightarrow> value_holds v (mp_operator p) (mp_value p)"
proof -
  obtain a where a: "mp_value p = Some a" "validate_scalar (mp_field p) (mp_operator p) a = Inr ()"
    and s: "supports (mp_field p) (mp_operator p)"
    using scalar_predicate [OF ok] op by blast
  have kt: "kind_of (mp_field p) \<noteq> KTags" using s op by auto
  obtain w where w: "scalar_value a = Some w" "has_kind (kind_of (mp_field p)) w"
    using scalar_kind [OF a(2) kt] by blast
  have q: "\<exists>c. compare_op (mp_operator p) = Some c \<and> q = QCompare (field_path (mp_field p)) c w"
    using op c a(1) w(1) by (auto simp: compile_predicate_def Let_def)
  show ?thesis
  proof (cases "\<exists>n. v = VInteger n")
    case True
    then obtain n where n: "v = VInteger n" by blast
    then obtain m where m: "w = VInteger m"
      using k w(2) kt by (cases "kind_of (mp_field p)") (auto simp: has_kind_def)
    note law = query_semanticsD(10) [OF sem fd [unfolded n]]
    show ?thesis using q op a(1) w(1) m n by (auto simp: law value_holds_simps)
  next
    case False
    then obtain x where x: "v = VString x" and tx: "kind_of (mp_field p) \<in> {KText, KCategory}"
      using k kt by (cases "kind_of (mp_field p)") (auto simp: has_kind_def)
    then obtain u where u: "w = VString u" using w(2) by (auto simp: has_kind_def)
    have ne: "mp_operator p = OpNe" using s op tx by auto
    note law = query_semanticsD(7) [OF sem fd [unfolded x]]
    show ?thesis using q a(1) w(1) u x by (auto simp: law ne value_holds_simps)
  qed
qed

lemma compile_predicate_sound:
  assumes sem: "query_semantics sat" and fd: "doc_field d (field_path (mp_field p)) = Some v"
    and ok: "validate_predicate p = Inr ()"
    and k: "v = VNull \<or> has_kind (kind_of (mp_field p)) v"
    and dec: "v \<noteq> VNull \<or> mp_operator p \<in> {OpEq, OpIn, OpNotIn, OpIsNull, OpIsNotNull}"
    and c: "compile_predicate p = Some q"
  shows "sat q d \<longleftrightarrow> value_holds v (mp_operator p) (mp_value p)"
proof -
  note laws = query_semanticsD [OF sem]
  consider "mp_operator p = OpIsNull" | "mp_operator p = OpIsNotNull" | "mp_operator p = OpEq"
    | "mp_operator p \<in> {OpIn, OpNotIn}" | "mp_operator p = OpBetween"
    | "mp_operator p \<in> {OpNe, OpLt, OpLte, OpGt, OpGte}" | "mp_operator p \<in> {OpPrefix, OpContains}"
    by (cases "mp_operator p") simp_all
  then show ?thesis
  proof cases
    case 1
    with c show ?thesis
      by (auto simp: compile_predicate_def Let_def null_comparison_def laws(6) [OF fd] value_holds_simps)
  next
    case 2
    with c fd show ?thesis
      by (auto simp: compile_predicate_def Let_def null_comparison_def laws(2,4,5) laws(6) [OF fd]
          value_holds_simps)
  next
    case 3
    obtain a where "mp_value p = Some a" using scalar_predicate [OF ok] 3 by auto
    with 3 c show ?thesis
      by (auto simp: compile_predicate_def Let_def laws(6) [OF fd] value_holds_simps)
  next
    case 4
    obtain a ws where a: "mp_value p = Some a" "list_values a = Some ws"
      using list_predicate(1) [OF ok 4] by blast
    have "sat (QAny (map (QCompare (field_path (mp_field p)) Equal) ws)) d \<longleftrightarrow> v \<in> set ws"
      by (auto simp: laws(3) laws(6) [OF fd] list_ex_iff)
    with 4 a c show ?thesis
      by (auto simp: compile_predicate_def compile_membership_def Let_def laws(4) value_holds_simps)
  next
    case 5
    obtain a lo hi where a: "mp_value p = Some a" "list_values a = Some [VInteger lo, VInteger hi]"
      and kd: "kind_of (mp_field p) \<in> {KInteger, KFloat}"
      using list_predicate(2) [OF ok 5] by blast
    obtain n where n: "v = VInteger n" using k kd dec 5 by (auto simp: has_kind_def)
    show ?thesis using 5 a c
      by (auto simp: compile_predicate_def compile_between_def Let_def laws(2)
          laws(10) [OF fd [unfolded n]] value_holds_simps n)
  next
    case 6
    then have "has_kind (kind_of (mp_field p)) v" using k dec by auto
    then show ?thesis by (rule order_predicate [OF sem fd ok _ 6 c])
  next
    case 7
    obtain a where a: "mp_value p = Some a" "validate_scalar (mp_field p) (mp_operator p) a = Inr ()"
      and s: "supports (mp_field p) (mp_operator p)"
      using scalar_predicate [OF ok] 7 by blast
    have kd: "kind_of (mp_field p) \<in> {KText, KTags}" using s 7 by auto
    obtain u where u: "a = FString u" using text_scalar [OF a(2)] kd by auto
    have hk: "has_kind (kind_of (mp_field p)) v" using k dec 7 by auto
    show ?thesis
    proof (cases "kind_of (mp_field p) = KText")
      case True
      then obtain x where x: "v = VString x" using hk by (auto simp: has_kind_def)
      show ?thesis using 7 a(1) u c
        by (auto simp: compile_predicate_def Let_def laws(8,9) [OF fd [unfolded x]]
            value_holds_simps x)
    next
      case False
      then have kt: "kind_of (mp_field p) = KTags" using kd by auto
      then obtain ts where ts: "v = VArray (map VString ts)" using hk by (auto simp: has_kind_def)
      have "mp_operator p = OpContains" using 7 s kt by auto
      then show ?thesis using a(1) u c
        by (auto simp: compile_predicate_def Let_def laws(11) [OF fd [unfolded ts]]
            value_holds_simps ts)
    qed
  qed
qed

end
