(* ===== verification/Filter_Claims.thy ===== *)
theory Filter_Claims
  imports Filter_Semantics
begin

text \<open>
  The properties of filters and of the authorization filter, and a concrete evaluator of query
  filters that satisfies what the properties assume of the store's.
\<close>

section \<open>A concrete evaluator\<close>

fun plain_compare :: "compare_operator \<Rightarrow> val \<Rightarrow> val \<Rightarrow> bool" where
  "plain_compare c (VInteger a) (VInteger b) = int_compare c a b"
| "plain_compare Equal v w = (v = w)"
| "plain_compare NotEqual v w = (v \<noteq> w)"
| "plain_compare _ v w = False"

fun plain_sat :: "query_filter \<Rightarrow> doc \<Rightarrow> bool" where
  "plain_sat QMatchAll d = True"
| "plain_sat (QAll qs) d = list_all (\<lambda>q. plain_sat q d) qs"
| "plain_sat (QAny qs) d = list_ex (\<lambda>q. plain_sat q d) qs"
| "plain_sat (QNot q) d = (\<not> plain_sat q d)"
| "plain_sat (QExists p) d = (doc_field d p \<noteq> None)"
| "plain_sat (QCompare p c w) d =
     (case doc_field d p of None \<Rightarrow> False | Some v \<Rightarrow> plain_compare c v w)"
| "plain_sat (QPrefix p w) d =
     (case (doc_field d p, w) of (Some (VString s), VString t) \<Rightarrow> prefix t s | _ \<Rightarrow> False)"
| "plain_sat (QContains p w) d =
     (case doc_field d p of
        Some (VString s) \<Rightarrow> (case w of VString t \<Rightarrow> sublist t s | _ \<Rightarrow> False)
      | Some (VArray vs) \<Rightarrow> w \<in> set vs
      | _ \<Rightarrow> False)"

lemma plain_compare_Equal: "plain_compare Equal v w \<longleftrightarrow> v = w"
  by (cases v; cases w) simp_all

lemma plain_query_semantics: "query_semantics plain_sat"
  unfolding query_semantics_def by (intro conjI allI) (simp_all add: plain_compare_Equal)

section \<open>Meaning of a compiled filter\<close>

lemma those_Some: "those xs = Some ys \<longleftrightarrow> xs = map Some ys"
proof (induction xs arbitrary: ys)
  case (Cons x xs)
  then show ?case by (cases x; cases ys) auto
qed auto

lemma compile_sound:
  assumes sem: "query_semantics sat"
  shows "list_all (\<lambda>p. validate_predicate p = Inr ()) (predicates f) \<Longrightarrow>
    list_all (decided m) (predicates f) \<Longrightarrow> compile_valid_filter f = Some q \<Longrightarrow>
    sat q (memory_to_record m) \<longleftrightarrow> filter_holds f m"
proof (induction f arbitrary: q)
  case MatchAll
  then show ?case using query_semanticsD(1) [OF sem] by simp
next
  case (AllOf fs)
  then obtain qs where qs: "map compile_valid_filter fs = map Some qs" and q: "q = QAll qs"
    by (auto simp: those_Some)
  have "list_all2 (\<lambda>f q. sat q (memory_to_record m) = filter_holds f m) fs qs"
    unfolding list_all2_conv_all_nth
  proof (intro conjI allI impI)
    show len: "length fs = length qs" using qs by (rule map_eq_imp_length_eq)
    fix i assume i: "i < length fs"
    then have "compile_valid_filter (fs ! i) = Some (qs ! i)"
      using qs len by (metis nth_map)
    with AllOf i show "sat (qs ! i) (memory_to_record m) = filter_holds (fs ! i) m"
      by (auto simp: list_all_iff)
  qed
  then have "list_all (\<lambda>q. sat q (memory_to_record m)) qs = list_all (\<lambda>f. filter_holds f m) fs"
    by (induction rule: list_all2_induct) auto
  then show ?case by (simp add: q query_semanticsD(2) [OF sem])
next
  case (AnyOf fs)
  then obtain qs where qs: "map compile_valid_filter fs = map Some qs" and q: "q = QAny qs"
    by (auto simp: those_Some)
  have "list_all2 (\<lambda>f q. sat q (memory_to_record m) = filter_holds f m) fs qs"
    unfolding list_all2_conv_all_nth
  proof (intro conjI allI impI)
    show len: "length fs = length qs" using qs by (rule map_eq_imp_length_eq)
    fix i assume i: "i < length fs"
    then have "compile_valid_filter (fs ! i) = Some (qs ! i)"
      using qs len by (metis nth_map)
    with AnyOf i show "sat (qs ! i) (memory_to_record m) = filter_holds (fs ! i) m"
      by (auto simp: list_all_iff)
  qed
  then have "list_ex (\<lambda>q. sat q (memory_to_record m)) qs = list_ex (\<lambda>f. filter_holds f m) fs"
    by (induction rule: list_all2_induct) auto
  then show ?case by (simp add: q query_semanticsD(3) [OF sem])
next
  case (NotF f)
  then show ?case by (auto simp: query_semanticsD(4) [OF sem])
next
  case (Predicate p)
  then show ?case
    using compile_predicate_sound [OF sem stored_field, of p m q] field_value_kind [of "mp_field p" m]
    by (simp add: decided_def)
qed

lemma compile_filter_total: "compile_filter f \<noteq> None"
proof (cases "validate f")
  case (Inr u)
  then have "list_all (\<lambda>p. validate_predicate p = Inr ()) (predicates f)"
    using validate_loop_spec [of "[(f, 1)]" 0 0]
    by (cases "all_valid [(f, 1)]") (auto simp: validate_def all_valid_def list_all_iff)
  with compile_total [of f] Inr show ?thesis by (auto simp: compile_filter_def)
qed (simp add: compile_filter_def)

text \<open>
  C30. Compilation is total and faithful: a filter that validates compiles without panic, and the
  compiled query selects a stored memory exactly when the filter holds of it, for every filter whose
  predicates are decided on the memory (an inequality, order, prefix or containment test of a null
  field is left to the store). A filter that does not validate gives its validation error.
\<close>

theorem compile_filter_faithful:
  assumes "query_semantics sat"
  shows "(case validate f of
      Inl e \<Rightarrow> compile_filter f = Some (Inl e)
    | Inr _ \<Rightarrow> \<exists>q. compile_filter f = Some (Inr q)
        \<and> (\<forall>m. list_all (decided m) (predicates f)
             \<longrightarrow> (sat q (memory_to_record m) \<longleftrightarrow> filter_holds f m)))"
proof (cases "validate f")
  case (Inr u)
  then have "list_all (\<lambda>p. validate_predicate p = Inr ()) (predicates f)"
    using validate_loop_spec [of "[(f, 1)]" 0 0]
    by (cases "all_valid [(f, 1)]") (auto simp: validate_def all_valid_def list_all_iff)
  with compile_total [of f] compile_sound [OF assms, of f] Inr show ?thesis
    by (auto simp: compile_filter_def)
qed (simp add: compile_filter_def)

definition example_filter :: memory_filter where
  "example_filter =
     NotF (Predicate \<lparr>mp_field = Tags, mp_operator = OpContains, mp_value = Some (FString ''a'')\<rparr>)"

theorem compile_filter_faithful_witness:
  "\<exists>q. compile_filter example_filter = Some (Inr q) \<and> \<not> plain_sat q (memory_to_record example_memory)"
proof -
  have "validate example_filter = Inr ()"
    by (simp add: example_filter_def validate_def validate_predicate_def validate_value_def
        validate_scalar_def max_filter_nodes_def max_filter_depth_def)
  moreover have "list_all (decided example_memory) (predicates example_filter)"
    by (simp add: example_filter_def decided_def string_array_value_def)
  moreover have "\<not> filter_holds example_filter example_memory"
    by (simp add: example_filter_def value_holds_def string_array_value_def example_memory_def)
  ultimately show ?thesis
    using compile_filter_faithful [OF plain_query_semantics, of example_filter] by auto
qed

section \<open>Authorization\<close>

text \<open>The identifiers the scope of a memory refers to are present.\<close>

definition scope_complete :: "memory \<Rightarrow> bool" where
  "scope_complete m \<longleftrightarrow> validate_scope_identity (mem_scope m) (identity m) = Inr ()"

lemma stored_text:
  "doc_field (memory_to_record m) ''kind'' = Some (VString ''memory'')"
  "doc_field (memory_to_record m) ''tenant_id'' = Some (VString (tenant_id (identity m)))"
  "doc_field (memory_to_record m) ''user_id'' = Some (VString (user_id (identity m)))"
  "doc_field (memory_to_record m) ''scope'' = Some (VString (scope_as_str (mem_scope m)))"
  "doc_field (memory_to_record m) ''project_id'' = Some (opt_string (project_id (identity m)))"
  "doc_field (memory_to_record m) ''session_id'' = Some (opt_string (session_id (identity m)))"
  by (simp_all add: doc_field_def memory_to_record_def memory_fields_lookup memory_kind_def)

lemma opt_string_eq [simp]: "opt_string o' = VString s \<longleftrightarrow> o' = Some s"
  by (cases o') (simp_all add: opt_string_def)

lemma authorization_iff:
  assumes "query_semantics sat"
  shows "sat (authorization_filter sc) (memory_to_record m) \<longleftrightarrow>
    memory_visible_to m sc \<and> scope_complete m"
proof -
  note laws = query_semanticsD [OF assms]
  have eq: "sat (string_eq f s) (memory_to_record m) \<longleftrightarrow> v = VString s"
    if "doc_field (memory_to_record m) f = Some v" for f s v
    by (simp add: string_eq_def laws(6) [OF that])
  show ?thesis
    unfolding authorization_filter_def
    by (cases "mem_scope m"; cases "rs_project_id sc"; cases "rs_session_id sc")
       (auto simp: laws(2,3) stored_text [THEN eq] memory_visible_to_def scope_complete_def
         validate_scope_identity_def)
qed

text \<open>
  C15. The authorization filter is safe and, on memories whose scope has its identifiers, complete:
  what it admits of the stored memories is what \<open>memory_visible_to\<close> allows, restricted to those.
  In particular it never admits a memory of another tenant or user.
\<close>

theorem authorization_filter_correct:
  assumes "query_semantics sat"
  shows "(sat (authorization_filter sc) (memory_to_record m) \<longleftrightarrow>
      memory_visible_to m sc \<and> scope_complete m)
    \<and> (sat (authorization_filter sc) (memory_to_record m) \<longrightarrow>
      tenant_id (identity m) = rs_tenant_id sc \<and> user_id (identity m) = rs_user_id sc)"
  using authorization_iff [OF assms, of sc m] memory_isolation.visible_owner [of m sc] by simp

theorem authorization_filter_correct_witness:
  "plain_sat (authorization_filter recall_scope_local) (memory_to_record example_memory)"
  using authorization_filter_correct [OF plain_query_semantics, of recall_scope_local example_memory]
  by (simp add: memory_visible_to_def scope_complete_def validate_scope_identity_def
      example_memory_def recall_scope_local_def memory_identity_local_def)

definition orphan_memory :: memory where
  "orphan_memory = example_memory\<lparr>mem_scope := Project\<rparr>"

text \<open>
  The two visibility rules differ on a memory of project scope without a project, which
  \<open>remember\<close> accepts (only \<open>update_memory\<close> checks the identifiers of a scope): a scope without a
  project sees it by \<open>memory_visible_to\<close>, so \<open>get_memory\<close> and recall show it, but the authorization
  filter, so \<open>list_memories\<close>, does not.
\<close>

theorem orphan_memory_not_listed:
  "memory_visible_to orphan_memory recall_scope_local
   \<and> validate_scope_identity (mem_scope orphan_memory) (identity orphan_memory) \<noteq> Inr ()
   \<and> \<not> plain_sat (authorization_filter recall_scope_local) (memory_to_record orphan_memory)"
  using authorization_iff [OF plain_query_semantics, of recall_scope_local orphan_memory]
  by (simp add: memory_visible_to_def scope_complete_def validate_scope_identity_def
      orphan_memory_def example_memory_def recall_scope_local_def memory_identity_local_def)

end
