(* ===== verification/Memory_Updates.thy ===== *)
theory Memory_Updates
  imports Memory_Engine
begin

text \<open>
  What the memory operations promise: a tenant binding is permanent, no operation reaches a memory
  of another owner, a hydrated view discloses what the policy allows, and an update is optimistic.
\<close>

section \<open>Tenant binding\<close>

lemma tenants_loop_rows:
  assumes H: "faithful_store H valid rows rest" and v: "valid s"
  shows "tenants_loop H s c ts = Some (Inr us)
    \<Longrightarrow> us = ts @ List.map_filter doc_tenant (rest s c)"
proof (induction "length (rest s c)" arbitrary: c ts rule: less_induct)
  case less
  obtain ds nx where page: "hy_page H s c 1000 = Inr (ds, nx)"
    using less.prems by (subst (asm) tenants_loop.simps) (auto split: sum.splits)
  have ds: "ds = take 1000 (rest s c)" by (rule faithful_storeD(5) [OF H v page])
  have split: "List.map_filter doc_tenant (rest s c)
      = List.map_filter doc_tenant ds @ List.map_filter doc_tenant (drop 1000 (rest s c))"
    unfolding ds map_filter_def by (metis append_take_drop_id filter_append map_append)
  show ?case
  proof (cases nx)
    case None
    with faithful_storeD(6) [OF H v] page have "length (rest s c) \<le> 1000" by blast
    with split have "List.map_filter doc_tenant (rest s c) = List.map_filter doc_tenant ds"
      by (simp add: map_filter_simps)
    with less.prems page None show ?thesis by (subst (asm) tenants_loop.simps) simp
  next
    case (Some c')
    with faithful_storeD(7) [OF H v] page
    have n: "1000 < length (rest s c)" and r: "rest s (Some c') = drop 1000 (rest s c)" by blast+
    have "tenants_loop H s (Some c') (ts @ List.map_filter doc_tenant ds) = Some (Inr us)"
      using less.prems page Some by (subst (asm) tenants_loop.simps) simp
    moreover have "length (rest s (Some c')) < length (rest s c)" using n r by simp
    ultimately show ?thesis using less.hyps split r by fastforce
  qed
qed

lemma existing_memory_tenants_set:
  assumes "faithful_store H valid rows rest" and "valid s"
    and "existing_memory_tenants H s = Some (Inr ts)"
  shows "set ts = {t. \<exists>d\<in>set (rows s). doc_tenant d = Some t}"
proof -
  obtain us where us: "tenants_loop H s None [] = Some (Inr us)"
    and ts: "ts = remdups_adj (sort us)"
    using assms(3) by (auto simp: existing_memory_tenants_def m_bind_Inr)
  have "us = List.map_filter doc_tenant (rows s)"
    using tenants_loop_rows [OF assms(1,2) us] faithful_storeD(4) [OF assms(1,2)] by simp
  then show ?thesis by (force simp: ts map_filter_def)
qed

lemma doc_tenant_binding [simp]:
  "doc_key (tenant_binding t) = tenant_binding_key" "doc_tenant (tenant_binding t) = Some t"
  by (simp_all add: tenant_binding_def doc_tenant_def)

lemma bound_tenant:
  assumes "hy_get H s tenant_binding_key = Inr (Some d)"
    and "ensure_tenant_binding H s t = Some (Inr s')"
  shows "doc_tenant d = Some t \<and> s' = s"
  using assms
  by (auto simp: ensure_tenant_binding_def doc_tenant_def from_store_def
      split: val.splits option.splits if_splits)

lemma fresh_tenant:
  assumes "hy_get H s tenant_binding_key = Inr None"
    and "ensure_tenant_binding H s t = Some (Inr s')"
  shows "(\<exists>ts. existing_memory_tenants H s = Some (Inr ts) \<and> set ts \<subseteq> {t, ''local''})
    \<and> hy_put H s (tenant_binding t) = Inr s'"
  using assms
  by (auto simp: ensure_tenant_binding_def m_bind_Inr list_ex_iff split: if_splits)

lemma binding_after:
  assumes "faithful_store H valid rows rest" and "valid s"
    and "ensure_tenant_binding H s t = Some (Inr s')"
  shows "valid s' \<and> (\<exists>d. lookup_doc (rows s') tenant_binding_key = Some d \<and> doc_tenant d = Some t)"
proof -
  obtain found where g: "hy_get H s tenant_binding_key = Inr found"
    using assms(3) by (auto simp: ensure_tenant_binding_def m_bind_Inr)
  show ?thesis
  proof (cases found)
    case None
    note put = conjunct2 [OF fresh_tenant [OF g [unfolded None] assms(3)]]
    note s' = faithful_storeD(3) [OF assms(1,2) put]
    have "lookup_doc (rows s') tenant_binding_key = Some (tenant_binding t)"
      unfolding conjunct2 [OF s'] lookup_upsert [OF faithful_storeD(1) [OF assms(1,2)]] by simp
    with s' show ?thesis by simp
  next
    case (Some d)
    note b = bound_tenant [OF g [unfolded Some] assms(3)]
    from faithful_storeD(2) [OF assms(1,2) g] have "lookup_doc (rows s) tenant_binding_key = Some d"
      using Some by simp
    with b assms(2) show ?thesis by simp
  qed
qed

text \<open>
  C37. The tenant of a store is fixed by the first engine that opens it: opening succeeds on an
  unbound store only when every document naming a tenant names this one or the legacy tenant
  \<open>local\<close>, and as long as the binding document is not overwritten, opening the store for another
  tenant fails and opening it for the same tenant changes nothing.
\<close>

theorem tenant_binding_permanent:
  fixes H :: "('s, 'c, 'e) hyphae"
  assumes "faithful_store H valid rows rest" and "valid s"
    and "ensure_tenant_binding H s t = Some (Inr s1)"
    and "valid s2"
    and "lookup_doc (rows s2) tenant_binding_key = lookup_doc (rows s1) tenant_binding_key"
  shows "(\<forall>t' s3. ensure_tenant_binding H s2 t' = Some (Inr s3) \<longrightarrow> t' = t \<and> s3 = s2)
    \<and> (lookup_doc (rows s) tenant_binding_key = None \<longrightarrow>
        (\<forall>d\<in>set (rows s). \<forall>u. doc_tenant d = Some u \<longrightarrow> u = t \<or> u = ''local''))"
proof (intro conjI allI impI ballI)
  obtain d where d: "lookup_doc (rows s2) tenant_binding_key = Some d" "doc_tenant d = Some t"
    using binding_after [OF assms(1-3)] assms(5) by auto
  fix t' s3 assume open': "ensure_tenant_binding H s2 t' = Some (Inr s3)"
  obtain found where g: "hy_get H s2 tenant_binding_key = Inr found"
    using open' by (auto simp: ensure_tenant_binding_def m_bind_Inr)
  with faithful_storeD(2) [OF assms(1,4) g] d(1) have "found = Some d" by simp
  with bound_tenant [OF _ open', of d] g d(2) show "t' = t" "s3 = s2" by simp_all
next
  fix d u
  assume unbound: "lookup_doc (rows s) tenant_binding_key = None"
    and d: "d \<in> set (rows s)" "doc_tenant d = Some u"
  obtain found where g: "hy_get H s tenant_binding_key = Inr found"
    using assms(3) by (auto simp: ensure_tenant_binding_def m_bind_Inr)
  with faithful_storeD(2) [OF assms(1,2) g] unbound
  have "hy_get H s tenant_binding_key = Inr None" by simp
  from fresh_tenant [OF this assms(3)] obtain ts where
    "existing_memory_tenants H s = Some (Inr ts)" "set ts \<subseteq> {t, ''local''}" by blast
  with existing_memory_tenants_set [OF assms(1,2)] d show "u = t \<or> u = ''local''" by blast
qed

section \<open>Reading\<close>

lemma get_memory_Some:
  "get_memory H b3 q15_ok tenant s i sc = Some (Inr (Some m)) \<longleftrightarrow>
     rs_tenant_id sc = tenant \<and> memory_visible_to m sc
     \<and> (\<exists>rec. hy_get H s i = Inr (Some rec) \<and> memory_from_record b3 q15_ok rec = Inr m)"
  by (auto simp: get_memory_def require_tenant_def m_bind_Inr split: option.splits if_splits)

lemma get_memory_key:
  assumes "faithful_store H valid rows rest" and "valid s"
    and "get_memory H b3 q15_ok tenant s i sc = Some (Inr (Some m))"
  shows "mem_id m = i \<and> wf_memory q15_ok m"
proof -
  obtain rec where g: "hy_get H s i = Inr (Some rec)" and m: "memory_from_record b3 q15_ok rec = Inr m"
    using assms(3) by (auto simp: get_memory_Some)
  from faithful_storeD(2) [OF assms(1,2) g] have "doc_key rec = i"
    using lookup_doc_Some [of "rows s" i rec] by simp
  with memory_from_record_wf [OF m] show ?thesis by simp
qed

lemma get_memory_hidden:
  fixes H :: "('s, 'c, 'e) hyphae"
  assumes "hy_get H s i = Inr (Some rec)" and "memory_from_record b3 q15_ok rec = Inr m"
    and "\<not> memory_visible_to m sc" and "rs_tenant_id sc = tenant"
  shows "get_memory H b3 q15_ok tenant s i sc = (m_return None :: ('e, memory option) outcome)"
  using assms by (simp add: get_memory_def require_tenant_def from_store_def from_decode_def)

text \<open>
  C5. No operation reaches the memory of another owner: for a stored memory of another tenant or
  user, reading it gives nothing, its disclosed view is empty whatever authority is claimed, and
  updating it is refused with the store unchanged.
\<close>

theorem foreign_memory_unreachable:
  fixes H :: "('s, 'c, 'e) hyphae"
  assumes "hy_get H s i = Inr (Some rec)" and "memory_from_record b3 q15_ok rec = Inr m"
    and "tenant_id (identity m) \<noteq> rs_tenant_id sc \<or> user_id (identity m) \<noteq> rs_user_id sc"
    and "rs_tenant_id sc = tenant" and "um_id req = i" and "um_scope req = sc"
  shows "get_memory H b3 q15_ok tenant s i sc = Some (Inr None)
    \<and> get_disclosed_memory H b3 q15_ok tenant s sc auth purpose i = Some (Inr None)
    \<and> update_memory H b3 q15_ok tenant s req = Some (Inr (None, s))"
proof -
  have "\<not> memory_visible_to m sc" using memory_isolation.visible_owner assms(3) by fastforce
  from get_memory_hidden [OF assms(1,2) this assms(4)]
  have "get_memory H b3 q15_ok tenant s i sc = Some (Inr None)" by (simp add: m_return_def)
  then show ?thesis using assms(4-6)
    by (simp add: get_disclosed_memory_def hydrate_def require_tenant_def update_memory_def
        m_return_def)
qed

section \<open>Disclosure\<close>

text \<open>What the policy lets a view of a memory say.\<close>

definition disclosed_as :: "memory \<Rightarrow> disclosure_authority \<Rightarrow> memory_purpose \<Rightarrow> hydrated_memory \<Rightarrow> bool" where
  "disclosed_as m auth purpose h \<longleftrightarrow>
     hm_disclosure h = (case governance m of
         None \<Rightarrow> Disclose_Restrict
       | Some g \<Rightarrow> disclosure_class_of (gov_treatment g) auth purpose)
     \<and> hm_disclosure h \<noteq> Disclose_Abstain
     \<and> hm_content h =
        (if hm_disclosure h = Disclose_Include then content m
         else if hm_disclosure h = Disclose_Redact
         then redact (content m) (redaction_spans (gov_trace (the (governance m))))
         else restricted_summary)"

lemma disclose_memory_Some:
  "disclose_memory m auth purpose = (c, Some text') \<Longrightarrow> disclosed_as m auth purpose (hydrated_view m c text')"
  by (auto simp: disclose_memory_def disclosed_as_def hydrated_view_def disclosure_decision_def Let_def
      split: option.splits disclosure_class.splits)

lemma hydrate_ids_views:
  assumes "faithful_store H valid rows rest" and "valid s"
  shows "hydrate_ids H b3 q15_ok tenant s sc auth purpose is = Some (Inr hs)
    \<Longrightarrow> subseq (map hm_id hs) is
      \<and> (\<forall>h\<in>set hs. \<exists>m. get_memory H b3 q15_ok tenant s (hm_id h) sc = Some (Inr (Some m))
           \<and> disclosed_as m auth purpose h)"
proof (induction "is" arbitrary: hs)
  case Nil
  then show ?case by simp
next
  case (Cons i js)
  from Cons.prems obtain found where g: "get_memory H b3 q15_ok tenant s i sc = Some (Inr found)"
    by (auto simp: m_bind_Inr)
  show ?case
  proof (cases "\<exists>m c x. found = Some m \<and> disclose_memory m auth purpose = (c, Some x)")
    case True
    then obtain m c x where m: "found = Some m" and d: "disclose_memory m auth purpose = (c, Some x)"
      by blast
    from Cons.prems g m d obtain ks where
      ks: "hydrate_ids H b3 q15_ok tenant s sc auth purpose js = Some (Inr ks)"
      and hs: "hs = hydrated_view m c x # ks" by (auto simp: m_bind_Inr)
    have "hm_id (hydrated_view m c x) = i"
      using get_memory_key [OF assms g [unfolded m]] by (simp add: hydrated_view_def)
    with Cons.IH [OF ks] g m disclose_memory_Some [OF d] hs show ?thesis by auto
  next
    case False
    with Cons.prems g have "hydrate_ids H b3 q15_ok tenant s sc auth purpose js = Some (Inr hs)"
      by (auto split: option.splits prod.splits)
    from Cons.IH [OF this] show ?thesis by auto
  qed
qed

text \<open>
  C4. Hydration is bounded and follows the policy: it returns at most 200 views, in the order of the
  requested ids, each of a memory the scope may see, and each shows the memory's text, its redaction
  or only the withheld notice exactly as the disclosure rule for its treatment, the reader's
  authority and the purpose says; an ungoverned memory shows the notice only and a quarantined
  memory shows nothing at all.
\<close>

theorem hydrate_discloses_by_policy:
  assumes "faithful_store H valid rows rest" and "valid s"
    and "hydrate H b3 q15_ok tenant s sc auth purpose ids = Some (Inr hs)"
  shows "length hs \<le> 200 \<and> subseq (map hm_id hs) ids
    \<and> (\<forall>h\<in>set hs. \<exists>m. get_memory H b3 q15_ok tenant s (hm_id h) sc = Some (Inr (Some m))
         \<and> memory_visible_to m sc \<and> disclosed_as m auth purpose h)"
proof -
  have run: "hydrate_ids H b3 q15_ok tenant s sc auth purpose (take 200 ids) = Some (Inr hs)"
    using assms(3) by (auto simp: hydrate_def require_tenant_def m_bind_Inr split: if_splits)
  note views = hydrate_ids_views [OF assms(1,2) run]
  have "length hs \<le> length (take 200 ids)"
    using list_emb_length [OF conjunct1 [OF views]] by simp
  moreover have "subseq (map hm_id hs) ids"
    by (rule subseq_order.trans [OF conjunct1 [OF views]])
      (metis append_take_drop_id list_emb_append2 subseq_order.order_refl append.right_neutral prefix_def
        prefix_imp_subseq)
  ultimately show ?thesis using conjunct2 [OF views] get_memory_Some [of H b3 q15_ok tenant s] by auto
qed

section \<open>Updating\<close>

lemma update_memory_Some:
  assumes "update_memory H b3 q15_ok tenant s req = Some (Inr (Some m', s'))"
  obtains m where "get_memory H b3 q15_ok tenant s (um_id req) (um_scope req) = Some (Inr (Some m))"
    and "mem_revision m = um_if_revision req"
    and "m' = (apply_patch (um_patch req) m)
               \<lparr>mem_revision := u64_saturating_add (mem_revision m) 1,
                updated_at_ms := um_now_ms req\<rparr>"
    and "\<not> empty_patch (um_patch req)"
    and "\<forall>x. pt_scope (um_patch req) = Some x \<longrightarrow> validate_scope_identity x (identity m) = Inr ()"
    and "hy_put H s (memory_to_record m') = Inr s'"
proof -
  from assms obtain m where
    g: "get_memory H b3 q15_ok tenant s (um_id req) (um_scope req) = Some (Inr (Some m))"
    by (auto simp: update_memory_def m_bind_Inr split: option.splits)
  with assms show ?thesis
    by (intro that [of m]) (auto simp: update_memory_def m_bind_Inr Let_def split: if_splits option.splits)
qed

lemma u64_of_i64_nonneg: "u64_of_i64 w = Some v \<Longrightarrow> uint v < 2 ^ 63"
proof -
  assume "u64_of_i64 w = Some v"
  then have "0 \<le> sint v" by (auto simp: u64_of_i64_def split: if_splits)
  moreover have "sint v < 2 ^ 63" using sint_lt [of v] by simp
  ultimately have "uint (word_of_int (sint v) :: u64) = sint v"
    by (subst uint_word_of_int) simp
  moreover have "(word_of_int (sint v) :: u64) = v" by simp
  ultimately show ?thesis using \<open>sint v < 2 ^ 63\<close> by (simp only:)
qed

lemma read_revision_bound:
  assumes "memory_from_record b3 q15_ok rec = Inr m"
  shows "uint (mem_revision m) < 2 ^ 63"
proof -
  have key: "utf8_valid (doc_key rec)"
    using assms by (simp add: memory_from_record_def split: if_splits)
  from assms obtain w where "u64_of_i64 w = Some (mem_revision m)"
    by (simp only: memory_from_record_def key r_bind_Inr not_True_eq_False if_False
        ok_or_Inr sum.inject) (elim exE conjE, hypsubst, simp only: memory.select_convs)
  then show ?thesis by (rule u64_of_i64_nonneg)
qed

lemma update_keeps_wf:
  "wf_memory q15_ok m \<Longrightarrow> wf_memory q15_ok ((apply_patch p m)\<lparr>mem_revision := r, updated_at_ms := n\<rparr>)"
  by (simp add: wf_memory_def apply_patch_def)

lemma u64_increment:
  assumes "uint (v :: u64) < 2 ^ 63"
  shows "u64_saturating_add v 1 = v + 1 \<and> uint (v + 1) = uint v + 1"
  using assms by (simp add: u64_saturating_add_def uint_word_arith_bintrs take_bit_int_eq_self)

text \<open>The record the store holds after an update reads back with the increased revision.\<close>

lemma update_read_back:
  fixes H :: "('s, 'c, 'e) hyphae"
  assumes "faithful_store H valid rows rest" and "valid s"
    and "update_memory H b3 q15_ok tenant s req = Some (Inr (Some m', s'))"
    and "get_memory H b3 q15_ok tenant s' (um_id req) sc = Some (Inr (Some m2))"
  shows "m2 = as_stored m'"
proof -
  obtain m where g: "get_memory H b3 q15_ok tenant s (um_id req) (um_scope req) = Some (Inr (Some m))"
    and m': "m' = (apply_patch (um_patch req) m)
               \<lparr>mem_revision := u64_saturating_add (mem_revision m) 1,
                updated_at_ms := um_now_ms req\<rparr>"
    and put: "hy_put H s (memory_to_record m') = Inr s'"
    using update_memory_Some [OF assms(3)] by metis
  note wf = get_memory_key [OF assms(1,2) g]
  have wf': "wf_memory q15_ok m'" unfolding m' by (rule update_keeps_wf [OF conjunct2 [OF wf]])
  have key: "doc_key (memory_to_record m') = um_id req"
    using wf by (simp add: memory_to_record_def memory_key_def m' apply_patch_def)
  note s' = faithful_storeD(3) [OF assms(1,2) put]
  from assms(4) obtain rec where get: "hy_get H s' (um_id req) = Inr (Some rec)"
    and m2: "memory_from_record b3 q15_ok rec = Inr m2" by (auto simp: get_memory_Some)
  have "lookup_doc (rows s') (um_id req) = Some (memory_to_record m')"
    unfolding conjunct2 [OF s'] lookup_upsert [OF faithful_storeD(1) [OF assms(1,2)]] key by simp
  with faithful_storeD(2) [OF assms(1) conjunct1 [OF s'] get] have "rec = memory_to_record m'" by simp
  with m2 memory_decode_encode [OF wf', of b3] show ?thesis by simp
qed

lemma updated_memory:
  fixes H :: "('s, 'c, 'e) hyphae"
  assumes "faithful_store H valid rows rest" and "valid s"
    and "update_memory H b3 q15_ok tenant s req = Some (Inr (Some m', s'))"
  obtains m where "get_memory H b3 q15_ok tenant s (um_id req) (um_scope req) = Some (Inr (Some m))"
    and "mem_revision m = um_if_revision req" and "uint (mem_revision m) < 2 ^ 63"
    and "uint (mem_revision m') = uint (mem_revision m) + 1"
    and "m' = (apply_patch (um_patch req) m)
               \<lparr>mem_revision := mem_revision m', updated_at_ms := um_now_ms req\<rparr>"
    and "rows s' = upsert (memory_to_record m') (rows s)"
proof -
  obtain m where g: "get_memory H b3 q15_ok tenant s (um_id req) (um_scope req) = Some (Inr (Some m))"
    and rev: "mem_revision m = um_if_revision req"
    and m': "m' = (apply_patch (um_patch req) m)
               \<lparr>mem_revision := u64_saturating_add (mem_revision m) 1,
                updated_at_ms := um_now_ms req\<rparr>"
    and put: "hy_put H s (memory_to_record m') = Inr s'"
    using update_memory_Some [OF assms(3)] by metis
  have bound: "uint (mem_revision m) < 2 ^ 63" using g read_revision_bound by (auto simp: get_memory_Some)
  have "uint (mem_revision m') = uint (mem_revision m) + 1"
    using u64_increment [OF bound] by (simp add: m')
  moreover have "m' = (apply_patch (um_patch req) m)
               \<lparr>mem_revision := mem_revision m', updated_at_ms := um_now_ms req\<rparr>"
    using m' by simp
  ultimately show ?thesis
    using that g rev bound conjunct2 [OF faithful_storeD(3) [OF assms(1,2) put]] by blast
qed

lemma stale_revision_refused:
  fixes H :: "('s, 'c, 'e) hyphae"
  assumes "faithful_store H valid rows rest" and "valid s"
    and "update_memory H b3 q15_ok tenant s req = Some (Inr (Some m', s'))"
    and below: "um_if_revision req \<noteq> i64_max" and same: "um_id req2 = um_id req"
    "um_if_revision req2 = um_if_revision req"
  shows "update_memory H b3 q15_ok tenant s' req2 \<noteq> Some (Inr (Some m2, s2))"
proof
  assume again: "update_memory H b3 q15_ok tenant s' req2 = Some (Inr (Some m2, s2))"
  obtain m where "get_memory H b3 q15_ok tenant s (um_id req) (um_scope req) = Some (Inr (Some m))"
    and rev: "mem_revision m = um_if_revision req" and bound: "uint (mem_revision m) < 2 ^ 63"
    and incr: "uint (mem_revision m') = uint (mem_revision m) + 1"
    and "m' = (apply_patch (um_patch req) m)
               \<lparr>mem_revision := mem_revision m', updated_at_ms := um_now_ms req\<rparr>"
    and "rows s' = upsert (memory_to_record m') (rows s)"
    by (rule updated_memory [OF assms(1-3)])
  obtain m3 where g3: "get_memory H b3 q15_ok tenant s' (um_id req) (um_scope req2) = Some (Inr (Some m3))"
    and rev3: "mem_revision m3 = um_if_revision req"
    using update_memory_Some [OF again] same by metis
  have "uint (mem_revision m) \<noteq> 2 ^ 63 - 1"
    using below unfolding i64_max_def rev by (metis word_of_int_uint)
  with bound incr have "mem_revision (as_stored m') = mem_revision m'" by (simp add: as_stored_def)
  with rev rev3 update_read_back [OF assms(1-3) g3] have "mem_revision m' = mem_revision m" by simp
  with incr show False by simp
qed

text \<open>
  C3. Updates are optimistic and lose no write: an update that succeeds started from the revision
  its caller named, changes the patched fields, the revision and the time only (never the identity,
  the provenance, the content, its vector or its governance) and writes that one document; after it,
  no update naming the same revision succeeds, whatever its scope and patch, as long as the revision
  is below the largest the store can hold.
\<close>

theorem update_memory_optimistic:
  fixes H :: "('s, 'c, 'e) hyphae"
  assumes "faithful_store H valid rows rest" and "valid s"
    and "update_memory H b3 q15_ok tenant s req = Some (Inr (Some m', s'))"
  shows "(\<exists>m. get_memory H b3 q15_ok tenant s (um_id req) (um_scope req) = Some (Inr (Some m))
       \<and> mem_revision m = um_if_revision req \<and> uint (mem_revision m') = uint (mem_revision m) + 1
       \<and> m' = (apply_patch (um_patch req) m)
               \<lparr>mem_revision := mem_revision m', updated_at_ms := um_now_ms req\<rparr>
       \<and> (identity m', provenance m', content m', mem_vector m', governance m')
         = (identity m, provenance m, content m, mem_vector m, governance m)
       \<and> rows s' = upsert (memory_to_record m') (rows s))
    \<and> (\<forall>req2 m2 s2. um_if_revision req \<noteq> i64_max \<longrightarrow> um_id req2 = um_id req
         \<longrightarrow> um_if_revision req2 = um_if_revision req
         \<longrightarrow> update_memory H b3 q15_ok tenant s' req2 \<noteq> Some (Inr (Some m2, s2)))"
proof (intro conjI allI impI)
  obtain m where g: "get_memory H b3 q15_ok tenant s (um_id req) (um_scope req) = Some (Inr (Some m))"
    "mem_revision m = um_if_revision req" "uint (mem_revision m') = uint (mem_revision m) + 1"
    and m': "m' = (apply_patch (um_patch req) m)
               \<lparr>mem_revision := mem_revision m', updated_at_ms := um_now_ms req\<rparr>"
    and rows: "rows s' = upsert (memory_to_record m') (rows s)"
    using updated_memory [OF assms] by metis
  have "(identity m', provenance m', content m', mem_vector m', governance m')
      = (identity m, provenance m, content m, mem_vector m, governance m)"
    by (subst (1 2 3 4 5) m') (simp add: apply_patch_def)
  with g m' rows show "\<exists>m. get_memory H b3 q15_ok tenant s (um_id req) (um_scope req) = Some (Inr (Some m))
       \<and> mem_revision m = um_if_revision req \<and> uint (mem_revision m') = uint (mem_revision m) + 1
       \<and> m' = (apply_patch (um_patch req) m)
               \<lparr>mem_revision := mem_revision m', updated_at_ms := um_now_ms req\<rparr>
       \<and> (identity m', provenance m', content m', mem_vector m', governance m')
         = (identity m, provenance m, content m, mem_vector m, governance m)
       \<and> rows s' = upsert (memory_to_record m') (rows s)" by blast
next
  fix req2 :: update_memory_request and m2 s2
  assume "um_if_revision req \<noteq> i64_max" "um_id req2 = um_id req"
    "um_if_revision req2 = um_if_revision req"
  then show "update_memory H b3 q15_ok tenant s' req2 \<noteq> Some (Inr (Some m2, s2))"
    by (rule stale_revision_refused [OF assms])
qed

section \<open>Runs on the list store\<close>

definition example_patch :: memory_patch where
  "example_patch = \<lparr>pt_importance = Some (Fin 1), pt_state = None, pt_scope = None, pt_tags = None,
     pt_event_at_ms = None\<rparr>"

definition example_update :: update_memory_request where
  "example_update = \<lparr>um_id = ''m1'', um_scope = recall_scope_local, um_patch = example_patch,
     um_if_revision = 1, um_now_ms = 9\<rparr>"

definition example_rows :: "doc list" where
  "example_rows = [memory_to_record example_memory]"

lemma example_rows_facts:
  "key_sorted example_rows" "lookup_doc example_rows ''m1'' = Some (memory_to_record example_memory)"
  by (simp_all add: example_rows_def key_sorted_def lookup_doc_def memory_to_record_def memory_key_def
      example_memory_def)

lemma example_get:
  "get_memory list_store (\<lambda>x. x) (\<lambda>_. True) ''local'' example_rows ''m1'' recall_scope_local
   = Some (Inr (Some (as_stored example_memory)))"
proof -
  have "memory_visible_to (as_stored example_memory) recall_scope_local"
    "rs_tenant_id recall_scope_local = ''local''"
    by (simp_all add: memory_visible_to_def as_stored_def example_memory_def recall_scope_local_def
        memory_identity_local_def)
  then show ?thesis
    by (simp add: get_memory_Some example_rows_facts memory_decode_encode [OF example_memory_wf])
qed

lemma example_update_run:
  "\<exists>m s'. update_memory list_store (\<lambda>x. x) (\<lambda>_. True) ''local'' example_rows example_update
     = Some (Inr (Some m, s'))"
proof -
  have "mem_revision (as_stored example_memory) = 1" by (simp add: as_stored_def example_memory_def)
  then show ?thesis
    by (simp add: update_memory_def example_update_def example_get example_patch_def empty_patch_def
        from_store_def m_return_def Let_def)
qed

theorem update_memory_optimistic_witness:
  "\<exists>m s'. update_memory list_store (\<lambda>x. x) (\<lambda>_. True) ''local'' example_rows example_update
       = Some (Inr (Some m, s')) \<and> content m = ''hi''
     \<and> (\<forall>m2 s2. update_memory list_store (\<lambda>x. x) (\<lambda>_. True) ''local'' s' example_update
          \<noteq> Some (Inr (Some m2, s2)))"
proof -
  obtain m s' where run: "update_memory list_store (\<lambda>x. x) (\<lambda>_. True) ''local'' example_rows
      example_update = Some (Inr (Some m, s'))" using example_update_run by blast
  note fact = update_memory_optimistic [OF list_store_faithful example_rows_facts(1) run]
  have "content m = ''hi''"
    using conjunct1 [OF fact] example_get
    by (auto simp: example_update_def as_stored_def example_memory_def)
  moreover have "um_if_revision example_update \<noteq> i64_max"
    by (simp add: example_update_def i64_max_def)
  ultimately show ?thesis using run conjunct2 [OF fact] by blast
qed

theorem hydrate_discloses_by_policy_witness:
  "\<exists>h. hydrate list_store (\<lambda>x. x) (\<lambda>_. True) ''local'' example_rows recall_scope_local Owner
       TaskExecution [''m1''] = Some (Inr [h]) \<and> hm_content h = restricted_summary"
proof -
  have g: "governance (as_stored example_memory) = None"
    by (simp add: as_stored_def example_memory_def)
  have "rs_tenant_id recall_scope_local = ''local''"
    by (simp add: recall_scope_local_def memory_identity_local_def)
  then obtain h where run: "hydrate list_store (\<lambda>x. x) (\<lambda>_. True) ''local'' example_rows
      recall_scope_local Owner TaskExecution [''m1''] = Some (Inr [h])"
    by (simp add: hydrate_def require_tenant_def example_get disclose_memory_def g m_return_def)
  from hydrate_discloses_by_policy [OF list_store_faithful example_rows_facts(1) run]
  obtain m where m: "get_memory list_store (\<lambda>x. x) (\<lambda>_. True) ''local'' example_rows (hm_id h)
      recall_scope_local = Some (Inr (Some m))" and d: "disclosed_as m Owner TaskExecution h"
    and "subseq [hm_id h] [''m1'']" by auto
  then have "m = as_stored example_memory" using example_get by (simp split: if_splits)
  with d g run show ?thesis by (auto simp: disclosed_as_def)
qed

theorem foreign_memory_unreachable_witness:
  "update_memory list_store (\<lambda>x. x) (\<lambda>_. True) ''local'' example_rows
     (example_update\<lparr>um_scope := recall_scope_local\<lparr>rs_user_id := ''eve''\<rparr>\<rparr>) = Some (Inr (None, example_rows))"
proof -
  have get: "hy_get list_store example_rows ''m1'' = Inr (Some (memory_to_record example_memory))"
    by (simp add: example_rows_facts)
  define req where "req = example_update\<lparr>um_scope := recall_scope_local\<lparr>rs_user_id := ''eve''\<rparr>\<rparr>"
  have other: "tenant_id (identity (as_stored example_memory)) \<noteq> rs_tenant_id (um_scope req)
      \<or> user_id (identity (as_stored example_memory)) \<noteq> rs_user_id (um_scope req)"
    and own: "rs_tenant_id (um_scope req) = ''local''" "um_id req = ''m1''"
    by (simp_all add: req_def example_update_def as_stored_def example_memory_def
        memory_identity_local_def recall_scope_local_def)
  from foreign_memory_unreachable [OF get memory_decode_encode [OF example_memory_wf] other own refl]
  show ?thesis by (simp only: req_def simp_thms)
qed

theorem tenant_binding_permanent_witness:
  "\<exists>s1. ensure_tenant_binding list_store example_rows ''acme'' = Some (Inr s1)
     \<and> (\<forall>s3. ensure_tenant_binding list_store s1 ''evil'' \<noteq> Some (Inr s3))"
proof -
  have t: "doc_tenant (memory_to_record example_memory) = Some ''local''"
    by (simp add: doc_tenant_def memory_to_record_def memory_fields_def insert_identity_def
        insert_provenance_def insert_content_def insert_lifecycle_def insert_embedding_def
        example_memory_def memory_identity_local_def opt_string_def)
  have "tenants_loop list_store example_rows None [] = Some (Inr [''local''])"
    by (subst tenants_loop.simps)
      (simp add: list_store_def Let_def example_rows_def map_filter_simps t)
  moreover have "lookup_doc example_rows tenant_binding_key = None"
    by (simp add: lookup_doc_def example_rows_def memory_to_record_def memory_key_def
        example_memory_def tenant_binding_key_def)
  ultimately obtain s1 where run: "ensure_tenant_binding list_store example_rows ''acme'' = Some (Inr s1)"
    by (simp add: ensure_tenant_binding_def existing_memory_tenants_def from_scan_def from_store_def)
  have "key_sorted s1"
    using binding_after [OF list_store_faithful example_rows_facts(1) run] by simp
  from tenant_binding_permanent [OF list_store_faithful example_rows_facts(1) run this refl] run
  show ?thesis by auto
qed

end
