(* ===== verification/Recall_Scoring.thy ===== *)
theory Recall_Scoring
  imports Float_Arith Prelude
begin

text \<open>
  The scoring formulas of \<open>celiums-cognition\<close>: the forgetting curve, reactivation and lifecycle decay
  of \<open>retention.rs\<close>, and the arousal-modulated recall score of \<open>recall.rs\<close>.
\<close>

section \<open>Retention\<close>

definition archive_threshold :: f64 where
  "archive_threshold = Fin 0.05"

definition retrievability :: "f64 \<Rightarrow> f64 \<Rightarrow> f64" where
  "retrievability days_since_access strength' =
     (let strength' = f64_max strength' (Fin 0.01);
          days = f64_max days_since_access (Fin 0)
      in f64_clamp (f64_exp (- days / strength')) 0 1)"

definition emotional_weight :: "f64 \<Rightarrow> f64 \<Rightarrow> f64" where
  "emotional_weight valence arousal' = Fin 0.6 * arousal' + Fin 0.4 * f64_abs valence"

record reactivation_outcome =
  ro_importance :: f64
  ro_strength :: f64
  ro_retrieval_count :: u32

definition f64_of_u32 :: "u32 \<Rightarrow> f64" where
  "f64_of_u32 w = Fin (real (unat w))"

definition reactivate :: "f64 \<Rightarrow> f64 \<Rightarrow> u32 \<Rightarrow> reactivation_outcome" where
  "reactivate importance' strength' retrieval_count' =
     (let headroom = Fin 1 - importance';
          retrieval_count' = u32_saturating_add retrieval_count' 1
      in \<lparr>ro_importance = f64_min (Fin 1) (importance' + headroom * Fin 0.2),
          ro_strength = strength' + Fin 0.1 * (Fin 1 + f64_of_u32 retrieval_count' * Fin 0.05),
          ro_retrieval_count = retrieval_count'\<rparr>)"

definition lifecycle_decay :: "f64 \<Rightarrow> f64 \<Rightarrow> f64" where
  "lifecycle_decay importance' days_without_access =
     (let days = f64_max days_without_access (Fin 0)
      in f64_max (Fin 0) (importance' * f64_powf 0.95 days))"

section \<open>Recall score\<close>

record recall_weights =
  w_semantic :: f64
  w_text_match :: f64
  w_importance :: f64
  w_retrievability :: f64
  w_emotional :: f64
  w_resonance :: f64

definition default_weights :: recall_weights where
  "default_weights =
     \<lparr>w_semantic = Fin 0.35, w_text_match = Fin 0.15, w_importance = Fin 0.15,
      w_retrievability = Fin 0.10, w_emotional = Fin 0.10, w_resonance = Fin 0.15\<rparr>"

record channel_scores =
  ch_semantic :: f64
  ch_text_match :: f64
  ch_importance :: f64
  ch_retrievability :: f64
  ch_emotional :: f64
  ch_resonance :: f64

definition sar_beta :: "f64 \<Rightarrow> f64" where
  "sar_beta a = f64_max (Fin 0.5) (- (Fin 2.5) * ((a - Fin 0.4) * (a - Fin 0.4)) + Fin 2)"

definition resonance_boost :: "recall_weights \<Rightarrow> f64 \<Rightarrow> f64" where
  "resonance_boost w a =
     f64_min (f64_max (Fin 0) (w_semantic w - Fin 0.15)) (f64_max (Fin 0) a * Fin 0.1)"

definition score :: "recall_weights \<Rightarrow> channel_scores \<Rightarrow> f64 \<Rightarrow> f64" where
  "score w c current_arousal =
     (let adjusted_resonance = ch_resonance c * sar_beta current_arousal;
          boost = resonance_boost w current_arousal;
          semantic_weight = w_semantic w - boost;
          resonance_weight = w_resonance w + boost
      in semantic_weight * ch_semantic c + w_text_match w * ch_text_match c
         + w_importance w * ch_importance c + w_retrievability w * ch_retrievability c
         + w_emotional w * ch_emotional c + resonance_weight * adjusted_resonance)"

definition neutral_arousal :: f64 where
  "neutral_arousal = Fin 0.4"

section \<open>Bounds\<close>

lemma retrievability_ranged:
  "ranged lo hi d \<Longrightarrow> ranged lo' hi' s \<Longrightarrow> ranged 0 1 (retrievability d s)"
  by (auto simp: ranged_def retrievability_def Let_def)

lemma retrievability_Fin:
  "retrievability (Fin d) (Fin s) = Fin (exp (- max d 0 / max s 0.01))"
proof -
  define q where "q = max d 0 / max s 0.01"
  have pos: "max s 0.01 > 0" "max d 0 \<ge> 0" by auto
  then have q: "0 \<le> q" by (simp add: q_def divide_nonneg_pos)
  have "retrievability (Fin d) (Fin s) = f64_clamp (Fin (exp (- q))) 0 1"
    using pos(1) by (simp add: retrievability_def Let_def q_def del: f64_max.simps)
  also have "\<dots> = Fin (exp (- q))" using q by (simp add: not_less)
  finally show ?thesis by (simp add: q_def)
qed

lemma reactivate_Fin:
  assumes "i \<le> 1"
  shows "ro_importance (reactivate (Fin i) (Fin s) n) = Fin (i + (1 - i) * 0.2)"
    and "ro_strength (reactivate (Fin i) (Fin s) n)
       = Fin (s + 0.1 * (1 + real (unat (u32_saturating_add n 1)) * 0.05))"
proof -
  have "i + (1 - i) * 0.2 \<le> 1" using assms by (simp add: field_simps)
  then show "ro_importance (reactivate (Fin i) (Fin s) n) = Fin (i + (1 - i) * 0.2)"
    by (simp add: reactivate_def Let_def del: f64_min.simps)
  show "ro_strength (reactivate (Fin i) (Fin s) n)
       = Fin (s + 0.1 * (1 + real (unat (u32_saturating_add n 1)) * 0.05))"
    by (simp add: reactivate_def Let_def f64_of_u32_def)
qed

lemma lifecycle_decay_Fin:
  "lifecycle_decay (Fin i) (Fin d) = Fin (max 0 (i * 0.95 powr (max d 0)))"
  by (simp add: lifecycle_decay_def Let_def)

lemma sar_beta_Fin:
  "sar_beta (Fin a) = Fin (max 0.5 (2 - 2.5 * (a - 0.4)\<^sup>2))"
  by (simp add: sar_beta_def power2_eq_square)

lemma boost_Fin:
  "resonance_boost default_weights (Fin a) = Fin (min 0.2 (max 0 a * 0.1))"
  by (simp add: resonance_boost_def default_weights_def max_def)

text \<open>
  Spaced repetition works as described: for an importance below one, one reactivation raises it
  by a fifth of the remaining headroom and never reaches one, raises the strength by at least a
  tenth, and so raises the retrievability of the memory at every later day; the lifecycle decay is
  the same whether it runs once over a period or once in each part of it, and never raises an
  importance.
\<close>

theorem retention_laws:
  assumes "0 \<le> i" and "i < 1" and "0 \<le> s" and "0 \<le> d" and "0 \<le> e"
  shows "(\<exists>i' s'. ro_importance (reactivate (Fin i) (Fin s) n) = Fin i'
        \<and> ro_strength (reactivate (Fin i) (Fin s) n) = Fin s'
        \<and> i < i' \<and> i' < 1 \<and> s + 0.1 \<le> s'
        \<and> retrievability (Fin d) (Fin s) \<le> retrievability (Fin d) (Fin s'))
    \<and> lifecycle_decay (lifecycle_decay (Fin i) (Fin d)) (Fin e) = lifecycle_decay (Fin i) (Fin (d + e))
    \<and> lifecycle_decay (Fin i) (Fin d) \<le> Fin i"
proof -
  define s' where "s' = s + 0.1 * (1 + real (unat (u32_saturating_add n 1)) * 0.05)"
  define k where "k = real (unat (u32_saturating_add n 1))"
  have "0 \<le> k" unfolding k_def by (rule of_nat_0_le_iff)
  then have s': "s + 0.1 \<le> s'" unfolding s'_def k_def [symmetric] by simp
  have "d / max s' 0.01 \<le> d / max s 0.01"
    using assms(4) s' by (intro divide_left_mono) (auto simp: max_def)
  then have "retrievability (Fin d) (Fin s) \<le> retrievability (Fin d) (Fin s')"
    using assms(4) by (simp add: retrievability_Fin)
  moreover have "ro_strength (reactivate (Fin i) (Fin s) n) = Fin s'"
    using reactivate_Fin(2) [of i s n] assms(2) by (simp add: s'_def)
  moreover have "ro_importance (reactivate (Fin i) (Fin s) n) = Fin (i + (1 - i) * 0.2)"
    using reactivate_Fin(1) [of i s n] assms(2) by simp
  moreover have "i < i + (1 - i) * 0.2" "i + (1 - i) * 0.2 < 1" using assms(2) by (simp_all add: field_simps)
  moreover have "lifecycle_decay (lifecycle_decay (Fin i) (Fin d)) (Fin e)
      = lifecycle_decay (Fin i) (Fin (d + e))"
    using assms by (simp add: lifecycle_decay_Fin powr_add mult.assoc)
  moreover have "i * 0.95 powr d \<le> i * 1"
    using assms by (intro mult_left_mono powr_le1) simp_all
  then have "lifecycle_decay (Fin i) (Fin d) \<le> Fin i" using assms by (simp add: lifecycle_decay_Fin)
  ultimately show ?thesis using s' by blast
qed

theorem retention_laws_witness:
  "\<exists>s'. ro_strength (reactivate (Fin 0) (Fin 1) 0) = Fin s' \<and> 1 < s'
     \<and> retrievability (Fin 1) (Fin 1) \<le> retrievability (Fin 1) (Fin s')"
proof -
  have "\<exists>i' s'. ro_importance (reactivate (Fin 0) (Fin 1) 0) = Fin i'
        \<and> ro_strength (reactivate (Fin 0) (Fin 1) 0) = Fin s'
        \<and> 0 < i' \<and> i' < 1 \<and> 1 + 0.1 \<le> s'
        \<and> retrievability (Fin 1) (Fin 1) \<le> retrievability (Fin 1) (Fin s')"
    using retention_laws [of 0 1 1 1 0] by simp
  then show ?thesis by force
qed

text \<open>The score over finite channels, as an expression over the reals.\<close>

definition channels :: "real \<Rightarrow> real \<Rightarrow> real \<Rightarrow> real \<Rightarrow> real \<Rightarrow> real \<Rightarrow> channel_scores" where
  "channels s t i r e p =
     \<lparr>ch_semantic = Fin s, ch_text_match = Fin t, ch_importance = Fin i, ch_retrievability = Fin r,
      ch_emotional = Fin e, ch_resonance = Fin p\<rparr>"

definition boost_of :: "real \<Rightarrow> real" where
  "boost_of a = min 0.2 (max 0 a * 0.1)"

definition beta_of :: "real \<Rightarrow> real" where
  "beta_of a = max 0.5 (2 - 2.5 * (a - 0.4)\<^sup>2)"

lemma beta_of_bounds: "0.5 \<le> beta_of a" "beta_of a \<le> 2" "beta_of a = 2 \<longleftrightarrow> a = 0.4"
proof -
  show "0.5 \<le> beta_of a" "beta_of a \<le> 2" by (auto simp: beta_of_def max_def)
  show "beta_of a = 2 \<longleftrightarrow> a = 0.4"
  proof (cases "a = 0.4")
    case False
    then have "0 < (a - 0.4)\<^sup>2" by simp
    then have "2 - 2.5 * (a - 0.4)\<^sup>2 < 2" by argo
    with False show ?thesis unfolding beta_of_def max_def by argo
  next
    case True
    show ?thesis unfolding True beta_of_def by simp
  qed
qed

lemma boost_of_bounds: "0 \<le> boost_of a" "boost_of a \<le> 0.2" "a \<le> 1 \<Longrightarrow> boost_of a \<le> 0.1"
  by (auto simp: boost_of_def max_def)

lemma score_Fin:
  "score default_weights (channels s t i r e p) (Fin a)
   = Fin ((0.35 - boost_of a) * s + 0.15 * t + 0.15 * i + 0.1 * r + 0.1 * e
          + (0.15 + boost_of a) * (p * beta_of a))"
proof -
  have w: "w_semantic default_weights = Fin 0.35" "w_text_match default_weights = Fin 0.15"
    "w_importance default_weights = Fin 0.15" "w_retrievability default_weights = Fin 0.1"
    "w_emotional default_weights = Fin 0.1" "w_resonance default_weights = Fin 0.15"
    by (simp_all add: default_weights_def)
  show ?thesis
    unfolding score_def Let_def boost_Fin sar_beta_Fin w channels_def channel_scores.select_convs
      boost_of_def beta_of_def minus_Fin times_f64.simps plus_f64.simps ..
qed

lemma weighted_sum:
  fixes A B b t i r e :: real
  assumes "A \<le> 0.35 - b" "B \<le> (0.15 + b) * 2" "0 \<le> A" "0 \<le> B" "0 \<le> t" "t \<le> 1" "0 \<le> i" "i \<le> 1"
    "0 \<le> r" "r \<le> 1" "0 \<le> e" "e \<le> 1" "b \<le> 0.1"
  shows "0 \<le> A + 0.15 * t + 0.15 * i + 0.1 * r + 0.1 * e + B
    \<and> A + 0.15 * t + 0.15 * i + 0.1 * r + 0.1 * e + B \<le> 1.25"
  using assms by (simp add: field_simps)

text \<open>
  The recall score behaves as its documentation says, for every arousal between -1 and 1 and
  channels between 0 and 1: it lies between 0 and 1.25, it never falls when a channel rises, the
  resonance channel is scaled by a factor between one half and two that is two exactly at the optimal
  arousal, and the semantic channel keeps a weight of at least 0.15 whatever the arousal.
\<close>

theorem recall_score_bounds:
  assumes "a \<le> 1" and "list_all (\<lambda>x. 0 \<le> x \<and> x \<le> 1) [s, t, i, r, e, p]"
    and "list_all2 (\<le>) [s, t, i, r, e, p] [s', t', i', r', e', p']"
  shows "ranged 0 1.25 (score default_weights (channels s t i r e p) (Fin a))
    \<and> score default_weights (channels s t i r e p) (Fin a)
        \<le> score default_weights (channels s' t' i' r' e' p') (Fin a)
    \<and> ranged 0.5 2 (sar_beta (Fin a)) \<and> (sar_beta (Fin a) = Fin 2 \<longleftrightarrow> Fin a = neutral_arousal)
    \<and> Fin 0.15 \<le> w_semantic default_weights - resonance_boost default_weights (Fin a)"
proof -
  let ?b = "boost_of a" and ?s = "beta_of a"
  note b = boost_of_bounds [of a] and g = beta_of_bounds [of a]
  have b1: "?b \<le> 0.1" using b(3) assms(1) .
  have c: "0 \<le> s" "s \<le> 1" "0 \<le> t" "t \<le> 1" "0 \<le> i" "i \<le> 1" "0 \<le> r" "r \<le> 1" "0 \<le> e" "e \<le> 1"
    "0 \<le> p" "p \<le> 1" using assms(2) by simp_all
  have le: "s \<le> s'" "t \<le> t'" "i \<le> i'" "r \<le> r'" "e \<le> e'" "p \<le> p'" using assms(3) by simp_all
  have sw: "0 \<le> 0.35 - ?b" using b1 by simp
  have rw: "0 \<le> 0.15 + ?b" using b(1) by simp
  have "(0.35 - ?b) * s \<le> 0.35 - ?b" using sw c(2) by (simp add: mult_left_le)
  moreover have "p * ?s \<le> 1 * 2" using c g by (intro mult_mono) simp_all
  then have "(0.15 + ?b) * (p * ?s) \<le> (0.15 + ?b) * 2" using rw by (intro mult_left_mono) simp_all
  moreover have "0 \<le> (0.35 - ?b) * s" using sw c(1) by simp
  moreover have "0 \<le> p * ?s" using c(11) g(1) by simp
  then have "0 \<le> (0.15 + ?b) * (p * ?s)" using rw by simp
  ultimately have "ranged 0 1.25 (score default_weights (channels s t i r e p) (Fin a))"
    using c b1 unfolding score_Fin ranged_Fin by (intro weighted_sum)
  moreover have "p * ?s \<le> p' * ?s" using le(6) g(1) by (intro mult_right_mono) simp_all
  ultimately have "ranged 0 1.25 (score default_weights (channels s t i r e p) (Fin a))
    \<and> score default_weights (channels s t i r e p) (Fin a)
       \<le> score default_weights (channels s' t' i' r' e' p') (Fin a)"
    using le sw rw unfolding score_Fin less_eq_f64.simps by (intro conjI add_mono mult_left_mono) simp_all
  moreover have "ranged 0.5 2 (sar_beta (Fin a))" "sar_beta (Fin a) = Fin 2 \<longleftrightarrow> Fin a = neutral_arousal"
    using g unfolding sar_beta_Fin beta_of_def [symmetric] neutral_arousal_def by simp_all
  moreover have "Fin 0.15 \<le> w_semantic default_weights - resonance_boost default_weights (Fin a)"
    unfolding boost_Fin boost_of_def [symmetric] using b(2) by (simp add: default_weights_def)
  ultimately show ?thesis by blast
qed

theorem recall_score_bounds_witness:
  "score default_weights (channels 0 0 0 0 0 0) (Fin 0.4) \<le> score default_weights (channels 1 1 1 1 1 1) (Fin 0.4)
   \<and> sar_beta (Fin 0.4) = Fin 2"
  using recall_score_bounds [where a = "0.4" and s = 0 and t = 0 and i = 0 and r = 0 and e = 0 and p = 0
      and s' = 1 and t' = 1 and i' = 1 and r' = 1 and e' = 1 and p' = 1] by (simp add: neutral_arousal_def)

end
