(* ===== verification/Remember_Retry.thy ===== *)
theory Remember_Retry
  imports Remember_Claims
begin

text \<open>Idempotent retries of \<open>remember\<close>: what the ledger holds after a keyed call, and what a later call
  with the same key finds.\<close>

section \<open>The ledger\<close>

definition ledger_holds ::
  "rust_env \<Rightarrow> ('s \<Rightarrow> doc list) \<Rightarrow> 's \<Rightarrow> string \<Rightarrow> string \<Rightarrow> memory \<Rightarrow> i16 list \<Rightarrow> bool" where
  "ledger_holds E rows s tenant k m vec \<longleftrightarrow>
     lookup_doc (rows s) (durable_key (env_b3 E) tenant (user_id (identity m)) k)
       = Some (ledger_to_record (env_b3 E) tenant (user_id (identity m)) k
           (remember_record_new (mem_id m) (canonical_remember_hash (env_b3 E) m vec)))
     \<and> lookup_doc (rows s) (mem_id m) = Some (memory_to_record m)"

lemma get_ok:
  assumes "faithful_store H valid rows rest" and "valid s"
  shows "ok_or_hyphae (from_store (hy_get H s k)) (\<lambda>r. r = lookup_doc (rows s) k)"
  using faithful_storeD(2) [OF assms, of k]
  by (cases "hy_get H s k") (simp_all add: from_store_def ok_or_hyphae_def)

lemma no_slash_keys:
  assumes "CHR ''/'' \<notin> set i"
  shows "\<not> engine_key i" and "durable_key b3 t u k \<noteq> i"
proof -
  have "prefix p i \<Longrightarrow> CHR ''/'' \<notin> set p" for p using assms by (auto simp: prefix_def)
  from this [of entity_prefix] this [of audit_key_prefix]
  show "\<not> engine_key i"
    using assms
    by (auto simp: engine_key_def state_key_def mood_key_def entity_prefix_def audit_key_prefix_def
        affect_state_key_def circadian_state_key_def)
  have "CHR ''/'' \<in> set (durable_key b3 t u k)" by (simp add: durable_key_def remember_key_prefix_def)
  with assms show "durable_key b3 t u k \<noteq> i" by auto
qed

lemma durable_not_engine: "\<not> engine_key (durable_key b3 t u k)"
  by (auto simp: durable_key_def remember_key_prefix_def engine_key_def state_key_def mood_key_def entity_prefix_def
      audit_key_prefix_def affect_state_key_def circadian_state_key_def)

lemma replay_unused:
  fixes H :: "('s, 'c, 'e) hyphae"
  assumes st: "faithful_store H valid rows rest" and v: "valid (en_store g)"
    and "lookup_doc (rows (en_store g)) (durable_key (env_b3 E) (en_tenant g) (user_id (identity m)) k) = None"
    and "lookup_doc (rows (en_store g)) (legacy_durable_key (env_b3 E) (en_tenant g) k) = None"
  shows "ok_or_hyphae (replay H O' E g k m vec) (\<lambda>r. r = None)"
proof -
  have "ok_or_hyphae (find_ledger H E g (user_id (identity m)) k) (\<lambda>(found, legacy). found = None)"
    unfolding find_ledger_def
  proof (rule ok_or_hyphae_bind [OF get_ok [OF st v]])
    fix found
    assume "found = lookup_doc (rows (en_store g))
        (durable_key (env_b3 E) (en_tenant g) (user_id (identity m)) k)"
    then have "found = None" using assms(3) by simp
    moreover have "ok_or_hyphae
        (m_bind (from_store (hy_get H (en_store g) (legacy_durable_key (env_b3 E) (en_tenant g) k)))
          (\<lambda>old. (m_return (old, True) :: ('e, doc option \<times> bool) outcome))) (\<lambda>(found, legacy). found = None)"
      by (rule ok_or_hyphae_bind [OF get_ok [OF st v]]) (simp add: assms(4))
    ultimately show "ok_or_hyphae (case found of
          Some rec \<Rightarrow> m_return (Some rec, False)
        | None \<Rightarrow>
            m_bind (from_store (hy_get H (en_store g) (legacy_durable_key (env_b3 E) (en_tenant g) k)))
              (\<lambda>old. (m_return (old, True) :: ('e, doc option \<times> bool) outcome))) (\<lambda>(found, legacy). found = None)"
      by simp
  qed
  then show ?thesis
    unfolding replay_def by (rule ok_or_hyphae_bind) (auto simp: split_beta)
qed

lemma put_vectors_ok:
  assumes "faithful_ops H O' valid rows vecs" and "valid s"
  shows "ok_or_hyphae (from_store (op_put_vectors O' s kvs)) (\<lambda>s'. valid s' \<and> rows s' = rows s)"
  using faithful_opsD(4) [OF assms, of kvs]
  by (cases "op_put_vectors O' s kvs") (simp_all add: from_store_def ok_or_hyphae_def)

text \<open>What the ledger decides when the key has been used.\<close>

lemma replay_used:
  fixes H :: "('s, 'c, 'e) hyphae"
  assumes st: "faithful_store H valid rows rest" "faithful_ops H O' valid rows vecs"
    and v: "valid (en_store g)" and led: "ledger_holds E rows (en_store g) (en_tenant g) k m vec"
    and wf: "wf_memory (env_q15_ok E) m"
    and hex: "env_from_hex E (canonical_remember_hash (env_b3 E) m vec)
      = Some (canonical_remember_hash (env_b3 E) m vec)"
    and user: "user_id (identity m') = user_id (identity m)"
  shows "if canonical_remember_hash (env_b3 E) m' vec' = canonical_remember_hash (env_b3 E) m vec
    then ok_or_hyphae (replay H O' E g k m' vec') (\<lambda>r. \<exists>g'. r = Some (as_stored m, g')
        \<and> valid (en_store g') \<and> rows (en_store g') = rows (en_store g))
    else \<forall>r. replay H O' E g k m' vec' \<noteq> Some (Inr r)"
proof -
  let ?dk = "durable_key (env_b3 E) (en_tenant g) (user_id (identity m)) k"
  let ?l = "ledger_to_record (env_b3 E) (en_tenant g) (user_id (identity m)) k
        (remember_record_new (mem_id m) (canonical_remember_hash (env_b3 E) m vec))"
  have l1: "lookup_doc (rows (en_store g)) ?dk = Some ?l"
    and l2: "lookup_doc (rows (en_store g)) (mem_id m) = Some (memory_to_record m)"
    using led by (simp_all add: ledger_holds_def)
  have dec: "ledger_from_record (env_from_hex E) ?l
      = Inr (remember_record_new (mem_id m) (canonical_remember_hash (env_b3 E) m vec))"
    by (rule ledger_roundtrip [where from_hex = "env_from_hex E" and h = "canonical_remember_hash (env_b3 E) m vec", OF hex])
  have rr: "rr_memory_id (remember_record_new i h) = i" "rr_request_hash (remember_record_new i h) = h"
    for i h by (simp_all add: remember_record_new_def)
  have found: "replay H O' E g k m' vec' = Some (Inl (Hyphae e))"
    if "hy_get H (en_store g) ?dk = Inl e" for e
    using that user by (simp add: replay_def find_ledger_def from_store_def)
  have step: "replay H O' E g k m' vec' =
      (if canonical_remember_hash (env_b3 E) m' vec' \<noteq> canonical_remember_hash (env_b3 E) m vec
       then m_fail IdempotencyConflict
       else if is_quarantined (as_stored m) then m_return (Some (as_stored m, g))
       else m_bind (from_store (op_put_vectors O' (en_store g) [(mem_id m, vec')]))
              (\<lambda>s'. m_return (Some (as_stored m, g\<lparr>en_store := s'\<rparr>))))"
    if g1: "hy_get H (en_store g) ?dk = Inr x" and g2: "hy_get H (en_store g) (mem_id m) = Inr y" for x y
  proof -
    have "x = Some ?l" using faithful_storeD(2) [OF st(1) v] g1 l1 by metis
    with g1 have r1: "hy_get H (en_store g) ?dk = Inr (Some ?l)" by simp
    have "y = Some (memory_to_record m)" using faithful_storeD(2) [OF st(1) v] g2 l2 by metis
    with g2 have r2: "hy_get H (en_store g) (mem_id m) = Inr (Some (memory_to_record m))" by simp
    show ?thesis
      unfolding replay_def find_ledger_def user
      by (auto simp: from_store_def dec from_ledger_def rr memory_decode_encode [OF wf] from_decode_def
          m_return_def [symmetric] r1 r2)
  qed
  have miss: "replay H O' E g k m' vec' = Some (Inl (Hyphae e))"
    if g1: "hy_get H (en_store g) ?dk = Inr x" and g2: "hy_get H (en_store g) (mem_id m) = Inl e" for x e
  proof -
    have "x = Some ?l" using faithful_storeD(2) [OF st(1) v] g1 l1 by metis
    with g1 g2 show ?thesis
      unfolding replay_def find_ledger_def user by (simp add: from_store_def dec from_ledger_def rr m_return_def)
  qed
  have put: "ok_or_hyphae (m_bind (from_store (op_put_vectors O' (en_store g) [(mem_id m, vec')]))
      (\<lambda>s'. (m_return (Some (as_stored m, g\<lparr>en_store := s'\<rparr>)) :: ('e, (memory \<times> 's engine) option) outcome)))
      (\<lambda>r. \<exists>g'. r = Some (as_stored m, g') \<and> valid (en_store g') \<and> rows (en_store g') = rows (en_store g))"
    by (rule ok_or_hyphae_bind [OF put_vectors_ok [OF st(2) v]]) simp
  show ?thesis
  proof (cases "hy_get H (en_store g) ?dk")
    case (Inl e)
    with found show ?thesis by (simp add: ok_or_hyphae_def)
  next
    case (Inr x)
    show ?thesis
    proof (cases "hy_get H (en_store g) (mem_id m)")
      case (Inl e)
      with miss [OF Inr] show ?thesis by (simp add: ok_or_hyphae_def)
    next
      case y: (Inr y)
      show ?thesis unfolding step [OF Inr y] using put v by simp
    qed
  qed
qed

section \<open>Retrying\<close>

text \<open>The canonical hash of the memory a request describes; it does not depend on the id or the clock.\<close>

definition request_hash :: "rust_env \<Rightarrow> 's engine \<Rightarrow> remember_request \<Rightarrow> i16 list \<Rightarrow> string" where
  "request_hash E g req vec = canonical_remember_hash (env_b3 E) (new_memory E g req [] vec) vec"

lemma request_hash_clock:
  assumes "en_space g2 = en_space g"
  shows "canonical_remember_hash (env_b3 E) (new_memory E g2 (req\<lparr>rq_now_ms := now\<rparr>) i vec) vec
    = request_hash E g req vec"
    and "canonical_remember_hash (env_b3 E) (new_memory E g req i vec) vec = request_hash E g req vec"
    and "user_id (identity (new_memory E g2 (req\<lparr>rq_now_ms := now\<rparr>) i vec))
      = user_id (rc_identity (request_context E req))"
  using assms by (simp_all add: request_hash_def canonical_remember_hash_def remember_preimage_def new_memory_def
      request_context_def request_governance_def classify_governance_def remember_context_local_def
      write_role_purpose_def Let_def split: option.split)

lemma same_user_new:
  "user_id (identity (new_memory E g req i vec)) = user_id (rc_identity (request_context E req))"
  by (simp add: new_memory_def Let_def)

lemma retry_gates:
  "request_governance E (req\<lparr>rq_now_ms := now\<rparr>)
     = (request_governance E req)\<lparr>gov_trace := (gov_trace (request_governance E req))\<lparr>evaluated_at_ms := now\<rparr>\<rparr>"
  "rc_identity (request_context E (req\<lparr>rq_now_ms := now\<rparr>)) = rc_identity (request_context E req)"
  "rc_provenance (request_context E (req\<lparr>rq_now_ms := now\<rparr>)) = rc_provenance (request_context E req)"
  by (simp_all add: request_governance_def classify_governance_def request_context_def
      remember_context_local_def Let_def split: option.split)

text \<open>What a keyed call that was not a replay leaves behind.\<close>

lemma keyed_run:
  fixes H :: "('s, 'c, 'e) hyphae"
  assumes st: "faithful_store H valid rows rest" "faithful_ops H O' valid rows vecs"
    and v: "valid (en_store g)" and key: "rq_idempotency_key req = Some k"
    and unused: "lookup_doc (rows (en_store g)) (durable_key (env_b3 E) (en_tenant g)
        (user_id (rc_identity (request_context E req))) k) = None"
      "lookup_doc (rows (en_store g)) (legacy_durable_key (env_b3 E) (en_tenant g) k) = None"
    and run: "remember H O' E g fresh_id audit_id req = Some (Inr (m, g'))"
    and slash': "CHR ''/'' \<notin> set (memory_id_for E g req fresh_id)"
  obtains vec where "quantize (env_q15_ok E) (rq_embedding req) (en_dimension g)
      = (Inr vec :: 'e engine_error + i16 list)"
    and "m = new_memory E g req (memory_id_for E g req fresh_id) vec"
    and "ledger_holds E rows (en_store g') (en_tenant g) k m vec" and "valid (en_store g')"
proof -
  let ?new = "new_memory E g req (memory_id_for E g req fresh_id)"
  obtain vec where q: "quantize (env_q15_ok E) (rq_embedding req) (en_dimension g)
      = (Inr vec :: 'e engine_error + i16 list)"
    and rest: "(case rq_idempotency_key req of
        None \<Rightarrow> carry_out H O' E g audit_id req (?new vec) vec
      | Some k \<Rightarrow> m_bind (replay H O' E g k (?new vec) vec)
            (\<lambda>done'. case done' of Some r \<Rightarrow> m_return r
             | None \<Rightarrow> carry_out H O' E g audit_id req (?new vec) vec)) = Some (Inr (m, g'))"
    using run by (rule remember_unkeyed)
  let ?m = "?new vec"
  obtain d where d: "replay H O' E g k ?m vec = Some (Inr d)"
    and co: "(case d of Some r \<Rightarrow> m_return r | None \<Rightarrow> carry_out H O' E g audit_id req ?m vec)
      = Some (Inr (m, g'))"
    using rest unfolding key option.case m_bind_Inr by blast
  have "d = None"
    using replay_unused [OF st(1) v unused(1) [folded same_user_new [of E g req "memory_id_for E g req fresh_id" vec]]
      unused(2), of O' vec] d by (simp only: ok_or_hyphae_def) simp
  with co have co': "carry_out H O' E g audit_id req ?m vec = Some (Inr (m, g'))" by simp
  have id: "mem_id ?m = memory_id_for E g req fresh_id" by (simp add: new_memory_def Let_def)
  have slash: "CHR ''/'' \<notin> set (mem_id ?m)" unfolding id by (rule slash')
  have distinct: "durable_key (env_b3 E) (en_tenant g) (user_id (identity ?m)) j \<noteq> mem_id ?m" for j
    unfolding id by (rule no_slash_keys(2) [OF slash'])
  obtain s1 where m: "m = ?m" and put: "put_memory H O' E g (Some k) ?m vec = Some (Inr s1)"
    and ke: "keeps (if is_quarantined ?m then state_key else engine_key) valid rows vecs s1 (en_store g')"
    using carry_out_keeps [OF st v co' distinct] unfolding key by blast
  note f = put_memory_Inr [OF st v put distinct, unfolded option.case]
  have "keeps engine_key valid rows vecs s1 (en_store g')"
    by (rule keeps_mono [OF ke]) (simp split: if_splits)
  then have same: "lookup_doc (rows (en_store g')) j = lookup_doc (rows s1) j" if "\<not> engine_key j" for j
    using that by (simp add: keeps_def)
  have "ledger_holds E rows (en_store g') (en_tenant g) k ?m vec"
    unfolding ledger_holds_def
  proof (rule conjI)
    show "lookup_doc (rows (en_store g')) (durable_key (env_b3 E) (en_tenant g) (user_id (identity ?m)) k)
        = Some (ledger_to_record (env_b3 E) (en_tenant g) (user_id (identity ?m)) k
           (remember_record_new (mem_id ?m) (canonical_remember_hash (env_b3 E) ?m vec)))"
      using f by (intro trans [OF same [OF durable_not_engine]]) (elim conjE)
    show "lookup_doc (rows (en_store g')) (mem_id ?m) = Some (memory_to_record ?m)"
      using f by (intro trans [OF same [OF no_slash_keys(1) [OF slash]]]) (elim conjE)
  qed
  then have "ledger_holds E rows (en_store g') (en_tenant g) k m vec" unfolding m .
  moreover have "valid (en_store g')" using ke by (simp add: keeps_def)
  ultimately show ?thesis using q m by (intro that)
qed

lemma retry_unfold:
  fixes H :: "('s, 'c, 'e) hyphae"
  assumes "remember H O' E g fresh_id audit_id req = Some (Inr r)" and "rq_idempotency_key req = Some k"
    and "quantize (env_q15_ok E) (rq_embedding req) (en_dimension g) = (Inr vec :: 'e engine_error + i16 list)"
    and "en_tenant g2 = en_tenant g" "en_space g2 = en_space g" "en_dimension g2 = en_dimension g"
  shows "\<exists>i. remember H O' E g2 fresh2 audit2 (req\<lparr>rq_now_ms := now\<rparr>) =
    m_bind (replay H O' E g2 k (new_memory E g2 (req\<lparr>rq_now_ms := now\<rparr>) i vec) vec)
      (\<lambda>done'. case done' of
         Some r \<Rightarrow> m_return r
       | None \<Rightarrow> carry_out H O' E g2 audit2 (req\<lparr>rq_now_ms := now\<rparr>)
                   (new_memory E g2 (req\<lparr>rq_now_ms := now\<rparr>) i vec) vec)"
proof -
  let ?sp = "case rq_embedding_space req of None \<Rightarrow> en_space g | Some sp \<Rightarrow> sp"
  have gate: "gov_enforcement (request_governance E req) \<noteq> Enforce_Reject"
    using assms(1) by (auto simp: remember_def)
  have "(ensure_embedding_space (en_space g) ?sp :: ('e, unit) outcome) = Some (Inr ())
      \<and> tenant_id (rc_identity (request_context E req)) = en_tenant g
      \<and> content_hash (rc_provenance (request_context E req)) = env_b3 E (rq_content req)"
    using assms(1) gate assms(3) unfolding remember_def
    by (auto simp: m_bind_Inr require_tenant_def split: if_splits)
  then have sp: "(ensure_embedding_space (en_space g) ?sp :: ('e, unit) outcome) = Some (Inr ())"
    and ten: "tenant_id (rc_identity (request_context E req)) = en_tenant g"
    and hash: "content_hash (rc_provenance (request_context E req)) = env_b3 E (rq_content req)"
    by simp_all
  have "remember H O' E g2 fresh2 audit2 (req\<lparr>rq_now_ms := now\<rparr>) =
    m_bind (replay H O' E g2 k (new_memory E g2 (req\<lparr>rq_now_ms := now\<rparr>)
        (memory_id_for E g2 (req\<lparr>rq_now_ms := now\<rparr>) fresh2) vec) vec)
      (\<lambda>done'. case done' of
         Some r \<Rightarrow> m_return r
       | None \<Rightarrow> carry_out H O' E g2 audit2 (req\<lparr>rq_now_ms := now\<rparr>)
                   (new_memory E g2 (req\<lparr>rq_now_ms := now\<rparr>)
                     (memory_id_for E g2 (req\<lparr>rq_now_ms := now\<rparr>) fresh2) vec) vec)"
    unfolding remember_def retry_gates
    using gate sp [folded assms(5)] ten hash assms(2,3,4,6) by (simp add: require_tenant_def Let_def assms(5))
  then show ?thesis by blast
qed

text \<open>
  C2. A keyed \<open>remember\<close> may be retried. After a first successful call with a new key, and as long as
  the ledger entry and the memory it wrote are still there, the same request at any later time
  returns the stored memory and writes no document (it only fails when the store does), whatever
  fresh ids it is given; and no other request of that user succeeds under the key unless its
  canonical hash is that of the first, in which case it too returns the first memory: a key never
  stands for two different requests.
\<close>

theorem remember_retry_safe:
  fixes H :: "('s, 'c, 'e) hyphae"
  assumes "faithful_store H valid rows rest" and "faithful_ops H O' valid rows vecs"
    and "valid (en_store g)" and "rq_idempotency_key req = Some k"
    and "lookup_doc (rows (en_store g)) (durable_key (env_b3 E) (en_tenant g)
        (user_id (rc_identity (request_context E req))) k) = None"
    and "lookup_doc (rows (en_store g)) (legacy_durable_key (env_b3 E) (en_tenant g) k) = None"
    and "remember H O' E g fresh_id audit_id req = Some (Inr (m, g1))"
    and "CHR ''/'' \<notin> set (memory_id_for E g req fresh_id)" and "wf_memory (env_q15_ok E) m"
    and "\<And>x. env_from_hex E (env_b3 E x) = Some (env_b3 E x)"
    and "valid (en_store g2)" and "en_tenant g2 = en_tenant g" "en_space g2 = en_space g"
      "en_dimension g2 = en_dimension g"
    and "\<And>d. d = mem_id m \<or> d = durable_key (env_b3 E) (en_tenant g) (user_id (identity m)) k \<Longrightarrow>
      lookup_doc (rows (en_store g2)) d = lookup_doc (rows (en_store g1)) d"
  shows "ok_or_hyphae (remember H O' E g2 fresh2 audit2 (req\<lparr>rq_now_ms := now\<rparr>))
      (\<lambda>(m', g3). m' = as_stored m \<and> rows (en_store g3) = rows (en_store g2))
    \<and> (\<forall>req2 m' g3. rq_idempotency_key req2 = Some k
        \<longrightarrow> user_id (rc_identity (request_context E req2)) = user_id (rc_identity (request_context E req))
        \<longrightarrow> remember H O' E g2 fresh2 audit2 req2 = Some (Inr (m', g3))
        \<longrightarrow> (\<exists>vec2. quantize (env_q15_ok E) (rq_embedding req2) (en_dimension g2)
                = (Inr vec2 :: 'e engine_error + i16 list)
              \<and> request_hash E g2 req2 vec2 = canonical_remember_hash (env_b3 E) m (the (mem_vector m)))
            \<and> m' = as_stored m \<and> rows (en_store g3) = rows (en_store g2))"
proof -
  obtain vec where q: "quantize (env_q15_ok E) (rq_embedding req) (en_dimension g)
      = (Inr vec :: 'e engine_error + i16 list)"
    and m: "m = new_memory E g req (memory_id_for E g req fresh_id) vec"
    and led: "ledger_holds E rows (en_store g1) (en_tenant g) k m vec"
    using assms(1-8) by (rule keyed_run)
  have vec: "the (mem_vector m) = vec" by (simp add: m new_memory_def Let_def)
  have user: "user_id (identity m) = user_id (rc_identity (request_context E req))"
    unfolding m by (rule same_user_new)
  have led2: "ledger_holds E rows (en_store g2) (en_tenant g2) k m vec"
    using led unfolding ledger_holds_def assms(12) by (simp add: assms(15))
  have hex: "env_from_hex E (canonical_remember_hash (env_b3 E) m vec)
      = Some (canonical_remember_hash (env_b3 E) m vec)"
    unfolding canonical_remember_hash_def by (rule assms(10))
  note used = replay_used [OF assms(1,2,11) led2 assms(9) hex]
  let ?req = "req\<lparr>rq_now_ms := now\<rparr>"
  obtain i where run: "remember H O' E g2 fresh2 audit2 ?req =
    m_bind (replay H O' E g2 k (new_memory E g2 ?req i vec) vec)
      (\<lambda>done'. case done' of
         Some r \<Rightarrow> m_return r
       | None \<Rightarrow> carry_out H O' E g2 audit2 ?req (new_memory E g2 ?req i vec) vec)"
    using retry_unfold [OF assms(7,4) q assms(12-14)] by blast
  have same: "canonical_remember_hash (env_b3 E) (new_memory E g2 ?req i vec) vec
      = canonical_remember_hash (env_b3 E) m vec"
    unfolding m by (rule trans [OF request_hash_clock(1) [OF assms(13)] request_hash_clock(2) [OF refl, symmetric]])
  have "ok_or_hyphae (replay H O' E g2 k (new_memory E g2 ?req i vec) vec)
      (\<lambda>r. \<exists>g'. r = Some (as_stored m, g') \<and> valid (en_store g') \<and> rows (en_store g') = rows (en_store g2))"
    using used [of "new_memory E g2 ?req i vec" vec] same user request_hash_clock(3) [OF assms(13)] by simp
  then have retry: "ok_or_hyphae (remember H O' E g2 fresh2 audit2 ?req)
      (\<lambda>(m', g3). m' = as_stored m \<and> rows (en_store g3) = rows (en_store g2))"
    unfolding run by (rule ok_or_hyphae_bind) auto
  show ?thesis
  proof (intro conjI allI impI retry)
    fix req2 m' g3
    assume k2: "rq_idempotency_key req2 = Some k"
      and u2: "user_id (rc_identity (request_context E req2)) = user_id (rc_identity (request_context E req))"
      and run2: "remember H O' E g2 fresh2 audit2 req2 = Some (Inr (m', g3))"
    let ?new = "new_memory E g2 req2 (memory_id_for E g2 req2 fresh2)"
    obtain vec2 where q2: "quantize (env_q15_ok E) (rq_embedding req2) (en_dimension g2)
        = (Inr vec2 :: 'e engine_error + i16 list)"
      and rest: "(case rq_idempotency_key req2 of
          None \<Rightarrow> carry_out H O' E g2 audit2 req2 (?new vec2) vec2
        | Some k \<Rightarrow> m_bind (replay H O' E g2 k (?new vec2) vec2)
              (\<lambda>done'. case done' of Some r \<Rightarrow> m_return r
               | None \<Rightarrow> carry_out H O' E g2 audit2 req2 (?new vec2) vec2)) = Some (Inr (m', g3))"
      using run2 by (rule remember_unkeyed)
    obtain d where d: "replay H O' E g2 k (?new vec2) vec2 = Some (Inr d)"
      and out: "(case d of Some r \<Rightarrow> m_return r
               | None \<Rightarrow> carry_out H O' E g2 audit2 req2 (?new vec2) vec2) = Some (Inr (m', g3))"
      using rest unfolding k2 option.case m_bind_Inr by blast
    have u: "user_id (identity (?new vec2)) = user_id (identity m)" unfolding same_user_new user by (rule u2)
    have h: "canonical_remember_hash (env_b3 E) (?new vec2) vec2 = canonical_remember_hash (env_b3 E) m vec"
      using used [OF u, of vec2] d by (auto split: if_splits)
    obtain g' where "d = Some (as_stored m, g')" and g': "rows (en_store g') = rows (en_store g2)"
      using used [OF u, of vec2] unfolding if_P [OF h] d by auto
    with out have "m' = as_stored m" "g3 = g'" by simp_all
    with q2 h g' show "(\<exists>vec2. quantize (env_q15_ok E) (rq_embedding req2) (en_dimension g2)
                = (Inr vec2 :: 'e engine_error + i16 list)
              \<and> request_hash E g2 req2 vec2 = canonical_remember_hash (env_b3 E) m (the (mem_vector m)))"
      "m' = as_stored m" "rows (en_store g3) = rows (en_store g2)"
      unfolding vec request_hash_clock(2) [OF refl] by simp_all
  qed
qed

lemma example_new_wf: "wf_memory (env_q15_ok quiet_env) (example_new key)"
proof -
  have "gov_trace (request_governance quiet_env (example_request key)) = 
      \<lparr>policy_id = governance_policy_id, policy_version = governance_policy_version,
       trace_policy_hash = policy_hash, evaluated_at_ms = 7, ethics_enforcement_blocked = False, pii = [],
       secrets = [], redaction_spans = []\<rparr>"
    by (simp add: request_governance_def quiet_env_def example_request_def classify_governance_def
      quiet_detectors_def detect_redactions_def Let_def raw_redactions_def add_matches_def
      add_capture_matches_def map_filter_simps normalize_spans_def detected_pii_def detected_secrets_def)
  then have "wf_governance (request_governance quiet_env (example_request key))"
    by (simp add: wf_governance_def)
  moreover have "valid_identity ''p''" "valid_identity ''m''" "valid_identity ''1''" by code_simp+
  moreover have "mem_id (example_new key) = ''m1'' \<or> mem_id (example_new key) = ''u1''"
    by (cases key) (simp_all add: example_new_facts)
  moreover have "embedding_space (example_new key) = Some example_space"
    "governance (example_new key) = Some (request_governance quiet_env (example_request key))"
    "identity (example_new key) = memory_identity_local"
    by (simp_all add: example_new_def new_memory_def Let_def example_engine_def request_context_def
        remember_context_local_def example_request_def)
  ultimately show ?thesis
    by (auto simp: wf_memory_def wf_memory_identity_def memory_identity_local_def wf_embedding_space_def
        example_space_def ascii_utf8_valid ascii_def code_def quiet_env_def option.pred_True)
qed

theorem remember_retry_safe_witness:
  "\<exists>g1. remember vec_store vec_ops quiet_env example_engine ''m1'' ''a1'' (example_request (Some ''k''))
       = Some (Inr (example_new (Some ''k''), g1))
     \<and> ok_or_hyphae (remember vec_store vec_ops quiet_env (example_engine\<lparr>en_store := en_store g1\<rparr>) ''m2'' ''a2''
         ((example_request (Some ''k''))\<lparr>rq_now_ms := 99\<rparr>))
         (\<lambda>(m', g3). m' = as_stored (example_new (Some ''k'')) \<and> fst (en_store g3) = fst (en_store g1))"
proof -
  let ?r = "example_request (Some ''k'')" let ?m = "example_new (Some ''k'')"
  obtain g1 where run: "remember vec_store vec_ops quiet_env example_engine ''m1'' ''a1'' ?r
     = Some (Inr (?m, g1))" using example_run by blast
  let ?g2 = "example_engine\<lparr>en_store := en_store g1\<rparr>"
  have v: "(key_sorted \<circ> fst) (en_store example_engine)" by (simp add: example_engine_def key_sorted_def)
  have empty: "lookup_doc (fst (en_store example_engine)) k = None" for k
    by (simp add: example_engine_def lookup_doc_def)
  have key: "rq_idempotency_key ?r = Some ''k''" by (simp add: example_request_def)
  have id: "memory_id_for quiet_env example_engine ?r ''m1'' = ''u1''"
    by (simp add: memory_id_for_def key deterministic_remember_uuid_def) (simp add: quiet_env_def)
  have slash: "CHR ''/'' \<notin> set (memory_id_for quiet_env example_engine ?r ''m1'')" by (simp add: id)
  have "(key_sorted \<circ> fst) (en_store g1)"
    using keyed_run [OF vec_store_faithful vec_ops_faithful v key empty empty run slash] by blast
  then have v2: "(key_sorted \<circ> fst) (en_store ?g2)" by simp
  have "ok_or_hyphae (remember vec_store vec_ops quiet_env ?g2 ''m2'' ''a2'' (?r\<lparr>rq_now_ms := 99\<rparr>))
         (\<lambda>(m', g3). m' = as_stored ?m \<and> fst (en_store g3) = fst (en_store ?g2))"
    by (rule conjunct1 [OF remember_retry_safe [OF vec_store_faithful vec_ops_faithful v key empty empty run
        slash example_new_wf _ v2]]) (simp_all add: quiet_env_def)
  with run show ?thesis by (intro exI [of _ g1] conjI) simp_all
qed

end
