(* ===== verification/Recall_Ranking.thy ===== *)
theory Recall_Ranking
  imports Engine_State Recall_Scoring Remember Rust_Collections
begin

text \<open>
  The read-only half of recall after its branches have proposed candidates (\<open>engine.rs\<close>, from the
  candidate union to the ranked answer, with \<open>recall_pipeline.rs\<close>): scoring, disclosure, reranking,
  merging of duplicates, diversification and the composition of a context under a token budget. A
  comparison of scores with a NaN is \<open>Equal\<close>, as in the code; the order the sort of the standard library
  gives is only specified when no score is NaN.
\<close>

section \<open>Candidates\<close>

datatype search_branch = Semantic_Branch | Lexical_Branch | Graph_Branch | Temporal_Branch

record unified_candidate =
  uc_semantic :: f64
  uc_lexical :: f64
  uc_graph :: f64
  uc_temporal :: f64
  uc_graph_path :: "string list"
  uc_claim_ids :: "string list"

record recall_reason =
  rr_branch :: search_branch
  rr_score :: f64
  rr_detail :: string

definition candidate_branches :: "unified_candidate \<Rightarrow> search_branch list" where
  "candidate_branches c =
     (if Fin 0 < uc_semantic c then [Semantic_Branch] else []) @ (if Fin 0 < uc_lexical c then [Lexical_Branch] else [])
     @ (if Fin 0 < uc_graph c then [Graph_Branch] else [])
     @ (if Fin 0 < uc_temporal c then [Temporal_Branch] else [])"

definition recall_reasons :: "unified_candidate \<Rightarrow> recall_reason list" where
  "recall_reasons c =
     map (\<lambda>(b, s, d). \<lparr>rr_branch = b, rr_score = s, rr_detail = d\<rparr>)
       (filter (\<lambda>(b, s, d). Fin 0 < s)
         [(Semantic_Branch, uc_semantic c, ''exact cosine match''), (Lexical_Branch, uc_lexical c, ''BM25F term match''),
          (Graph_Branch, uc_graph c, ''bounded graph path''),
          (Temporal_Branch, uc_temporal c, ''current claim evidence'')])"

definition candidate_citation :: "memory \<Rightarrow> unified_candidate \<Rightarrow> citation" where
  "candidate_citation m c =
     (plain_citation m)\<lparr>cit_claim_ids := uc_claim_ids c, cit_graph_path := uc_graph_path c\<rparr>"

text \<open>Descending score, then ascending id.\<close>

definition ranks_before :: "('a \<Rightarrow> f64) \<Rightarrow> ('a \<Rightarrow> string) \<Rightarrow> 'a \<Rightarrow> 'a \<Rightarrow> bool" where
  "ranks_before sc i x y \<longleftrightarrow> sc y < sc x \<or> \<not> sc x < sc y \<and> i x \<le> i y"

definition candidate_best :: "unified_candidate \<Rightarrow> f64" where
  "candidate_best c = f64_max (f64_max (f64_max (uc_semantic c) (uc_lexical c)) (uc_graph c)) (uc_temporal c)"

text \<open>The union is a map in key order; here its entries.\<close>

definition truncate_candidate_union ::
  "(bytes \<times> unified_candidate) list \<Rightarrow> nat \<Rightarrow> (bytes \<times> unified_candidate) list \<times> bool" where
  "truncate_candidate_union cs budget =
     (if length cs \<le> budget then (cs, False)
      else let retained = map fst (take budget (sort_by (ranks_before (candidate_best \<circ> snd) fst) cs))
           in (filter (\<lambda>(k, c). k \<in> set retained) cs, True))"

section \<open>Scored memories\<close>

record recalled_memory =
  rm_id :: string
  rm_content :: bytes
  rm_importance :: f64
  rm_memory_type :: memory_type
  rm_state :: memory_state
  rm_scope :: scope
  rm_event_at_ms :: "i64 option"
  rm_ingested_at_ms :: i64
  rm_retrieval_count :: u32
  rm_strength :: f64
  rm_last_retrieved_at_ms :: i64
  rm_consolidation_count :: u32
  rm_tags :: "string list"
  rm_vector :: "i16 list option"

definition recalled_memory_of :: "memory \<Rightarrow> bytes option \<Rightarrow> recalled_memory" where
  "recalled_memory_of m disclosed =
     \<lparr>rm_id = mem_id m, rm_content = (case disclosed of None \<Rightarrow> [] | Some x \<Rightarrow> x), rm_importance = importance m,
      rm_memory_type = memory_type m, rm_state = mem_state m, rm_scope = mem_scope m,
      rm_event_at_ms = event_at_ms m, rm_ingested_at_ms = ingested_at_ms m,
      rm_retrieval_count = retrieval_count m, rm_strength = strength m,
      rm_last_retrieved_at_ms = last_retrieved_at_ms m, rm_consolidation_count = consolidation_count m,
      rm_tags = [], rm_vector = mem_vector m\<rparr>"

record scored_memory =
  sm_memory :: recalled_memory
  sm_channels :: channel_scores
  sm_score :: f64
  sm_disclosed :: "bytes option"
  sm_disclosure :: disclosure_class
  sm_branches :: "search_branch list"
  sm_reasons :: "recall_reason list"
  sm_citations :: "citation list"

definition sm_id :: "scored_memory \<Rightarrow> string" where
  "sm_id s = rm_id (sm_memory s)"

definition graph_candidate_weight :: f64 where
  "graph_candidate_weight = Fin 1"

definition score_candidate ::
  "recall_weights \<Rightarrow> pad \<Rightarrow> i64 \<Rightarrow> disclosure_authority \<Rightarrow> memory_purpose \<Rightarrow> memory \<Rightarrow> unified_candidate
   \<Rightarrow> scored_memory" where
  "score_candidate w current now auth purpose m c =
     (let ch = \<lparr>ch_semantic = uc_semantic c, ch_text_match = uc_lexical c, ch_importance = importance m,
            ch_retrievability = retrievability (days_between (last_retrieved_at_ms m) now) (strength m),
            ch_emotional = emotional_weight (pleasure (mem_pad m)) (arousal (mem_pad m)),
            ch_resonance = resonance current (mem_pad m)\<rparr>;
          view = disclose_memory m auth purpose
      in \<lparr>sm_memory = recalled_memory_of m (snd view), sm_channels = ch,
          sm_score = score w ch (arousal current) + (graph_candidate_weight * uc_graph c + uc_temporal c),
          sm_disclosed = snd view, sm_disclosure = fst view, sm_branches = candidate_branches c,
          sm_reasons = recall_reasons c, sm_citations = [candidate_citation m c]\<rparr>)"

section \<open>Reranking\<close>

record reranker_identity =
  ri_provider :: string
  ri_model :: string
  ri_revision :: string

datatype reranker_input =
    Deterministic
  | External reranker_identity "(string \<times> i64) list"
  | Unavailable reranker_identity

datatype reranker_status =
    DeterministicFallback
  | ExternalApplied reranker_identity
  | ExternalUnavailableFallback reranker_identity

definition rerank_score :: "(string \<times> i64) list \<Rightarrow> scored_memory \<Rightarrow> scored_memory" where
  "rerank_score scores s = (case map_of scores (sm_id s) of
     None \<Rightarrow> s
   | Some n \<Rightarrow> s\<lparr>sm_score := sm_score s * Fin 0.7 + Fin (real_of_int (sint n) / 1000000000) * Fin 0.3\<rparr>)"

text \<open>The scores of an external reranker are a map from ids, here its entries.\<close>

definition apply_reranker ::
  "scored_memory list \<Rightarrow> reranker_input \<Rightarrow> 'e engine_error + (scored_memory list \<times> reranker_status)" where
  "apply_reranker scored input = (case input of
     Deterministic \<Rightarrow> Inr (scored, DeterministicFallback)
   | Unavailable who \<Rightarrow> Inr (scored, ExternalUnavailableFallback who)
   | External who scores \<Rightarrow>
       if trim (ri_provider who) = [] \<or> trim (ri_model who) = [] \<or> trim (ri_revision who) = []
       then Inl (InvalidRerankerScores ''identity fields must be non-empty'')
       else if list_ex (\<lambda>(i, n). \<not> (0 \<le> sint n \<and> sint n \<le> 1000000000)) scores
       then Inl (InvalidRerankerScores ''scores must be in 0..=1e9'')
       else if set (map sm_id scored) \<noteq> set (map fst scores)
       then Inr (scored, ExternalUnavailableFallback who)
       else Inr (map (rerank_score scores) scored, ExternalApplied who))"

section \<open>Duplicates and diversity\<close>

fun dedup_by :: "('a \<Rightarrow> 'b) \<Rightarrow> 'a list \<Rightarrow> 'a list" where
  "dedup_by f (x # y # xs) = (if f x = f y then dedup_by f (x # xs) else x # dedup_by f (y # xs))"
| "dedup_by f xs = xs"

fun branch_rank :: "search_branch \<Rightarrow> nat" where
  "branch_rank Semantic_Branch = 0"
| "branch_rank Lexical_Branch = 1"
| "branch_rank Graph_Branch = 2"
| "branch_rank Temporal_Branch = 3"

text \<open>\<open>low\<close> is \<open>str::to_lowercase\<close>.\<close>

definition merge_key :: "(bytes \<Rightarrow> bytes) \<Rightarrow> scored_memory \<Rightarrow> bytes" where
  "merge_key low s = low (join_with '' '' (split_whitespace (case sm_disclosed s of None \<Rightarrow> [] | Some x \<Rightarrow> x)))"

definition absorb :: "scored_memory \<Rightarrow> scored_memory \<Rightarrow> scored_memory" where
  "absorb e r = e\<lparr>sm_citations := dedup_by cit_memory_id (sort_key cit_memory_id (sm_citations e @ sm_citations r)),
     sm_branches := remdups_adj (sort_key branch_rank (sm_branches e @ sm_branches r)),
     sm_reasons := dedup_by rr_branch (sort_key (branch_rank \<circ> rr_branch) (sm_reasons e @ sm_reasons r))\<rparr>"

fun merge_into :: "bytes \<Rightarrow> scored_memory \<Rightarrow> (bytes \<times> scored_memory) list \<Rightarrow> (bytes \<times> scored_memory) list" where
  "merge_into k r [] = [(k, r)]"
| "merge_into k r ((k', e) # es) = (if k = k' then (k', absorb e r) # es else (k', e) # merge_into k r es)"

definition rank_order :: "scored_memory list \<Rightarrow> scored_memory list" where
  "rank_order = sort_by (ranks_before sm_score sm_id)"

definition merge_disclosed_duplicates :: "(bytes \<Rightarrow> bytes) \<Rightarrow> scored_memory list \<Rightarrow> scored_memory list" where
  "merge_disclosed_duplicates low ranked =
     rank_order (map snd (sort_key fst (fold (\<lambda>r es. merge_into (merge_key low r) r es) ranked [])))"

definition q15_dot :: "i16 list \<Rightarrow> i16 list \<Rightarrow> f64" where
  "q15_dot a b = Fin (real_of_int (sum_list (map (\<lambda>(x, y). sint x * sint y) (zip a b))))"

definition cosine_q15 :: "i16 list \<Rightarrow> i16 list \<Rightarrow> f64" where
  "cosine_q15 a b =
     (if length a \<noteq> length b then Fin 0
      else f64_clamp (q15_dot a b / (f64_sqrt (q15_dot a a) * f64_sqrt (q15_dot b b))) (- 1) 1)"

definition memory_similarity :: "recalled_memory \<Rightarrow> recalled_memory \<Rightarrow> f64" where
  "memory_similarity l r = (case (rm_vector l, rm_vector r) of
     (Some a, Some b) \<Rightarrow> cosine_q15 a b | _ \<Rightarrow> Fin 0)"

definition redundancy :: "scored_memory list \<Rightarrow> scored_memory \<Rightarrow> f64" where
  "redundancy selected c =
     foldl f64_max (Fin 0) (map (\<lambda>p. memory_similarity (sm_memory c) (sm_memory p)) selected)"

definition mmr :: "f64 \<Rightarrow> scored_memory list \<Rightarrow> scored_memory \<Rightarrow> f64" where
  "mmr weight selected c = weight * sm_score c - (Fin 1 - weight) * redundancy selected c"

text \<open>\<open>max_by\<close>: the later of two equal maxima. The comparison is by margin, then by descending id.\<close>

definition mmr_greater :: "f64 \<Rightarrow> scored_memory list \<Rightarrow> scored_memory \<Rightarrow> scored_memory \<Rightarrow> bool" where
  "mmr_greater weight selected x y \<longleftrightarrow>
     mmr weight selected y < mmr weight selected x
     \<or> \<not> mmr weight selected x < mmr weight selected y \<and> sm_id x < sm_id y"

fun max_index :: "('a \<Rightarrow> 'a \<Rightarrow> bool) \<Rightarrow> 'a list \<Rightarrow> nat \<times> 'a \<Rightarrow> nat \<Rightarrow> nat" where
  "max_index gt [] best k = fst best"
| "max_index gt (x # xs) best k = max_index gt xs (if gt (snd best) x then best else (k, x)) (k + 1)"

definition remove_at :: "nat \<Rightarrow> 'a list \<Rightarrow> 'a list" where
  "remove_at i xs = take i xs @ drop (i + 1) xs"

function diversify_loop :: "f64 \<Rightarrow> nat \<Rightarrow> scored_memory list \<Rightarrow> scored_memory list \<Rightarrow> scored_memory list" where
  "diversify_loop weight limit [] selected = selected"
| "diversify_loop weight limit (r # ranked) selected =
     (if limit \<le> length selected then selected
      else let i = max_index (mmr_greater weight selected) ranked (0, r) 1
           in diversify_loop weight limit (remove_at i (r # ranked)) (selected @ [(r # ranked) ! i]))"
  by pat_completeness auto

termination
  by (relation "measure (\<lambda>(weight, limit, ranked, selected). limit - length selected)") simp_all

definition diversify :: "scored_memory list \<Rightarrow> nat \<Rightarrow> f64 \<Rightarrow> scored_memory list" where
  "diversify ranked limit relevance = diversify_loop (f64_clamp relevance 0 1) limit ranked []"

section \<open>The answer\<close>

datatype recall_abstention = NoVisibleCandidates | BelowThreshold | PolicyRestricted | BudgetExhausted

text \<open>From the scored candidates to the results, their status and the abstention.\<close>

definition finish_recall ::
  "(bytes \<Rightarrow> bytes) \<Rightarrow> f64 \<Rightarrow> nat \<Rightarrow> nat \<Rightarrow> f64 \<Rightarrow> reranker_input \<Rightarrow> scored_memory list
   \<Rightarrow> 'e engine_error + (scored_memory list \<times> reranker_status \<times> recall_abstention option)" where
  "finish_recall low threshold max_results limit relevance reranker scored =
     (let visible = filter (\<lambda>s. sm_disclosure s \<noteq> Disclose_Abstain) scored
      in r_bind (apply_reranker visible reranker) (\<lambda>(reranked, status).
         let ranked = rank_order (filter (\<lambda>s. threshold \<le> sm_score s) reranked);
             results = diversify (merge_disclosed_duplicates low ranked) (min max_results (max limit 1)) relevance
         in Inr (results, status,
              if results \<noteq> [] then None
              else if scored = [] then Some NoVisibleCandidates
              else if visible = [] then Some PolicyRestricted
              else Some BelowThreshold)))"

section \<open>Token budgets\<close>

definition word_cost :: "bytes \<Rightarrow> nat" where
  "word_cost w = max ((length w + 3) div 4) 1"

definition estimate_tokens :: "bytes \<Rightarrow> nat" where
  "estimate_tokens t = sum_list (map word_cost (split_whitespace t))"

fun take_words :: "nat \<Rightarrow> nat \<Rightarrow> bytes \<Rightarrow> bytes list \<Rightarrow> bytes \<times> nat" where
  "take_words budget used out [] = (out, used)"
| "take_words budget used out (w # ws) =
     (if budget < used + word_cost w then (out, used)
      else take_words budget (used + word_cost w) ((if out = [] then [] else out @ '' '') @ w) ws)"

definition truncate_to_token_budget :: "bytes \<Rightarrow> nat \<Rightarrow> bytes \<times> nat \<times> bool" where
  "truncate_to_token_budget body budget =
     (if estimate_tokens body \<le> budget then (body, estimate_tokens body, False)
      else case take_words budget 0 [] (split_whitespace body) of (out, used) \<Rightarrow> (out, used, True))"

datatype section_kind = CurrentTruth | RelatedEvidence | Evidence

record context_section =
  cx_kind :: section_kind
  cx_content :: bytes
  cx_tokens :: nat
  cx_citations :: "citation list"
  cx_reasons :: "recall_reason list"

definition section_kind_of :: "scored_memory \<Rightarrow> section_kind" where
  "section_kind_of s =
     (if Temporal_Branch \<in> set (sm_branches s) then CurrentTruth
      else if Graph_Branch \<in> set (sm_branches s) then RelatedEvidence else Evidence)"

fun section_rank :: "section_kind \<Rightarrow> nat" where
  "section_rank CurrentTruth = 0"
| "section_rank RelatedEvidence = 1"
| "section_rank Evidence = 2"

text \<open>The loop over the results: the sections so far, what remains of the budget, and whether a text
  was cut.\<close>

fun compose_sections ::
  "scored_memory list \<Rightarrow> nat \<Rightarrow> context_section list \<Rightarrow> context_section list \<times> nat \<times> bool" where
  "compose_sections [] remaining sections = (sections, remaining, False)"
| "compose_sections (r # rs) remaining sections =
     (case sm_disclosed r of
        None \<Rightarrow> compose_sections rs remaining sections
      | Some body \<Rightarrow>
          if remaining = 0 then (sections, remaining, False)
          else case truncate_to_token_budget body remaining of (text', tokens, was_cut) \<Rightarrow>
            if tokens = 0 then compose_sections rs remaining sections
            else let sections = sections @ [\<lparr>cx_kind = section_kind_of r, cx_content = text', cx_tokens = tokens,
                       cx_citations = sm_citations r, cx_reasons = sm_reasons r\<rparr>]
                 in if was_cut then (sections, remaining - tokens, True)
                    else compose_sections rs (remaining - tokens) sections)"

record context_composition =
  cc_sections :: "context_section list"
  cc_estimated_tokens :: nat
  cc_truncated :: bool
  cc_rendered :: bytes
  cc_abstention :: "recall_abstention option"
  cc_evidence_density_milli :: nat

definition cited_memories :: "context_section list \<Rightarrow> string list" where
  "cited_memories sections = remdups (concat (map (\<lambda>s. map cit_memory_id (cx_citations s)) sections))"

text \<open>\<open>results\<close> and \<open>abstention\<close> are those of the recall the request carries.\<close>

definition compose_context ::
  "nat \<Rightarrow> scored_memory list \<Rightarrow> recall_abstention option \<Rightarrow> context_composition" where
  "compose_context budget results abstention =
     (if budget = 0
      then \<lparr>cc_sections = [], cc_estimated_tokens = 0, cc_truncated = True, cc_rendered = [],
            cc_abstention = Some BudgetExhausted, cc_evidence_density_milli = 0\<rparr>
      else case compose_sections (sort_key (section_rank \<circ> section_kind_of) results) budget [] of
        (sections, remaining, was_cut) \<Rightarrow>
          let tokens = budget - remaining
          in \<lparr>cc_sections = sections, cc_estimated_tokens = tokens,
              cc_truncated = (was_cut \<or> length sections < length results),
              cc_rendered = join_with [CHR 0x0A, CHR 0x0A] (map cx_content sections),
              cc_abstention = (if sections = [] \<and> results \<noteq> [] then Some BudgetExhausted else abstention),
              cc_evidence_density_milli = length (cited_memories sections) * 1000 div max tokens 1\<rparr>)"

section \<open>Feedback\<close>

definition reactivated_memory :: "memory \<Rightarrow> i64 \<Rightarrow> memory" where
  "reactivated_memory m now =
     (let out = reactivate (importance m) (strength m) (retrieval_count m)
      in m\<lparr>importance := ro_importance out, strength := ro_strength out,
           retrieval_count := ro_retrieval_count out, last_retrieved_at_ms := now\<rparr>)"

fun feedback_loop ::
  "('s, 'c, 'e) hyphae \<Rightarrow> rust_env \<Rightarrow> 's engine \<Rightarrow> recall_scope \<Rightarrow> i64 \<Rightarrow> string list \<Rightarrow> nat
   \<Rightarrow> ('e, nat \<times> 's engine) outcome" where
  "feedback_loop H E g sc now [] n = m_return (n, g)"
| "feedback_loop H E g sc now (i # is) n =
     m_bind (get_memory H (env_b3 E) (env_q15_ok E) (en_tenant g) (en_store g) i sc) (\<lambda>found. case found of
       None \<Rightarrow> feedback_loop H E g sc now is n
     | Some m \<Rightarrow>
         m_bind (from_store (hy_put H (en_store g) (memory_to_record (reactivated_memory m now)))) (\<lambda>s.
           feedback_loop H E (g\<lparr>en_store := s\<rparr>) sc now is (n + 1)))"

definition record_recall_feedback ::
  "('s, 'c, 'e) hyphae \<Rightarrow> rust_env \<Rightarrow> 's engine \<Rightarrow> recall_scope \<Rightarrow> i64 \<Rightarrow> string list
   \<Rightarrow> ('e, nat \<times> 's engine) outcome" where
  "record_recall_feedback H E g sc now ids =
     m_bind (require_tenant (en_tenant g) (rs_tenant_id sc)) (\<lambda>_.
       feedback_loop H E g sc now (take 100 ids) 0)"

end
