(* ===== verification/Ranking_Claims.thy ===== *)
theory Ranking_Claims
  imports Recall_Ranking "HOL-Library.Multiset"
begin

text \<open>
  What the ranking half of recall guarantees: an answer only holds candidates the policy lets through
  and that reach the threshold, once per disclosed text; diversification selects without inventing or
  repeating and is the plain ranking when relevance alone counts; a context stays in its budget.
\<close>

section \<open>Sorting\<close>

lemma rank_order_simps [simp]:
  "set (rank_order xs) = set xs" "length (rank_order xs) = length xs" "mset (rank_order xs) = mset xs"
  by (simp_all add: rank_order_def)

section \<open>Merging\<close>

lemma absorb_fields [simp]:
  "sm_memory (absorb e r) = sm_memory e" "sm_score (absorb e r) = sm_score e"
  "sm_disclosed (absorb e r) = sm_disclosed e" "sm_disclosure (absorb e r) = sm_disclosure e"
  "sm_channels (absorb e r) = sm_channels e"
  by (simp_all add: absorb_def)

lemma merge_key_absorb [simp]: "merge_key low (absorb e r) = merge_key low e"
  by (simp add: merge_key_def)

lemma merge_into_keys:
  "distinct (map fst es) \<Longrightarrow> distinct (map fst (merge_into k r es))
     \<and> fst ` set (merge_into k r es) = insert k (fst ` set es)"
proof (induction es)
  case (Cons e es)
  obtain k' x where "e = (k', x)" by (cases e)
  with Cons show ?case by auto
qed simp

lemma merge_into_elem:
  "(k', e) \<in> set (merge_into k r es) \<Longrightarrow>
     (k', e) \<in> set es \<or> k' = k \<and> (e = r \<or> (\<exists>x. (k, x) \<in> set es \<and> e = absorb x r))"
  by (induction es) (auto split: if_splits)

definition merge_all :: "(bytes \<Rightarrow> bytes) \<Rightarrow> scored_memory list \<Rightarrow> (bytes \<times> scored_memory) list" where
  "merge_all low ranked = fold (\<lambda>r es. merge_into (merge_key low r) r es) ranked []"

lemma merge_all_snoc: "merge_all low (rs @ [r]) = merge_into (merge_key low r) r (merge_all low rs)"
  by (simp add: merge_all_def)

lemma merge_all_keys:
  "distinct (map fst (merge_all low rs)) \<and> fst ` set (merge_all low rs) = merge_key low ` set rs"
proof (induction rs rule: rev_induct)
  case (snoc r rs)
  with merge_into_keys [of "merge_all low rs" "merge_key low r" r] show ?case
    unfolding merge_all_snoc by auto
qed (simp add: merge_all_def)

text \<open>An entry of the merge is one of the memories, up to its citations, branches and reasons.\<close>

lemma merge_all_elem:
  "(k, e) \<in> set (merge_all low rs) \<Longrightarrow> \<exists>r\<in>set rs. k = merge_key low r \<and> sm_memory e = sm_memory r
     \<and> sm_score e = sm_score r \<and> sm_disclosed e = sm_disclosed r \<and> sm_disclosure e = sm_disclosure r"
proof (induction rs arbitrary: k e rule: rev_induct)
  case (snoc r rs)
  from snoc.prems consider "(k, e) \<in> set (merge_all low rs)" | "k = merge_key low r" "e = r"
    | x where "k = merge_key low r" "(k, x) \<in> set (merge_all low rs)" "e = absorb x r"
    unfolding merge_all_snoc using merge_into_elem by fastforce
  then show ?case
  proof cases
    case 3
    with snoc.IH [OF 3(2)] show ?thesis by auto
  qed (use snoc.IH in auto)
qed (simp add: merge_all_def)

lemma merge_elem:
  "e \<in> set (merge_disclosed_duplicates low rs) \<Longrightarrow> \<exists>r\<in>set rs. sm_memory e = sm_memory r
     \<and> sm_score e = sm_score r \<and> sm_disclosed e = sm_disclosed r \<and> sm_disclosure e = sm_disclosure r"
  using merge_all_elem by (fastforce simp: merge_disclosed_duplicates_def merge_all_def [symmetric])

lemma merge_key_of_entry: "(k, e) \<in> set (merge_all low rs) \<Longrightarrow> merge_key low e = k"
  using merge_all_elem [of k e low rs] by (auto simp: merge_key_def)

lemma merged_texts_distinct: "distinct (map (merge_key low) (merge_disclosed_duplicates low rs))"
proof -
  have "map (merge_key low) (map snd (merge_all low rs)) = map fst (merge_all low rs)"
    unfolding map_map by (rule map_cong) (use merge_key_of_entry in auto)
  then have "distinct (map (merge_key low) (map snd (merge_all low rs)))"
    using merge_all_keys [of low rs] by (simp only:)
  moreover have "mset (map (merge_key low) (merge_disclosed_duplicates low rs))
      = mset (map (merge_key low) (map snd (merge_all low rs)))"
    unfolding merge_disclosed_duplicates_def merge_all_def [symmetric]
    by (simp only: mset_map rank_order_simps mset_sort)
  ultimately show ?thesis by (metis mset_eq_imp_distinct_iff)
qed

lemma merged_texts: "merge_key low ` set (merge_disclosed_duplicates low rs) = merge_key low ` set rs"
proof -
  have "merge_key low ` set (merge_disclosed_duplicates low rs) = merge_key low ` snd ` set (merge_all low rs)"
    by (simp add: merge_disclosed_duplicates_def merge_all_def [symmetric])
  also have "\<dots> = fst ` set (merge_all low rs)" using merge_key_of_entry by (force simp: image_iff)
  finally show ?thesis using merge_all_keys [of low rs] by simp
qed

text \<open>
  Merging leaves one result per disclosed text, and as many as there are different texts. So all
  the memories the policy restricts, which disclose the same fixed summary, come back as one result
  however different they are; only the citations of the others survive.
\<close>

theorem one_result_per_disclosed_text:
  "distinct (map (merge_key low) (merge_disclosed_duplicates low ranked))
   \<and> length (merge_disclosed_duplicates low ranked) = card (merge_key low ` set ranked)
   \<and> ((\<forall>s\<in>set ranked. sm_disclosed s = Some restricted_summary)
     \<longrightarrow> length (merge_disclosed_duplicates low ranked) \<le> 1)"
proof -
  have len: "length (merge_disclosed_duplicates low ranked) = card (merge_key low ` set ranked)"
    using distinct_card [OF merged_texts_distinct [of low ranked]] merged_texts [of low ranked] by simp
  have "merge_key low ` set ranked \<subseteq> {low (join_with '' '' (split_whitespace restricted_summary))}"
    if "\<forall>s\<in>set ranked. sm_disclosed s = Some restricted_summary"
    using that by (auto simp: merge_key_def)
  then show ?thesis
    using len merged_texts_distinct card_mono [of "{low (join_with '' '' (split_whitespace restricted_summary))}"]
    by fastforce
qed

section \<open>Diversification\<close>

lemma max_index_bound: "fst best < k \<Longrightarrow> max_index gt xs best k < k + length xs"
proof (induction xs arbitrary: best k)
  case (Cons x xs)
  from Cons.prems have "fst (if gt (snd best) x then best else (k, x)) < k + 1" by simp
  from Cons.IH [OF this] show ?case by simp
qed simp

lemma mset_remove_at:
  assumes "i < length xs"
  shows "add_mset (xs ! i) (mset (remove_at i xs)) = mset xs"
  using arg_cong [OF id_take_nth_drop [OF assms], of mset] by (simp add: remove_at_def)

lemma distinct_sub:
  assumes "mset xs \<subseteq># mset ys" and "distinct ys"
  shows "distinct xs"
proof -
  have "count (mset xs) a \<le> 1" for a
  proof -
    have "count (mset ys) a \<le> 1" using assms(2) by (simp add: distinct_count_atmost_1)
    with mset_subset_eq_count [OF assms(1), of a] show ?thesis by linarith
  qed
  then show ?thesis
    by (auto simp: distinct_count_atmost_1 count_mset_0_iff) (metis One_nat_def count_mset_0_iff le_Suc_eq le_zero_eq)
qed

lemma diversify_loop_select:
  "mset (diversify_loop w limit ranked selected) \<subseteq># mset selected + mset ranked
   \<and> (length selected \<le> limit \<longrightarrow>
      length (diversify_loop w limit ranked selected) = min limit (length selected + length ranked))"
proof (induction w limit ranked selected rule: diversify_loop.induct)
  case (2 w limit r ranked selected)
  show ?case
  proof (cases "limit \<le> length selected")
    case False
    let ?i = "max_index (mmr_greater w selected) ranked (0, r) 1"
    have i: "?i < length (r # ranked)"
      using max_index_bound [of "(0, r)" 1 "mmr_greater w selected" ranked] by simp
    note IH = 2 [OF False refl]
    have all: "mset (selected @ [(r # ranked) ! ?i]) + mset (remove_at ?i (r # ranked))
        = mset selected + mset (r # ranked)"
      using mset_remove_at [OF i] by simp
    have len: "length (remove_at ?i (r # ranked)) = length ranked"
      using i by (simp add: remove_at_def)
    have step: "diversify_loop w limit (r # ranked) selected
        = diversify_loop w limit (remove_at ?i (r # ranked)) (selected @ [(r # ranked) ! ?i])"
      using False by (simp add: Let_def)
    show ?thesis
      unfolding step using conjunct1 [OF IH, unfolded all] conjunct2 [OF IH, unfolded len] False by simp
  qed auto
qed simp

lemma f64_max_Fin: "a = NaN \<or> (\<exists>r. a = Fin r) \<Longrightarrow> \<exists>r. f64_max (Fin x) a = Fin r"
  by auto

lemma similarity_range: "memory_similarity a b = NaN \<or> (\<exists>r. memory_similarity a b = Fin r)"
proof -
  have "f64_clamp x (- 1) 1 = NaN \<or> (\<exists>r. f64_clamp x (- 1) 1 = Fin r)" for x by (cases x) auto
  then show ?thesis by (auto simp: memory_similarity_def cosine_q15_def split: option.split)
qed

lemma redundancy_Fin: "\<exists>r. redundancy selected c = Fin r"
proof -
  have "\<exists>r. foldl f64_max (Fin x) (map (\<lambda>p. memory_similarity (sm_memory c) (sm_memory p)) ps) = Fin r" for ps x
  proof (induction ps arbitrary: x)
    case (Cons p ps)
    obtain y where "f64_max (Fin x) (memory_similarity (sm_memory c) (sm_memory p)) = Fin y"
      using f64_max_Fin [OF similarity_range] by blast
    with Cons show ?case by simp
  qed simp
  then show ?thesis by (simp add: redundancy_def)
qed

lemma mmr_relevance_only: "\<exists>s. sm_score c = Fin s \<Longrightarrow> mmr (Fin 1) selected c = sm_score c"
  using redundancy_Fin [of selected c] by (auto simp: mmr_def)

lemma max_index_first: "\<forall>x\<in>set xs. gt (snd best) x \<Longrightarrow> max_index gt xs best k = fst best"
  by (induction xs arbitrary: k) auto

text \<open>The ranking without ties: descending scores, ascending ids for equal scores.\<close>

definition strictly_ranked :: "scored_memory list \<Rightarrow> bool" where
  "strictly_ranked = sorted_wrt (\<lambda>x y. sm_score y < sm_score x \<or> \<not> sm_score x < sm_score y \<and> sm_id x < sm_id y)"

definition finite_scores :: "scored_memory list \<Rightarrow> bool" where
  "finite_scores = list_all (\<lambda>s. is_finite (sm_score s))"

lemma diversify_loop_plain:
  "strictly_ranked ranked \<Longrightarrow> finite_scores ranked
   \<Longrightarrow> diversify_loop (Fin 1) limit ranked selected = selected @ take (limit - length selected) ranked"
proof (induction ranked arbitrary: selected)
  case (Cons r ranked)
  have fin: "\<exists>s. sm_score x = Fin s" if "x \<in> set (r # ranked)" for x
    using Cons.prems(2) that by (auto simp: finite_scores_def list_all_iff) (metis is_finite.elims(2))+
  have "mmr_greater (Fin 1) selected r x" if "x \<in> set ranked" for x
    using Cons.prems(1) that fin by (auto simp: mmr_greater_def mmr_relevance_only strictly_ranked_def)
  then have "max_index (mmr_greater (Fin 1) selected) ranked (0, r) 1 = 0"
    by (subst max_index_first) simp_all
  moreover have "strictly_ranked ranked" "finite_scores ranked"
    using Cons.prems by (simp_all add: strictly_ranked_def finite_scores_def)
  moreover have "take (limit - length selected) (r # ranked) = r # take (limit - Suc (length selected)) ranked"
    if "\<not> limit \<le> length selected" using that by (simp add: take_Cons')
  ultimately show ?case
    using Cons.IH by (cases "limit \<le> length selected") (simp_all add: remove_at_def Let_def)
qed simp

lemma diversify_mset:
  "mset (diversify ranked limit relevance) \<subseteq># mset ranked"
  "length (diversify ranked limit relevance) = min limit (length ranked)"
  using diversify_loop_select [of "f64_clamp relevance 0 1" limit ranked "[]"] by (simp_all add: diversify_def)

text \<open>
  Diversification always ends, selects from the ranked memories without repeating or inventing any,
  and returns as many as the limit allows; when relevance alone counts (a weight of one or more) it is
  the plain ranking, cut at the limit.
\<close>

theorem diversify_selects:
  "mset (diversify ranked limit relevance) \<subseteq># mset ranked
   \<and> length (diversify ranked limit relevance) = min limit (length ranked)
   \<and> (strictly_ranked ranked \<and> finite_scores ranked \<and> Fin 1 \<le> relevance
      \<longrightarrow> diversify ranked limit relevance = take limit ranked)"
proof (intro conjI impI)
  show "mset (diversify ranked limit relevance) \<subseteq># mset ranked"
    "length (diversify ranked limit relevance) = min limit (length ranked)" by (fact diversify_mset)+
  assume "strictly_ranked ranked \<and> finite_scores ranked \<and> Fin 1 \<le> relevance"
  moreover from this have "f64_clamp relevance 0 1 = Fin 1" by (cases relevance) auto
  ultimately show "diversify ranked limit relevance = take limit ranked"
    by (simp add: diversify_def diversify_loop_plain)
qed

section \<open>The answer\<close>

lemma apply_reranker_elem:
  assumes "apply_reranker scored input = Inr (out, status)" and "x \<in> set out"
  shows "\<exists>s\<in>set scored. sm_memory x = sm_memory s \<and> sm_disclosed x = sm_disclosed s
    \<and> sm_disclosure x = sm_disclosure s"
proof -
  consider "out = scored" | scores where "out = map (rerank_score scores) scored"
    using assms(1) by (auto simp: apply_reranker_def split: reranker_input.splits if_splits)
  then show ?thesis
  proof cases
    case 2
    with assms(2) obtain s where "s \<in> set scored" "x = rerank_score scores s" by auto
    then show ?thesis by (auto simp: rerank_score_def split: option.split)
  qed (use assms(2) in auto)
qed

lemma finish_recall_run:
  assumes "finish_recall low threshold max_results limit relevance reranker scored
    = (Inr (results, status, ab) :: 'e engine_error + _)"
  obtains reranked merged where
    "apply_reranker (filter (\<lambda>s. sm_disclosure s \<noteq> Disclose_Abstain) scored) reranker
       = (Inr (reranked, status) :: 'e engine_error + _)"
    and "merged = merge_disclosed_duplicates low (rank_order (filter (\<lambda>s. threshold \<le> sm_score s) reranked))"
    and "results = diversify merged (min max_results (max limit 1)) relevance"
    and "ab = None \<longleftrightarrow> results \<noteq> []"
  using assms by (auto simp: finish_recall_def Let_def r_bind_Inr)

lemma finish_recall_each:
  assumes "finish_recall low threshold max_results limit relevance reranker scored
    = (Inr (results, status, ab) :: 'e engine_error + _)"
    and "r \<in> set results"
  shows "sm_disclosure r \<noteq> Disclose_Abstain \<and> threshold \<le> sm_score r
      \<and> (\<exists>s\<in>set scored. sm_memory r = sm_memory s \<and> sm_disclosed r = sm_disclosed s
           \<and> sm_disclosure r = sm_disclosure s)"
proof -
  from assms(1) obtain reranked merged where
    rr: "apply_reranker (filter (\<lambda>s. sm_disclosure s \<noteq> Disclose_Abstain) scored) reranker
       = (Inr (reranked, status) :: 'e engine_error + _)"
    and merged: "merged = merge_disclosed_duplicates low (rank_order (filter (\<lambda>s. threshold \<le> sm_score s) reranked))"
    and res: "results = diversify merged (min max_results (max limit 1)) relevance"
    by (rule finish_recall_run)
  have "mset results \<subseteq># mset merged" using diversify_mset res by simp
  with assms(2) have "r \<in> set merged" by (metis mset_subset_eqD set_mset_mset)
  from merge_elem [OF this [unfolded merged]] obtain x where x: "x \<in> set reranked" "threshold \<le> sm_score x"
    "sm_memory r = sm_memory x" "sm_score r = sm_score x" "sm_disclosed r = sm_disclosed x"
    "sm_disclosure r = sm_disclosure x" by auto
  from apply_reranker_elem [OF rr x(1)] show ?thesis using x by auto
qed

text \<open>
  C11. A recall answers only with what policy and threshold let through: every result shows the
  disclosed view of one of the scored candidates, none that the policy abstains from, and scores at
  least the threshold; there are at most as many results as asked for and configured, no two with the
  same disclosed text; and an abstention is given exactly when there is no result.
\<close>

theorem recall_answer_is_policy_safe:
  assumes "finish_recall low threshold max_results limit relevance reranker scored = Inr (results, status, ab)"
  shows "(\<forall>r\<in>set results. sm_disclosure r \<noteq> Disclose_Abstain \<and> threshold \<le> sm_score r
      \<and> (\<exists>s\<in>set scored. sm_memory r = sm_memory s \<and> sm_disclosed r = sm_disclosed s
           \<and> sm_disclosure r = sm_disclosure s))
    \<and> length results \<le> min max_results (max limit 1)
    \<and> distinct (map (merge_key low) results)
    \<and> (ab = None \<longleftrightarrow> results \<noteq> [])"
proof -
  from assms obtain merged reranked where
    merged: "merged = merge_disclosed_duplicates low (rank_order (filter (\<lambda>s. threshold \<le> sm_score s) reranked))"
    and res: "results = diversify merged (min max_results (max limit 1)) relevance"
    and ab: "ab = None \<longleftrightarrow> results \<noteq> []"
    by (rule finish_recall_run)
  note sel = diversify_mset [of merged "min max_results (max limit 1)" relevance]
  have "mset (map (merge_key low) results) \<subseteq># mset (map (merge_key low) merged)"
    using sel res by (simp add: image_mset_subseteq_mono)
  then have "distinct (map (merge_key low) results)"
    using merged_texts_distinct [of low] unfolding merged by (rule distinct_sub)
  moreover have "length results \<le> min max_results (max limit 1)" using sel res by (simp only: min.cobounded1)
  ultimately show ?thesis using finish_recall_each [OF assms] ab by auto
qed

section \<open>Contexts\<close>

lemma take_words_bound: "used \<le> budget \<Longrightarrow> snd (take_words budget used out ws) \<le> budget"
  by (induction ws arbitrary: used out) simp_all

lemma truncate_within_budget: "truncate_to_token_budget body budget = (t, n, c) \<Longrightarrow> n \<le> budget"
  using take_words_bound [of 0 budget "[]" "split_whitespace body"]
  by (auto simp: truncate_to_token_budget_def split: if_splits prod.splits)

lemma compose_sections_budget:
  "compose_sections rs remaining sections = (out, left, c) \<Longrightarrow>
     left \<le> remaining \<and> sum_list (map cx_tokens out) + left = sum_list (map cx_tokens sections) + remaining"
proof (induction rs remaining sections arbitrary: out left c rule: compose_sections.induct)
  case (2 r rs remaining sections)
  show ?case
  proof (cases "sm_disclosed r")
    case None
    with 2 show ?thesis by simp
  next
    case (Some body)
    obtain t n w where cut: "truncate_to_token_budget body remaining = (t, n, w)" by (metis prod_cases3)
    note n = truncate_within_budget [OF cut]
    show ?thesis
    proof (cases "remaining = 0 \<or> n = 0 \<or> w")
      case True
      then show ?thesis using 2(2) [OF Some] 2(4) Some cut n
        by (cases "remaining = 0"; cases "n = 0") (auto simp: Let_def)
    next
      case False
      with 2(3) [OF Some] 2(4) Some cut n show ?thesis by (fastforce simp: Let_def)
    qed
  qed
qed simp

text \<open>
  A composed context stays in its budget: the tokens it reports are the sum of those of its
  sections and never exceed the budget, whatever the results; a zero budget gives an empty context.
\<close>

theorem context_within_budget:
  "cc_estimated_tokens (compose_context budget results abstention)
     = sum_list (map cx_tokens (cc_sections (compose_context budget results abstention)))
   \<and> cc_estimated_tokens (compose_context budget results abstention) \<le> budget"
proof (cases "budget = 0")
  case False
  obtain sections left c where run:
    "compose_sections (sort_key (section_rank \<circ> section_kind_of) results) budget [] = (sections, left, c)"
    by (metis prod_cases3)
  from compose_sections_budget [OF run] have "budget - left = sum_list (map cx_tokens sections)" by auto
  with False show ?thesis by (simp add: compose_context_def run Let_def)
qed (simp add: compose_context_def)

section \<open>Examples\<close>

definition shown :: "string \<Rightarrow> bytes \<Rightarrow> real \<Rightarrow> scored_memory" where
  "shown i text' s =
     \<lparr>sm_memory = \<lparr>rm_id = i, rm_content = text', rm_importance = Fin 0, rm_memory_type = Episodic,
        rm_state = Active, rm_scope = Global, rm_event_at_ms = None, rm_ingested_at_ms = 0,
        rm_retrieval_count = 0, rm_strength = Fin 1, rm_last_retrieved_at_ms = 0,
        rm_consolidation_count = 0, rm_tags = [], rm_vector = None\<rparr>,
      sm_channels = \<lparr>ch_semantic = Fin 0, ch_text_match = Fin 0, ch_importance = Fin 0,
        ch_retrievability = Fin 0, ch_emotional = Fin 0, ch_resonance = Fin 0\<rparr>,
      sm_score = Fin s, sm_disclosed = Some text', sm_disclosure = Disclose_Include,
      sm_branches = [Semantic_Branch], sm_reasons = [], sm_citations = []\<rparr>"

lemma shown_fields [simp]:
  "sm_id (shown i x s) = i" "sm_score (shown i x s) = Fin s" "sm_disclosed (shown i x s) = Some x"
  "sm_disclosure (shown i x s) = Disclose_Include"
  by (simp_all add: shown_def sm_id_def)

theorem one_result_per_disclosed_text_witness:
  "length (merge_disclosed_duplicates id [shown ''a'' restricted_summary 1, shown ''b'' restricted_summary 2]) \<le> 1"
  using one_result_per_disclosed_text [of id "[shown ''a'' restricted_summary 1, shown ''b'' restricted_summary 2]"]
  by simp

theorem diversify_selects_witness:
  "diversify [shown ''a'' ''x'' 2, shown ''b'' ''x'' 1] 1 (Fin 1) = [shown ''a'' ''x'' 2]"
  using diversify_selects [of "[shown ''a'' ''x'' 2, shown ''b'' ''x'' 1]" 1 "Fin 1"]
  by (simp add: strictly_ranked_def finite_scores_def)

theorem recall_answer_is_policy_safe_witness:
  "\<exists>results. finish_recall id (Fin 0) 1 1 (Fin 1) Deterministic [shown ''a'' ''x'' 2]
       = (Inr (results, DeterministicFallback, None) :: unit engine_error + _) \<and> length results \<le> 1"
proof -
  obtain results status ab where run: "finish_recall id (Fin 0) 1 1 (Fin 1) Deterministic [shown ''a'' ''x'' 2]
       = (Inr (results, status, ab) :: unit engine_error + _)"
    and st: "status = DeterministicFallback"
    and ab: "results \<noteq> []"
    by (simp add: finish_recall_def Let_def apply_reranker_def rank_order_def sort_by_def
        merge_disclosed_duplicates_def diversify_def remove_at_def)
  with recall_answer_is_policy_safe [OF run] show ?thesis by auto
qed

end
