(* ===== verification/Claim.thy ===== *)
theory Claim
  imports Identity Hash_Framing Idempotency Engine_Result
begin

text \<open>
  \<open>claim.rs\<close>: atomic claims with their validity interval, links to the raw events that support or
  refute them, supersession links, and contradictions. Ids are derived from a digest of the request:
  \<open>b3_raw\<close> gives its bytes, \<open>uuid_text\<close> prints a UUID, \<open>uuid_ok\<close> tells what \<open>Uuid::parse_str\<close> accepts.
\<close>

section \<open>Requests\<close>

datatype evidence_relation = Supports | Refutes | QualifiesClaim

fun evidence_relation_str :: "evidence_relation \<Rightarrow> string" where
  "evidence_relation_str Supports = ''supports''"
| "evidence_relation_str Refutes = ''refutes''"
| "evidence_relation_str QualifiesClaim = ''qualifies''"

definition parse_evidence_relation :: "string \<Rightarrow> evidence_relation option" where
  "parse_evidence_relation s =
     (if s = ''supports'' then Some Supports
      else if s = ''refutes'' then Some Refutes
      else if s = ''qualifies'' then Some QualifiesClaim
      else None)"

interpretation evidence_relation: enum_codec evidence_relation_str parse_evidence_relation
  by unfold_locales ((case_tac x; simp add: parse_evidence_relation_def),
    (auto simp: parse_evidence_relation_def split: if_splits))

record evidence_input =
  ei_event_id :: string
  ei_relation :: evidence_relation
  ei_excerpt :: "string option"

record claim_request =
  cr_scope :: recall_scope
  cr_subject :: string
  cr_predicate :: string
  cr_value :: string
  cr_confidence :: f64
  cr_valid_from_ms :: "i64 option"
  cr_valid_to_ms :: "i64 option"
  cr_recorded_at_ms :: i64
  cr_evidence :: "evidence_input list"

definition max_claim_part_bytes :: nat where
  "max_claim_part_bytes = 4096"

definition validate_part :: "string \<Rightarrow> string \<Rightarrow> invalid_claim + unit" where
  "validate_part s f =
     (if s = [] \<or> trim s \<noteq> s \<or> max_claim_part_bytes < length s \<or> has_control s
      then Inl (ClaimText f) else Inr ())"

definition in_unit_interval :: "f64 \<Rightarrow> bool" where
  "in_unit_interval x = (case x of Fin r \<Rightarrow> 0 \<le> r \<and> r \<le> 1 | _ \<Rightarrow> False)"

definition empty_interval :: "i64 option \<Rightarrow> i64 option \<Rightarrow> bool" where
  "empty_interval from' to' =
     (case (from', to') of (Some a, Some b) \<Rightarrow> sint b \<le> sint a | _ \<Rightarrow> False)"

definition validate_claim :: "claim_request \<Rightarrow> invalid_claim + unit" where
  "validate_claim req =
     r_bind (validate_part (cr_subject req) ''subject'') (\<lambda>_.
     r_bind (validate_part (cr_predicate req) ''predicate'') (\<lambda>_.
     r_bind (validate_part (cr_value req) ''value'') (\<lambda>_.
     if \<not> in_unit_interval (cr_confidence req) then Inl ClaimConfidence
     else if cr_evidence req = [] then Inl ClaimNoEvidence
     else if empty_interval (cr_valid_from_ms req) (cr_valid_to_ms req) then Inl ClaimValidity
     else Inr ())))"

section \<open>Claims\<close>

record claim =
  cl_id :: string
  cl_scope :: recall_scope
  cl_subject :: string
  cl_predicate :: string
  cl_value :: string
  cl_confidence_nanos :: i64
  cl_valid_from_ms :: "i64 option"
  cl_valid_to_ms :: "i64 option"
  cl_recorded_at_ms :: i64
  cl_evidence_count :: u64

definition claim_prefix :: bytes where
  "claim_prefix = ''__celiums/claim/''"

definition evidence_prefix :: bytes where
  "evidence_prefix = ''__celiums/claim_evidence/''"

definition link_prefix :: bytes where
  "link_prefix = ''__celiums/claim_supersession/''"

definition claim_id_domain :: bytes where
  "claim_id_domain = ''celiums-memory/claim-id/v1''"

definition hash_scope :: "recall_scope \<Rightarrow> bytes" where
  "hash_scope sc =
     write_hash_field ''tenant_id'' (rs_tenant_id sc) @ write_hash_field ''user_id'' (rs_user_id sc)
     @ write_optional_text ''project_id'' (rs_project_id sc)
     @ write_optional_text ''conversation_id'' (rs_conversation_id sc)
     @ write_optional_text ''session_id'' (rs_session_id sc)"

definition hash_evidence :: "evidence_input \<Rightarrow> bytes" where
  "hash_evidence e =
     write_hash_field ''event_id'' (ei_event_id e)
     @ write_hash_field ''relation'' (evidence_relation_str (ei_relation e))
     @ write_optional_text ''excerpt'' (ei_excerpt e)"

definition claim_preimage :: "claim_request \<Rightarrow> bytes" where
  "claim_preimage req =
     claim_id_domain @ hash_scope (cr_scope req)
     @ write_hash_field ''subject'' (cr_subject req)
     @ write_hash_field ''predicate'' (cr_predicate req)
     @ write_hash_field ''value'' (cr_value req)
     @ write_optional_i64 ''valid_from_ms'' (cr_valid_from_ms req)
     @ write_optional_i64 ''valid_to_ms'' (cr_valid_to_ms req)
     @ concat (map hash_evidence (cr_evidence req))"

definition claim_id_of :: "(bytes \<Rightarrow> bytes) \<Rightarrow> (bytes \<Rightarrow> string) \<Rightarrow> claim_request \<Rightarrow> string" where
  "claim_id_of b3_raw uuid_text req = uuid_text (uuid_bytes (b3_raw (claim_preimage req)))"

definition claim_of_request :: "(bytes \<Rightarrow> bytes) \<Rightarrow> (bytes \<Rightarrow> string) \<Rightarrow> claim_request \<Rightarrow> claim" where
  "claim_of_request b3_raw uuid_text req =
     \<lparr>cl_id = claim_id_of b3_raw uuid_text req, cl_scope = cr_scope req, cl_subject = cr_subject req,
      cl_predicate = cr_predicate req, cl_value = cr_value req,
      cl_confidence_nanos = to_nanos (cr_confidence req), cl_valid_from_ms = cr_valid_from_ms req,
      cl_valid_to_ms = cr_valid_to_ms req, cl_recorded_at_ms = cr_recorded_at_ms req,
      cl_evidence_count = word_of_nat (length (cr_evidence req))\<rparr>"

definition claim_key :: "string \<Rightarrow> bytes" where
  "claim_key i = claim_prefix @ i"

definition claim_to_record :: "claim \<Rightarrow> doc" where
  "claim_to_record c =
     \<lparr>doc_key = claim_key (cl_id c),
      doc_value = VObject (scope_fields (cl_scope c) ++
        [''kind'' \<mapsto> VString ''claim'', ''claim_id'' \<mapsto> VString (cl_id c),
         ''subject'' \<mapsto> VString (cl_subject c), ''predicate'' \<mapsto> VString (cl_predicate c),
         ''value'' \<mapsto> VString (cl_value c), ''confidence_nanos'' \<mapsto> VInteger (cl_confidence_nanos c),
         ''valid_from_ms'' \<mapsto> opt_integer (cl_valid_from_ms c),
         ''valid_to_ms'' \<mapsto> opt_integer (cl_valid_to_ms c),
         ''recorded_at_ms'' \<mapsto> VInteger (cl_recorded_at_ms c),
         ''evidence_count'' \<mapsto> VInteger (i64_of_u64_sat (cl_evidence_count c))])\<rparr>"

definition claim_from_record :: "(string \<Rightarrow> bool) \<Rightarrow> doc \<Rightarrow> claim decoded" where
  "claim_from_record uuid_ok rec =
     (if \<not> prefix claim_prefix (doc_key rec) then Inl KeyErr else
      r_bind (root_fields (doc_value rec)) (\<lambda>fs.
      r_bind (string_field fs ''kind'') (\<lambda>k.
      if k \<noteq> ''claim'' then Inl (FieldErr ''kind'') else
      r_bind (checked_field uuid_ok fs ''claim_id'' ''claim_id'') (\<lambda>i.
      r_bind (scope_from_fields ''tenant_id'' ''user_id'' fs) (\<lambda>sc.
      r_bind (string_field fs ''subject'') (\<lambda>su.
      r_bind (string_field fs ''predicate'') (\<lambda>pr.
      r_bind (string_field fs ''value'') (\<lambda>va.
      r_bind (integer_field fs ''confidence_nanos'') (\<lambda>co.
      r_bind (required_integer_option fs ''valid_from_ms'') (\<lambda>vf.
      r_bind (required_integer_option fs ''valid_to_ms'') (\<lambda>vt.
      r_bind (integer_field fs ''recorded_at_ms'') (\<lambda>re.
      r_bind (unsigned_field fs ''evidence_count'') (\<lambda>ec.
        Inr \<lparr>cl_id = i, cl_scope = sc, cl_subject = su, cl_predicate = pr, cl_value = va,
             cl_confidence_nanos = co, cl_valid_from_ms = vf, cl_valid_to_ms = vt,
             cl_recorded_at_ms = re, cl_evidence_count = ec\<rparr>)))))))))))))"

section \<open>Evidence links\<close>

record claim_evidence =
  ev_claim_id :: string
  ev_event_id :: string
  ev_relation :: evidence_relation
  ev_excerpt :: "string option"
  ev_recorded_at_ms :: i64

definition evidence_of_input :: "string \<Rightarrow> evidence_input \<Rightarrow> i64 \<Rightarrow> claim_evidence" where
  "evidence_of_input i e at' =
     \<lparr>ev_claim_id = i, ev_event_id = ei_event_id e, ev_relation = ei_relation e,
      ev_excerpt = ei_excerpt e, ev_recorded_at_ms = at'\<rparr>"

definition claim_evidence_prefix :: "string \<Rightarrow> bytes" where
  "claim_evidence_prefix i = evidence_prefix @ i @ ''/''"

definition evidence_to_record :: "claim_evidence \<Rightarrow> doc" where
  "evidence_to_record e =
     \<lparr>doc_key = claim_evidence_prefix (ev_claim_id e) @ ev_event_id e @ ''-''
        @ evidence_relation_str (ev_relation e),
      doc_value = VObject
        [''kind'' \<mapsto> VString ''claim_evidence'', ''claim_id'' \<mapsto> VString (ev_claim_id e),
         ''event_id'' \<mapsto> VString (ev_event_id e),
         ''relation'' \<mapsto> VString (evidence_relation_str (ev_relation e)),
         ''excerpt'' \<mapsto> opt_string (ev_excerpt e),
         ''recorded_at_ms'' \<mapsto> VInteger (ev_recorded_at_ms e)]\<rparr>"

definition evidence_from_record :: "(string \<Rightarrow> bool) \<Rightarrow> doc \<Rightarrow> claim_evidence decoded" where
  "evidence_from_record uuid_ok rec =
     (if \<not> prefix evidence_prefix (doc_key rec) then Inl KeyErr else
      r_bind (root_fields (doc_value rec)) (\<lambda>fs.
      r_bind (string_field fs ''kind'') (\<lambda>k.
      if k \<noteq> ''claim_evidence'' then Inl (FieldErr ''kind'') else
      r_bind (checked_field uuid_ok fs ''claim_id'' ''claim_id'') (\<lambda>i.
      r_bind (checked_field uuid_ok fs ''event_id'' ''event_id'') (\<lambda>ev.
      r_bind (r_bind (string_field fs ''relation'') (\<lambda>s.
                ok_or (FieldErr ''relation'') (parse_evidence_relation s))) (\<lambda>r.
      r_bind (required_string_option fs ''excerpt'') (\<lambda>x.
      r_bind (integer_field fs ''recorded_at_ms'') (\<lambda>re.
        Inr \<lparr>ev_claim_id = i, ev_event_id = ev, ev_relation = r, ev_excerpt = x,
             ev_recorded_at_ms = re\<rparr>))))))))"

section \<open>Supersession links\<close>

datatype link_relation = Supersedes | Recants | Qualifies | Reaffirms

fun link_relation_str :: "link_relation \<Rightarrow> string" where
  "link_relation_str Supersedes = ''supersedes''"
| "link_relation_str Recants = ''recants''"
| "link_relation_str Qualifies = ''qualifies''"
| "link_relation_str Reaffirms = ''reaffirms''"

definition parse_link_relation :: "string \<Rightarrow> link_relation option" where
  "parse_link_relation s =
     (if s = ''supersedes'' then Some Supersedes
      else if s = ''recants'' then Some Recants
      else if s = ''qualifies'' then Some Qualifies
      else if s = ''reaffirms'' then Some Reaffirms
      else None)"

interpretation link_relation: enum_codec link_relation_str parse_link_relation
  by unfold_locales ((case_tac x; simp add: parse_link_relation_def),
    (auto simp: parse_link_relation_def split: if_splits))

fun retires_original :: "link_relation \<Rightarrow> bool" where
  "retires_original Supersedes = True"
| "retires_original Recants = True"
| "retires_original _ = False"

record link_request =
  lr_scope :: recall_scope
  lr_original :: string
  lr_successor :: "string option"
  lr_relation :: link_relation
  lr_effective_at_ms :: i64
  lr_recorded_at_ms :: i64
  lr_reason :: "string option"

record claim_link =
  ln_id :: string
  ln_original :: string
  ln_successor :: "string option"
  ln_relation :: link_relation
  ln_effective_at_ms :: i64
  ln_recorded_at_ms :: i64
  ln_reason :: "string option"

definition link_preimage :: "link_request \<Rightarrow> bytes" where
  "link_preimage req =
     ''celiums-memory/claim-supersession/v1''
     @ write_hash_field ''original_claim_id'' (lr_original req)
     @ write_optional_text ''successor_claim_id'' (lr_successor req)
     @ write_hash_field ''relation'' (link_relation_str (lr_relation req))
     @ write_hash_field ''effective_at_ms'' (i64_le (lr_effective_at_ms req))"

definition link_of_request :: "(bytes \<Rightarrow> bytes) \<Rightarrow> (bytes \<Rightarrow> string) \<Rightarrow> link_request \<Rightarrow> claim_link" where
  "link_of_request b3_raw uuid_text req =
     \<lparr>ln_id = uuid_text (uuid_bytes (b3_raw (link_preimage req))), ln_original = lr_original req,
      ln_successor = lr_successor req, ln_relation = lr_relation req,
      ln_effective_at_ms = lr_effective_at_ms req, ln_recorded_at_ms = lr_recorded_at_ms req,
      ln_reason = lr_reason req\<rparr>"

definition link_to_record :: "claim_link \<Rightarrow> doc" where
  "link_to_record l =
     \<lparr>doc_key = link_prefix @ ln_id l,
      doc_value = VObject
        [''kind'' \<mapsto> VString ''claim_supersession'', ''id'' \<mapsto> VString (ln_id l),
         ''original_claim_id'' \<mapsto> VString (ln_original l),
         ''successor_claim_id'' \<mapsto> opt_string (ln_successor l),
         ''relation'' \<mapsto> VString (link_relation_str (ln_relation l)),
         ''effective_at_ms'' \<mapsto> VInteger (ln_effective_at_ms l),
         ''recorded_at_ms'' \<mapsto> VInteger (ln_recorded_at_ms l),
         ''reason'' \<mapsto> opt_string (ln_reason l)]\<rparr>"

definition link_from_record :: "(string \<Rightarrow> bool) \<Rightarrow> doc \<Rightarrow> claim_link decoded" where
  "link_from_record uuid_ok rec =
     (if \<not> prefix link_prefix (doc_key rec) then Inl KeyErr else
      r_bind (root_fields (doc_value rec)) (\<lambda>fs.
      r_bind (string_field fs ''kind'') (\<lambda>k.
      if k \<noteq> ''claim_supersession'' then Inl (FieldErr ''kind'') else
      r_bind (string_field fs ''id'') (\<lambda>i.
      r_bind (checked_field uuid_ok fs ''original_claim_id'' ''claim_id'') (\<lambda>or.
      r_bind (r_bind (required_string_option fs ''successor_claim_id'') (\<lambda>o'. case o' of
                None \<Rightarrow> Inr None
              | Some s \<Rightarrow> if uuid_ok s then Inr (Some s) else Inl (FieldErr ''claim_id''))) (\<lambda>su.
      r_bind (r_bind (string_field fs ''relation'') (\<lambda>s.
                ok_or (FieldErr ''relation'') (parse_link_relation s))) (\<lambda>r.
      r_bind (integer_field fs ''effective_at_ms'') (\<lambda>ef.
      r_bind (integer_field fs ''recorded_at_ms'') (\<lambda>re.
      r_bind (required_string_option fs ''reason'') (\<lambda>x.
        Inr \<lparr>ln_id = i, ln_original = or, ln_successor = su, ln_relation = r,
             ln_effective_at_ms = ef, ln_recorded_at_ms = re, ln_reason = x\<rparr>))))))))))"

section \<open>Validity\<close>

definition valid_at :: "claim \<Rightarrow> i64 \<Rightarrow> bool" where
  "valid_at c t \<longleftrightarrow>
     (case cl_valid_from_ms c of None \<Rightarrow> True | Some a \<Rightarrow> sint a \<le> sint t)
     \<and> (case cl_valid_to_ms c of None \<Rightarrow> True | Some b \<Rightarrow> sint t < sint b)"

definition later :: "i64 option \<Rightarrow> i64 option \<Rightarrow> i64 option" where
  "later a b = (case (a, b) of
     (Some x, Some y) \<Rightarrow> Some (if sint x \<le> sint y then y else x)
   | (Some x, None) \<Rightarrow> Some x | (None, Some y) \<Rightarrow> Some y | (None, None) \<Rightarrow> None)"

definition earlier :: "i64 option \<Rightarrow> i64 option \<Rightarrow> i64 option" where
  "earlier a b = (case (a, b) of
     (Some x, Some y) \<Rightarrow> Some (if sint x \<le> sint y then x else y)
   | (Some x, None) \<Rightarrow> Some x | (None, Some y) \<Rightarrow> Some y | (None, None) \<Rightarrow> None)"

definition validity_overlap :: "claim \<Rightarrow> claim \<Rightarrow> (i64 option \<times> i64 option) option" where
  "validity_overlap l r =
     (let from' = later (cl_valid_from_ms l) (cl_valid_from_ms r);
          to' = earlier (cl_valid_to_ms l) (cl_valid_to_ms r)
      in if empty_interval from' to' then None else Some (from', to'))"

record contradiction =
  ct_left :: string
  ct_right :: string
  ct_from_ms :: "i64 option"
  ct_to_ms :: "i64 option"

record property_query =
  pq_scope :: recall_scope
  pq_subject :: string
  pq_predicate :: string
  pq_valid_at_ms :: i64
  pq_known_at_ms :: i64

section \<open>Codecs\<close>

lemma claim_roundtrip:
  assumes "wf_scope (cl_scope c)" and "uuid_ok (cl_id c)"
  shows "claim_from_record uuid_ok (claim_to_record c)
    = Inr (c\<lparr>cl_evidence_count := u64_sat (cl_evidence_count c)\<rparr>)"
proof -
  define fs where "fs = scope_fields (cl_scope c) ++
        [''kind'' \<mapsto> VString ''claim'', ''claim_id'' \<mapsto> VString (cl_id c),
         ''subject'' \<mapsto> VString (cl_subject c), ''predicate'' \<mapsto> VString (cl_predicate c),
         ''value'' \<mapsto> VString (cl_value c), ''confidence_nanos'' \<mapsto> VInteger (cl_confidence_nanos c),
         ''valid_from_ms'' \<mapsto> opt_integer (cl_valid_from_ms c),
         ''valid_to_ms'' \<mapsto> opt_integer (cl_valid_to_ms c),
         ''recorded_at_ms'' \<mapsto> VInteger (cl_recorded_at_ms c),
         ''evidence_count'' \<mapsto> VInteger (i64_of_u64_sat (cl_evidence_count c))]"
  have f: "fs ''kind'' = Some (VString ''claim'')" "fs ''claim_id'' = Some (VString (cl_id c))"
    "fs ''subject'' = Some (VString (cl_subject c))" "fs ''predicate'' = Some (VString (cl_predicate c))"
    "fs ''value'' = Some (VString (cl_value c))"
    "fs ''confidence_nanos'' = Some (VInteger (cl_confidence_nanos c))"
    "fs ''valid_from_ms'' = Some (opt_integer (cl_valid_from_ms c))"
    "fs ''valid_to_ms'' = Some (opt_integer (cl_valid_to_ms c))"
    "fs ''recorded_at_ms'' = Some (VInteger (cl_recorded_at_ms c))"
    "fs ''evidence_count'' = Some (VInteger (i64_of_u64_sat (cl_evidence_count c)))"
    by (simp_all add: fs_def)
  have sc: "scope_from_fields te ue fs = Inr (cl_scope c)" for te ue
    by (rule scope_roundtrip [OF assms(1)]) (simp_all add: fs_def map_add_def)
  have rec: "claim_to_record c = \<lparr>doc_key = claim_key (cl_id c), doc_value = VObject fs\<rparr>"
    by (simp add: claim_to_record_def fs_def)
  show ?thesis
    by (simp add: claim_from_record_def rec claim_key_def root_fields_VObject sc f codec assms(2))
qed

lemma evidence_roundtrip:
  "uuid_ok (ev_claim_id e) \<Longrightarrow> uuid_ok (ev_event_id e)
   \<Longrightarrow> evidence_from_record uuid_ok (evidence_to_record e) = Inr e"
  by (simp add: evidence_from_record_def evidence_to_record_def claim_evidence_prefix_def codec
      string_field_def integer_field_def required_string_option_def opt_string_def checked_field_def
      evidence_relation.of_to_name split: option.split)

lemma link_roundtrip:
  "uuid_ok (ln_original l) \<Longrightarrow> pred_option uuid_ok (ln_successor l)
   \<Longrightarrow> link_from_record uuid_ok (link_to_record l) = Inr l"
  by (cases "ln_successor l"; cases "ln_reason l")
    (simp_all add: link_from_record_def link_to_record_def root_fields_def
      string_field_def integer_field_def required_string_option_def opt_string_def checked_field_def
      link_relation.of_to_name)

section \<open>Intervals\<close>

lemma valid_at_nonempty: "valid_at c t \<Longrightarrow> \<not> empty_interval (cl_valid_from_ms c) (cl_valid_to_ms c)"
  by (auto simp: valid_at_def empty_interval_def split: option.splits)

text \<open>The overlap of two claims is the set of instants at which both are valid, as an interval of
  the same kind; it exists exactly when there is such an instant.\<close>

lemma valid_overlap:
  assumes "later (cl_valid_from_ms l) (cl_valid_from_ms r) = a"
    and "earlier (cl_valid_to_ms l) (cl_valid_to_ms r) = b"
  shows "valid_at l t \<and> valid_at r t \<longleftrightarrow>
    (case a of None \<Rightarrow> True | Some x \<Rightarrow> sint x \<le> sint t) \<and> (case b of None \<Rightarrow> True | Some y \<Rightarrow> sint t < sint y)"
  using assms by (auto simp: valid_at_def later_def earlier_def split: option.splits if_splits)

end
