(* ===== verification/Ingestion.thy ===== *)
theory Ingestion
  imports Identity Hash_Framing Idempotency
begin

text \<open>
  \<open>ingestion.rs\<close>: the durable ledger of source events, one entry per event, and the batches they are
  submitted in. \<open>b3\<close> is the hexadecimal digest, \<open>b3_raw\<close> its bytes, \<open>uuid_text\<close> prints a UUID and
  \<open>uuid_ok\<close> tells what \<open>Uuid::parse_str\<close> accepts. The four identifier types of the macro share the
  check of \<open>identity.rs\<close>, \<open>valid_identity\<close>.
\<close>

section \<open>Identifiers\<close>

definition event_id_domain :: bytes where
  "event_id_domain = ''celiums-memory/ingestion-event-id/v1''"

definition event_id_preimage :: "string \<Rightarrow> string option \<Rightarrow> string \<Rightarrow> string \<Rightarrow> bytes" where
  "event_id_preimage tenant user namespace source_event =
     event_id_domain @ write_hash_field ''tenant_id'' tenant
     @ (case user of None \<Rightarrow> [] | Some u \<Rightarrow> write_hash_field ''user_id'' u)
     @ write_hash_field ''source_namespace'' namespace
     @ write_hash_field ''source_event_id'' source_event"

definition event_id_for ::
  "(bytes \<Rightarrow> bytes) \<Rightarrow> (bytes \<Rightarrow> string) \<Rightarrow> string \<Rightarrow> string option \<Rightarrow> string \<Rightarrow> string \<Rightarrow> string" where
  "event_id_for b3_raw uuid_text tenant user namespace source_event =
     uuid_text (uuid_bytes (b3_raw (event_id_preimage tenant user namespace source_event)))"

section \<open>States\<close>

datatype ingestion_status = Received | Materialized | Rejected | Failed

fun ingestion_status_str :: "ingestion_status \<Rightarrow> string" where
  "ingestion_status_str Received = ''received''"
| "ingestion_status_str Materialized = ''materialized''"
| "ingestion_status_str Rejected = ''rejected''"
| "ingestion_status_str Failed = ''failed''"

definition parse_ingestion_status :: "string \<Rightarrow> ingestion_status option" where
  "parse_ingestion_status s =
     (if s = ''received'' then Some Received
      else if s = ''materialized'' then Some Materialized
      else if s = ''rejected'' then Some Rejected
      else if s = ''failed'' then Some Failed
      else None)"

interpretation ingestion_status: enum_codec ingestion_status_str parse_ingestion_status
  by unfold_locales ((case_tac x; simp add: parse_ingestion_status_def),
    (auto simp: parse_ingestion_status_def split: if_splits))

definition is_terminal :: "ingestion_status \<Rightarrow> bool" where
  "is_terminal s \<longleftrightarrow> s = Materialized \<or> s = Rejected"

record ingestion_coverage =
  cv_attempted :: u64
  cv_received :: u64
  cv_materialized :: u64
  cv_rejected :: u64
  cv_failed :: u64

definition accounted :: "ingestion_coverage \<Rightarrow> u64" where
  "accounted c = cv_received c + cv_materialized c + cv_rejected c + cv_failed c"

datatype batch_status = Pending | Completed

fun batch_status_str :: "batch_status \<Rightarrow> string" where
  "batch_status_str Pending = ''pending''"
| "batch_status_str Completed = ''completed''"

definition parse_batch_status :: "string \<Rightarrow> batch_status option" where
  "parse_batch_status s =
     (if s = ''pending'' then Some Pending else if s = ''completed'' then Some Completed else None)"

interpretation batch_status: enum_codec batch_status_str parse_batch_status
  by unfold_locales ((case_tac x; simp add: parse_batch_status_def),
    (auto simp: parse_batch_status_def split: if_splits))

fun ing_role_name :: "content_role \<Rightarrow> string" where
  "ing_role_name Observation = ''observation''"
| "ing_role_name Description = ''description''"
| "ing_role_name OperationalRequest = ''operational_request''"

definition ing_parse_role :: "string \<Rightarrow> content_role option" where
  "ing_parse_role s =
     (if s = ''observation'' then Some Observation
      else if s = ''description'' then Some Description
      else if s = ''operational_request'' then Some OperationalRequest
      else None)"

interpretation ing_role: enum_codec ing_role_name ing_parse_role
  by unfold_locales ((case_tac x; simp add: ing_parse_role_def),
    (auto simp: ing_parse_role_def split: if_splits))

fun ing_purpose_name :: "memory_purpose \<Rightarrow> string" where
  "ing_purpose_name ConversationalContext = ''conversational_context''"
| "ing_purpose_name Personalization = ''personalization''"
| "ing_purpose_name TaskExecution = ''task_execution''"
| "ing_purpose_name SafetyAudit = ''safety_audit''"

definition ing_parse_purpose :: "string \<Rightarrow> memory_purpose option" where
  "ing_parse_purpose s =
     (if s = ''conversational_context'' then Some ConversationalContext
      else if s = ''personalization'' then Some Personalization
      else if s = ''task_execution'' then Some TaskExecution
      else if s = ''safety_audit'' then Some SafetyAudit
      else None)"

interpretation ing_purpose: enum_codec ing_purpose_name ing_parse_purpose
  by unfold_locales ((case_tac x; simp add: ing_parse_purpose_def),
    (auto simp: ing_parse_purpose_def split: if_splits))

section \<open>Entries\<close>

record ingestion_entry =
  ie_event_id :: string
  ie_source_namespace :: string
  ie_source_event_id :: string
  ie_turn_id :: "string option"
  ie_identity :: memory_identity
  ie_source_kind :: source_kind
  ie_source_uri :: "string option"
  ie_actor :: "string option"
  ie_content :: bytes
  ie_tags :: "string list"
  ie_scope :: scope
  ie_importance_nanos :: "i64 option"
  ie_content_role :: content_role
  ie_purpose :: memory_purpose
  ie_content_hash :: string
  ie_request_hash :: string
  ie_event_at_ms :: "i64 option"
  ie_first_ingested_at_ms :: i64
  ie_last_attempted_at_ms :: i64
  ie_attempt_count :: u64
  ie_conflict_count :: u64
  ie_status :: ingestion_status
  ie_memory_id :: "string option"
  ie_error_code :: "string option"
  ie_enrichment_provider :: "string option"
  ie_enrichment_attempt_count :: u64

definition entry_scope :: "ingestion_entry \<Rightarrow> recall_scope" where
  "entry_scope e =
     \<lparr>rs_tenant_id = tenant_id (ie_identity e), rs_user_id = user_id (ie_identity e),
      rs_project_id = project_id (ie_identity e), rs_conversation_id = conversation_id (ie_identity e),
      rs_session_id = session_id (ie_identity e)\<rparr>"

definition entry_importance :: "ingestion_entry \<Rightarrow> f64 option" where
  "entry_importance e = map_option of_nanos (ie_importance_nanos e)"

definition ingestion_prefix :: bytes where
  "ingestion_prefix = ''__celiums/ingestion/event/''"

definition ingestion_key :: "string \<Rightarrow> bytes" where
  "ingestion_key i = ingestion_prefix @ i"

definition source_fields :: "ingestion_entry \<Rightarrow> fields" where
  "source_fields e =
     [''kind'' \<mapsto> VString ''ingestion_event'', ''event_id'' \<mapsto> VString (ie_event_id e),
      ''source_namespace'' \<mapsto> VString (ie_source_namespace e),
      ''source_event_id'' \<mapsto> VString (ie_source_event_id e),
      ''turn_id'' \<mapsto> opt_string (ie_turn_id e),
      ''source_kind'' \<mapsto> VString (source_kind_as_str (ie_source_kind e)),
      ''source_uri'' \<mapsto> opt_string (ie_source_uri e), ''source_actor'' \<mapsto> opt_string (ie_actor e)]"

definition owner_fields :: "memory_identity \<Rightarrow> fields" where
  "owner_fields i =
     [''tenant_id'' \<mapsto> VString (tenant_id i), ''user_id'' \<mapsto> VString (user_id i),
      ''agent_id'' \<mapsto> opt_string (agent_id i), ''project_id'' \<mapsto> opt_string (project_id i),
      ''conversation_id'' \<mapsto> opt_string (conversation_id i),
      ''session_id'' \<mapsto> opt_string (session_id i)]"

definition payload_fields :: "ingestion_entry \<Rightarrow> fields" where
  "payload_fields e =
     [''content'' \<mapsto> VString (ie_content e), ''tags'' \<mapsto> string_array_value (ie_tags e),
      ''scope'' \<mapsto> VString (scope_as_str (ie_scope e)),
      ''importance_nanos'' \<mapsto> opt_integer (ie_importance_nanos e),
      ''content_role'' \<mapsto> VString (ing_role_name (ie_content_role e)),
      ''purpose'' \<mapsto> VString (ing_purpose_name (ie_purpose e)),
      ''content_hash'' \<mapsto> VString (ie_content_hash e),
      ''request_hash'' \<mapsto> VString (ie_request_hash e),
      ''event_at_ms'' \<mapsto> opt_integer (ie_event_at_ms e)]"

definition progress_fields :: "ingestion_entry \<Rightarrow> fields" where
  "progress_fields e =
     [''first_ingested_at_ms'' \<mapsto> VInteger (ie_first_ingested_at_ms e),
      ''last_attempted_at_ms'' \<mapsto> VInteger (ie_last_attempted_at_ms e),
      ''attempt_count'' \<mapsto> VInteger (i64_of_u64_sat (ie_attempt_count e)),
      ''conflict_count'' \<mapsto> VInteger (i64_of_u64_sat (ie_conflict_count e)),
      ''status'' \<mapsto> VString (ingestion_status_str (ie_status e)),
      ''memory_id'' \<mapsto> opt_string (ie_memory_id e), ''error_code'' \<mapsto> opt_string (ie_error_code e),
      ''enrichment_provider'' \<mapsto> opt_string (ie_enrichment_provider e),
      ''enrichment_attempt_count'' \<mapsto> VInteger (i64_of_u64_sat (ie_enrichment_attempt_count e))]"

definition ingestion_fields :: "ingestion_entry \<Rightarrow> fields" where
  "ingestion_fields e =
     source_fields e ++ owner_fields (ie_identity e) ++ payload_fields e ++ progress_fields e"

definition ingestion_to_record :: "ingestion_entry \<Rightarrow> doc" where
  "ingestion_to_record e =
     \<lparr>doc_key = ingestion_key (ie_event_id e), doc_value = VObject (ingestion_fields e)\<rparr>"

definition parsed_field :: "(string \<Rightarrow> 'a option) \<Rightarrow> fields \<Rightarrow> string \<Rightarrow> 'a decoded" where
  "parsed_field parse fs f = r_bind (string_field fs f) (\<lambda>s. ok_or (FieldErr f) (parse s))"

definition owner_from_fields :: "fields \<Rightarrow> memory_identity decoded" where
  "owner_from_fields fs =
     r_bind (checked_field valid_identity fs ''tenant_id'' ''tenant_id'') (\<lambda>t.
     r_bind (checked_field valid_identity fs ''user_id'' ''user_id'') (\<lambda>u.
     r_bind (required_identity fs ''agent_id'') (\<lambda>a.
     r_bind (required_identity fs ''project_id'') (\<lambda>p.
     r_bind (required_identity fs ''conversation_id'') (\<lambda>c.
     r_bind (required_identity fs ''session_id'') (\<lambda>s.
       Inr \<lparr>tenant_id = t, user_id = u, agent_id = a, project_id = p, conversation_id = c,
            session_id = s\<rparr>))))))"

definition ingestion_from_record :: "(string \<Rightarrow> bool) \<Rightarrow> doc \<Rightarrow> ingestion_entry decoded" where
  "ingestion_from_record uuid_ok rec =
     (if \<not> prefix ingestion_prefix (doc_key rec) then Inl KeyErr else
      r_bind (root_fields (doc_value rec)) (\<lambda>fs.
      r_bind (string_field fs ''kind'') (\<lambda>k.
      if k \<noteq> ''ingestion_event'' then Inl (FieldErr ''kind'') else
      r_bind (parsed_field source_kind_parse fs ''source_kind'') (\<lambda>sk.
      r_bind (checked_field uuid_ok fs ''event_id'' ''event_id'') (\<lambda>i.
      r_bind (checked_field valid_identity fs ''source_namespace'' ''source_namespace'') (\<lambda>sn.
      r_bind (checked_field valid_identity fs ''source_event_id'' ''source_event_id'') (\<lambda>se.
      r_bind (required_identity fs ''turn_id'') (\<lambda>ti.
      r_bind (owner_from_fields fs) (\<lambda>ow.
      r_bind (required_string_option fs ''source_uri'') (\<lambda>su.
      r_bind (required_string_option fs ''source_actor'') (\<lambda>ac.
      r_bind (string_field fs ''content'') (\<lambda>co.
      r_bind (string_array_field fs ''tags'') (\<lambda>ta.
      r_bind (parsed_field scope_parse fs ''scope'') (\<lambda>sc.
      r_bind (required_integer_option fs ''importance_nanos'') (\<lambda>im.
      r_bind (parsed_field ing_parse_role fs ''content_role'') (\<lambda>ro.
      r_bind (parsed_field ing_parse_purpose fs ''purpose'') (\<lambda>pu.
      r_bind (string_field fs ''content_hash'') (\<lambda>ch.
      r_bind (string_field fs ''request_hash'') (\<lambda>rh.
      r_bind (required_integer_option fs ''event_at_ms'') (\<lambda>ea.
      r_bind (integer_field fs ''first_ingested_at_ms'') (\<lambda>fi.
      r_bind (integer_field fs ''last_attempted_at_ms'') (\<lambda>la.
      r_bind (unsigned_field fs ''attempt_count'') (\<lambda>at'.
      r_bind (unsigned_field fs ''conflict_count'') (\<lambda>cc.
      r_bind (parsed_field parse_ingestion_status fs ''status'') (\<lambda>st.
      r_bind (required_string_option fs ''memory_id'') (\<lambda>mi.
      r_bind (required_string_option fs ''error_code'') (\<lambda>er.
      r_bind (required_string_option fs ''enrichment_provider'') (\<lambda>ep.
      r_bind (unsigned_field fs ''enrichment_attempt_count'') (\<lambda>en.
        Inr \<lparr>ie_event_id = i, ie_source_namespace = sn, ie_source_event_id = se, ie_turn_id = ti,
             ie_identity = ow, ie_source_kind = sk, ie_source_uri = su, ie_actor = ac,
             ie_content = co, ie_tags = ta, ie_scope = sc, ie_importance_nanos = im,
             ie_content_role = ro, ie_purpose = pu, ie_content_hash = ch, ie_request_hash = rh,
             ie_event_at_ms = ea, ie_first_ingested_at_ms = fi, ie_last_attempted_at_ms = la,
             ie_attempt_count = at', ie_conflict_count = cc, ie_status = st, ie_memory_id = mi,
             ie_error_code = er, ie_enrichment_provider = ep,
             ie_enrichment_attempt_count = en\<rparr>)))))))))))))))))))))))))))))"

lemma read_parsed: "fs f = Some (VString s) \<Longrightarrow> parse s = Some x \<Longrightarrow> parsed_field parse fs f = Inr x"
  by (simp add: parsed_field_def string_field_def)

definition wf_ingestion_entry :: "(string \<Rightarrow> bool) \<Rightarrow> ingestion_entry \<Rightarrow> bool" where
  "wf_ingestion_entry uuid_ok e \<longleftrightarrow>
     uuid_ok (ie_event_id e) \<and> valid_identity (ie_source_namespace e)
     \<and> valid_identity (ie_source_event_id e) \<and> pred_option valid_identity (ie_turn_id e)
     \<and> wf_memory_identity (ie_identity e)"

text \<open>An entry as the store gives it back: its counters saturate at the largest \<open>i64\<close>.\<close>

definition saturated :: "ingestion_entry \<Rightarrow> ingestion_entry" where
  "saturated e = e\<lparr>ie_attempt_count := u64_sat (ie_attempt_count e),
     ie_conflict_count := u64_sat (ie_conflict_count e),
     ie_enrichment_attempt_count := u64_sat (ie_enrichment_attempt_count e)\<rparr>"

lemma ingestion_fields_lookup:
  "ingestion_fields e ''kind'' = Some (VString ''ingestion_event'')"
  "ingestion_fields e ''event_id'' = Some (VString (ie_event_id e))"
  "ingestion_fields e ''source_namespace'' = Some (VString (ie_source_namespace e))"
  "ingestion_fields e ''source_event_id'' = Some (VString (ie_source_event_id e))"
  "ingestion_fields e ''turn_id'' = Some (opt_string (ie_turn_id e))"
  "ingestion_fields e ''source_kind'' = Some (VString (source_kind_as_str (ie_source_kind e)))"
  "ingestion_fields e ''source_uri'' = Some (opt_string (ie_source_uri e))"
  "ingestion_fields e ''source_actor'' = Some (opt_string (ie_actor e))"
  "ingestion_fields e ''tenant_id'' = Some (VString (tenant_id (ie_identity e)))"
  "ingestion_fields e ''user_id'' = Some (VString (user_id (ie_identity e)))"
  "ingestion_fields e ''agent_id'' = Some (opt_string (agent_id (ie_identity e)))"
  "ingestion_fields e ''project_id'' = Some (opt_string (project_id (ie_identity e)))"
  "ingestion_fields e ''conversation_id'' = Some (opt_string (conversation_id (ie_identity e)))"
  "ingestion_fields e ''session_id'' = Some (opt_string (session_id (ie_identity e)))"
  "ingestion_fields e ''content'' = Some (VString (ie_content e))"
  "ingestion_fields e ''tags'' = Some (string_array_value (ie_tags e))"
  "ingestion_fields e ''scope'' = Some (VString (scope_as_str (ie_scope e)))"
  "ingestion_fields e ''importance_nanos'' = Some (opt_integer (ie_importance_nanos e))"
  "ingestion_fields e ''content_role'' = Some (VString (ing_role_name (ie_content_role e)))"
  "ingestion_fields e ''purpose'' = Some (VString (ing_purpose_name (ie_purpose e)))"
  "ingestion_fields e ''content_hash'' = Some (VString (ie_content_hash e))"
  "ingestion_fields e ''request_hash'' = Some (VString (ie_request_hash e))"
  "ingestion_fields e ''event_at_ms'' = Some (opt_integer (ie_event_at_ms e))"
  "ingestion_fields e ''first_ingested_at_ms'' = Some (VInteger (ie_first_ingested_at_ms e))"
  "ingestion_fields e ''last_attempted_at_ms'' = Some (VInteger (ie_last_attempted_at_ms e))"
  "ingestion_fields e ''attempt_count'' = Some (VInteger (i64_of_u64_sat (ie_attempt_count e)))"
  "ingestion_fields e ''conflict_count'' = Some (VInteger (i64_of_u64_sat (ie_conflict_count e)))"
  "ingestion_fields e ''status'' = Some (VString (ingestion_status_str (ie_status e)))"
  "ingestion_fields e ''memory_id'' = Some (opt_string (ie_memory_id e))"
  "ingestion_fields e ''error_code'' = Some (opt_string (ie_error_code e))"
  "ingestion_fields e ''enrichment_provider'' = Some (opt_string (ie_enrichment_provider e))"
  "ingestion_fields e ''enrichment_attempt_count''
     = Some (VInteger (i64_of_u64_sat (ie_enrichment_attempt_count e)))"
  by (simp_all add: ingestion_fields_def source_fields_def owner_fields_def payload_fields_def
      progress_fields_def map_add_def)

lemma ingestion_roundtrip:
  assumes "wf_ingestion_entry uuid_ok e"
  shows "ingestion_from_record uuid_ok (ingestion_to_record e) = Inr (saturated e)"
proof -
  note wf = assms [unfolded wf_ingestion_entry_def wf_memory_identity_def]
  have ow: "owner_from_fields (ingestion_fields e) = Inr (ie_identity e)"
    using wf by (simp add: owner_from_fields_def ingestion_fields_lookup codec)
  have pre: "prefix ingestion_prefix (ingestion_key i)" for i by (simp add: ingestion_key_def)
  show ?thesis
    using wf by (simp add: ingestion_from_record_def ingestion_to_record_def pre codec read_parsed ow saturated_def
        ingestion_fields_lookup source_kind.of_to_name scope.of_to_name ing_role.of_to_name
        ing_purpose.of_to_name ingestion_status.of_to_name)
qed

section \<open>Batches\<close>

record batch_item =
  bi_index :: nat
  bi_event_id :: string
  bi_status :: ingestion_status
  bi_memory_id :: "string option"
  bi_error_code :: "string option"
  bi_scope :: recall_scope

definition item_of_entry :: "nat \<Rightarrow> ingestion_entry \<Rightarrow> batch_item" where
  "item_of_entry k e =
     \<lparr>bi_index = k, bi_event_id = ie_event_id e, bi_status = ie_status e, bi_memory_id = ie_memory_id e,
      bi_error_code = ie_error_code e, bi_scope = entry_scope e\<rparr>"

record ingestion_batch =
  ib_batch_id :: string
  ib_request_hash :: string
  ib_scope :: recall_scope
  ib_status :: batch_status
  ib_created_at_ms :: i64
  ib_updated_at_ms :: i64
  ib_attempt_count :: u64
  ib_items :: "batch_item list"

definition status_of_items :: "batch_item list \<Rightarrow> batch_status" where
  "status_of_items items = (if list_all (\<lambda>i. is_terminal (bi_status i)) items then Completed else Pending)"

definition batch_new ::
  "string \<Rightarrow> string \<Rightarrow> recall_scope \<Rightarrow> i64 \<Rightarrow> batch_item list \<Rightarrow> ingestion_batch" where
  "batch_new i h sc now items =
     \<lparr>ib_batch_id = i, ib_request_hash = h, ib_scope = sc, ib_status = status_of_items items,
      ib_created_at_ms = now, ib_updated_at_ms = now, ib_attempt_count = 1, ib_items = items\<rparr>"

definition batch_resume :: "ingestion_batch \<Rightarrow> i64 \<Rightarrow> batch_item list \<Rightarrow> ingestion_batch" where
  "batch_resume b now items =
     b\<lparr>ib_updated_at_ms := now, ib_attempt_count := u64_saturating_add (ib_attempt_count b) 1,
       ib_status := status_of_items items, ib_items := items\<rparr>"

definition batch_prefix :: bytes where
  "batch_prefix = ''__celiums/ingestion/batch/''"

definition batch_key :: "(bytes \<Rightarrow> string) \<Rightarrow> string \<Rightarrow> string \<Rightarrow> string \<Rightarrow> bytes" where
  "batch_key b3 tenant user i =
     batch_prefix @ b3 (write_hash_field ''tenant_id'' tenant @ write_hash_field ''user_id'' user
       @ write_hash_field ''batch_id'' i)"

definition legacy_batch_key :: "(bytes \<Rightarrow> string) \<Rightarrow> string \<Rightarrow> string \<Rightarrow> bytes" where
  "legacy_batch_key b3 tenant i =
     batch_prefix @ b3 (write_hash_field ''tenant_id'' tenant @ write_hash_field ''batch_id'' i)"

definition i64_of_usize :: "nat \<Rightarrow> i64" where
  "i64_of_usize n = (if n < 2 ^ 63 then word_of_nat n else i64_max)"

definition item_value :: "batch_item \<Rightarrow> val" where
  "item_value i = VObject
     [''index'' \<mapsto> VInteger (i64_of_usize (bi_index i)), ''event_id'' \<mapsto> VString (bi_event_id i),
      ''status'' \<mapsto> VString (ingestion_status_str (bi_status i)),
      ''memory_id'' \<mapsto> opt_string (bi_memory_id i), ''error_code'' \<mapsto> opt_string (bi_error_code i),
      ''scope'' \<mapsto> VObject (scope_fields (bi_scope i))]"

definition batch_to_record :: "(bytes \<Rightarrow> string) \<Rightarrow> ingestion_batch \<Rightarrow> doc" where
  "batch_to_record b3 b =
     \<lparr>doc_key = batch_key b3 (rs_tenant_id (ib_scope b)) (rs_user_id (ib_scope b)) (ib_batch_id b),
      doc_value = VObject
        [''kind'' \<mapsto> VString ''ingestion_batch'', ''batch_id'' \<mapsto> VString (ib_batch_id b),
         ''request_hash'' \<mapsto> VString (ib_request_hash b),
         ''tenant_id'' \<mapsto> VString (rs_tenant_id (ib_scope b)),
         ''user_id'' \<mapsto> VString (rs_user_id (ib_scope b)),
         ''status'' \<mapsto> VString (batch_status_str (ib_status b)),
         ''created_at_ms'' \<mapsto> VInteger (ib_created_at_ms b),
         ''updated_at_ms'' \<mapsto> VInteger (ib_updated_at_ms b),
         ''attempt_count'' \<mapsto> VInteger (i64_of_u64_sat (ib_attempt_count b)),
         ''scope'' \<mapsto> VObject (scope_fields (ib_scope b)),
         ''items'' \<mapsto> VArray (map item_value (ib_items b))]\<rparr>"

definition scope_from_value :: "val option \<Rightarrow> recall_scope decoded" where
  "scope_from_value v = (case v of
     Some (VObject fs) \<Rightarrow> scope_from_fields ''scope'' ''scope'' fs
   | _ \<Rightarrow> Inl (FieldErr ''scope''))"

definition item_from_value :: "(string \<Rightarrow> bool) \<Rightarrow> val \<Rightarrow> batch_item decoded" where
  "item_from_value uuid_ok v = (case v of
     VObject fs \<Rightarrow>
       r_bind (unsigned_field fs ''index'') (\<lambda>k.
       r_bind (checked_field uuid_ok fs ''event_id'' ''event_id'') (\<lambda>i.
       r_bind (parsed_field parse_ingestion_status fs ''status'') (\<lambda>st.
       r_bind (required_string_option fs ''memory_id'') (\<lambda>mi.
       r_bind (required_string_option fs ''error_code'') (\<lambda>er.
       r_bind (scope_from_value (fs ''scope'')) (\<lambda>sc.
         Inr \<lparr>bi_index = unat k, bi_event_id = i, bi_status = st, bi_memory_id = mi,
              bi_error_code = er, bi_scope = sc\<rparr>))))))
   | _ \<Rightarrow> Inl (FieldErr ''items''))"

definition batch_from_record :: "(string \<Rightarrow> bool) \<Rightarrow> doc \<Rightarrow> ingestion_batch decoded" where
  "batch_from_record uuid_ok rec =
     (if \<not> prefix batch_prefix (doc_key rec) then Inl KeyErr else
      r_bind (root_fields (doc_value rec)) (\<lambda>fs.
      r_bind (string_field fs ''kind'') (\<lambda>k.
      if k \<noteq> ''ingestion_batch'' then Inl (FieldErr ''kind'') else
      r_bind (case fs ''items'' of
                Some (VArray vs) \<Rightarrow> r_collect (item_from_value uuid_ok) vs
              | _ \<Rightarrow> Inl (FieldErr ''items'')) (\<lambda>items.
      r_bind (checked_field valid_identity fs ''batch_id'' ''batch_id'') (\<lambda>i.
      r_bind (string_field fs ''request_hash'') (\<lambda>h.
      r_bind (scope_from_value (fs ''scope'')) (\<lambda>sc.
      r_bind (parsed_field parse_batch_status fs ''status'') (\<lambda>st.
      r_bind (integer_field fs ''created_at_ms'') (\<lambda>cr.
      r_bind (integer_field fs ''updated_at_ms'') (\<lambda>up.
      r_bind (unsigned_field fs ''attempt_count'') (\<lambda>at'.
        Inr \<lparr>ib_batch_id = i, ib_request_hash = h, ib_scope = sc, ib_status = st,
             ib_created_at_ms = cr, ib_updated_at_ms = up, ib_attempt_count = at',
             ib_items = items\<rparr>)))))))))))"

end
