(* ===== verification/Ingestion_Engine.thy ===== *)
theory Ingestion_Engine
  imports Ingestion Remember Memory_Codec
begin

text \<open>
  The ingestion operations of \<open>engine.rs\<close>: a source event is recorded in the durable ledger before
  anything else, then materialised by \<open>remember\<close> under a key derived from its id. A failed operation
  returns its error only. The mark the code writes before it returns the error of \<open>remember\<close> is written
  here on the state \<open>remember\<close> was called in, because the state a failed operation leaves is not modelled;
  whether that write fails decides which error comes back.
\<close>

section \<open>Visibility of events\<close>

definition ingestion_visible_to :: "ingestion_entry \<Rightarrow> recall_scope \<Rightarrow> bool" where
  "ingestion_visible_to e sc =
     (if tenant_id (ie_identity e) \<noteq> rs_tenant_id sc \<or> user_id (ie_identity e) \<noteq> rs_user_id sc then False
      else case ie_scope e of
        Global \<Rightarrow> True
      | Project \<Rightarrow> project_id (ie_identity e) = rs_project_id sc
      | Session \<Rightarrow> project_id (ie_identity e) = rs_project_id sc
          \<and> session_id (ie_identity e) = rs_session_id sc)"

interpretation event_isolation:
  owner_isolation ingestion_visible_to "tenant_id \<circ> ie_identity" "user_id \<circ> ie_identity"
  by unfold_locales (simp add: ingestion_visible_to_def split: if_splits)

definition forgotten_source_scope :: "ingestion_entry \<Rightarrow> recall_scope" where
  "forgotten_source_scope e =
     (let owner = \<lparr>rs_tenant_id = tenant_id (ie_identity e), rs_user_id = user_id (ie_identity e),
            rs_project_id = None, rs_conversation_id = None, rs_session_id = None\<rparr>
      in case ie_scope e of
        Global \<Rightarrow> owner
      | Project \<Rightarrow> owner\<lparr>rs_project_id := project_id (ie_identity e)\<rparr>
      | Session \<Rightarrow> entry_scope e)"

section \<open>Reading the ledger\<close>

definition from_ingestion :: "'a decoded \<Rightarrow> ('e, 'a) outcome" where
  "from_ingestion r = (case r of Inl e \<Rightarrow> m_fail (IngestionDecode e) | Inr x \<Rightarrow> m_return x)"

definition get_ingestion_unscoped ::
  "('s, 'c, 'e) hyphae \<Rightarrow> rust_env \<Rightarrow> 's \<Rightarrow> string \<Rightarrow> ('e, ingestion_entry option) outcome" where
  "get_ingestion_unscoped H E s i =
     m_bind (from_store (hy_get H s (ingestion_key i))) (\<lambda>found. case found of
       None \<Rightarrow> m_return None
     | Some rec \<Rightarrow> m_bind (from_ingestion (ingestion_from_record (env_uuid_ok E) rec)) (\<lambda>e. m_return (Some e)))"

definition get_ingestion ::
  "('s, 'c, 'e) hyphae \<Rightarrow> rust_env \<Rightarrow> string \<Rightarrow> 's \<Rightarrow> string \<Rightarrow> recall_scope
   \<Rightarrow> ('e, ingestion_entry option) outcome" where
  "get_ingestion H E tenant s i sc =
     m_bind (require_tenant tenant (rs_tenant_id sc)) (\<lambda>_.
     m_bind (get_ingestion_unscoped H E s i) (\<lambda>found. m_return (case found of
       None \<Rightarrow> None | Some e \<Rightarrow> if ingestion_visible_to e sc then Some e else None)))"

definition ingestion_entries ::
  "('s, 'c, 'e) hyphae \<Rightarrow> rust_env \<Rightarrow> string \<Rightarrow> 's \<Rightarrow> recall_scope \<Rightarrow> ('e, ingestion_entry list) outcome" where
  "ingestion_entries H E tenant s sc =
     m_bind (require_tenant tenant (rs_tenant_id sc)) (\<lambda>_.
     m_bind (from_scan (scan_prefix H s ingestion_prefix)) (\<lambda>recs.
     m_bind (from_ingestion (r_collect (ingestion_from_record (env_uuid_ok E)) recs)) (\<lambda>es.
       m_return (filter (\<lambda>e. ingestion_visible_to e sc) es))))"

definition count_status :: "ingestion_entry \<Rightarrow> ingestion_coverage \<Rightarrow> ingestion_coverage" where
  "count_status e c = (case ie_status e of
     Received \<Rightarrow> c\<lparr>cv_received := cv_received c + 1\<rparr>
   | Materialized \<Rightarrow> c\<lparr>cv_materialized := cv_materialized c + 1\<rparr>
   | Rejected \<Rightarrow> c\<lparr>cv_rejected := cv_rejected c + 1\<rparr>
   | Failed \<Rightarrow> c\<lparr>cv_failed := cv_failed c + 1\<rparr>)"

definition ingestion_coverage_of ::
  "('s, 'c, 'e) hyphae \<Rightarrow> rust_env \<Rightarrow> string \<Rightarrow> 's \<Rightarrow> recall_scope \<Rightarrow> ('e, ingestion_coverage) outcome" where
  "ingestion_coverage_of H E tenant s sc =
     m_bind (ingestion_entries H E tenant s sc) (\<lambda>es.
       m_return (fold count_status es
         \<lparr>cv_attempted = word_of_nat (length es), cv_received = 0, cv_materialized = 0, cv_rejected = 0,
          cv_failed = 0\<rparr>))"

definition persist_ingestion ::
  "('s, 'c, 'e) hyphae \<Rightarrow> ingestion_entry \<Rightarrow> 's \<Rightarrow> ('e, 's) outcome" where
  "persist_ingestion H e s = from_store (hy_put H s (ingestion_to_record e))"

section \<open>Requests\<close>

record ingest_request =
  ir_source_namespace :: string
  ir_source_event_id :: string
  ir_turn_id :: "string option"
  ir_source_kind :: source_kind
  ir_source_uri :: "string option"
  ir_actor :: "string option"
  ir_identity :: memory_identity
  ir_content :: bytes
  ir_event_at_ms :: "i64 option"
  ir_ingested_at_ms :: i64
  ir_embedding :: "f64 list option"
  ir_embedding_space :: "embedding_space option"
  ir_tags :: "string list"
  ir_scope :: scope
  ir_importance :: "f64 option"
  ir_content_role :: content_role
  ir_purpose :: memory_purpose

definition hash_ingest_source :: "ingest_request \<Rightarrow> bytes" where
  "hash_ingest_source r =
     write_hash_field ''source_namespace'' (ir_source_namespace r)
     @ write_hash_field ''source_event_id'' (ir_source_event_id r)
     @ write_optional_text ''turn_id'' (ir_turn_id r)
     @ write_hash_field ''source_kind'' (source_kind_as_str (ir_source_kind r))
     @ write_optional_text ''source_uri'' (ir_source_uri r) @ write_optional_text ''actor'' (ir_actor r)"

definition hash_ingest_identity :: "memory_identity \<Rightarrow> bytes" where
  "hash_ingest_identity i =
     write_hash_field ''tenant_id'' (tenant_id i) @ write_hash_field ''user_id'' (user_id i)
     @ write_optional_text ''agent_id'' (agent_id i) @ write_optional_text ''project_id'' (project_id i)
     @ write_optional_text ''conversation_id'' (conversation_id i)
     @ write_optional_text ''session_id'' (session_id i)"

definition hash_ingest_payload :: "(f64 \<Rightarrow> bytes) \<Rightarrow> ingest_request \<Rightarrow> bytes" where
  "hash_ingest_payload bits r =
     write_hash_field ''content'' (ir_content r) @ write_optional_i64 ''event_at_ms'' (ir_event_at_ms r)
     @ write_hash_field ''scope'' (scope_as_str (ir_scope r))
     @ concat (map (write_hash_field ''tag'') (ir_tags r))
     @ write_hash_field ''importance'' (bits (case ir_importance r of None \<Rightarrow> NaN | Some x \<Rightarrow> x))
     @ write_hash_field ''content_role'' (ing_role_name (ir_content_role r))
     @ write_hash_field ''purpose'' (ing_purpose_name (ir_purpose r))"

definition ingest_event_hash :: "rust_env \<Rightarrow> ingest_request \<Rightarrow> string" where
  "ingest_event_hash E r = env_b3 E
     (''celiums-memory/ingestion-event-request/v1'' @ hash_ingest_source r
      @ hash_ingest_identity (ir_identity r) @ hash_ingest_payload (env_f64_bits E) r)"

definition new_ingestion_entry :: "rust_env \<Rightarrow> ingest_request \<Rightarrow> string \<Rightarrow> string \<Rightarrow> ingestion_entry" where
  "new_ingestion_entry E r i h =
     \<lparr>ie_event_id = i, ie_source_namespace = ir_source_namespace r,
      ie_source_event_id = ir_source_event_id r, ie_turn_id = ir_turn_id r, ie_identity = ir_identity r,
      ie_source_kind = ir_source_kind r, ie_source_uri = ir_source_uri r, ie_actor = ir_actor r,
      ie_content = ir_content r, ie_tags = ir_tags r, ie_scope = ir_scope r,
      ie_importance_nanos = map_option to_nanos (ir_importance r),
      ie_content_role = ir_content_role r, ie_purpose = ir_purpose r,
      ie_content_hash = env_b3 E (ir_content r), ie_request_hash = h,
      ie_event_at_ms = ir_event_at_ms r, ie_first_ingested_at_ms = ir_ingested_at_ms r,
      ie_last_attempted_at_ms = ir_ingested_at_ms r, ie_attempt_count = 1, ie_conflict_count = 0,
      ie_status = Received, ie_memory_id = None, ie_error_code = None, ie_enrichment_provider = None,
      ie_enrichment_attempt_count = 0\<rparr>"

definition user_event_id :: "rust_env \<Rightarrow> 's engine \<Rightarrow> ingest_request \<Rightarrow> string" where
  "user_event_id E g r = event_id_for (env_b3_raw E) (env_uuid_text E) (en_tenant g)
     (Some (user_id (ir_identity r))) (ir_source_namespace r) (ir_source_event_id r)"

definition legacy_event_id :: "rust_env \<Rightarrow> 's engine \<Rightarrow> ingest_request \<Rightarrow> string" where
  "legacy_event_id E g r = event_id_for (env_b3_raw E) (env_uuid_text E) (en_tenant g)
     None (ir_source_namespace r) (ir_source_event_id r)"

text \<open>The id the ledger uses: that of an entry of the same user written before ids covered the user.\<close>

definition choose_event_id ::
  "('s, 'c, 'e) hyphae \<Rightarrow> rust_env \<Rightarrow> 's engine \<Rightarrow> ingest_request \<Rightarrow> ('e, string) outcome" where
  "choose_event_id H E g r =
     m_bind (get_ingestion_unscoped H E (en_store g) (legacy_event_id E g r)) (\<lambda>old.
       m_return (case old of
         Some e \<Rightarrow> if user_id (ie_identity e) = user_id (ir_identity r) then legacy_event_id E g r
                   else user_event_id E g r
       | None \<Rightarrow> user_event_id E g r))"

section \<open>Ingesting one event\<close>

definition next_attempt :: "ingestion_entry \<Rightarrow> i64 \<Rightarrow> ingestion_entry" where
  "next_attempt e now = e\<lparr>ie_attempt_count := u64_saturating_add (ie_attempt_count e) 1,
     ie_last_attempted_at_ms := now\<rparr>"

definition prepare_ingestion_entry ::
  "('s, 'c, 'e) hyphae \<Rightarrow> rust_env \<Rightarrow> 's engine \<Rightarrow> ingest_request \<Rightarrow> string \<Rightarrow> string
   \<Rightarrow> ('e, ingestion_entry \<times> 's engine) outcome" where
  "prepare_ingestion_entry H E g r i h =
     m_bind (get_ingestion_unscoped H E (en_store g) i) (\<lambda>found. case found of
       Some e \<Rightarrow>
         let e = next_attempt e (ir_ingested_at_ms r)
         in if ie_request_hash e \<noteq> h
            then m_bind (persist_ingestion H
                   (e\<lparr>ie_conflict_count := u64_saturating_add (ie_conflict_count e) 1\<rparr>) (en_store g))
                   (\<lambda>_. m_fail (IngestionConflict i))
            else m_bind (persist_ingestion H e (en_store g)) (\<lambda>s. m_return (e, g\<lparr>en_store := s\<rparr>))
     | None \<Rightarrow>
         let e = new_ingestion_entry E r i h
         in m_bind (persist_ingestion H e (en_store g)) (\<lambda>s. m_return (e, g\<lparr>en_store := s\<rparr>)))"

definition event_provenance ::
  "rust_env \<Rightarrow> source_kind \<Rightarrow> bytes \<Rightarrow> string \<Rightarrow> string option \<Rightarrow> string option \<Rightarrow> string \<Rightarrow> string
   \<Rightarrow> string option \<Rightarrow> provenance" where
  "event_provenance E kind body source_event uri act namespace i turn =
     (provenance_observed (env_b3 E) kind body (Some source_event) uri act)
       \<lparr>source_namespace := Some namespace, event_id := Some i, turn_id := turn\<rparr>"

definition ingestion_idempotency_key :: "string \<Rightarrow> string" where
  "ingestion_idempotency_key i = ''ingestion:'' @ i"

definition event_remember_request ::
  "rust_env \<Rightarrow> ingest_request \<Rightarrow> string \<Rightarrow> f64 list \<Rightarrow> remember_request" where
  "event_remember_request E r i embedding =
     \<lparr>rq_content = ir_content r, rq_embedding = embedding, rq_tags = ir_tags r, rq_scope = ir_scope r,
      rq_importance = ir_importance r, rq_now_ms = ir_ingested_at_ms r,
      rq_context = Some \<lparr>rc_identity = ir_identity r,
        rc_provenance = event_provenance E (ir_source_kind r) (ir_content r) (ir_source_event_id r)
          (ir_source_uri r) (ir_actor r) (ir_source_namespace r) i (ir_turn_id r),
        rc_event_at_ms = ir_event_at_ms r, rc_ingested_at_ms = ir_ingested_at_ms r\<rparr>,
      rq_embedding_space = ir_embedding_space r,
      rq_idempotency_key = Some (ingestion_idempotency_key i),
      rq_content_role = ir_content_role r, rq_purpose = ir_purpose r\<rparr>"

definition persist_entry ::
  "('s, 'c, 'e) hyphae \<Rightarrow> ingestion_entry \<Rightarrow> 's engine \<Rightarrow> ('e, ingestion_entry \<times> 's engine) outcome" where
  "persist_entry H e g =
     m_bind (persist_ingestion H e (en_store g)) (\<lambda>s. m_return (e, g\<lparr>en_store := s\<rparr>))"

fun ingestion_error_code :: "'e engine_error \<Rightarrow> string" where
  "ingestion_error_code (QuantizeDimension _ _) = ''invalid_embedding''"
| "ingestion_error_code (QuantizeNotFinite _) = ''invalid_embedding''"
| "ingestion_error_code QuantizeVector = ''invalid_embedding''"
| "ingestion_error_code (EmbeddingSpaceMismatch _ _) = ''embedding_space_mismatch''"
| "ingestion_error_code (TenantMismatch _ _) = ''tenant_mismatch''"
| "ingestion_error_code ContentHashMismatch = ''content_hash_mismatch''"
| "ingestion_error_code IdempotencyConflict = ''idempotency_conflict''"
| "ingestion_error_code _ = ''materialization_failed''"

text \<open>The \<open>Err\<close> branch of materialisation: mark the entry as failed, then return the error.\<close>

definition fail_entry ::
  "('s, 'c, 'e) hyphae \<Rightarrow> ingestion_entry \<Rightarrow> 's engine \<Rightarrow> 'e engine_error
   \<Rightarrow> ('e, ingestion_entry \<times> 's engine) outcome" where
  "fail_entry H e g err =
     m_bind (persist_ingestion H (e\<lparr>ie_status := Failed, ie_error_code := Some (ingestion_error_code err)\<rparr>)
       (en_store g)) (\<lambda>_. m_fail err)"

text \<open>The gate of \<open>remember\<close> precedes every write, so a blocked event leaves the engine as it was.\<close>

definition ingest_event ::
  "('s, 'c, 'e) hyphae \<Rightarrow> ('s, 'e) store_ops \<Rightarrow> rust_env \<Rightarrow> 's engine \<Rightarrow> string \<Rightarrow> string \<Rightarrow> ingest_request
   \<Rightarrow> ('e, ingestion_entry \<times> 's engine) outcome" where
  "ingest_event H O' E g fresh_id audit_id r =
     m_bind (require_tenant (en_tenant g) (tenant_id (ir_identity r))) (\<lambda>_.
     m_bind (choose_event_id H E g r) (\<lambda>i.
     m_bind (prepare_ingestion_entry H E g r i (ingest_event_hash E r)) (\<lambda>(e, g).
       case ir_embedding r of
         None \<Rightarrow> m_return (e, g)
       | Some embedding \<Rightarrow>
           if ie_status e \<noteq> Received \<and> ie_status e \<noteq> Failed then m_return (e, g)
           else case remember H O' E g fresh_id audit_id (event_remember_request E r (ie_event_id e) embedding) of
               None \<Rightarrow> None
             | Some (Inr (m, g)) \<Rightarrow>
                 persist_entry H (e\<lparr>ie_status := Materialized, ie_memory_id := Some (mem_id m)\<rparr>) g
             | Some (Inl err) \<Rightarrow>
                 (case err of
                    EthicsBlocked _ _ \<Rightarrow>
                      persist_entry H (e\<lparr>ie_status := Rejected,
                        ie_error_code := Some ''ethics_blocked''\<rparr>) g
                  | _ \<Rightarrow> fail_entry H e g err))))"

section \<open>Enrichment\<close>

record enrich_request =
  er_event_id :: string
  er_scope :: recall_scope
  er_provider :: string
  er_embedding :: "f64 list"
  er_embedding_space :: "embedding_space option"
  er_now_ms :: i64

definition record_enrichment_failure ::
  "('s, 'c, 'e) hyphae \<Rightarrow> rust_env \<Rightarrow> 's engine \<Rightarrow> string \<Rightarrow> recall_scope \<Rightarrow> string \<Rightarrow> string \<Rightarrow> i64
   \<Rightarrow> ('e, ingestion_entry \<times> 's engine) outcome" where
  "record_enrichment_failure H E g i sc provider' code' now =
     m_bind (get_ingestion H E (en_tenant g) (en_store g) i sc) (\<lambda>found. case found of
       None \<Rightarrow> m_fail (IngestionEventNotFound i)
     | Some e \<Rightarrow>
         if is_terminal (ie_status e) then m_return (e, g)
         else persist_entry H (e\<lparr>ie_status := Failed, ie_error_code := Some code',
                ie_enrichment_provider := Some provider',
                ie_enrichment_attempt_count := u64_saturating_add (ie_enrichment_attempt_count e) 1,
                ie_last_attempted_at_ms := now\<rparr>) g)"

definition entry_remember_request ::
  "rust_env \<Rightarrow> ingestion_entry \<Rightarrow> f64 list \<Rightarrow> embedding_space option \<Rightarrow> i64 \<Rightarrow> remember_request" where
  "entry_remember_request E e embedding space now =
     \<lparr>rq_content = ie_content e, rq_embedding = embedding, rq_tags = ie_tags e, rq_scope = ie_scope e,
      rq_importance = entry_importance e, rq_now_ms = now,
      rq_context = Some \<lparr>rc_identity = ie_identity e,
        rc_provenance = event_provenance E (ie_source_kind e) (ie_content e) (ie_source_event_id e)
          (ie_source_uri e) (ie_actor e) (ie_source_namespace e) (ie_event_id e) (ie_turn_id e),
        rc_event_at_ms = ie_event_at_ms e, rc_ingested_at_ms = ie_first_ingested_at_ms e\<rparr>,
      rq_embedding_space = space,
      rq_idempotency_key = Some (ingestion_idempotency_key (ie_event_id e)),
      rq_content_role = ie_content_role e, rq_purpose = ie_purpose e\<rparr>"

definition enrich_event ::
  "('s, 'c, 'e) hyphae \<Rightarrow> ('s, 'e) store_ops \<Rightarrow> rust_env \<Rightarrow> 's engine \<Rightarrow> string \<Rightarrow> string \<Rightarrow> enrich_request
   \<Rightarrow> ('e, ingestion_entry \<times> 's engine) outcome" where
  "enrich_event H O' E g fresh_id audit_id r =
     m_bind (get_ingestion H E (en_tenant g) (en_store g) (er_event_id r) (er_scope r)) (\<lambda>found. case found of
       None \<Rightarrow> m_fail (IngestionEventNotFound (er_event_id r))
     | Some e \<Rightarrow>
         if is_terminal (ie_status e) then m_return (e, g)
         else
           m_bind (persist_entry H (e\<lparr>ie_enrichment_provider := Some (er_provider r),
                ie_enrichment_attempt_count := u64_saturating_add (ie_enrichment_attempt_count e) 1,
                ie_last_attempted_at_ms := er_now_ms r\<rparr>) g) (\<lambda>(e, g).
             case remember H O' E g fresh_id audit_id
                (entry_remember_request E e (er_embedding r) (er_embedding_space r) (er_now_ms r)) of
               None \<Rightarrow> None
             | Some (Inr (m, g)) \<Rightarrow>
                 persist_entry H (e\<lparr>ie_status := Materialized, ie_memory_id := Some (mem_id m),
                   ie_error_code := None\<rparr>) g
             | Some (Inl err) \<Rightarrow> fail_entry H e g err))"

section \<open>Batches\<close>

record batch_request =
  br_batch_id :: string
  br_events :: "ingest_request list"
  br_now_ms :: i64

definition request_scope :: "ingest_request \<Rightarrow> recall_scope" where
  "request_scope r =
     \<lparr>rs_tenant_id = tenant_id (ir_identity r), rs_user_id = user_id (ir_identity r),
      rs_project_id = project_id (ir_identity r), rs_conversation_id = conversation_id (ir_identity r),
      rs_session_id = session_id (ir_identity r)\<rparr>"

definition batch_scope :: "ingest_request list \<Rightarrow> ('e, recall_scope) outcome" where
  "batch_scope events = (case events of
     [] \<Rightarrow> m_fail (InvalidIngestionBatch ''at least one event is required'')
   | first # _ \<Rightarrow>
       if list_ex (\<lambda>r. tenant_id (ir_identity r) \<noteq> rs_tenant_id (request_scope first)
            \<or> user_id (ir_identity r) \<noteq> rs_user_id (request_scope first)) events
       then m_fail (InvalidIngestionBatch ''all events must share tenant and user'')
       else m_return (request_scope first))"

definition batch_hash :: "rust_env \<Rightarrow> ingest_request list \<Rightarrow> string" where
  "batch_hash E events = env_b3 E
     (''celiums-memory/ingestion-batch/v1''
      @ concat (map (\<lambda>r. write_hash_field ''event_request_hash'' (ingest_event_hash E r)) events))"

definition get_batch_unscoped ::
  "('s, 'c, 'e) hyphae \<Rightarrow> rust_env \<Rightarrow> 's engine \<Rightarrow> string \<Rightarrow> string \<Rightarrow> ('e, ingestion_batch option) outcome" where
  "get_batch_unscoped H E g user i =
     m_bind (from_store (hy_get H (en_store g) (batch_key (env_b3 E) (en_tenant g) user i))) (\<lambda>found.
     m_bind (case found of
         Some rec \<Rightarrow> m_return (Some rec)
       | None \<Rightarrow> from_store (hy_get H (en_store g) (legacy_batch_key (env_b3 E) (en_tenant g) i))) (\<lambda>found.
     case found of
       None \<Rightarrow> m_return None
     | Some rec \<Rightarrow> m_bind (from_ingestion (batch_from_record (env_uuid_ok E) rec)) (\<lambda>b.
         m_return (if rs_user_id (ib_scope b) = user then Some b else None))))"

definition get_ingestion_batch ::
  "('s, 'c, 'e) hyphae \<Rightarrow> rust_env \<Rightarrow> 's engine \<Rightarrow> string \<Rightarrow> recall_scope \<Rightarrow> ('e, ingestion_batch option) outcome" where
  "get_ingestion_batch H E g i sc =
     m_bind (require_tenant (en_tenant g) (rs_tenant_id sc)) (\<lambda>_.
     m_bind (get_batch_unscoped H E g (rs_user_id sc) i) (\<lambda>found. m_return (case found of
       None \<Rightarrow> None | Some b \<Rightarrow> if recall_scope_visible_to (ib_scope b) sc then Some b else None)))"

fun collect_m :: "('a \<Rightarrow> ('e, 'b) outcome) \<Rightarrow> 'a list \<Rightarrow> ('e, 'b list) outcome" where
  "collect_m f [] = m_return []"
| "collect_m f (x # xs) = m_bind (f x) (\<lambda>y. m_bind (collect_m f xs) (\<lambda>ys. m_return (y # ys)))"

definition raw_entry ::
  "('s, 'c, 'e) hyphae \<Rightarrow> rust_env \<Rightarrow> 's engine \<Rightarrow> ingest_request \<Rightarrow> ('e, ingestion_entry) outcome" where
  "raw_entry H E g r =
     m_bind (choose_event_id H E g r) (\<lambda>i.
     m_bind (get_ingestion_unscoped H E (en_store g) i) (\<lambda>found. m_return (case found of
       Some e \<Rightarrow> e | None \<Rightarrow> new_ingestion_entry E r i (ingest_event_hash E r))))"

definition ingest_raw_batch ::
  "('s, 'c, 'e) hyphae \<Rightarrow> ('s, 'e) store_ops \<Rightarrow> rust_env \<Rightarrow> 's engine \<Rightarrow> batch_request \<Rightarrow> recall_scope
   \<Rightarrow> string \<Rightarrow> ('e, ingestion_batch \<times> 's engine) outcome" where
  "ingest_raw_batch H O' E g b sc h =
     m_bind (collect_m (raw_entry H E g) (br_events b)) (\<lambda>es.
     let batch = batch_new (br_batch_id b) h sc (br_now_ms b)
           (map (\<lambda>(k, e). item_of_entry k e) (enumerate 0 es))
     in m_bind (from_store (op_put_records O' (en_store g)
            (map ingestion_to_record es @ [batch_to_record (env_b3 E) batch]))) (\<lambda>s.
          m_return (batch, g\<lparr>en_store := s\<rparr>)))"

definition entry_for_request ::
  "('s, 'c, 'e) hyphae \<Rightarrow> rust_env \<Rightarrow> 's engine \<Rightarrow> ingest_request \<Rightarrow> ('e, ingestion_entry option) outcome" where
  "entry_for_request H E g r =
     m_bind (get_ingestion_unscoped H E (en_store g) (user_event_id E g r)) (\<lambda>found. case found of
       Some e \<Rightarrow> m_return (Some e)
     | None \<Rightarrow> m_bind (get_ingestion_unscoped H E (en_store g) (legacy_event_id E g r)) (\<lambda>old.
         m_return (case old of
           Some e \<Rightarrow> if user_id (ie_identity e) = user_id (ir_identity r) then Some e else None
         | None \<Rightarrow> None)))"

text \<open>What \<open>ingest_batch\<close> checks before its first write.\<close>

definition check_batch ::
  "('s, 'c, 'e) hyphae \<Rightarrow> rust_env \<Rightarrow> 's engine \<Rightarrow> batch_request
   \<Rightarrow> ('e, recall_scope \<times> string \<times> ingestion_batch option) outcome" where
  "check_batch H E g b =
     m_bind (batch_scope (br_events b)) (\<lambda>sc.
     m_bind (require_tenant (en_tenant g) (rs_tenant_id sc)) (\<lambda>_.
     let h = batch_hash E (br_events b)
     in m_bind (get_batch_unscoped H E g (rs_user_id sc) (br_batch_id b)) (\<lambda>existing.
        if (case existing of None \<Rightarrow> False | Some x \<Rightarrow> ib_request_hash x \<noteq> h)
        then m_fail (IngestionBatchConflict (br_batch_id b))
        else m_bind (collect_m (\<lambda>r. m_bind (entry_for_request H E g r) (\<lambda>found. case found of
                 Some e \<Rightarrow> if ie_request_hash e \<noteq> ingest_event_hash E r
                           then m_fail (IngestionConflict (ie_event_id e)) else m_return ()
               | None \<Rightarrow> m_return ())) (br_events b))
               (\<lambda>_. m_return (sc, h, existing)))))"

end
