(* ===== verification/Worklist.thy ===== *)
theory Worklist
  imports Main
begin

text \<open>
  The graph search of the engine (\<open>claim_reaches\<close>, \<open>entity_reaches\<close> of \<open>engine.rs\<close>): a stack of
  pending nodes and a set of visited ones, over the edges read from the store. The head of \<open>pending\<close>
  is the end of the vector the code pops from.
\<close>

definition successors :: "('a \<times> 'a) list \<Rightarrow> 'a \<Rightarrow> 'a list" where
  "successors es c = map snd (filter (\<lambda>(a, b). a = c) es)"

lemma successors_none: "c \<notin> fst ` set es \<Longrightarrow> successors es c = []"
  by (force simp: successors_def filter_empty_conv)

function reach_loop :: "('a \<times> 'a) list \<Rightarrow> 'a \<Rightarrow> 'a list \<Rightarrow> 'a list \<Rightarrow> bool" where
  "reach_loop es t [] visited = False"
| "reach_loop es t (c # pending) visited =
     (if c = t then True
      else if c \<in> set visited then reach_loop es t pending visited
      else reach_loop es t (rev (successors es c) @ pending) (c # visited))"
  by pat_completeness auto

termination
proof (relation "measures [\<lambda>(es, t, pending, visited). card (fst ` set es - set visited),
    \<lambda>(es, t, pending, visited). length pending]", goal_cases)
  case (3 es t c pending visited)
  show ?case
  proof (cases "c \<in> fst ` set es")
    case True
    then have "fst ` set es - set (c # visited) \<subset> fst ` set es - set visited" using 3 by auto
    then have "card (fst ` set es - set (c # visited)) < card (fst ` set es - set visited)"
      by (intro psubset_card_mono) simp_all
    then show ?thesis by simp
  next
    case False
    then have "fst ` set es - set (c # visited) = fst ` set es - set visited" by auto
    with False show ?thesis by (simp add: successors_none)
  qed
qed simp_all

definition reaches :: "('a \<times> 'a) list \<Rightarrow> 'a \<Rightarrow> 'a \<Rightarrow> bool" where
  "reaches es start t = reach_loop es t [start] []"

section \<open>The search is reachability\<close>

lemma set_successors: "set (successors es c) = {b. (c, b) \<in> set es}"
  by (auto simp: successors_def image_iff)

lemma leaves_closed_set:
  assumes "(c, t) \<in> E\<^sup>*" and "c \<in> V" and "t \<notin> V" and "\<And>a b. (a, b) \<in> E \<Longrightarrow> a \<in> V \<Longrightarrow> b \<in> V \<union> W"
  shows "\<exists>w\<in>W. (w, t) \<in> E\<^sup>*"
  using assms(1,2)
proof (induction rule: converse_rtrancl_induct)
  case base
  with assms(3) show ?case by simp
next
  case (step a b)
  with assms(4) [of a b] show ?case by blast
qed

lemma reach_loop_iff:
  assumes "\<And>a b. (a, b) \<in> set es \<Longrightarrow> a \<in> set visited \<Longrightarrow> b \<in> set visited \<union> set pending"
    and "t \<notin> set visited"
  shows "reach_loop es t pending visited \<longleftrightarrow> (\<exists>c\<in>set pending. (c, t) \<in> (set es)\<^sup>*)"
  using assms
proof (induction es t pending visited rule: reach_loop.induct)
  case (1 es t visited)
  then show ?case by simp
next
  case (2 es t c pending visited)
  consider (hit) "c = t" | (old) "c \<noteq> t" "c \<in> set visited" | (new) "c \<noteq> t" "c \<notin> set visited" by blast
  then show ?case
  proof cases
    case hit
    then show ?thesis by auto
  next
    case old
    have inv: "b \<in> set visited \<union> set pending" if "(a, b) \<in> set es" "a \<in> set visited" for a b
      using 2(3) [OF that] old(2) by auto
    from 2(1) [OF old inv 2(4)]
    have "reach_loop es t pending visited \<longleftrightarrow> (\<exists>c\<in>set pending. (c, t) \<in> (set es)\<^sup>*)" .
    moreover have "\<exists>w\<in>set pending. (w, t) \<in> (set es)\<^sup>*" if "(c, t) \<in> (set es)\<^sup>*"
      by (rule leaves_closed_set [OF that old(2) 2(4) inv])
    ultimately show ?thesis using old by auto
  next
    case new
    let ?p = "rev (successors es c) @ pending"
    have "reach_loop es t ?p (c # visited) \<longleftrightarrow> (\<exists>d\<in>set ?p. (d, t) \<in> (set es)\<^sup>*)"
    proof (rule 2(2) [OF new])
      show "t \<notin> set (c # visited)" using new(1) 2(4) by auto
      show "b \<in> set (c # visited) \<union> set ?p" if "(a, b) \<in> set es" "a \<in> set (c # visited)" for a b
        using that 2(3) [of a b] by (auto simp: set_successors)
    qed
    also have "\<dots> \<longleftrightarrow> (\<exists>d\<in>set (c # pending). (d, t) \<in> (set es)\<^sup>*)"
    proof -
      have "(c, t) \<in> (set es)\<^sup>* \<longleftrightarrow> (\<exists>d. (c, d) \<in> set es \<and> (d, t) \<in> (set es)\<^sup>*)"
        using new(1) by (meson converse_rtranclE converse_rtrancl_into_rtrancl)
      then show ?thesis by (auto simp: set_successors)
    qed
    finally show ?thesis using new by simp
  qed
qed

lemma reaches_iff: "reaches es start t \<longleftrightarrow> (start, t) \<in> (set es)\<^sup>*"
  unfolding reaches_def by (subst reach_loop_iff) simp_all

text \<open>Adding an edge the search allowed keeps the graph acyclic.\<close>

lemma acyclic_checked:
  "acyclic (set es) \<Longrightarrow> \<not> reaches es b a \<Longrightarrow> acyclic (insert (a, b) (set es))"
  by (simp add: reaches_iff acyclic_insert)

end
