(* ===== verification/Claim_Engine.thy ===== *)
theory Claim_Engine
  imports Claim Ingestion_Engine Worklist "HOL-Library.Product_Lexorder"
begin

text \<open>
  The claim operations of \<open>engine.rs\<close>, from \<open>create_claim\<close> to \<open>claim_reaches\<close>, with the record of
  forgotten source events of \<open>derived.rs\<close> that decides which evidence still counts, and
  \<open>event_sequence\<close>.
\<close>

section \<open>Forgotten sources\<close>

datatype forget_mode = SourceRetraction | ErasurePending

fun forget_mode_str :: "forget_mode \<Rightarrow> string" where
  "forget_mode_str SourceRetraction = ''source_retraction''"
| "forget_mode_str ErasurePending = ''erasure_pending''"

definition parse_forget_mode :: "string \<Rightarrow> forget_mode option" where
  "parse_forget_mode s =
     (if s = ''source_retraction'' then Some SourceRetraction
      else if s = ''erasure_pending'' \<or> s = ''user_erasure'' then Some ErasurePending
      else None)"

lemma parse_forget_mode_str [simp]: "parse_forget_mode (forget_mode_str m) = Some m"
  by (cases m) (simp_all add: parse_forget_mode_def)

record forgotten_source =
  fg_scope :: recall_scope
  fg_event_id :: string
  fg_mode :: forget_mode
  fg_recorded_at_ms :: i64

definition forgotten_prefix :: bytes where
  "forgotten_prefix = ''__celiums/forgotten_derived_source/''"

definition forgotten_key :: "string \<Rightarrow> bytes" where
  "forgotten_key i = forgotten_prefix @ i"

definition forgotten_to_record :: "forgotten_source \<Rightarrow> doc" where
  "forgotten_to_record f =
     \<lparr>doc_key = forgotten_key (fg_event_id f),
      doc_value = VObject (scope_fields (fg_scope f) ++
        [''kind'' \<mapsto> VString ''forgotten_derived_source'', ''event_id'' \<mapsto> VString (fg_event_id f),
         ''mode'' \<mapsto> VString (forget_mode_str (fg_mode f)),
         ''recorded_at_ms'' \<mapsto> VInteger (fg_recorded_at_ms f)])\<rparr>"

definition forgotten_from_record :: "(string \<Rightarrow> bool) \<Rightarrow> doc \<Rightarrow> forgotten_source decoded" where
  "forgotten_from_record uuid_ok rec =
     (if \<not> prefix forgotten_prefix (doc_key rec) then Inl KeyErr else
      r_bind (root_fields (doc_value rec)) (\<lambda>fs.
      r_bind (string_field fs ''kind'') (\<lambda>k.
      if k \<noteq> ''forgotten_derived_source'' then Inl (FieldErr ''kind'') else
      r_bind (scope_from_fields ''tenant_id'' ''user_id'' fs) (\<lambda>sc.
      r_bind (checked_field uuid_ok fs ''event_id'' ''event_id'') (\<lambda>i.
      r_bind (parsed_field parse_forget_mode fs ''mode'') (\<lambda>m.
      r_bind (integer_field fs ''recorded_at_ms'') (\<lambda>t.
        Inr \<lparr>fg_scope = sc, fg_event_id = i, fg_mode = m, fg_recorded_at_ms = t\<rparr>)))))))"

lemma forgotten_roundtrip:
  assumes "wf_scope (fg_scope f)" and "uuid_ok (fg_event_id f)"
  shows "forgotten_from_record uuid_ok (forgotten_to_record f) = Inr f"
proof -
  define fs where "fs = scope_fields (fg_scope f) ++
        [''kind'' \<mapsto> VString ''forgotten_derived_source'', ''event_id'' \<mapsto> VString (fg_event_id f),
         ''mode'' \<mapsto> VString (forget_mode_str (fg_mode f)),
         ''recorded_at_ms'' \<mapsto> VInteger (fg_recorded_at_ms f)]"
  have f: "fs ''kind'' = Some (VString ''forgotten_derived_source'')"
    "fs ''event_id'' = Some (VString (fg_event_id f))"
    "fs ''mode'' = Some (VString (forget_mode_str (fg_mode f)))"
    "fs ''recorded_at_ms'' = Some (VInteger (fg_recorded_at_ms f))"
    by (simp_all add: fs_def)
  have sc: "scope_from_fields te ue fs = Inr (fg_scope f)" for te ue
    by (rule scope_roundtrip [OF assms(1)]) (simp_all add: fs_def map_add_def)
  have rec: "forgotten_to_record f = \<lparr>doc_key = forgotten_key (fg_event_id f), doc_value = VObject fs\<rparr>"
    by (simp add: forgotten_to_record_def fs_def)
  show ?thesis
    by (simp add: forgotten_from_record_def rec forgotten_key_def root_fields_VObject sc f codec
        read_parsed assms(2))
qed

definition from_claim :: "'a decoded \<Rightarrow> ('e, 'a) outcome" where
  "from_claim r = (case r of Inl e \<Rightarrow> m_fail (ClaimDecode e) | Inr x \<Rightarrow> m_return x)"

definition from_derived :: "'a decoded \<Rightarrow> ('e, 'a) outcome" where
  "from_derived r = (case r of Inl e \<Rightarrow> m_fail (DerivedDecode e) | Inr x \<Rightarrow> m_return x)"

definition from_invalid_claim :: "invalid_claim + 'a \<Rightarrow> ('e, 'a) outcome" where
  "from_invalid_claim r = (case r of Inl e \<Rightarrow> m_fail (InvalidClaim e) | Inr x \<Rightarrow> m_return x)"

lemma from_claim_Inr [simp]: "from_claim r = Some (Inr x) \<longleftrightarrow> r = Inr x"
  by (cases r) (simp_all add: from_claim_def)

lemma from_derived_Inr [simp]: "from_derived r = Some (Inr x) \<longleftrightarrow> r = Inr x"
  by (cases r) (simp_all add: from_derived_def)

lemma from_invalid_claim_Inr [simp]: "from_invalid_claim r = Some (Inr x) \<longleftrightarrow> r = Inr x"
  by (cases r) (simp_all add: from_invalid_claim_def)

definition is_forgotten ::
  "('s, 'c, 'e) hyphae \<Rightarrow> rust_env \<Rightarrow> 's \<Rightarrow> string \<Rightarrow> recall_scope \<Rightarrow> ('e, bool) outcome" where
  "is_forgotten H E s i sc =
     m_bind (from_store (hy_get H s (forgotten_key i))) (\<lambda>found. case found of
       None \<Rightarrow> m_return False
     | Some rec \<Rightarrow> m_bind (from_derived (forgotten_from_record (env_uuid_ok E) rec)) (\<lambda>f.
         m_return (ingestion_scope_visible_to (fg_scope f) sc)))"

section \<open>Reading claims\<close>

text \<open>A loop that keeps the items for which a fallible test succeeds.\<close>

fun filter_m :: "('a \<Rightarrow> ('e, bool) outcome) \<Rightarrow> 'a list \<Rightarrow> ('e, 'a list) outcome" where
  "filter_m f [] = m_return []"
| "filter_m f (x # xs) =
     m_bind (f x) (\<lambda>b. m_bind (filter_m f xs) (\<lambda>ys. m_return (if b then x # ys else ys)))"

definition claim_visible_to :: "claim \<Rightarrow> recall_scope \<Rightarrow> bool" where
  "claim_visible_to c sc = recall_scope_visible_to (cl_scope c) sc"

interpretation claim_isolation:
  owner_isolation claim_visible_to "rs_tenant_id \<circ> cl_scope" "rs_user_id \<circ> cl_scope"
  by unfold_locales (simp add: claim_visible_to_def recall_scope_visible_to_def)

definition get_claim ::
  "('s, 'c, 'e) hyphae \<Rightarrow> rust_env \<Rightarrow> 's engine \<Rightarrow> string \<Rightarrow> recall_scope \<Rightarrow> ('e, claim option) outcome" where
  "get_claim H E g i sc =
     m_bind (require_tenant (en_tenant g) (rs_tenant_id sc)) (\<lambda>_.
     m_bind (from_store (hy_get H (en_store g) (claim_key i))) (\<lambda>found. case found of
       None \<Rightarrow> m_return None
     | Some rec \<Rightarrow> m_bind (from_claim (claim_from_record (env_uuid_ok E) rec)) (\<lambda>c.
         m_return (if claim_visible_to c sc then Some c else None))))"

definition claim_evidence_of ::
  "('s, 'c, 'e) hyphae \<Rightarrow> rust_env \<Rightarrow> 's engine \<Rightarrow> string \<Rightarrow> recall_scope
   \<Rightarrow> ('e, claim_evidence list) outcome" where
  "claim_evidence_of H E g i sc =
     m_bind (get_claim H E g i sc) (\<lambda>found.
     if found = None then m_return []
     else m_bind (from_scan (scan_prefix H (en_store g) (claim_evidence_prefix i))) (\<lambda>recs.
       from_claim (r_collect (evidence_from_record (env_uuid_ok E)) recs)))"

definition active_claim_evidence ::
  "('s, 'c, 'e) hyphae \<Rightarrow> rust_env \<Rightarrow> 's engine \<Rightarrow> string \<Rightarrow> recall_scope
   \<Rightarrow> ('e, claim_evidence list) outcome" where
  "active_claim_evidence H E g i sc =
     m_bind (claim_evidence_of H E g i sc)
       (filter_m (\<lambda>e. m_bind (is_forgotten H E (en_store g) (ev_event_id e) sc) (\<lambda>b. m_return (\<not> b))))"

definition visible_claims ::
  "('s, 'c, 'e) hyphae \<Rightarrow> rust_env \<Rightarrow> 's engine \<Rightarrow> recall_scope \<Rightarrow> ('e, claim list) outcome" where
  "visible_claims H E g sc =
     m_bind (require_tenant (en_tenant g) (rs_tenant_id sc)) (\<lambda>_.
     m_bind (from_scan (scan_prefix H (en_store g) claim_prefix)) (\<lambda>recs.
     m_bind (from_claim (r_collect (claim_from_record (env_uuid_ok E)) recs))
       (filter_m (\<lambda>c.
          if \<not> claim_visible_to c sc then m_return False
          else m_bind (active_claim_evidence H E g (cl_id c) sc) (\<lambda>es. m_return (es \<noteq> []))))))"

definition claim_supersessions ::
  "('s, 'c, 'e) hyphae \<Rightarrow> rust_env \<Rightarrow> 's engine \<Rightarrow> recall_scope \<Rightarrow> ('e, claim_link list) outcome" where
  "claim_supersessions H E g sc =
     m_bind (require_tenant (en_tenant g) (rs_tenant_id sc)) (\<lambda>_.
     m_bind (from_scan (scan_prefix H (en_store g) link_prefix)) (\<lambda>recs.
     m_bind (from_claim (r_collect (link_from_record (env_uuid_ok E)) recs))
       (filter_m (\<lambda>l. m_bind (get_claim H E g (ln_original l) sc) (\<lambda>found. m_return (found \<noteq> None))))))"

section \<open>Creating a claim\<close>

definition check_evidence ::
  "('s, 'c, 'e) hyphae \<Rightarrow> rust_env \<Rightarrow> 's engine \<Rightarrow> recall_scope \<Rightarrow> evidence_input \<Rightarrow> ('e, unit) outcome" where
  "check_evidence H E g sc ev =
     m_bind (is_forgotten H E (en_store g) (ei_event_id ev) sc) (\<lambda>forgotten.
     if forgotten then m_fail (ClaimEvidenceNotFound (ei_event_id ev))
     else m_bind (get_ingestion H E (en_tenant g) (en_store g) (ei_event_id ev) sc) (\<lambda>found. case found of
       None \<Rightarrow> m_fail (ClaimEvidenceNotFound (ei_event_id ev))
     | Some e \<Rightarrow>
         if (case ei_excerpt ev of None \<Rightarrow> False | Some x \<Rightarrow> \<not> contains (ie_content e) x)
         then m_fail (ClaimEvidenceExcerptMismatch (ei_event_id ev))
         else m_return ()))"

definition create_claim ::
  "('s, 'c, 'e) hyphae \<Rightarrow> ('s, 'e) store_ops \<Rightarrow> rust_env \<Rightarrow> 's engine \<Rightarrow> claim_request
   \<Rightarrow> ('e, claim \<times> 's engine) outcome" where
  "create_claim H O' E g req =
     m_bind (from_invalid_claim (validate_claim req)) (\<lambda>_.
     m_bind (require_tenant (en_tenant g) (rs_tenant_id (cr_scope req))) (\<lambda>_.
     m_bind (collect_m (check_evidence H E g (cr_scope req)) (cr_evidence req)) (\<lambda>_.
     let c = claim_of_request (env_b3_raw E) (env_uuid_text E) req
     in m_bind (get_claim H E g (cl_id c) (cr_scope req)) (\<lambda>found. case found of
          Some existing \<Rightarrow> if existing \<noteq> c then m_fail (ClaimConflict (cl_id c)) else m_return (existing, g)
        | None \<Rightarrow>
            m_bind (from_store (op_put_records O' (en_store g)
              (claim_to_record c
               # map (\<lambda>ev. evidence_to_record (evidence_of_input (cl_id c) ev (cr_recorded_at_ms req)))
                   (cr_evidence req)))) (\<lambda>s.
            m_return (c, g\<lparr>en_store := s\<rparr>))))))"

section \<open>Superseding a claim\<close>

definition link_edges :: "claim_link list \<Rightarrow> (string \<times> string) list" where
  "link_edges links = concat (map (\<lambda>l. case ln_successor l of
     None \<Rightarrow> [] | Some b \<Rightarrow> [(ln_original l, b)]) links)"

definition claim_reaches ::
  "('s, 'c, 'e) hyphae \<Rightarrow> rust_env \<Rightarrow> 's engine \<Rightarrow> string \<Rightarrow> string \<Rightarrow> recall_scope \<Rightarrow> ('e, bool) outcome" where
  "claim_reaches H E g start target sc =
     m_bind (claim_supersessions H E g sc) (\<lambda>links. m_return (reaches (link_edges links) start target))"

definition check_successor ::
  "('s, 'c, 'e) hyphae \<Rightarrow> rust_env \<Rightarrow> 's engine \<Rightarrow> claim \<Rightarrow> claim option \<Rightarrow> recall_scope \<Rightarrow> ('e, unit) outcome" where
  "check_successor H E g original successor sc = (case successor of
     None \<Rightarrow> m_return ()
   | Some c \<Rightarrow>
       if cl_subject original \<noteq> cl_subject c \<or> cl_predicate original \<noteq> cl_predicate c
       then m_fail ClaimPropertyMismatch
       else m_bind (claim_reaches H E g (cl_id c) (cl_id original) sc) (\<lambda>cycle.
         if cycle then m_fail ClaimSupersessionCycle else m_return ()))"

definition link_key :: "string \<Rightarrow> bytes" where
  "link_key i = link_prefix @ i"

definition get_successor ::
  "('s, 'c, 'e) hyphae \<Rightarrow> rust_env \<Rightarrow> 's engine \<Rightarrow> link_request \<Rightarrow> ('e, claim option) outcome" where
  "get_successor H E g req = (case lr_successor req of
     None \<Rightarrow> m_return None
   | Some i \<Rightarrow> get_claim H E g i (lr_scope req))"

definition put_link ::
  "('s, 'c, 'e) hyphae \<Rightarrow> rust_env \<Rightarrow> 's engine \<Rightarrow> link_request \<Rightarrow> ('e, claim_link \<times> 's engine) outcome" where
  "put_link H E g req =
     (let l = link_of_request (env_b3_raw E) (env_uuid_text E) req
      in m_bind (from_store (hy_get H (en_store g) (link_key (ln_id l)))) (\<lambda>found. case found of
           Some rec \<Rightarrow> m_bind (from_claim (link_from_record (env_uuid_ok E) rec)) (\<lambda>old. m_return (old, g))
         | None \<Rightarrow> m_bind (from_store (hy_put H (en_store g) (link_to_record l))) (\<lambda>s.
             m_return (l, g\<lparr>en_store := s\<rparr>))))"

definition supersede_claim ::
  "('s, 'c, 'e) hyphae \<Rightarrow> rust_env \<Rightarrow> 's engine \<Rightarrow> link_request \<Rightarrow> ('e, claim_link \<times> 's engine) outcome" where
  "supersede_claim H E g req =
     m_bind (require_tenant (en_tenant g) (rs_tenant_id (lr_scope req))) (\<lambda>_.
     m_bind (get_claim H E g (lr_original req) (lr_scope req)) (\<lambda>found. case found of
       None \<Rightarrow> m_fail (ClaimNotFound (lr_original req))
     | Some original \<Rightarrow>
         m_bind (get_successor H E g req) (\<lambda>successor.
         if lr_relation req \<noteq> Recants \<and> successor = None then m_fail ClaimSuccessorRequired
         else m_bind (check_successor H E g original successor (lr_scope req)) (\<lambda>_. put_link H E g req))))"

section \<open>Queries\<close>

definition conflicting_pair :: "claim \<Rightarrow> claim \<Rightarrow> contradiction option" where
  "conflicting_pair l r =
     (if cl_subject l = cl_subject r \<and> cl_predicate l = cl_predicate r \<and> cl_value l \<noteq> cl_value r
      then case validity_overlap l r of
          None \<Rightarrow> None
        | Some (a, b) \<Rightarrow> Some \<lparr>ct_left = cl_id l, ct_right = cl_id r, ct_from_ms = a, ct_to_ms = b\<rparr>
      else None)"

fun contradictions_in :: "claim list \<Rightarrow> contradiction list" where
  "contradictions_in [] = []"
| "contradictions_in (l # rest) = List.map_filter (conflicting_pair l) rest @ contradictions_in rest"

definition claim_contradictions ::
  "('s, 'c, 'e) hyphae \<Rightarrow> rust_env \<Rightarrow> 's engine \<Rightarrow> recall_scope \<Rightarrow> ('e, contradiction list) outcome" where
  "claim_contradictions H E g sc = m_bind (visible_claims H E g sc) (\<lambda>cs. m_return (contradictions_in cs))"

definition asked_about :: "property_query \<Rightarrow> claim \<Rightarrow> bool" where
  "asked_about q c \<longleftrightarrow> cl_subject c = pq_subject q \<and> cl_predicate c = pq_predicate q
     \<and> sint (cl_recorded_at_ms c) \<le> sint (pq_known_at_ms q) \<and> valid_at c (pq_valid_at_ms q)"

definition claims_at ::
  "('s, 'c, 'e) hyphae \<Rightarrow> rust_env \<Rightarrow> 's engine \<Rightarrow> property_query \<Rightarrow> ('e, claim list) outcome" where
  "claims_at H E g q =
     m_bind (visible_claims H E g (pq_scope q)) (\<lambda>cs.
       m_return (sort_key (\<lambda>c. (sint (cl_recorded_at_ms c), cl_id c)) (filter (asked_about q) cs)))"

definition retired_by :: "property_query \<Rightarrow> claim \<Rightarrow> claim_link \<Rightarrow> bool" where
  "retired_by q c l \<longleftrightarrow> ln_original l = cl_id c \<and> retires_original (ln_relation l)
     \<and> sint (ln_effective_at_ms l) \<le> sint (pq_valid_at_ms q)
     \<and> sint (ln_recorded_at_ms l) \<le> sint (pq_known_at_ms q)"

definition latest_claims ::
  "('s, 'c, 'e) hyphae \<Rightarrow> rust_env \<Rightarrow> 's engine \<Rightarrow> property_query \<Rightarrow> ('e, claim list) outcome" where
  "latest_claims H E g q =
     m_bind (claim_supersessions H E g (pq_scope q)) (\<lambda>links.
     m_bind (claims_at H E g q) (\<lambda>cs.
       m_return (filter (\<lambda>c. \<not> list_ex (retired_by q c) links) cs)))"

datatype event_time_basis = EventTime | IngestionFallback

record sequenced_event =
  sq_event_id :: string
  sq_effective_at_ms :: i64
  sq_basis :: event_time_basis

definition sequenced ::
  "('s, 'c, 'e) hyphae \<Rightarrow> rust_env \<Rightarrow> 's engine \<Rightarrow> recall_scope \<Rightarrow> string \<Rightarrow> ('e, sequenced_event) outcome" where
  "sequenced H E g sc i =
     m_bind (get_ingestion H E (en_tenant g) (en_store g) i sc) (\<lambda>found. case found of
       None \<Rightarrow> m_fail (IngestionEventNotFound i)
     | Some e \<Rightarrow> m_return (case ie_event_at_ms e of
         None \<Rightarrow> \<lparr>sq_event_id = i, sq_effective_at_ms = ie_first_ingested_at_ms e,
                  sq_basis = IngestionFallback\<rparr>
       | Some t \<Rightarrow> \<lparr>sq_event_id = i, sq_effective_at_ms = t, sq_basis = EventTime\<rparr>))"

definition event_sequence ::
  "('s, 'c, 'e) hyphae \<Rightarrow> rust_env \<Rightarrow> 's engine \<Rightarrow> recall_scope \<Rightarrow> string list
   \<Rightarrow> ('e, sequenced_event list) outcome" where
  "event_sequence H E g sc ids =
     m_bind (collect_m (sequenced H E g sc) ids) (\<lambda>es.
       m_return (sort_key (\<lambda>e. (sint (sq_effective_at_ms e), sq_event_id e)) es))"

end
