(* ===== verification/Store_Agree.thy ===== *)
theory Store_Agree
  imports Claim_Engine
begin

text \<open>
  Two runs of a reading operation \<^emph>\<open>agree\<close> when they return the same, up to failures of the store. An
  operation agrees with itself before and after a write that leaves the documents it reads alone; the
  lemmas follow the structure of the operations.
\<close>

definition agree :: "('e, 'a) outcome \<Rightarrow> ('e, 'a) outcome \<Rightarrow> bool" where
  "agree m m' \<longleftrightarrow> (\<exists>e. m = Some (Inl (Hyphae e))) \<or> (\<exists>e. m' = Some (Inl (Hyphae e))) \<or> m = m'"

lemma agree_refl [simp]: "agree m m"
  by (simp add: agree_def)

lemma agree_bind:
  assumes "agree m m'" and "\<And>x. agree (f x) (f' x)"
  shows "agree (m_bind m f) (m_bind m' f')"
  using assms(1) unfolding agree_def
proof (elim disjE)
  assume "m = m'"
  with assms(2) show "(\<exists>e. m_bind m f = Some (Inl (Hyphae e)))
      \<or> (\<exists>e. m_bind m' f' = Some (Inl (Hyphae e))) \<or> m_bind m f = m_bind m' f'"
    by (auto simp: m_bind_def agree_def split: option.split sum.split)
qed auto

lemma agree_value:
  "agree m m' \<Longrightarrow> m = Some (Inr x) \<Longrightarrow> ok_or_hyphae m' (\<lambda>y. y = x)"
  by (auto simp: agree_def ok_or_hyphae_def)

lemma ok_agree:
  assumes "ok_or_hyphae m (\<lambda>x. x = a)" and "ok_or_hyphae m' (\<lambda>x. x = a)"
  shows "agree m m'"
  using assms by (auto simp: ok_or_hyphae_def agree_def)

lemma agree_filter_m:
  "(\<And>x. agree (f x) (f' x)) \<Longrightarrow> agree (filter_m f xs) (filter_m f' xs)"
  by (induction xs) (simp_all add: agree_bind)

lemma ok_from_get:
  "faithful_store H valid rows rest \<Longrightarrow> valid s
   \<Longrightarrow> ok_or_hyphae (from_store (hy_get H s k)) (\<lambda>x. x = lookup_doc (rows s) k)"
  using faithful_storeD(2) [of H valid rows rest s k]
  by (cases "hy_get H s k") (simp_all add: from_store_def ok_or_hyphae_def)

text \<open>\<open>same_docs P\<close>: the documents whose key satisfies \<open>P\<close> are the same.\<close>

definition same_docs :: "(bytes \<Rightarrow> bool) \<Rightarrow> doc list \<Rightarrow> doc list \<Rightarrow> bool" where
  "same_docs P ds ds' \<longleftrightarrow> filter (\<lambda>d. P (doc_key d)) ds = filter (\<lambda>d. P (doc_key d)) ds'"

lemma lookup_filter:
  "P k \<Longrightarrow> lookup_doc (filter (\<lambda>d. P (doc_key d)) ds) k = lookup_doc ds k"
  by (induction ds) (auto simp: lookup_doc_def)

lemma same_docs_lookup: "same_docs P ds ds' \<Longrightarrow> P k \<Longrightarrow> lookup_doc ds k = lookup_doc ds' k"
  using lookup_filter [of P k ds] lookup_filter [of P k ds'] by (simp add: same_docs_def)

lemma same_docs_scan:
  assumes "same_docs P ds ds'" and "\<And>k. prefix p k \<Longrightarrow> P k"
  shows "filter (has_prefix p) ds = filter (has_prefix p) ds'"
proof -
  have "filter (has_prefix p) xs = filter (has_prefix p) (filter (\<lambda>d. P (doc_key d)) xs)" for xs
    using assms(2) by (induction xs) (auto simp: has_prefix_def)
  with assms(1) show ?thesis unfolding same_docs_def by metis
qed

lemma same_docs_upsert: "\<not> P (doc_key d) \<Longrightarrow> same_docs P ds (upsert d ds)"
  using filter_upsert_other [of P d ds] by (simp add: same_docs_def)

text \<open>Two states of a store that hold the same documents for the keys in \<open>P\<close>.\<close>

definition similar_stores ::
  "('s, 'c, 'e) hyphae \<Rightarrow> ('s \<Rightarrow> bool) \<Rightarrow> ('s \<Rightarrow> doc list) \<Rightarrow> ('s \<Rightarrow> 'c option \<Rightarrow> doc list)
   \<Rightarrow> (bytes \<Rightarrow> bool) \<Rightarrow> 's \<Rightarrow> 's \<Rightarrow> bool" where
  "similar_stores H valid rows rest P s t \<longleftrightarrow>
     faithful_store H valid rows rest \<and> valid s \<and> valid t \<and> same_docs P (rows s) (rows t)"

lemma agree_get:
  assumes "similar_stores H valid rows rest P s t" and "P k"
  shows "agree (from_store (hy_get H s k)) (from_store (hy_get H t k))"
proof -
  have st: "faithful_store H valid rows rest" "valid s" "valid t" "same_docs P (rows s) (rows t)"
    using assms(1) by (simp_all add: similar_stores_def)
  show ?thesis
    using ok_from_get [OF st(1,2), of k] ok_from_get [OF st(1,3), of k] same_docs_lookup [OF st(4) assms(2)]
    by (intro ok_agree) simp_all
qed

lemma agree_scan:
  assumes "similar_stores H valid rows rest P s t" and "\<And>k. prefix p k \<Longrightarrow> P k"
  shows "agree (from_scan (scan_prefix H s p)) (from_scan (scan_prefix H t p))"
proof -
  have st: "faithful_store H valid rows rest" "valid s" "valid t" "same_docs P (rows s) (rows t)"
    using assms(1) by (simp_all add: similar_stores_def)
  show ?thesis
    using scan_ok [OF st(1,2), of p] scan_ok [OF st(1,3), of p] same_docs_scan [OF st(4), of p] assms(2)
    by (intro ok_agree) simp_all
qed

section \<open>Which documents the claim operations read\<close>

lemma claim_prefixes [simp]:
  "prefix claim_prefix (claim_key i)" "\<not> prefix claim_prefix (link_key i)"
  "\<not> prefix evidence_prefix (link_key i)" "\<not> prefix forgotten_prefix (link_key i)"
  "\<not> prefix ingestion_prefix (link_key i)" "prefix link_prefix (link_key i)"
  "prefix forgotten_prefix (forgotten_key i)"
  by (simp_all add: claim_prefix_def claim_key_def link_key_def link_prefix_def evidence_prefix_def
      forgotten_prefix_def forgotten_key_def ingestion_prefix_def)

lemma evidence_prefixes: "prefix (claim_evidence_prefix i) k \<Longrightarrow> prefix evidence_prefix k"
  by (auto simp: claim_evidence_prefix_def prefix_def)

definition claim_docs :: "bytes \<Rightarrow> bool" where
  "claim_docs k \<longleftrightarrow> prefix claim_prefix k \<or> prefix evidence_prefix k \<or> prefix forgotten_prefix k"

lemma claim_docs_keys [simp]:
  "claim_docs (claim_key i)" "claim_docs (forgotten_key i)" "\<not> claim_docs (link_key i)"
  by (simp_all add: claim_docs_def)

lemma agree_get_claim:
  assumes "similar_stores H valid rows rest P (en_store g) (en_store g')" and "en_tenant g' = en_tenant g"
    and "P (claim_key i)"
  shows "agree (get_claim H E g i sc) (get_claim H E g' i sc)"
  unfolding get_claim_def assms(2)
  by (rule agree_bind [OF agree_refl], rule agree_bind [OF agree_get [of H valid rows rest P, OF assms(1,3)]])
    (rule agree_refl)

lemma agree_visible_claims:
  assumes "similar_stores H valid rows rest claim_docs (en_store g) (en_store g')"
    and "en_tenant g' = en_tenant g"
  shows "agree (visible_claims H E g sc) (visible_claims H E g' sc)"
proof -
  note rd = agree_get [OF assms(1)] agree_scan [OF assms(1)]
  have forgotten: "agree (is_forgotten H E (en_store g) i sc) (is_forgotten H E (en_store g') i sc)" for i
    unfolding is_forgotten_def by (rule agree_bind [OF rd(1) agree_refl]) simp
  have evidence: "agree (claim_evidence_of H E g i sc) (claim_evidence_of H E g' i sc)" for i
    unfolding claim_evidence_of_def
    by (rule agree_bind [OF agree_get_claim [OF assms]])
      (auto simp: claim_docs_def intro!: agree_bind rd(2) dest: evidence_prefixes)
  have active: "agree (active_claim_evidence H E g i sc) (active_claim_evidence H E g' i sc)" for i
    unfolding active_claim_evidence_def
    by (intro agree_bind [OF evidence] agree_filter_m agree_bind [OF forgotten] agree_refl)
  have test: "agree (if \<not> claim_visible_to c sc then m_return False
        else m_bind (active_claim_evidence H E g (cl_id c) sc) (\<lambda>es. m_return (es \<noteq> [])))
      (if \<not> claim_visible_to c sc then m_return False
        else m_bind (active_claim_evidence H E g' (cl_id c) sc) (\<lambda>es. m_return (es \<noteq> [])))" for c
    by (cases "claim_visible_to c sc") (simp_all add: agree_bind active)
  show ?thesis
    unfolding visible_claims_def assms(2)
    by (intro agree_bind [OF agree_refl] agree_bind [OF rd(2)] agree_bind [OF agree_refl] agree_filter_m test)
      (simp add: claim_docs_def)
qed

lemma agree_claims_at:
  assumes "similar_stores H valid rows rest claim_docs (en_store g) (en_store g')"
    and "en_tenant g' = en_tenant g"
  shows "agree (claims_at H E g q) (claims_at H E g' q)"
  unfolding claims_at_def by (intro agree_bind [OF agree_visible_claims [OF assms]] agree_refl)

end
