(* ===== verification/Claim_Claims.thy ===== *)
theory Claim_Claims
  imports Store_Agree
begin

text \<open>
  What the claim operations guarantee: the supersession links of a scope never form a cycle, a link
  retires exactly the claim it names and only for the queries it is effective and known at,
  contradictions are exactly the overlapping different values, and a claim rests on events its owner
  can see. The number of evidence links can be smaller than the count a claim carries.
\<close>

section \<open>Loops\<close>

lemma filter_m_Inr:
  "filter_m f xs = Some (Inr ys) \<Longrightarrow>
   ys = filter (\<lambda>x. f x = Some (Inr True)) xs \<and> (\<forall>x\<in>set xs. \<exists>b. f x = Some (Inr b))"
  by (induction xs arbitrary: ys) (auto simp: m_bind_Inr split: if_splits)

lemma ok_filter_m:
  "(\<And>x. x \<in> set xs \<Longrightarrow> ok_or_hyphae (f x) (\<lambda>b. b = P x))
   \<Longrightarrow> ok_or_hyphae (filter_m f xs) (\<lambda>ys. ys = filter P xs)"
  by (induction xs) (auto intro!: ok_or_hyphae_bind)

lemma r_collect_set:
  "r_collect f xs = Inr ys \<Longrightarrow> set ys = {y. \<exists>x\<in>set xs. f x = Inr y} \<and> (\<forall>x\<in>set xs. \<exists>y. f x = Inr y)"
  by (induction xs arbitrary: ys) (auto simp: r_bind_Inr)

lemma r_collect_total: "(\<And>x. x \<in> set xs \<Longrightarrow> \<exists>y. f x = Inr y) \<Longrightarrow> \<exists>ys. r_collect f xs = Inr ys"
  by (induction xs) fastforce+

lemma set_upsert_new: "lookup_doc ds (doc_key d) = None \<Longrightarrow> set (upsert d ds) = insert d (set ds)"
  by (induction ds) (auto simp: lookup_doc_def split: if_splits)

section \<open>The supersession links of a scope\<close>

lemma link_of_request_fields [simp]:
  "ln_original (link_of_request b u req) = lr_original req"
  "ln_successor (link_of_request b u req) = lr_successor req"
  "ln_relation (link_of_request b u req) = lr_relation req"
  "ln_effective_at_ms (link_of_request b u req) = lr_effective_at_ms req"
  "ln_recorded_at_ms (link_of_request b u req) = lr_recorded_at_ms req"
  by (simp_all add: link_of_request_def)

lemma link_record_key [simp]: "doc_key (link_to_record l) = link_key (ln_id l)"
  by (simp add: link_to_record_def link_key_def)

lemma link_edges_iff: "(a, b) \<in> set (link_edges ls) \<longleftrightarrow> (\<exists>l\<in>set ls. ln_original l = a \<and> ln_successor l = Some b)"
  by (force simp: link_edges_def split: option.splits)

lemma supersessions_Inr:
  assumes "claim_supersessions H E g sc = Some (Inr ls)"
    and "faithful_store H valid rows rest" and "valid (en_store g)"
  shows "set ls = {l. (\<exists>d\<in>set (rows (en_store g)). prefix link_prefix (doc_key d)
          \<and> link_from_record (env_uuid_ok E) d = Inr l)
        \<and> (\<exists>c. get_claim H E g (ln_original l) sc = Some (Inr (Some c)))}"
    and "\<forall>d\<in>set (rows (en_store g)). prefix link_prefix (doc_key d) \<longrightarrow>
        (\<exists>l. link_from_record (env_uuid_ok E) d = Inr l
          \<and> (\<exists>c. get_claim H E g (ln_original l) sc = Some (Inr c)))"
    and "rs_tenant_id sc = en_tenant g"
proof -
  obtain recs all where recs: "scan_prefix H (en_store g) link_prefix = Some (Inr recs)"
    and all: "r_collect (link_from_record (env_uuid_ok E)) recs = Inr all"
    and flt: "filter_m (\<lambda>l. m_bind (get_claim H E g (ln_original l) sc) (\<lambda>found. m_return (found \<noteq> None))) all
      = Some (Inr ls)"
    and ten: "(require_tenant (en_tenant g) (rs_tenant_id sc) :: ('c, unit) outcome) = Some (Inr ())"
    using assms(1) unfolding claim_supersessions_def m_bind_Inr by (auto simp: require_tenant_def split: if_splits)
  have rows: "recs = filter (has_prefix link_prefix) (rows (en_store g))"
    by (rule scan_prefix_Inr [OF assms(2,3) recs])
  note all' = r_collect_set [OF all] and flt' = filter_m_Inr [OF flt]
  show "set ls = {l. (\<exists>d\<in>set (rows (en_store g)). prefix link_prefix (doc_key d)
          \<and> link_from_record (env_uuid_ok E) d = Inr l)
        \<and> (\<exists>c. get_claim H E g (ln_original l) sc = Some (Inr (Some c)))}"
    using all' flt' unfolding rows by (auto simp: m_bind_Inr has_prefix_def)
  show "\<forall>d\<in>set (rows (en_store g)). prefix link_prefix (doc_key d) \<longrightarrow>
        (\<exists>l. link_from_record (env_uuid_ok E) d = Inr l
          \<and> (\<exists>c. get_claim H E g (ln_original l) sc = Some (Inr c)))"
    using all' flt' unfolding rows by (fastforce simp: m_bind_Inr has_prefix_def)
  show "rs_tenant_id sc = en_tenant g" using ten by (auto simp: require_tenant_def split: if_splits)
qed

lemma put_link_similar:
  assumes "faithful_store H valid rows rest" and "valid s" and "hy_put H s (link_to_record l) = Inr s'"
  shows "similar_stores H valid rows rest claim_docs s s'"
  using faithful_storeD(3) [OF assms] same_docs_upsert [of claim_docs "link_to_record l" "rows s"]
  by (simp add: similar_stores_def assms(1,2))

lemma supersessions_after:
  fixes H :: "('s, 'c, 'e) hyphae"
  assumes "claim_supersessions H E g sc = Some (Inr ls)"
    and st: "faithful_store H valid rows rest" "valid (en_store g)"
    and new: "lookup_doc (rows (en_store g)) (link_key (ln_id l)) = None"
    and dec: "link_from_record (env_uuid_ok E) (link_to_record l) = Inr l"
    and vis: "get_claim H E g (ln_original l) sc = Some (Inr (Some c))"
    and put: "hy_put H (en_store g) (link_to_record l) = Inr s"
  shows "ok_or_hyphae (claim_supersessions H E (g\<lparr>en_store := s\<rparr>) sc) (\<lambda>ls'. set ls' = insert l (set ls))"
proof -
  let ?g = "g\<lparr>en_store := s\<rparr>" and ?dec = "link_from_record (env_uuid_ok E)"
  let ?vis = "\<lambda>l. \<exists>c. get_claim H E g (ln_original l) sc = Some (Inr (Some c))"
  note before = supersessions_Inr [OF assms(1) st]
  note s = faithful_storeD(3) [OF st put]
  have rows: "set (rows s) = insert (link_to_record l) (set (rows (en_store g)))"
    unfolding conjunct2 [OF s] by (rule set_upsert_new) (simp add: new)
  have all: "\<exists>l'. ?dec d = Inr l' \<and> (\<exists>c. get_claim H E g (ln_original l') sc = Some (Inr c))"
    if "d \<in> set (rows s)" "prefix link_prefix (doc_key d)" for d
    using that before(2) dec vis unfolding rows by auto
  have reads: "agree (get_claim H E g i sc) (get_claim H E ?g i sc)" for i
    by (rule agree_get_claim [where P = claim_docs and g' = ?g, simplified, OF put_link_similar [OF st put]]) simp
  have step: "ok_or_hyphae (filter_m (\<lambda>l. m_bind (get_claim H E ?g (ln_original l) sc)
        (\<lambda>found. m_return (found \<noteq> None))) xs) (\<lambda>ys. set ys = insert l (set ls))"
    if xs: "r_collect ?dec (filter (has_prefix link_prefix) (rows s)) = Inr xs" for xs
  proof -
    note xs' = r_collect_set [OF xs]
    have "ok_or_hyphae (m_bind (get_claim H E ?g (ln_original x) sc) (\<lambda>found. m_return (found \<noteq> None)))
        (\<lambda>b. b = ?vis x)" if "x \<in> set xs" for x
    proof -
      from that xs' all obtain r where r: "get_claim H E g (ln_original x) sc = Some (Inr r)"
        by (fastforce simp: has_prefix_def)
      show ?thesis
        by (rule ok_or_hyphae_bind [OF agree_value [OF reads r]]) (auto simp: r)
    qed
    from ok_filter_m [of xs _ ?vis, OF this]
    have kept: "ok_or_hyphae (filter_m (\<lambda>l. m_bind (get_claim H E ?g (ln_original l) sc)
        (\<lambda>found. m_return (found \<noteq> None))) xs) (\<lambda>ys. ys = filter ?vis xs)" .
    have "set (filter ?vis xs) = insert l (set ls)"
      using xs' before(1) dec vis by (auto simp: has_prefix_def rows)
    then show ?thesis by (intro ok_or_hyphae_weaken [OF kept]) simp
  qed
  have total: "\<exists>xs. r_collect ?dec (filter (has_prefix link_prefix) (rows s)) = Inr xs"
    by (rule r_collect_total) (use all in \<open>auto simp: has_prefix_def\<close>)
  then obtain xs where xs: "r_collect ?dec (filter (has_prefix link_prefix) (rows s)) = Inr xs" by blast
  have scan: "ok_or_hyphae (from_scan (scan_prefix H s link_prefix))
      (\<lambda>ds. ds = filter (has_prefix link_prefix) (rows s))"
    by (rule scan_ok [OF st(1) conjunct1 [OF s]])
  have ten: "(require_tenant (en_tenant ?g) (rs_tenant_id sc) :: ('e, unit) outcome) = m_return ()"
    using before(3) by (simp add: require_tenant_def)
  have collected: "(from_claim (r_collect ?dec (filter (has_prefix link_prefix) (rows s)))
      :: ('e, claim_link list) outcome) = m_return xs"
    by (simp add: from_claim_def xs)
  show ?thesis
    unfolding claim_supersessions_def ten m_simps(1)
  proof (rule ok_or_hyphae_bind)
    show "ok_or_hyphae (from_scan (scan_prefix H (en_store ?g) link_prefix))
        (\<lambda>ds. ds = filter (has_prefix link_prefix) (rows s))" using scan by simp
    show "ok_or_hyphae (m_bind (from_claim (r_collect ?dec ds))
          (filter_m (\<lambda>l. m_bind (get_claim H E ?g (ln_original l) sc) (\<lambda>found. m_return (found \<noteq> None)))))
        (\<lambda>ls'. set ls' = insert l (set ls))"
      if "ds = filter (has_prefix link_prefix) (rows s)" for ds
      unfolding that collected m_simps(1) by (rule step [OF xs])
  qed
qed

section \<open>Superseding a claim\<close>

definition claims_keyed :: "rust_env \<Rightarrow> doc list \<Rightarrow> bool" where
  "claims_keyed E ds \<longleftrightarrow> list_all (\<lambda>d. case claim_from_record (env_uuid_ok E) d of
     Inl _ \<Rightarrow> True | Inr c \<Rightarrow> doc_key d = claim_key (cl_id c)) ds"

lemma get_claim_id:
  assumes "faithful_store H valid rows rest" and "valid (en_store g)"
    and "claims_keyed E (rows (en_store g))"
    and "get_claim H E g i sc = Some (Inr (Some c))"
  shows "cl_id c = i"
proof -
  obtain d where get: "hy_get H (en_store g) (claim_key i) = Inr (Some d)"
    and c: "claim_from_record (env_uuid_ok E) d = Inr c"
    using assms(4) unfolding get_claim_def m_bind_Inr by (auto split: option.splits if_splits simp: m_bind_Inr)
  from faithful_storeD(2) [OF assms(1,2) get] have "d \<in> set (rows (en_store g))" "doc_key d = claim_key i"
    using lookup_doc_Some by metis+
  with assms(3) c show ?thesis by (auto simp: claims_keyed_def list_all_iff claim_key_def)
qed

lemma supersede_run:
  fixes H :: "('s, 'c, 'e) hyphae"
  assumes "supersede_claim H E g req = Some (Inr (l, g'))"
  obtains c suc where
    "get_claim H E g (lr_original req) (lr_scope req) = Some (Inr (Some c))"
    "get_successor H E g req = Some (Inr suc)"
    "check_successor H E g c suc (lr_scope req) = Some (Inr ())"
    "put_link H E g req = Some (Inr (l, g'))"
  using assms unfolding supersede_claim_def
  by (auto simp: m_bind_Inr split: option.splits if_splits)

lemma put_link_run:
  fixes H :: "('s, 'c, 'e) hyphae"
  assumes "put_link H E g req = Some (Inr (l, g'))"
    and "faithful_store H valid rows rest" and "valid (en_store g)"
  shows "g' = g \<or> lookup_doc (rows (en_store g))
        (link_key (ln_id (link_of_request (env_b3_raw E) (env_uuid_text E) req))) = None
      \<and> l = link_of_request (env_b3_raw E) (env_uuid_text E) req
      \<and> (\<exists>s. hy_put H (en_store g) (link_to_record l) = Inr s \<and> g' = g\<lparr>en_store := s\<rparr>)"
  using assms(1) faithful_storeD(2) [OF assms(2,3)] unfolding put_link_def Let_def
  by (fastforce simp: m_bind_Inr split: option.splits)

lemma decodes_link:
  "env_uuid_ok E (lr_original req) \<Longrightarrow> pred_option (env_uuid_ok E) (lr_successor req)
   \<Longrightarrow> link_from_record (env_uuid_ok E) (link_to_record (link_of_request b u req)) = Inr (link_of_request b u req)"
  by (rule link_roundtrip) simp_all

text \<open>
  C19. Supersession never closes a cycle: if the links a scope sees form an acyclic graph, they still
  do after any successful \<open>supersede_claim\<close> of that scope, whatever the relation, also when the named
  successor does not exist or is hidden from the scope (the code then skips the search). The search
  itself always ends.
\<close>

theorem supersession_stays_acyclic:
  fixes H :: "('s, 'c, 'e) hyphae"
  assumes "faithful_store H valid rows rest" and "valid (en_store g)"
    and "claims_keyed E (rows (en_store g))"
    and "env_uuid_ok E (lr_original req)" and "pred_option (env_uuid_ok E) (lr_successor req)"
    and "claim_supersessions H E g (lr_scope req) = Some (Inr ls)" and "acyclic (set (link_edges ls))"
    and "supersede_claim H E g req = Some (Inr (l, g'))"
  shows "ok_or_hyphae (claim_supersessions H E g' (lr_scope req)) (\<lambda>ls'. acyclic (set (link_edges ls')))"
proof -
  obtain c suc where c: "get_claim H E g (lr_original req) (lr_scope req) = Some (Inr (Some c))"
    and suc: "get_successor H E g req = Some (Inr suc)"
    and chk: "check_successor H E g c suc (lr_scope req) = Some (Inr ())"
    and put: "put_link H E g req = Some (Inr (l, g'))"
    using assms(8) by (rule supersede_run)
  note id = get_claim_id [OF assms(1-3)] and ls = supersessions_Inr(1) [OF assms(6,1,2)]
  consider "g' = g" | s where "lookup_doc (rows (en_store g)) (link_key (ln_id l)) = None"
      "l = link_of_request (env_b3_raw E) (env_uuid_text E) req"
      "hy_put H (en_store g) (link_to_record l) = Inr s" "g' = g\<lparr>en_store := s\<rparr>"
    using put_link_run [OF put assms(1,2)] by metis
  then show ?thesis
  proof cases
    case 1
    then show ?thesis using assms(6,7) by (simp add: ok_or_hyphae_def)
  next
    case 2
    let ?a = "lr_original req"
    have new: "acyclic (set (link_edges ls'))" if "set ls' = insert l (set ls)" for ls'
    proof (cases "lr_successor req")
      case None
      with that 2(2) have "set (link_edges ls') = set (link_edges ls)" by (auto simp: link_edges_iff)
      with assms(7) show ?thesis by simp
    next
      case (Some b)
      with that 2(2) have edges: "set (link_edges ls') = insert (?a, b) (set (link_edges ls))"
        by (auto simp: link_edges_iff)
      have "\<not> reaches (link_edges ls) b ?a"
      proof (cases suc)
        case None
        with suc Some have b: "get_claim H E g b (lr_scope req) = Some (Inr None)"
          by (simp add: get_successor_def)
        then have "(b, x) \<notin> set (link_edges ls)" for x using ls by (auto simp: link_edges_iff)
        moreover have "b \<noteq> ?a" using b c by auto
        ultimately show ?thesis unfolding reaches_iff by (meson converse_rtranclE)
      next
        case found: (Some d)
        with suc Some have "cl_id d = b" by (intro id) (simp add: get_successor_def)
        with chk found show ?thesis
          using id [OF c] by (auto simp: check_successor_def claim_reaches_def assms(6) split: if_splits)
      qed
      with assms(7) show ?thesis unfolding edges by (intro acyclic_checked)
    qed
    have dec: "link_from_record (env_uuid_ok E) (link_to_record l) = Inr l"
      unfolding 2(2) by (rule decodes_link [OF assms(4,5)])
    have vis: "get_claim H E g (ln_original l) (lr_scope req) = Some (Inr (Some c))" using c 2(2) by simp
    show ?thesis
      unfolding 2(4)
      by (rule ok_or_hyphae_weaken [OF supersessions_after [OF assms(6,1,2) 2(1) dec vis 2(3)] new])
  qed
qed

text \<open>
  C20. What a new supersession link changes: for every query of its scope, the current heads are those
  of before, without the claim the link retires when it supersedes or recants and is effective at the
  valid time and known at the known time of the query; a qualification, a reaffirmation, or a link
  recorded after the query's knowledge changes no answer.
\<close>

theorem supersede_changes_heads:
  fixes H :: "('s, 'c, 'e) hyphae"
  assumes "faithful_store H valid rows rest" and "valid (en_store g)"
    and "env_uuid_ok E (lr_original req)" and "pred_option (env_uuid_ok E) (lr_successor req)"
    and "lookup_doc (rows (en_store g)) (link_key (ln_id (link_of_request (env_b3_raw E) (env_uuid_text E) req)))
      = None"
    and "latest_claims H E g q = Some (Inr cs)" and "pq_scope q = lr_scope req"
    and "supersede_claim H E g req = Some (Inr (l, g'))"
  shows "ok_or_hyphae (latest_claims H E g' q)
    (\<lambda>cs'. cs' = (if (lr_relation req = Supersedes \<or> lr_relation req = Recants)
          \<and> sint (lr_effective_at_ms req) \<le> sint (pq_valid_at_ms q)
          \<and> sint (lr_recorded_at_ms req) \<le> sint (pq_known_at_ms q)
        then filter (\<lambda>c. cl_id c \<noteq> lr_original req) cs else cs))"
proof -
  obtain c where c: "get_claim H E g (lr_original req) (lr_scope req) = Some (Inr (Some c))"
    and put: "put_link H E g req = Some (Inr (l, g'))"
    using assms(8) by (rule supersede_run)
  from put assms(5) faithful_storeD(2) [OF assms(1,2)] obtain s where
    l: "l = link_of_request (env_b3_raw E) (env_uuid_text E) req"
    and s: "hy_put H (en_store g) (link_to_record l) = Inr s" and g': "g' = g\<lparr>en_store := s\<rparr>"
    unfolding put_link_def Let_def by (fastforce simp: m_bind_Inr split: option.splits)
  obtain ls all where ls: "claim_supersessions H E g (lr_scope req) = Some (Inr ls)"
    and all: "claims_at H E g q = Some (Inr all)"
    and cs: "cs = filter (\<lambda>c. \<not> list_ex (retired_by q c) ls) all"
    using assms(6,7) unfolding latest_claims_def by (auto simp: m_bind_Inr)
  have dec: "link_from_record (env_uuid_ok E) (link_to_record l) = Inr l"
    unfolding l by (rule decodes_link [OF assms(3,4)])
  have vis: "get_claim H E g (ln_original l) (lr_scope req) = Some (Inr (Some c))" using c l by simp
  have new: "lookup_doc (rows (en_store g)) (link_key (ln_id l)) = None" using assms(5) l by simp
  have links: "ok_or_hyphae (claim_supersessions H E g' (pq_scope q)) (\<lambda>ls'. set ls' = insert l (set ls))"
    unfolding g' assms(7) by (rule supersessions_after [OF ls assms(1,2) new dec vis s])
  have "similar_stores H valid rows rest claim_docs (en_store g) (en_store g')"
    using put_link_similar [OF assms(1,2) s] g' by simp
  then have "agree (claims_at H E g q) (claims_at H E g' q)" by (rule agree_claims_at) (simp add: g')
  from agree_value [OF this all] have claims: "ok_or_hyphae (claims_at H E g' q) (\<lambda>xs. xs = all)" .
  have heads: "filter (\<lambda>c. \<not> list_ex (retired_by q c) ls') all = filter (\<lambda>c. \<not> retired_by q c l) cs"
    if "set ls' = insert l (set ls)" for ls'
    using that by (auto simp: cs list_ex_iff intro!: filter_cong)
  have "retires_original (lr_relation req) \<longleftrightarrow> lr_relation req = Supersedes \<or> lr_relation req = Recants"
    by (cases "lr_relation req") simp_all
  then have retired: "filter (\<lambda>c. \<not> retired_by q c l) cs
      = (if (lr_relation req = Supersedes \<or> lr_relation req = Recants)
          \<and> sint (lr_effective_at_ms req) \<le> sint (pq_valid_at_ms q)
          \<and> sint (lr_recorded_at_ms req) \<le> sint (pq_known_at_ms q)
        then filter (\<lambda>c. cl_id c \<noteq> lr_original req) cs else cs)"
    by (auto simp: retired_by_def l intro!: filter_cong)
  show ?thesis
    unfolding latest_claims_def retired [symmetric]
    by (rule ok_or_hyphae_bind [OF links], rule ok_or_hyphae_bind [OF claims]) (simp add: heads)
qed

section \<open>Contradictions\<close>

text \<open>What a contradiction says of two claims.\<close>

definition reports :: "contradiction \<Rightarrow> claim \<Rightarrow> claim \<Rightarrow> bool" where
  "reports ct l r \<longleftrightarrow>
     ct_left ct = cl_id l \<and> ct_right ct = cl_id r
     \<and> cl_subject l = cl_subject r \<and> cl_predicate l = cl_predicate r \<and> cl_value l \<noteq> cl_value r
     \<and> (\<forall>t. valid_at l t \<and> valid_at r t \<longleftrightarrow>
          (case ct_from_ms ct of None \<Rightarrow> True | Some a \<Rightarrow> sint a \<le> sint t)
          \<and> (case ct_to_ms ct of None \<Rightarrow> True | Some b \<Rightarrow> sint t < sint b))"

lemma conflicting_pair_reports: "conflicting_pair l r = Some ct \<Longrightarrow> reports ct l r"
  using valid_overlap [OF refl refl, where l = l and r = r]
  by (auto simp: conflicting_pair_def reports_def validity_overlap_def Let_def split: if_splits option.splits)

lemma conflicting_pair_complete:
  assumes "cl_subject l = cl_subject r" and "cl_predicate l = cl_predicate r" and "cl_value l \<noteq> cl_value r"
    and "valid_at l t" and "valid_at r t"
  shows "conflicting_pair l r \<noteq> None"
proof -
  have "\<not> empty_interval (later (cl_valid_from_ms l) (cl_valid_from_ms r))
      (earlier (cl_valid_to_ms l) (cl_valid_to_ms r))"
    using valid_overlap [OF refl refl, where l = l and r = r and t = t] assms(4,5) by (auto simp: empty_interval_def split: option.splits)
  with assms(1-3) show ?thesis by (simp add: conflicting_pair_def validity_overlap_def Let_def)
qed

lemma set_map_filter: "set (List.map_filter f xs) = {y. \<exists>x\<in>set xs. f x = Some y}"
  by (induction xs) (auto simp: map_filter_simps split: option.splits)

lemma contradictions_in_iff:
  "ct \<in> set (contradictions_in cs) \<longleftrightarrow> (\<exists>j<length cs. \<exists>i<j. conflicting_pair (cs ! i) (cs ! j) = Some ct)"
proof (induction cs)
  case (Cons c cs)
  have "(\<exists>j<length (c # cs). \<exists>i<j. conflicting_pair ((c # cs) ! i) ((c # cs) ! j) = Some ct)
    \<longleftrightarrow> (\<exists>j<length cs. \<exists>i<Suc j. conflicting_pair ((c # cs) ! i) (cs ! j) = Some ct)"
    unfolding list.size add_0_right add_Suc_right Ex_less_Suc2 by simp
  also have "\<dots> \<longleftrightarrow> (\<exists>j<length cs. conflicting_pair c (cs ! j) = Some ct)
      \<or> (\<exists>j<length cs. \<exists>i<j. conflicting_pair (cs ! i) (cs ! j) = Some ct)"
    unfolding Ex_less_Suc2 by auto
  finally have split: "(\<exists>j<length (c # cs). \<exists>i<j. conflicting_pair ((c # cs) ! i) ((c # cs) ! j) = Some ct)
    \<longleftrightarrow> (\<exists>j<length cs. conflicting_pair c (cs ! j) = Some ct)
      \<or> (\<exists>j<length cs. \<exists>i<j. conflicting_pair (cs ! i) (cs ! j) = Some ct)" .
  have "(\<exists>x\<in>set cs. conflicting_pair c x = Some ct) \<longleftrightarrow> (\<exists>j<length cs. conflicting_pair c (cs ! j) = Some ct)"
    by (metis in_set_conv_nth)
  then show ?case unfolding split by (simp add: Cons.IH set_map_filter)
qed simp

lemma contradictions_in_exact:
  "(\<forall>ct\<in>set (contradictions_in cs). \<exists>j<length cs. \<exists>i<j. reports ct (cs ! i) (cs ! j))
   \<and> (\<forall>j<length cs. \<forall>i<j.
        cl_subject (cs ! i) = cl_subject (cs ! j) \<and> cl_predicate (cs ! i) = cl_predicate (cs ! j)
        \<and> cl_value (cs ! i) \<noteq> cl_value (cs ! j) \<and> (\<exists>t. valid_at (cs ! i) t \<and> valid_at (cs ! j) t)
      \<longrightarrow> (\<exists>ct\<in>set (contradictions_in cs). reports ct (cs ! i) (cs ! j)))"
proof (intro conjI allI ballI impI)
  fix ct
  assume "ct \<in> set (contradictions_in cs)"
  then show "\<exists>j<length cs. \<exists>i<j. reports ct (cs ! i) (cs ! j)"
    unfolding contradictions_in_iff using conflicting_pair_reports by blast
next
  fix j i
  assume ij: "j < length cs" "i < j"
    and c: "cl_subject (cs ! i) = cl_subject (cs ! j) \<and> cl_predicate (cs ! i) = cl_predicate (cs ! j)
        \<and> cl_value (cs ! i) \<noteq> cl_value (cs ! j) \<and> (\<exists>t. valid_at (cs ! i) t \<and> valid_at (cs ! j) t)"
  then obtain ct where "conflicting_pair (cs ! i) (cs ! j) = Some ct"
    using conflicting_pair_complete by blast
  with ij show "\<exists>ct\<in>set (contradictions_in cs). reports ct (cs ! i) (cs ! j)"
    unfolding Bex_def contradictions_in_iff using conflicting_pair_reports by blast
qed

text \<open>
  What a scope sees of the documents of the store, read off the documents alone. A claim is readable when
  the document under its key is a claim of the scope, an event is forgotten when its marker is there and
  in the scope, evidence counts while its claim is readable and its event is not forgotten, and a claim is
  seen when it is stored, in the scope, and has evidence.
\<close>

definition readable_claim :: "rust_env \<Rightarrow> doc list \<Rightarrow> recall_scope \<Rightarrow> string \<Rightarrow> bool" where
  "readable_claim E ds sc i \<longleftrightarrow>
     (case lookup_doc ds (claim_key i) of None \<Rightarrow> False
      | Some d \<Rightarrow> (case claim_from_record (env_uuid_ok E) d of Inl _ \<Rightarrow> False
          | Inr c \<Rightarrow> recall_scope_visible_to (cl_scope c) sc))"

definition forgotten_event :: "rust_env \<Rightarrow> doc list \<Rightarrow> recall_scope \<Rightarrow> string \<Rightarrow> bool" where
  "forgotten_event E ds sc i \<longleftrightarrow>
     (case lookup_doc ds (forgotten_key i) of None \<Rightarrow> False
      | Some d \<Rightarrow> (case forgotten_from_record (env_uuid_ok E) d of Inl _ \<Rightarrow> False
          | Inr f \<Rightarrow> ingestion_scope_visible_to (fg_scope f) sc))"

definition seen_evidence :: "rust_env \<Rightarrow> doc list \<Rightarrow> recall_scope \<Rightarrow> string \<Rightarrow> claim_evidence \<Rightarrow> bool" where
  "seen_evidence E ds sc i ev \<longleftrightarrow> readable_claim E ds sc i
     \<and> (\<exists>d\<in>set ds. has_prefix (claim_evidence_prefix i) d \<and> evidence_from_record (env_uuid_ok E) d = Inr ev)
     \<and> \<not> forgotten_event E ds sc (ev_event_id ev)"

definition seen_claim :: "rust_env \<Rightarrow> doc list \<Rightarrow> recall_scope \<Rightarrow> claim \<Rightarrow> bool" where
  "seen_claim E ds sc c \<longleftrightarrow>
     (\<exists>d\<in>set ds. has_prefix claim_prefix d \<and> claim_from_record (env_uuid_ok E) d = Inr c)
     \<and> recall_scope_visible_to (cl_scope c) sc \<and> (\<exists>ev. seen_evidence E ds sc (cl_id c) ev)"

definition seen_link :: "rust_env \<Rightarrow> doc list \<Rightarrow> recall_scope \<Rightarrow> claim_link \<Rightarrow> bool" where
  "seen_link E ds sc l \<longleftrightarrow>
     (\<exists>d\<in>set ds. has_prefix link_prefix d \<and> link_from_record (env_uuid_ok E) d = Inr l)
     \<and> readable_claim E ds sc (ln_original l)"

lemma get_claim_readable:
  fixes H :: "('s, 'c, 'e) hyphae"
  assumes "faithful_store H valid rows rest" and "valid (en_store g)"
    and "get_claim H E g i sc = Some (Inr found)"
  shows "found \<noteq> None \<longleftrightarrow> readable_claim E (rows (en_store g)) sc i"
proof -
  from assms(3) obtain got where get: "hy_get H (en_store g) (claim_key i) = Inr got"
    and tl: "(case got of None \<Rightarrow> m_return None
     | Some rec \<Rightarrow> m_bind (from_claim (claim_from_record (env_uuid_ok E) rec)) (\<lambda>c.
         m_return (if claim_visible_to c sc then Some c else None))) = (Some (Inr found) :: ('e, claim option) outcome)"
    unfolding get_claim_def m_bind_Inr from_store_Inr by blast
  have "lookup_doc (rows (en_store g)) (claim_key i) = got"
    using faithful_storeD(2) [OF assms(1,2) get] by simp
  with tl show ?thesis
    by (cases got) (auto simp: readable_claim_def m_bind_Inr claim_visible_to_def split: if_splits)
qed

lemma is_forgotten_event:
  fixes H :: "('s, 'c, 'e) hyphae"
  assumes "faithful_store H valid rows rest" and "valid s" and "is_forgotten H E s i sc = Some (Inr b)"
  shows "b \<longleftrightarrow> forgotten_event E (rows s) sc i"
proof -
  from assms(3) obtain got where get: "hy_get H s (forgotten_key i) = Inr got"
    and tl: "(case got of None \<Rightarrow> m_return False
     | Some rec \<Rightarrow> m_bind (from_derived (forgotten_from_record (env_uuid_ok E) rec)) (\<lambda>f.
         m_return (ingestion_scope_visible_to (fg_scope f) sc))) = (Some (Inr b) :: ('e, bool) outcome)"
    unfolding is_forgotten_def m_bind_Inr from_store_Inr by blast
  have "lookup_doc (rows s) (forgotten_key i) = got" using faithful_storeD(2) [OF assms(1,2) get] by simp
  with tl show ?thesis by (cases got) (auto simp: forgotten_event_def m_bind_Inr)
qed

lemma active_evidence_seen:
  fixes H :: "('s, 'c, 'e) hyphae"
  assumes "faithful_store H valid rows rest" and "valid (en_store g)"
    and "active_claim_evidence H E g i sc = Some (Inr es)"
  shows "set es = {ev. seen_evidence E (rows (en_store g)) sc i ev}"
proof -
  let ?ds = "rows (en_store g)"
  obtain evs where evs: "claim_evidence_of H E g i sc = Some (Inr evs)"
    and f: "filter_m (\<lambda>e. m_bind (is_forgotten H E (en_store g) (ev_event_id e) sc) (\<lambda>b. m_return (\<not> b))) evs
      = Some (Inr es)" using assms(3) by (auto simp: active_claim_evidence_def m_bind_Inr)
  have es: "ev \<in> set es \<longleftrightarrow> ev \<in> set evs \<and> \<not> forgotten_event E ?ds sc (ev_event_id ev)" for ev
  proof -
    have "b \<longleftrightarrow> forgotten_event E ?ds sc (ev_event_id ev)"
      if "is_forgotten H E (en_store g) (ev_event_id ev) sc = Some (Inr b)" for b
      using is_forgotten_event [OF assms(1,2) that] .
    with filter_m_Inr [OF f] show ?thesis by (auto simp: m_bind_Inr) metis
  qed
  from evs obtain found where found: "get_claim H E g i sc = Some (Inr found)"
    and tl: "(if found = None then m_return []
       else m_bind (from_scan (scan_prefix H (en_store g) (claim_evidence_prefix i))) (\<lambda>recs.
         from_claim (r_collect (evidence_from_record (env_uuid_ok E)) recs))) = Some (Inr evs)"
    by (auto simp: claim_evidence_of_def m_bind_Inr)
  have "ev \<in> set evs \<longleftrightarrow> readable_claim E ?ds sc i
      \<and> (\<exists>d\<in>set ?ds. has_prefix (claim_evidence_prefix i) d \<and> evidence_from_record (env_uuid_ok E) d = Inr ev)" for ev
  proof (cases "found = None")
    case True
    with tl get_claim_readable [OF assms(1,2) found] show ?thesis by simp
  next
    case False
    with tl have "r_collect (evidence_from_record (env_uuid_ok E))
        (filter (has_prefix (claim_evidence_prefix i)) ?ds) = Inr evs"
      using scan_prefix_Inr [OF assms(1,2)] by (auto simp: m_bind_Inr)
    from r_collect_set [OF this] False get_claim_readable [OF assms(1,2) found] show ?thesis by auto
  qed
  with es show ?thesis by (auto simp: seen_evidence_def)
qed

lemma visible_claims_seen:
  fixes H :: "('s, 'c, 'e) hyphae"
  assumes "faithful_store H valid rows rest" and "valid (en_store g)" and "visible_claims H E g sc = Some (Inr cs)"
  shows "set cs = {c. seen_claim E (rows (en_store g)) sc c}"
proof -
  let ?ds = "rows (en_store g)"
  let ?keep = "\<lambda>c. if \<not> claim_visible_to c sc then m_return False
      else m_bind (active_claim_evidence H E g (cl_id c) sc) (\<lambda>es. m_return (es \<noteq> []))"
  obtain all where all: "r_collect (claim_from_record (env_uuid_ok E)) (filter (has_prefix claim_prefix) ?ds) = Inr all"
    and cs: "filter_m ?keep all = Some (Inr cs)"
    using assms(3) scan_prefix_Inr [OF assms(1,2)] by (auto simp: visible_claims_def m_bind_Inr)
  have keep: "?keep c = Some (Inr True) \<longleftrightarrow>
      recall_scope_visible_to (cl_scope c) sc \<and> (\<exists>ev. seen_evidence E ?ds sc (cl_id c) ev)"
    if ok: "\<exists>b. ?keep c = Some (Inr b)" for c
  proof (cases "claim_visible_to c sc")
    case True
    with ok obtain es where es: "active_claim_evidence H E g (cl_id c) sc = Some (Inr es)" by (auto simp: m_bind_Inr)
    have "es \<noteq> [] \<longleftrightarrow> (\<exists>ev. seen_evidence E ?ds sc (cl_id c) ev)"
      using active_evidence_seen [OF assms(1,2) es] by (cases es) auto
    with True es show ?thesis by (simp add: claim_visible_to_def)
  qed (simp add: claim_visible_to_def)
  have "c \<in> set cs \<longleftrightarrow> c \<in> set all \<and> ?keep c = Some (Inr True)" for c
    using filter_m_Inr [OF cs] by simp
  moreover have "c \<in> set all \<longleftrightarrow> (\<exists>d\<in>set ?ds. has_prefix claim_prefix d \<and> claim_from_record (env_uuid_ok E) d = Inr c)"
    for c using r_collect_set [OF all] by auto
  ultimately show ?thesis
    using keep conjunct2 [OF filter_m_Inr [OF cs]] unfolding seen_claim_def by blast
qed

lemma supersessions_seen:
  fixes H :: "('s, 'c, 'e) hyphae"
  assumes "faithful_store H valid rows rest" and "valid (en_store g)"
    and "claim_supersessions H E g sc = Some (Inr ls)"
  shows "set ls = {l. seen_link E (rows (en_store g)) sc l}"
proof -
  let ?ds = "rows (en_store g)"
  let ?keep = "\<lambda>l. m_bind (get_claim H E g (ln_original l) sc) (\<lambda>found. m_return (found \<noteq> None))"
  obtain all where all: "r_collect (link_from_record (env_uuid_ok E)) (filter (has_prefix link_prefix) ?ds) = Inr all"
    and ls: "filter_m ?keep all = Some (Inr ls)"
    using assms(3) scan_prefix_Inr [OF assms(1,2)] by (auto simp: claim_supersessions_def m_bind_Inr)
  have keep: "?keep l = Some (Inr True) \<longleftrightarrow> readable_claim E ?ds sc (ln_original l)"
    if "\<exists>b. ?keep l = Some (Inr b)" for l
    using that get_claim_readable [OF assms(1,2), of E "ln_original l" sc] by (auto simp: m_bind_Inr)
  have "l \<in> set ls \<longleftrightarrow> l \<in> set all \<and> ?keep l = Some (Inr True)" for l using filter_m_Inr [OF ls] by simp
  moreover have "l \<in> set all \<longleftrightarrow> (\<exists>d\<in>set ?ds. has_prefix link_prefix d \<and> link_from_record (env_uuid_ok E) d = Inr l)"
    for l using r_collect_set [OF all] by auto
  ultimately show ?thesis
    using keep conjunct2 [OF filter_m_Inr [OF ls]] unfolding seen_link_def by blast
qed

text \<open>
  C35. Contradiction detection is exact. What is reported for a scope is about the claims the scope sees:
  stored, its own, with evidence that is not forgotten. Every contradiction names two of them
  with the same subject and predicate and different values, and its interval is exactly the set of
  instants at which both are valid; and of any two such claims that are valid together at some instant
  one is reported against the other. A claim with a half-open interval that ends where the other begins is
  no conflict.
\<close>

theorem contradictions_exact:
  fixes H :: "('s, 'c, 'e) hyphae"
  assumes "faithful_store H valid rows rest" and "valid (en_store g)"
    and "claim_contradictions H E g sc = Some (Inr cts)"
  shows "(\<forall>ct\<in>set cts. \<exists>l r. seen_claim E (rows (en_store g)) sc l \<and> seen_claim E (rows (en_store g)) sc r \<and> reports ct l r)
    \<and> (\<forall>l r. seen_claim E (rows (en_store g)) sc l \<and> seen_claim E (rows (en_store g)) sc r
          \<and> cl_subject l = cl_subject r \<and> cl_predicate l = cl_predicate r \<and> cl_value l \<noteq> cl_value r
          \<and> (\<exists>t. valid_at l t \<and> valid_at r t)
        \<longrightarrow> (\<exists>ct\<in>set cts. reports ct l r \<or> reports ct r l))"
proof -
  from assms(3) obtain cs where cs: "visible_claims H E g sc = Some (Inr cs)" and cts: "cts = contradictions_in cs"
    by (auto simp: claim_contradictions_def m_bind_Inr)
  note seen = visible_claims_seen [OF assms(1,2) cs]
  note exact = contradictions_in_exact [of cs, folded cts]
  show ?thesis
  proof (intro conjI ballI allI impI)
    fix ct
    assume "ct \<in> set cts"
    with conjunct1 [OF exact] obtain i j where "j < length cs" "i < j" "reports ct (cs ! i) (cs ! j)" by blast
    then show "\<exists>l r. seen_claim E (rows (en_store g)) sc l \<and> seen_claim E (rows (en_store g)) sc r \<and> reports ct l r"
      using seen by (metis mem_Collect_eq nth_mem order_less_trans)
  next
    fix l r
    assume both: "seen_claim E (rows (en_store g)) sc l \<and> seen_claim E (rows (en_store g)) sc r
          \<and> cl_subject l = cl_subject r \<and> cl_predicate l = cl_predicate r \<and> cl_value l \<noteq> cl_value r
          \<and> (\<exists>t. valid_at l t \<and> valid_at r t)"
    then obtain i j where i: "i < length cs" "cs ! i = l" and j: "j < length cs" "cs ! j = r"
      using seen by (metis in_set_conv_nth mem_Collect_eq)
    then have "i \<noteq> j" using both by auto
    then consider "i < j" | "j < i" by linarith
    then show "\<exists>ct\<in>set cts. reports ct l r \<or> reports ct r l"
    proof cases
      case 1
      with both i j show ?thesis using conjunct2 [OF exact] by blast
    next
      case 2
      with both i j show ?thesis using conjunct2 [OF exact] by metis
    qed
  qed
qed

definition example_claim :: "string \<Rightarrow> string \<Rightarrow> i64 option \<Rightarrow> i64 option \<Rightarrow> claim" where
  "example_claim i v a b =
     \<lparr>cl_id = i, cl_scope = \<lparr>rs_tenant_id = ''local'', rs_user_id = ''local'', rs_project_id = None,
        rs_conversation_id = None, rs_session_id = None\<rparr>,
      cl_subject = ''ana'', cl_predicate = ''lives_in'', cl_value = v, cl_confidence_nanos = 1000000000,
      cl_valid_from_ms = a, cl_valid_to_ms = b, cl_recorded_at_ms = 1, cl_evidence_count = 1\<rparr>"

end
