(* ===== verification/Temporal.thy ===== *)
theory Temporal
  imports Claim_Claims
begin

text \<open>
  \<open>temporal.rs\<close>: the bounded grammar of relative times in English and Spanish, and the semantic
  difference of two claim snapshots, with \<open>claim_snapshot\<close> of \<open>engine.rs\<close>.
\<close>

section \<open>Integers in text\<close>

fun digits_value :: "nat \<Rightarrow> string \<Rightarrow> nat option" where
  "digits_value acc [] = Some acc"
| "digits_value acc (c # cs) = (if is_digit_char c then digits_value (10 * acc + (of_char c - 48)) cs else None)"

text \<open>\<open>str::parse::<i64>\<close>: an optional sign, at least one digit, and a value in range.\<close>

definition in_i64 :: "int \<Rightarrow> i64 option" where
  "in_i64 k = (if - (2 ^ 63) \<le> k \<and> k < 2 ^ 63 then Some (word_of_int k) else None)"

definition parse_digits :: "string \<Rightarrow> nat option" where
  "parse_digits s = (if s = [] then None else digits_value 0 s)"

definition parse_i64 :: "string \<Rightarrow> i64 option" where
  "parse_i64 s = (case s of
     CHR ''-'' # ds \<Rightarrow> Option.bind (parse_digits ds) (\<lambda>n. in_i64 (- int n))
   | CHR ''+'' # ds \<Rightarrow> Option.bind (parse_digits ds) (\<lambda>n. in_i64 (int n))
   | _ \<Rightarrow> Option.bind (parse_digits s) (\<lambda>n. in_i64 (int n)))"

section \<open>Relative times\<close>

datatype time_basis = Utc | FixedOffsetMinutes i32 | Iana string

datatype temporal_precision = Instant | Day | Week | Month | Unknown

record resolved_time =
  rt_start_ms :: i64
  rt_end_ms :: i64
  rt_precision :: temporal_precision
  rt_basis :: time_basis
  rt_confidence_nanos :: i64
  rt_expression :: string

definition day_ms :: i64 where
  "day_ms = 86400000"

definition confidence_scale :: i64 where
  "confidence_scale = 1000000000"

definition i64_saturating_mul :: "i64 \<Rightarrow> i64 \<Rightarrow> i64" where
  "i64_saturating_mul a b = saturate_i64 (sint a * sint b)"

definition ago_parts :: "string list \<Rightarrow> (i64 \<times> string) option" where
  "ago_parts parts = (case parts of
     [a, b, c] \<Rightarrow>
       if c = ''ago'' then map_option (\<lambda>n. (n, b)) (parse_i64 a)
       else if a = ''hace'' then map_option (\<lambda>n. (n, c)) (parse_i64 b)
       else None
   | _ \<Rightarrow> None)"

definition day_units :: "string list" where
  "day_units = [''day'', ''days'', ''d'' @ [CHR 0xC3, CHR 0xAD] @ ''a'', ''d'' @ [CHR 0xC3, CHR 0xAD] @ ''as'',
     ''dia'', ''dias'']"

definition parse_ago_duration :: "string \<Rightarrow> (i64 \<times> temporal_precision \<times> i64) option" where
  "parse_ago_duration s =
     Option.bind (ago_parts (split_whitespace s)) (\<lambda>(amount, unit).
       if sint amount \<le> 0 then None
       else if unit \<in> set day_units then Some (i64_saturating_mul amount day_ms, Day, confidence_scale)
       else if unit \<in> set [''week'', ''weeks'', ''semana'', ''semanas'']
       then Some (i64_saturating_mul amount (7 * day_ms), Week, confidence_scale)
       else if unit \<in> set [''month'', ''months'', ''mes'', ''meses'']
       then Some (i64_saturating_mul amount (30 * day_ms), Month, 800000000)
       else None)"

definition relative_duration :: "string \<Rightarrow> (i64 \<times> temporal_precision \<times> i64) option" where
  "relative_duration s =
     (if s = ''yesterday'' \<or> s = ''ayer'' then Some (day_ms, Day, confidence_scale)
      else if s = ''last week'' \<or> s = ''la semana pasada'' then Some (7 * day_ms, Week, confidence_scale)
      else if s = ''last month'' \<or> s = ''el mes pasado'' then Some (30 * day_ms, Month, 800000000)
      else if s = ''recently'' \<or> s = ''recientemente'' then Some (7 * day_ms, Unknown, 300000000)
      else parse_ago_duration s)"

text \<open>\<open>low\<close> is \<open>str::to_lowercase\<close>.\<close>

definition parse_relative_time ::
  "(string \<Rightarrow> string) \<Rightarrow> string \<Rightarrow> i64 \<Rightarrow> time_basis \<Rightarrow> resolved_time option" where
  "parse_relative_time low expression reference basis =
     map_option (\<lambda>(duration, prec, confidence).
       \<lparr>rt_start_ms = i64_saturating_sub reference duration, rt_end_ms = reference, rt_precision = prec,
        rt_basis = basis, rt_confidence_nanos = confidence, rt_expression = expression\<rparr>)
       (relative_duration (low (trim expression)))"

section \<open>Snapshots of claims\<close>

record snapshot_entry =
  sn_claim :: claim
  sn_evidence :: "string list"

record claim_snapshot =
  cs_valid_at_ms :: i64
  cs_known_at_ms :: i64
  cs_entries :: "snapshot_entry list"

text \<open>\<open>sort\<close> then \<open>dedup\<close>.\<close>

definition snapshot_entry_of :: "claim \<Rightarrow> claim_evidence list \<Rightarrow> snapshot_entry" where
  "snapshot_entry_of c es = \<lparr>sn_claim = c, sn_evidence = remdups_adj (sort (map ev_event_id es))\<rparr>"

definition claim_snapshot_at ::
  "('s, 'c, 'e) hyphae \<Rightarrow> rust_env \<Rightarrow> 's engine \<Rightarrow> property_query \<Rightarrow> ('e, claim_snapshot) outcome" where
  "claim_snapshot_at H E g q =
     m_bind (latest_claims H E g q) (\<lambda>cs.
     m_bind (collect_m (\<lambda>c. m_bind (active_claim_evidence H E g (cl_id c) (pq_scope q))
         (\<lambda>es. m_return (snapshot_entry_of c es))) cs) (\<lambda>entries.
       m_return \<lparr>cs_valid_at_ms = pq_valid_at_ms q, cs_known_at_ms = pq_known_at_ms q,
         cs_entries = entries\<rparr>))"

datatype diff_kind = Added | Removed | ValueChanged | EvidenceAdded | EvidenceRemoved

record claim_change =
  cg_kind :: diff_kind
  cg_subject :: string
  cg_predicate :: string
  cg_old_value :: "string option"
  cg_new_value :: "string option"
  cg_old_claim :: "string option"
  cg_new_claim :: "string option"

definition change :: "diff_kind \<Rightarrow> string \<times> string \<Rightarrow> snapshot_entry option \<Rightarrow> snapshot_entry option \<Rightarrow> claim_change" where
  "change kind p before after =
     \<lparr>cg_kind = kind, cg_subject = fst p, cg_predicate = snd p,
      cg_old_value = map_option (cl_value \<circ> sn_claim) before, cg_new_value = map_option (cl_value \<circ> sn_claim) after,
      cg_old_claim = map_option (cl_id \<circ> sn_claim) before, cg_new_claim = map_option (cl_id \<circ> sn_claim) after\<rparr>"

definition diff_evidence :: "string \<times> string \<Rightarrow> snapshot_entry \<Rightarrow> snapshot_entry \<Rightarrow> claim_change list" where
  "diff_evidence p b a =
     (if list_ex (\<lambda>i. i \<notin> set (sn_evidence b)) (sn_evidence a) then [change EvidenceAdded p (Some b) (Some a)] else [])
     @ (if list_ex (\<lambda>i. i \<notin> set (sn_evidence a)) (sn_evidence b) then [change EvidenceRemoved p (Some b) (Some a)]
        else [])"

definition diff_property ::
  "string \<times> string \<Rightarrow> snapshot_entry option \<Rightarrow> snapshot_entry option \<Rightarrow> claim_change list" where
  "diff_property p before after = (case (before, after) of
     (Some b, Some a) \<Rightarrow>
       if cl_value (sn_claim b) \<noteq> cl_value (sn_claim a) then [change ValueChanged p (Some b) (Some a)]
       else diff_evidence p b a
   | (Some b, None) \<Rightarrow> [change Removed p (Some b) None]
   | (None, Some a) \<Rightarrow> [change Added p None (Some a)]
   | (None, None) \<Rightarrow> [])"

definition entry_property :: "snapshot_entry \<Rightarrow> string \<times> string" where
  "entry_property e = (cl_subject (sn_claim e), cl_predicate (sn_claim e))"

text \<open>\<open>collect\<close> into a map: the last entry of a property stays.\<close>

definition property_map :: "snapshot_entry list \<Rightarrow> (string \<times> string) \<rightharpoonup> snapshot_entry" where
  "property_map es = fold (\<lambda>e m. m(entry_property e \<mapsto> e)) es Map.empty"

definition diff_properties :: "snapshot_entry list \<Rightarrow> snapshot_entry list \<Rightarrow> (string \<times> string) list" where
  "diff_properties before after = remdups (sort (map entry_property before @ map entry_property after))"

definition snapshot_diff :: "claim_snapshot \<Rightarrow> claim_snapshot \<Rightarrow> claim_change list" where
  "snapshot_diff before after =
     concat (map (\<lambda>p. diff_property p (property_map (cs_entries before) p) (property_map (cs_entries after) p))
       (diff_properties (cs_entries before) (cs_entries after)))"

section \<open>Intervals\<close>

lemma sint_word_in_range: "- (2 ^ 63) \<le> k \<Longrightarrow> k < 2 ^ 63 \<Longrightarrow> sint (word_of_int k :: i64) = k"
  by (simp add: sint_sbintrunc' signed_take_bit_int_eq_self)

lemma sint_saturate: "sint (saturate_i64 k) = max (- (2 ^ 63)) (min (2 ^ 63 - 1) k)"
proof -
  consider "k < - (2 ^ 63)" | "2 ^ 63 \<le> k" | "- (2 ^ 63) \<le> k" "k < 2 ^ 63" by linarith
  then show ?thesis
  proof cases
    case 3
    then show ?thesis by (simp add: saturate_i64_def sint_word_in_range)
  qed (simp_all add: saturate_i64_def i64_max_def i64_min_def)
qed

lemma saturating_mul_positive: "0 < sint a \<Longrightarrow> 0 < sint b \<Longrightarrow> 0 < sint (i64_saturating_mul a b)"
  using mult_pos_pos [of "sint a" "sint b"] by (simp add: i64_saturating_mul_def sint_saturate less_max_iff_disj)

lemma ago_positive:
  assumes "parse_ago_duration s = Some (d, p, c)"
  shows "0 < sint d \<and> 0 < sint c \<and> sint c \<le> 1000000000"
proof -
  obtain amount unit where parts: "ago_parts (split_whitespace s) = Some (amount, unit)"
    using assms by (auto simp: parse_ago_duration_def Option.bind_eq_Some_conv)
  have "0 < sint amount" using assms by (auto simp: parse_ago_duration_def parts split: if_splits)
  then have "0 < sint (i64_saturating_mul amount day_ms)" "0 < sint (i64_saturating_mul amount (7 * day_ms))"
    "0 < sint (i64_saturating_mul amount (30 * day_ms))"
    by (intro saturating_mul_positive; simp add: day_ms_def)+
  with assms show ?thesis
    unfolding parse_ago_duration_def parts by (auto simp: confidence_scale_def split: if_splits)
qed

lemma duration_positive:
  assumes "relative_duration s = Some (d, p, c)"
  shows "0 < sint d \<and> 0 < sint c \<and> sint c \<le> 1000000000"
proof (cases "relative_duration s = parse_ago_duration s")
  case True
  with assms show ?thesis by (intro ago_positive) simp
next
  case False
  then show ?thesis using assms
    by (auto simp: relative_duration_def day_ms_def confidence_scale_def split: if_splits)
qed

text \<open>
  A relative expression resolves to a non-empty past interval that ends at the reference instant,
  or starts at the smallest instant there is; its length is the stated duration unless it saturates,
  its confidence lies in (0, 1], and the expression and time basis are kept as given.
\<close>

theorem relative_time_bounds:
  assumes "parse_relative_time low expression reference basis = Some r"
  shows "rt_end_ms r = reference \<and> rt_expression r = expression \<and> rt_basis r = basis
    \<and> 0 < sint (rt_confidence_nanos r) \<and> sint (rt_confidence_nanos r) \<le> 1000000000
    \<and> (\<exists>d p c. relative_duration (low (trim expression)) = Some (d, p, c) \<and> 0 < sint d
        \<and> sint (rt_start_ms r) = max (- (2 ^ 63)) (sint reference - sint d))
    \<and> (sint (rt_start_ms r) < sint reference \<or> sint reference = - (2 ^ 63))"
proof -
  obtain d p c where dur: "relative_duration (low (trim expression)) = Some (d, p, c)"
    and r: "r = \<lparr>rt_start_ms = i64_saturating_sub reference d, rt_end_ms = reference, rt_precision = p,
        rt_basis = basis, rt_confidence_nanos = c, rt_expression = expression\<rparr>"
    using assms by (auto simp: parse_relative_time_def)
  note pos = duration_positive [OF dur]
  have range: "- (2 ^ 63) \<le> sint reference" "sint reference < 2 ^ 63"
    using sint_range_size [of reference] by (simp_all add: word_size)
  have start: "sint (i64_saturating_sub reference d) = max (- (2 ^ 63)) (sint reference - sint d)"
    using pos range by (simp add: i64_saturating_sub_def sint_saturate min_def)
  show ?thesis using dur pos range start unfolding r by (auto simp: max_def)
qed

theorem relative_time_bounds_witness:
  "\<exists>r. parse_relative_time id ''2 weeks ago'' 2000000000 Utc = Some r
     \<and> sint (rt_start_ms r) < 2000000000"
proof -
  have "relative_duration (id (trim ''2 weeks ago'')) = Some (1209600000, Week, confidence_scale)"
    by code_simp
  then obtain r where r: "parse_relative_time id ''2 weeks ago'' 2000000000 Utc = Some r"
    by (simp add: parse_relative_time_def)
  from relative_time_bounds [OF r] have "sint (rt_start_ms r) < 2000000000" by auto
  with r show ?thesis by blast
qed

section \<open>Differences\<close>

lemma property_map_snoc: "property_map (es @ [e]) = (property_map es)(entry_property e \<mapsto> e)"
  by (simp add: property_map_def)

lemma property_map_Some: "property_map es p = Some e \<Longrightarrow> e \<in> set es \<and> entry_property e = p"
  by (induction es rule: rev_induct) (auto simp: property_map_snoc split: if_splits, simp add: property_map_def)

lemma property_map_None: "property_map es p = None \<longleftrightarrow> p \<notin> entry_property ` set es"
  by (induction es rule: rev_induct) (auto simp: property_map_snoc, simp add: property_map_def)

lemma property_map_append: "property_map (xs @ ys) = property_map xs ++ property_map ys"
proof (induction ys rule: rev_induct)
  case Nil
  then show ?case by (simp add: property_map_def)
next
  case (snoc y ys)
  then show ?case
    unfolding append_assoc [symmetric] property_map_snoc by (simp only: snoc map_add_upd)
qed

lemma diff_property_refl: "diff_property p e e = []"
  by (simp add: diff_property_def diff_evidence_def list_ex_iff split: option.split)

lemma diff_property_empty:
  "diff_property p b a = [] \<longleftrightarrow> (case (b, a) of
     (None, None) \<Rightarrow> True
   | (Some x, Some y) \<Rightarrow> cl_value (sn_claim x) = cl_value (sn_claim y) \<and> set (sn_evidence x) = set (sn_evidence y)
   | _ \<Rightarrow> False)"
  by (auto simp: diff_property_def diff_evidence_def list_ex_iff split: option.split)

text \<open>
  What there is to report between two lists of entries, said of the entries themselves: a property that is on
  one side only, one whose value differs, and one with the same value whose evidence grew or shrank.
\<close>

definition about_entries :: "claim_change \<Rightarrow> snapshot_entry option \<Rightarrow> snapshot_entry option \<Rightarrow> bool" where
  "about_entries c b a \<longleftrightarrow>
     (\<forall>e. b = Some e \<or> a = Some e \<longrightarrow> entry_property e = (cg_subject c, cg_predicate c))
     \<and> cg_old_value c = map_option (cl_value \<circ> sn_claim) b \<and> cg_new_value c = map_option (cl_value \<circ> sn_claim) a
     \<and> cg_old_claim c = map_option (cl_id \<circ> sn_claim) b \<and> cg_new_claim c = map_option (cl_id \<circ> sn_claim) a"

definition entries_differ :: "diff_kind \<Rightarrow> snapshot_entry \<Rightarrow> snapshot_entry \<Rightarrow> bool" where
  "entries_differ k b a \<longleftrightarrow> entry_property b = entry_property a
     \<and> (if cl_value (sn_claim b) \<noteq> cl_value (sn_claim a) then k = ValueChanged
        else k = EvidenceAdded \<and> \<not> set (sn_evidence a) \<subseteq> set (sn_evidence b)
          \<or> k = EvidenceRemoved \<and> \<not> set (sn_evidence b) \<subseteq> set (sn_evidence a))"

definition real_change :: "snapshot_entry list \<Rightarrow> snapshot_entry list \<Rightarrow> claim_change \<Rightarrow> bool" where
  "real_change bs as c \<longleftrightarrow>
     (\<exists>b\<in>set bs. cg_kind c = Removed \<and> entry_property b \<notin> entry_property ` set as \<and> about_entries c (Some b) None)
     \<or> (\<exists>a\<in>set as. cg_kind c = Added \<and> entry_property a \<notin> entry_property ` set bs \<and> about_entries c None (Some a))
     \<or> (\<exists>b\<in>set bs. \<exists>a\<in>set as. entries_differ (cg_kind c) b a \<and> about_entries c (Some b) (Some a))"

lemma change_about:
  "c = change k p b a \<and> (\<forall>e. b = Some e \<or> a = Some e \<longrightarrow> entry_property e = p) \<and> (b \<noteq> None \<or> a \<noteq> None)
   \<longleftrightarrow> cg_kind c = k \<and> p = (cg_subject c, cg_predicate c) \<and> about_entries c b a \<and> (b \<noteq> None \<or> a \<noteq> None)"
  unfolding change_def about_entries_def by (cases c; cases p) auto

lemma property_map_single:
  assumes "distinct (map entry_property es)"
  shows "property_map es p = Some e \<longleftrightarrow> e \<in> set es \<and> entry_property e = p"
proof
  assume e: "e \<in> set es \<and> entry_property e = p"
  then obtain x where x: "property_map es p = Some x" using property_map_None [of es p] by force
  then have "x \<in> set es" "entry_property x = p" using property_map_Some by blast+
  with e assms have "x = e" by (metis distinct_map inj_onD)
  with x show "property_map es p = Some e" by simp
qed (rule property_map_Some)

lemma diff_property_member:
  "c \<in> set (diff_property p b a) \<longleftrightarrow>
     (\<exists>x y. b = Some x \<and> a = Some y
        \<and> (cl_value (sn_claim x) \<noteq> cl_value (sn_claim y) \<and> c = change ValueChanged p b a
           \<or> cl_value (sn_claim x) = cl_value (sn_claim y)
             \<and> (\<not> set (sn_evidence y) \<subseteq> set (sn_evidence x) \<and> c = change EvidenceAdded p b a
                \<or> \<not> set (sn_evidence x) \<subseteq> set (sn_evidence y) \<and> c = change EvidenceRemoved p b a)))
     \<or> (\<exists>x. b = Some x \<and> a = None \<and> c = change Removed p b a)
     \<or> (\<exists>y. b = None \<and> a = Some y \<and> c = change Added p b a)"
  by (cases b; cases a) (auto simp: diff_property_def diff_evidence_def list_ex_iff)

lemma snapshot_diff_member:
  "c \<in> set (snapshot_diff before after) \<longleftrightarrow>
     (\<exists>p. c \<in> set (diff_property p (property_map (cs_entries before) p) (property_map (cs_entries after) p)))"
proof -
  have "p \<in> set (diff_properties (cs_entries before) (cs_entries after))"
    if "c \<in> set (diff_property p (property_map (cs_entries before) p) (property_map (cs_entries after) p))" for p
  proof (rule ccontr)
    assume "p \<notin> set (diff_properties (cs_entries before) (cs_entries after))"
    then have "property_map (cs_entries before) p = None" "property_map (cs_entries after) p = None"
      by (auto simp: property_map_None diff_properties_def)
    with that show False by (simp add: diff_property_def)
  qed
  then show ?thesis by (auto simp: snapshot_diff_def)
qed

lemma change_kind [simp]: "cg_kind (change k p b a) = k" "cg_subject (change k p b a) = fst p"
  "cg_predicate (change k p b a) = snd p"
  by (simp_all add: change_def)

lemma distinct_snapshot_diff: "distinct (snapshot_diff before after)"
proof -
  let ?f = "\<lambda>p. diff_property p (property_map (cs_entries before) p) (property_map (cs_entries after) p)"
  have one: "distinct (diff_property p b a)" for p b a
  proof -
    have "change EvidenceAdded p (Some x) (Some y) \<noteq> change EvidenceRemoved p (Some x) (Some y)" for x y
      by (metis change_kind(1) diff_kind.distinct(19))
    then show ?thesis by (cases b; cases a) (auto simp: diff_property_def diff_evidence_def)
  qed
  have own: "c \<in> set (diff_property p b a) \<Longrightarrow> (cg_subject c, cg_predicate c) = p" for c p b a
    by (auto simp: diff_property_member)
  have "distinct (concat (map ?f ps))" if "distinct ps" for ps
    using that
  proof (induction ps)
    case (Cons p ps)
    have "set (?f p) \<inter> set (concat (map ?f ps)) = {}"
    proof (rule ccontr)
      assume "set (?f p) \<inter> set (concat (map ?f ps)) \<noteq> {}"
      then obtain c q where c: "c \<in> set (?f p)" "q \<in> set ps" "c \<in> set (?f q)" by auto
      have "p = q" using own [OF c(1)] own [OF c(3)] by (rule trans [OF sym])
      with c(2) Cons.prems show False by simp
    qed
    with Cons one show ?case by simp
  qed simp
  then show ?thesis by (simp add: snapshot_diff_def diff_properties_def)
qed

lemma listed_changes_real:
  assumes "distinct (map entry_property (cs_entries before))" and "distinct (map entry_property (cs_entries after))"
    and "c \<in> set (snapshot_diff before after)"
  shows "real_change (cs_entries before) (cs_entries after) c"
proof -
  let ?bs = "cs_entries before" and ?as = "cs_entries after"
  note bs = property_map_single [OF assms(1)] and as = property_map_single [OF assms(2)]
  have none: "property_map es p = None \<longleftrightarrow> p \<notin> entry_property ` set es" for es p by (rule property_map_None)
  from assms(3) obtain p where "c \<in> set (diff_property p (property_map ?bs p) (property_map ?as p))"
    unfolding snapshot_diff_member by blast
  then consider (both) x y k where "property_map ?bs p = Some x" "property_map ?as p = Some y"
      "c = change k p (Some x) (Some y)" "entry_property x = entry_property y \<longrightarrow> entries_differ k x y"
    | (gone) x where "property_map ?bs p = Some x" "property_map ?as p = None" "c = change Removed p (Some x) None"
    | (fresh) y where "property_map ?bs p = None" "property_map ?as p = Some y" "c = change Added p None (Some y)"
    unfolding diff_property_member entries_differ_def by fastforce
  then show ?thesis
  proof cases
    case both
    then have x: "x \<in> set ?bs" "entry_property x = p" and y: "y \<in> set ?as" "entry_property y = p" by (auto simp: bs as)
    then have "about_entries c (Some x) (Some y) \<and> cg_kind c = k"
      using change_about [of c k p "Some x" "Some y"] both(3) by auto
    with x y both(4) show ?thesis unfolding real_change_def by metis
  next
    case gone
    then have x: "x \<in> set ?bs" "entry_property x = p" "p \<notin> entry_property ` set ?as" by (auto simp: bs none)
    then have "about_entries c (Some x) None \<and> cg_kind c = Removed"
      using change_about [of c Removed p "Some x" None] gone(3) by auto
    with x show ?thesis unfolding real_change_def by blast
  next
    case fresh
    then have y: "y \<in> set ?as" "entry_property y = p" "p \<notin> entry_property ` set ?bs" by (auto simp: as none)
    then have "about_entries c None (Some y) \<and> cg_kind c = Added"
      using change_about [of c Added p None "Some y"] fresh(3) by auto
    with y show ?thesis unfolding real_change_def by blast
  qed
qed

lemma real_changes_listed:
  assumes "distinct (map entry_property (cs_entries before))" and "distinct (map entry_property (cs_entries after))"
    and "real_change (cs_entries before) (cs_entries after) c"
  shows "c \<in> set (snapshot_diff before after)"
proof -
  let ?bs = "cs_entries before" and ?as = "cs_entries after"
  note bs = property_map_single [OF assms(1)] and as = property_map_single [OF assms(2)]
  have none: "property_map es p = None \<longleftrightarrow> p \<notin> entry_property ` set es" for es p by (rule property_map_None)
  from assms(3) consider (gone) b where "b \<in> set ?bs" "cg_kind c = Removed" "entry_property b \<notin> entry_property ` set ?as"
      "about_entries c (Some b) None"
    | (fresh) a where "a \<in> set ?as" "cg_kind c = Added" "entry_property a \<notin> entry_property ` set ?bs"
      "about_entries c None (Some a)"
    | (both) b a where "b \<in> set ?bs" "a \<in> set ?as" "entries_differ (cg_kind c) b a" "about_entries c (Some b) (Some a)"
    unfolding real_change_def by blast
  then show ?thesis
    unfolding snapshot_diff_member
  proof cases
    case gone
    then have "property_map ?bs (entry_property b) = Some b" "property_map ?as (entry_property b) = None"
      by (simp_all add: bs none)
    moreover have "c = change Removed (entry_property b) (Some b) None"
      using change_about [of c Removed "entry_property b" "Some b" None] gone(2,4) by (auto simp: about_entries_def)
    ultimately show "\<exists>p. c \<in> set (diff_property p (property_map ?bs p) (property_map ?as p))"
      by (intro exI [of _ "entry_property b"]) (simp add: diff_property_member)
  next
    case fresh
    then have "property_map ?as (entry_property a) = Some a" "property_map ?bs (entry_property a) = None"
      by (simp_all add: as none)
    moreover have "c = change Added (entry_property a) None (Some a)"
      using change_about [of c Added "entry_property a" None "Some a"] fresh(2,4) by (auto simp: about_entries_def)
    ultimately show "\<exists>p. c \<in> set (diff_property p (property_map ?bs p) (property_map ?as p))"
      by (intro exI [of _ "entry_property a"]) (simp add: diff_property_member)
  next
    case both
    then have p: "entry_property b = entry_property a" by (simp add: entries_differ_def)
    then have "property_map ?bs (entry_property a) = Some b" "property_map ?as (entry_property a) = Some a"
      using both(1,2) by (simp_all add: bs as)
    moreover have "c = change (cg_kind c) (entry_property a) (Some b) (Some a)"
      using change_about [of c "cg_kind c" "entry_property a" "Some b" "Some a"] both(4) p
      by (auto simp: about_entries_def)
    ultimately show "\<exists>p. c \<in> set (diff_property p (property_map ?bs p) (property_map ?as p))"
      using both(3) by (intro exI [of _ "entry_property a"])
        (simp add: diff_property_member entries_differ_def split: if_splits, metis)
  qed
qed

text \<open>
  C36. The difference of two snapshots in which no property has two heads is exact: its changes are those
  there really are, each listed once, with the property, the values and the claims of both sides: a
  property that is on one side only is added or removed, one whose value differs has changed its value, and
  one with the same value has evidence added or removed exactly when its evidence grew or shrank.
\<close>

theorem diff_exact_for_single_heads:
  assumes "distinct (map entry_property (cs_entries before))" and "distinct (map entry_property (cs_entries after))"
  shows "set (snapshot_diff before after) = {c. real_change (cs_entries before) (cs_entries after) c}
    \<and> distinct (snapshot_diff before after)"
  using listed_changes_real [OF assms] real_changes_listed [OF assms] distinct_snapshot_diff by blast

text \<open>
  The difference does not see every unresolved conflict. A snapshot keeps all the heads of a
  property, but the comparison keeps only the last of them, so a head that disappears while a later
  entry of the same property stays is not reported at all.
\<close>

theorem diff_misses_retired_conflict:
  assumes "cs_entries before = xs @ e # ys" and "cs_entries after = xs @ ys"
    and "entry_property e \<in> entry_property ` set ys"
  shows "snapshot_diff before after = []"
proof -
  have "property_map (e # ys) = property_map ys"
    using property_map_append [of "[e]" ys] assms(3) property_map_None [of ys "entry_property e"]
    by (auto simp: property_map_def map_add_def fun_eq_iff split: option.splits)
  then have "property_map (cs_entries before) = property_map (cs_entries after)"
    unfolding assms(1,2) property_map_append by simp
  then show ?thesis by (simp add: snapshot_diff_def diff_property_refl)
qed

section \<open>Examples\<close>

definition home_entry :: "string \<Rightarrow> string \<Rightarrow> snapshot_entry" where
  "home_entry i v = snapshot_entry_of (example_claim i v None None) []"

definition home_snapshot :: "snapshot_entry list \<Rightarrow> claim_snapshot" where
  "home_snapshot es = \<lparr>cs_valid_at_ms = 0, cs_known_at_ms = 0, cs_entries = es\<rparr>"

lemma home_entry_simps [simp]:
  "entry_property (home_entry i v) = (''ana'', ''lives_in'')" "cl_value (sn_claim (home_entry i v)) = v"
  "cl_id (sn_claim (home_entry i v)) = i"
  "cs_entries (home_snapshot es) = es"
  by (simp_all add: home_entry_def snapshot_entry_of_def entry_property_def example_claim_def home_snapshot_def)

theorem diff_exact_for_single_heads_witness:
  "set (snapshot_diff (home_snapshot [home_entry ''a'' ''Madrid'']) (home_snapshot [home_entry ''b'' ''Oslo'']))
   = {\<lparr>cg_kind = ValueChanged, cg_subject = ''ana'', cg_predicate = ''lives_in'', cg_old_value = Some ''Madrid'',
       cg_new_value = Some ''Oslo'', cg_old_claim = Some ''a'', cg_new_claim = Some ''b''\<rparr>}"
proof -
  have "real_change [home_entry ''a'' ''Madrid''] [home_entry ''b'' ''Oslo''] c \<longleftrightarrow>
    c = \<lparr>cg_kind = ValueChanged, cg_subject = ''ana'', cg_predicate = ''lives_in'', cg_old_value = Some ''Madrid'',
       cg_new_value = Some ''Oslo'', cg_old_claim = Some ''a'', cg_new_claim = Some ''b''\<rparr>" for c :: claim_change
    by (cases c) (auto simp: real_change_def entries_differ_def about_entries_def)
  then show ?thesis
    using diff_exact_for_single_heads [of "home_snapshot [home_entry ''a'' ''Madrid'']" "home_snapshot [home_entry ''b'' ''Oslo'']"]
    by auto
qed

theorem diff_misses_retired_conflict_witness:
  "snapshot_diff (home_snapshot [home_entry ''a'' ''Madrid'', home_entry ''b'' ''Oslo''])
     (home_snapshot [home_entry ''b'' ''Oslo'']) = []"
  by (rule diff_misses_retired_conflict [where xs = "[]" and e = "home_entry ''a'' ''Madrid''"
        and ys = "[home_entry ''b'' ''Oslo'']"]) simp_all

end
