(* ===== verification/Claim_Creation.thy ===== *)
theory Claim_Creation
  imports Claim_Claims Remember_Example
begin

text \<open>
  \<open>create_claim\<close>: a new claim can be read back, and rests on events its owner can see; its evidence
  links are keyed by event and relation only, so a claim may hold fewer links than it counts.
\<close>

section \<open>Writing several documents\<close>

lemma keys_upsert: "doc_key ` set (upsert d ds) = insert (doc_key d) (doc_key ` set ds)"
  by (induction ds) auto

lemma keys_fold: "doc_key ` set (fold upsert ds rs) = doc_key ` set ds \<union> doc_key ` set rs"
  by (induction ds arbitrary: rs) (simp_all add: keys_upsert)

lemma lookup_fold_other:
  "key_sorted rs \<Longrightarrow> k \<notin> doc_key ` set ds \<Longrightarrow> lookup_doc (fold upsert ds rs) k = lookup_doc rs k"
  by (induction ds arbitrary: rs) (auto simp: lookup_upsert key_sorted_upsert)

lemma set_fold_subset: "set (fold upsert ds rs) \<subseteq> set ds \<union> set rs"
  by (induction ds arbitrary: rs) (use set_upsert in fastforce)+

lemma r_collect_length: "r_collect f xs = Inr ys \<Longrightarrow> length ys = length xs"
  by (metis r_collect_Inr_iff list_all2_lengthD)

lemma card_image_less:
  assumes "i < j" and "j < length xs" and "f (xs ! i) = f (xs ! j)"
  shows "card (f ` set xs) < length xs"
proof -
  have "i < length xs" "i \<noteq> j" using assms(1,2) by simp_all
  then have "\<not> distinct (map f xs)" using assms(2,3) by (auto simp: distinct_conv_nth)
  then have "card (set (map f xs)) \<noteq> length (map f xs)" using card_distinct by blast
  then show ?thesis using card_length [of "map f xs"] by simp
qed

section \<open>The documents of a claim\<close>

definition evidence_docs :: "string \<Rightarrow> claim_request \<Rightarrow> doc list" where
  "evidence_docs i req =
     map (\<lambda>ev. evidence_to_record (evidence_of_input i ev (cr_recorded_at_ms req))) (cr_evidence req)"

lemma evidence_doc_prefix: "d \<in> set (evidence_docs i req) \<Longrightarrow> prefix (claim_evidence_prefix i) (doc_key d)"
  by (auto simp: evidence_docs_def evidence_to_record_def evidence_of_input_def)

lemma create_claim_run:
  fixes H :: "('s, 'c, 'e) hyphae"
  assumes "create_claim H O' E g req = Some (Inr (c, g'))"
  shows "rs_tenant_id (cr_scope req) = en_tenant g"
    and "c = claim_of_request (env_b3_raw E) (env_uuid_text E) req"
    and "\<exists>us. collect_m (check_evidence H E g (cr_scope req)) (cr_evidence req) = Some (Inr us)"
    and "get_claim H E g (cl_id c) (cr_scope req) = Some (Inr (Some c)) \<and> g' = g
      \<or> get_claim H E g (cl_id c) (cr_scope req) = Some (Inr None)
        \<and> (\<exists>s. op_put_records O' (en_store g) (claim_to_record c # evidence_docs (cl_id c) req) = Inr s
             \<and> g' = g\<lparr>en_store := s\<rparr>)"
proof -
  let ?c = "claim_of_request (env_b3_raw E) (env_uuid_text E) req"
  obtain u us found where
    ten: "(require_tenant (en_tenant g) (rs_tenant_id (cr_scope req)) :: ('e, unit) outcome) = Some (Inr u)"
    and us: "collect_m (check_evidence H E g (cr_scope req)) (cr_evidence req) = Some (Inr us)"
    and found: "get_claim H E g (cl_id ?c) (cr_scope req) = Some (Inr found)"
    and out: "(case found of
          Some existing \<Rightarrow> if existing \<noteq> ?c then m_fail (ClaimConflict (cl_id ?c)) else m_return (existing, g)
        | None \<Rightarrow> m_bind (from_store (op_put_records O' (en_store g)
              (claim_to_record ?c # evidence_docs (cl_id ?c) req))) (\<lambda>s. m_return (?c, g\<lparr>en_store := s\<rparr>)))
      = Some (Inr (c, g'))"
    using assms unfolding create_claim_def Let_def m_bind_Inr evidence_docs_def by blast
  show "rs_tenant_id (cr_scope req) = en_tenant g" using ten by (auto simp: require_tenant_def split: if_splits)
  show c: "c = ?c" using out by (cases found) (auto simp: m_bind_Inr split: if_splits)
  show "\<exists>us. collect_m (check_evidence H E g (cr_scope req)) (cr_evidence req) = Some (Inr us)" using us by blast
  show "get_claim H E g (cl_id c) (cr_scope req) = Some (Inr (Some c)) \<and> g' = g
      \<or> get_claim H E g (cl_id c) (cr_scope req) = Some (Inr None)
        \<and> (\<exists>s. op_put_records O' (en_store g) (claim_to_record c # evidence_docs (cl_id c) req) = Inr s
             \<and> g' = g\<lparr>en_store := s\<rparr>)"
    using out found unfolding c by (cases found) (auto simp: m_bind_Inr split: if_splits)
qed

lemma collect_m_each:
  "collect_m f xs = Some (Inr ys) \<Longrightarrow> x \<in> set xs \<Longrightarrow> \<exists>y. f x = Some (Inr y)"
  by (induction xs arbitrary: ys) (auto simp: m_bind_Inr)

lemma create_claim_evidence:
  fixes H :: "('s, 'c, 'e) hyphae"
  assumes "create_claim H O' E g req = Some (Inr (c, g'))" and "ev \<in> set (cr_evidence req)"
  shows "\<exists>e. get_ingestion H E (en_tenant g) (en_store g) (ei_event_id ev) (cr_scope req) = Some (Inr (Some e))
      \<and> (case ei_excerpt ev of None \<Rightarrow> True | Some x \<Rightarrow> contains (ie_content e) x)"
    and "is_forgotten H E (en_store g) (ei_event_id ev) (cr_scope req) = Some (Inr False)"
proof -
  obtain us where "collect_m (check_evidence H E g (cr_scope req)) (cr_evidence req) = Some (Inr us)"
    using create_claim_run(3) [OF assms(1)] by blast
  from collect_m_each [OF this assms(2)] obtain u where
    "check_evidence H E g (cr_scope req) ev = Some (Inr u)" by blast
  then show "\<exists>e. get_ingestion H E (en_tenant g) (en_store g) (ei_event_id ev) (cr_scope req) = Some (Inr (Some e))
      \<and> (case ei_excerpt ev of None \<Rightarrow> True | Some x \<Rightarrow> contains (ie_content e) x)"
    and "is_forgotten H E (en_store g) (ei_event_id ev) (cr_scope req) = Some (Inr False)"
    unfolding check_evidence_def by (auto simp: m_bind_Inr split: if_splits option.splits)
qed

lemma small_count: "length xs < 2 ^ 63 \<Longrightarrow> u64_sat (word_of_nat (length xs)) = word_of_nat (length xs)"
  by (simp add: u64_sat_def unsigned_of_nat take_bit_nat_eq_self)

lemma stored_claim:
  fixes H :: "('s, 'c, 'e) hyphae"
  assumes "faithful_store H valid rows rest" and "faithful_ops H O' valid rows vecs" and "valid (en_store g)"
    and "create_claim H O' E g req = Some (Inr (c, g'))"
    and "wf_scope (cr_scope req)" and "env_uuid_ok E (cl_id c)" and "length (cr_evidence req) < 2 ^ 63"
  shows "valid (en_store g') \<and> en_tenant g' = en_tenant g
    \<and> ok_or_hyphae (get_claim H E g' (cl_id c) (cr_scope req)) (\<lambda>r. r = Some c)"
proof -
  note run = create_claim_run [OF assms(4)]
  have ten: "(require_tenant (en_tenant g) (rs_tenant_id (cr_scope req)) :: ('e, unit) outcome) = m_return ()"
    using run(1) by (simp add: require_tenant_def)
  have fields: "cl_scope c = cr_scope req" "cl_evidence_count c = word_of_nat (length (cr_evidence req))"
    unfolding run(2) by (simp_all add: claim_of_request_def)
  then have dec: "claim_from_record (env_uuid_ok E) (claim_to_record c) = Inr c"
    using assms(5-7) claim_roundtrip [of c "env_uuid_ok E"] small_count [of "cr_evidence req"] by simp
  from run(4) consider "get_claim H E g (cl_id c) (cr_scope req) = Some (Inr (Some c))" "g' = g"
    | s where "op_put_records O' (en_store g) (claim_to_record c # evidence_docs (cl_id c) req) = Inr s"
      "g' = g\<lparr>en_store := s\<rparr>" by blast
  then show ?thesis
  proof cases
    case 1
    with assms(3) show ?thesis by (simp add: ok_or_hyphae_def)
  next
    case (2 s)
    note put = 2(1) and g' = 2(2)
    note s = faithful_opsD(2) [OF assms(2,3) put]
    have "claim_key (cl_id c) \<notin> doc_key ` set (evidence_docs (cl_id c) req)"
    proof
      assume "claim_key (cl_id c) \<in> doc_key ` set (evidence_docs (cl_id c) req)"
      then obtain d where "d \<in> set (evidence_docs (cl_id c) req)" "doc_key d = claim_key (cl_id c)" by auto
      with evidence_prefixes [OF evidence_doc_prefix] have "prefix evidence_prefix (claim_key (cl_id c))" by metis
      then show False by (simp add: claim_key_def claim_prefix_def evidence_prefix_def)
    qed
    then have look: "lookup_doc (rows s) (claim_key (cl_id c)) = Some (claim_to_record c)"
      using s faithful_storeD(1) [OF assms(1,3)]
      by (simp add: lookup_fold_other key_sorted_upsert lookup_upsert claim_to_record_def)
    have get: "ok_or_hyphae (from_store (hy_get H s (claim_key (cl_id c)))) (\<lambda>x. x = Some (claim_to_record c))"
      using ok_from_get [OF assms(1) conjunct1 [OF s], of "claim_key (cl_id c)"] unfolding look .
    have g'_fields: "en_store g' = s" "en_tenant g' = en_tenant g" using g' by simp_all
    have "ok_or_hyphae (get_claim H E g' (cl_id c) (cr_scope req)) (\<lambda>r. r = Some c)"
      unfolding get_claim_def g'_fields ten m_simps(1)
      by (rule ok_or_hyphae_bind [OF _ _, where P = "\<lambda>x. x = Some (claim_to_record c)"])
        (use get in \<open>simp_all add: dec from_claim_def claim_visible_to_def recall_scope_visible_to_def fields\<close>)
    with s g' show ?thesis by simp
  qed
qed

lemma keyed_prefix_count:
  assumes "key_sorted ds" and "\<And>d. d \<in> set xs \<Longrightarrow> prefix p (doc_key d)"
    and "doc_key ` set ds = doc_key ` set xs \<union> K" and "\<And>k. k \<in> K \<Longrightarrow> \<not> prefix p k"
  shows "length (filter (has_prefix p) ds) = card (doc_key ` set xs)"
proof -
  have "{k \<in> doc_key ` set ds. prefix p k} = doc_key ` set xs" unfolding assms(3) using assms(2,4) by auto
  moreover have "doc_key ` set (filter (has_prefix p) ds) = {k \<in> doc_key ` set ds. prefix p k}"
    by (auto simp: has_prefix_def)
  moreover have "distinct (map doc_key (filter (has_prefix p) ds))"
    using key_sorted_distinct [OF key_sorted_filter [OF assms(1)]] .
  ultimately show ?thesis by (metis distinct_card length_map set_map)
qed

lemma evidence_doc_decodes:
  assumes "env_uuid_ok E i" and "d \<in> set (evidence_docs i req)"
    and "\<And>ev. ev \<in> set (cr_evidence req) \<Longrightarrow> env_uuid_ok E (ei_event_id ev)"
  shows "\<exists>e. evidence_from_record (env_uuid_ok E) d = Inr e"
proof -
  obtain ev where ev: "ev \<in> set (cr_evidence req)"
    and d: "d = evidence_to_record (evidence_of_input i ev (cr_recorded_at_ms req))"
    using assms(2) by (auto simp: evidence_docs_def)
  have "evidence_from_record (env_uuid_ok E) d = Inr (evidence_of_input i ev (cr_recorded_at_ms req))"
    unfolding d using assms(1,3) ev by (intro evidence_roundtrip) (simp_all add: evidence_of_input_def)
  then show ?thesis by blast
qed

lemma stored_evidence:
  fixes H :: "('s, 'c, 'e) hyphae"
  assumes st: "faithful_store H valid rows rest" "faithful_ops H O' valid rows vecs" "valid (en_store g)"
    and run: "create_claim H O' E g req = Some (Inr (c, g'))"
    and wf: "wf_scope (cr_scope req)" "env_uuid_ok E (cl_id c)" "length (cr_evidence req) < 2 ^ 63"
    and ids: "\<And>ev. ev \<in> set (cr_evidence req) \<Longrightarrow> env_uuid_ok E (ei_event_id ev)"
    and new: "get_claim H E g (cl_id c) (cr_scope req) = Some (Inr None)"
    and none: "filter (has_prefix (claim_evidence_prefix (cl_id c))) (rows (en_store g)) = []"
  shows "ok_or_hyphae (claim_evidence_of H E g' (cl_id c) (cr_scope req))
    (\<lambda>es. length es = card (doc_key ` set (evidence_docs (cl_id c) req)))"
proof -
  let ?p = "claim_evidence_prefix (cl_id c)" and ?ds = "evidence_docs (cl_id c) req"
  obtain s where put: "op_put_records O' (en_store g) (claim_to_record c # ?ds) = Inr s"
    and g': "g' = g\<lparr>en_store := s\<rparr>"
    using create_claim_run(4) [OF run] new by auto
  note s = faithful_opsD(2) [OF st(2,3) put]
  have claim: "\<not> prefix ?p (claim_key (cl_id c))"
    by (auto simp: claim_evidence_prefix_def evidence_prefix_def claim_key_def claim_prefix_def)
  have sorted: "key_sorted (rows (en_store g'))"
    using faithful_storeD(1) [OF st(1) conjunct1 [OF s]] unfolding g' by simp
  have keys: "doc_key ` set (rows (en_store g'))
      = doc_key ` set ?ds \<union> insert (claim_key (cl_id c)) (doc_key ` set (rows (en_store g)))"
    using s g' by (simp add: keys_fold keys_upsert claim_to_record_def)
  have other: "\<not> prefix ?p k" if "k \<in> insert (claim_key (cl_id c)) (doc_key ` set (rows (en_store g)))" for k
    using that claim none by (auto simp: filter_empty_conv has_prefix_def)
  have len: "length (filter (has_prefix ?p) (rows (en_store g'))) = card (doc_key ` set ?ds)"
    by (rule keyed_prefix_count [OF sorted evidence_doc_prefix keys other])
  have "d \<in> set ?ds" if "d \<in> set (rows (en_store g'))" "has_prefix ?p d" for d
  proof -
    have "d \<in> set (claim_to_record c # ?ds) \<union> set (rows (en_store g))"
      using that(1) s g' set_fold_subset [of "claim_to_record c # ?ds" "rows (en_store g)"] by auto
    with that(2) claim none show ?thesis
      by (auto simp: filter_empty_conv has_prefix_def claim_to_record_def)
  qed
  then have "\<exists>es. r_collect (evidence_from_record (env_uuid_ok E)) (filter (has_prefix ?p) (rows (en_store g'))) = Inr es"
    using evidence_doc_decodes [OF wf(2) _ ids] by (intro r_collect_total) auto
  then obtain es where es: "r_collect (evidence_from_record (env_uuid_ok E))
      (filter (has_prefix ?p) (rows (en_store g'))) = Inr es" by blast
  have cl: "valid (en_store g') \<and> en_tenant g' = en_tenant g
      \<and> ok_or_hyphae (get_claim H E g' (cl_id c) (cr_scope req)) (\<lambda>r. r = Some c)"
    by (rule stored_claim [OF st run wf])
  show ?thesis
    unfolding claim_evidence_of_def
  proof (rule ok_or_hyphae_bind [where P = "\<lambda>r. r = Some c"])
    show "ok_or_hyphae (if found = None then m_return []
        else m_bind (from_scan (scan_prefix H (en_store g') ?p))
          (\<lambda>recs. from_claim (r_collect (evidence_from_record (env_uuid_ok E)) recs)))
      (\<lambda>es. length es = card (doc_key ` set ?ds))" if "found = Some c" for found
      unfolding that
      by (simp only: option.distinct(2) if_False not_False_eq_True, rule ok_or_hyphae_bind [OF scan_ok [OF st(1) conjunct1 [OF cl]]])
        (simp add: es from_claim_def r_collect_length [OF es] len)
  qed (use cl in simp)
qed

text \<open>What is stored under the key of an evidence link is a link for the same event and relation.\<close>

lemma lookup_fold_member:
  "key_sorted rs \<Longrightarrow> k \<in> doc_key ` set ds \<Longrightarrow> \<exists>d\<in>set ds. doc_key d = k \<and> lookup_doc (fold upsert ds rs) k = Some d"
proof (induction ds arbitrary: rs)
  case (Cons d ds)
  note sorted = key_sorted_upsert [OF Cons.prems(1), of d]
  show ?case
  proof (cases "k \<in> doc_key ` set ds")
    case True
    from Cons.IH [OF sorted True] show ?thesis by auto
  next
    case False
    with Cons.prems have k: "doc_key d = k" by auto
    have "lookup_doc (fold upsert ds (upsert d rs)) k = lookup_doc (upsert d rs) k"
      by (rule lookup_fold_other [OF sorted False])
    then show ?thesis using k lookup_upsert [OF Cons.prems(1)] by auto
  qed
qed simp

lemma split_at_last:
  assumes "xs @ c # r = ys @ c # r'" and "c \<notin> set r" and "c \<notin> set r'"
  shows "xs = ys \<and> r = r'"
proof -
  have last: "takeWhile (\<lambda>x. x \<noteq> c) (rev (zs @ c # q)) = rev q" if "c \<notin> set q" for zs q
  proof -
    have "takeWhile (\<lambda>x. x \<noteq> c) (rev q @ c # rev zs) = rev q @ takeWhile (\<lambda>x. x \<noteq> c) (c # rev zs)"
      using that by (intro takeWhile_append2) auto
    then show ?thesis by simp
  qed
  have "rev r = rev r'" using last [OF assms(2), of xs] last [OF assms(3), of ys] unfolding assms(1) by metis
  then have "r = r'" by simp
  with assms(1) show ?thesis by simp
qed

lemma evidence_key_inj:
  assumes "doc_key (evidence_to_record e) = doc_key (evidence_to_record e')" and "ev_claim_id e = ev_claim_id e'"
  shows "ev_event_id e = ev_event_id e' \<and> ev_relation e = ev_relation e'"
proof -
  have no: "CHR ''-'' \<notin> set (evidence_relation_str x)" for x by (cases x) simp_all
  have "ev_event_id e @ CHR ''-'' # evidence_relation_str (ev_relation e)
      = ev_event_id e' @ CHR ''-'' # evidence_relation_str (ev_relation e')"
    using assms by (simp add: evidence_to_record_def)
  from split_at_last [OF this no no] show ?thesis by (metis evidence_relation.of_to_name option.inject)
qed

text \<open>
  The stored excerpt is the one the request quotes from the event under this relation. A request may cite an
  event twice under one relation; the two share a document, which keeps one of the excerpts.
\<close>

definition quoted_for :: "claim_request \<Rightarrow> evidence_input \<Rightarrow> claim_evidence \<Rightarrow> bool" where
  "quoted_for req ev e \<longleftrightarrow> (\<exists>ev'\<in>set (cr_evidence req). ei_event_id ev' = ei_event_id ev
     \<and> ei_relation ev' = ei_relation ev \<and> ev_excerpt e = ei_excerpt ev')"

lemma created_evidence:
  fixes H :: "('s, 'c, 'e) hyphae"
  assumes st: "faithful_store H valid rows rest" "faithful_ops H O' valid rows vecs" "valid (en_store g)"
    and run: "create_claim H O' E g req = Some (Inr (c, g'))"
    and ids: "env_uuid_ok E (cl_id c)" "env_uuid_ok E (ei_event_id ev)"
    and new: "get_claim H E g (cl_id c) (cr_scope req) = Some (Inr None)" and ev: "ev \<in> set (cr_evidence req)"
  shows "\<exists>d\<in>set (rows (en_store g')). \<exists>e. has_prefix (claim_evidence_prefix (cl_id c)) d
    \<and> evidence_from_record (env_uuid_ok E) d = Inr e \<and> ev_claim_id e = cl_id c
    \<and> ev_event_id e = ei_event_id ev \<and> ev_relation e = ei_relation ev
    \<and> ev_recorded_at_ms e = cr_recorded_at_ms req \<and> quoted_for req ev e"
proof -
  let ?rec = "\<lambda>ev. evidence_to_record (evidence_of_input (cl_id c) ev (cr_recorded_at_ms req))"
  let ?ds = "evidence_docs (cl_id c) req"
  obtain s where put: "op_put_records O' (en_store g) (claim_to_record c # ?ds) = Inr s"
    and g': "g' = g\<lparr>en_store := s\<rparr>"
    using create_claim_run(4) [OF run] new by auto
  note s = faithful_opsD(2) [OF st(2,3) put]
  note sorted = key_sorted_upsert [OF faithful_storeD(1) [OF st(1,3)], of "claim_to_record c"]
  have "doc_key (?rec ev) \<in> doc_key ` set ?ds" using ev by (auto simp: evidence_docs_def)
  from lookup_fold_member [OF sorted this] s obtain d where d: "d \<in> set ?ds" "doc_key d = doc_key (?rec ev)"
    and look: "lookup_doc (rows s) (doc_key (?rec ev)) = Some d" by auto
  from d(1) obtain ev' where ev': "d = ?rec ev'" and ev'_in: "ev' \<in> set (cr_evidence req)" by (auto simp: evidence_docs_def)
  let ?e = "evidence_of_input (cl_id c) ev' (cr_recorded_at_ms req)"
  have same: "ei_event_id ev' = ei_event_id ev \<and> ei_relation ev' = ei_relation ev"
    using evidence_key_inj [of ?e "evidence_of_input (cl_id c) ev (cr_recorded_at_ms req)"] d(2)
    unfolding ev' by (simp add: evidence_of_input_def)
  have "evidence_from_record (env_uuid_ok E) d = Inr ?e"
    unfolding ev' using ids same by (intro evidence_roundtrip) (simp_all add: evidence_of_input_def)
  moreover have "has_prefix (claim_evidence_prefix (cl_id c)) d"
    using evidence_doc_prefix [OF d(1)] by (simp add: has_prefix_def)
  moreover have "d \<in> set (rows (en_store g'))" using lookup_doc_Some [OF look] by (simp add: g')
  moreover have "quoted_for req ev ?e" using same ev'_in by (auto simp: evidence_of_input_def quoted_for_def)
  ultimately show ?thesis using same by (intro bexI [of _ d] exI [of _ ?e]) (simp_all add: evidence_of_input_def)
qed

text \<open>
  C21. A claim rests on evidence its owner can see, and is stored with it. When \<open>create_claim\<close> succeeds, every
  event it cites is in the ledger, visible in the claim's scope and not forgotten there, and its text contains
  the excerpt quoted; the claim states what was requested, with its interval and confidence, and can be
  read back under its id, unchanged (or the store fails); and either the claim was there before and nothing
  is written, or there is a stored link from the claim to every event cited, under the relation it was cited
  for and with an excerpt quoted for it.
\<close>

theorem create_claim_grounded:
  fixes H :: "('s, 'c, 'e) hyphae"
  assumes "faithful_store H valid rows rest" and "faithful_ops H O' valid rows vecs" and "valid (en_store g)"
    and "create_claim H O' E g req = Some (Inr (c, g'))"
    and "wf_scope (cr_scope req)" and "env_uuid_ok E (cl_id c)" and "length (cr_evidence req) < 2 ^ 63"
    and "list_all (env_uuid_ok E \<circ> ei_event_id) (cr_evidence req)"
  shows "(\<forall>ev\<in>set (cr_evidence req).
        is_forgotten H E (en_store g) (ei_event_id ev) (cr_scope req) = Some (Inr False)
        \<and> (\<exists>e. get_ingestion H E (en_tenant g) (en_store g) (ei_event_id ev) (cr_scope req) = Some (Inr (Some e))
             \<and> (case ei_excerpt ev of None \<Rightarrow> True | Some x \<Rightarrow> contains (ie_content e) x)))
    \<and> cl_scope c = cr_scope req \<and> cl_subject c = cr_subject req \<and> cl_predicate c = cr_predicate req
    \<and> cl_value c = cr_value req \<and> cl_confidence_nanos c = to_nanos (cr_confidence req)
    \<and> cl_valid_from_ms c = cr_valid_from_ms req \<and> cl_valid_to_ms c = cr_valid_to_ms req
    \<and> cl_recorded_at_ms c = cr_recorded_at_ms req
    \<and> ok_or_hyphae (get_claim H E g' (cl_id c) (cr_scope req)) (\<lambda>r. r = Some c)
    \<and> (get_claim H E g (cl_id c) (cr_scope req) = Some (Inr (Some c)) \<and> g' = g
       \<or> (\<forall>ev\<in>set (cr_evidence req). \<exists>d\<in>set (rows (en_store g')). \<exists>e.
            has_prefix (claim_evidence_prefix (cl_id c)) d
            \<and> evidence_from_record (env_uuid_ok E) d = Inr e \<and> ev_claim_id e = cl_id c
            \<and> ev_event_id e = ei_event_id ev \<and> ev_relation e = ei_relation ev
            \<and> ev_recorded_at_ms e = cr_recorded_at_ms req \<and> quoted_for req ev e))"
proof -
  have "\<exists>d\<in>set (rows (en_store g')). \<exists>e. has_prefix (claim_evidence_prefix (cl_id c)) d
      \<and> evidence_from_record (env_uuid_ok E) d = Inr e \<and> ev_claim_id e = cl_id c
      \<and> ev_event_id e = ei_event_id ev \<and> ev_relation e = ei_relation ev
      \<and> ev_recorded_at_ms e = cr_recorded_at_ms req \<and> quoted_for req ev e"
    if "get_claim H E g (cl_id c) (cr_scope req) = Some (Inr None)" "ev \<in> set (cr_evidence req)" for ev
    using created_evidence [OF assms(1-4) assms(6) _ that] assms(8) that(2) by (simp add: list_all_iff)
  moreover have "cl_scope c = cr_scope req \<and> cl_subject c = cr_subject req \<and> cl_predicate c = cr_predicate req
      \<and> cl_value c = cr_value req \<and> cl_confidence_nanos c = to_nanos (cr_confidence req)
      \<and> cl_valid_from_ms c = cr_valid_from_ms req \<and> cl_valid_to_ms c = cr_valid_to_ms req
      \<and> cl_recorded_at_ms c = cr_recorded_at_ms req"
    by (simp add: create_claim_run(2) [OF assms(4)] claim_of_request_def)
  ultimately show ?thesis
    using create_claim_evidence [OF assms(4)] stored_claim [OF assms(1-7)] create_claim_run(4) [OF assms(4)] by blast
qed

text \<open>
  The evidence count of a claim can exceed its evidence. Links are stored under the event and the
  relation only, so when a request quotes two excerpts of one event under the same relation, the
  second link replaces the first: the new claim counts both but fewer can be listed.
\<close>

theorem evidence_count_overstated:
  fixes H :: "('s, 'c, 'e) hyphae"
  assumes "faithful_store H valid rows rest" and "faithful_ops H O' valid rows vecs" and "valid (en_store g)"
    and "create_claim H O' E g req = Some (Inr (c, g'))"
    and "wf_scope (cr_scope req)" and "env_uuid_ok E (cl_id c)" and "length (cr_evidence req) < 2 ^ 63"
    and "\<And>ev. ev \<in> set (cr_evidence req) \<Longrightarrow> env_uuid_ok E (ei_event_id ev)"
    and "get_claim H E g (cl_id c) (cr_scope req) = Some (Inr None)"
    and "filter (has_prefix (claim_evidence_prefix (cl_id c))) (rows (en_store g)) = []"
    and "i < j" and "j < length (cr_evidence req)"
    and "ei_event_id (cr_evidence req ! i) = ei_event_id (cr_evidence req ! j)"
    and "ei_relation (cr_evidence req ! i) = ei_relation (cr_evidence req ! j)"
  shows "ok_or_hyphae (claim_evidence_of H E g' (cl_id c) (cr_scope req))
    (\<lambda>es. length es < unat (cl_evidence_count c))"
proof -
  let ?key = "\<lambda>ev. doc_key (evidence_to_record (evidence_of_input (cl_id c) ev (cr_recorded_at_ms req)))"
  have "?key (cr_evidence req ! i) = ?key (cr_evidence req ! j)"
    using assms(13,14) by (simp add: evidence_to_record_def evidence_of_input_def)
  from card_image_less [of i j "cr_evidence req" ?key, OF assms(11,12) this]
  have "card (doc_key ` set (evidence_docs (cl_id c) req)) < length (cr_evidence req)"
    by (simp add: evidence_docs_def image_image)
  moreover have "unat (cl_evidence_count c) = length (cr_evidence req)"
    unfolding create_claim_run(2) [OF assms(4)] using assms(7)
    by (simp add: claim_of_request_def unsigned_of_nat take_bit_nat_eq_self)
  ultimately have less: "card (doc_key ` set (evidence_docs (cl_id c) req)) < unat (cl_evidence_count c)"
    by simp
  show ?thesis
  proof (rule ok_or_hyphae_weaken [OF stored_evidence [OF assms(1-10)]])
    fix es :: "claim_evidence list"
    assume "length es = card (doc_key ` set (evidence_docs (cl_id c) req))"
    with less show "length es < unat (cl_evidence_count c)" by simp
  qed
qed

end
