(* ===== verification/Claim_Example.thy ===== *)
theory Claim_Example
  imports Claim_Creation
begin

text \<open>The claim operations run on a concrete store: the witnesses of their properties.\<close>

section \<open>A store with one claim\<close>

definition home_claim :: claim where
  "home_claim = example_claim ''u1'' ''Madrid'' None None"

definition home_scope :: recall_scope where
  "home_scope = \<lparr>rs_tenant_id = ''local'', rs_user_id = ''local'', rs_project_id = None,
     rs_conversation_id = None, rs_session_id = None\<rparr>"

definition home_evidence :: claim_evidence where
  "home_evidence = \<lparr>ev_claim_id = ''u1'', ev_event_id = ''e1'', ev_relation = Supports, ev_excerpt = None,
     ev_recorded_at_ms = 1\<rparr>"

definition home_rows :: "doc list" where
  "home_rows = [claim_to_record home_claim, evidence_to_record home_evidence]"

definition home_engine :: "vec_state engine" where
  "home_engine = example_engine\<lparr>en_store := (home_rows, Map.empty)\<rparr>"

lemma home_fields [simp]:
  "en_store home_engine = (home_rows, Map.empty)" "en_tenant home_engine = ''local''"
  "cl_id home_claim = ''u1''" "cl_scope home_claim = home_scope" "rs_tenant_id home_scope = ''local''"
  "env_uuid_ok quiet_env i"
  by (simp_all add: home_engine_def example_engine_def home_claim_def example_claim_def home_scope_def
      quiet_env_def)

lemma home_keys:
  "doc_key (claim_to_record home_claim) = ''__celiums/claim/u1''"
  "doc_key (evidence_to_record home_evidence) = ''__celiums/claim_evidence/u1/e1-supports''"
  by (simp_all add: claim_to_record_def claim_key_def claim_prefix_def evidence_to_record_def
      claim_evidence_prefix_def evidence_prefix_def home_evidence_def)

lemma home_sorted: "(key_sorted \<circ> fst) (en_store home_engine)"
  by (simp add: home_rows_def key_sorted_def home_keys)

lemma wf_home_scope: "wf_scope home_scope"
proof -
  have "valid_identity ''local''" by code_simp
  then show ?thesis by (simp add: wf_scope_def home_scope_def)
qed

lemma home_decodes:
  "claim_from_record (env_uuid_ok quiet_env) (claim_to_record home_claim) = Inr home_claim"
  "evidence_from_record (env_uuid_ok quiet_env) (evidence_to_record home_evidence) = Inr home_evidence"
proof -
  have "u64_sat (cl_evidence_count home_claim) = cl_evidence_count home_claim"
    by (simp add: u64_sat_def home_claim_def example_claim_def)
  then show "claim_from_record (env_uuid_ok quiet_env) (claim_to_record home_claim) = Inr home_claim"
    using claim_roundtrip [of home_claim "env_uuid_ok quiet_env"] wf_home_scope by simp
  show "evidence_from_record (env_uuid_ok quiet_env) (evidence_to_record home_evidence) = Inr home_evidence"
    by (rule evidence_roundtrip) simp_all
qed

lemma home_lookups:
  "lookup_doc home_rows (claim_key ''u1'') = Some (claim_to_record home_claim)"
  "lookup_doc home_rows (claim_key ''u2'') = None"
  "lookup_doc home_rows (forgotten_key ''e1'') = None"
  "lookup_doc home_rows (link_key i) = None"
  by (simp_all add: home_rows_def lookup_doc_def home_keys claim_key_def claim_prefix_def forgotten_key_def
      forgotten_prefix_def link_key_def link_prefix_def)

lemma home_scans:
  "filter (has_prefix claim_prefix) home_rows = [claim_to_record home_claim]"
  "filter (has_prefix link_prefix) home_rows = []"
  "filter (has_prefix (claim_evidence_prefix ''u1'')) home_rows = [evidence_to_record home_evidence]"
  by (simp_all add: home_rows_def has_prefix_def home_keys claim_prefix_def link_prefix_def
      claim_evidence_prefix_def evidence_prefix_def)

lemma home_scan:
  "scan_prefix vec_store (home_rows, Map.empty) p = Some (Inr (filter (has_prefix p) home_rows))"
  using vec_scan [of "(home_rows, Map.empty)"] home_sorted by simp

lemma home_get_claim:
  "get_claim vec_store quiet_env home_engine ''u1'' home_scope = Some (Inr (Some home_claim))"
  "get_claim vec_store quiet_env home_engine ''u2'' home_scope = Some (Inr None)"
  by (simp_all add: get_claim_def require_tenant_def home_lookups home_decodes claim_visible_to_def
      recall_scope_visible_to_def from_store_def from_claim_def)

lemma home_supersessions:
  "claim_supersessions vec_store quiet_env home_engine home_scope = Some (Inr [])"
  by (simp add: claim_supersessions_def require_tenant_def home_scan home_scans from_scan_def from_store_def
      from_claim_def)

lemma home_visible: "visible_claims vec_store quiet_env home_engine home_scope = Some (Inr [home_claim])"
proof -
  have "active_claim_evidence vec_store quiet_env home_engine ''u1'' home_scope = Some (Inr [home_evidence])"
    by (simp add: active_claim_evidence_def claim_evidence_of_def home_get_claim home_scan home_scans
        from_scan_def from_store_def from_claim_def home_decodes is_forgotten_def)
      (simp add: home_evidence_def home_lookups)
  then show ?thesis
    by (simp add: visible_claims_def require_tenant_def home_scan home_scans from_scan_def from_store_def
        from_claim_def home_decodes claim_visible_to_def recall_scope_visible_to_def)
qed

lemma home_claims_keyed: "claims_keyed quiet_env (fst (en_store home_engine))"
  by (simp add: claims_keyed_def home_rows_def home_decodes home_keys claim_key_def claim_prefix_def)
    (simp add: claim_from_record_def home_keys claim_prefix_def)

section \<open>Recanting it\<close>

definition recant :: "string option \<Rightarrow> link_request" where
  "recant b = \<lparr>lr_scope = home_scope, lr_original = ''u1'', lr_successor = b, lr_relation = Recants,
     lr_effective_at_ms = 5, lr_recorded_at_ms = 6, lr_reason = None\<rparr>"

definition recant_link :: "string option \<Rightarrow> claim_link" where
  "recant_link b = link_of_request (env_b3_raw quiet_env) (env_uuid_text quiet_env) (recant b)"

definition recanted :: "string option \<Rightarrow> vec_state engine" where
  "recanted b = home_engine\<lparr>en_store := (upsert (link_to_record (recant_link b)) home_rows, Map.empty)\<rparr>"

lemma recant_run:
  "supersede_claim vec_store quiet_env home_engine (recant (Some ''u2'')) = Some (Inr (recant_link (Some ''u2''), recanted (Some ''u2'')))"
  by (simp add: supersede_claim_def require_tenant_def recant_def home_get_claim get_successor_def
      check_successor_def put_link_def home_lookups from_store_def Let_def)
    (simp add: recanted_def recant_link_def recant_def home_lookups m_return_def)

theorem supersession_stays_acyclic_witness:
  "ok_or_hyphae (claim_supersessions vec_store quiet_env (recanted (Some ''u2'')) home_scope)
     (\<lambda>ls'. acyclic (set (link_edges ls')))"
proof -
  have "ok_or_hyphae (claim_supersessions vec_store quiet_env (recanted (Some ''u2''))
      (lr_scope (recant (Some ''u2'')))) (\<lambda>ls'. acyclic (set (link_edges ls')))"
    by (rule supersession_stays_acyclic [OF vec_store_faithful home_sorted home_claims_keyed _ _ _ _ recant_run,
        where ls = "[]"])
      (simp_all add: recant_def home_supersessions link_edges_def acyclic_def)
  then show ?thesis by (simp add: recant_def)
qed

theorem supersede_changes_heads_witness:
  "ok_or_hyphae (latest_claims vec_store quiet_env (recanted (Some ''u2''))
     \<lparr>pq_scope = home_scope, pq_subject = ''ana'', pq_predicate = ''lives_in'', pq_valid_at_ms = 7,
      pq_known_at_ms = 8\<rparr>) (\<lambda>cs'. cs' = [])"
proof -
  let ?q = "\<lparr>pq_scope = home_scope, pq_subject = ''ana'', pq_predicate = ''lives_in'', pq_valid_at_ms = 7,
      pq_known_at_ms = 8\<rparr>"
  have "asked_about ?q home_claim" by (simp add: asked_about_def home_claim_def example_claim_def valid_at_def)
  then have heads: "latest_claims vec_store quiet_env home_engine ?q = Some (Inr [home_claim])"
    by (simp add: latest_claims_def claims_at_def home_supersessions home_visible)
  have new: "lookup_doc (fst (en_store home_engine)) (link_key (ln_id (link_of_request (env_b3_raw quiet_env)
      (env_uuid_text quiet_env) (recant (Some ''u2''))))) = None" by (simp add: home_lookups)
  show ?thesis
    by (rule ok_or_hyphae_weaken [OF supersede_changes_heads [OF vec_store_faithful home_sorted _ _ new heads _ recant_run]])
      (simp_all add: recant_def)
qed

section \<open>Two claims that contradict each other\<close>

definition rival_claim :: claim where
  "rival_claim = example_claim ''u2'' ''Oslo'' None None"

definition rival_evidence :: claim_evidence where
  "rival_evidence = home_evidence\<lparr>ev_claim_id := ''u2''\<rparr>"

definition rival_rows :: "doc list" where
  "rival_rows = [claim_to_record home_claim, claim_to_record rival_claim,
     evidence_to_record home_evidence, evidence_to_record rival_evidence]"

definition rival_engine :: "vec_state engine" where
  "rival_engine = example_engine\<lparr>en_store := (rival_rows, Map.empty)\<rparr>"

lemma rival_fields [simp]:
  "en_store rival_engine = (rival_rows, Map.empty)" "en_tenant rival_engine = ''local''"
  "cl_id rival_claim = ''u2''" "cl_scope rival_claim = home_scope"
  by (simp_all add: rival_engine_def example_engine_def rival_claim_def example_claim_def home_scope_def)

lemma rival_keys:
  "doc_key (claim_to_record rival_claim) = ''__celiums/claim/u2''"
  "doc_key (evidence_to_record rival_evidence) = ''__celiums/claim_evidence/u2/e1-supports''"
  by (simp_all add: claim_to_record_def claim_key_def claim_prefix_def evidence_to_record_def
      claim_evidence_prefix_def evidence_prefix_def rival_evidence_def home_evidence_def)

lemma rival_sorted: "key_sorted rival_rows"
  by (simp add: rival_rows_def key_sorted_def home_keys rival_keys)

lemma rival_decodes:
  "claim_from_record (env_uuid_ok quiet_env) (claim_to_record rival_claim) = Inr rival_claim"
  "evidence_from_record (env_uuid_ok quiet_env) (evidence_to_record rival_evidence) = Inr rival_evidence"
proof -
  have "u64_sat (cl_evidence_count rival_claim) = cl_evidence_count rival_claim"
    by (simp add: u64_sat_def rival_claim_def example_claim_def)
  then show "claim_from_record (env_uuid_ok quiet_env) (claim_to_record rival_claim) = Inr rival_claim"
    using claim_roundtrip [of rival_claim "env_uuid_ok quiet_env"] wf_home_scope by simp
  show "evidence_from_record (env_uuid_ok quiet_env) (evidence_to_record rival_evidence) = Inr rival_evidence"
    by (rule evidence_roundtrip) simp_all
qed

lemma rival_lookups:
  "lookup_doc rival_rows (claim_key ''u1'') = Some (claim_to_record home_claim)"
  "lookup_doc rival_rows (claim_key ''u2'') = Some (claim_to_record rival_claim)"
  "lookup_doc rival_rows (forgotten_key i) = None"
  by (simp_all add: rival_rows_def lookup_doc_def home_keys rival_keys claim_key_def claim_prefix_def
      forgotten_key_def forgotten_prefix_def)

lemma rival_scans:
  "filter (has_prefix claim_prefix) rival_rows = [claim_to_record home_claim, claim_to_record rival_claim]"
  "filter (has_prefix (claim_evidence_prefix ''u1'')) rival_rows = [evidence_to_record home_evidence]"
  "filter (has_prefix (claim_evidence_prefix ''u2'')) rival_rows = [evidence_to_record rival_evidence]"
  by (simp_all add: rival_rows_def has_prefix_def home_keys rival_keys claim_prefix_def
      claim_evidence_prefix_def evidence_prefix_def)

lemma rival_scan:
  "scan_prefix vec_store (rival_rows, Map.empty) p = Some (Inr (filter (has_prefix p) rival_rows))"
  using vec_scan [of "(rival_rows, Map.empty)"] rival_sorted by simp

lemma rival_get_claim:
  "get_claim vec_store quiet_env rival_engine ''u1'' home_scope = Some (Inr (Some home_claim))"
  "get_claim vec_store quiet_env rival_engine ''u2'' home_scope = Some (Inr (Some rival_claim))"
  by (simp_all add: get_claim_def require_tenant_def rival_lookups rival_decodes home_decodes claim_visible_to_def
      recall_scope_visible_to_def from_store_def from_claim_def)

lemma rival_evidence_active:
  "active_claim_evidence vec_store quiet_env rival_engine ''u1'' home_scope = Some (Inr [home_evidence])"
  "active_claim_evidence vec_store quiet_env rival_engine ''u2'' home_scope = Some (Inr [rival_evidence])"
  by (simp_all add: active_claim_evidence_def claim_evidence_of_def rival_get_claim rival_scan rival_scans
      from_scan_def from_store_def from_claim_def rival_decodes home_decodes is_forgotten_def rival_lookups)

lemma rival_visible:
  "visible_claims vec_store quiet_env rival_engine home_scope = Some (Inr [home_claim, rival_claim])"
  by (simp add: visible_claims_def require_tenant_def rival_scan rival_scans from_scan_def from_store_def
      from_claim_def rival_decodes home_decodes claim_visible_to_def recall_scope_visible_to_def rival_evidence_active)

theorem contradictions_exact_witness:
  "\<exists>cts. claim_contradictions vec_store quiet_env rival_engine home_scope = Some (Inr cts)
     \<and> (\<exists>ct\<in>set cts. reports ct home_claim rival_claim \<or> reports ct rival_claim home_claim)"
proof -
  have valid: "(key_sorted \<circ> fst) (en_store rival_engine)" by (simp add: rival_sorted)
  have run: "claim_contradictions vec_store quiet_env rival_engine home_scope
      = Some (Inr (contradictions_in [home_claim, rival_claim]))"
    by (simp add: claim_contradictions_def rival_visible)
  have seen: "seen_claim quiet_env (fst (en_store rival_engine)) home_scope home_claim"
    "seen_claim quiet_env (fst (en_store rival_engine)) home_scope rival_claim"
    using visible_claims_seen [OF vec_store_faithful valid rival_visible] by auto
  have clash: "cl_subject home_claim = cl_subject rival_claim" "cl_predicate home_claim = cl_predicate rival_claim"
    "cl_value home_claim \<noteq> cl_value rival_claim" "valid_at home_claim 7 \<and> valid_at rival_claim 7"
    by (simp_all add: home_claim_def rival_claim_def example_claim_def valid_at_def)
  have "\<exists>ct\<in>set (contradictions_in [home_claim, rival_claim]).
      reports ct home_claim rival_claim \<or> reports ct rival_claim home_claim"
    using conjunct2 [OF contradictions_exact [OF vec_store_faithful valid run]] seen clash by blast
  with run show ?thesis by blast
qed

section \<open>Creating a claim\<close>

definition said :: ingestion_entry where
  "said =
     \<lparr>ie_event_id = ''e1'', ie_source_namespace = ''chat'', ie_source_event_id = ''m1'', ie_turn_id = None,
      ie_identity = memory_identity_local, ie_source_kind = User, ie_source_uri = None, ie_actor = None,
      ie_content = ''ab'', ie_tags = [], ie_scope = Global, ie_importance_nanos = None,
      ie_content_role = Observation, ie_purpose = Personalization, ie_content_hash = ''h'',
      ie_request_hash = ''r'', ie_event_at_ms = None, ie_first_ingested_at_ms = 1,
      ie_last_attempted_at_ms = 1, ie_attempt_count = 1, ie_conflict_count = 0, ie_status = Received,
      ie_memory_id = None, ie_error_code = None, ie_enrichment_provider = None,
      ie_enrichment_attempt_count = 0\<rparr>"

definition talk_engine :: "vec_state engine" where
  "talk_engine = example_engine\<lparr>en_store := ([ingestion_to_record said], Map.empty)\<rparr>"

definition quote_request :: claim_request where
  "quote_request =
     \<lparr>cr_scope = home_scope, cr_subject = ''ana'', cr_predicate = ''says'', cr_value = ''ab'',
      cr_confidence = Fin 1, cr_valid_from_ms = None, cr_valid_to_ms = None, cr_recorded_at_ms = 2,
      cr_evidence = [\<lparr>ei_event_id = ''e1'', ei_relation = Supports, ei_excerpt = Some ''a''\<rparr>,
        \<lparr>ei_event_id = ''e1'', ei_relation = Supports, ei_excerpt = Some ''b''\<rparr>]\<rparr>"

definition quote_claim :: claim where
  "quote_claim = claim_of_request (env_b3_raw quiet_env) (env_uuid_text quiet_env) quote_request"

lemma talk_fields [simp]:
  "en_store talk_engine = ([ingestion_to_record said], Map.empty)" "en_tenant talk_engine = ''local''"
  "cl_id quote_claim = ''u1''" "cr_scope quote_request = home_scope"
  by (simp_all add: talk_engine_def example_engine_def quote_claim_def claim_of_request_def claim_id_of_def
      quiet_env_def quote_request_def)

lemma talk_sorted: "(key_sorted \<circ> fst) (en_store talk_engine)"
  by (simp add: key_sorted_def)

lemma said_key: "doc_key (ingestion_to_record said) = ''__celiums/ingestion/event/e1''"
  by (simp add: ingestion_to_record_def said_def ingestion_key_def ingestion_prefix_def)

lemma talk_lookups:
  "lookup_doc [ingestion_to_record said] (ingestion_key ''e1'') = Some (ingestion_to_record said)"
  "lookup_doc [ingestion_to_record said] (forgotten_key i) = None"
  "lookup_doc [ingestion_to_record said] (claim_key i) = None"
  by (simp_all add: lookup_doc_def said_key ingestion_key_def ingestion_prefix_def forgotten_key_def
      forgotten_prefix_def claim_key_def claim_prefix_def)

lemma said_decodes:
  "ingestion_from_record (env_uuid_ok quiet_env) (ingestion_to_record said) = Inr said"
proof -
  have "valid_identity ''chat''" "valid_identity ''m1''" "valid_identity ''local''" by code_simp+
  then have "wf_ingestion_entry (env_uuid_ok quiet_env) said"
    by (simp add: wf_ingestion_entry_def said_def wf_memory_identity_def memory_identity_local_def)
  moreover have "saturated said = said" by (simp add: saturated_def said_def u64_sat_def)
  ultimately show ?thesis by (simp add: ingestion_roundtrip)
qed

lemma said_visible: "get_ingestion vec_store quiet_env ''local'' ([ingestion_to_record said], Map.empty) ''e1'' home_scope
    = Some (Inr (Some said))"
  by (simp add: get_ingestion_def get_ingestion_unscoped_def require_tenant_def talk_lookups from_store_def
      from_ingestion_def said_decodes)
    (simp add: ingestion_visible_to_def said_def memory_identity_local_def home_scope_def)

lemma quote_valid: "validate_claim quote_request = Inr ()"
proof -
  have "validate_part ''ana'' ''subject'' = Inr ()" "validate_part ''says'' ''predicate'' = Inr ()"
    "validate_part ''ab'' ''value'' = Inr ()" by code_simp+
  then show ?thesis
    by (simp add: validate_claim_def quote_request_def in_unit_interval_def empty_interval_def)
qed

lemma quote_new: "get_claim vec_store quiet_env talk_engine ''u1'' home_scope = Some (Inr None)"
  by (simp add: get_claim_def require_tenant_def talk_lookups from_store_def)

lemma quote_run: "\<exists>g'. create_claim vec_store vec_ops quiet_env talk_engine quote_request = Some (Inr (quote_claim, g'))"
proof -
  have "check_evidence vec_store quiet_env talk_engine home_scope ev = Some (Inr ())"
    if "ev \<in> set (cr_evidence quote_request)" for ev
    using that by (auto simp: quote_request_def check_evidence_def is_forgotten_def talk_lookups from_store_def
        said_visible) (simp_all add: said_def)
  then have "collect_m (check_evidence vec_store quiet_env talk_engine home_scope) (cr_evidence quote_request)
      = Some (Inr [(), ()])" by (simp add: quote_request_def)
  then show ?thesis
    by (simp add: create_claim_def quote_valid from_invalid_claim_def require_tenant_def
        quote_claim_def [symmetric] Let_def quote_new from_store_def)
qed

theorem create_claim_grounded_witness:
  "\<exists>g'. create_claim vec_store vec_ops quiet_env talk_engine quote_request = Some (Inr (quote_claim, g'))
     \<and> ok_or_hyphae (get_claim vec_store quiet_env g' ''u1'' home_scope) (\<lambda>r. r = Some quote_claim)
     \<and> (\<exists>d\<in>set (fst (en_store g')). \<exists>e. evidence_from_record (env_uuid_ok quiet_env) d = Inr e
          \<and> ev_claim_id e = ''u1'' \<and> ev_event_id e = ''e1'' \<and> ev_relation e = Supports)"
proof -
  obtain g' where run: "create_claim vec_store vec_ops quiet_env talk_engine quote_request
    = Some (Inr (quote_claim, g'))" using quote_run by blast
  have wf: "wf_scope (cr_scope quote_request)" "env_uuid_ok quiet_env (cl_id quote_claim)"
    "length (cr_evidence quote_request) < 2 ^ 63"
    "list_all (env_uuid_ok quiet_env \<circ> ei_event_id) (cr_evidence quote_request)"
    by (simp_all add: wf_home_scope quote_request_def)
  note grounded = create_claim_grounded [OF vec_store_faithful vec_ops_faithful talk_sorted run wf]
  let ?ev = "\<lparr>ei_event_id = ''e1'', ei_relation = Supports, ei_excerpt = Some ''a''\<rparr>"
  have "?ev \<in> set (cr_evidence quote_request)" by (simp add: quote_request_def)
  moreover have "get_claim vec_store quiet_env talk_engine (cl_id quote_claim) (cr_scope quote_request) \<noteq> Some (Inr (Some quote_claim))"
    by (simp add: quote_new)
  ultimately have "\<exists>d\<in>set (fst (en_store g')). \<exists>e. evidence_from_record (env_uuid_ok quiet_env) d = Inr e
      \<and> ev_claim_id e = cl_id quote_claim \<and> ev_event_id e = ei_event_id ?ev \<and> ev_relation e = ei_relation ?ev"
    using grounded by blast
  moreover have "ok_or_hyphae (get_claim vec_store quiet_env g' (cl_id quote_claim) (cr_scope quote_request))
      (\<lambda>r. r = Some quote_claim)" using grounded by blast
  ultimately show ?thesis using run by auto
qed

theorem evidence_count_overstated_witness:
  "\<exists>g'. create_claim vec_store vec_ops quiet_env talk_engine quote_request = Some (Inr (quote_claim, g'))
     \<and> ok_or_hyphae (claim_evidence_of vec_store quiet_env g' ''u1'' home_scope)
         (\<lambda>es. length es < unat (cl_evidence_count quote_claim))"
proof -
  obtain g' where run: "create_claim vec_store vec_ops quiet_env talk_engine quote_request
    = Some (Inr (quote_claim, g'))" using quote_run by blast
  have "ok_or_hyphae (claim_evidence_of vec_store quiet_env g' (cl_id quote_claim) (cr_scope quote_request))
      (\<lambda>es. length es < unat (cl_evidence_count quote_claim))"
    by (rule evidence_count_overstated [OF vec_store_faithful vec_ops_faithful talk_sorted run,
          where i = 0 and j = 1])
      (simp_all add: wf_home_scope quote_request_def quote_new has_prefix_def said_key
        claim_evidence_prefix_def evidence_prefix_def)
  with run show ?thesis by auto
qed

end
