(* ===== verification/Ingestion_Claims.thy ===== *)
theory Ingestion_Claims
  imports Claim_Example
begin

text \<open>
  What the ingestion ledger guarantees: a settled event is not carried out again and its id stands for
  one request only, every event of a scope is counted once, and content the policy blocks is settled as
  rejected when it is ingested but not when it is enriched. A raw batch that repeats a source event with
  other content loses the first.
\<close>

lemma from_ingestion_simps [simp]:
  "from_ingestion (Inr x) = m_return x" "from_ingestion (Inl e) = m_fail (IngestionDecode e)"
  by (simp_all add: from_ingestion_def)

lemma get_unscoped_ok:
  assumes "faithful_store H valid rows rest" and "valid s"
    and "lookup_doc (rows s) (ingestion_key i) = Some d" and "ingestion_from_record (env_uuid_ok E) d = Inr e"
  shows "ok_or_hyphae (get_ingestion_unscoped H E s i) (\<lambda>r. r = Some e)"
  unfolding get_ingestion_unscoped_def
  by (rule ok_or_hyphae_bind [OF ok_from_get [OF assms(1,2)]]) (simp add: assms(3,4))

lemma persist_ok:
  assumes "faithful_store H valid rows rest" and "valid s"
  shows "ok_or_hyphae (persist_ingestion H e s) (\<lambda>s'. valid s' \<and> rows s' = upsert (ingestion_to_record e) (rows s))"
  using faithful_storeD(3) [OF assms, of "ingestion_to_record e"]
  by (cases "hy_put H s (ingestion_to_record e)") (simp_all add: persist_ingestion_def from_store_def ok_or_hyphae_def)

section \<open>Retries\<close>

lemma settled_ingest:
  fixes H :: "('s, 'c, 'e) hyphae"
  assumes "faithful_store H valid rows rest" and "valid (en_store g)"
    and "choose_event_id H E g r = Some (Inr i)"
    and "lookup_doc (rows (en_store g)) (ingestion_key i) = Some d"
    and "ingestion_from_record (env_uuid_ok E) d = Inr e" and "is_terminal (ie_status e)"
    and "tenant_id (ir_identity r) = en_tenant g"
  shows "if ie_request_hash e = ingest_event_hash E r
    then ok_or_hyphae (ingest_event H O' E g fresh_id audit_id r)
      (\<lambda>(e', g'). e' = next_attempt e (ir_ingested_at_ms r) \<and> ie_memory_id e' = ie_memory_id e
        \<and> ie_status e' = ie_status e
        \<and> rows (en_store g') = upsert (ingestion_to_record e') (rows (en_store g)))
    else \<exists>err. ingest_event H O' E g fresh_id audit_id r = Some (Inl err)
      \<and> (err = IngestionConflict i \<or> (\<exists>x. err = Hyphae x))"
proof -
  let ?h = "ingest_event_hash E r" and ?e = "next_attempt e (ir_ingested_at_ms r)"
  have ten: "(require_tenant (en_tenant g) (tenant_id (ir_identity r)) :: ('e, unit) outcome) = m_return ()"
    by (simp add: require_tenant_def assms(7))
  have e: "ie_status ?e = ie_status e" "ie_memory_id ?e = ie_memory_id e" "ie_request_hash ?e = ie_request_hash e"
    by (simp_all add: next_attempt_def)
  note found = get_unscoped_ok [OF assms(1,2,4,5)] and put = persist_ok [OF assms(1,2)]
  show ?thesis
  proof (cases "ie_request_hash e = ?h")
    case True
    have "ok_or_hyphae (prepare_ingestion_entry H E g r i ?h) (\<lambda>(e', g'). e' = ?e
        \<and> rows (en_store g') = upsert (ingestion_to_record ?e) (rows (en_store g)))"
      unfolding prepare_ingestion_entry_def
      by (rule ok_or_hyphae_bind [OF found])
        (auto simp: Let_def e(3) True intro!: ok_or_hyphae_bind [OF put])
    then have "ok_or_hyphae (ingest_event H O' E g fresh_id audit_id r)
        (\<lambda>(e', g'). e' = ?e \<and> rows (en_store g') = upsert (ingestion_to_record ?e) (rows (en_store g)))"
      unfolding ingest_event_def ten m_simps(1) assms(3) m_simps(3)
    proof (rule ok_or_hyphae_bind, goal_cases)
      case (1 p)
      then show ?case using assms(6) by (cases p) (auto simp: e(1) is_terminal_def split: option.split)
    qed
    then have "ok_or_hyphae (ingest_event H O' E g fresh_id audit_id r)
      (\<lambda>(e', g'). e' = ?e \<and> ie_memory_id e' = ie_memory_id e \<and> ie_status e' = ie_status e
        \<and> rows (en_store g') = upsert (ingestion_to_record e') (rows (en_store g)))"
      by (rule ok_or_hyphae_weaken) (auto simp: e)
    then show ?thesis using True by simp
  next
    case False
    have "ok_or_hyphae (persist_ingestion H (?e\<lparr>ie_conflict_count :=
        u64_saturating_add (ie_conflict_count ?e) 1\<rparr>) (en_store g)) (\<lambda>_. True)"
      by (rule ok_or_hyphae_weaken [OF put]) simp
    then have "\<exists>err. prepare_ingestion_entry H E g r i ?h = Some (Inl err)
        \<and> (err = IngestionConflict i \<or> (\<exists>x. err = Hyphae x))"
      using found False unfolding prepare_ingestion_entry_def
      by (auto simp: ok_or_hyphae_def Let_def e(3) m_fail_def)
    then show ?thesis using False by (auto simp: ingest_event_def ten assms(3))
  qed
qed

lemma shown_entry_ok:
  fixes H :: "('s, 'c, 'e) hyphae"
  assumes "faithful_store H valid rows rest" and "valid s"
    and "lookup_doc (rows s) (ingestion_key i) = Some d" and "ingestion_from_record (env_uuid_ok E) d = Inr e"
  shows "if rs_tenant_id sc = tenant
    then ok_or_hyphae (get_ingestion H E tenant s i sc)
      (\<lambda>r. r = (if ingestion_visible_to e sc then Some e else None))
    else \<exists>err. get_ingestion H E tenant s i sc = Some (Inl err)"
proof (cases "rs_tenant_id sc = tenant")
  case True
  have ten: "(require_tenant tenant (rs_tenant_id sc) :: ('e, unit) outcome) = m_return ()"
    by (simp add: require_tenant_def True)
  have "ok_or_hyphae (get_ingestion H E tenant s i sc) (\<lambda>r. r = (if ingestion_visible_to e sc then Some e else None))"
    unfolding get_ingestion_def ten m_simps(1)
    by (rule ok_or_hyphae_bind [OF get_unscoped_ok [OF assms]]) simp
  with True show ?thesis by simp
next
  case False
  then show ?thesis by (simp add: get_ingestion_def require_tenant_def m_fail_def)
qed

text \<open>What both operations of enrichment do first: a settled entry is returned as it is.\<close>

lemma settled_shown:
  fixes H :: "('s, 'c, 'e) hyphae"
  assumes "faithful_store H valid rows rest" and "valid s"
    and "lookup_doc (rows s) (ingestion_key i) = Some d" and "ingestion_from_record (env_uuid_ok E) d = Inr e"
    and "f None = Some (Inl why)" and "f (Some e) = m_return (e, g)"
  shows "if rs_tenant_id sc = tenant \<and> ingestion_visible_to e sc
    then ok_or_hyphae (m_bind (get_ingestion H E tenant s i sc) f) (\<lambda>r. r = (e, g))
    else \<exists>err. m_bind (get_ingestion H E tenant s i sc) f = Some (Inl err)"
  using shown_entry_ok [OF assms(1-4), of sc tenant] assms(5,6)
  by (cases "rs_tenant_id sc = tenant"; cases "ingestion_visible_to e sc") (auto simp: ok_or_hyphae_def)

text \<open>
  C18. A settled event is final: once the ledger holds an entry in a terminal state, its outcome does
  not change. Ingesting the same request again returns that entry with one more attempt, so the same
  memory and the same status, and writes nothing but the ledger record; a different request for the same
  source event never succeeds. Enriching it, or reporting that its enrichment failed, returns the entry as
  it is and writes nothing at all, or fails when the scope does not see it.
\<close>

theorem settled_event_is_final:
  fixes H :: "('s, 'c, 'e) hyphae"
  assumes "faithful_store H valid rows rest" and "valid (en_store g)"
    and "choose_event_id H E g r = Some (Inr i)"
    and "lookup_doc (rows (en_store g)) (ingestion_key i) = Some d"
    and "ingestion_from_record (env_uuid_ok E) d = Inr e" and "is_terminal (ie_status e)"
    and "tenant_id (ir_identity r) = en_tenant g" and "er_event_id q = i"
  shows "(if ie_request_hash e = ingest_event_hash E r
     then ok_or_hyphae (ingest_event H O' E g fresh_id audit_id r)
      (\<lambda>(e', g'). e' = next_attempt e (ir_ingested_at_ms r) \<and> ie_memory_id e' = ie_memory_id e
        \<and> ie_status e' = ie_status e
        \<and> rows (en_store g') = upsert (ingestion_to_record e') (rows (en_store g)))
     else \<exists>err. ingest_event H O' E g fresh_id audit_id r = Some (Inl err)
      \<and> (err = IngestionConflict i \<or> (\<exists>x. err = Hyphae x)))
    \<and> (if rs_tenant_id (er_scope q) = en_tenant g \<and> ingestion_visible_to e (er_scope q)
       then ok_or_hyphae (enrich_event H O' E g fresh_id audit_id q) (\<lambda>r. r = (e, g))
       else \<exists>err. enrich_event H O' E g fresh_id audit_id q = Some (Inl err))
    \<and> (if rs_tenant_id sc = en_tenant g \<and> ingestion_visible_to e sc
       then ok_or_hyphae (record_enrichment_failure H E g i sc provider' code' now) (\<lambda>r. r = (e, g))
       else \<exists>err. record_enrichment_failure H E g i sc provider' code' now = Some (Inl err))"
proof (intro conjI)
  show "if ie_request_hash e = ingest_event_hash E r
    then ok_or_hyphae (ingest_event H O' E g fresh_id audit_id r)
      (\<lambda>(e', g'). e' = next_attempt e (ir_ingested_at_ms r) \<and> ie_memory_id e' = ie_memory_id e
        \<and> ie_status e' = ie_status e
        \<and> rows (en_store g') = upsert (ingestion_to_record e') (rows (en_store g)))
    else \<exists>err. ingest_event H O' E g fresh_id audit_id r = Some (Inl err)
      \<and> (err = IngestionConflict i \<or> (\<exists>x. err = Hyphae x))"
    by (rule settled_ingest [OF assms(1-7)])
  show "if rs_tenant_id (er_scope q) = en_tenant g \<and> ingestion_visible_to e (er_scope q)
      then ok_or_hyphae (enrich_event H O' E g fresh_id audit_id q) (\<lambda>r. r = (e, g))
      else \<exists>err. enrich_event H O' E g fresh_id audit_id q = Some (Inl err)"
    unfolding enrich_event_def assms(8)
    by (rule settled_shown [OF assms(1,2,4,5)]) (simp_all add: m_fail_def assms(6))
  show "if rs_tenant_id sc = en_tenant g \<and> ingestion_visible_to e sc
      then ok_or_hyphae (record_enrichment_failure H E g i sc provider' code' now) (\<lambda>r. r = (e, g))
      else \<exists>err. record_enrichment_failure H E g i sc provider' code' now = Some (Inl err)"
    unfolding record_enrichment_failure_def
    by (rule settled_shown [OF assms(1,2,4,5)]) (simp_all add: m_fail_def assms(6))
qed

section \<open>Coverage\<close>

lemma count_status_sum:
  "accounted (fold count_status es c) = accounted c + word_of_nat (length es)
   \<and> cv_attempted (fold count_status es c) = cv_attempted c"
proof (induction es arbitrary: c)
  case (Cons e es)
  have "accounted (count_status e c) = accounted c + 1 \<and> cv_attempted (count_status e c) = cv_attempted c"
    by (cases "ie_status e") (simp_all add: count_status_def accounted_def)
  with Cons.IH [of "count_status e c"] show ?case by (simp add: algebra_simps)
qed simp

text \<open>
  Ingestion coverage is complete: every event visible to the scope is counted under exactly one
  status, so the four counts of the report add up to the number of attempted events.
\<close>

theorem coverage_accounts_for_all:
  assumes "ingestion_coverage_of H E tenant s sc = Some (Inr c)"
  shows "accounted c = cv_attempted c"
proof -
  obtain es where "c = fold count_status es \<lparr>cv_attempted = word_of_nat (length es), cv_received = 0,
      cv_materialized = 0, cv_rejected = 0, cv_failed = 0\<rparr>"
    using assms unfolding ingestion_coverage_of_def by (auto simp: m_bind_Inr)
  then show ?thesis
    using count_status_sum [of es "\<lparr>cv_attempted = word_of_nat (length es), cv_received = 0,
      cv_materialized = 0, cv_rejected = 0, cv_failed = 0\<rparr>"] by (simp add: accounted_def)
qed

section \<open>Policy rejections\<close>

lemma remember_blocked:
  "gov_enforcement (request_governance E req) = Enforce_Reject
   \<Longrightarrow> remember H O' E g fresh_id audit_id req
     = Some (Inl (EthicsBlocked (blocked_category (env_ethics E (rq_content req)))
         (ev_violations (env_ethics E (rq_content req)))))"
  by (simp add: remember_def m_fail_def)

text \<open>
  Content the policy rejects ends differently on the two paths. Ingested with its embedding, a
  retried event becomes \<open>Rejected\<close>, a terminal state, and the call succeeds without a memory; enriched
  later, the same event makes the call fail with the policy error (or a failure of the store), and it
  is never settled: the code marks it failed, so it stays open to further attempts.
\<close>

theorem blocked_content_settled_only_by_ingest:
  fixes H :: "('s, 'c, 'e) hyphae"
  assumes "faithful_store H valid rows rest" and "valid (en_store g)"
    and "lookup_doc (rows (en_store g)) (ingestion_key i) = Some d"
    and "ingestion_from_record (env_uuid_ok E) d = Inr e" and "ie_event_id e = i" and "ie_status e = Failed"
    and "choose_event_id H E g r = Some (Inr i)" and "ie_request_hash e = ingest_event_hash E r"
    and "tenant_id (ir_identity r) = en_tenant g" and "ir_embedding r = Some v"
    and "gov_enforcement (request_governance E (event_remember_request E r i v)) = Enforce_Reject"
    and "rs_tenant_id (er_scope q) = en_tenant g" and "er_event_id q = i" and "ingestion_visible_to e (er_scope q)"
    and "gov_enforcement (request_governance E
      (entry_remember_request E e (er_embedding q) (er_embedding_space q) (er_now_ms q))) = Enforce_Reject"
  shows "ok_or_hyphae (ingest_event H O' E g fresh_id audit_id r)
      (\<lambda>(e', g'). ie_status e' = Rejected \<and> ie_error_code e' = Some ''ethics_blocked''
        \<and> ie_memory_id e' = ie_memory_id e)
    \<and> (\<exists>err. enrich_event H O' E g fresh_id audit_id q = Some (Inl err)
        \<and> (\<exists>x vs. err = EthicsBlocked x vs \<or> (\<exists>y. err = Hyphae y)))"
proof
  let ?h = "ingest_event_hash E r" and ?e = "next_attempt e (ir_ingested_at_ms r)"
  have ten: "(require_tenant (en_tenant g) (tenant_id (ir_identity r)) :: ('e, unit) outcome) = m_return ()"
    by (simp add: require_tenant_def assms(9))
  have e: "ie_status ?e = Failed" "ie_memory_id ?e = ie_memory_id e" "ie_request_hash ?e = ?h" "ie_event_id ?e = i"
    by (simp_all add: next_attempt_def assms(5,6,8))
  note found = get_unscoped_ok [OF assms(1,2,3,4)] and put = persist_ok [OF assms(1)]
  have ready: "ok_or_hyphae (prepare_ingestion_entry H E g r i ?h) (\<lambda>(e', g'). e' = ?e \<and> valid (en_store g'))"
    unfolding prepare_ingestion_entry_def
    by (rule ok_or_hyphae_bind [OF found])
      (auto simp: Let_def e(3) intro!: ok_or_hyphae_bind [OF put [OF assms(2)]])
  show "ok_or_hyphae (ingest_event H O' E g fresh_id audit_id r)
      (\<lambda>(e', g'). ie_status e' = Rejected \<and> ie_error_code e' = Some ''ethics_blocked''
        \<and> ie_memory_id e' = ie_memory_id e)"
    unfolding ingest_event_def ten m_simps(1) assms(7) m_simps(3)
  proof (rule ok_or_hyphae_bind [OF ready], goal_cases)
    case (1 p)
    then obtain g' where p: "p = (?e, g')" and v: "valid (en_store g')" by auto
    show ?case
      unfolding p prod.case assms(10) option.case e(4) remember_blocked [OF assms(11)] sum.case
        persist_entry_def
      by (auto simp: e intro!: ok_or_hyphae_bind [OF put [OF v]])
  qed
  have shown: "ok_or_hyphae (get_ingestion H E (en_tenant g) (en_store g) (er_event_id q) (er_scope q))
      (\<lambda>r. r = Some e)"
    unfolding get_ingestion_def assms(13)
    by (simp add: require_tenant_def assms(12), rule ok_or_hyphae_bind [OF found]) (simp add: assms(14))
  have written: "ok_or_hyphae (persist_ingestion H x s) (\<lambda>s'. valid s')" if "valid s" for x s
    by (rule ok_or_hyphae_weaken [OF put [OF that]]) simp
  let ?e' = "e\<lparr>ie_enrichment_provider := Some (er_provider q),
       ie_enrichment_attempt_count := u64_saturating_add (ie_enrichment_attempt_count e) 1,
       ie_last_attempted_at_ms := er_now_ms q\<rparr>"
  have blocked: "remember H O' E g' fresh_id audit_id
      (entry_remember_request E ?e' (er_embedding q) (er_embedding_space q) (er_now_ms q))
    = Some (Inl (EthicsBlocked (blocked_category (env_ethics E (ie_content e)))
         (ev_violations (env_ethics E (ie_content e)))))" for g'
  proof -
    have "entry_remember_request E ?e' = entry_remember_request E e"
      by (intro ext) (simp add: entry_remember_request_def entry_importance_def)
    then show ?thesis using remember_blocked [OF assms(15)] by (simp add: entry_remember_request_def)
  qed
  have "\<exists>err. m_bind (persist_entry H ?e' g) (\<lambda>(e, g).
             case remember H O' E g fresh_id audit_id
                (entry_remember_request E e (er_embedding q) (er_embedding_space q) (er_now_ms q)) of
               None \<Rightarrow> None
             | Some (Inr (m, g)) \<Rightarrow>
                 persist_entry H (e\<lparr>ie_status := Materialized, ie_memory_id := Some (mem_id m),
                   ie_error_code := None\<rparr>) g
             | Some (Inl err) \<Rightarrow> fail_entry H e g err) = Some (Inl err)
        \<and> (\<exists>x vs. err = EthicsBlocked x vs \<or> (\<exists>y. err = Hyphae y))"
    using written [OF assms(2), of ?e']
  proof (unfold ok_or_hyphae_def, elim disjE exE conjE)
    fix s
    assume s: "persist_ingestion H ?e' (en_store g) = Some (Inr s)" and v: "valid s"
    show ?thesis
      using written [OF v, of "?e'\<lparr>ie_status := Failed, ie_error_code := Some ''materialization_failed''\<rparr>"]
      by (auto simp: persist_entry_def s blocked fail_entry_def ok_or_hyphae_def m_fail_def)
  qed (auto simp: persist_entry_def)
  with shown show "\<exists>err. enrich_event H O' E g fresh_id audit_id q = Some (Inl err)
        \<and> (\<exists>x vs. err = EthicsBlocked x vs \<or> (\<exists>y. err = Hyphae y))"
    unfolding enrich_event_def by (auto simp: ok_or_hyphae_def is_terminal_def assms(6))
qed

section \<open>Raw batches\<close>

text \<open>
  A raw batch can lose an event. When two events of one batch have the same source identity and
  neither is in the ledger yet, the batch is accepted whatever their contents: its items list both
  under one event id, the ledger keeps the second, and the first is gone without a conflict.
\<close>

theorem raw_batch_loses_event:
  fixes H :: "('s, 'c, 'e) hyphae"
  assumes "faithful_store H valid rows rest" and "faithful_ops H O' valid rows vecs" and "valid (en_store g)"
    and "br_events b = [r1, r2]"
    and "choose_event_id H E g r1 = Some (Inr i)" and "choose_event_id H E g r2 = Some (Inr i)"
    and "lookup_doc (rows (en_store g)) (ingestion_key i) = None"
    and "ingest_raw_batch H O' E g b sc h = Some (Inr (batch, g'))"
  shows "lookup_doc (rows (en_store g')) (ingestion_key i)
      = Some (ingestion_to_record (new_ingestion_entry E r2 i (ingest_event_hash E r2)))
    \<and> map bi_event_id (ib_items batch) = [i, i] \<and> map bi_status (ib_items batch) = [Received, Received]"
proof -
  have raw: "x = new_ingestion_entry E r i (ingest_event_hash E r)"
    if "choose_event_id H E g r = Some (Inr i)" "raw_entry H E g r = Some (Inr x)" for r x
    using that faithful_storeD(2) [OF assms(1,3)] assms(7)
    unfolding raw_entry_def get_ingestion_unscoped_def by (auto simp: m_bind_Inr)
  let ?e1 = "new_ingestion_entry E r1 i (ingest_event_hash E r1)"
    and ?e2 = "new_ingestion_entry E r2 i (ingest_event_hash E r2)"
  obtain es s where es: "collect_m (raw_entry H E g) [r1, r2] = Some (Inr es)"
    and batch: "batch = batch_new (br_batch_id b) h sc (br_now_ms b)
           (map (\<lambda>(k, e). item_of_entry k e) (enumerate 0 es))"
    and put: "op_put_records O' (en_store g) (map ingestion_to_record es @ [batch_to_record (env_b3 E) batch]) = Inr s"
    and g': "g' = g\<lparr>en_store := s\<rparr>"
    using assms(8) unfolding ingest_raw_batch_def Let_def assms(4) by (auto simp: m_bind_Inr)
  have e: "es = [?e1, ?e2]" using es raw [OF assms(5)] raw [OF assms(6)] by (auto simp: m_bind_Inr)
  have key: "doc_key (batch_to_record (env_b3 E) batch) \<noteq> ingestion_key i"
    by (simp add: batch_to_record_def batch_key_def batch_prefix_def ingestion_key_def ingestion_prefix_def)
  have id: "doc_key (ingestion_to_record ?e2) = ingestion_key i"
    by (simp add: ingestion_to_record_def new_ingestion_entry_def)
  note s = faithful_opsD(2) [OF assms(2,3) put]
  have "lookup_doc (rows (en_store g')) (ingestion_key i) = Some (ingestion_to_record ?e2)"
    using s faithful_storeD(1) [OF assms(1,3)] key id
    by (simp add: g' e lookup_upsert key_sorted_upsert)
  then show ?thesis
    by (simp add: batch e batch_new_def item_of_entry_def new_ingestion_entry_def)
qed

section \<open>A concrete ledger\<close>

text \<open>The ingestion operations run on a concrete ledger: the witnesses of their properties.\<close>

definition hear_request :: ingest_request where
  "hear_request =
     \<lparr>ir_source_namespace = ''chat'', ir_source_event_id = ''m1'', ir_turn_id = None, ir_source_kind = User,
      ir_source_uri = None, ir_actor = None, ir_identity = memory_identity_local, ir_content = ''ab'',
      ir_event_at_ms = None, ir_ingested_at_ms = 3, ir_embedding = Some [Fin 1], ir_embedding_space = None,
      ir_tags = [], ir_scope = Global, ir_importance = None, ir_content_role = OperationalRequest,
      ir_purpose = Personalization\<rparr>"

definition blocking_env :: rust_env where
  "blocking_env = quiet_env\<lparr>env_ethics := \<lambda>_. \<lparr>ev_blocked = True, ev_violations = [''harm''], ev_risks = []\<rparr>\<rparr>"

definition heard :: "ingestion_status \<Rightarrow> ingestion_entry" where
  "heard st = (new_ingestion_entry blocking_env hear_request ''u1'' (ingest_event_hash blocking_env hear_request))
     \<lparr>ie_status := st\<rparr>"

definition ledger :: "ingestion_status \<Rightarrow> vec_state engine" where
  "ledger st = example_engine\<lparr>en_store := ([ingestion_to_record (heard st)], Map.empty)\<rparr>"

lemma ledger_fields [simp]:
  "en_store (ledger st) = ([ingestion_to_record (heard st)], Map.empty)" "en_tenant (ledger st) = ''local''"
  "ie_event_id (heard st) = ''u1''" "ie_status (heard st) = st" "ie_identity (heard st) = memory_identity_local"
  "ie_request_hash (heard st) = ingest_event_hash blocking_env hear_request"
  "tenant_id memory_identity_local = ''local''"
  by (simp_all add: ledger_def example_engine_def heard_def new_ingestion_entry_def hear_request_def
      memory_identity_local_def)

lemma ledger_sorted: "(key_sorted \<circ> fst) (en_store (ledger st))"
  by (simp add: key_sorted_def)

lemma heard_decodes: "ingestion_from_record (env_uuid_ok blocking_env) (ingestion_to_record (heard st)) = Inr (heard st)"
proof -
  have "valid_identity ''chat''" "valid_identity ''m1''" "valid_identity ''local''" by code_simp+
  then have "wf_ingestion_entry (env_uuid_ok blocking_env) (heard st)"
    by (simp add: wf_ingestion_entry_def wf_memory_identity_def)
      (simp add: heard_def new_ingestion_entry_def hear_request_def blocking_env_def quiet_env_def
        memory_identity_local_def)
  moreover have "saturated (heard st) = heard st"
    by (simp add: saturated_def heard_def new_ingestion_entry_def u64_sat_def)
  ultimately show ?thesis by (simp add: ingestion_roundtrip)
qed

lemma ledger_lookup:
  "lookup_doc (fst (en_store (ledger st))) (ingestion_key ''u1'') = Some (ingestion_to_record (heard st))"
  by (simp add: lookup_doc_def ingestion_to_record_def)

lemma same_id: "user_event_id blocking_env g r = ''u1''" "legacy_event_id blocking_env g r = ''u1''"
  by (simp_all add: user_event_id_def legacy_event_id_def event_id_for_def blocking_env_def quiet_env_def)

lemma ledger_choose: "choose_event_id vec_store blocking_env (ledger st) hear_request = Some (Inr ''u1'')"
  using ledger_lookup [of st]
  by (simp add: choose_event_id_def same_id get_ingestion_unscoped_def from_store_def heard_decodes)

theorem settled_event_is_final_witness:
  "ok_or_hyphae (ingest_event vec_store vec_ops blocking_env (ledger Rejected) ''m1'' ''a1'' hear_request)
     (\<lambda>(e', g'). ie_status e' = Rejected)"
proof -
  have "is_terminal (ie_status (heard Rejected))" "tenant_id (ir_identity hear_request) = en_tenant (ledger Rejected)"
    "ie_request_hash (heard Rejected) = ingest_event_hash blocking_env hear_request"
    by (simp_all add: is_terminal_def hear_request_def)
  note facts = this
  let ?q = "\<lparr>er_event_id = ''u1'', er_scope = home_scope, er_provider = ''p'', er_embedding = [Fin 1],
    er_embedding_space = None, er_now_ms = 9\<rparr>"
  have "er_event_id ?q = ''u1''" by simp
  from conjunct1 [OF settled_event_is_final [OF vec_store_faithful ledger_sorted ledger_choose ledger_lookup
      heard_decodes facts(1,2) this, of vec_ops "''m1''" "''a1''"]] facts(3)
  show ?thesis by (auto elim!: ok_or_hyphae_weaken)
qed

lemma ledger_scan: "scan_prefix vec_store (en_store (ledger st)) ingestion_prefix
    = Some (Inr [ingestion_to_record (heard st)])"
  using vec_scan [of "en_store (ledger st)" ingestion_prefix] ledger_sorted
  by (simp add: has_prefix_def ingestion_to_record_def ingestion_key_def)

theorem coverage_accounts_for_all_witness:
  "\<exists>c. ingestion_coverage_of vec_store blocking_env ''local'' (en_store (ledger Failed)) home_scope = Some (Inr c)
     \<and> cv_attempted c = 1 \<and> accounted c = 1"
proof -
  have "ingestion_visible_to (heard Failed) home_scope"
    by (simp add: ingestion_visible_to_def memory_identity_local_def home_scope_def)
      (simp add: heard_def new_ingestion_entry_def hear_request_def)
  then have "ingestion_entries vec_store blocking_env ''local'' (en_store (ledger Failed)) home_scope
      = Some (Inr [heard Failed])"
    unfolding ingestion_entries_def ledger_scan
    by (simp add: require_tenant_def from_scan_def from_store_def heard_decodes)
  then obtain c where c: "ingestion_coverage_of vec_store blocking_env ''local'' (en_store (ledger Failed)) home_scope
      = Some (Inr c)" and one: "cv_attempted c = 1"
    by (simp add: ingestion_coverage_of_def count_status_def)
  with coverage_accounts_for_all [OF c] show ?thesis by auto
qed

lemma blocked_request:
  "rq_content_role req = OperationalRequest
   \<Longrightarrow> gov_enforcement (request_governance blocking_env req) = Enforce_Reject"
  by (simp add: request_governance_def blocking_env_def quiet_env_def classify_governance_def Let_def
      detect_poisoning_def quiet_detectors_def treatment_of_def enforcement_of_def)

lemma blocked_event:
  "gov_enforcement (request_governance blocking_env (event_remember_request blocking_env hear_request i v))
    = Enforce_Reject"
  "gov_enforcement (request_governance blocking_env (entry_remember_request blocking_env (heard st) v sp now))
    = Enforce_Reject"
  by (rule blocked_request, simp add: event_remember_request_def entry_remember_request_def,
      simp add: hear_request_def heard_def new_ingestion_entry_def)+

theorem blocked_content_settled_only_by_ingest_witness:
  "\<exists>err. enrich_event vec_store vec_ops blocking_env (ledger Failed) ''m1'' ''a1''
       \<lparr>er_event_id = ''u1'', er_scope = home_scope, er_provider = ''p'', er_embedding = [Fin 1],
        er_embedding_space = None, er_now_ms = 4\<rparr> = Some (Inl err)"
proof -
  let ?q = "\<lparr>er_event_id = ''u1'', er_scope = home_scope, er_provider = ''p'', er_embedding = [Fin 1],
        er_embedding_space = None, er_now_ms = 4\<rparr>"
  have "ingestion_visible_to (heard Failed) home_scope"
    by (simp add: ingestion_visible_to_def memory_identity_local_def home_scope_def)
      (simp add: heard_def new_ingestion_entry_def hear_request_def)
  then have "\<exists>err. enrich_event vec_store vec_ops blocking_env (ledger Failed) ''m1'' ''a1'' ?q = Some (Inl err)
        \<and> (\<exists>x vs. err = EthicsBlocked x vs \<or> (\<exists>y. err = Hyphae y))"
    by (intro conjunct2 [OF blocked_content_settled_only_by_ingest [OF vec_store_faithful ledger_sorted
          ledger_lookup heard_decodes _ _ ledger_choose, where v = "[Fin 1]"]])
      (simp_all add: blocked_request blocked_event, simp_all add: hear_request_def heard_def new_ingestion_entry_def)
  then show ?thesis by blast
qed

definition other_request :: ingest_request where
  "other_request = hear_request\<lparr>ir_content := ''cd'', ir_embedding := None\<rparr>"

definition raw_batch :: batch_request where
  "raw_batch = \<lparr>br_batch_id = ''b1'', br_events = [hear_request\<lparr>ir_embedding := None\<rparr>, other_request], br_now_ms = 3\<rparr>"

definition empty_ledger :: "vec_state engine" where
  "empty_ledger = example_engine\<lparr>en_store := ([], Map.empty)\<rparr>"

theorem raw_batch_loses_event_witness:
  "\<exists>batch g'. ingest_raw_batch vec_store vec_ops blocking_env empty_ledger raw_batch home_scope ''h''
       = Some (Inr (batch, g'))
     \<and> lookup_doc (fst (en_store g')) (ingestion_key ''u1'')
       = Some (ingestion_to_record (new_ingestion_entry blocking_env other_request ''u1''
           (ingest_event_hash blocking_env other_request)))"
proof -
  have none: "lookup_doc (fst (en_store empty_ledger)) k = None" for k
    by (simp add: empty_ledger_def lookup_doc_def)
  have get: "get_ingestion_unscoped vec_store blocking_env (en_store empty_ledger) i = Some (Inr None)" for i
    by (simp add: get_ingestion_unscoped_def empty_ledger_def from_store_def lookup_doc_def)
  have choose: "choose_event_id vec_store blocking_env empty_ledger r = Some (Inr ''u1'')" for r
    by (simp add: choose_event_id_def same_id get)
  have "raw_entry vec_store blocking_env empty_ledger r
      = Some (Inr (new_ingestion_entry blocking_env r ''u1'' (ingest_event_hash blocking_env r)))" for r
    by (simp add: raw_entry_def choose get)
  then obtain batch g' where run: "ingest_raw_batch vec_store vec_ops blocking_env empty_ledger raw_batch home_scope ''h''
       = Some (Inr (batch, g'))"
    by (simp add: ingest_raw_batch_def raw_batch_def Let_def empty_ledger_def from_store_def)
  have "lookup_doc (fst (en_store g')) (ingestion_key ''u1'')
       = Some (ingestion_to_record (new_ingestion_entry blocking_env other_request ''u1''
           (ingest_event_hash blocking_env other_request)))"
    by (rule conjunct1 [OF raw_batch_loses_event [OF vec_store_faithful vec_ops_faithful _ _ choose choose none run]])
      (simp_all add: empty_ledger_def key_sorted_def raw_batch_def)
  with run show ?thesis by blast
qed

end
