(* ===== verification/Memory_Listing.thy ===== *)
theory Memory_Listing
  imports Engine_Result Filter_Claims "HOL-Library.Multiset" Rust_Collections Recall_Ranking
begin

text \<open>
  The queries of the Hyphae store and the loop by which the engine reads all rows of one: a page of
  \<open>LIFECYCLE_BATCH\<close> rows at a time, each row handed to the body of the loop, which may fail. As for the
  other operations of the store, a query is a function and \<open>faithful_query\<close> states what it promises;
  \<open>sat\<close> is the store's evaluator of filters.
\<close>

record sort_field =
  sf_path :: string
  sf_descending :: bool
  sf_nulls_last :: bool

record 'q query =
  qu_filter :: query_filter
  qu_sort :: "sort_field list"
  qu_cursor :: "'q option"
  qu_limit :: nat

record 'q query_result =
  qr_rows :: "doc list"
  qr_next :: "'q option"
  qr_matched :: u64

type_synonym ('s, 'q, 'e) query_op = "'s \<Rightarrow> 'q query \<Rightarrow> 'e + 'q query_result"

definition lifecycle_batch :: nat where
  "lifecycle_batch = 200"

fun fold_r :: "('b \<Rightarrow> 'a \<Rightarrow> 'x + 'a) \<Rightarrow> 'b list \<Rightarrow> 'a \<Rightarrow> 'x + 'a" where
  "fold_r f [] a = Inr a"
| "fold_r f (x # xs) a = r_bind (f x a) (fold_r f xs)"

partial_function (option) query_loop ::
  "('s, 'q, 'e) query_op \<Rightarrow> 's \<Rightarrow> query_filter \<Rightarrow> (doc \<Rightarrow> 'a \<Rightarrow> 'e engine_error + 'a) \<Rightarrow> 'q option \<Rightarrow> 'a
   \<Rightarrow> ('e, 'a) outcome" where
  "query_loop Q s f step cursor acc =
     (case Q s \<lparr>qu_filter = f, qu_sort = [], qu_cursor = cursor, qu_limit = lifecycle_batch\<rparr> of
        Inl e \<Rightarrow> Some (Inl (Hyphae e))
      | Inr r \<Rightarrow> (case fold_r step (qr_rows r) acc of
            Inl e \<Rightarrow> Some (Inl e)
          | Inr acc' \<Rightarrow> (case qr_next r of
                None \<Rightarrow> Some (Inr acc')
              | Some c \<Rightarrow> query_loop Q s f step (Some c) acc')))"

definition query_each ::
  "('s, 'q, 'e) query_op \<Rightarrow> 's \<Rightarrow> query_filter \<Rightarrow> (doc \<Rightarrow> 'a \<Rightarrow> 'e engine_error + 'a) \<Rightarrow> 'a
   \<Rightarrow> ('e, 'a) outcome" where
  "query_each Q s f step acc = query_loop Q s f step None acc"

text \<open>Rows come in key order unless a sort is asked for; a cursor continues after the rows of its page.\<close>

definition faithful_query ::
  "('s, 'q, 'e) query_op \<Rightarrow> (query_filter \<Rightarrow> doc \<Rightarrow> bool) \<Rightarrow> ('s \<Rightarrow> bool) \<Rightarrow> ('s \<Rightarrow> doc list)
   \<Rightarrow> ('s \<Rightarrow> query_filter \<Rightarrow> 'q option \<Rightarrow> doc list) \<Rightarrow> bool" where
  "faithful_query Q sat valid rows rest \<longleftrightarrow> query_semantics sat
     \<and> (\<forall>s f. valid s \<longrightarrow> rest s f None = filter (sat f) (rows s))
     \<and> (\<forall>s f c n r. valid s \<longrightarrow>
          Q s \<lparr>qu_filter = f, qu_sort = [], qu_cursor = c, qu_limit = n\<rparr> = Inr r \<longrightarrow>
          qr_rows r = take n (rest s f c) \<and> qr_matched r = word_of_nat (length (filter (sat f) (rows s)))
          \<and> (case qr_next r of None \<Rightarrow> length (rest s f c) \<le> n
             | Some c' \<Rightarrow> n < length (rest s f c) \<and> rest s f (Some c') = drop n (rest s f c)))
     \<and> (\<forall>s f so n r. valid s \<longrightarrow>
          Q s \<lparr>qu_filter = f, qu_sort = so, qu_cursor = None, qu_limit = n\<rparr> = Inr r \<longrightarrow>
          qr_matched r = word_of_nat (length (filter (sat f) (rows s)))
          \<and> (\<exists>ds. mset ds = mset (filter (sat f) (rows s)) \<and> qr_rows r = take n ds))"

lemma faithful_queryD:
  assumes "faithful_query Q sat valid rows rest"
  shows "query_semantics sat"
    and "valid s \<Longrightarrow> rest s f None = filter (sat f) (rows s)"
    and "valid s \<Longrightarrow> Q s \<lparr>qu_filter = f, qu_sort = [], qu_cursor = c, qu_limit = n\<rparr> = Inr r
      \<Longrightarrow> qr_rows r = take n (rest s f c)
        \<and> (case qr_next r of None \<Rightarrow> length (rest s f c) \<le> n
           | Some c' \<Rightarrow> n < length (rest s f c) \<and> rest s f (Some c') = drop n (rest s f c))"
    and "valid s \<Longrightarrow> Q s \<lparr>qu_filter = f, qu_sort = so, qu_cursor = None, qu_limit = n\<rparr> = Inr r
      \<Longrightarrow> qr_matched r = word_of_nat (length (filter (sat f) (rows s)))
        \<and> (\<exists>ds. mset ds = mset (filter (sat f) (rows s)) \<and> qr_rows r = take n ds)"
proof -
  note laws = assms [unfolded faithful_query_def]
  show "query_semantics sat" using laws by blast
  show "valid s \<Longrightarrow> rest s f None = filter (sat f) (rows s)" using laws by blast
  show "valid s \<Longrightarrow> Q s \<lparr>qu_filter = f, qu_sort = [], qu_cursor = c, qu_limit = n\<rparr> = Inr r
      \<Longrightarrow> qr_rows r = take n (rest s f c)
        \<and> (case qr_next r of None \<Rightarrow> length (rest s f c) \<le> n
           | Some c' \<Rightarrow> n < length (rest s f c) \<and> rest s f (Some c') = drop n (rest s f c))"
    using laws by blast
  show "valid s \<Longrightarrow> Q s \<lparr>qu_filter = f, qu_sort = so, qu_cursor = None, qu_limit = n\<rparr> = Inr r
      \<Longrightarrow> qr_matched r = word_of_nat (length (filter (sat f) (rows s)))
        \<and> (\<exists>ds. mset ds = mset (filter (sat f) (rows s)) \<and> qr_rows r = take n ds)"
    using laws by blast
qed

section \<open>The loop reads every row once\<close>

lemma fold_r_append: "fold_r f (xs @ ys) a = r_bind (fold_r f xs a) (fold_r f ys)"
proof (induction xs arbitrary: a)
  case (Cons x xs)
  then show ?case by (cases "f x a") simp_all
qed simp

lemma query_loop_spec:
  assumes Q: "faithful_query Q sat valid rows rest" and v: "valid s"
  shows "(\<exists>e. query_loop Q s f step c acc = Some (Inl (Hyphae e)))
    \<or> query_loop Q s f step c acc = Some (fold_r step (rest s f c) acc)"
proof (induction "length (rest s f c)" arbitrary: c acc rule: less_induct)
  case less
  let ?q = "\<lparr>qu_filter = f, qu_sort = [], qu_cursor = c, qu_limit = lifecycle_batch\<rparr>"
  show ?case
  proof (cases "Q s ?q")
    case (Inl e)
    then show ?thesis by (subst (1) query_loop.simps) simp
  next
    case (Inr r)
    note page = faithful_queryD(3) [OF Q v Inr]
    have split: "fold_r step (rest s f c) acc
        = r_bind (fold_r step (qr_rows r) acc) (fold_r step (drop lifecycle_batch (rest s f c)))"
      using page by (metis append_take_drop_id fold_r_append)
    show ?thesis
    proof (cases "fold_r step (qr_rows r) acc")
      case e: (Inl e)
      then show ?thesis by (subst (2) query_loop.simps) (simp add: Inr split)
    next
      case a: (Inr acc')
      show ?thesis
      proof (cases "qr_next r")
        case None
        with page have "drop lifecycle_batch (rest s f c) = []" by simp
        with None a Inr split show ?thesis by (subst (2) query_loop.simps) simp
      next
        case (Some c')
        with page have r: "lifecycle_batch < length (rest s f c)"
          "rest s f (Some c') = drop lifecycle_batch (rest s f c)" by simp_all
        then have "length (rest s f (Some c')) < length (rest s f c)" by (simp add: lifecycle_batch_def)
        from less [OF this, of acc'] have IH: "(\<exists>e. query_loop Q s f step (Some c') acc' = Some (Inl (Hyphae e)))
          \<or> query_loop Q s f step (Some c') acc' = Some (fold_r step (rest s f (Some c')) acc')" .
        have "query_loop Q s f step c acc = query_loop Q s f step (Some c') acc'"
          by (subst query_loop.simps) (simp add: Inr a Some)
        moreover have "fold_r step (rest s f c) acc = fold_r step (rest s f (Some c')) acc'"
          using split a r(2) by simp
        ultimately show ?thesis using IH by simp
      qed
    qed
  qed
qed

lemma query_each_spec:
  assumes "faithful_query Q sat valid rows rest" and "valid s"
  shows "(\<exists>e. query_each Q s f step acc = Some (Inl (Hyphae e)))
    \<or> query_each Q s f step acc = Some (fold_r step (filter (sat f) (rows s)) acc)"
  using query_loop_spec [OF assms, of f step None acc] faithful_queryD(2) [OF assms]
  by (simp add: query_each_def)

lemma query_each_Inr:
  assumes "faithful_query Q sat valid rows rest" and "valid s" and "query_each Q s f step acc = Some (Inr a)"
  shows "fold_r step (filter (sat f) (rows s)) acc = Inr a"
  using query_each_spec [OF assms(1,2), of f step acc] assms(3) by auto

section \<open>A concrete query\<close>

text \<open>Over a list of documents, with an offset as cursor; a sort is answered in key order, which the
  law about sorted queries leaves open.\<close>

definition list_query :: "('s \<Rightarrow> doc list) \<Rightarrow> ('s, nat, unit) query_op" where
  "list_query rows s q =
     (let all = filter (plain_sat (qu_filter q)) (rows s);
          off = (case qu_cursor q of None \<Rightarrow> 0 | Some k \<Rightarrow> k)
      in Inr \<lparr>qr_rows = take (qu_limit q) (drop off all),
              qr_next = (if off + qu_limit q < length all then Some (off + qu_limit q) else None),
              qr_matched = word_of_nat (length all)\<rparr>)"

definition list_query_rest :: "('s \<Rightarrow> doc list) \<Rightarrow> 's \<Rightarrow> query_filter \<Rightarrow> nat option \<Rightarrow> doc list" where
  "list_query_rest rows s f c =
     drop (case c of None \<Rightarrow> 0 | Some k \<Rightarrow> k) (filter (plain_sat f) (rows s))"

lemma list_query_faithful: "faithful_query (list_query rows) plain_sat valid rows (list_query_rest rows)"
proof -
  have "\<exists>ds. mset ds = mset (filter (plain_sat f) (rows s))
      \<and> take n (filter (plain_sat f) (rows s)) = take n ds" for s f n
    by blast
  then show ?thesis
    unfolding faithful_query_def
    by (auto simp: plain_query_semantics list_query_def list_query_rest_def Let_def add.commute
        simp del: mset_filter split: option.splits if_splits)
qed

text \<open>
  The listing operations of \<open>engine.rs\<close>: the corpus a recall is authorized for, the listing of memories
  under a filter, its policy-safe pages and the counters. \<open>Q\<close> is
  the query operation of the store.
\<close>

definition from_filter :: "(filter_error + 'a) option \<Rightarrow> ('e, 'a) outcome" where
  "from_filter r = (case r of
     None \<Rightarrow> None | Some (Inl e) \<Rightarrow> m_fail (FilterError e) | Some (Inr x) \<Rightarrow> m_return x)"

definition decode_memory :: "rust_env \<Rightarrow> doc \<Rightarrow> 'e engine_error + memory" where
  "decode_memory E d = (case memory_from_record (env_b3 E) (env_q15_ok E) d of Inl e \<Rightarrow> Inl (Decode e) | Inr m \<Rightarrow> Inr m)"

definition holds_memory :: "rust_env \<Rightarrow> doc \<Rightarrow> memory \<Rightarrow> bool" where
  "holds_memory E d m \<longleftrightarrow> memory_from_record (env_b3 E) (env_q15_ok E) d = Inr m"

lemma decode_memory_Inr: "decode_memory E d = Inr m \<longleftrightarrow> holds_memory E d m"
  by (simp add: decode_memory_def holds_memory_def split: sum.splits)

lemma holds_memory_id: "holds_memory E d m \<Longrightarrow> mem_id m = doc_key d"
  unfolding holds_memory_def memory_from_record_def
  by (auto simp: r_bind_Inr split: sum.splits if_splits)

definition with_requested :: "query_filter \<Rightarrow> memory_filter option \<Rightarrow> ('e, query_filter) outcome" where
  "with_requested authorization requested = (case requested of
     None \<Rightarrow> m_return authorization
   | Some f \<Rightarrow> m_bind (from_filter (compile_filter f)) (\<lambda>q. m_return (QAll [authorization, q])))"

section \<open>The authorized corpus\<close>

definition owner_filter :: "recall_scope \<Rightarrow> query_filter" where
  "owner_filter sc = QAll [string_eq ''kind'' memory_kind, string_eq ''tenant_id'' (rs_tenant_id sc),
     string_eq ''user_id'' (rs_user_id sc)]"

definition recallable :: "recall_scope \<Rightarrow> memory \<Rightarrow> bool" where
  "recallable sc m \<longleftrightarrow> memory_visible_to m sc \<and> mem_state m \<noteq> Archived
     \<and> (case governance m of None \<Rightarrow> False | Some g \<Rightarrow> gov_treatment g \<noteq> Treatment_Quarantined)"

type_synonym corpus = "(bytes \<times> memory) list"

definition collect_recallable ::
  "rust_env \<Rightarrow> recall_scope \<Rightarrow> doc \<Rightarrow> corpus \<Rightarrow> 'e engine_error + corpus" where
  "collect_recallable E sc d ms =
     r_bind (decode_memory E d) (\<lambda>m. Inr (if recallable sc m then entry_insert (mem_id m) m ms else ms))"

definition authorized_records ::
  "('s, 'q, 'e) query_op \<Rightarrow> rust_env \<Rightarrow> 's engine \<Rightarrow> recall_scope \<Rightarrow> memory_filter option
   \<Rightarrow> ('e, corpus) outcome" where
  "authorized_records Q E g sc requested =
     m_bind (with_requested (owner_filter sc) requested) (\<lambda>f.
       query_each Q (en_store g) f (collect_recallable E sc) [])"

text \<open>A count of the address space as a 64-bit integer, saturating.\<close>

definition saturated_count :: "nat \<Rightarrow> u64" where
  "saturated_count n = (if n < 2 ^ 64 then word_of_nat n else - 1)"

definition count_visible ::
  "('s, 'q, 'e) query_op \<Rightarrow> rust_env \<Rightarrow> 's engine \<Rightarrow> recall_scope \<Rightarrow> ('e, u64) outcome" where
  "count_visible Q E g sc =
     m_bind (authorized_records Q E g sc None) (\<lambda>ms. m_return (saturated_count (length ms)))"

definition kind_filter :: query_filter where
  "kind_filter = string_eq ''kind'' memory_kind"

definition count_memories :: "('s, 'q, 'e) query_op \<Rightarrow> 's engine \<Rightarrow> ('e, u64) outcome" where
  "count_memories Q g =
     m_bind (from_store (Q (en_store g) \<lparr>qu_filter = kind_filter, qu_sort = [], qu_cursor = None, qu_limit = 1\<rparr>))
       (\<lambda>r. m_return (qr_matched r))"

section \<open>Listing\<close>

record list_request =
  lm_scope :: recall_scope
  lm_filter :: "memory_filter option"
  lm_limit :: nat

definition list_memories ::
  "('s, 'q, 'e) query_op \<Rightarrow> rust_env \<Rightarrow> 's engine \<Rightarrow> list_request \<Rightarrow> ('e, memory list \<times> u64) outcome" where
  "list_memories Q E g req =
     m_bind (require_tenant (en_tenant g) (rs_tenant_id (lm_scope req))) (\<lambda>_.
     m_bind (with_requested (authorization_filter (lm_scope req)) (lm_filter req)) (\<lambda>f.
     m_bind (from_store (Q (en_store g)
       \<lparr>qu_filter = f,
        qu_sort = [\<lparr>sf_path = ''created_at_ms'', sf_descending = True, sf_nulls_last = True\<rparr>],
        qu_cursor = None, qu_limit = max 1 (min 200 (lm_limit req))\<rparr>)) (\<lambda>r.
     m_bind (from_decode (r_collect (memory_from_record (env_b3 E) (env_q15_ok E)) (qr_rows r))) (\<lambda>ms.
       m_return (ms, qr_matched r)))))"

text \<open>\<open>usize::saturating_add\<close> is exact: a page offset beyond the address space ends the listing either way.\<close>

definition list_disclosed_page ::
  "('s, 'c, 'e) hyphae \<Rightarrow> ('s, 'q, 'e) query_op \<Rightarrow> rust_env \<Rightarrow> 's engine \<Rightarrow> recall_scope \<Rightarrow> nat \<Rightarrow> nat
   \<Rightarrow> disclosure_authority \<Rightarrow> memory_purpose \<Rightarrow> ('e, hydrated_memory list \<times> nat option) outcome" where
  "list_disclosed_page H Q E g sc limit offset auth purpose =
     m_bind (authorized_records Q E g sc None) (\<lambda>ms.
       let ids = map (mem_id \<circ> snd) ms; limit = max 1 (min 200 limit)
       in m_bind (hydrate H (env_b3 E) (env_q15_ok E) (en_tenant g) (en_store g) sc auth purpose
         (take limit (drop offset ids))) (\<lambda>hs.
            m_return (hs, if offset + limit < length ids then Some (offset + limit) else None)))"

definition list_disclosed_memories ::
  "('s, 'c, 'e) hyphae \<Rightarrow> ('s, 'q, 'e) query_op \<Rightarrow> rust_env \<Rightarrow> 's engine \<Rightarrow> recall_scope \<Rightarrow> nat
   \<Rightarrow> disclosure_authority \<Rightarrow> memory_purpose \<Rightarrow> ('e, hydrated_memory list) outcome" where
  "list_disclosed_memories H Q E g sc limit auth purpose =
     m_bind (list_disclosed_page H Q E g sc limit 0 auth purpose) (\<lambda>(hs, _). m_return hs)"

end
