(* ===== verification/Graph.thy ===== *)
theory Graph
  imports Claim Ingestion
begin

text \<open>
  \<open>graph.rs\<close>: canonical entities with their aliases, merges and splits, the ontology of entity and
  relation types, temporal relations and the bindings of memories, with the documents they are stored
  as. Parameters are those of \<open>Claim\<close>; \<open>b3\<close> is the hexadecimal digest, \<open>low\<close> is \<open>to_lowercase\<close>.
\<close>

section \<open>Shared readers and writers\<close>

text \<open>A graph document keeps no conversation: its owner is tenant, user, project and session.\<close>

definition graph_scope_fields :: "recall_scope \<Rightarrow> fields" where
  "graph_scope_fields sc =
     [''tenant_id'' \<mapsto> VString (rs_tenant_id sc), ''user_id'' \<mapsto> VString (rs_user_id sc),
      ''project_id'' \<mapsto> opt_string (rs_project_id sc), ''session_id'' \<mapsto> opt_string (rs_session_id sc)]"

definition graph_scope_from_fields :: "fields \<Rightarrow> recall_scope decoded" where
  "graph_scope_from_fields fs =
     r_bind (checked_field valid_identity fs ''tenant_id'' ''tenant_id'') (\<lambda>t.
     r_bind (checked_field valid_identity fs ''user_id'' ''user_id'') (\<lambda>u.
     r_bind (required_identity fs ''project_id'') (\<lambda>p.
     r_bind (required_identity fs ''session_id'') (\<lambda>s.
       Inr \<lparr>rs_tenant_id = t, rs_user_id = u, rs_project_id = p, rs_conversation_id = None,
            rs_session_id = s\<rparr>))))"

definition graph_scope_visible :: "recall_scope \<Rightarrow> recall_scope \<Rightarrow> bool" where
  "graph_scope_visible owner req \<longleftrightarrow>
     rs_tenant_id owner = rs_tenant_id req \<and> rs_user_id owner = rs_user_id req
     \<and> rs_project_id owner = rs_project_id req \<and> rs_session_id owner = rs_session_id req"

definition graph_object :: "bytes \<Rightarrow> string \<Rightarrow> doc \<Rightarrow> fields decoded" where
  "graph_object p kind' rec =
     (if \<not> prefix p (doc_key rec) then Inl KeyErr else
      r_bind (root_fields (doc_value rec)) (\<lambda>fs.
      r_bind (string_field fs ''kind'') (\<lambda>k.
      if k \<noteq> kind' then Inl (FieldErr ''kind'') else Inr fs)))"

definition bit_value :: "bool \<Rightarrow> val" where
  "bit_value b = VInteger (if b then 1 else 0)"

definition bit_field :: "fields \<Rightarrow> string \<Rightarrow> bool decoded" where
  "bit_field fs f =
     (if fs f = Some (VInteger 0) then Inr False
      else if fs f = Some (VInteger 1) then Inr True
      else Inl (FieldErr f))"

definition graph_hash_scope :: "recall_scope \<Rightarrow> bytes" where
  "graph_hash_scope sc =
     write_hash_field ''tenant_id'' (rs_tenant_id sc) @ write_hash_field ''user_id'' (rs_user_id sc)
     @ write_optional_text ''project_id'' (rs_project_id sc)
     @ write_optional_text ''session_id'' (rs_session_id sc)"

definition normalize_label :: "(bytes \<Rightarrow> bytes) \<Rightarrow> bytes \<Rightarrow> bytes" where
  "normalize_label low s = low (join_with '' '' (split_whitespace s))"

definition max_graph_text_bytes :: nat where
  "max_graph_text_bytes = 4096"

definition validate_graph_text :: "string \<Rightarrow> string \<Rightarrow> invalid_graph + unit" where
  "validate_graph_text s f =
     (if s = [] \<or> trim s \<noteq> s \<or> max_graph_text_bytes < length s \<or> has_control s
      then Inl (GraphText f) else Inr ())"

definition validate_interval :: "i64 option \<Rightarrow> i64 option \<Rightarrow> invalid_graph + unit" where
  "validate_interval from' to' = (if empty_interval from' to' then Inl GraphValidity else Inr ())"

definition built_in_entity_type :: "string \<Rightarrow> bool" where
  "built_in_entity_type s \<longleftrightarrow> s = ''person'' \<or> s = ''technology'' \<or> s = ''project''"

definition known_and_valid :: "i64 \<Rightarrow> i64 option \<Rightarrow> i64 option \<Rightarrow> i64 \<Rightarrow> i64 \<Rightarrow> bool" where
  "known_and_valid recorded from' to' t known \<longleftrightarrow> sint recorded \<le> sint known
     \<and> (case from' of None \<Rightarrow> True | Some a \<Rightarrow> sint a \<le> sint t)
     \<and> (case to' of None \<Rightarrow> True | Some b \<Rightarrow> sint t < sint b)"

section \<open>Evidence\<close>

record graph_evidence =
  gv_event_id :: string
  gv_excerpt :: "string option"

definition evidence_item_value :: "graph_evidence \<Rightarrow> val" where
  "evidence_item_value e =
     VObject [''event_id'' \<mapsto> VString (gv_event_id e), ''excerpt'' \<mapsto> opt_string (gv_excerpt e)]"

definition evidence_value :: "graph_evidence list \<Rightarrow> val" where
  "evidence_value es = VArray (map evidence_item_value es)"

definition evidence_item :: "(string \<Rightarrow> bool) \<Rightarrow> val \<Rightarrow> graph_evidence decoded" where
  "evidence_item uuid_ok v = (case v of
     VObject fs \<Rightarrow>
       r_bind (checked_field uuid_ok fs ''event_id'' ''event_id'') (\<lambda>i.
       r_bind (required_string_option fs ''excerpt'') (\<lambda>x.
         Inr \<lparr>gv_event_id = i, gv_excerpt = x\<rparr>))
   | _ \<Rightarrow> Inl (FieldErr ''evidence''))"

definition evidence_field :: "(string \<Rightarrow> bool) \<Rightarrow> fields \<Rightarrow> graph_evidence list decoded" where
  "evidence_field uuid_ok fs = (case fs ''evidence'' of
     Some (VArray vs) \<Rightarrow> r_collect (evidence_item uuid_ok) vs
   | _ \<Rightarrow> Inl (FieldErr ''evidence''))"

section \<open>Entities\<close>

record entity_request =
  nq_scope :: recall_scope
  nq_type :: string
  nq_label :: string
  nq_recorded_at_ms :: i64
  nq_evidence :: "graph_evidence list"

record canonical_entity =
  ne_id :: string
  ne_scope :: recall_scope
  ne_type :: string
  ne_label :: string
  ne_recorded_at_ms :: i64
  ne_evidence_count :: u64
  ne_evidence :: "graph_evidence list"

definition entity_id_preimage :: "(bytes \<Rightarrow> bytes) \<Rightarrow> entity_request \<Rightarrow> bytes" where
  "entity_id_preimage low req =
     ''celiums-memory/entity-id/v1'' @ graph_hash_scope (nq_scope req)
     @ write_hash_field ''entity_type'' (nq_type req)
     @ write_hash_field ''canonical_label'' (normalize_label low (nq_label req))"

definition entity_of_request ::
  "(bytes \<Rightarrow> bytes) \<Rightarrow> (bytes \<Rightarrow> string) \<Rightarrow> (bytes \<Rightarrow> bytes) \<Rightarrow> entity_request \<Rightarrow> canonical_entity" where
  "entity_of_request b3_raw uuid_text low req =
     \<lparr>ne_id = uuid_text (uuid_bytes (b3_raw (entity_id_preimage low req))), ne_scope = nq_scope req,
      ne_type = nq_type req, ne_label = nq_label req, ne_recorded_at_ms = nq_recorded_at_ms req,
      ne_evidence_count = word_of_nat (length (nq_evidence req)), ne_evidence = nq_evidence req\<rparr>"

definition canonical_entity_prefix :: bytes where
  "canonical_entity_prefix = ''__celiums/graph/entity/''"

definition canonical_entity_key :: "string \<Rightarrow> bytes" where
  "canonical_entity_key i = canonical_entity_prefix @ i"

definition canonical_to_record :: "canonical_entity \<Rightarrow> doc" where
  "canonical_to_record e =
     \<lparr>doc_key = canonical_entity_key (ne_id e),
      doc_value = VObject (graph_scope_fields (ne_scope e) ++
        [''kind'' \<mapsto> VString ''canonical_entity'', ''entity_id'' \<mapsto> VString (ne_id e),
         ''entity_type'' \<mapsto> VString (ne_type e), ''canonical_label'' \<mapsto> VString (ne_label e),
         ''recorded_at_ms'' \<mapsto> VInteger (ne_recorded_at_ms e),
         ''evidence_count'' \<mapsto> VInteger (i64_of_u64_sat (ne_evidence_count e)),
         ''evidence'' \<mapsto> evidence_value (ne_evidence e)])\<rparr>"

definition canonical_from_record :: "(string \<Rightarrow> bool) \<Rightarrow> doc \<Rightarrow> canonical_entity decoded" where
  "canonical_from_record uuid_ok rec =
     r_bind (graph_object canonical_entity_prefix ''canonical_entity'' rec) (\<lambda>fs.
     r_bind (checked_field uuid_ok fs ''entity_id'' ''entity_id'') (\<lambda>i.
     r_bind (graph_scope_from_fields fs) (\<lambda>sc.
     r_bind (string_field fs ''entity_type'') (\<lambda>ty.
     r_bind (string_field fs ''canonical_label'') (\<lambda>la.
     r_bind (integer_field fs ''recorded_at_ms'') (\<lambda>re.
     r_bind (unsigned_field fs ''evidence_count'') (\<lambda>n.
     r_bind (evidence_field uuid_ok fs) (\<lambda>es.
       Inr \<lparr>ne_id = i, ne_scope = sc, ne_type = ty, ne_label = la, ne_recorded_at_ms = re,
            ne_evidence_count = n, ne_evidence = es\<rparr>))))))))"

section \<open>Ontology\<close>

text \<open>A request to define a type has the fields of the definition and is stored as it is.\<close>

record entity_type_definition =
  yt_scope :: recall_scope
  yt_type_id :: string
  yt_ontology_version :: string
  yt_recorded_at_ms :: i64

definition entity_type_prefix :: bytes where
  "entity_type_prefix = ''__celiums/graph/ontology/entity_type/''"

definition entity_type_preimage :: "entity_type_definition \<Rightarrow> bytes" where
  "entity_type_preimage d =
     graph_hash_scope (yt_scope d) @ write_hash_field ''type_id'' (yt_type_id d)
     @ write_hash_field ''ontology_version'' (yt_ontology_version d)"

definition entity_type_to_record :: "(bytes \<Rightarrow> string) \<Rightarrow> entity_type_definition \<Rightarrow> doc" where
  "entity_type_to_record b3 d =
     \<lparr>doc_key = entity_type_prefix @ b3 (entity_type_preimage d),
      doc_value = VObject (graph_scope_fields (yt_scope d) ++
        [''kind'' \<mapsto> VString ''entity_type'', ''type_id'' \<mapsto> VString (yt_type_id d),
         ''ontology_version'' \<mapsto> VString (yt_ontology_version d),
         ''recorded_at_ms'' \<mapsto> VInteger (yt_recorded_at_ms d)])\<rparr>"

definition entity_type_from_record :: "doc \<Rightarrow> entity_type_definition decoded" where
  "entity_type_from_record rec =
     r_bind (graph_object entity_type_prefix ''entity_type'' rec) (\<lambda>fs.
     r_bind (graph_scope_from_fields fs) (\<lambda>sc.
     r_bind (string_field fs ''type_id'') (\<lambda>ty.
     r_bind (string_field fs ''ontology_version'') (\<lambda>ve.
     r_bind (integer_field fs ''recorded_at_ms'') (\<lambda>re.
       Inr \<lparr>yt_scope = sc, yt_type_id = ty, yt_ontology_version = ve, yt_recorded_at_ms = re\<rparr>)))))"

datatype relation_direction = Directed | Undirected

fun relation_direction_str :: "relation_direction \<Rightarrow> string" where
  "relation_direction_str Directed = ''directed''"
| "relation_direction_str Undirected = ''undirected''"

definition parse_relation_direction :: "string \<Rightarrow> relation_direction option" where
  "parse_relation_direction s =
     (if s = ''directed'' then Some Directed else if s = ''undirected'' then Some Undirected else None)"

interpretation relation_direction: enum_codec relation_direction_str parse_relation_direction
  by unfold_locales ((case_tac x; simp add: parse_relation_direction_def),
    (auto simp: parse_relation_direction_def split: if_splits))

record relation_type_definition =
  rt_scope :: recall_scope
  rt_type :: string
  rt_source_types :: "string list"
  rt_target_types :: "string list"
  rt_direction :: relation_direction
  rt_traversable :: bool
  rt_ontology_version :: string
  rt_recorded_at_ms :: i64

definition relation_type_prefix :: bytes where
  "relation_type_prefix = ''__celiums/graph/ontology/relation_type/''"

definition relation_type_preimage :: "relation_type_definition \<Rightarrow> bytes" where
  "relation_type_preimage d =
     graph_hash_scope (rt_scope d) @ write_hash_field ''relation_type'' (rt_type d)
     @ write_hash_field ''ontology_version'' (rt_ontology_version d)"

definition relation_type_to_record :: "(bytes \<Rightarrow> string) \<Rightarrow> relation_type_definition \<Rightarrow> doc" where
  "relation_type_to_record b3 d =
     \<lparr>doc_key = relation_type_prefix @ b3 (relation_type_preimage d),
      doc_value = VObject (graph_scope_fields (rt_scope d) ++
        [''kind'' \<mapsto> VString ''relation_type'', ''relation_type'' \<mapsto> VString (rt_type d),
         ''source_entity_types'' \<mapsto> string_array_value (rt_source_types d),
         ''target_entity_types'' \<mapsto> string_array_value (rt_target_types d),
         ''direction'' \<mapsto> VString (relation_direction_str (rt_direction d)),
         ''traversable'' \<mapsto> bit_value (rt_traversable d),
         ''ontology_version'' \<mapsto> VString (rt_ontology_version d),
         ''recorded_at_ms'' \<mapsto> VInteger (rt_recorded_at_ms d)])\<rparr>"

definition relation_type_from_record :: "doc \<Rightarrow> relation_type_definition decoded" where
  "relation_type_from_record rec =
     r_bind (graph_object relation_type_prefix ''relation_type'' rec) (\<lambda>fs.
     r_bind (graph_scope_from_fields fs) (\<lambda>sc.
     r_bind (string_field fs ''relation_type'') (\<lambda>ty.
     r_bind (string_array_field fs ''source_entity_types'') (\<lambda>ss.
     r_bind (string_array_field fs ''target_entity_types'') (\<lambda>ts.
     r_bind (parsed_field parse_relation_direction fs ''direction'') (\<lambda>d.
     r_bind (bit_field fs ''traversable'') (\<lambda>tr.
     r_bind (string_field fs ''ontology_version'') (\<lambda>ve.
     r_bind (integer_field fs ''recorded_at_ms'') (\<lambda>re.
       Inr \<lparr>rt_scope = sc, rt_type = ty, rt_source_types = ss, rt_target_types = ts,
            rt_direction = d, rt_traversable = tr, rt_ontology_version = ve,
            rt_recorded_at_ms = re\<rparr>)))))))))"

section \<open>Aliases\<close>

record alias_request =
  aq_scope :: recall_scope
  aq_entity_id :: string
  aq_alias :: string
  aq_valid_from_ms :: "i64 option"
  aq_valid_to_ms :: "i64 option"
  aq_recorded_at_ms :: i64
  aq_evidence :: "graph_evidence list"

record entity_alias =
  al_entity_id :: string
  al_alias :: string
  al_normalized :: string
  al_valid_from_ms :: "i64 option"
  al_valid_to_ms :: "i64 option"
  al_recorded_at_ms :: i64
  al_evidence :: "graph_evidence list"

definition alias_of_request :: "(bytes \<Rightarrow> bytes) \<Rightarrow> alias_request \<Rightarrow> entity_alias" where
  "alias_of_request low req =
     \<lparr>al_entity_id = aq_entity_id req, al_alias = aq_alias req,
      al_normalized = normalize_label low (aq_alias req), al_valid_from_ms = aq_valid_from_ms req,
      al_valid_to_ms = aq_valid_to_ms req, al_recorded_at_ms = aq_recorded_at_ms req,
      al_evidence = aq_evidence req\<rparr>"

definition alias_valid_at :: "entity_alias \<Rightarrow> i64 \<Rightarrow> i64 \<Rightarrow> bool" where
  "alias_valid_at a = known_and_valid (al_recorded_at_ms a) (al_valid_from_ms a) (al_valid_to_ms a)"

definition alias_prefix :: bytes where
  "alias_prefix = ''__celiums/graph/alias/''"

definition alias_preimage :: "recall_scope \<Rightarrow> string \<Rightarrow> entity_alias \<Rightarrow> bytes" where
  "alias_preimage sc ty a =
     graph_hash_scope sc @ write_hash_field ''entity_type'' ty
     @ write_hash_field ''normalized_alias'' (al_normalized a)
     @ write_hash_field ''entity_id'' (al_entity_id a)"

definition alias_to_record :: "(bytes \<Rightarrow> string) \<Rightarrow> recall_scope \<Rightarrow> string \<Rightarrow> entity_alias \<Rightarrow> doc" where
  "alias_to_record b3 sc ty a =
     \<lparr>doc_key = alias_prefix @ b3 (alias_preimage sc ty a),
      doc_value = VObject (graph_scope_fields sc ++
        [''kind'' \<mapsto> VString ''entity_alias'', ''entity_id'' \<mapsto> VString (al_entity_id a),
         ''entity_type'' \<mapsto> VString ty, ''alias'' \<mapsto> VString (al_alias a),
         ''normalized_alias'' \<mapsto> VString (al_normalized a),
         ''valid_from_ms'' \<mapsto> opt_integer (al_valid_from_ms a),
         ''valid_to_ms'' \<mapsto> opt_integer (al_valid_to_ms a),
         ''recorded_at_ms'' \<mapsto> VInteger (al_recorded_at_ms a),
         ''evidence'' \<mapsto> evidence_value (al_evidence a)])\<rparr>"

definition alias_from_record ::
  "(string \<Rightarrow> bool) \<Rightarrow> doc \<Rightarrow> (entity_alias \<times> recall_scope \<times> string) decoded" where
  "alias_from_record uuid_ok rec =
     r_bind (graph_object alias_prefix ''entity_alias'' rec) (\<lambda>fs.
     r_bind (checked_field uuid_ok fs ''entity_id'' ''entity_id'') (\<lambda>i.
     r_bind (string_field fs ''alias'') (\<lambda>al.
     r_bind (string_field fs ''normalized_alias'') (\<lambda>no.
     r_bind (required_integer_option fs ''valid_from_ms'') (\<lambda>vf.
     r_bind (required_integer_option fs ''valid_to_ms'') (\<lambda>vt.
     r_bind (integer_field fs ''recorded_at_ms'') (\<lambda>re.
     r_bind (evidence_field uuid_ok fs) (\<lambda>es.
     r_bind (graph_scope_from_fields fs) (\<lambda>sc.
     r_bind (string_field fs ''entity_type'') (\<lambda>ty.
       Inr (\<lparr>al_entity_id = i, al_alias = al, al_normalized = no, al_valid_from_ms = vf,
             al_valid_to_ms = vt, al_recorded_at_ms = re, al_evidence = es\<rparr>, sc, ty)))))))))))"

section \<open>Merges and splits\<close>

datatype lineage_type = MergedInto | SplitInto

fun lineage_type_str :: "lineage_type \<Rightarrow> string" where
  "lineage_type_str MergedInto = ''merged_into''"
| "lineage_type_str SplitInto = ''split_into''"

definition parse_lineage_type :: "string \<Rightarrow> lineage_type option" where
  "parse_lineage_type s =
     (if s = ''merged_into'' then Some MergedInto
      else if s = ''split_into'' then Some SplitInto else None)"

interpretation lineage_type: enum_codec lineage_type_str parse_lineage_type
  by unfold_locales ((case_tac x; simp add: parse_lineage_type_def),
    (auto simp: parse_lineage_type_def split: if_splits))

record lineage_request =
  lq_scope :: recall_scope
  lq_source :: string
  lq_targets :: "string list"
  lq_type :: lineage_type
  lq_effective_at_ms :: i64
  lq_recorded_at_ms :: i64
  lq_evidence :: "graph_evidence list"

record entity_lineage =
  li_id :: string
  li_source :: string
  li_targets :: "string list"
  li_type :: lineage_type
  li_effective_at_ms :: i64
  li_recorded_at_ms :: i64
  li_evidence :: "graph_evidence list"

definition lineage_preimage :: "lineage_request \<Rightarrow> bytes" where
  "lineage_preimage req =
     ''celiums-memory/entity-lineage/v1'' @ write_hash_field ''source_entity_id'' (lq_source req)
     @ concat (map (write_hash_field ''target_entity_id'') (lq_targets req))
     @ write_hash_field ''lineage_type'' (lineage_type_str (lq_type req))
     @ write_hash_field ''effective_at_ms'' (i64_le (lq_effective_at_ms req))"

definition lineage_of_request ::
  "(bytes \<Rightarrow> bytes) \<Rightarrow> (bytes \<Rightarrow> string) \<Rightarrow> lineage_request \<Rightarrow> entity_lineage" where
  "lineage_of_request b3_raw uuid_text req =
     \<lparr>li_id = uuid_text (uuid_bytes (b3_raw (lineage_preimage req))), li_source = lq_source req,
      li_targets = lq_targets req, li_type = lq_type req, li_effective_at_ms = lq_effective_at_ms req,
      li_recorded_at_ms = lq_recorded_at_ms req, li_evidence = lq_evidence req\<rparr>"

definition lineage_prefix :: bytes where
  "lineage_prefix = ''__celiums/graph/lineage/''"

definition lineage_to_record :: "recall_scope \<Rightarrow> entity_lineage \<Rightarrow> doc" where
  "lineage_to_record sc l =
     \<lparr>doc_key = lineage_prefix @ li_id l,
      doc_value = VObject (graph_scope_fields sc ++
        [''kind'' \<mapsto> VString ''entity_lineage'', ''id'' \<mapsto> VString (li_id l),
         ''source_entity_id'' \<mapsto> VString (li_source l),
         ''target_entity_ids'' \<mapsto> string_array_value (li_targets l),
         ''lineage_type'' \<mapsto> VString (lineage_type_str (li_type l)),
         ''effective_at_ms'' \<mapsto> VInteger (li_effective_at_ms l),
         ''recorded_at_ms'' \<mapsto> VInteger (li_recorded_at_ms l),
         ''evidence'' \<mapsto> evidence_value (li_evidence l)])\<rparr>"

definition entity_ids_field :: "(string \<Rightarrow> bool) \<Rightarrow> fields \<Rightarrow> string \<Rightarrow> string list decoded" where
  "entity_ids_field uuid_ok fs f =
     r_bind (string_array_field fs f)
       (r_collect (\<lambda>s. if uuid_ok s then Inr s else Inl (FieldErr ''entity_id'')))"

definition lineage_from_record :: "(string \<Rightarrow> bool) \<Rightarrow> doc \<Rightarrow> (entity_lineage \<times> recall_scope) decoded" where
  "lineage_from_record uuid_ok rec =
     r_bind (graph_object lineage_prefix ''entity_lineage'' rec) (\<lambda>fs.
     r_bind (string_field fs ''id'') (\<lambda>i.
     r_bind (checked_field uuid_ok fs ''source_entity_id'' ''entity_id'') (\<lambda>so.
     r_bind (entity_ids_field uuid_ok fs ''target_entity_ids'') (\<lambda>ts.
     r_bind (parsed_field parse_lineage_type fs ''lineage_type'') (\<lambda>ty.
     r_bind (integer_field fs ''effective_at_ms'') (\<lambda>ef.
     r_bind (integer_field fs ''recorded_at_ms'') (\<lambda>re.
     r_bind (evidence_field uuid_ok fs) (\<lambda>es.
     r_bind (graph_scope_from_fields fs) (\<lambda>sc.
       Inr (\<lparr>li_id = i, li_source = so, li_targets = ts, li_type = ty, li_effective_at_ms = ef,
             li_recorded_at_ms = re, li_evidence = es\<rparr>, sc))))))))))"

section \<open>Relations\<close>

record relation_request =
  eq_scope :: recall_scope
  eq_source :: string
  eq_type :: string
  eq_target :: string
  eq_confidence :: f64
  eq_valid_from_ms :: "i64 option"
  eq_valid_to_ms :: "i64 option"
  eq_recorded_at_ms :: i64
  eq_evidence :: "graph_evidence list"

record entity_relation =
  el_id :: string
  el_scope :: recall_scope
  el_source :: string
  el_type :: string
  el_target :: string
  el_ontology_version :: string
  el_direction :: relation_direction
  el_traversable :: bool
  el_confidence_nanos :: i64
  el_valid_from_ms :: "i64 option"
  el_valid_to_ms :: "i64 option"
  el_recorded_at_ms :: i64
  el_evidence :: "graph_evidence list"
  el_evidence_count :: u64

definition hash_graph_evidence :: "graph_evidence \<Rightarrow> bytes" where
  "hash_graph_evidence e =
     write_hash_field ''event_id'' (gv_event_id e) @ write_optional_text ''excerpt'' (gv_excerpt e)"

definition relation_preimage :: "relation_request \<Rightarrow> relation_type_definition \<Rightarrow> bytes" where
  "relation_preimage req d =
     ''celiums-memory/entity-relation/v1'' @ graph_hash_scope (eq_scope req)
     @ write_hash_field ''source_entity_id'' (eq_source req)
     @ write_hash_field ''relation_type'' (eq_type req)
     @ write_hash_field ''target_entity_id'' (eq_target req)
     @ write_hash_field ''ontology_version'' (rt_ontology_version d)
     @ write_optional_i64 ''valid_from_ms'' (eq_valid_from_ms req)
     @ write_optional_i64 ''valid_to_ms'' (eq_valid_to_ms req)
     @ concat (map hash_graph_evidence (eq_evidence req))"

definition relation_of_request ::
  "(bytes \<Rightarrow> bytes) \<Rightarrow> (bytes \<Rightarrow> string) \<Rightarrow> relation_request \<Rightarrow> relation_type_definition
   \<Rightarrow> entity_relation" where
  "relation_of_request b3_raw uuid_text req d =
     \<lparr>el_id = uuid_text (uuid_bytes (b3_raw (relation_preimage req d))), el_scope = eq_scope req,
      el_source = eq_source req, el_type = eq_type req, el_target = eq_target req,
      el_ontology_version = rt_ontology_version d, el_direction = rt_direction d,
      el_traversable = rt_traversable d, el_confidence_nanos = to_nanos (eq_confidence req),
      el_valid_from_ms = eq_valid_from_ms req, el_valid_to_ms = eq_valid_to_ms req,
      el_recorded_at_ms = eq_recorded_at_ms req, el_evidence = eq_evidence req,
      el_evidence_count = word_of_nat (length (eq_evidence req))\<rparr>"

definition relation_prefix :: bytes where
  "relation_prefix = ''__celiums/graph/relation/''"

definition relation_key :: "string \<Rightarrow> bytes" where
  "relation_key i = relation_prefix @ i"

definition relation_valid_at :: "entity_relation \<Rightarrow> i64 \<Rightarrow> i64 \<Rightarrow> bool" where
  "relation_valid_at r = known_and_valid (el_recorded_at_ms r) (el_valid_from_ms r) (el_valid_to_ms r)"

definition relation_to_record :: "entity_relation \<Rightarrow> doc" where
  "relation_to_record r =
     \<lparr>doc_key = relation_key (el_id r),
      doc_value = VObject (graph_scope_fields (el_scope r) ++
        [''kind'' \<mapsto> VString ''entity_relation'', ''relation_id'' \<mapsto> VString (el_id r),
         ''source_entity_id'' \<mapsto> VString (el_source r), ''relation_type'' \<mapsto> VString (el_type r),
         ''target_entity_id'' \<mapsto> VString (el_target r),
         ''ontology_version'' \<mapsto> VString (el_ontology_version r),
         ''direction'' \<mapsto> VString (relation_direction_str (el_direction r)),
         ''traversable'' \<mapsto> bit_value (el_traversable r),
         ''confidence_nanos'' \<mapsto> VInteger (el_confidence_nanos r),
         ''valid_from_ms'' \<mapsto> opt_integer (el_valid_from_ms r),
         ''valid_to_ms'' \<mapsto> opt_integer (el_valid_to_ms r),
         ''recorded_at_ms'' \<mapsto> VInteger (el_recorded_at_ms r),
         ''evidence'' \<mapsto> evidence_value (el_evidence r),
         ''evidence_count'' \<mapsto> VInteger (i64_of_u64_sat (el_evidence_count r))])\<rparr>"

definition relation_from_record :: "(string \<Rightarrow> bool) \<Rightarrow> doc \<Rightarrow> entity_relation decoded" where
  "relation_from_record uuid_ok rec =
     r_bind (graph_object relation_prefix ''entity_relation'' rec) (\<lambda>fs.
     r_bind (checked_field uuid_ok fs ''relation_id'' ''entity_relation_id'') (\<lambda>i.
     r_bind (graph_scope_from_fields fs) (\<lambda>sc.
     r_bind (checked_field uuid_ok fs ''source_entity_id'' ''entity_id'') (\<lambda>so.
     r_bind (string_field fs ''relation_type'') (\<lambda>ty.
     r_bind (checked_field uuid_ok fs ''target_entity_id'' ''entity_id'') (\<lambda>ta.
     r_bind (string_field fs ''ontology_version'') (\<lambda>ve.
     r_bind (parsed_field parse_relation_direction fs ''direction'') (\<lambda>d.
     r_bind (bit_field fs ''traversable'') (\<lambda>tr.
     r_bind (integer_field fs ''confidence_nanos'') (\<lambda>co.
     r_bind (required_integer_option fs ''valid_from_ms'') (\<lambda>vf.
     r_bind (required_integer_option fs ''valid_to_ms'') (\<lambda>vt.
     r_bind (integer_field fs ''recorded_at_ms'') (\<lambda>re.
     r_bind (evidence_field uuid_ok fs) (\<lambda>es.
     r_bind (unsigned_field fs ''evidence_count'') (\<lambda>n.
       Inr \<lparr>el_id = i, el_scope = sc, el_source = so, el_type = ty, el_target = ta,
            el_ontology_version = ve, el_direction = d, el_traversable = tr,
            el_confidence_nanos = co, el_valid_from_ms = vf, el_valid_to_ms = vt,
            el_recorded_at_ms = re, el_evidence = es, el_evidence_count = n\<rparr>)))))))))))))))"

section \<open>Memory bindings\<close>

record memory_binding =
  mb_scope :: recall_scope
  mb_entity_id :: string
  mb_memory_id :: string
  mb_recorded_at_ms :: i64

definition binding_prefix :: bytes where
  "binding_prefix = ''__celiums/graph/memory_binding/''"

definition binding_preimage :: "memory_binding \<Rightarrow> bytes" where
  "binding_preimage b =
     graph_hash_scope (mb_scope b) @ write_hash_field ''entity_id'' (mb_entity_id b)
     @ write_hash_field ''memory_id'' (mb_memory_id b)"

definition binding_to_record :: "(bytes \<Rightarrow> string) \<Rightarrow> memory_binding \<Rightarrow> doc" where
  "binding_to_record b3 b =
     \<lparr>doc_key = binding_prefix @ b3 (binding_preimage b),
      doc_value = VObject (graph_scope_fields (mb_scope b) ++
        [''kind'' \<mapsto> VString ''graph_memory_binding'', ''entity_id'' \<mapsto> VString (mb_entity_id b),
         ''memory_id'' \<mapsto> VString (mb_memory_id b),
         ''recorded_at_ms'' \<mapsto> VInteger (mb_recorded_at_ms b)])\<rparr>"

definition binding_from_record :: "(string \<Rightarrow> bool) \<Rightarrow> doc \<Rightarrow> memory_binding decoded" where
  "binding_from_record uuid_ok rec =
     r_bind (graph_object binding_prefix ''graph_memory_binding'' rec) (\<lambda>fs.
     r_bind (graph_scope_from_fields fs) (\<lambda>sc.
     r_bind (checked_field uuid_ok fs ''entity_id'' ''entity_id'') (\<lambda>i.
     r_bind (string_field fs ''memory_id'') (\<lambda>m.
     r_bind (integer_field fs ''recorded_at_ms'') (\<lambda>re.
       Inr \<lparr>mb_scope = sc, mb_entity_id = i, mb_memory_id = m, mb_recorded_at_ms = re\<rparr>)))))"

section \<open>Reading what was written\<close>

lemma read_parsed_name [codec]:
  "fs f = Some (VString s) \<Longrightarrow> parse s = Some x \<Longrightarrow> parsed_field parse fs f = Inr x"
  by (simp add: parsed_field_def codec ok_or_def)

lemma read_bit [codec]: "fs f = Some (bit_value b) \<Longrightarrow> bit_field fs f = Inr b"
  by (simp add: bit_field_def bit_value_def)

lemma read_evidence [codec]:
  assumes "fs ''evidence'' = Some (evidence_value es)" and "list_all (uuid_ok \<circ> gv_event_id) es"
  shows "evidence_field uuid_ok fs = Inr es"
proof -
  have "evidence_item uuid_ok (evidence_item_value e) = Inr e" if "e \<in> set es" for e
    using that assms(2) by (auto simp: evidence_item_def evidence_item_value_def codec list_all_iff)
  then have "r_collect (evidence_item uuid_ok) (map evidence_item_value es) = Inr es"
    by (induction es) simp_all
  with assms(1) show ?thesis by (simp add: evidence_field_def evidence_value_def)
qed

lemma read_entity_ids [codec]:
  assumes "fs f = Some (string_array_value is)" and "list_all uuid_ok is"
  shows "entity_ids_field uuid_ok fs f = Inr is"
proof -
  have "r_collect (\<lambda>s. if uuid_ok s then Inr s else Inl (FieldErr ''entity_id'')) is = Inr is"
    using assms(2) by (induction "is") simp_all
  with assms(1) show ?thesis by (simp add: entity_ids_field_def codec)
qed

text \<open>The owner a graph document keeps of a scope.\<close>

definition graph_owner :: "recall_scope \<Rightarrow> recall_scope" where
  "graph_owner sc = sc\<lparr>rs_conversation_id := None\<rparr>"

lemma graph_owner_visible [simp]: "graph_scope_visible (graph_owner sc) req = graph_scope_visible sc req"
  by (simp add: graph_owner_def graph_scope_visible_def)

lemma graph_scope_refl [simp]: "graph_scope_visible sc sc"
  by (simp add: graph_scope_visible_def)

lemma read_graph_scope:
  assumes "wf_scope sc" and "fs ''tenant_id'' = Some (VString (rs_tenant_id sc))"
    and "fs ''user_id'' = Some (VString (rs_user_id sc))"
    and "fs ''project_id'' = Some (opt_string (rs_project_id sc))"
    and "fs ''session_id'' = Some (opt_string (rs_session_id sc))"
  shows "graph_scope_from_fields fs = Inr (graph_owner sc)"
  using assms by (simp add: graph_scope_from_fields_def wf_scope_def graph_owner_def codec)

lemma graph_scope_other_field:
  "''tenant_id'' \<noteq> k \<Longrightarrow> ''user_id'' \<noteq> k \<Longrightarrow> ''project_id'' \<noteq> k \<Longrightarrow> ''session_id'' \<noteq> k
   \<Longrightarrow> graph_scope_from_fields (fs(k \<mapsto> v)) = graph_scope_from_fields fs"
  unfolding graph_scope_from_fields_def checked_field_def string_field_def required_identity_def
    required_string_option_def by simp

lemma graph_scope_written:
  "wf_scope sc \<Longrightarrow> graph_scope_from_fields (graph_scope_fields sc) = Inr (graph_owner sc)"
  by (rule read_graph_scope) (simp_all add: graph_scope_fields_def)

lemmas graph_fields = graph_scope_other_field graph_scope_written

lemma read_graph_object:
  "prefix p (doc_key d) \<Longrightarrow> doc_value d = VObject fs \<Longrightarrow> fs ''kind'' = Some (VString kind')
   \<Longrightarrow> graph_object p kind' d = Inr fs"
  by (simp add: graph_object_def codec)

lemma entity_roundtrip_graph:
  assumes "wf_scope (ne_scope e)" and "uuid_ok (ne_id e)" and "list_all (uuid_ok \<circ> gv_event_id) (ne_evidence e)"
  shows "canonical_from_record uuid_ok (canonical_to_record e)
    = Inr (e\<lparr>ne_scope := graph_owner (ne_scope e), ne_evidence_count := u64_sat (ne_evidence_count e)\<rparr>)"
  using assms
  by (simp add: canonical_from_record_def canonical_to_record_def canonical_entity_key_def
      read_graph_object graph_fields codec)

lemma entity_type_roundtrip:
  "wf_scope (yt_scope d)
   \<Longrightarrow> entity_type_from_record (entity_type_to_record b3 d) = Inr (d\<lparr>yt_scope := graph_owner (yt_scope d)\<rparr>)"
  by (simp add: entity_type_from_record_def entity_type_to_record_def read_graph_object graph_fields codec)

lemma relation_type_roundtrip:
  "wf_scope (rt_scope d)
   \<Longrightarrow> relation_type_from_record (relation_type_to_record b3 d) = Inr (d\<lparr>rt_scope := graph_owner (rt_scope d)\<rparr>)"
  by (simp add: relation_type_from_record_def relation_type_to_record_def read_graph_object graph_fields codec
      relation_direction.of_to_name)

lemma alias_roundtrip:
  "wf_scope sc \<Longrightarrow> uuid_ok (al_entity_id a) \<Longrightarrow> list_all (uuid_ok \<circ> gv_event_id) (al_evidence a)
   \<Longrightarrow> alias_from_record uuid_ok (alias_to_record b3 sc ty a) = Inr (a, graph_owner sc, ty)"
  by (simp add: alias_from_record_def alias_to_record_def read_graph_object graph_fields codec)

lemma lineage_roundtrip:
  "wf_scope sc \<Longrightarrow> uuid_ok (li_source l) \<Longrightarrow> list_all uuid_ok (li_targets l)
   \<Longrightarrow> list_all (uuid_ok \<circ> gv_event_id) (li_evidence l)
   \<Longrightarrow> lineage_from_record uuid_ok (lineage_to_record sc l) = Inr (l, graph_owner sc)"
  by (simp add: lineage_from_record_def lineage_to_record_def read_graph_object graph_fields codec
      lineage_type.of_to_name)

lemma relation_roundtrip:
  "wf_scope (el_scope r) \<Longrightarrow> uuid_ok (el_id r) \<Longrightarrow> uuid_ok (el_source r) \<Longrightarrow> uuid_ok (el_target r)
   \<Longrightarrow> list_all (uuid_ok \<circ> gv_event_id) (el_evidence r)
   \<Longrightarrow> relation_from_record uuid_ok (relation_to_record r)
     = Inr (r\<lparr>el_scope := graph_owner (el_scope r), el_evidence_count := u64_sat (el_evidence_count r)\<rparr>)"
  by (simp add: relation_from_record_def relation_to_record_def relation_key_def read_graph_object
      graph_fields codec relation_direction.of_to_name)

lemma binding_roundtrip:
  "wf_scope (mb_scope b) \<Longrightarrow> uuid_ok (mb_entity_id b)
   \<Longrightarrow> binding_from_record uuid_ok (binding_to_record b3 b) = Inr (b\<lparr>mb_scope := graph_owner (mb_scope b)\<rparr>)"
  by (simp add: binding_from_record_def binding_to_record_def read_graph_object graph_fields codec)

end
