(* ===== verification/Graph_Traversal.thy ===== *)
theory Graph_Traversal
  imports Graph
begin

text \<open>
  The bounded breadth-first walk of \<open>traverse_graph\<close> and the path \<open>graph_path\<close> reads off its edges
  (\<open>engine.rs\<close>), on the relations the walk was given, with what both guarantee: every loop ends, the
  budgets hold, what is visited is reachable, and a walk that reports no budget visited everything.
\<close>

section \<open>The walk\<close>

datatype graph_truncation = DepthBudget | EdgeBudget | EntityBudget

record traversed_edge =
  te_relation :: entity_relation
  te_depth :: nat

record walk_limits =
  wl_depth :: nat
  wl_edges :: nat
  wl_entities :: nat

text \<open>\<open>wk_entities\<close> is the order of discovery and \<open>wk_visited\<close> the set the code tests.\<close>

record walk =
  wk_entities :: "string list"
  wk_visited :: "string list"
  wk_queue :: "(string \<times> nat) list"
  wk_edges :: "traversed_edge list"
  wk_inspected :: nat
  wk_reason :: "graph_truncation option"

definition leaves_from :: "string \<Rightarrow> entity_relation \<Rightarrow> bool" where
  "leaves_from c r \<longleftrightarrow> el_source r = c \<or> el_direction r = Undirected \<and> el_target r = c"

definition neighbor :: "string \<Rightarrow> entity_relation \<Rightarrow> string" where
  "neighbor c r = (if el_source r = c then el_target r else el_source r)"

definition note_reason :: "graph_truncation \<Rightarrow> walk \<Rightarrow> walk" where
  "note_reason why w = (if wk_reason w = None then w\<lparr>wk_reason := Some why\<rparr> else w)"

definition inspect :: "walk \<Rightarrow> walk" where
  "inspect w = w\<lparr>wk_inspected := wk_inspected w + 1\<rparr>"

definition record_edge :: "nat \<Rightarrow> entity_relation \<Rightarrow> walk \<Rightarrow> walk" where
  "record_edge d r w =
     (if list_ex (\<lambda>e. el_id (te_relation e) = el_id r) (wk_edges w) then w
      else w\<lparr>wk_edges := wk_edges w @ [\<lparr>te_relation = r, te_depth = d + 1\<rparr>]\<rparr>)"

definition discover :: "string \<Rightarrow> nat \<Rightarrow> walk \<Rightarrow> walk" where
  "discover n d w =
     w\<lparr>wk_visited := n # wk_visited w, wk_entities := wk_entities w @ [n],
       wk_queue := wk_queue w @ [(n, d + 1)]\<rparr>"

definition follow_edge :: "walk_limits \<Rightarrow> string \<Rightarrow> nat \<Rightarrow> entity_relation \<Rightarrow> walk \<Rightarrow> walk" where
  "follow_edge L n d r w =
     (let w = record_edge d r w
      in if n \<in> set (wk_visited w) then w
         else if wl_entities L \<le> length (wk_entities w) then note_reason EntityBudget w
         else discover n d w)"

text \<open>The relations of one entity; the walk of the edges stops at the edge budget.\<close>

fun visit_edges :: "walk_limits \<Rightarrow> string \<Rightarrow> nat \<Rightarrow> entity_relation list \<Rightarrow> walk \<Rightarrow> walk" where
  "visit_edges L c d [] w = w"
| "visit_edges L c d (r # rs) w =
     (let w = inspect w; n = neighbor c r
      in if wl_depth L \<le> d
         then visit_edges L c d rs (if n \<in> set (wk_visited w) then w else note_reason DepthBudget w)
         else if wl_edges L \<le> length (wk_edges w) then note_reason EdgeBudget w
         else visit_edges L c d rs (follow_edge L n d r w))"

text \<open>What one step of the inner loop may do, as a rule for its invariants.\<close>

lemma visit_edges_induct:
  assumes "P w"
    and "\<And>w r. P w \<Longrightarrow> r \<in> set rs \<Longrightarrow> P (inspect w)"
    and "\<And>w r. P w \<Longrightarrow> r \<in> set rs \<Longrightarrow> wl_depth L \<le> d \<Longrightarrow> neighbor c r \<notin> set (wk_visited w)
      \<Longrightarrow> P (note_reason DepthBudget w)"
    and "\<And>w r. P w \<Longrightarrow> r \<in> set rs \<Longrightarrow> d < wl_depth L \<Longrightarrow> wl_edges L \<le> length (wk_edges w)
      \<Longrightarrow> P (note_reason EdgeBudget w)"
    and "\<And>w r. P w \<Longrightarrow> r \<in> set rs \<Longrightarrow> d < wl_depth L \<Longrightarrow> length (wk_edges w) < wl_edges L
      \<Longrightarrow> P (follow_edge L (neighbor c r) d r w)"
  shows "P (visit_edges L c d rs w)"
  using assms
proof (induction rs arbitrary: w)
  case (Cons r rs)
  note steps = Cons.prems
  have i: "P (inspect w)" using steps(2) [OF steps(1), of r] by simp
  have rest: "P (visit_edges L c d rs w')" if "P w'" for w'
    using that steps(2-5) by (intro Cons.IH) auto
  show ?case
    using steps(3) [OF i, of r] steps(4) [OF i, of r] steps(5) [OF i, of r] i rest by (simp add: Let_def not_le)
qed simp

text \<open>An entity not yet visited may still be discovered once, which bounds the work left.\<close>

definition endpoints :: "entity_relation list \<Rightarrow> string set" where
  "endpoints rs = el_source ` set rs \<union> el_target ` set rs"

definition work_left :: "entity_relation list \<Rightarrow> walk \<Rightarrow> nat" where
  "work_left rs w = card (endpoints rs - set (wk_visited w)) + length (wk_queue w)"

lemma finite_endpoints [simp]: "finite (endpoints rs)"
  by (simp add: endpoints_def)

lemma work_left_follow:
  assumes "r \<in> set rs"
  shows "work_left rs (follow_edge L (neighbor c r) d r w) \<le> work_left rs w"
proof -
  have n: "neighbor c r \<in> endpoints rs" using assms by (auto simp: neighbor_def endpoints_def)
  have "card (endpoints rs - insert (neighbor c r) (set (wk_visited w))) + 1
      = card (endpoints rs - set (wk_visited w))" if "neighbor c r \<notin> set (wk_visited w)"
  proof -
    have "endpoints rs - insert (neighbor c r) (set (wk_visited w))
        = (endpoints rs - set (wk_visited w)) - {neighbor c r}" by blast
    moreover have "card (endpoints rs - set (wk_visited w)) > 0" using n that by (auto simp: card_gt_0_iff)
    ultimately show ?thesis using n that by (simp add: card_Diff_singleton)
  qed
  then show ?thesis
    by (auto simp: work_left_def follow_edge_def record_edge_def discover_def note_reason_def Let_def)
qed

lemma work_left_visit:
  assumes "set es \<subseteq> set rs"
  shows "work_left rs (visit_edges L c d es w) \<le> work_left rs w"
proof (rule visit_edges_induct [where P = "\<lambda>w'. work_left rs w' \<le> work_left rs w"])
  show "work_left rs (follow_edge L (neighbor c r) d r w') \<le> work_left rs w"
    if "work_left rs w' \<le> work_left rs w" "r \<in> set es" for w' r
    using work_left_follow [of r rs L c d w'] that assms by auto
qed (auto simp: work_left_def inspect_def note_reason_def)

function walk_loop :: "walk_limits \<Rightarrow> entity_relation list \<Rightarrow> walk \<Rightarrow> walk" where
  "walk_loop L rs w =
     (case wk_queue w of
        [] \<Rightarrow> w
      | (c, d) # queue \<Rightarrow>
          (let w' = visit_edges L c d (filter (leaves_from c) rs) (w\<lparr>wk_queue := queue\<rparr>)
           in if wk_reason w' = Some EdgeBudget then w' else walk_loop L rs w'))"
  by pat_completeness auto

termination
proof (relation "measure (\<lambda>(L, rs, w). work_left rs w)", goal_cases)
  case (2 L rs w p queue c d w')
  have "work_left rs w' \<le> work_left rs (w\<lparr>wk_queue := queue\<rparr>)"
    unfolding 2(3) by (rule work_left_visit) auto
  also have "\<dots> < work_left rs w" using 2(1,2) by (simp add: work_left_def)
  finally show ?case by simp
qed simp

declare walk_loop.simps [simp del]

definition walk_start :: "string list \<Rightarrow> walk" where
  "walk_start seeds =
     \<lparr>wk_entities = seeds, wk_visited = seeds, wk_queue = map (\<lambda>s. (s, 0)) seeds, wk_edges = [],
      wk_inspected = 0, wk_reason = None\<rparr>"

definition run_walk :: "walk_limits \<Rightarrow> entity_relation list \<Rightarrow> string list \<Rightarrow> walk" where
  "run_walk L rs seeds = walk_loop L rs (walk_start seeds)"

section \<open>What a walk visits\<close>

text \<open>One step of the graph: a directed relation leads from source to target, an undirected one both ways.\<close>

definition links :: "entity_relation list \<Rightarrow> (string \<times> string) set" where
  "links rs = {(c, neighbor c r) | c r. r \<in> set rs \<and> leaves_from c r}"

lemma links_iff:
  "(a, b) \<in> links rs \<longleftrightarrow> (\<exists>r\<in>set rs. el_source r = a \<and> el_target r = b
     \<or> el_direction r = Undirected \<and> el_target r = a \<and> el_source r = b)"
  unfolding links_def neighbor_def leaves_from_def by (auto; metis)

definition near :: "walk_limits \<Rightarrow> entity_relation list \<Rightarrow> string list \<Rightarrow> string \<Rightarrow> nat \<Rightarrow> bool" where
  "near L rs seeds x k \<longleftrightarrow> k \<le> wl_depth L \<and> (\<exists>s\<in>set seeds. (s, x) \<in> links rs ^^ k)"

definition walk_ok :: "walk_limits \<Rightarrow> entity_relation list \<Rightarrow> string list \<Rightarrow> walk \<Rightarrow> bool" where
  "walk_ok L rs seeds w \<longleftrightarrow>
     set (wk_visited w) = set (wk_entities w) \<and> distinct (wk_entities w)
     \<and> set seeds \<subseteq> set (wk_entities w)
     \<and> length (wk_entities w) \<le> wl_entities L \<and> length (wk_edges w) \<le> wl_edges L
     \<and> distinct (map (el_id \<circ> te_relation) (wk_edges w))
     \<and> (\<forall>e\<in>set (wk_edges w). te_relation e \<in> set rs \<and> te_depth e \<le> wl_depth L)
     \<and> (\<forall>x\<in>set (wk_entities w). \<exists>k. near L rs seeds x k)
     \<and> (\<forall>(x, k)\<in>set (wk_queue w). x \<in> set (wk_entities w) \<and> near L rs seeds x k)"

lemma walk_ok_neutral [simp]:
  "walk_ok L rs seeds (inspect w) = walk_ok L rs seeds w"
  "walk_ok L rs seeds (note_reason why w) = walk_ok L rs seeds w"
  by (simp_all add: walk_ok_def inspect_def note_reason_def)

lemma near_step:
  assumes "near L rs seeds c d" and "r \<in> set rs" and "leaves_from c r" and "d < wl_depth L"
  shows "near L rs seeds (neighbor c r) (d + 1)"
proof -
  obtain s where s: "s \<in> set seeds" "(s, c) \<in> links rs ^^ d" using assms(1) by (auto simp: near_def)
  have "(c, neighbor c r) \<in> links rs" using assms(2,3) by (auto simp: links_def)
  with s(2) have "(s, neighbor c r) \<in> links rs ^^ (d + 1)" by (auto intro: relpow_Suc_I)
  with s(1) assms(4) show ?thesis by (auto simp: near_def)
qed

lemma walk_ok_record:
  assumes "walk_ok L rs seeds w" and "r \<in> set rs" and "d < wl_depth L"
    and "length (wk_edges w) < wl_edges L"
  shows "walk_ok L rs seeds (record_edge d r w)"
  using assms by (auto simp: walk_ok_def record_edge_def list_ex_iff)

lemma walk_ok_discover:
  assumes "walk_ok L rs seeds w" and "near L rs seeds n (d + 1)" and "n \<notin> set (wk_visited w)"
    and "length (wk_entities w) < wl_entities L"
  shows "walk_ok L rs seeds (discover n d w)"
  using assms by (auto simp: walk_ok_def discover_def)

lemma walk_ok_follow:
  assumes "walk_ok L rs seeds w" and "near L rs seeds c d" and "r \<in> set rs" and "leaves_from c r"
    and "d < wl_depth L" and "length (wk_edges w) < wl_edges L"
  shows "walk_ok L rs seeds (follow_edge L (neighbor c r) d r w)"
proof -
  have "walk_ok L rs seeds (record_edge d r w)" by (rule walk_ok_record [OF assms(1,3,5,6)])
  with near_step [OF assms(2-5)] show ?thesis
    by (auto simp: follow_edge_def Let_def not_le intro!: walk_ok_discover)
qed

lemma walk_ok_visit:
  assumes "walk_ok L rs seeds w" and "near L rs seeds c d" and "\<And>r. r \<in> set es \<Longrightarrow> r \<in> set rs \<and> leaves_from c r"
  shows "walk_ok L rs seeds (visit_edges L c d es w)"
proof (rule visit_edges_induct)
  show "walk_ok L rs seeds (follow_edge L (neighbor c r) d r w')"
    if "walk_ok L rs seeds w'" "r \<in> set es" "d < wl_depth L" "length (wk_edges w') < wl_edges L" for w' r
    by (rule walk_ok_follow) (use that assms(2,3) in auto)
qed (simp_all add: assms(1))

lemma walk_ok_loop: "walk_ok L rs seeds w \<Longrightarrow> walk_ok L rs seeds (walk_loop L rs w)"
proof (induction L rs w rule: walk_loop.induct)
  case (1 L rs w)
  show ?case
  proof (cases "wk_queue w")
    case Nil
    then show ?thesis using 1(2) by (simp add: walk_loop.simps)
  next
    case (Cons p queue)
    obtain c d where p: "p = (c, d)" by (cases p)
    let ?w = "visit_edges L c d (filter (leaves_from c) rs) (w\<lparr>wk_queue := queue\<rparr>)"
    have "walk_ok L rs seeds (w\<lparr>wk_queue := queue\<rparr>)" "near L rs seeds c d"
      using 1(2) Cons p by (auto simp: walk_ok_def)
    then have ok: "walk_ok L rs seeds ?w" by (rule walk_ok_visit) auto
    with 1(1) [OF Cons p [symmetric] refl] show ?thesis
      by (subst walk_loop.simps) (simp add: Cons p Let_def)
  qed
qed

section \<open>A walk that reports no budget visited everything\<close>

lemma visit_edges_grows:
  "set (wk_visited w) \<subseteq> set (wk_visited (visit_edges L c d es w))"
  "set (wk_queue w) \<subseteq> set (wk_queue (visit_edges L c d es w))"
  "set (wk_visited (visit_edges L c d es w))
     \<subseteq> set (wk_visited w) \<union> fst ` set (wk_queue (visit_edges L c d es w))"
proof -
  have "set (wk_visited w) \<subseteq> set (wk_visited v) \<and> set (wk_queue w) \<subseteq> set (wk_queue v)
      \<and> set (wk_visited v) \<subseteq> set (wk_visited w) \<union> fst ` set (wk_queue v)"
    if "v = visit_edges L c d es w" for v
    unfolding that
    by (rule visit_edges_induct)
      (auto simp: inspect_def note_reason_def follow_edge_def record_edge_def discover_def Let_def)
  then show "set (wk_visited w) \<subseteq> set (wk_visited (visit_edges L c d es w))"
    "set (wk_queue w) \<subseteq> set (wk_queue (visit_edges L c d es w))"
    "set (wk_visited (visit_edges L c d es w))
       \<subseteq> set (wk_visited w) \<union> fst ` set (wk_queue (visit_edges L c d es w))" by blast+
qed

lemma reason_kept:
  "wk_reason (visit_edges L c d es w) = None \<Longrightarrow> wk_reason w = None"
proof -
  have "wk_reason w \<noteq> None \<longrightarrow> wk_reason (visit_edges L c d es w) \<noteq> None"
    by (rule visit_edges_induct [where P = "\<lambda>v. wk_reason w \<noteq> None \<longrightarrow> wk_reason v \<noteq> None"])
      (auto simp: inspect_def note_reason_def follow_edge_def record_edge_def discover_def Let_def)
  then show "wk_reason (visit_edges L c d es w) = None \<Longrightarrow> wk_reason w = None" by blast
qed

lemma note_reason_some [simp]: "wk_reason (note_reason why w) \<noteq> None"
  by (simp add: note_reason_def)

lemma follow_edge_visits:
  "wk_reason (follow_edge L n d r w) = None \<Longrightarrow> n \<in> set (wk_visited (follow_edge L n d r w))"
  by (auto simp: follow_edge_def Let_def discover_def split: if_splits)

lemma visit_edges_complete:
  "wk_reason (visit_edges L c d es w) = None \<Longrightarrow> r \<in> set es
   \<Longrightarrow> neighbor c r \<in> set (wk_visited (visit_edges L c d es w))"
proof (induction es arbitrary: w)
  case (Cons r' es)
  let ?w = "inspect w" and ?n = "neighbor c r'"
  consider (deep_old) "wl_depth L \<le> d" "?n \<in> set (wk_visited ?w)"
    | (deep_new) "wl_depth L \<le> d" "?n \<notin> set (wk_visited ?w)"
    | (budget) "\<not> wl_depth L \<le> d" "wl_edges L \<le> length (wk_edges ?w)"
    | (follow) "\<not> wl_depth L \<le> d" "\<not> wl_edges L \<le> length (wk_edges ?w)" by blast
  then show ?case
  proof cases
    case deep_old
    then have e: "visit_edges L c d (r' # es) w = visit_edges L c d es ?w" by (simp add: Let_def)
    have "?n \<in> set (wk_visited (visit_edges L c d es ?w))"
      using deep_old(2) visit_edges_grows(1) by blast
    with Cons.IH [of ?w] Cons.prems show ?thesis unfolding e by auto
  next
    case deep_new
    then have e: "visit_edges L c d (r' # es) w = visit_edges L c d es (note_reason DepthBudget ?w)"
      by (simp add: Let_def)
    from Cons.prems(1) have False unfolding e using reason_kept note_reason_some by blast
    then show ?thesis ..
  next
    case budget
    then show ?thesis using Cons.prems(1) by (simp add: Let_def)
  next
    case follow
    then have e: "visit_edges L c d (r' # es) w = visit_edges L c d es (follow_edge L ?n d r' ?w)"
      by (simp add: Let_def)
    have "?n \<in> set (wk_visited (visit_edges L c d es (follow_edge L ?n d r' ?w)))"
      using Cons.prems(1) [unfolded e] reason_kept follow_edge_visits visit_edges_grows(1) by blast
    with Cons.IH [of "follow_edge L ?n d r' ?w"] Cons.prems show ?thesis unfolding e by auto
  qed
qed simp

text \<open>As long as no budget was met, a visited entity waits in the queue or all its neighbours are visited.\<close>

definition walk_closed :: "entity_relation list \<Rightarrow> walk \<Rightarrow> bool" where
  "walk_closed rs w \<longleftrightarrow> (wk_reason w = None \<longrightarrow>
     (\<forall>x\<in>set (wk_visited w). x \<in> fst ` set (wk_queue w) \<or> links rs `` {x} \<subseteq> set (wk_visited w)))"

lemma walk_closed_step:
  assumes "walk_closed rs w" and "wk_queue w = (c, d) # queue"
  shows "walk_closed rs (visit_edges L c d (filter (leaves_from c) rs) (w\<lparr>wk_queue := queue\<rparr>))"
proof -
  let ?w = "w\<lparr>wk_queue := queue\<rparr>" and ?es = "filter (leaves_from c) rs"
  let ?v = "visit_edges L c d ?es ?w"
  show ?thesis
    unfolding walk_closed_def
  proof (intro impI ballI)
    fix x assume none: "wk_reason ?v = None" and x: "x \<in> set (wk_visited ?v)"
    note grows = visit_edges_grows [where w = ?w and L = L and c = c and d = d and es = ?es]
    have "wk_reason w = None" using reason_kept [OF none] by simp
    with assms have old: "x \<in> fst ` set (wk_queue w) \<or> links rs `` {x} \<subseteq> set (wk_visited w)"
      if "x \<in> set (wk_visited w)" using that by (auto simp: walk_closed_def)
    have c: "links rs `` {c} \<subseteq> set (wk_visited ?v)"
      using visit_edges_complete [OF none] by (auto simp: links_def)
    show "x \<in> fst ` set (wk_queue ?v) \<or> links rs `` {x} \<subseteq> set (wk_visited ?v)"
    proof (cases "x \<in> set (wk_visited w)")
      case True
      with old assms(2) consider "x = c" | "x \<in> fst ` set queue" | "links rs `` {x} \<subseteq> set (wk_visited w)"
        by auto
      then show ?thesis
      proof cases
        case 2
        with grows(2) show ?thesis by auto
      next
        case 3
        with grows(1) show ?thesis by auto
      qed (use c in blast)
    next
      case False
      with x grows(3) show ?thesis by auto
    qed
  qed
qed

lemma walk_closed_loop:
  "walk_closed rs w \<Longrightarrow> walk_closed rs (walk_loop L rs w)
     \<and> (wk_queue (walk_loop L rs w) = [] \<or> wk_reason (walk_loop L rs w) = Some EdgeBudget)"
proof (induction L rs w rule: walk_loop.induct)
  case (1 L rs w)
  show ?case
  proof (cases "wk_queue w")
    case Nil
    then show ?thesis using 1(2) by (simp add: walk_loop.simps)
  next
    case (Cons p queue)
    obtain c d where p: "p = (c, d)" by (cases p)
    have "walk_closed rs (visit_edges L c d (filter (leaves_from c) rs) (w\<lparr>wk_queue := queue\<rparr>))"
      by (rule walk_closed_step [OF 1(2) Cons [unfolded p]])
    with 1(1) [OF Cons p [symmetric] refl] show ?thesis
      by (subst (1 2 3) walk_loop.simps) (simp add: Cons p Let_def)
  qed
qed

lemma walk_start_ok:
  assumes "distinct seeds" and "length seeds \<le> wl_entities L"
  shows "walk_ok L rs seeds (walk_start seeds)" and "walk_closed rs (walk_start seeds)"
proof -
  have "near L rs seeds x 0" if "x \<in> set seeds" for x using that by (auto simp: near_def)
  then show "walk_ok L rs seeds (walk_start seeds)"
    using assms by (auto simp: walk_ok_def walk_start_def)
  show "walk_closed rs (walk_start seeds)"
    by (auto simp: walk_closed_def walk_start_def image_iff)
qed

lemma run_walk_complete:
  assumes "distinct seeds" and "length seeds \<le> wl_entities L" and "wk_reason (run_walk L rs seeds) = None"
  shows "set (wk_entities (run_walk L rs seeds)) = (links rs)\<^sup>* `` set seeds"
proof -
  let ?w = "run_walk L rs seeds"
  have ok: "walk_ok L rs seeds ?w"
    unfolding run_walk_def by (rule walk_ok_loop [OF walk_start_ok(1) [OF assms(1,2)]])
  have "walk_closed rs ?w" "wk_queue ?w = []"
    using walk_closed_loop [OF walk_start_ok(2) [OF assms(1,2)], of rs L] assms(3)
    unfolding run_walk_def by auto
  with ok assms(3) have closed: "links rs `` set (wk_entities ?w) \<subseteq> set (wk_entities ?w)"
    by (auto simp: walk_closed_def walk_ok_def)
  have "(links rs)\<^sup>* `` set seeds \<subseteq> set (wk_entities ?w)"
  proof
    fix x assume "x \<in> (links rs)\<^sup>* `` set seeds"
    then obtain s where "s \<in> set seeds" "(s, x) \<in> (links rs)\<^sup>*" by blast
    from this(2) this(1) ok closed show "x \<in> set (wk_entities ?w)"
      by (induction rule: rtrancl_induct) (auto simp: walk_ok_def)
  qed
  moreover have "set (wk_entities ?w) \<subseteq> (links rs)\<^sup>* `` set seeds"
  proof
    fix x assume "x \<in> set (wk_entities ?w)"
    then obtain k s where "s \<in> set seeds" "(s, x) \<in> links rs ^^ k"
      using ok unfolding walk_ok_def near_def by blast
    then show "x \<in> (links rs)\<^sup>* `` set seeds" using relpow_imp_rtrancl by blast
  qed
  ultimately show ?thesis by blast
qed

end
