(* ===== verification/Graph_Engine.thy ===== *)
theory Graph_Engine
  imports Graph_Traversal Claim_Engine Memory_Engine
begin

text \<open>
  The graph operations of \<open>engine.rs\<close>, from \<open>define_entity_type\<close> to \<open>entity_reaches\<close>. A list of
  identifiers the code keeps as a \<open>BTreeSet\<close> or sorts and deduplicates is a sorted list here.
\<close>

definition from_graph :: "'a decoded \<Rightarrow> ('e, 'a) outcome" where
  "from_graph r = (case r of Inl e \<Rightarrow> m_fail (GraphDecode e) | Inr x \<Rightarrow> m_return x)"

definition from_invalid_graph :: "invalid_graph + 'a \<Rightarrow> ('e, 'a) outcome" where
  "from_invalid_graph r = (case r of Inl e \<Rightarrow> m_fail (InvalidGraph e) | Inr x \<Rightarrow> m_return x)"

lemma from_graph_Inr [simp]: "from_graph r = Some (Inr x) \<longleftrightarrow> r = Inr x"
  by (cases r) (simp_all add: from_graph_def)

lemma from_invalid_graph_Inr [simp]: "from_invalid_graph r = Some (Inr x) \<longleftrightarrow> r = Inr x"
  by (cases r) (simp_all add: from_invalid_graph_def)

text \<open>All documents of one kind, decoded; the caller keeps those its scope sees.\<close>

definition graph_scan ::
  "('s, 'c, 'e) hyphae \<Rightarrow> 's engine \<Rightarrow> bytes \<Rightarrow> (doc \<Rightarrow> 'a decoded) \<Rightarrow> ('e, 'a list) outcome" where
  "graph_scan H g p dec =
     m_bind (from_scan (scan_prefix H (en_store g) p)) (\<lambda>recs. from_graph (r_collect dec recs))"

definition put_doc :: "('s, 'c, 'e) hyphae \<Rightarrow> 's engine \<Rightarrow> doc \<Rightarrow> ('e, 's engine) outcome" where
  "put_doc H g d = m_bind (from_store (hy_put H (en_store g) d)) (\<lambda>s. m_return (g\<lparr>en_store := s\<rparr>))"

section \<open>Ontology\<close>

definition define_entity_type ::
  "('s, 'c, 'e) hyphae \<Rightarrow> rust_env \<Rightarrow> 's engine \<Rightarrow> entity_type_definition
   \<Rightarrow> ('e, entity_type_definition \<times> 's engine) outcome" where
  "define_entity_type H E g d =
     m_bind (require_tenant (en_tenant g) (rs_tenant_id (yt_scope d))) (\<lambda>_.
     m_bind (from_invalid_graph (validate_graph_text (yt_type_id d) ''type_id'')) (\<lambda>_.
     m_bind (from_invalid_graph (validate_graph_text (yt_ontology_version d) ''ontology_version'')) (\<lambda>_.
     m_bind (put_doc H g (entity_type_to_record (env_b3 E) d)) (\<lambda>g'. m_return (d, g')))))"

definition entity_types ::
  "('s, 'c, 'e) hyphae \<Rightarrow> 's engine \<Rightarrow> recall_scope \<Rightarrow> ('e, entity_type_definition list) outcome" where
  "entity_types H g sc =
     m_bind (require_tenant (en_tenant g) (rs_tenant_id sc)) (\<lambda>_.
     m_bind (graph_scan H g entity_type_prefix entity_type_from_record) (\<lambda>ds.
       m_return (filter (\<lambda>d. graph_scope_visible (yt_scope d) sc) ds)))"

definition require_entity_type ::
  "('s, 'c, 'e) hyphae \<Rightarrow> 's engine \<Rightarrow> recall_scope \<Rightarrow> string \<Rightarrow> ('e, unit) outcome" where
  "require_entity_type H g sc ty =
     (if built_in_entity_type ty then m_return ()
      else m_bind (entity_types H g sc) (\<lambda>ds.
        if list_ex (\<lambda>d. yt_type_id d = ty) ds then m_return ()
        else m_fail (GraphEntityTypeNotFound ty)))"

definition relation_types ::
  "('s, 'c, 'e) hyphae \<Rightarrow> 's engine \<Rightarrow> recall_scope \<Rightarrow> ('e, relation_type_definition list) outcome" where
  "relation_types H g sc =
     m_bind (require_tenant (en_tenant g) (rs_tenant_id sc)) (\<lambda>_.
     m_bind (graph_scan H g relation_type_prefix relation_type_from_record) (\<lambda>ds.
       m_return (filter (\<lambda>d. graph_scope_visible (rt_scope d) sc) ds)))"

definition define_relation_type ::
  "('s, 'c, 'e) hyphae \<Rightarrow> rust_env \<Rightarrow> 's engine \<Rightarrow> relation_type_definition
   \<Rightarrow> ('e, relation_type_definition \<times> 's engine) outcome" where
  "define_relation_type H E g d =
     m_bind (require_tenant (en_tenant g) (rs_tenant_id (rt_scope d))) (\<lambda>_.
     m_bind (from_invalid_graph (validate_graph_text (rt_type d) ''relation_type'')) (\<lambda>_.
     m_bind (from_invalid_graph (validate_graph_text (rt_ontology_version d) ''ontology_version'')) (\<lambda>_.
     if rt_source_types d = [] \<or> rt_target_types d = [] then m_fail (InvalidGraph GraphLineageTargets)
     else m_bind (collect_m (require_entity_type H g (rt_scope d)) (rt_source_types d @ rt_target_types d)) (\<lambda>_.
     m_bind (put_doc H g (relation_type_to_record (env_b3 E) d)) (\<lambda>g'. m_return (d, g'))))))"

section \<open>Entities\<close>

definition get_entity ::
  "('s, 'c, 'e) hyphae \<Rightarrow> rust_env \<Rightarrow> 's engine \<Rightarrow> string \<Rightarrow> recall_scope
   \<Rightarrow> ('e, canonical_entity option) outcome" where
  "get_entity H E g i sc =
     m_bind (require_tenant (en_tenant g) (rs_tenant_id sc)) (\<lambda>_.
     m_bind (from_store (hy_get H (en_store g) (canonical_entity_key i))) (\<lambda>found. case found of
       None \<Rightarrow> m_return None
     | Some rec \<Rightarrow> m_bind (from_graph (canonical_from_record (env_uuid_ok E) rec)) (\<lambda>e.
         m_return (if graph_scope_visible (ne_scope e) sc then Some e else None))))"

definition require_entity ::
  "('s, 'c, 'e) hyphae \<Rightarrow> rust_env \<Rightarrow> 's engine \<Rightarrow> recall_scope \<Rightarrow> string
   \<Rightarrow> ('e, canonical_entity) outcome" where
  "require_entity H E g sc i =
     m_bind (get_entity H E g i sc) (\<lambda>found. case found of
       None \<Rightarrow> m_fail (GraphEntityNotFound i) | Some e \<Rightarrow> m_return e)"

definition check_graph_evidence ::
  "('s, 'c, 'e) hyphae \<Rightarrow> rust_env \<Rightarrow> 's engine \<Rightarrow> recall_scope \<Rightarrow> graph_evidence \<Rightarrow> ('e, unit) outcome" where
  "check_graph_evidence H E g sc ev =
     m_bind (get_ingestion H E (en_tenant g) (en_store g) (gv_event_id ev) sc) (\<lambda>found. case found of
       None \<Rightarrow> m_fail (GraphEvidenceNotFound (gv_event_id ev))
     | Some e \<Rightarrow>
         if (case gv_excerpt ev of None \<Rightarrow> False | Some x \<Rightarrow> \<not> contains (ie_content e) x)
         then m_fail (GraphEvidenceExcerptMismatch (gv_event_id ev))
         else m_return ())"

definition validate_graph_evidence ::
  "('s, 'c, 'e) hyphae \<Rightarrow> rust_env \<Rightarrow> 's engine \<Rightarrow> recall_scope \<Rightarrow> graph_evidence list
   \<Rightarrow> ('e, unit) outcome" where
  "validate_graph_evidence H E g sc evs =
     m_bind (collect_m (check_graph_evidence H E g sc) evs) (\<lambda>_. m_return ())"

definition label_alias :: "rust_env \<Rightarrow> entity_request \<Rightarrow> canonical_entity \<Rightarrow> entity_alias" where
  "label_alias E req e = alias_of_request (lower_case (env_patterns E))
     \<lparr>aq_scope = nq_scope req, aq_entity_id = ne_id e, aq_alias = nq_label req,
      aq_valid_from_ms = None, aq_valid_to_ms = None, aq_recorded_at_ms = nq_recorded_at_ms req,
      aq_evidence = []\<rparr>"

definition requested_entity :: "rust_env \<Rightarrow> entity_request \<Rightarrow> canonical_entity" where
  "requested_entity E =
     entity_of_request (env_b3_raw E) (env_uuid_text E) (lower_case (env_patterns E))"

definition create_entity ::
  "('s, 'c, 'e) hyphae \<Rightarrow> ('s, 'e) store_ops \<Rightarrow> rust_env \<Rightarrow> 's engine \<Rightarrow> entity_request
   \<Rightarrow> ('e, canonical_entity \<times> 's engine) outcome" where
  "create_entity H O' E g req =
     m_bind (require_tenant (en_tenant g) (rs_tenant_id (nq_scope req))) (\<lambda>_.
     m_bind (from_invalid_graph (validate_graph_text (nq_type req) ''entity_type'')) (\<lambda>_.
     m_bind (from_invalid_graph (validate_graph_text (nq_label req) ''canonical_label'')) (\<lambda>_.
     if nq_evidence req = [] then m_fail (InvalidGraph GraphEvidence)
     else m_bind (require_entity_type H g (nq_scope req) (nq_type req)) (\<lambda>_.
     m_bind (validate_graph_evidence H E g (nq_scope req) (nq_evidence req)) (\<lambda>_.
     let e = requested_entity E req
     in m_bind (get_entity H E g (ne_id e) (nq_scope req)) (\<lambda>found. case found of
          Some existing \<Rightarrow> m_return (existing, g)
        | None \<Rightarrow>
            m_bind (from_store (op_put_records O' (en_store g)
              [canonical_to_record e, alias_to_record (env_b3 E) (ne_scope e) (ne_type e) (label_alias E req e)])) (\<lambda>s.
            m_return (e, g\<lparr>en_store := s\<rparr>))))))))"

section \<open>Aliases\<close>

definition add_entity_alias ::
  "('s, 'c, 'e) hyphae \<Rightarrow> rust_env \<Rightarrow> 's engine \<Rightarrow> alias_request
   \<Rightarrow> ('e, entity_alias \<times> 's engine) outcome" where
  "add_entity_alias H E g req =
     m_bind (from_invalid_graph (validate_graph_text (aq_alias req) ''alias'')) (\<lambda>_.
     m_bind (from_invalid_graph (validate_interval (aq_valid_from_ms req) (aq_valid_to_ms req))) (\<lambda>_.
     m_bind (validate_graph_evidence H E g (aq_scope req) (aq_evidence req)) (\<lambda>_.
     m_bind (require_entity H E g (aq_scope req) (aq_entity_id req)) (\<lambda>e.
     let a = alias_of_request (lower_case (env_patterns E)) req
     in m_bind (put_doc H g (alias_to_record (env_b3 E) (aq_scope req) (ne_type e) a)) (\<lambda>g'.
          m_return (a, g'))))))"

datatype entity_resolution = ResolvedTo string | AmbiguousAmong "string list" | NoSuchEntity

definition resolution :: "string list \<Rightarrow> entity_resolution" where
  "resolution ids = (case remdups_adj (sort ids) of
     [] \<Rightarrow> NoSuchEntity | [i] \<Rightarrow> ResolvedTo i | is \<Rightarrow> AmbiguousAmong is)"

definition resolve_entity_alias ::
  "('s, 'c, 'e) hyphae \<Rightarrow> rust_env \<Rightarrow> 's engine \<Rightarrow> recall_scope \<Rightarrow> string \<Rightarrow> string \<Rightarrow> i64 \<Rightarrow> i64
   \<Rightarrow> ('e, entity_resolution) outcome" where
  "resolve_entity_alias H E g sc ty alias t known =
     m_bind (require_tenant (en_tenant g) (rs_tenant_id sc)) (\<lambda>_.
     m_bind (graph_scan H g alias_prefix (alias_from_record (env_uuid_ok E))) (\<lambda>as.
       m_return (resolution (map (al_entity_id \<circ> fst) (filter (\<lambda>(a, owner, ty').
         ty' = ty \<and> al_normalized a = normalize_label (lower_case (env_patterns E)) alias
         \<and> alias_valid_at a t known \<and> graph_scope_visible owner sc) as)))))"

definition graph_query_seeds ::
  "('s, 'c, 'e) hyphae \<Rightarrow> rust_env \<Rightarrow> 's engine \<Rightarrow> recall_scope \<Rightarrow> bytes \<Rightarrow> i64
   \<Rightarrow> ('e, string list) outcome" where
  "graph_query_seeds H E g sc query now =
     m_bind (graph_scan H g alias_prefix (alias_from_record (env_uuid_ok E))) (\<lambda>as.
       m_return (map (al_entity_id \<circ> fst) (filter (\<lambda>(a, owner, ty').
         graph_scope_visible owner sc \<and> alias_valid_at a now now
         \<and> contains (normalize_label (lower_case (env_patterns E)) query) (al_normalized a)) as)))"

section \<open>Merges and splits\<close>

definition visible_lineages ::
  "('s, 'c, 'e) hyphae \<Rightarrow> rust_env \<Rightarrow> 's engine \<Rightarrow> recall_scope \<Rightarrow> ('e, entity_lineage list) outcome" where
  "visible_lineages H E g sc =
     m_bind (graph_scan H g lineage_prefix (lineage_from_record (env_uuid_ok E))) (\<lambda>ls.
       m_return (map fst (filter (\<lambda>(l, owner). graph_scope_visible owner sc) ls)))"

definition lineage_edges :: "entity_lineage list \<Rightarrow> (string \<times> string) list" where
  "lineage_edges ls = concat (map (\<lambda>l. map (Pair (li_source l)) (li_targets l)) ls)"

definition entity_reaches ::
  "('s, 'c, 'e) hyphae \<Rightarrow> rust_env \<Rightarrow> 's engine \<Rightarrow> string \<Rightarrow> string \<Rightarrow> recall_scope \<Rightarrow> ('e, bool) outcome" where
  "entity_reaches H E g start target sc =
     m_bind (visible_lineages H E g sc) (\<lambda>ls. m_return (reaches (lineage_edges ls) start target))"

fun least_targets :: "lineage_type \<Rightarrow> nat" where
  "least_targets MergedInto = 1"
| "least_targets SplitInto = 2"

definition check_lineage_target ::
  "('s, 'c, 'e) hyphae \<Rightarrow> rust_env \<Rightarrow> 's engine \<Rightarrow> recall_scope \<Rightarrow> canonical_entity \<Rightarrow> string
   \<Rightarrow> ('e, unit) outcome" where
  "check_lineage_target H E g sc source i =
     m_bind (require_entity H E g sc i) (\<lambda>target.
     if ne_type source \<noteq> ne_type target then m_fail (GraphEntityTypeNotFound (ne_type target))
     else m_bind (entity_reaches H E g i (ne_id source) sc) (\<lambda>cycle.
       if cycle then m_fail GraphLineageCycle else m_return ()))"

definition record_entity_lineage ::
  "('s, 'c, 'e) hyphae \<Rightarrow> rust_env \<Rightarrow> 's engine \<Rightarrow> lineage_request
   \<Rightarrow> ('e, entity_lineage \<times> 's engine) outcome" where
  "record_entity_lineage H E g req =
     (if length (lq_targets req) < least_targets (lq_type req) then m_fail (InvalidGraph GraphLineageTargets)
      else if lq_evidence req = [] then m_fail (InvalidGraph GraphEvidence)
      else m_bind (require_entity H E g (lq_scope req) (lq_source req)) (\<lambda>source.
        m_bind (collect_m (check_lineage_target H E g (lq_scope req) source) (lq_targets req)) (\<lambda>_.
        m_bind (validate_graph_evidence H E g (lq_scope req) (lq_evidence req)) (\<lambda>_.
        let l = lineage_of_request (env_b3_raw E) (env_uuid_text E) req
        in m_bind (put_doc H g (lineage_to_record (lq_scope req) l)) (\<lambda>g'. m_return (l, g'))))))"

text \<open>
  One pass over the current ids, in order: an id met before is a cycle for the code, an id with an
  applicable merge or split is replaced by its targets, any other stays.
\<close>

definition applicable :: "entity_lineage list \<Rightarrow> i64 \<Rightarrow> i64 \<Rightarrow> string \<Rightarrow> entity_lineage option" where
  "applicable ls t known i = find (\<lambda>l. li_source l = i
     \<and> sint (li_effective_at_ms l) \<le> sint t \<and> sint (li_recorded_at_ms l) \<le> sint known) ls"

fun resolve_pass ::
  "(string \<Rightarrow> entity_lineage option) \<Rightarrow> string list \<Rightarrow> string list \<Rightarrow> string list \<Rightarrow> bool
   \<Rightarrow> (string list \<times> string list \<times> bool) option" where
  "resolve_pass f [] visited next changed = Some (visited, next, changed)"
| "resolve_pass f (i # is) visited next changed =
     (if i \<in> set visited then None
      else case f i of
        Some l \<Rightarrow> resolve_pass f is (i # visited) (next @ li_targets l) True
      | None \<Rightarrow> resolve_pass f is (i # visited) (next @ [i]) changed)"

text \<open>The loop ends because a pass that changed something met the source of a lineage not met before.\<close>

lemma resolve_pass_visited:
  "resolve_pass f is visited next changed = Some (visited', next', changed')
   \<Longrightarrow> set visited' = set is \<union> set visited
     \<and> (changed' \<longrightarrow> changed \<or> (\<exists>i\<in>set is. i \<notin> set visited \<and> f i \<noteq> None))"
proof (induction f "is" visited "next" changed rule: resolve_pass.induct)
  case (2 f i "is" visited "next" changed)
  show ?case
  proof (cases "f i")
    case None
    with 2(3) have "i \<notin> set visited" "resolve_pass f is (i # visited) (next @ [i]) changed
        = Some (visited', next', changed')" by (auto split: if_splits)
    from 2(1) [OF this(1) None this(2)] show ?thesis by auto
  next
    case (Some l)
    with 2(3) have "i \<notin> set visited" "resolve_pass f is (i # visited) (next @ li_targets l) True
        = Some (visited', next', changed')" by (auto split: if_splits)
    from 2(2) [OF this(1) Some this(2)] this(1) Some show ?thesis by auto
  qed
qed simp

function resolve_loop ::
  "entity_lineage list \<Rightarrow> i64 \<Rightarrow> i64 \<Rightarrow> string list \<Rightarrow> string list \<Rightarrow> string list option" where
  "resolve_loop ls t known current visited =
     (case resolve_pass (applicable ls t known) current visited [] False of
        None \<Rightarrow> None
      | Some (visited', next, changed) \<Rightarrow>
          let ids = remdups_adj (sort next)
          in if \<not> changed then Some ids else resolve_loop ls t known ids visited')"
  by pat_completeness auto

termination
proof (relation "measure (\<lambda>(ls, t, known, current, visited). card (li_source ` set ls - set visited))", goal_cases)
  case (2 ls t known current visited x visited' y "next" changed ids)
  then have run: "resolve_pass (applicable ls t known) current visited [] False = Some (visited', next, True)"
    by simp
  from resolve_pass_visited [OF run] obtain i where
    v: "set visited' = set current \<union> set visited" and
    i: "i \<in> set current" "i \<notin> set visited" "applicable ls t known i \<noteq> None" by auto
  then have "i \<in> li_source ` set ls - set visited"
    by (auto simp: applicable_def find_Some_iff)
  moreover have "i \<in> set visited'" using i v by simp
  ultimately have "li_source ` set ls - set visited' \<subset> li_source ` set ls - set visited" using v by blast
  then have "card (li_source ` set ls - set visited') < card (li_source ` set ls - set visited)"
    by (intro psubset_card_mono) simp_all
  then show ?case by simp
qed simp

declare resolve_loop.simps [simp del]

definition resolve_entity_id ::
  "('s, 'c, 'e) hyphae \<Rightarrow> rust_env \<Rightarrow> 's engine \<Rightarrow> string \<Rightarrow> recall_scope \<Rightarrow> i64 \<Rightarrow> i64
   \<Rightarrow> ('e, entity_resolution) outcome" where
  "resolve_entity_id H E g i sc t known =
     m_bind (get_entity H E g i sc) (\<lambda>found.
     if found = None then m_return NoSuchEntity
     else m_bind (visible_lineages H E g sc) (\<lambda>ls.
       case resolve_loop ls t known [i] [] of
         None \<Rightarrow> m_fail GraphLineageCycle | Some ids \<Rightarrow> m_return (resolution ids)))"

section \<open>Relations\<close>

text \<open>\<open>max_by\<close>: of several greatest elements the last.\<close>

fun max_by :: "('a \<Rightarrow> 'b :: linorder) \<Rightarrow> 'a list \<Rightarrow> 'a option" where
  "max_by k [] = None"
| "max_by k (x # xs) = (case max_by k xs of
     None \<Rightarrow> Some x | Some y \<Rightarrow> if k x \<le> k y then Some y else Some x)"

definition newest_definition :: "string \<Rightarrow> relation_type_definition list \<Rightarrow> relation_type_definition option" where
  "newest_definition ty ds =
     max_by (\<lambda>d. (sint (rt_recorded_at_ms d), rt_ontology_version d)) (filter (\<lambda>d. rt_type d = ty) ds)"

definition create_entity_relation ::
  "('s, 'c, 'e) hyphae \<Rightarrow> rust_env \<Rightarrow> 's engine \<Rightarrow> relation_request
   \<Rightarrow> ('e, entity_relation \<times> 's engine) outcome" where
  "create_entity_relation H E g req =
     m_bind (require_tenant (en_tenant g) (rs_tenant_id (eq_scope req))) (\<lambda>_.
     m_bind (from_invalid_graph (validate_graph_text (eq_type req) ''relation_type'')) (\<lambda>_.
     m_bind (from_invalid_graph (validate_interval (eq_valid_from_ms req) (eq_valid_to_ms req))) (\<lambda>_.
     if \<not> in_unit_interval (eq_confidence req) then m_fail (InvalidGraph GraphValidity)
     else m_bind (require_entity H E g (eq_scope req) (eq_source req)) (\<lambda>source.
     m_bind (require_entity H E g (eq_scope req) (eq_target req)) (\<lambda>target.
     m_bind (relation_types H g (eq_scope req)) (\<lambda>ds. case newest_definition (eq_type req) ds of
       None \<Rightarrow> m_fail (GraphRelationTypeNotFound (eq_type req))
     | Some d \<Rightarrow>
         if ne_type source \<notin> set (rt_source_types d) \<or> ne_type target \<notin> set (rt_target_types d)
         then m_fail GraphRelationEndpointType
         else if eq_evidence req = [] then m_fail (InvalidGraph GraphEvidence)
         else m_bind (validate_graph_evidence H E g (eq_scope req) (eq_evidence req)) (\<lambda>_.
           let r = relation_of_request (env_b3_raw E) (env_uuid_text E) req d
           in m_bind (from_store (hy_get H (en_store g) (relation_key (el_id r)))) (\<lambda>found. case found of
                Some rec \<Rightarrow> m_bind (from_graph (relation_from_record (env_uuid_ok E) rec)) (\<lambda>old.
                  m_return (old, g))
              | None \<Rightarrow> m_bind (put_doc H g (relation_to_record r)) (\<lambda>g'. m_return (r, g'))))))))))"

definition entity_relations_at ::
  "('s, 'c, 'e) hyphae \<Rightarrow> rust_env \<Rightarrow> 's engine \<Rightarrow> recall_scope \<Rightarrow> i64 \<Rightarrow> i64
   \<Rightarrow> ('e, entity_relation list) outcome" where
  "entity_relations_at H E g sc t known =
     m_bind (require_tenant (en_tenant g) (rs_tenant_id sc)) (\<lambda>_.
     m_bind (graph_scan H g relation_prefix (relation_from_record (env_uuid_ok E))) (\<lambda>rs.
       m_return (filter (\<lambda>r. relation_valid_at r t known)
         (filter (\<lambda>r. graph_scope_visible (el_scope r) sc) rs))))"

record traversal_request =
  tq_scope :: recall_scope
  tq_seeds :: "string list"
  tq_relation_types :: "string list"
  tq_valid_at_ms :: i64
  tq_known_at_ms :: i64
  tq_max_depth :: nat
  tq_max_edges :: nat
  tq_max_entities :: nat

record traversal_result =
  tr_entities :: "string list"
  tr_edges :: "traversed_edge list"
  tr_inspected :: nat
  tr_truncated :: bool
  tr_reason :: "graph_truncation option"

definition traversal_limits :: "traversal_request \<Rightarrow> walk_limits" where
  "traversal_limits req =
     \<lparr>wl_depth = min (tq_max_depth req) 8, wl_edges = min (tq_max_edges req) 1000,
      wl_entities = min (tq_max_entities req) 1000\<rparr>"

definition traversable_relations :: "traversal_request \<Rightarrow> entity_relation list \<Rightarrow> entity_relation list" where
  "traversable_relations req rs =
     sort_key el_id (filter (\<lambda>r. tq_relation_types req = [] \<or> el_type r \<in> set (tq_relation_types req))
       (filter el_traversable rs))"

definition traverse_graph ::
  "('s, 'c, 'e) hyphae \<Rightarrow> rust_env \<Rightarrow> 's engine \<Rightarrow> traversal_request
   \<Rightarrow> ('e, traversal_result) outcome" where
  "traverse_graph H E g req =
     m_bind (require_tenant (en_tenant g) (rs_tenant_id (tq_scope req))) (\<lambda>_.
     if tq_max_depth req = 0 \<or> tq_max_edges req = 0 \<or> tq_max_entities req = 0
     then m_fail (InvalidGraph GraphTraversalBudget)
     else let L = traversal_limits req; seeds = remdups_adj (sort (tq_seeds req))
       in m_bind (collect_m (require_entity H E g (tq_scope req)) seeds) (\<lambda>_.
          if wl_entities L < length seeds
          then m_return \<lparr>tr_entities = take (wl_entities L) seeds, tr_edges = [], tr_inspected = 0,
                 tr_truncated = True, tr_reason = Some EntityBudget\<rparr>
          else m_bind (entity_relations_at H E g (tq_scope req) (tq_valid_at_ms req) (tq_known_at_ms req)) (\<lambda>rs.
            let w = run_walk L (traversable_relations req rs) seeds
            in m_return \<lparr>tr_entities = wk_entities w, tr_edges = wk_edges w, tr_inspected = wk_inspected w,
                 tr_truncated = wk_reason w \<noteq> None, tr_reason = wk_reason w\<rparr>)))"

section \<open>Bindings and integrity\<close>

definition bind_memory_entity ::
  "('s, 'c, 'e) hyphae \<Rightarrow> rust_env \<Rightarrow> 's engine \<Rightarrow> string \<Rightarrow> string \<Rightarrow> recall_scope
   \<Rightarrow> ('e, memory_binding \<times> 's engine) outcome" where
  "bind_memory_entity H E g mid eid sc =
     m_bind (get_memory H (env_b3 E) (env_q15_ok E) (en_tenant g) (en_store g) mid sc) (\<lambda>found. case found of
       None \<Rightarrow> m_fail (MissingCandidate mid)
     | Some m \<Rightarrow> m_bind (require_entity H E g sc eid) (\<lambda>_.
         let b = \<lparr>mb_scope = sc, mb_entity_id = eid, mb_memory_id = mem_id m,
                  mb_recorded_at_ms = ingested_at_ms m\<rparr>
         in m_bind (put_doc H g (binding_to_record (env_b3 E) b)) (\<lambda>g'. m_return (b, g'))))"

definition visible_bindings ::
  "('s, 'c, 'e) hyphae \<Rightarrow> rust_env \<Rightarrow> 's engine \<Rightarrow> recall_scope \<Rightarrow> ('e, memory_binding list) outcome" where
  "visible_bindings H E g sc =
     m_bind (graph_scan H g binding_prefix (binding_from_record (env_uuid_ok E))) (\<lambda>bs.
       m_return (filter (\<lambda>b. graph_scope_visible (mb_scope b) sc) bs))"

definition memory_bindings ::
  "('s, 'c, 'e) hyphae \<Rightarrow> rust_env \<Rightarrow> 's engine \<Rightarrow> string \<Rightarrow> recall_scope
   \<Rightarrow> ('e, memory_binding list) outcome" where
  "memory_bindings H E g eid sc =
     m_bind (visible_bindings H E g sc) (\<lambda>bs. m_return (filter (\<lambda>b. mb_entity_id b = eid) bs))"

definition bound_entity_ids ::
  "('s, 'c, 'e) hyphae \<Rightarrow> rust_env \<Rightarrow> 's engine \<Rightarrow> string \<Rightarrow> recall_scope \<Rightarrow> ('e, string list) outcome" where
  "bound_entity_ids H E g mid sc =
     m_bind (visible_bindings H E g sc) (\<lambda>bs.
       m_return (map mb_entity_id (filter (\<lambda>b. mb_memory_id b = mid) bs)))"

definition visible_entities ::
  "('s, 'c, 'e) hyphae \<Rightarrow> rust_env \<Rightarrow> 's engine \<Rightarrow> recall_scope \<Rightarrow> ('e, canonical_entity list) outcome" where
  "visible_entities H E g sc =
     m_bind (graph_scan H g canonical_entity_prefix (canonical_from_record (env_uuid_ok E))) (\<lambda>es.
       m_return (filter (\<lambda>e. graph_scope_visible (ne_scope e) sc) es))"

record integrity_issue =
  gi_kind :: string
  gi_subject :: string

record integrity_report =
  ig_valid :: bool
  ig_entities :: nat
  ig_relations :: nat
  ig_bindings :: nat
  ig_issues :: "integrity_issue list"

definition issue_if :: "bool \<Rightarrow> string \<Rightarrow> string \<Rightarrow> integrity_issue list" where
  "issue_if bad kind' subject = (if bad then [\<lparr>gi_kind = kind', gi_subject = subject\<rparr>] else [])"

definition event_missing ::
  "('s, 'c, 'e) hyphae \<Rightarrow> rust_env \<Rightarrow> 's engine \<Rightarrow> recall_scope \<Rightarrow> string \<Rightarrow> string \<Rightarrow> graph_evidence
   \<Rightarrow> ('e, integrity_issue list) outcome" where
  "event_missing H E g sc kind' subject ev =
     m_bind (get_ingestion H E (en_tenant g) (en_store g) (gv_event_id ev) sc) (\<lambda>found.
       m_return (issue_if (found = None) kind' subject))"

definition evidence_miscounted :: "u64 \<Rightarrow> graph_evidence list \<Rightarrow> bool" where
  "evidence_miscounted n evs \<longleftrightarrow> evs = [] \<or> n \<noteq> word_of_nat (length evs)"

definition relation_issues ::
  "('s, 'c, 'e) hyphae \<Rightarrow> rust_env \<Rightarrow> 's engine \<Rightarrow> recall_scope \<Rightarrow> string list
   \<Rightarrow> relation_type_definition list \<Rightarrow> entity_relation \<Rightarrow> ('e, integrity_issue list) outcome" where
  "relation_issues H E g sc ids ds r =
     m_bind (collect_m (event_missing H E g sc ''missing_relation_evidence'' (el_id r)) (el_evidence r)) (\<lambda>evs.
       m_return (issue_if (el_source r \<notin> set ids) ''missing_source_entity'' (el_id r)
         @ issue_if (el_target r \<notin> set ids) ''missing_target_entity'' (el_id r)
         @ issue_if (evidence_miscounted (el_evidence_count r) (el_evidence r)) ''invalid_evidence_count'' (el_id r)
         @ issue_if (\<not> list_ex (\<lambda>d. rt_type d = el_type r \<and> rt_ontology_version d = el_ontology_version r) ds)
             ''missing_relation_type'' (el_id r)
         @ concat evs))"

definition entity_issues ::
  "('s, 'c, 'e) hyphae \<Rightarrow> rust_env \<Rightarrow> 's engine \<Rightarrow> recall_scope \<Rightarrow> canonical_entity
   \<Rightarrow> ('e, integrity_issue list) outcome" where
  "entity_issues H E g sc e =
     m_bind (collect_m (event_missing H E g sc ''missing_entity_evidence'' (ne_id e)) (ne_evidence e)) (\<lambda>evs.
       m_return (issue_if (evidence_miscounted (ne_evidence_count e) (ne_evidence e))
         ''invalid_entity_evidence'' (ne_id e) @ concat evs))"

definition binding_issues ::
  "('s, 'c, 'e) hyphae \<Rightarrow> rust_env \<Rightarrow> 's engine \<Rightarrow> recall_scope \<Rightarrow> string list \<Rightarrow> memory_binding
   \<Rightarrow> ('e, integrity_issue list) outcome" where
  "binding_issues H E g sc ids b =
     m_bind (get_memory H (env_b3 E) (env_q15_ok E) (en_tenant g) (en_store g) (mb_memory_id b) sc) (\<lambda>found.
       m_return (issue_if (mb_entity_id b \<notin> set ids) ''missing_binding_entity'' (mb_memory_id b)
         @ issue_if (found = None) ''missing_binding_memory'' (mb_memory_id b)))"

definition graph_verify ::
  "('s, 'c, 'e) hyphae \<Rightarrow> rust_env \<Rightarrow> 's engine \<Rightarrow> recall_scope \<Rightarrow> ('e, integrity_report) outcome" where
  "graph_verify H E g sc =
     m_bind (require_tenant (en_tenant g) (rs_tenant_id sc)) (\<lambda>_.
     m_bind (visible_entities H E g sc) (\<lambda>es.
     let ids = map ne_id es
     in m_bind (graph_scan H g relation_prefix (relation_from_record (env_uuid_ok E))) (\<lambda>rs0.
     let rs = filter (\<lambda>r. graph_scope_visible (el_scope r) sc) rs0
     in m_bind (visible_bindings H E g sc) (\<lambda>bs.
     m_bind (relation_types H g sc) (\<lambda>ds.
     m_bind (collect_m (relation_issues H E g sc ids ds) rs) (\<lambda>ri.
     m_bind (collect_m (entity_issues H E g sc) es) (\<lambda>ei.
     m_bind (collect_m (binding_issues H E g sc ids) bs) (\<lambda>bi.
       let issues = concat ri @ concat ei @ concat bi
       in m_return \<lparr>ig_valid = issues = [], ig_entities = length es, ig_relations = length rs,
            ig_bindings = length bs, ig_issues = issues\<rparr>))))))))"

end
