(* ===== verification/Graph_Path.thy ===== *)
theory Graph_Path
  imports Graph_Traversal
begin

text \<open>
  \<open>graph_path\<close> of \<open>engine.rs\<close>: the path from a seed to a visited entity, read off the edges of a walk.
  Each entity keeps the first edge that led to it; the path follows these edges back until it meets a
  seed. The loop has no bound in the code: that it ends is a fact about the walk.
\<close>

definition or_insert :: "string \<Rightarrow> string \<Rightarrow> (string \<rightharpoonup> string) \<Rightarrow> (string \<rightharpoonup> string)" where
  "or_insert k v m = (if m k = None then m(k \<mapsto> v) else m)"

definition parent_step :: "traversed_edge \<Rightarrow> (string \<rightharpoonup> string) \<Rightarrow> (string \<rightharpoonup> string)" where
  "parent_step e m =
     (let r = te_relation e; m1 = or_insert (el_target r) (el_source r) m
      in if el_direction r = Undirected then or_insert (el_source r) (el_target r) m1 else m1)"

definition parents :: "traversed_edge list \<Rightarrow> (string \<rightharpoonup> string)" where
  "parents es = fold parent_step es Map.empty"

text \<open>The vector is reversed at the end; here every entity is put in front.\<close>

partial_function (option) path_loop ::
  "(string \<rightharpoonup> string) \<Rightarrow> string list \<Rightarrow> string \<Rightarrow> string list \<Rightarrow> string list option" where
  "path_loop parent seeds current path = (case parent current of
     None \<Rightarrow> Some path
   | Some u \<Rightarrow> if u \<in> set seeds then Some (u # path) else path_loop parent seeds u (u # path))"

definition graph_path :: "string list \<Rightarrow> string \<Rightarrow> traversed_edge list \<Rightarrow> string list option" where
  "graph_path seeds target es =
     (if target \<in> set seeds then Some [target] else path_loop (parents es) seeds target [target])"

section \<open>The first edge to an entity\<close>

lemma parents_snoc [simp]: "parents (es @ [e]) = parent_step e (parents es)"
  by (simp add: parents_def)

lemma or_insert_keeps: "m x = Some u \<Longrightarrow> or_insert k v m x = Some u"
  by (auto simp: or_insert_def)

lemma parent_step_keeps: "m x = Some u \<Longrightarrow> parent_step e m x = Some u"
  by (auto simp: parent_step_def Let_def intro: or_insert_keeps)

lemma dom_or_insert [simp]: "dom (or_insert k v m) = insert k (dom m)"
  by (auto simp: or_insert_def)

lemma dom_parent_step:
  "dom (parent_step e m) = {el_target (te_relation e)} \<union> dom m
     \<union> (if el_direction (te_relation e) = Undirected then {el_source (te_relation e)} else {})"
  by (auto simp: parent_step_def Let_def)

lemma edge_ends_in_dom:
  "e \<in> set es \<Longrightarrow> el_target (te_relation e) \<in> dom (parents es)
     \<and> (el_direction (te_relation e) = Undirected \<longrightarrow> el_source (te_relation e) \<in> dom (parents es))"
proof (induction es rule: rev_induct)
  case (snoc e' es)
  then show ?case unfolding parents_snoc dom_parent_step by auto
qed simp

lemma parent_of_neighbor:
  assumes "leaves_from c r" and "m (neighbor c r) = None" and "neighbor c r \<noteq> c" and "te_relation e = r"
  shows "parent_step e m (neighbor c r) = Some c"
  using assms by (auto simp: leaves_from_def neighbor_def parent_step_def or_insert_def Let_def split: if_splits)

section \<open>Every visited entity has an earlier parent\<close>

definition earlier_in :: "string list \<Rightarrow> string \<Rightarrow> string \<Rightarrow> bool" where
  "earlier_in xs u v \<longleftrightarrow> (\<exists>ys zs. xs = ys @ v # zs \<and> u \<in> set ys)"

lemma earlier_append: "earlier_in xs u v \<Longrightarrow> earlier_in (xs @ ys) u v"
  unfolding earlier_in_def by (metis append.assoc append_Cons)

lemma earlier_snoc: "u \<in> set xs \<Longrightarrow> earlier_in (xs @ [v]) u v"
  by (auto simp: earlier_in_def)

definition has_parent :: "entity_relation list \<Rightarrow> walk \<Rightarrow> string \<Rightarrow> bool" where
  "has_parent rs w v \<longleftrightarrow>
     (\<exists>u. parents (wk_edges w) v = Some u \<and> earlier_in (wk_entities w) u v \<and> (u, v) \<in> links rs)"

definition paths_ok :: "walk_limits \<Rightarrow> entity_relation list \<Rightarrow> string list \<Rightarrow> walk \<Rightarrow> bool" where
  "paths_ok L rs seeds w \<longleftrightarrow>
     set (wk_visited w) = set (wk_entities w)
     \<and> te_relation ` set (wk_edges w) \<subseteq> set rs
     \<and> fst ` set (wk_queue w) \<subseteq> set (wk_entities w)
     \<and> (\<forall>v\<in>set (wk_entities w). v \<in> set seeds \<or> has_parent rs w v)
     \<and> (length (wk_entities w) < wl_entities L \<longrightarrow> dom (parents (wk_edges w)) \<subseteq> set (wk_entities w))"

lemma entities_neutral [simp]:
  "wk_entities (inspect w) = wk_entities w" "wk_entities (note_reason why w) = wk_entities w"
  by (simp_all add: inspect_def note_reason_def)

lemma paths_ok_neutral [simp]:
  "paths_ok L rs seeds (inspect w) = paths_ok L rs seeds w"
  "paths_ok L rs seeds (note_reason why w) = paths_ok L rs seeds w"
  by (simp_all add: paths_ok_def has_parent_def inspect_def note_reason_def)

lemma paths_ok_follow:
  assumes ok: "paths_ok L rs seeds w" and inj: "inj_on el_id (set rs)"
    and c: "c \<in> set (wk_entities w)" and r: "r \<in> set rs" "leaves_from c r"
  shows "paths_ok L rs seeds (follow_edge L (neighbor c r) d r w)"
proof -
  let ?n = "neighbor c r" and ?e = "\<lparr>te_relation = r, te_depth = d + 1\<rparr>"
  define known where "known = list_ex (\<lambda>e. el_id (te_relation e) = el_id r) (wk_edges w)"
  define v where "v = record_edge d r w"
  have edges: "wk_edges v = (if known then wk_edges w else wk_edges w @ [?e])"
    and same: "wk_entities v = wk_entities w" "wk_visited v = wk_visited w" "wk_queue v = wk_queue w"
    by (simp_all add: v_def record_edge_def known_def)
  have keep: "parents (wk_edges v) x = Some u" if "parents (wk_edges w) x = Some u" for x u
    using that by (auto simp: edges intro: parent_step_keeps)
  have hp: "has_parent rs v x" if "has_parent rs w x" for x
    using that keep unfolding has_parent_def same by blast
  have ends: "{el_source r, el_target r} = {c, ?n}"
    using r(2) by (auto simp: leaves_from_def neighbor_def)
  have dom_v: "dom (parents (wk_edges v)) \<subseteq> dom (parents (wk_edges w)) \<union> {c, ?n}"
    using ends by (auto simp: edges dom_parent_step split: if_splits)
  have rel_v: "te_relation ` set (wk_edges v) \<subseteq> set rs"
    using ok r(1) by (auto simp: edges paths_ok_def)
  from ok have visited: "set (wk_visited w) = set (wk_entities w)"
    and queue: "fst ` set (wk_queue w) \<subseteq> set (wk_entities w)"
    and par: "\<And>x. x \<in> set (wk_entities w) \<Longrightarrow> x \<in> set seeds \<or> has_parent rs w x"
    by (auto simp: paths_ok_def)
  have par_v: "\<forall>x\<in>set (wk_entities w). x \<in> set seeds \<or> has_parent rs v x"
    using par hp by blast
  show ?thesis
  proof (cases "?n \<in> set (wk_visited w) \<or> wl_entities L \<le> length (wk_entities w)")
    case True
    have "dom (parents (wk_edges v)) \<subseteq> set (wk_entities w)" if "length (wk_entities w) < wl_entities L"
    proof -
      have "dom (parents (wk_edges w)) \<union> {c, ?n} \<subseteq> set (wk_entities w)"
        using ok True that c unfolding paths_ok_def by auto
      with dom_v show ?thesis by (rule subset_trans)
    qed
    then have "paths_ok L rs seeds v"
      using visited queue par_v rel_v by (simp add: paths_ok_def same)
    then show ?thesis using True by (auto simp: follow_edge_def Let_def v_def [symmetric] same)
  next
    case False
    then have new: "?n \<notin> set (wk_visited w)" "length (wk_entities w) < wl_entities L" by auto
    then have nd: "?n \<notin> dom (parents (wk_edges w))" and nc: "?n \<noteq> c"
      using ok c by (auto simp: paths_ok_def)
    have "\<not> known"
    proof
      assume known
      then obtain e where e: "e \<in> set (wk_edges w)" "el_id (te_relation e) = el_id r"
        by (auto simp: known_def list_ex_iff)
      with ok inj r(1) have "te_relation e = r" by (auto simp: paths_ok_def inj_on_def)
      with edge_ends_in_dom [OF e(1)] r(2) have "?n \<in> dom (parents (wk_edges w))"
        by (auto simp: leaves_from_def neighbor_def)
      with nd show False ..
    qed
    then have par_n: "parents (wk_edges v) ?n = Some c"
      using parent_of_neighbor [OF r(2) _ nc, of "parents (wk_edges w)" ?e] nd by (auto simp: edges)
    have link: "(c, ?n) \<in> links rs" using r by (auto simp: links_def)
    let ?w = "discover ?n d v"
    have up: "has_parent rs ?w x" if "has_parent rs v x" for x
      using that earlier_append unfolding has_parent_def discover_def by auto
    have hn: "has_parent rs ?w ?n"
      using par_n link c earlier_snoc unfolding has_parent_def discover_def same by auto
    have "\<forall>x\<in>insert ?n (set (wk_entities w)). x \<in> set seeds \<or> has_parent rs ?w x"
      using par_v up hn by blast
    moreover have "dom (parents (wk_edges v)) \<subseteq> insert ?n (set (wk_entities w))"
    proof -
      have "dom (parents (wk_edges w)) \<union> {c, ?n} \<subseteq> insert ?n (set (wk_entities w))"
        using ok new(2) c unfolding paths_ok_def by auto
      with dom_v show ?thesis by (rule subset_trans)
    qed
    ultimately have "paths_ok L rs seeds ?w"
      using visited queue rel_v by (auto simp: paths_ok_def discover_def same)
    then show ?thesis using new by (simp add: follow_edge_def Let_def v_def [symmetric] same not_le)
  qed
qed

lemma paths_ok_visit:
  assumes "paths_ok L rs seeds w" and "inj_on el_id (set rs)" and "c \<in> set (wk_entities w)"
    and "\<And>r. r \<in> set es \<Longrightarrow> r \<in> set rs \<and> leaves_from c r"
  shows "paths_ok L rs seeds (visit_edges L c d es w)"
proof -
  have "paths_ok L rs seeds (visit_edges L c d es w) \<and> c \<in> set (wk_entities (visit_edges L c d es w))"
  proof (rule visit_edges_induct)
    show "paths_ok L rs seeds (follow_edge L (neighbor c r) d r w')
        \<and> c \<in> set (wk_entities (follow_edge L (neighbor c r) d r w'))"
      if "paths_ok L rs seeds w' \<and> c \<in> set (wk_entities w')" "r \<in> set es" for w' r
    proof
      show "paths_ok L rs seeds (follow_edge L (neighbor c r) d r w')"
        by (rule paths_ok_follow) (use that assms(2,4) in auto)
      show "c \<in> set (wk_entities (follow_edge L (neighbor c r) d r w'))"
        using that by (auto simp: follow_edge_def record_edge_def note_reason_def discover_def Let_def)
    qed
  qed (use assms(1,3) in simp_all)
  then show ?thesis ..
qed

lemma paths_ok_loop:
  "paths_ok L rs seeds w \<Longrightarrow> inj_on el_id (set rs) \<Longrightarrow> paths_ok L rs seeds (walk_loop L rs w)"
proof (induction L rs w rule: walk_loop.induct)
  case (1 L rs w)
  show ?case
  proof (cases "wk_queue w")
    case Nil
    then show ?thesis using 1(2) by (simp add: walk_loop.simps)
  next
    case (Cons p queue)
    obtain c d where p: "p = (c, d)" by (cases p)
    have "paths_ok L rs seeds (w\<lparr>wk_queue := queue\<rparr>)" "c \<in> set (wk_entities w)"
      using 1(2) Cons p by (auto simp: paths_ok_def has_parent_def)
    then have "paths_ok L rs seeds (visit_edges L c d (filter (leaves_from c) rs) (w\<lparr>wk_queue := queue\<rparr>))"
      using 1(3) by (intro paths_ok_visit) auto
    with 1(1) [OF Cons p [symmetric] refl] 1(3) show ?thesis
      by (subst walk_loop.simps) (simp add: Cons p Let_def)
  qed
qed

section \<open>The path ends at a seed\<close>

definition is_path :: "entity_relation list \<Rightarrow> string list \<Rightarrow> bool" where
  "is_path rs p \<longleftrightarrow> successively (\<lambda>a b. (a, b) \<in> links rs) p"

lemma path_loop_ends:
  assumes "\<And>v. v \<in> set xs \<Longrightarrow> v \<in> set seeds \<or>
      (\<exists>u. parent v = Some u \<and> earlier_in xs u v \<and> (u, v) \<in> links rs)"
    and "distinct xs" and "is_path rs (x # path)"
  shows "x \<in> set xs \<Longrightarrow> x \<notin> set seeds \<Longrightarrow>
    \<exists>q. path_loop parent seeds x (x # path) = Some q \<and> q \<noteq> [] \<and> hd q \<in> set seeds
      \<and> (\<exists>ys. q = ys @ x # path) \<and> is_path rs q"
  using assms(3)
proof (induction "length (takeWhile (\<lambda>y. y \<noteq> x) xs)" arbitrary: x path rule: less_induct)
  case less
  from assms(1) [OF less.prems(1)] less.prems(2) obtain u where
    u: "parent x = Some u" "earlier_in xs u x" "(u, x) \<in> links rs" by blast
  from u(2) obtain ys zs where xs: "xs = ys @ x # zs" "u \<in> set ys" by (auto simp: earlier_in_def)
  have path: "is_path rs (u # x # path)" using less.prems(3) u(3) by (simp add: is_path_def)
  show ?case
  proof (cases "u \<in> set seeds")
    case True
    with u(1) path show ?thesis by (subst path_loop.simps) auto
  next
    case False
    have "x \<notin> set ys" using assms(2) xs(1) by auto
    then have "takeWhile (\<lambda>y. y \<noteq> x) xs = ys" unfolding xs(1) by (subst takeWhile_append2) auto
    moreover have "length (takeWhile (\<lambda>y. y \<noteq> u) xs) < length ys"
    proof -
      obtain as bs where "ys = as @ u # bs" "u \<notin> set as" using xs(2) by (meson split_list_first)
      moreover from this(2) have "takeWhile (\<lambda>y. y \<noteq> u) (as @ u # bs @ x # zs) = as"
        by (subst takeWhile_append2) auto
      ultimately show ?thesis unfolding xs(1) by simp
    qed
    ultimately have less': "length (takeWhile (\<lambda>y. y \<noteq> u) xs) < length (takeWhile (\<lambda>y. y \<noteq> x) xs)" by simp
    have "u \<in> set xs" using xs by simp
    from less.hyps [OF less' this False path] obtain q ys where
      "path_loop parent seeds u (u # x # path) = Some q" "q \<noteq> []" "hd q \<in> set seeds"
      "q = ys @ u # x # path" "is_path rs q" by blast
    moreover from this(1) have "path_loop parent seeds x (x # path) = Some q"
      using u(1) False by (subst path_loop.simps) simp
    ultimately show ?thesis by (metis append.assoc append_Cons append_Nil)
  qed
qed

lemma walk_path_ends:
  assumes "distinct seeds" and "length seeds \<le> wl_entities L" and inj: "inj_on el_id (set rs)"
    and x: "x \<in> set (wk_entities (run_walk L rs seeds))"
  shows "\<exists>q. graph_path seeds x (wk_edges (run_walk L rs seeds)) = Some q \<and> q \<noteq> []
    \<and> hd q \<in> set seeds \<and> last q = x \<and> is_path rs q"
proof (cases "x \<in> set seeds")
  case True
  then show ?thesis by (simp add: graph_path_def is_path_def)
next
  case False
  let ?w = "run_walk L rs seeds"
  have "paths_ok L rs seeds (walk_start seeds)"
    by (auto simp: paths_ok_def walk_start_def parents_def)
  then have ok: "paths_ok L rs seeds ?w" unfolding run_walk_def by (rule paths_ok_loop [OF _ inj])
  have d: "distinct (wk_entities ?w)"
    using walk_ok_loop [OF walk_start_ok(1) [OF assms(1,2)]] unfolding run_walk_def walk_ok_def by blast
  have step: "v \<in> set seeds \<or> (\<exists>u. parents (wk_edges ?w) v = Some u \<and> earlier_in (wk_entities ?w) u v
      \<and> (u, v) \<in> links rs)" if "v \<in> set (wk_entities ?w)" for v
    using ok that unfolding paths_ok_def has_parent_def by blast
  have "is_path rs [x]" by (simp add: is_path_def)
  from path_loop_ends [OF step d this x False] False show ?thesis
    by (auto simp: graph_path_def)
qed

end
