(* ===== verification/Recall_Pipeline.thy ===== *)
theory Recall_Pipeline
  imports Memory_Listing Graph_Engine Graph_Path
begin

text \<open>
  \<open>MemoryEngine::recall\<close> as a whole (\<open>engine.rs\<close>, \<open>recall_pipeline.rs\<close>): the authorized corpus, the
  four branches that propose candidates from it, the bounded union, scoring and the ranked answer. The
  two searches the branches delegate to the storage crate, exact retrieval and BM25F, are a record of
  functions. An index that would be out of place is a panic of the code and \<open>None\<close> here.
\<close>

section \<open>Requests\<close>

datatype exact_reason = ExactNoCandidates | ExactBelowThreshold | ExactAmbiguous

datatype exact_outcome = ExactMatches "(bytes \<times> i64) list" | ExactAbstained exact_reason

record 'e search_ops =
  so_exact :: "(bytes \<times> i16 list) list \<Rightarrow> i16 list \<Rightarrow> nat \<Rightarrow> 'e + exact_outcome"
  so_lexical :: "doc list \<Rightarrow> bytes \<Rightarrow> nat \<Rightarrow> 'e + (bytes \<times> i64) list option"
  so_alphanumeric :: "bytes \<Rightarrow> bool"

record recall_config =
  rc_weights :: recall_weights
  rc_max_results :: nat
  rc_score_threshold :: f64

record branch_options =
  bo_semantic :: bool
  bo_lexical :: bool
  bo_graph :: bool
  bo_temporal :: bool
  bo_graph_max_depth :: nat
  bo_graph_max_edges :: nat
  bo_graph_max_entities :: nat
  bo_graph_max_memories :: nat
  bo_temporal_max_memories :: nat
  bo_max_union_candidates :: nat

definition default_branches :: branch_options where
  "default_branches =
     \<lparr>bo_semantic = True, bo_lexical = True, bo_graph = True, bo_temporal = True, bo_graph_max_depth = 2,
      bo_graph_max_edges = 100, bo_graph_max_entities = 100, bo_graph_max_memories = 100,
      bo_temporal_max_memories = 100, bo_max_union_candidates = 1000\<rparr>"

record recall_request =
  rq_query_text :: bytes
  rq_query_embedding :: "f64 list"
  rq_limit :: nat
  rq_current_state :: "pad option"
  rq_recall_now_ms :: i64
  rq_recall_scope :: "recall_scope option"
  rq_query_space :: "embedding_space option"
  rq_authority :: disclosure_authority
  rq_disclosure_purpose :: memory_purpose
  rq_filter :: "memory_filter option"
  rq_branches :: branch_options
  rq_relevance :: f64
  rq_reranker :: reranker_input

datatype branch_abstention = NoCandidates | BelowBranchThreshold | Ambiguous | Disabled

record recall_response =
  rp_results :: "scored_memory list"
  rp_lexical_abstention :: "branch_abstention option"
  rp_semantic_abstention :: "branch_abstention option"
  rp_graph_abstention :: "branch_abstention option"
  rp_temporal_abstention :: "branch_abstention option"
  rp_overall_abstention :: "recall_abstention option"
  rp_candidate_count :: nat
  rp_reranker_status :: reranker_status
  rp_graph_truncated :: bool
  rp_graph_inspected :: nat
  rp_graph_reason :: "graph_truncation option"
  rp_union_truncated :: bool

type_synonym candidates = "(bytes \<times> unified_candidate) list"

definition no_candidate :: unified_candidate where
  "no_candidate = \<lparr>uc_semantic = Fin 0, uc_lexical = Fin 0, uc_graph = Fin 0, uc_temporal = Fin 0,
     uc_graph_path = [], uc_claim_ids = []\<rparr>"

section \<open>Exact and lexical candidates\<close>

fun abstention_of :: "exact_reason \<Rightarrow> branch_abstention" where
  "abstention_of ExactNoCandidates = NoCandidates"
| "abstention_of ExactBelowThreshold = BelowBranchThreshold"
| "abstention_of ExactAmbiguous = Ambiguous"

definition nanos_float :: "i64 \<Rightarrow> f64" where
  "nanos_float n = Fin (real_of_int (sint n))"

definition semantic_documents :: "corpus \<Rightarrow> (bytes \<times> i16 list) list" where
  "semantic_documents ms =
     concat (map (\<lambda>(k, m). case mem_vector m of None \<Rightarrow> [] | Some v \<Rightarrow> [(k, v)]) ms)"

definition filtered_semantic_candidates ::
  "'e search_ops \<Rightarrow> corpus \<Rightarrow> i16 list \<Rightarrow> nat
   \<Rightarrow> 'e engine_error + ((bytes \<times> f64) list \<times> branch_abstention option)" where
  "filtered_semantic_candidates S ms query limit = (case so_exact S (semantic_documents ms) query limit of
     Inl e \<Rightarrow> Inl (Hyphae e)
   | Inr (ExactMatches hits) \<Rightarrow>
       Inr (map (\<lambda>(k, n). (k, f64_clamp (nanos_float n / Fin 1000000000) 0 1)) hits, None)
   | Inr (ExactAbstained why) \<Rightarrow> Inr ([], Some (abstention_of why)))"

definition filtered_lexical_candidates ::
  "'e search_ops \<Rightarrow> corpus \<Rightarrow> bytes \<Rightarrow> nat
   \<Rightarrow> 'e engine_error + ((bytes \<times> f64) list \<times> branch_abstention option)" where
  "filtered_lexical_candidates S ms query limit =
     (if trim query = [] then Inr ([], Some NoCandidates)
      else case so_lexical S (map (memory_to_record \<circ> snd) ms) query limit of
        Inl e \<Rightarrow> Inl (Hyphae e)
      | Inr None \<Rightarrow> Inr ([], Some NoCandidates)
      | Inr (Some hits) \<Rightarrow>
          let best = (case hits of [] \<Rightarrow> Fin 1 | (k, n) # _ \<Rightarrow> f64_max (nanos_float n) (Fin 1))
          in Inr (map (\<lambda>(k, n). (k, f64_max (nanos_float n / best) (Fin 0))) hits, None))"

definition set_semantic :: "bytes \<times> f64 \<Rightarrow> candidates \<Rightarrow> candidates" where
  "set_semantic = (\<lambda>(k, s). entry_update k (\<lambda>c. c\<lparr>uc_semantic := s\<rparr>) no_candidate)"

definition set_lexical :: "bytes \<times> f64 \<Rightarrow> candidates \<Rightarrow> candidates" where
  "set_lexical = (\<lambda>(k, s). entry_update k (\<lambda>c. c\<lparr>uc_lexical := s\<rparr>) no_candidate)"

section \<open>Claims the query is about\<close>

definition normalized_query_tokens :: "'e search_ops \<Rightarrow> rust_env \<Rightarrow> bytes \<Rightarrow> bytes set" where
  "normalized_query_tokens S E t =
     lower_case (env_patterns E) ` set (filter (\<lambda>w. 1 < length w) (split_text (\<lambda>c. \<not> so_alphanumeric S c) t))"

definition property_tokens :: "'e search_ops \<Rightarrow> rust_env \<Rightarrow> claim \<Rightarrow> bytes set" where
  "property_tokens S E c =
     normalized_query_tokens S E (cl_subject c @ '' '' @ cl_predicate c @ '' '' @ cl_value c)"

definition retired_at :: "i64 \<Rightarrow> claim_link list \<Rightarrow> claim \<Rightarrow> bool" where
  "retired_at now joins c \<longleftrightarrow> list_ex (\<lambda>l. ln_original l = cl_id c \<and> retires_original (ln_relation l)
     \<and> sint (ln_effective_at_ms l) \<le> sint now \<and> sint (ln_recorded_at_ms l) \<le> sint now) joins"

definition current_claim :: "i64 \<Rightarrow> claim_link list \<Rightarrow> claim \<Rightarrow> bool" where
  "current_claim now joins c \<longleftrightarrow>
     sint (cl_recorded_at_ms c) \<le> sint now \<and> valid_at c now \<and> \<not> retired_at now joins c"

definition claim_event_ids ::
  "('s, 'c, 'e) hyphae \<Rightarrow> rust_env \<Rightarrow> 's engine \<Rightarrow> recall_scope \<Rightarrow> claim \<Rightarrow> ('e, string set) outcome" where
  "claim_event_ids H E g sc c =
     m_bind (active_claim_evidence H E g (cl_id c) sc) (\<lambda>es. m_return (ev_event_id ` set es))"

definition inactive_claim_events_for_query ::
  "('s, 'c, 'e) hyphae \<Rightarrow> 'e search_ops \<Rightarrow> rust_env \<Rightarrow> 's engine \<Rightarrow> recall_scope \<Rightarrow> bytes \<Rightarrow> i64
   \<Rightarrow> ('e, string set) outcome" where
  "inactive_claim_events_for_query H S E g sc query now =
     m_bind (visible_claims H E g sc) (\<lambda>claims.
     m_bind (claim_supersessions H E g sc) (\<lambda>joins.
     let asked = filter (\<lambda>c. normalized_query_tokens S E query \<inter> property_tokens S E c \<noteq> {}) claims
     in m_bind (collect_m (claim_event_ids H E g sc) asked) (\<lambda>events.
       let of_claims = (\<lambda>P. \<Union> (set (map snd (filter (P \<circ> fst) (zip asked events)))))
       in m_return (of_claims (\<lambda>c. \<not> current_claim now joins c) - of_claims (current_claim now joins)))))"

definition not_retired :: "string set \<Rightarrow> memory \<Rightarrow> bool" where
  "not_retired retired m \<longleftrightarrow>
     (case event_id (provenance m) of None \<Rightarrow> True | Some i \<Rightarrow> i \<notin> retired)"

section \<open>Graph candidates\<close>

definition has_key :: "bytes \<Rightarrow> (bytes \<times> 'v) list \<Rightarrow> bool" where
  "has_key k ms \<longleftrightarrow> k \<in> fst ` set ms"

definition propose_path :: "f64 \<Rightarrow> string list \<Rightarrow> unified_candidate \<Rightarrow> unified_candidate" where
  "propose_path s p c = (if uc_graph c < s then c\<lparr>uc_graph := s, uc_graph_path := p\<rparr> else c)"

fun add_bound ::
  "corpus \<Rightarrow> nat \<Rightarrow> f64 \<Rightarrow> string list \<Rightarrow> memory_binding list \<Rightarrow> string set \<Rightarrow> candidates
   \<Rightarrow> string set \<times> candidates" where
  "add_bound ms most s p [] added cs = (added, cs)"
| "add_bound ms most s p (b # bs) added cs =
     (if \<not> has_key (mb_memory_id b) ms then add_bound ms most s p bs added cs
      else let cs = entry_update (mb_memory_id b) (propose_path s p) no_candidate cs;
               added = insert (mb_memory_id b) added
           in if most \<le> card added then (added, cs) else add_bound ms most s p bs added cs)"

fun add_entity_memories ::
  "('s, 'c, 'e) hyphae \<Rightarrow> rust_env \<Rightarrow> 's engine \<Rightarrow> recall_scope \<Rightarrow> corpus \<Rightarrow> nat \<Rightarrow> string list
   \<Rightarrow> traversed_edge list \<Rightarrow> string list \<Rightarrow> string set \<Rightarrow> candidates
   \<Rightarrow> ('e, string set \<times> candidates) outcome" where
  "add_entity_memories H E g sc ms most seeds edges [] added cs = m_return (added, cs)"
| "add_entity_memories H E g sc ms most seeds edges (i # is) added cs = (case graph_path seeds i edges of
     None \<Rightarrow> None
   | Some p \<Rightarrow>
       m_bind (memory_bindings H E g i sc) (\<lambda>bs.
         case add_bound ms most (Fin (1 / real (max (length p - 1) 1))) p bs added cs of
           (added, cs) \<Rightarrow> if most \<le> card added then m_return (added, cs)
             else add_entity_memories H E g sc ms most seeds edges is added cs))"

record graph_branch =
  gb_abstention :: "branch_abstention option"
  gb_truncated :: bool
  gb_inspected :: nat
  gb_reason :: "graph_truncation option"

definition no_graph :: "branch_abstention \<Rightarrow> graph_branch" where
  "no_graph why = \<lparr>gb_abstention = Some why, gb_truncated = False, gb_inspected = 0, gb_reason = None\<rparr>"

definition walk_request :: "branch_options \<Rightarrow> recall_scope \<Rightarrow> i64 \<Rightarrow> string list \<Rightarrow> traversal_request" where
  "walk_request bo sc now seeds =
     \<lparr>tq_scope = sc, tq_seeds = seeds, tq_relation_types = [], tq_valid_at_ms = now, tq_known_at_ms = now,
      tq_max_depth = bo_graph_max_depth bo, tq_max_edges = bo_graph_max_edges bo,
      tq_max_entities = bo_graph_max_entities bo\<rparr>"

definition add_graph_candidates ::
  "('s, 'c, 'e) hyphae \<Rightarrow> rust_env \<Rightarrow> 's engine \<Rightarrow> recall_request \<Rightarrow> recall_scope \<Rightarrow> corpus \<Rightarrow> candidates
   \<Rightarrow> ('e, graph_branch \<times> candidates) outcome" where
  "add_graph_candidates H E g rq sc ms cs =
     (let bo = rq_branches rq; now = rq_recall_now_ms rq
      in if \<not> bo_graph bo \<or> bo_graph_max_memories bo = 0 then m_return (no_graph Disabled, cs)
      else m_bind (graph_query_seeds H E g sc (rq_query_text rq) now) (\<lambda>named.
        m_bind (collect_m (\<lambda>k. bound_entity_ids H E g k sc) (map fst cs)) (\<lambda>bound.
        let seeds = remdups_adj (sort (named @ concat bound))
        in if seeds = [] then m_return (no_graph NoCandidates, cs)
           else m_bind (traverse_graph H E g (walk_request bo sc now seeds)) (\<lambda>t.
             m_bind (add_entity_memories H E g sc ms (min (bo_graph_max_memories bo) 10000) seeds (tr_edges t)
               (take (bo_graph_max_entities bo) (tr_entities t)) {} cs) (\<lambda>(added, cs').
             m_return (\<lparr>gb_abstention = (if added = {} then Some NoCandidates else None),
               gb_truncated = tr_truncated t, gb_inspected = tr_inspected t, gb_reason = tr_reason t\<rparr>, cs'))))))"

section \<open>Temporal candidates\<close>

definition support_claim :: "f64 \<Rightarrow> string \<Rightarrow> unified_candidate \<Rightarrow> unified_candidate" where
  "support_claim s i c = c\<lparr>uc_temporal := f64_max (uc_temporal c) s,
     uc_claim_ids := remdups_adj (sort (uc_claim_ids c @ [i]))\<rparr>"

fun add_supported ::
  "nat \<Rightarrow> f64 \<Rightarrow> string \<Rightarrow> memory list \<Rightarrow> string set \<Rightarrow> candidates \<Rightarrow> string set \<times> candidates" where
  "add_supported most s i [] added cs = (added, cs)"
| "add_supported most s i (m # ms) added cs =
     (let cs = entry_update (mem_id m) (support_claim s i) no_candidate cs; added = insert (mem_id m) added
      in if most \<le> card added then (added, cs) else add_supported most s i ms added cs)"

definition memories_of_event :: "corpus \<Rightarrow> string \<Rightarrow> memory list" where
  "memories_of_event ms e = filter (\<lambda>m. event_id (provenance m) = Some e) (map snd ms)"

fun add_evidences ::
  "corpus \<Rightarrow> nat \<Rightarrow> f64 \<Rightarrow> string \<Rightarrow> claim_evidence list \<Rightarrow> string set \<Rightarrow> candidates
   \<Rightarrow> string set \<times> candidates" where
  "add_evidences ms most s i [] added cs = (added, cs)"
| "add_evidences ms most s i (e # es) added cs =
     (case add_supported most s i (memories_of_event ms (ev_event_id e)) added cs of
        (added, cs) \<Rightarrow> if most \<le> card added then (added, cs) else add_evidences ms most s i es added cs)"

fun add_claims ::
  "('s, 'c, 'e) hyphae \<Rightarrow> 'e search_ops \<Rightarrow> rust_env \<Rightarrow> 's engine \<Rightarrow> recall_scope \<Rightarrow> corpus \<Rightarrow> nat
   \<Rightarrow> bytes set \<Rightarrow> claim list \<Rightarrow> string set \<Rightarrow> candidates \<Rightarrow> ('e, string set \<times> candidates) outcome" where
  "add_claims H S E g sc ms most query [] added cs = m_return (added, cs)"
| "add_claims H S E g sc ms most query (c # claims) added cs =
     (let overlap = card (query \<inter> property_tokens S E c)
      in if overlap = 0 then add_claims H S E g sc ms most query claims added cs
      else m_bind (active_claim_evidence H E g (cl_id c) sc) (\<lambda>es.
        case add_evidences ms most (Fin (real overlap / real (max (card query) 1))) (cl_id c)
            (filter (\<lambda>e. ev_relation e = Supports) es) added cs of
          (added, cs) \<Rightarrow> if most \<le> card added then m_return (added, cs)
            else add_claims H S E g sc ms most query claims added cs))"

definition add_temporal_candidates ::
  "('s, 'c, 'e) hyphae \<Rightarrow> 'e search_ops \<Rightarrow> rust_env \<Rightarrow> 's engine \<Rightarrow> recall_request \<Rightarrow> recall_scope \<Rightarrow> corpus
   \<Rightarrow> candidates \<Rightarrow> ('e, branch_abstention option \<times> candidates) outcome" where
  "add_temporal_candidates H S E g rq sc ms cs =
     (let bo = rq_branches rq; query = normalized_query_tokens S E (rq_query_text rq);
          most = min (bo_temporal_max_memories bo) 10000
      in if \<not> bo_temporal bo then m_return (Some Disabled, cs)
      else if query = {} then m_return (Some NoCandidates, cs)
      else m_bind (visible_claims H E g sc) (\<lambda>claims.
        m_bind (claim_supersessions H E g sc) (\<lambda>joins.
        if most = 0 then m_return (Some Disabled, cs)
        else m_bind (add_claims H S E g sc ms most query
            (filter (current_claim (rq_recall_now_ms rq) joins) claims) {} cs) (\<lambda>(added, cs').
          m_return (if added = {} then Some NoCandidates else None, cs')))))"

section \<open>The whole recall\<close>

definition candidate_limit :: "recall_config \<Rightarrow> nat \<Rightarrow> nat" where
  "candidate_limit cf limit = max 1 (min 1000 (max (rc_max_results cf) (max limit 1) * 2))"

text \<open>\<open>expect\<close>: a candidate that is not in the corpus is a panic.\<close>

definition score_all ::
  "recall_config \<Rightarrow> recall_request \<Rightarrow> pad \<Rightarrow> corpus \<Rightarrow> candidates \<Rightarrow> scored_memory list option" where
  "score_all cf rq current ms cs = those (map (\<lambda>(k, c). map_option (\<lambda>m.
     score_candidate (rc_weights cf) current (rq_recall_now_ms rq) (rq_authority rq) (rq_disclosure_purpose rq) m c)
       (map_of ms k)) cs)"

definition scope_of_recall :: "recall_request \<Rightarrow> recall_scope" where
  "scope_of_recall rq = (case rq_recall_scope rq of None \<Rightarrow> recall_scope_local | Some sc \<Rightarrow> sc)"

definition validate_recall :: "rust_env \<Rightarrow> 's engine \<Rightarrow> recall_request \<Rightarrow> ('e, i16 list) outcome" where
  "validate_recall E g rq =
     m_bind (require_tenant (en_tenant g) (rs_tenant_id (scope_of_recall rq))) (\<lambda>_.
     if rq_limit rq = 0 then m_fail (InvalidRecallRequest ''result limit must be nonzero'')
     else if bo_max_union_candidates (rq_branches rq) = 0
     then m_fail (InvalidRecallRequest ''candidate union budget must be nonzero'')
     else m_bind (ensure_embedding_space (en_space g)
       (case rq_query_space rq of None \<Rightarrow> en_space g | Some sp \<Rightarrow> sp)) (\<lambda>_.
       Some (quantize (env_q15_ok E) (rq_query_embedding rq) (en_dimension g))))"

definition recall_corpus ::
  "('s, 'c, 'e) hyphae \<Rightarrow> ('s, 'q, 'e) query_op \<Rightarrow> 'e search_ops \<Rightarrow> rust_env \<Rightarrow> 's engine \<Rightarrow> recall_request
   \<Rightarrow> ('e, corpus) outcome" where
  "recall_corpus H Q S E g rq =
     m_bind (authorized_records Q E g (scope_of_recall rq) (rq_filter rq)) (\<lambda>ms.
     m_bind (inactive_claim_events_for_query H S E g (scope_of_recall rq) (rq_query_text rq) (rq_recall_now_ms rq)) (\<lambda>retired.
       m_return (filter (not_retired retired \<circ> snd) ms)))"

definition branch_if ::
  "bool \<Rightarrow> 'e engine_error + ((bytes \<times> f64) list \<times> branch_abstention option)
   \<Rightarrow> ('e, (bytes \<times> f64) list \<times> branch_abstention option) outcome" where
  "branch_if enabled r = (if enabled then Some r else m_return ([], Some Disabled))"

definition answer_recall ::
  "rust_env \<Rightarrow> recall_config \<Rightarrow> recall_request \<Rightarrow> pad \<Rightarrow> corpus \<Rightarrow> branch_abstention option
   \<Rightarrow> branch_abstention option \<Rightarrow> graph_branch \<Rightarrow> branch_abstention option \<Rightarrow> candidates \<Rightarrow> bool
   \<Rightarrow> ('e, recall_response) outcome" where
  "answer_recall E cf rq current ms sem_abstention lex_abstention gb temp_abstention cs union_truncated =
     (case score_all cf rq current ms cs of
        None \<Rightarrow> None
      | Some scored \<Rightarrow>
          m_bind (Some (finish_recall (lower_case (env_patterns E)) (rc_score_threshold cf) (rc_max_results cf)
              (rq_limit rq) (rq_relevance rq) (rq_reranker rq) scored)) (\<lambda>(results, status, overall).
            m_return \<lparr>rp_results = results, rp_lexical_abstention = lex_abstention,
              rp_semantic_abstention = sem_abstention, rp_graph_abstention = gb_abstention gb,
              rp_temporal_abstention = temp_abstention, rp_overall_abstention = overall,
              rp_candidate_count = length cs, rp_reranker_status = status,
              rp_graph_truncated = gb_truncated gb, rp_graph_inspected = gb_inspected gb,
              rp_graph_reason = gb_reason gb, rp_union_truncated = union_truncated\<rparr>))"

definition recall ::
  "('s, 'c, 'e) hyphae \<Rightarrow> ('s, 'q, 'e) query_op \<Rightarrow> 'e search_ops \<Rightarrow> rust_env \<Rightarrow> recall_config \<Rightarrow> 's engine
   \<Rightarrow> recall_request \<Rightarrow> ('e, recall_response) outcome" where
  "recall H Q S E cf g rq =
     (let sc = scope_of_recall rq; bo = rq_branches rq; n = candidate_limit cf (rq_limit rq);
          current = (case rq_current_state rq of None \<Rightarrow> current_affect g (rq_recall_now_ms rq) | Some p \<Rightarrow> p)
      in m_bind (validate_recall E g rq) (\<lambda>v.
      m_bind (recall_corpus H Q S E g rq) (\<lambda>ms.
      m_bind (branch_if (bo_semantic bo) (filtered_semantic_candidates S ms v n)) (\<lambda>(sem, sem_abstention).
      m_bind (branch_if (bo_lexical bo) (filtered_lexical_candidates S ms (rq_query_text rq) n)) (\<lambda>(lex, lex_abstention).
      m_bind (add_graph_candidates H E g rq sc ms (fold set_lexical lex (fold set_semantic sem []))) (\<lambda>(gb, cs1).
      m_bind (add_temporal_candidates H S E g rq sc ms cs1) (\<lambda>(temp_abstention, cs2).
      case truncate_candidate_union cs2 (min (bo_max_union_candidates bo) 10000) of (cs, union_truncated) \<Rightarrow>
        answer_recall E cf rq current ms sem_abstention lex_abstention gb temp_abstention cs union_truncated)))))))"

section \<open>Operations over a recall\<close>

record graph_recall_request =
  gq_recall :: recall_request
  gq_max_depth :: nat
  gq_max_edges :: nat
  gq_max_entities :: nat
  gq_max_memories :: nat

record graph_scored_memory =
  gs_memory :: recalled_memory
  gs_channels :: channel_scores
  gs_score :: f64
  gs_graph_score :: f64
  gs_disclosed :: "bytes option"
  gs_disclosure :: disclosure_class
  gs_path :: "string list"

record graph_recall_response =
  gr_results :: "graph_scored_memory list"
  gr_truncated :: bool
  gr_reason :: "graph_truncation option"
  gr_inspected :: nat

definition graph_branch_options :: "graph_recall_request \<Rightarrow> branch_options \<Rightarrow> branch_options" where
  "graph_branch_options q bo = bo\<lparr>bo_graph := True, bo_graph_max_depth := gq_max_depth q,
     bo_graph_max_edges := gq_max_edges q, bo_graph_max_entities := gq_max_entities q,
     bo_graph_max_memories := gq_max_memories q\<rparr>"

definition graph_scored :: "rust_env \<Rightarrow> scored_memory \<Rightarrow> graph_scored_memory" where
  "graph_scored E s =
     \<lparr>gs_memory = sm_memory s, gs_channels = sm_channels s, gs_score = sm_score s,
      gs_graph_score = (case find (\<lambda>r. rr_branch r = Graph_Branch) (sm_reasons s) of
        None \<Rightarrow> Fin 0 | Some r \<Rightarrow> rr_score r),
      gs_disclosed = sm_disclosed s, gs_disclosure = sm_disclosure s,
      gs_path = (case sm_citations s of [] \<Rightarrow> [] | c # _ \<Rightarrow> filter (env_uuid_ok E) (cit_graph_path c))\<rparr>"

definition recall_with_graph ::
  "('s, 'c, 'e) hyphae \<Rightarrow> ('s, 'q, 'e) query_op \<Rightarrow> 'e search_ops \<Rightarrow> rust_env \<Rightarrow> recall_config \<Rightarrow> 's engine
   \<Rightarrow> graph_recall_request \<Rightarrow> ('e, graph_recall_response) outcome" where
  "recall_with_graph H Q S E cf g q =
     (let rq = gq_recall q
      in m_bind (recall H Q S E cf g (rq\<lparr>rq_branches := graph_branch_options q (rq_branches rq)\<rparr>)) (\<lambda>rp.
        m_return \<lparr>gr_results = map (graph_scored E) (rp_results rp), gr_truncated = rp_graph_truncated rp,
          gr_reason = rp_graph_reason rp, gr_inspected = rp_graph_inspected rp\<rparr>))"

record compact_result =
  ct_id :: string
  ct_score :: f64
  ct_branches :: "search_branch list"
  ct_reasons :: "recall_reason list"
  ct_citations :: "citation list"
  ct_content :: "bytes option"

definition compact_row :: "scored_memory \<Rightarrow> compact_result" where
  "compact_row s = \<lparr>ct_id = sm_id s, ct_score = sm_score s, ct_branches = sm_branches s,
     ct_reasons = sm_reasons s, ct_citations = sm_citations s, ct_content = None\<rparr>"

definition search_compact ::
  "('s, 'c, 'e) hyphae \<Rightarrow> ('s, 'q, 'e) query_op \<Rightarrow> 'e search_ops \<Rightarrow> rust_env \<Rightarrow> recall_config \<Rightarrow> 's engine
   \<Rightarrow> recall_request \<Rightarrow> nat
   \<Rightarrow> ('e, compact_result list \<times> recall_abstention option \<times> reranker_status) outcome" where
  "search_compact H Q S E cf g rq limit =
     m_bind (recall H Q S E cf g (rq\<lparr>rq_limit := max limit 1\<rparr>)) (\<lambda>rp.
       m_return (map compact_row (rp_results rp), rp_overall_abstention rp, rp_reranker_status rp))"

definition recall_context ::
  "('s, 'c, 'e) hyphae \<Rightarrow> ('s, 'q, 'e) query_op \<Rightarrow> 'e search_ops \<Rightarrow> rust_env \<Rightarrow> recall_config \<Rightarrow> 's engine
   \<Rightarrow> recall_request \<Rightarrow> nat \<Rightarrow> ('e, context_composition) outcome" where
  "recall_context H Q S E cf g rq budget =
     (if budget = 0 then m_return (compose_context 0 [] None)
      else m_bind (recall H Q S E cf g rq) (\<lambda>rp.
        m_return (compose_context budget (rp_results rp) (rp_overall_abstention rp))))"

end
