(* ===== verification/Graph_Claims.thy ===== *)
theory Graph_Claims
  imports Graph_Engine Graph_Path Claim_Creation
begin

text \<open>
  What the graph operations guarantee: merges and splits never close a cycle, resolving an entity
  follows them to the entities that are left, a walk keeps its budgets and is exact when it reports
  none, and the path to a visited entity ends. Resolving fails on an uneven split.
\<close>

section \<open>Scans after a write\<close>

lemma graph_scan_Inr:
  assumes "faithful_store H valid rows rest" and "valid (en_store g)" and "graph_scan H g p dec = Some (Inr xs)"
  shows "set xs = {x. \<exists>d\<in>set (rows (en_store g)). prefix p (doc_key d) \<and> dec d = Inr x}"
    and "\<forall>d\<in>set (rows (en_store g)). prefix p (doc_key d) \<longrightarrow> (\<exists>x. dec d = Inr x)"
proof -
  obtain recs where recs: "scan_prefix H (en_store g) p = Some (Inr recs)" "r_collect dec recs = Inr xs"
    using assms(3) unfolding graph_scan_def by (auto simp: m_bind_Inr)
  have "recs = filter (has_prefix p) (rows (en_store g))" by (rule scan_prefix_Inr [OF assms(1,2) recs(1)])
  with r_collect_set [OF recs(2)]
  show "set xs = {x. \<exists>d\<in>set (rows (en_store g)). prefix p (doc_key d) \<and> dec d = Inr x}"
    "\<forall>d\<in>set (rows (en_store g)). prefix p (doc_key d) \<longrightarrow> (\<exists>x. dec d = Inr x)"
    by (auto simp: has_prefix_def)
qed

lemma graph_scan_after_put:
  fixes H :: "('s, 'c, 'e) hyphae" and dec :: "doc \<Rightarrow> 'x decoded"
  assumes st: "faithful_store H valid rows rest" "valid (en_store g)"
    and before: "graph_scan H g p dec = Some (Inr xs)" and put: "hy_put H (en_store g) d = Inr s"
    and dec: "dec d = Inr x"
  shows "ok_or_hyphae (graph_scan H (g\<lparr>en_store := s\<rparr>) p dec) (\<lambda>ys. set ys \<subseteq> insert x (set xs))"
proof -
  note s = faithful_storeD(3) [OF st put] and old = graph_scan_Inr [OF st before]
  have sub: "set (rows s) \<subseteq> insert d (set (rows (en_store g)))"
    unfolding conjunct2 [OF s] by (auto simp: set_upsert faithful_storeD(1) [OF st])
  have "\<exists>ys. r_collect dec (filter (has_prefix p) (rows s)) = Inr ys"
    by (rule r_collect_total) (use sub old(2) dec in \<open>auto simp: has_prefix_def\<close>)
  then obtain ys where ys: "r_collect dec (filter (has_prefix p) (rows s)) = Inr ys" by blast
  have "set ys \<subseteq> insert x (set xs)"
  proof
    fix y assume "y \<in> set ys"
    with r_collect_set [OF ys] obtain e where "e \<in> set (rows s)" "prefix p (doc_key e)" "dec e = Inr y"
      by (auto simp: has_prefix_def)
    with sub old(1) dec show "y \<in> insert x (set xs)" by auto
  qed
  with ys have "ok_or_hyphae (from_graph (r_collect dec (filter (has_prefix p) (rows s))) :: ('e, 'x list) outcome)
      (\<lambda>ys. set ys \<subseteq> insert x (set xs))" by (simp add: from_graph_def)
  then show ?thesis
    unfolding graph_scan_def
    using s by (intro ok_or_hyphae_bind [OF scan_ok [OF st(1)]]) simp_all
qed

section \<open>Merges and splits\<close>

lemma distinct_dedup: "sorted xs \<Longrightarrow> distinct (remdups_adj xs)"
  by (induction xs rule: remdups_adj.induct) (auto simp: less_le)

lemma rtrancl_to_source: "(x, s) \<in> (E \<union> {s} \<times> T)\<^sup>* \<Longrightarrow> (x, s) \<in> E\<^sup>*"
  by (induction rule: converse_rtrancl_induct) (auto intro: converse_rtrancl_into_rtrancl)

lemma acyclic_fan:
  "acyclic E \<Longrightarrow> \<forall>t\<in>set ts. (t, s) \<notin> E\<^sup>* \<Longrightarrow> acyclic (E \<union> {s} \<times> set ts)"
proof (induction ts)
  case (Cons t ts)
  have "E \<union> {s} \<times> set (t # ts) = insert (s, t) (E \<union> {s} \<times> set ts)" by auto
  moreover have "(t, s) \<notin> (E \<union> {s} \<times> set ts)\<^sup>*" using Cons.prems(2) rtrancl_to_source by fastforce
  ultimately show ?case using Cons by (simp add: acyclic_insert)
qed simp

definition entities_keyed :: "rust_env \<Rightarrow> doc list \<Rightarrow> bool" where
  "entities_keyed E ds \<longleftrightarrow> list_all (\<lambda>d. case canonical_from_record (env_uuid_ok E) d of
     Inl _ \<Rightarrow> True | Inr e \<Rightarrow> doc_key d = canonical_entity_key (ne_id e)) ds"

lemma require_entity_id:
  assumes "faithful_store H valid rows rest" and "valid (en_store g)"
    and "entities_keyed E (rows (en_store g))" and "require_entity H E g sc i = Some (Inr e)"
  shows "ne_id e = i"
proof -
  obtain d where get: "hy_get H (en_store g) (canonical_entity_key i) = Inr (Some d)"
    and e: "canonical_from_record (env_uuid_ok E) d = Inr e"
    using assms(4) unfolding require_entity_def get_entity_def
    by (auto simp: m_bind_Inr split: option.splits if_splits)
  from faithful_storeD(2) [OF assms(1,2) get] have "d \<in> set (rows (en_store g))" "doc_key d = canonical_entity_key i"
    using lookup_doc_Some by metis+
  with assms(3) e show ?thesis by (auto simp: entities_keyed_def list_all_iff canonical_entity_key_def)
qed

lemma lineage_edges_set: "set (lineage_edges ls) = (\<Union>l\<in>set ls. {li_source l} \<times> set (li_targets l))"
  by (auto simp: lineage_edges_def)

lemma lineage_of_request_fields [simp]:
  "li_source (lineage_of_request b u req) = lq_source req"
  "li_targets (lineage_of_request b u req) = lq_targets req"
  "li_evidence (lineage_of_request b u req) = lq_evidence req"
  by (simp_all add: lineage_of_request_def)

text \<open>What the types of a request guarantee: its owner and identifiers were validated when they were made.\<close>

definition wf_lineage_request :: "rust_env \<Rightarrow> lineage_request \<Rightarrow> bool" where
  "wf_lineage_request E req \<longleftrightarrow> wf_scope (lq_scope req) \<and> env_uuid_ok E (lq_source req)
     \<and> list_all (env_uuid_ok E) (lq_targets req)
     \<and> list_all (env_uuid_ok E \<circ> gv_event_id) (lq_evidence req)"

text \<open>
  C10. Merges and splits never close a cycle: if the lineages a scope sees form an acyclic graph, they
  still do after any successful \<open>record_entity_lineage\<close> of that scope, a split into several entities
  at once included. The search the check runs always ends.
\<close>

theorem lineage_stays_acyclic:
  fixes H :: "('s, 'c, 'e) hyphae"
  assumes "faithful_store H valid rows rest" and "valid (en_store g)"
    and "entities_keyed E (rows (en_store g))" and "wf_lineage_request E req"
    and "visible_lineages H E g (lq_scope req) = Some (Inr ls)" and "acyclic (set (lineage_edges ls))"
    and "record_entity_lineage H E g req = Some (Inr (l, g'))"
  shows "ok_or_hyphae (visible_lineages H E g' (lq_scope req)) (\<lambda>ls'. acyclic (set (lineage_edges ls')))"
proof -
  let ?sc = "lq_scope req" and ?s = "lq_source req" and ?ts = "lq_targets req"
  let ?dec = "lineage_from_record (env_uuid_ok E)"
  obtain source us s where source: "require_entity H E g ?sc ?s = Some (Inr source)"
    and checked: "collect_m (check_lineage_target H E g ?sc source) ?ts = Some (Inr us)"
    and l: "l = lineage_of_request (env_b3_raw E) (env_uuid_text E) req"
    and put: "hy_put H (en_store g) (lineage_to_record ?sc l) = Inr s" and g': "g' = g\<lparr>en_store := s\<rparr>"
    using assms(7) unfolding record_entity_lineage_def put_doc_def Let_def
    by (auto simp: m_bind_Inr split: if_splits)
  obtain all where all: "graph_scan H g lineage_prefix ?dec = Some (Inr all)"
    and ls: "ls = map fst (filter (\<lambda>(l, owner). graph_scope_visible owner ?sc) all)"
    using assms(5) unfolding visible_lineages_def by (auto simp: m_bind_Inr)
  have "\<forall>t\<in>set ?ts. \<not> reaches (lineage_edges ls) t ?s"
  proof
    fix t assume "t \<in> set ?ts"
    from collect_m_each [OF checked this] require_entity_id [OF assms(1-3) source] assms(5)
    show "\<not> reaches (lineage_edges ls) t ?s"
      by (auto simp: check_lineage_target_def entity_reaches_def m_bind_Inr split: if_splits)
  qed
  then have fan: "acyclic (set (lineage_edges ls) \<union> {?s} \<times> set ?ts)"
    by (intro acyclic_fan [OF assms(6)]) (simp add: reaches_iff)
  have dec: "?dec (lineage_to_record ?sc l) = Inr (l, graph_owner ?sc)"
    by (rule lineage_roundtrip) (use assms(4) in \<open>simp_all add: wf_lineage_request_def l\<close>)
  have sub: "acyclic (set (lineage_edges (map fst (filter (\<lambda>(l, owner). graph_scope_visible owner ?sc) ys))))"
    if "set ys \<subseteq> insert (l, graph_owner ?sc) (set all)" for ys
  proof (rule acyclic_subset [OF fan])
    show "set (lineage_edges (map fst (filter (\<lambda>(l, owner). graph_scope_visible owner ?sc) ys)))
        \<subseteq> set (lineage_edges ls) \<union> {?s} \<times> set ?ts"
      using that unfolding lineage_edges_set ls by (auto simp: l)
  qed
  show ?thesis
    unfolding visible_lineages_def g'
    by (rule ok_or_hyphae_bind [OF graph_scan_after_put [OF assms(1,2) all put dec]]) (simp add: sub)
qed

section \<open>Resolving an entity\<close>

definition replaced_by :: "(string \<Rightarrow> entity_lineage option) \<Rightarrow> (string \<times> string) set" where
  "replaced_by f = {(i, j). \<exists>l. f i = Some l \<and> j \<in> set (li_targets l)}"

text \<open>The entities left of one: those reached through applicable merges and splits that have none.\<close>

definition remaining :: "(string \<Rightarrow> entity_lineage option) \<Rightarrow> string \<Rightarrow> string set" where
  "remaining f i = {j. (i, j) \<in> (replaced_by f)\<^sup>* \<and> f j = None}"

lemma remaining_leaf: "f i = None \<Longrightarrow> remaining f i = {i}"
  by (auto simp: remaining_def replaced_by_def elim: converse_rtranclE)

lemma remaining_replaced:
  assumes "f i = Some l"
  shows "remaining f i = (\<Union>j\<in>set (li_targets l). remaining f j)"
proof -
  have "(i, j) \<in> (replaced_by f)\<^sup>* \<longleftrightarrow> j = i \<or> (\<exists>k\<in>set (li_targets l). (k, j) \<in> (replaced_by f)\<^sup>*)" for j
  proof -
    have "(i, k) \<in> replaced_by f \<longleftrightarrow> k \<in> set (li_targets l)" for k using assms by (auto simp: replaced_by_def)
    then show ?thesis by (metis converse_rtranclE converse_rtrancl_into_rtrancl rtrancl.rtrancl_refl)
  qed
  with assms show ?thesis by (auto simp: remaining_def)
qed

lemma resolve_pass_next:
  "resolve_pass f is visited next changed = Some (visited', next', changed') \<Longrightarrow>
   (\<Union>i\<in>set next'. remaining f i) = (\<Union>i\<in>set next. remaining f i) \<union> (\<Union>i\<in>set is. remaining f i)
   \<and> (changed' \<longleftrightarrow> changed \<or> (\<exists>i\<in>set is. f i \<noteq> None))
   \<and> ((\<forall>i\<in>set is. f i = None) \<longrightarrow> next' = next @ is)
   \<and> set next \<union> {i \<in> set is. f i = None} \<subseteq> set next'"
proof (induction f "is" visited "next" changed rule: resolve_pass.induct)
  case (2 f i "is" visited "next" changed)
  show ?case
  proof (cases "f i")
    case None
    with 2(3) have i: "i \<notin> set visited" and run: "resolve_pass f is (i # visited) (next @ [i]) changed
        = Some (visited', next', changed')" by (auto split: if_splits)
    from 2(1) [OF i None run] None show ?thesis by (auto simp: remaining_leaf)
  next
    case (Some l)
    with 2(3) have i: "i \<notin> set visited" and run: "resolve_pass f is (i # visited) (next @ li_targets l) True
        = Some (visited', next', changed')" by (auto split: if_splits)
    from 2(2) [OF i Some run] Some remaining_replaced [where f = f, OF Some] show ?thesis by auto
  qed
qed simp

lemma resolve_pass_met:
  "i \<in> set is \<Longrightarrow> i \<in> set visited \<Longrightarrow> resolve_pass f is visited next changed = None"
  by (induction f "is" visited "next" changed rule: resolve_pass.induct) (auto split: option.splits)

lemma resolve_loop_remaining:
  "resolve_loop ls t known current visited = Some ids \<Longrightarrow>
   set ids = (\<Union>i\<in>set current. remaining (applicable ls t known) i) \<and> sorted ids \<and> distinct ids"
proof (induction ls t known current visited rule: resolve_loop.induct)
  case (1 ls t known current visited)
  let ?f = "applicable ls t known"
  obtain visited' "next" changed where
    pass: "resolve_pass ?f current visited [] False = Some (visited', next, changed)"
    using 1(2) by (subst (asm) resolve_loop.simps) (auto split: option.splits)
  note facts = resolve_pass_next [OF pass]
  have sorted: "sorted (remdups_adj (sort next))" "distinct (remdups_adj (sort next))"
    by (simp_all add: distinct_dedup)
  show ?case
  proof (cases changed)
    case True
    have "resolve_loop ls t known (remdups_adj (sort next)) visited' = Some ids"
      using 1(2) True by (subst (asm) resolve_loop.simps) (simp add: pass Let_def)
    from 1(1) [OF pass refl refl refl _ this] True facts show ?thesis by simp
  next
    case False
    then have ids: "ids = remdups_adj (sort next)"
      using 1(2) by (subst (asm) resolve_loop.simps) (simp add: pass Let_def)
    from False facts have leaves: "\<forall>i\<in>set current. ?f i = None" and "next = current" by auto
    then have "(\<Union>i\<in>set current. remaining ?f i) = set current" by (auto simp: remaining_leaf)
    with ids sorted \<open>next = current\<close> show ?thesis by simp
  qed
qed

lemma resolution_of_set:
  "sorted ids \<Longrightarrow> distinct ids \<Longrightarrow> remdups_adj (sort ids) = ids"
  by (simp add: sorted_sort_id remdups_adj_distinct)

text \<open>
  C26. Resolution is exact and total: it always ends, and an answer is made of exactly the entities left
  of the one asked for, following the merges and splits its scope sees that are effective and known at
  the times of the query, in order and without duplicates.
\<close>

theorem resolution_exact:
  assumes "resolve_entity_id H E g i sc t known = Some (Inr r)" and "r \<noteq> NoSuchEntity"
  shows "\<exists>ls ids. visible_lineages H E g sc = Some (Inr ls)
    \<and> set ids = remaining (applicable ls t known) i \<and> sorted ids \<and> distinct ids
    \<and> r = (case ids of [j] \<Rightarrow> ResolvedTo j | _ \<Rightarrow> AmbiguousAmong ids)"
proof -
  obtain ls ids where ls: "visible_lineages H E g sc = Some (Inr ls)"
    and ids: "resolve_loop ls t known [i] [] = Some ids" and r: "r = resolution ids"
    using assms unfolding resolve_entity_id_def by (auto simp: m_bind_Inr split: if_splits option.splits)
  from resolve_loop_remaining [OF ids]
  have "set ids = remaining (applicable ls t known) i" "sorted ids" "distinct ids" by simp_all
  moreover have "r = (case ids of [j] \<Rightarrow> ResolvedTo j | _ \<Rightarrow> AmbiguousAmong ids)"
    using r assms(2) resolution_of_set [OF calculation(2,3)] by (simp add: resolution_def split: list.splits)
  ultimately show ?thesis using ls by blast
qed

lemma uneven_pass_fails:
  assumes "i \<in> set current" and "applicable ls t known i = None"
    and "j \<in> set current" and "applicable ls t known j \<noteq> None"
  shows "resolve_loop ls t known current visited = None"
proof (cases "resolve_pass (applicable ls t known) current visited [] False")
  case None
  then show ?thesis by (subst resolve_loop.simps) simp
next
  case (Some p)
  obtain visited' "next" changed where p: "p = (visited', next, changed)" by (cases p)
  note facts = resolve_pass_next [OF Some [unfolded p]] resolve_pass_visited [OF Some [unfolded p]]
  have "changed" "i \<in> set (remdups_adj (sort next))" "i \<in> set visited'" using facts assms by auto
  then have "resolve_loop ls t known (remdups_adj (sort next)) visited' = None"
    by (subst resolve_loop.simps) (simp add: resolve_pass_met)
  with \<open>changed\<close> show ?thesis by (subst resolve_loop.simps) (simp add: Some p Let_def)
qed

text \<open>
  C27. An uneven split cannot be resolved. When an entity was split and one of its direct parts was merged
  or split further while another was not, resolving it reports a lineage cycle, whether or not the
  lineage has one; and this although the part that was not replaced is one of the entities left of it.
\<close>

theorem uneven_split_unresolvable:
  assumes "get_entity H E g i sc = Some (Inr (Some e))" and "visible_lineages H E g sc = Some (Inr ls)"
    and "applicable ls t known i = Some l" and "a \<in> set (li_targets l)" and "b \<in> set (li_targets l)"
    and "applicable ls t known a = None" and "applicable ls t known b \<noteq> None"
  shows "resolve_entity_id H E g i sc t known = Some (Inl GraphLineageCycle)
    \<and> a \<in> remaining (applicable ls t known) i"
proof -
  have "resolve_loop ls t known (remdups_adj (sort (li_targets l))) [i] = None"
    by (rule uneven_pass_fails [of a _ _ _ _ b]) (use assms in simp_all)
  then have "resolve_loop ls t known [i] [] = None"
    by (subst resolve_loop.simps) (simp add: assms(3) Let_def)
  moreover have "a \<in> remaining (applicable ls t known) i"
    using remaining_leaf [where f = "applicable ls t known", OF assms(6)] assms(4)
    unfolding remaining_replaced [where f = "applicable ls t known", OF assms(3)] by blast
  ultimately show ?thesis by (simp add: resolve_entity_id_def assms(1,2) m_fail_def)
qed

section \<open>Walks\<close>

text \<open>
  C25. A walk of the graph is bounded and exact: it never returns more entities or edges than its budgets
  (at most 1000 of each) and no entity twice; every entity is reached from a seed over relations that
  are visible, valid, known and traversable, in at most the depth budget (at most 8 steps); and when it
  is not marked truncated, it returns all entities such relations reach. It always ends.
\<close>

theorem traversal_exact:
  assumes "traverse_graph H E g req = Some (Inr res)"
  shows "length (tr_entities res) \<le> min (tq_max_entities req) 1000
    \<and> length (tr_edges res) \<le> min (tq_max_edges req) 1000 \<and> distinct (tr_entities res)
    \<and> (set (tr_entities res) \<subseteq> set (tq_seeds req) \<and> tr_truncated res
       \<or> (\<exists>rs. entity_relations_at H E g (tq_scope req) (tq_valid_at_ms req) (tq_known_at_ms req) = Some (Inr rs)
           \<and> (\<forall>x\<in>set (tr_entities res). \<exists>s\<in>set (tq_seeds req). \<exists>k\<le>min (tq_max_depth req) 8.
                (s, x) \<in> links (traversable_relations req rs) ^^ k)
           \<and> (\<not> tr_truncated res \<longrightarrow>
                set (tr_entities res) = (links (traversable_relations req rs))\<^sup>* `` set (tq_seeds req))))"
proof -
  let ?L = "traversal_limits req" and ?seeds = "remdups_adj (sort (tq_seeds req))"
  have L: "wl_entities ?L = min (tq_max_entities req) 1000" "wl_edges ?L = min (tq_max_edges req) 1000"
    "wl_depth ?L = min (tq_max_depth req) 8"
    by (simp_all add: traversal_limits_def)
  have dist: "distinct ?seeds" by (simp add: distinct_dedup)
  consider (many) "wl_entities ?L < length ?seeds"
      "res = \<lparr>tr_entities = take (wl_entities ?L) ?seeds, tr_edges = [], tr_inspected = 0,
        tr_truncated = True, tr_reason = Some EntityBudget\<rparr>"
    | (walk) rs where "length ?seeds \<le> wl_entities ?L"
      "entity_relations_at H E g (tq_scope req) (tq_valid_at_ms req) (tq_known_at_ms req) = Some (Inr rs)"
      "tr_entities res = wk_entities (run_walk ?L (traversable_relations req rs) ?seeds)"
      "tr_edges res = wk_edges (run_walk ?L (traversable_relations req rs) ?seeds)"
      "tr_truncated res = (wk_reason (run_walk ?L (traversable_relations req rs) ?seeds) \<noteq> None)"
    using assms unfolding traverse_graph_def Let_def by (auto simp: m_bind_Inr split: if_splits)
  then show ?thesis
  proof cases
    case many
    have "set (take (wl_entities ?L) ?seeds) \<subseteq> set (tq_seeds req)"
      using set_take_subset [of "wl_entities ?L" ?seeds] by simp
    with many dist show ?thesis by (simp add: L)
  next
    case walk
    let ?rs = "traversable_relations req rs"
    have ok: "walk_ok ?L ?rs ?seeds (run_walk ?L ?rs ?seeds)"
      unfolding run_walk_def by (rule walk_ok_loop [OF walk_start_ok(1) [OF dist walk(1)]])
    have "\<forall>x\<in>set (tr_entities res). \<exists>s\<in>set (tq_seeds req). \<exists>k\<le>min (tq_max_depth req) 8. (s, x) \<in> links ?rs ^^ k"
      using ok unfolding walk_ok_def near_def L walk(3) by fastforce
    moreover have "\<not> tr_truncated res \<longrightarrow> set (tr_entities res) = (links ?rs)\<^sup>* `` set (tq_seeds req)"
      using run_walk_complete [OF dist walk(1), of ?rs] walk(3,5) by simp
    ultimately show ?thesis
      using ok walk(2-4) unfolding walk_ok_def L by auto
  qed
qed

text \<open>
  C29. The path to a visited entity ends, although its loop has no bound: for every entity a walk visits,
  \<open>graph_path\<close> returns a path that starts at a seed, ends at the entity and follows relations of the
  walk, each in a direction it may be traversed.
\<close>

theorem graph_path_ends:
  assumes "distinct seeds" and "length seeds \<le> wl_entities L" and "inj_on el_id (set rs)"
    and "x \<in> set (wk_entities (run_walk L rs seeds))"
  shows "\<exists>q. graph_path seeds x (wk_edges (run_walk L rs seeds)) = Some q \<and> q \<noteq> []
    \<and> hd q \<in> set seeds \<and> last q = x \<and> is_path rs q"
  by (rule walk_path_ends [OF assms])

end
