(* ===== verification/Recall_Claims.thy ===== *)
theory Recall_Claims
  imports Recall_Pipeline Ranking_Claims Graph_Claims
begin

text \<open>
  What a whole recall promises: it answers only from the memories the request is authorized for, and it
  never panics.
\<close>

section \<open>The authorized corpus\<close>

definition corpus_of :: "rust_env \<Rightarrow> recall_scope \<Rightarrow> doc list \<Rightarrow> corpus \<Rightarrow> bool" where
  "corpus_of E sc ds ms \<longleftrightarrow>
     (\<forall>(k, m)\<in>set ms. k = mem_id m \<and> recallable sc m \<and> (\<exists>d\<in>set ds. holds_memory E d m))"

lemma entry_insert_elem: "(k', v') \<in> set (entry_insert k v xs) \<Longrightarrow> (k', v') = (k, v) \<or> (k', v') \<in> set xs"
  by (induction xs) (auto simp: entry_insert_def split: if_splits)

lemma collect_recallable_Inr:
  "collect_recallable E sc d ms = Inr ms'
   \<longleftrightarrow> (\<exists>m. holds_memory E d m \<and> ms' = (if recallable sc m then entry_insert (mem_id m) m ms else ms))"
  by (auto simp: collect_recallable_def r_bind_Inr decode_memory_Inr)

lemma collect_recallable_corpus:
  "fold_r (collect_recallable E sc) ds ms = (Inr ms' :: 'e engine_error + corpus) \<Longrightarrow> corpus_of E sc all ms \<Longrightarrow> set ds \<subseteq> set all
   \<Longrightarrow> corpus_of E sc all ms'"
proof (induction ds arbitrary: ms)
  case (Cons d ds)
  from Cons.prems(1) obtain m ms1 where m: "holds_memory E d m"
    and ms1: "ms1 = (if recallable sc m then entry_insert (mem_id m) m ms else ms)"
    and run: "fold_r (collect_recallable E sc) ds ms1 = (Inr ms' :: 'e engine_error + corpus)"
    by (auto simp: r_bind_Inr collect_recallable_Inr)
  have "corpus_of E sc all ms1"
  proof (cases "recallable sc m")
    case True
    have "d \<in> set all" using Cons.prems(3) by simp
    with m True have "\<exists>d\<in>set all. holds_memory E d m" by blast
    with Cons.prems(2) True show ?thesis
      unfolding corpus_of_def ms1 by (auto dest!: entry_insert_elem)
  next
    case False
    with Cons.prems(2) show ?thesis by (simp add: ms1)
  qed
  from Cons.IH [OF run this] Cons.prems(3) show ?case by simp
qed simp

lemma with_requested_Inr:
  assumes "query_semantics sat" and "with_requested a requested = Some (Inr f)" and "sat f d"
  shows "sat a d \<and> (\<forall>r. requested = Some r \<longrightarrow> (\<exists>q. compile_filter r = Some (Inr q) \<and> sat q d))"
  using assms by (auto simp: with_requested_def from_filter_def m_bind_Inr query_semanticsD(2)
      split: option.splits sum.splits)

definition asked_for ::
  "(query_filter \<Rightarrow> doc \<Rightarrow> bool) \<Rightarrow> recall_scope \<Rightarrow> memory_filter option \<Rightarrow> doc \<Rightarrow> bool" where
  "asked_for sat sc requested d \<longleftrightarrow> sat (owner_filter sc) d
     \<and> (\<forall>r. requested = Some r \<longrightarrow> (\<exists>q. compile_filter r = Some (Inr q) \<and> sat q d))"

lemma authorized_records_corpus:
  fixes Q :: "('s, 'q, 'e) query_op"
  assumes "faithful_query Q sat valid rows from" and "valid (en_store g)"
    and "authorized_records Q E g sc requested = Some (Inr ms)"
  shows "corpus_of E sc (filter (asked_for sat sc requested) (rows (en_store g))) ms"
proof -
  obtain f where f: "with_requested (owner_filter sc) requested = (Some (Inr f) :: ('e, query_filter) outcome)"
    and run: "query_each Q (en_store g) f (collect_recallable E sc) [] = Some (Inr ms)"
    using assms(3) by (auto simp: authorized_records_def m_bind_Inr)
  have "set (filter (sat f) (rows (en_store g))) \<subseteq> set (filter (asked_for sat sc requested) (rows (en_store g)))"
    using with_requested_Inr [OF faithful_queryD(1) [OF assms(1)] f] by (auto simp: asked_for_def)
  then show ?thesis
    by (intro collect_recallable_corpus [OF query_each_Inr [OF assms(1,2) run]]) (simp_all add: corpus_of_def)
qed

section \<open>Only authorized memories\<close>

lemma those_elem: "those xs = Some ys \<Longrightarrow> y \<in> set ys \<Longrightarrow> Some y \<in> set xs"
  by (induction xs arbitrary: ys) (auto split: option.splits)

lemma score_all_elem:
  assumes "score_all cf rq current ms cs = Some scored" and "s \<in> set scored"
  shows "\<exists>k m c. map_of ms k = Some m \<and> s = score_candidate (rc_weights cf) current (rq_recall_now_ms rq)
    (rq_authority rq) (rq_disclosure_purpose rq) m c"
  using those_elem [OF assms(1) [unfolded score_all_def] assms(2)] by (auto dest!: sym [of "Some s"])

lemma recall_run:
  fixes H :: "('s, 'c, 'e) hyphae"
  assumes "recall H Q S E cf g rq = Some (Inr rp)"
  obtains ms current cs scored where "recall_corpus H Q S E g rq = Some (Inr ms)"
    and "score_all cf rq current ms cs = Some scored"
    and "finish_recall (lower_case (env_patterns E)) (rc_score_threshold cf) (rc_max_results cf)
      (rq_limit rq) (rq_relevance rq) (rq_reranker rq) scored
      = (Inr (rp_results rp, rp_reranker_status rp, rp_overall_abstention rp) :: 'e engine_error + _)"
proof -
  obtain ms current sa la gb ta cs tr where ms: "recall_corpus H Q S E g rq = Some (Inr ms)"
    and answer: "answer_recall E cf rq current ms sa la gb ta cs tr = (Some (Inr rp) :: ('e, recall_response) outcome)"
    using assms unfolding recall_def Let_def by (auto simp: m_bind_Inr case_prod_beta)
  from answer obtain scored where "score_all cf rq current ms cs = Some scored"
    and "finish_recall (lower_case (env_patterns E)) (rc_score_threshold cf) (rc_max_results cf)
      (rq_limit rq) (rq_relevance rq) (rq_reranker rq) scored
      = (Inr (rp_results rp, rp_reranker_status rp, rp_overall_abstention rp) :: 'e engine_error + _)"
    unfolding answer_recall_def by (auto simp: m_bind_Inr split: option.splits)
  with ms that show ?thesis by blast
qed

section \<open>Events of retired claims\<close>

text \<open>
  When the events behind a claim count as retired for a query, read off the documents of the store. A
  claim is outdated at an instant when it was recorded later, is not valid then, or a link in force
  retires it; an event is retired when an outdated claim the query is about rests on it and no claim the
  query is about that is not outdated does.
\<close>

definition outdated_claim :: "rust_env \<Rightarrow> doc list \<Rightarrow> recall_scope \<Rightarrow> i64 \<Rightarrow> claim \<Rightarrow> bool" where
  "outdated_claim E ds sc now c \<longleftrightarrow>
     sint now < sint (cl_recorded_at_ms c)
     \<or> (\<exists>a. cl_valid_from_ms c = Some a \<and> sint now < sint a)
     \<or> (\<exists>b. cl_valid_to_ms c = Some b \<and> sint b \<le> sint now)
     \<or> (\<exists>l. seen_link E ds sc l \<and> ln_original l = cl_id c \<and> retires_original (ln_relation l)
          \<and> sint (ln_effective_at_ms l) \<le> sint now \<and> sint (ln_recorded_at_ms l) \<le> sint now)"

definition asked_claim ::
  "'e search_ops \<Rightarrow> rust_env \<Rightarrow> doc list \<Rightarrow> recall_scope \<Rightarrow> bytes \<Rightarrow> claim \<Rightarrow> bool" where
  "asked_claim S E ds sc query c \<longleftrightarrow> seen_claim E ds sc c
     \<and> (\<exists>w. w \<in> normalized_query_tokens S E query \<and> w \<in> property_tokens S E c)"

definition rests_on :: "rust_env \<Rightarrow> doc list \<Rightarrow> recall_scope \<Rightarrow> claim \<Rightarrow> string \<Rightarrow> bool" where
  "rests_on E ds sc c i \<longleftrightarrow> (\<exists>ev. seen_evidence E ds sc (cl_id c) ev \<and> ev_event_id ev = i)"

definition retired_event ::
  "'e search_ops \<Rightarrow> rust_env \<Rightarrow> doc list \<Rightarrow> recall_scope \<Rightarrow> bytes \<Rightarrow> i64 \<Rightarrow> string \<Rightarrow> bool" where
  "retired_event S E ds sc query now i \<longleftrightarrow>
     (\<exists>c. asked_claim S E ds sc query c \<and> outdated_claim E ds sc now c \<and> rests_on E ds sc c i)
     \<and> \<not> (\<exists>c. asked_claim S E ds sc query c \<and> \<not> outdated_claim E ds sc now c \<and> rests_on E ds sc c i)"

lemma current_not_outdated:
  assumes "set joins = {l. seen_link E ds sc l}"
  shows "current_claim now joins c \<longleftrightarrow> \<not> outdated_claim E ds sc now c"
proof -
  have "retired_at now joins c \<longleftrightarrow> (\<exists>l. seen_link E ds sc l \<and> ln_original l = cl_id c
      \<and> retires_original (ln_relation l) \<and> sint (ln_effective_at_ms l) \<le> sint now
      \<and> sint (ln_recorded_at_ms l) \<le> sint now)"
    using assms by (auto simp: retired_at_def list_ex_iff)
  then show ?thesis
    unfolding current_claim_def outdated_claim_def valid_at_def
    by (auto simp: not_less not_le split: option.splits)
qed

lemma collect_m_zip:
  "collect_m f xs = Some (Inr ys) \<Longrightarrow> set (zip xs ys) = {(x, y). x \<in> set xs \<and> f x = Some (Inr y)}"
  by (induction xs arbitrary: ys) (auto simp: m_bind_Inr)

lemma collect_m_events:
  assumes "collect_m f xs = Some (Inr ys)"
  shows "i \<in> \<Union> (set (map snd (filter (P \<circ> fst) (zip xs ys))))
    \<longleftrightarrow> (\<exists>x\<in>set xs. P x \<and> (\<exists>es. f x = Some (Inr es) \<and> i \<in> es))"
  unfolding set_map set_filter collect_m_zip [OF assms] by auto

lemma retired_events_exact:
  fixes H :: "('s, 'c, 'e) hyphae"
  assumes "faithful_store H valid rows rest" and "valid (en_store g)"
    and "inactive_claim_events_for_query H S E g sc query now = Some (Inr retired)"
  shows "i \<in> retired \<longleftrightarrow> retired_event S E (rows (en_store g)) sc query now i"
proof -
  let ?ds = "rows (en_store g)"
  let ?asked = "\<lambda>cs. filter (\<lambda>c. normalized_query_tokens S E query \<inter> property_tokens S E c \<noteq> {}) cs"
  let ?of = "\<lambda>cs es P. \<Union> (set (map snd (filter (P \<circ> fst) (zip (?asked cs) es))))"
  from assms(3) obtain cs joins events where cs: "visible_claims H E g sc = Some (Inr cs)"
    and joins: "claim_supersessions H E g sc = Some (Inr joins)"
    and events: "collect_m (claim_event_ids H E g sc) (?asked cs) = Some (Inr events)"
    and retired: "retired = ?of cs events (\<lambda>c. \<not> current_claim now joins c) - ?of cs events (current_claim now joins)"
    unfolding inactive_claim_events_for_query_def m_bind_Inr Let_def m_return_Inr by blast
  have ids: "claim_event_ids H E g sc c = Some (Inr es) \<Longrightarrow> i \<in> es \<longleftrightarrow> rests_on E ?ds sc c i" for c es
    using active_evidence_seen [OF assms(1,2)] by (auto simp: claim_event_ids_def m_bind_Inr rests_on_def)
  have each: "c \<in> set (?asked cs) \<Longrightarrow> \<exists>es. claim_event_ids H E g sc c = Some (Inr es)" for c
    using collect_m_each [OF events] .
  have asked: "c \<in> set (?asked cs) \<longleftrightarrow> asked_claim S E ?ds sc query c" for c
    using visible_claims_seen [OF assms(1,2) cs] by (auto simp: asked_claim_def)
  have "i \<in> ?of cs events P \<longleftrightarrow> (\<exists>c. asked_claim S E ?ds sc query c \<and> P c \<and> rests_on E ?ds sc c i)" for P
    unfolding collect_m_events [OF events] using asked ids each by metis
  then show ?thesis
    unfolding retired retired_event_def Diff_iff
    by (simp only: current_not_outdated [OF supersessions_seen [OF assms(1,2) joins]] not_not)
qed

text \<open>
  C7. A recall answers only from what its request may see: every result is the policy view of a stored
  memory of the owner that the filter of the request admits, that the scope sees, that is neither archived
  nor quarantined, and whose event is not retired for the query: no claim about the words of the query
  that is outdated at the time of the request rests on it, unless one that is not outdated does too. And
  the policy does not abstain from it.
\<close>

theorem recall_only_authorized:
  fixes H :: "('s, 'c, 'e) hyphae"
  assumes "faithful_store H valid rows rest" and "faithful_query Q sat valid rows from" and "valid (en_store g)"
    and "recall H Q S E cf g rq = Some (Inr rp)"
  shows "\<forall>r\<in>set (rp_results rp). \<exists>d\<in>set (rows (en_store g)). \<exists>m.
        holds_memory E d m \<and> asked_for sat (scope_of_recall rq) (rq_filter rq) d
        \<and> recallable (scope_of_recall rq) m
        \<and> (\<forall>i. event_id (provenance m) = Some i \<longrightarrow>
             \<not> retired_event S E (rows (en_store g)) (scope_of_recall rq) (rq_query_text rq) (rq_recall_now_ms rq) i)
        \<and> sm_id r = mem_id m
        \<and> (sm_disclosure r, sm_disclosed r) = disclose_memory m (rq_authority rq) (rq_disclosure_purpose rq)
        \<and> sm_disclosure r \<noteq> Disclose_Abstain"
proof
  let ?sc = "scope_of_recall rq"
  fix r assume r: "r \<in> set (rp_results rp)"
  from assms(4) obtain ms current cs scored where corpus: "recall_corpus H Q S E g rq = Some (Inr ms)"
    and scored: "score_all cf rq current ms cs = Some scored"
    and fin: "finish_recall (lower_case (env_patterns E)) (rc_score_threshold cf) (rc_max_results cf)
      (rq_limit rq) (rq_relevance rq) (rq_reranker rq) scored
      = (Inr (rp_results rp, rp_reranker_status rp, rp_overall_abstention rp) :: 'e engine_error + _)"
    by (rule recall_run)
  obtain all retired where all: "authorized_records Q E g ?sc (rq_filter rq) = Some (Inr all)"
    and retired: "inactive_claim_events_for_query H S E g ?sc (rq_query_text rq) (rq_recall_now_ms rq)
      = Some (Inr retired)"
    and ms: "ms = filter (not_retired retired \<circ> snd) all"
    using corpus by (auto simp: recall_corpus_def m_bind_Inr)
  note known = authorized_records_corpus [OF assms(2,3) all]
  from finish_recall_each [OF fin r] obtain s where s: "s \<in> set scored" "sm_memory r = sm_memory s"
    "sm_disclosed r = sm_disclosed s" "sm_disclosure r = sm_disclosure s" "sm_disclosure r \<noteq> Disclose_Abstain"
    by blast
  from score_all_elem [OF scored s(1)] obtain k m c where m: "map_of ms k = Some m"
    and sc: "s = score_candidate (rc_weights cf) current (rq_recall_now_ms rq) (rq_authority rq)
      (rq_disclosure_purpose rq) m c" by blast
  from map_of_SomeD [OF m] ms have "(k, m) \<in> set all" "not_retired retired m" by auto
  with known obtain d where "d \<in> set (rows (en_store g))" "asked_for sat ?sc (rq_filter rq) d"
    "holds_memory E d m" "recallable ?sc m" by (auto simp: corpus_of_def)
  moreover have "\<not> retired_event S E (rows (en_store g)) ?sc (rq_query_text rq) (rq_recall_now_ms rq) i"
    if "event_id (provenance m) = Some i" for i
    using \<open>not_retired retired m\<close> that retired_events_exact [OF assms(1,3) retired, of i]
    by (simp add: not_retired_def)
  ultimately show "\<exists>d\<in>set (rows (en_store g)). \<exists>m.
        holds_memory E d m \<and> asked_for sat ?sc (rq_filter rq) d \<and> recallable ?sc m
        \<and> (\<forall>i. event_id (provenance m) = Some i \<longrightarrow>
             \<not> retired_event S E (rows (en_store g)) ?sc (rq_query_text rq) (rq_recall_now_ms rq) i)
        \<and> sm_id r = mem_id m
        \<and> (sm_disclosure r, sm_disclosed r) = disclose_memory m (rq_authority rq) (rq_disclosure_purpose rq)
        \<and> sm_disclosure r \<noteq> Disclose_Abstain"
    using s sc
    by (intro bexI [of _ d] exI [of _ m])
      (simp_all add: score_candidate_def Let_def sm_id_def recalled_memory_of_def)
qed

section \<open>A recall always returns\<close>

text \<open>
  A recall never panics and always returns: every operation it is composed of does, the searches included,
  as long as they answer with documents they were given. \<open>returns\<close> says that a result, which may be an
  error, is there.
\<close>

definition returns :: "('e, 'a) outcome \<Rightarrow> bool" where
  "returns m \<longleftrightarrow> m \<noteq> None"

named_theorems returning

lemma returns_simps [simp]: "returns (Some x)" "returns (m_return y)" "returns (m_fail e)" "\<not> returns None"
  by (simp_all add: returns_def m_return_def m_fail_def)

lemma returns_bind [returning]:
  "returns m \<Longrightarrow> (\<And>x. m = Some (Inr x) \<Longrightarrow> returns (f x)) \<Longrightarrow> returns (m_bind m f)"
  by (auto simp: returns_def m_bind_def split: option.splits sum.splits)

lemma returns_ok: "ok_or_hyphae m P \<Longrightarrow> returns m"
  by (auto simp: ok_or_hyphae_def)

lemma returns_converted [simp]:
  "returns (from_store r)" "returns (from_decode d)" "returns (from_graph d)" "returns (from_claim d)"
  "returns (from_derived d)" "returns (from_ingestion d)" "returns (require_tenant t u)"
  "returns (ensure_embedding_space a b)"
  by (simp_all add: from_store_def from_decode_def from_graph_def from_claim_def from_derived_def
      from_ingestion_def require_tenant_def ensure_embedding_space_def split: sum.split)

lemma returns_collect_m [returning]: "(\<And>x. x \<in> set xs \<Longrightarrow> returns (f x)) \<Longrightarrow> returns (collect_m f xs)"
  by (induction xs) (auto intro!: returns_bind)

lemma returns_filter_m [returning]: "(\<And>x. x \<in> set xs \<Longrightarrow> returns (f x)) \<Longrightarrow> returns (filter_m f xs)"
  by (induction xs) (auto intro!: returns_bind)

lemma returns_option [returning]:
  "returns a \<Longrightarrow> (\<And>x. v = Some x \<Longrightarrow> returns (b x)) \<Longrightarrow> returns (case v of None \<Rightarrow> a | Some x \<Rightarrow> b x)"
  by (cases v) auto

lemma returns_if [returning]:
  "(c \<Longrightarrow> returns a) \<Longrightarrow> (\<not> c \<Longrightarrow> returns b) \<Longrightarrow> returns (if c then a else b)"
  by simp

section \<open>Reading the store\<close>

text \<open>A state of a store that keeps its laws.\<close>

definition good_store ::
  "('s, 'c, 'e) hyphae \<Rightarrow> ('s \<Rightarrow> bool) \<Rightarrow> ('s \<Rightarrow> doc list) \<Rightarrow> ('s \<Rightarrow> 'c option \<Rightarrow> doc list) \<Rightarrow> 's \<Rightarrow> bool" where
  "good_store H valid rows rest s \<longleftrightarrow> faithful_store H valid rows rest \<and> valid s"

lemma returns_scan [returning]: "good_store H valid rows rest s \<Longrightarrow> returns (from_scan (scan_prefix H s p))"
  using scan_ok [of H valid rows rest s p] by (auto simp: good_store_def intro: returns_ok)

lemma returns_graph_scan [returning]:
  "good_store H valid rows rest (en_store g) \<Longrightarrow> returns (graph_scan H g p dec)"
  unfolding graph_scan_def by (intro returning) simp_all

lemma returns_get_claim [returning]: "returns (get_claim H E g i sc)"
  unfolding get_claim_def by (intro returning) simp_all

lemma returns_is_forgotten [returning]: "returns (is_forgotten H E s i sc)"
  unfolding is_forgotten_def by (intro returning) simp_all

lemma returns_claim_evidence_of [returning]:
  "good_store H valid rows rest (en_store g) \<Longrightarrow> returns (claim_evidence_of H E g i sc)"
  unfolding claim_evidence_of_def by (intro returning) simp_all

lemma returns_active_claim_evidence [returning]:
  "good_store H valid rows rest (en_store g) \<Longrightarrow> returns (active_claim_evidence H E g i sc)"
  unfolding active_claim_evidence_def by (intro returning) simp_all

lemma returns_visible_claims [returning]:
  "good_store H valid rows rest (en_store g) \<Longrightarrow> returns (visible_claims H E g sc)"
  unfolding visible_claims_def by (intro returning) simp_all

lemma returns_claim_supersessions [returning]:
  "good_store H valid rows rest (en_store g) \<Longrightarrow> returns (claim_supersessions H E g sc)"
  unfolding claim_supersessions_def by (intro returning) simp_all

lemma returns_entity [returning]: "returns (require_entity H E g sc i)"
  unfolding require_entity_def get_entity_def by (intro returning) simp_all

lemma returns_bindings [returning]:
  "good_store H valid rows rest (en_store g) \<Longrightarrow> returns (memory_bindings H E g i sc)"
  "good_store H valid rows rest (en_store g) \<Longrightarrow> returns (bound_entity_ids H E g j sc)"
  unfolding memory_bindings_def bound_entity_ids_def visible_bindings_def by (intro returning; simp)+

lemma returns_seeds [returning]:
  "good_store H valid rows rest (en_store g) \<Longrightarrow> returns (graph_query_seeds H E g sc q now)"
  unfolding graph_query_seeds_def by (intro returning) simp_all

lemma returns_traverse [returning]:
  "good_store H valid rows rest (en_store g) \<Longrightarrow> returns (traverse_graph H E g req)"
  unfolding traverse_graph_def entity_relations_at_def Let_def by (intro returning) simp_all


section \<open>Candidates stay in the corpus\<close>

definition sound_search :: "'e search_ops \<Rightarrow> bool" where
  "sound_search S \<longleftrightarrow>
     (\<forall>docs v n hits. so_exact S docs v n = Inr (ExactMatches hits) \<longrightarrow> fst ` set hits \<subseteq> fst ` set docs)
     \<and> (\<forall>ds q n hits. so_lexical S ds q n = Inr (Some hits) \<longrightarrow> fst ` set hits \<subseteq> doc_key ` set ds)"

definition keyed :: "corpus \<Rightarrow> bool" where
  "keyed ms \<longleftrightarrow> (\<forall>(k, m)\<in>set ms. k = mem_id m)"

definition within_corpus :: "corpus \<Rightarrow> candidates \<Rightarrow> bool" where
  "within_corpus ms cs \<longleftrightarrow> fst ` set cs \<subseteq> fst ` set ms"

lemma within_update [simp]:
  "within_corpus ms (entry_update k f d cs) \<longleftrightarrow> has_key k ms \<and> within_corpus ms cs"
  using entry_update_keys [of k f d cs] by (auto simp: within_corpus_def has_key_def)

lemma keyed_has_key: "keyed ms \<Longrightarrow> m \<in> snd ` set ms \<Longrightarrow> has_key (mem_id m) ms"
  by (force simp: keyed_def has_key_def image_iff)

lemma within_fold_semantic:
  "within_corpus ms cs \<Longrightarrow> \<forall>h\<in>set hits. has_key (fst h) ms \<Longrightarrow> within_corpus ms (fold set_semantic hits cs)"
  by (induction hits arbitrary: cs) (auto simp: set_semantic_def)

lemma within_fold_lexical:
  "within_corpus ms cs \<Longrightarrow> \<forall>h\<in>set hits. has_key (fst h) ms \<Longrightarrow> within_corpus ms (fold set_lexical hits cs)"
  by (induction hits arbitrary: cs) (auto simp: set_lexical_def)

lemma semantic_keys:
  assumes "sound_search S" and "filtered_semantic_candidates S ms v n = Inr (hits, a)"
  shows "\<forall>h\<in>set hits. has_key (fst h) ms"
proof -
  consider "hits = []" | found where "so_exact S (semantic_documents ms) v n = Inr (ExactMatches found)"
      "fst ` set hits = fst ` set found"
    using assms(2) by (auto simp: filtered_semantic_candidates_def image_image case_prod_beta
        split: sum.splits exact_outcome.splits)
  then show ?thesis
  proof cases
    case 2
    then have "fst ` set hits \<subseteq> fst ` set (semantic_documents ms)"
      using assms(1) unfolding sound_search_def by metis
    also have "\<dots> \<subseteq> fst ` set ms" by (force simp: semantic_documents_def split: option.splits)
    finally show ?thesis by (auto simp: has_key_def)
  qed simp
qed

lemma scored_keys: "fst ` set (map (\<lambda>(k, n). (k, f n)) hits) = fst ` set hits"
  by force

lemma lexical_found:
  assumes "filtered_lexical_candidates S ms q n = Inr (hits, a)"
  obtains "hits = []" | found where "so_lexical S (map (memory_to_record \<circ> snd) ms) q n = Inr (Some found)"
    and "fst ` set hits = fst ` set found"
proof (cases "trim q = []")
  case True
  with assms that(1) show ?thesis by (simp add: filtered_lexical_candidates_def)
next
  case False
  show ?thesis
  proof (cases "so_lexical S (map (memory_to_record \<circ> snd) ms) q n")
    case (Inl e)
    with assms False show ?thesis by (simp add: filtered_lexical_candidates_def)
  next
    case (Inr found)
    show ?thesis
    proof (cases found)
      case None
      with assms False Inr that(1) show ?thesis by (simp add: filtered_lexical_candidates_def)
    next
      case (Some hs)
      let ?best = "case hs of [] \<Rightarrow> Fin 1 | (k, n) # _ \<Rightarrow> f64_max (nanos_float n) (Fin 1)"
      have "hits = map (\<lambda>(k, n). (k, f64_max (nanos_float n / ?best) (Fin 0))) hs"
        using assms False Inr Some by (simp add: filtered_lexical_candidates_def Let_def)
      then have "fst ` set hits = fst ` set hs" by (simp only: scored_keys)
      with Inr Some that(2) show ?thesis by simp
    qed
  qed
qed

lemma lexical_keys:
  assumes "sound_search S" and "keyed ms" and "filtered_lexical_candidates S ms q n = Inr (hits, a)"
  shows "\<forall>h\<in>set hits. has_key (fst h) ms"
  using assms(3)
proof (cases rule: lexical_found)
  case (2 found)
  then have "fst ` set hits \<subseteq> doc_key ` set (map (memory_to_record \<circ> snd) ms)"
    using assms(1) unfolding sound_search_def by metis
  also have "\<dots> \<subseteq> fst ` set ms" using assms(2) by (force simp: keyed_def memory_to_record_def memory_key_def)
  finally show ?thesis by (auto simp: has_key_def)
qed simp

lemma add_bound_within:
  "add_bound ms most s p bs added cs = (added', cs') \<Longrightarrow> within_corpus ms cs \<Longrightarrow> within_corpus ms cs'"
  by (induction ms most s p bs added cs rule: add_bound.induct) (auto simp: Let_def split: if_splits)

lemma add_entity_memories_within:
  "add_entity_memories H E g sc ms most seeds edges is added cs = Some (Inr (added', cs'))
   \<Longrightarrow> within_corpus ms cs \<Longrightarrow> within_corpus ms cs'"
proof (induction "is" arbitrary: added cs)
  case (Cons i "is")
  then obtain p bs where p: "graph_path seeds i edges = Some p" and bs: "memory_bindings H E g i sc = Some (Inr bs)"
    by (auto simp: m_bind_Inr split: option.splits)
  obtain a c where b: "add_bound ms most (Fin (1 / real (max (length p - 1) 1))) p bs added cs = (a, c)"
    by (rule prod.exhaust)
  have c: "within_corpus ms c" by (rule add_bound_within [OF b Cons.prems(2)])
  have "(if most \<le> card a then m_return (a, c) else add_entity_memories H E g sc ms most seeds edges is a c)
      = Some (Inr (added', cs'))"
    using Cons.prems(1) b by (simp add: p bs)
  with c Cons.IH show ?case by (auto simp: m_return_def split: if_splits)
qed (simp add: m_return_def)

lemma add_supported_within:
  "add_supported most s i xs added cs = (added', cs') \<Longrightarrow> within_corpus ms cs
   \<Longrightarrow> \<forall>m\<in>set xs. has_key (mem_id m) ms \<Longrightarrow> within_corpus ms cs'"
  by (induction most s i xs added cs rule: add_supported.induct) (auto simp: Let_def split: if_splits)

lemma add_evidences_within:
  "add_evidences ms most s i es added cs = (added', cs') \<Longrightarrow> keyed ms \<Longrightarrow> within_corpus ms cs
   \<Longrightarrow> within_corpus ms cs'"
proof (induction ms most s i es added cs rule: add_evidences.induct)
  case (2 ms most s i e es added cs)
  obtain a c where a: "add_supported most s i (memories_of_event ms (ev_event_id e)) added cs = (a, c)"
    by (rule prod.exhaust)
  have "\<forall>m\<in>set (memories_of_event ms (ev_event_id e)). has_key (mem_id m) ms"
    using keyed_has_key [OF 2(3)] by (auto simp: memories_of_event_def)
  with add_supported_within [OF a 2(4)] have c: "within_corpus ms c" .
  show ?case
  proof (cases "most \<le> card a")
    case True
    with 2(2) a c show ?thesis by simp
  next
    case False
    from 2(1) [OF a [symmetric] False] 2(2,3) a c False show ?thesis by simp
  qed
qed simp

lemma add_claims_within:
  "add_claims H S E g sc ms most query claims added cs = Some (Inr (added', cs')) \<Longrightarrow> keyed ms
   \<Longrightarrow> within_corpus ms cs \<Longrightarrow> within_corpus ms cs'"
proof (induction claims arbitrary: added cs)
  case (Cons c claims)
  let ?n = "card (query \<inter> property_tokens S E c)"
  show ?case
  proof (cases "?n = 0")
    case True
    with Cons show ?thesis by (simp add: Let_def)
  next
    case False
    let ?s = "Fin (real ?n / real (max (card query) 1))"
    from False Cons.prems(1) obtain es where es: "active_claim_evidence H E g (cl_id c) sc = Some (Inr es)"
      by (auto simp: Let_def m_bind_Inr)
    obtain a d where
      e: "add_evidences ms most ?s (cl_id c) (filter (\<lambda>e. ev_relation e = Supports) es) added cs = (a, d)"
      by (rule prod.exhaust)
    have run: "(if most \<le> card a then m_return (a, d) else add_claims H S E g sc ms most query claims a d)
        = Some (Inr (added', cs'))"
      using Cons.prems(1) False e by (simp add: es Let_def)
    have "within_corpus ms d" by (rule add_evidences_within [OF e Cons.prems(2,3)])
    with run Cons.IH Cons.prems(2) show ?thesis by (auto simp: m_return_def split: if_splits)
  qed
qed (simp add: m_return_def)

lemma truncate_within:
  "truncate_candidate_union cs n = (cs', b) \<Longrightarrow> within_corpus ms cs \<Longrightarrow> within_corpus ms cs'"
  unfolding truncate_candidate_union_def Let_def within_corpus_def by (force split: if_splits)

lemma score_all_total: "within_corpus ms cs \<Longrightarrow> score_all cf rq current ms cs \<noteq> None"
proof (induction cs)
  case (Cons x cs)
  obtain k c where x: "x = (k, c)" by fastforce
  with Cons.prems have "k \<in> fst ` set ms" by (auto simp: within_corpus_def)
  then obtain m where "map_of ms k = Some m" by (cases "map_of ms k") (auto simp: map_of_eq_None_iff)
  with Cons x show ?case by (auto simp: score_all_def within_corpus_def)
qed (simp add: score_all_def)

section \<open>Paths\<close>

text \<open>A relation is stored under its own id.\<close>

definition relations_keyed :: "rust_env \<Rightarrow> doc list \<Rightarrow> bool" where
  "relations_keyed E ds \<longleftrightarrow> list_all (\<lambda>d. case relation_from_record (env_uuid_ok E) d of
     Inl _ \<Rightarrow> True | Inr r \<Rightarrow> doc_key d = relation_key (el_id r)) ds"

lemma relations_distinct:
  assumes "good_store H valid rows rest (en_store g)" and keyed: "relations_keyed E (rows (en_store g))"
    and "entity_relations_at H E g sc t known = Some (Inr rs)"
  shows "inj_on el_id (set rs)"
proof (rule inj_onI)
  fix r1 r2 assume r: "r1 \<in> set rs" "r2 \<in> set rs" "el_id r1 = el_id r2"
  have st: "faithful_store H valid rows rest" "valid (en_store g)" using assms(1) by (simp_all add: good_store_def)
  let ?dec = "relation_from_record (env_uuid_ok E)"
  obtain all where all: "graph_scan H g relation_prefix ?dec = Some (Inr all)" and "set rs \<subseteq> set all"
    using assms(3) by (auto simp: entity_relations_at_def m_bind_Inr)
  with r graph_scan_Inr(1) [OF st all] obtain d1 d2 where d: "d1 \<in> set (rows (en_store g))" "?dec d1 = Inr r1"
    "d2 \<in> set (rows (en_store g))" "?dec d2 = Inr r2" by blast
  with keyed have "doc_key d1 = relation_key (el_id r1)" "doc_key d2 = relation_key (el_id r2)"
    by (force simp: relations_keyed_def list_all_iff)+
  with d r(3) key_sorted_unique [OF faithful_storeD(1) [OF st]] have "d1 = d2" by metis
  with d show "r1 = r2" by simp
qed

lemma traversal_paths:
  assumes "good_store H valid rows rest (en_store g)" and "relations_keyed E (rows (en_store g))"
    and "tq_seeds req = seeds" and "remdups_adj (sort seeds) = seeds"
    and "traverse_graph H E g req = Some (Inr t)" and "i \<in> set (tr_entities t)"
  shows "\<exists>p. graph_path seeds i (tr_edges t) = Some p"
proof -
  let ?L = "traversal_limits req"
  have d: "distinct seeds" using assms(4) distinct_dedup [of "sort seeds"] by simp
  consider (many) "set (tr_entities t) \<subseteq> set seeds"
    | (walk) rs where "length seeds \<le> wl_entities ?L"
      "entity_relations_at H E g (tq_scope req) (tq_valid_at_ms req) (tq_known_at_ms req) = Some (Inr rs)"
      "tr_entities t = wk_entities (run_walk ?L (traversable_relations req rs) seeds)"
      "tr_edges t = wk_edges (run_walk ?L (traversable_relations req rs) seeds)"
    using assms(5) set_take_subset [of "wl_entities ?L" seeds]
    unfolding traverse_graph_def Let_def assms(3,4) by (auto simp: m_bind_Inr split: if_splits)
  then show ?thesis
  proof cases
    case many
    with assms(6) show ?thesis by (auto simp: graph_path_def)
  next
    case walk
    have "inj_on el_id (set (traversable_relations req rs))"
      by (rule inj_on_subset [OF relations_distinct [OF assms(1,2) walk(2)]])
        (auto simp: traversable_relations_def)
    from walk_path_ends [OF d walk(1) this] assms(6) walk(3,4) show ?thesis by auto
  qed
qed

lemma returns_add_entity_memories:
  assumes "good_store H valid rows rest (en_store g)"
  shows "\<forall>i\<in>set is. \<exists>p. graph_path seeds i edges = Some p
    \<Longrightarrow> returns (add_entity_memories H E g sc ms most seeds edges is added cs)"
proof (induction "is" arbitrary: added cs)
  case (Cons i "is")
  then obtain p where p: "graph_path seeds i edges = Some p" by auto
  show ?case
    using Cons by (auto simp: p split: prod.split intro!: returns_bind returns_bindings(1) [OF assms])
qed simp

lemma returns_add_claims:
  assumes "good_store H valid rows rest (en_store g)"
  shows "returns (add_claims H S E g sc ms most query claims added cs)"
proof (induction claims arbitrary: added cs)
  case (Cons c claims)
  then show ?case
    by (auto simp: Let_def split: prod.split intro!: returns_bind returns_active_claim_evidence [OF assms])
qed simp

section \<open>Every part of a recall returns\<close>

lemma returns_inactive:
  "good_store H valid rows rest (en_store g) \<Longrightarrow> returns (inactive_claim_events_for_query H S E g sc q now)"
  unfolding inactive_claim_events_for_query_def claim_event_ids_def Let_def by (intro returning) simp_all

lemma returns_query_each: "faithful_query Q sat valid rows from \<Longrightarrow> valid s \<Longrightarrow> returns (query_each Q s f step acc)"
  using query_each_spec [of Q sat valid rows "from" s f step acc] by (auto simp: returns_def)

lemma returns_with_requested: "returns (with_requested a requested)"
proof (cases requested)
  case (Some f)
  have "compile_filter f \<noteq> None" by (rule compile_filter_total)
  then show ?thesis by (auto simp: Some with_requested_def from_filter_def split: sum.split intro!: returns_bind)
qed (simp add: with_requested_def)

lemma returns_recall_corpus:
  assumes "good_store H valid rows rest (en_store g)" and "faithful_query Q sat valid rows from"
  shows "returns (recall_corpus H Q S E g rq)"
proof -
  have v: "valid (en_store g)" using assms(1) by (simp add: good_store_def)
  show ?thesis unfolding recall_corpus_def authorized_records_def
    by (intro returns_bind returns_with_requested returns_inactive [OF assms(1)] returns_query_each [OF assms(2) v])
      simp
qed

lemma recall_corpus_keyed:
  assumes "faithful_query Q sat valid rows from" and "valid (en_store g)"
    and "recall_corpus H Q S E g rq = Some (Inr ms)"
  shows "keyed ms"
proof -
  obtain all retired where all: "authorized_records Q E g (scope_of_recall rq) (rq_filter rq) = Some (Inr all)"
    and ms: "ms = filter (not_retired retired \<circ> snd) all"
    using assms(3) by (auto simp: recall_corpus_def m_bind_Inr)
  from authorized_records_corpus [OF assms(1,2) all] show ?thesis by (auto simp: corpus_of_def keyed_def ms)
qed

lemma returns_graph_candidates:
  assumes "good_store H valid rows rest (en_store g)" and "relations_keyed E (rows (en_store g))"
  shows "returns (add_graph_candidates H E g rq sc ms cs)"
  unfolding add_graph_candidates_def Let_def
proof (intro returning)
  fix named :: "string list" and bound :: "string list list" and t
  let ?seeds = "remdups_adj (sort (named @ concat bound))"
  let ?req = "walk_request (rq_branches rq) sc (rq_recall_now_ms rq) ?seeds"
  assume t: "traverse_graph H E g ?req = Some (Inr t)"
  have "sorted ?seeds" by simp
  then have "remdups_adj (sort ?seeds) = ?seeds"
    by (intro resolution_of_set distinct_dedup) simp_all
  from traversal_paths [OF assms _ this t]
  have "\<forall>i\<in>set (take (bo_graph_max_entities (rq_branches rq)) (tr_entities t)).
      \<exists>p. graph_path ?seeds i (tr_edges t) = Some p"
    by (auto simp: walk_request_def dest!: in_set_takeD)
  from returns_add_entity_memories [OF assms(1) this]
  show "returns (add_entity_memories H E g sc ms (min (bo_graph_max_memories (rq_branches rq)) 10000) ?seeds (tr_edges t)
      (take (bo_graph_max_entities (rq_branches rq)) (tr_entities t)) {} cs)" .
qed (use assms(1) in \<open>auto intro: returning\<close>)

lemma returns_temporal_candidates:
  "good_store H valid rows rest (en_store g) \<Longrightarrow> returns (add_temporal_candidates H S E g rq sc ms cs)"
  unfolding add_temporal_candidates_def Let_def
  by (intro returning returns_add_claims) (auto split: prod.split)

lemma graph_candidates_within:
  "add_graph_candidates H E g rq sc ms cs = Some (Inr (gb, cs')) \<Longrightarrow> within_corpus ms cs \<Longrightarrow> within_corpus ms cs'"
  unfolding add_graph_candidates_def Let_def
  by (auto simp: m_bind_Inr m_return_def split: if_splits prod.splits dest: add_entity_memories_within)

lemma temporal_candidates_within:
  "add_temporal_candidates H S E g rq sc ms cs = Some (Inr (a, cs')) \<Longrightarrow> keyed ms \<Longrightarrow> within_corpus ms cs
   \<Longrightarrow> within_corpus ms cs'"
  unfolding add_temporal_candidates_def Let_def
  by (auto simp: m_bind_Inr m_return_def split: if_splits prod.splits dest: add_claims_within)

lemma returns_answer:
  assumes "within_corpus ms cs2"
  shows "returns (case truncate_candidate_union cs2 n of (cs, truncated) \<Rightarrow>
    answer_recall E cf rq current ms sa la gb ta cs truncated)"
proof -
  obtain cs b where cs: "truncate_candidate_union cs2 n = (cs, b)" by fastforce
  obtain scored where "score_all cf rq current ms cs = Some scored"
    using score_all_total [OF truncate_within [OF cs assms]] by blast
  then show ?thesis by (auto simp: cs answer_recall_def intro!: returns_bind split: prod.split)
qed

text \<open>
  C8. A recall never panics and always returns, whatever the request: its loops end, every candidate is in
  the authorized corpus when it is scored, and the path back from every entity of the walk exists, provided
  the two searches answer with documents they were given and relations are stored under their ids.
\<close>

theorem recall_always_returns:
  assumes "faithful_store H valid rows rest" and "faithful_query Q sat valid rows from" and "sound_search S"
    and "valid (en_store g)" and "relations_keyed E (rows (en_store g))"
  shows "\<exists>r. recall H Q S E cf g rq = Some r"
proof -
  have good: "good_store H valid rows rest (en_store g)" using assms(1,4) by (simp add: good_store_def)
  have "returns (recall H Q S E cf g rq)"
    unfolding recall_def Let_def
  proof (intro returns_bind, goal_cases)
    case 1
    show ?case unfolding validate_recall_def by (intro returning) simp_all
  next
    case 2
    show ?case by (rule returns_recall_corpus [OF good assms(2)])
  next
    case (3 v ms)
    show ?case by (simp add: branch_if_def)
  next
    case (4 v ms sem)
    have ms: "keyed ms" by (rule recall_corpus_keyed [OF assms(2,4) 4(2)])
    obtain hits a where sem: "sem = (hits, a)" by fastforce
    have hits: "\<forall>h\<in>set hits. has_key (fst h) ms"
      using 4(3) semantic_keys [OF assms(3)] by (auto simp: branch_if_def m_return_def sem split: if_splits)
    have none: "within_corpus ms []" by (simp add: within_corpus_def)
    show ?case unfolding sem prod.case
    proof (intro returns_bind, goal_cases)
      case 1
      show ?case by (simp add: branch_if_def)
    next
      case (2 lex)
      obtain words b where lex: "lex = (words, b)" by fastforce
      have words: "\<forall>h\<in>set words. has_key (fst h) ms"
        using 2 lexical_keys [OF assms(3) ms] by (auto simp: branch_if_def m_return_def lex split: if_splits)
      have start: "within_corpus ms (fold set_lexical words (fold set_semantic hits []))"
        by (rule within_fold_lexical [OF within_fold_semantic [OF none hits] words])
      show ?case unfolding lex prod.case
      proof (intro returns_bind, goal_cases)
        case 1
        show ?case by (rule returns_graph_candidates [OF good assms(5)])
      next
        case (2 graph)
        obtain gb cs1 where graph: "graph = (gb, cs1)" by fastforce
        have cs1: "within_corpus ms cs1" by (rule graph_candidates_within [OF 2 [unfolded graph] start])
        show ?case unfolding graph prod.case
        proof (intro returns_bind, goal_cases)
          case 1
          show ?case by (rule returns_temporal_candidates [OF good])
        next
          case (2 temp)
          obtain ta cs2 where temp: "temp = (ta, cs2)" by fastforce
          note cs2 = temporal_candidates_within [OF 2 [unfolded temp] ms cs1]
          show ?case unfolding temp prod.case by (rule returns_answer [OF cs2])
        qed
      qed
    qed
  qed
  then show ?thesis by (simp add: returns_def)
qed

end
