(* ===== verification/Lifecycle.thy ===== *)
theory Lifecycle
  imports Memory_Listing
begin

text \<open>
  \<open>run_lifecycle\<close> of \<open>engine.rs\<close>: the decay of the importance of every memory that is not archived, and
  the archiving of those that fall below the threshold. All memories are read before one is written.
\<close>

section \<open>The run\<close>

definition min_importance :: f64 where
  "min_importance = Fin 0.01"

definition all_memories ::
  "('s, 'q, 'e) query_op \<Rightarrow> rust_env \<Rightarrow> 's engine \<Rightarrow> ('e, memory list) outcome" where
  "all_memories Q E g = query_each Q (en_store g) kind_filter
     (\<lambda>d ms. r_bind (decode_memory E d) (\<lambda>m. Inr (ms @ [m]))) []"

record lifecycle_report =
  lc_decayed :: u64
  lc_archived :: u64

definition decayed_importance :: "i64 \<Rightarrow> memory \<Rightarrow> f64" where
  "decayed_importance now m =
     f64_max (lifecycle_decay (importance m) (days_between (last_retrieved_at_ms m) now)) min_importance"

datatype lifecycle_change = Untouched | DecayedTo memory | ArchivedAs memory

definition lifecycle_change_of :: "i64 \<Rightarrow> memory \<Rightarrow> lifecycle_change" where
  "lifecycle_change_of now m =
     (if mem_state m = Archived then Untouched
      else let decayed = decayed_importance now m; m' = m\<lparr>importance := decayed\<rparr>
        in if decayed < archive_threshold then ArchivedAs (m'\<lparr>mem_state := Archived\<rparr>)
           else if Fin (1 / 10 ^ 9) < f64_abs (decayed - importance m) then DecayedTo m'
           else Untouched)"

fun written :: "lifecycle_change \<Rightarrow> memory option" where
  "written Untouched = None"
| "written (DecayedTo m) = Some m"
| "written (ArchivedAs m) = Some m"

fun count_change :: "lifecycle_change \<Rightarrow> lifecycle_report \<Rightarrow> lifecycle_report" where
  "count_change Untouched r = r"
| "count_change (DecayedTo m) r = r\<lparr>lc_decayed := lc_decayed r + 1\<rparr>"
| "count_change (ArchivedAs m) r = r\<lparr>lc_archived := lc_archived r + 1\<rparr>"

fun lifecycle_loop ::
  "('s, 'c, 'e) hyphae \<Rightarrow> i64 \<Rightarrow> memory list \<Rightarrow> lifecycle_report \<Rightarrow> 's engine
   \<Rightarrow> ('e, lifecycle_report \<times> 's engine) outcome" where
  "lifecycle_loop H now [] r g = m_return (r, g)"
| "lifecycle_loop H now (m # ms) r g =
     (let ch = lifecycle_change_of now m
      in case written ch of
        None \<Rightarrow> lifecycle_loop H now ms r g
      | Some m' \<Rightarrow> m_bind (from_store (hy_put H (en_store g) (memory_to_record m'))) (\<lambda>s.
          lifecycle_loop H now ms (count_change ch r) (g\<lparr>en_store := s\<rparr>)))"

definition run_lifecycle ::
  "('s, 'c, 'e) hyphae \<Rightarrow> ('s, 'q, 'e) query_op \<Rightarrow> rust_env \<Rightarrow> 's engine \<Rightarrow> i64
   \<Rightarrow> ('e, lifecycle_report \<times> 's engine) outcome" where
  "run_lifecycle H Q E g now =
     m_bind (all_memories Q E g) (\<lambda>ms.
       lifecycle_loop H now ms \<lparr>lc_decayed = 0, lc_archived = 0\<rparr> g)"

section \<open>What a run does to the rows\<close>

lemma written_id: "written (lifecycle_change_of now m) = Some m' \<Longrightarrow> mem_id m' = mem_id m"
  by (auto simp: lifecycle_change_of_def Let_def split: if_splits)

lemma upsert_present:
  "key_sorted ds \<Longrightarrow> e \<in> set ds \<Longrightarrow> doc_key e = doc_key d
   \<Longrightarrow> upsert d ds = map (\<lambda>x. if doc_key x = doc_key d then d else x) ds"
proof (induction ds)
  case (Cons x xs)
  then have later: "\<forall>y\<in>set xs. doc_key x < doc_key y" by (auto simp: key_sorted_def)
  show ?case
  proof (cases "doc_key x = doc_key d")
    case True
    with later have "map (\<lambda>y. if doc_key y = doc_key d then d else y) xs = xs" by (auto intro!: map_idI)
    with True show ?thesis by simp
  next
    case False
    with Cons.prems have "e \<in> set xs" by auto
    with Cons have "upsert d xs = map (\<lambda>y. if doc_key y = doc_key d then d else y) xs"
      by (auto simp: key_sorted_def)
    moreover have "doc_key x < doc_key d" using later Cons.prems False by auto
    ultimately show ?thesis by (auto simp: less_le_not_le)
  qed
qed simp

text \<open>The row that replaces \<open>d\<close> when it holds a memory.\<close>

definition aged :: "rust_env \<Rightarrow> i64 \<Rightarrow> doc \<Rightarrow> doc" where
  "aged E now d = (case memory_from_record (env_b3 E) (env_q15_ok E) d of
     Inl e \<Rightarrow> d
   | Inr m \<Rightarrow> (case written (lifecycle_change_of now m) of None \<Rightarrow> d | Some m' \<Rightarrow> memory_to_record m'))"

lemma record_key [simp]: "doc_key (memory_to_record m) = mem_id m"
  by (simp add: memory_to_record_def memory_key_def)

lemma aged_decoded:
  "holds_memory E d m
   \<Longrightarrow> aged E now d = (case written (lifecycle_change_of now m) of None \<Rightarrow> d | Some m' \<Rightarrow> memory_to_record m')"
  by (simp add: aged_def holds_memory_def)

lemma aged_key [simp]: "doc_key (aged E now d) = doc_key d"
proof (cases "memory_from_record (env_b3 E) (env_q15_ok E) d")
  case (Inr m)
  then have m: "holds_memory E d m" by (simp add: holds_memory_def)
  show ?thesis using holds_memory_id [OF m] written_id [of now m] by (simp add: aged_decoded [OF m] split: option.splits)
qed (simp add: aged_def)

definition put_aged :: "rust_env \<Rightarrow> i64 \<Rightarrow> doc list \<Rightarrow> doc \<Rightarrow> doc" where
  "put_aged E now ds x = (case lookup_doc ds (doc_key x) of None \<Rightarrow> x | Some d \<Rightarrow> aged E now d)"

lemma put_aged_key [simp]: "doc_key (put_aged E now ds x) = doc_key x"
  by (auto simp: put_aged_def split: option.splits dest: lookup_doc_Some)

lemma put_aged_Cons:
  "put_aged E now (d # ds) x = (if doc_key d = doc_key x then aged E now d else put_aged E now ds x)"
  by (simp add: put_aged_def lookup_doc_def)

lemma put_aged_other: "lookup_doc ds (doc_key x) = None \<Longrightarrow> put_aged E now ds x = x"
  by (simp add: put_aged_def)

lemma lifecycle_loop_rows:
  assumes st: "faithful_store H valid rows rest"
  shows "list_all2 (holds_memory E) ds ms \<Longrightarrow> distinct (map doc_key ds)
    \<Longrightarrow> valid (en_store g) \<Longrightarrow> set ds \<subseteq> set (rows (en_store g))
    \<Longrightarrow> lifecycle_loop H now ms r g = Some (Inr (r', g'))
    \<Longrightarrow> rows (en_store g') = map (put_aged E now ds) (rows (en_store g))
      \<and> r' = fold (count_change \<circ> lifecycle_change_of now) ms r \<and> g' = g\<lparr>en_store := en_store g'\<rparr>
      \<and> valid (en_store g')"
proof (induction ds ms arbitrary: r g rule: list_all2_induct)
  case Nil
  then show ?case by (simp add: put_aged_def lookup_doc_def)
next
  case (Cons d ds m ms)
  let ?ch = "lifecycle_change_of now m" and ?rows = "rows (en_store g)"
  have fresh: "lookup_doc ds (doc_key d) = None"
    using Cons.prems(1) by (simp add: lookup_doc_def find_None_iff) (metis image_eqI)
  have sorted: "key_sorted ?rows" by (rule faithful_storeD(1) [OF st Cons.prems(2)])
  have d: "d \<in> set ?rows" using Cons.prems(3) by simp
  show ?case
  proof (cases "written ?ch")
    case None
    then have "aged E now d = d" "count_change ?ch r = r" and run: "lifecycle_loop H now ms r g = Some (Inr (r', g'))"
      using Cons.hyps(1) Cons.prems(4) by (auto simp: aged_decoded elim: written.elims)
    moreover have "map (put_aged E now (d # ds)) ?rows = map (put_aged E now ds) ?rows"
    proof (rule map_cong [OF refl])
      fix x assume "x \<in> set ?rows"
      then show "put_aged E now (d # ds) x = put_aged E now ds x"
        using key_sorted_unique [OF sorted d] fresh calculation(1)
        by (auto simp: put_aged_Cons put_aged_other)
    qed
    ultimately show ?thesis using Cons.IH [OF _ Cons.prems(2) _ run] Cons.prems(1,3) by simp
  next
    case (Some m')
    then obtain s where put: "hy_put H (en_store g) (memory_to_record m') = Inr s"
      and run: "lifecycle_loop H now ms (count_change ?ch r) (g\<lparr>en_store := s\<rparr>) = Some (Inr (r', g'))"
      using Cons.prems(4) by (auto simp: Let_def m_bind_Inr)
    have new: "aged E now d = memory_to_record m'" using Some Cons.hyps(1) by (simp add: aged_decoded)
    have key: "doc_key (memory_to_record m') = doc_key d" using aged_key [of E now d] new by simp
    note s = faithful_storeD(3) [OF st Cons.prems(2) put]
    have rows: "rows s = map (\<lambda>x. if doc_key x = doc_key d then memory_to_record m' else x) ?rows"
      using conjunct2 [OF s] upsert_present [OF sorted d] key by simp
    have "set ds \<subseteq> set (rows s)"
    proof
      fix x assume x: "x \<in> set ds"
      then have "x \<in> set ?rows" "doc_key x \<noteq> doc_key d"
        using Cons.prems(1,3) by (auto simp: image_iff)
      then show "x \<in> set (rows s)" by (force simp: rows)
    qed
    then have "rows (en_store g') = map (put_aged E now ds) (rows s)
      \<and> r' = fold (count_change \<circ> lifecycle_change_of now) ms (count_change ?ch r)
      \<and> g' = g\<lparr>en_store := s\<rparr>\<lparr>en_store := en_store g'\<rparr> \<and> valid (en_store g')"
      using Cons.IH [OF _ _ _ run] Cons.prems(1) s by (simp add: comp_def)
    moreover have "put_aged E now ds x = x" if "doc_key x = doc_key d" for x
      using fresh that by (simp add: put_aged_def)
    then have "map (put_aged E now ds) (rows s) = map (put_aged E now (d # ds)) ?rows"
      using key by (auto simp: rows put_aged_Cons new put_aged_other [OF fresh])
    ultimately show ?thesis by (simp add: comp_def)
  qed
qed

section \<open>All memories of the store\<close>

lemma fold_r_collect:
  "fold_r (\<lambda>d ms. r_bind (f d) (\<lambda>m. Inr (ms @ [m]))) ds ms = Inr ms'
   \<Longrightarrow> \<exists>xs. ms' = ms @ xs \<and> list_all2 (\<lambda>d m. f d = Inr m) ds xs"
proof (induction ds arbitrary: ms)
  case (Cons d ds)
  then obtain m where m: "f d = Inr m"
    and "fold_r (\<lambda>d ms. r_bind (f d) (\<lambda>m. Inr (ms @ [m]))) ds (ms @ [m]) = Inr ms'"
    by (auto simp: r_bind_Inr)
  from Cons.IH [OF this(2)] m show ?case by auto
qed simp

lemma all_memories_Inr:
  assumes "faithful_query Q sat valid rows rest" and "valid (en_store g)" and "all_memories Q E g = Some (Inr ms)"
  shows "list_all2 (holds_memory E) (filter (sat kind_filter) (rows (en_store g))) ms"
  using fold_r_collect [OF query_each_Inr [OF assms(1,2) assms(3) [unfolded all_memories_def]]]
  by (simp add: decode_memory_Inr)

section \<open>The property\<close>

fun archives :: "lifecycle_change \<Rightarrow> bool" where
  "archives (ArchivedAs m) = True"
| "archives _ = False"

fun decays :: "lifecycle_change \<Rightarrow> bool" where
  "decays (DecayedTo m) = True"
| "decays _ = False"

lemma count_changes:
  "fold (count_change \<circ> f) ms r =
     \<lparr>lc_decayed = lc_decayed r + word_of_nat (length (filter (decays \<circ> f) ms)),
      lc_archived = lc_archived r + word_of_nat (length (filter (archives \<circ> f) ms))\<rparr>"
proof (induction ms arbitrary: r)
  case (Cons m ms)
  then show ?case by (cases "f m") (simp_all add: add.assoc)
qed simp

lemma lifecycle_loop_returns: "lifecycle_loop H now ms r g \<noteq> None"
proof (induction ms arbitrary: r g)
  case (Cons m ms)
  then show ?case
    by (cases "written (lifecycle_change_of now m)")
      (auto simp: Let_def m_bind_def from_store_def m_fail_def m_return_def split: sum.splits option.splits)
qed (simp add: m_return_def)

lemma lifecycle_returns:
  assumes "faithful_query Q sat valid rows from" and "valid (en_store g)"
  shows "run_lifecycle H Q E g now \<noteq> None"
proof -
  have "all_memories Q E g \<noteq> None"
    using query_each_spec [OF assms] unfolding all_memories_def by (metis option.distinct(1))
  then show ?thesis
    using lifecycle_loop_returns by (auto simp: run_lifecycle_def m_bind_def split: option.splits sum.splits)
qed

lemma lifecycle_run:
  assumes "faithful_store H valid rows rest" and "faithful_query Q sat valid rows from" and "valid (en_store g)"
    and "run_lifecycle H Q E g now = Some (Inr (r, g'))"
  obtains ms where "list_all2 (holds_memory E) (filter (sat kind_filter) (rows (en_store g))) ms"
    and "rows (en_store g') = map (put_aged E now (filter (sat kind_filter) (rows (en_store g)))) (rows (en_store g))"
    and "r = fold (count_change \<circ> lifecycle_change_of now) ms \<lparr>lc_decayed = 0, lc_archived = 0\<rparr>"
    and "g' = g\<lparr>en_store := en_store g'\<rparr>"
proof -
  let ?rows = "rows (en_store g)" and ?r0 = "\<lparr>lc_decayed = 0, lc_archived = 0\<rparr>"
  obtain ms where ms: "all_memories Q E g = Some (Inr ms)"
    and run: "lifecycle_loop H now ms ?r0 g = Some (Inr (r, g'))"
    using assms(4) by (auto simp: run_lifecycle_def m_bind_Inr)
  note decoded = all_memories_Inr [OF assms(2,3) ms]
  have "distinct (map doc_key (filter (sat kind_filter) ?rows))"
    by (rule distinct_map_filter [OF key_sorted_distinct [OF faithful_storeD(1) [OF assms(1,3)]]])
  from lifecycle_loop_rows [OF assms(1) decoded this assms(3) _ run] decoded that show ?thesis by simp
qed

lemma put_aged_filter:
  assumes "key_sorted ds" and "x \<in> set ds"
  shows "put_aged E now (filter P ds) x = (if P x then aged E now x else x)"
proof (cases "lookup_doc (filter P ds) (doc_key x)")
  case None
  with assms(2) have "\<not> P x" by (auto simp: lookup_doc_def find_None_iff)
  with None show ?thesis by (simp add: put_aged_def)
next
  case (Some d)
  from lookup_doc_Some [OF this] key_sorted_unique [OF assms(1) _ assms(2)] have "d = x" "P x" by auto
  with Some show ?thesis by (simp add: put_aged_def)
qed

lemma lifecycle_rows:
  assumes "faithful_store H valid rows rest" and "faithful_query Q sat valid rows from" and "valid (en_store g)"
    and "run_lifecycle H Q E g now = Some (Inr (r, g'))"
  shows "rows (en_store g') = map (\<lambda>d. if sat kind_filter d then aged E now d else d) (rows (en_store g))"
    and "g' = g\<lparr>en_store := en_store g'\<rparr>"
proof -
  note sorted = faithful_storeD(1) [OF assms(1,3)]
  from lifecycle_run [OF assms] obtain ms where
    rows: "rows (en_store g') = map (put_aged E now (filter (sat kind_filter) (rows (en_store g)))) (rows (en_store g))"
    and g': "g' = g\<lparr>en_store := en_store g'\<rparr>" by metis
  show "rows (en_store g') = map (\<lambda>d. if sat kind_filter d then aged E now d else d) (rows (en_store g))"
    unfolding rows by (rule map_cong [OF refl put_aged_filter [OF sorted]])
  show "g' = g\<lparr>en_store := en_store g'\<rparr>" by (rule g')
qed

lemma lifecycle_counts:
  assumes "faithful_store H valid rows rest" and "faithful_query Q sat valid rows from" and "valid (en_store g)"
    and "run_lifecycle H Q E g now = Some (Inr (r, g'))"
  shows "\<exists>ms. list_all2 (holds_memory E) (filter (sat kind_filter) (rows (en_store g))) ms
    \<and> lc_decayed r = word_of_nat (length (filter (decays \<circ> lifecycle_change_of now) ms))
    \<and> lc_archived r = word_of_nat (length (filter (archives \<circ> lifecycle_change_of now) ms))"
  using lifecycle_run [OF assms] count_changes [of "lifecycle_change_of now"]
  by (metis (mono_tags, lifting) add_0 lifecycle_report.select_convs)


end
