(* ===== verification/Deletion.thy ===== *)
theory Deletion
  imports Graph_Engine Entity_Claims Store_Agree
begin

text \<open>
  \<open>delete_memory\<close> of \<open>engine.rs\<close>: the entries of the entity index, the bindings to canonical entities the
  scope of the request sees, the vector and the document, in this order. And \<open>remember_batch\<close>.
\<close>

section \<open>The operation\<close>

record delete_outcome =
  do_id :: string
  do_deleted :: bool

definition binds_memory :: "string \<Rightarrow> recall_scope \<Rightarrow> memory_binding \<Rightarrow> bool" where
  "binds_memory i sc b \<longleftrightarrow> mb_memory_id b = i \<and> graph_scope_visible (mb_scope b) sc"

fun delete_bindings ::
  "('s, 'e) store_ops \<Rightarrow> rust_env \<Rightarrow> string \<Rightarrow> recall_scope \<Rightarrow> doc list \<Rightarrow> 's \<Rightarrow> ('e, 's) outcome" where
  "delete_bindings O' E i sc [] s = m_return s"
| "delete_bindings O' E i sc (d # ds) s =
     m_bind (from_graph (binding_from_record (env_uuid_ok E) d)) (\<lambda>b.
     if binds_memory i sc b then m_bind (from_store (op_delete O' s (doc_key d))) (delete_bindings O' E i sc ds)
     else delete_bindings O' E i sc ds s)"

definition delete_graph_memory_bindings ::
  "('s, 'c, 'e) hyphae \<Rightarrow> ('s, 'e) store_ops \<Rightarrow> rust_env \<Rightarrow> string \<Rightarrow> recall_scope \<Rightarrow> 's \<Rightarrow> ('e, 's) outcome" where
  "delete_graph_memory_bindings H O' E i sc s =
     m_bind (from_scan (scan_prefix H s binding_prefix)) (\<lambda>recs. delete_bindings O' E i sc recs s)"

definition delete_memory ::
  "('s, 'c, 'e) hyphae \<Rightarrow> ('s, 'e) store_ops \<Rightarrow> rust_env \<Rightarrow> 's engine \<Rightarrow> string \<Rightarrow> recall_scope
   \<Rightarrow> ('e, delete_outcome \<times> 's engine) outcome" where
  "delete_memory H O' E g i sc =
     m_bind (get_memory H (env_b3 E) (env_q15_ok E) (en_tenant g) (en_store g) i sc) (\<lambda>found. case found of
       None \<Rightarrow> m_return (\<lparr>do_id = i, do_deleted = False\<rparr>, g)
     | Some m \<Rightarrow>
         m_bind (unindex_entities H O' (env_b3 E) (env_q15_ok E) (lower_case (env_patterns E)) (mem_id m)
           (entities m) (en_store g)) (\<lambda>s1.
         m_bind (delete_graph_memory_bindings H O' E (mem_id m) sc s1) (\<lambda>s2.
         m_bind (from_store (op_delete_vectors O' s2 [mem_id m])) (\<lambda>s3.
         m_bind (from_store (op_delete O' s3 (mem_id m))) (\<lambda>s4.
           m_return (\<lparr>do_id = i, do_deleted = True\<rparr>, g\<lparr>en_store := s4\<rparr>))))))"

section \<open>What it leaves\<close>

lemma same_docs_refl [simp]: "same_docs P ds ds"
  by (simp add: same_docs_def)

lemma same_docs_trans: "same_docs P ds ds' \<Longrightarrow> same_docs P ds' ds'' \<Longrightarrow> same_docs P ds ds''"
  by (simp add: same_docs_def)

lemma same_docs_delete: "\<not> P k \<Longrightarrow> same_docs P ds (filter (\<lambda>d. doc_key d \<noteq> k) ds)"
  unfolding same_docs_def by (induction ds) auto

lemma same_docs_weaken:
  assumes "same_docs P ds ds'" and "\<And>k. R k \<Longrightarrow> P k"
  shows "same_docs R ds ds'"
proof -
  have "filter (R \<circ> doc_key) es = filter (R \<circ> doc_key) (filter (P \<circ> doc_key) es)" for es
    using assms(2) by (auto intro: filter_cong)
  with assms(1) show ?thesis unfolding same_docs_def comp_def by metis
qed

lemma get_memory_id:
  assumes "faithful_store H valid rows rest" and "valid s"
    and "get_memory H b3 q15_ok tenant s i sc = Some (Inr (Some m))"
  shows "mem_id m = i"
proof -
  obtain d where get: "hy_get H s i = Inr (Some d)" and m: "memory_from_record b3 q15_ok d = Inr m"
    using assms(3) by (auto simp: get_memory_def m_bind_Inr split: option.splits if_splits)
  from faithful_storeD(2) [OF assms(1,2) get] have "doc_key d = i" using lookup_doc_Some by metis
  with m show ?thesis by (auto simp: memory_from_record_def r_bind_Inr split: if_splits)
qed

lemma delete_bindings_rows:
  assumes ops: "faithful_ops H O' valid rows vecs"
  shows "delete_bindings O' E i sc ds s = Some (Inr s') \<Longrightarrow> valid s
    \<Longrightarrow> valid s' \<and> vecs s' = vecs s
      \<and> rows s' = filter (\<lambda>d. \<not> (\<exists>d'\<in>set ds. doc_key d' = doc_key d
          \<and> (\<exists>b. binding_from_record (env_uuid_ok E) d' = Inr b \<and> binds_memory i sc b))) (rows s)
      \<and> (\<forall>d\<in>set ds. \<exists>b. binding_from_record (env_uuid_ok E) d = Inr b)"
proof (induction ds arbitrary: s)
  case Nil
  then show ?case by (simp add: m_return_def)
next
  case (Cons d ds)
  from Cons.prems(1) obtain b where b: "binding_from_record (env_uuid_ok E) d = Inr b" by (auto simp: m_bind_Inr)
  show ?case
  proof (cases "binds_memory i sc b")
    case True
    with Cons.prems(1) b obtain t where del: "op_delete O' s (doc_key d) = Inr t"
      and run: "delete_bindings O' E i sc ds t = Some (Inr s')" by (auto simp: m_bind_Inr)
    note t = faithful_opsD(3) [OF ops Cons.prems(2) del]
    from Cons.IH [OF run] t b True show ?thesis by (auto intro!: filter_cong)
  next
    case False
    with Cons.prems(1) b have "delete_bindings O' E i sc ds s = Some (Inr s')" by (auto simp: m_bind_Inr)
    from Cons.IH [OF this Cons.prems(2)] b False show ?thesis by (auto intro!: filter_cong)
  qed
qed

text \<open>The key holds a binding of the memory the scope sees.\<close>

definition bound_doc :: "rust_env \<Rightarrow> string \<Rightarrow> recall_scope \<Rightarrow> doc list \<Rightarrow> bytes \<Rightarrow> bool" where
  "bound_doc E i sc ds k \<longleftrightarrow> prefix binding_prefix k
     \<and> (case lookup_doc ds k of None \<Rightarrow> False
        | Some d \<Rightarrow> (case binding_from_record (env_uuid_ok E) d of Inl _ \<Rightarrow> False
            | Inr b \<Rightarrow> binds_memory i sc b))"

lemma delete_graph_memory_bindings_effect:
  assumes st: "faithful_store H valid rows rest" and ops: "faithful_ops H O' valid rows vecs" and v: "valid s"
    and run: "delete_graph_memory_bindings H O' E i sc s = Some (Inr s')"
  shows "valid s'" and "vecs s' = vecs s"
    and "lookup_doc (rows s') k = (if bound_doc E i sc (rows s) k then None else lookup_doc (rows s) k)"
    and "\<forall>d\<in>set (rows s'). prefix binding_prefix (doc_key d) \<longrightarrow>
      (\<exists>b. binding_from_record (env_uuid_ok E) d = Inr b \<and> \<not> binds_memory i sc b)"
proof -
  obtain recs where recs: "scan_prefix H s binding_prefix = Some (Inr recs)"
    and loop: "delete_bindings O' E i sc recs s = Some (Inr s')"
    using run by (auto simp: delete_graph_memory_bindings_def m_bind_Inr)
  have rows: "recs = filter (has_prefix binding_prefix) (rows s)" by (rule scan_prefix_Inr [OF st v recs])
  note facts = delete_bindings_rows [OF ops loop v]
  show "valid s'" "vecs s' = vecs s" using facts by blast+
  show "\<forall>d\<in>set (rows s'). prefix binding_prefix (doc_key d) \<longrightarrow>
      (\<exists>b. binding_from_record (env_uuid_ok E) d = Inr b \<and> \<not> binds_memory i sc b)"
    using facts unfolding rows by (auto simp: has_prefix_def)
  let ?hit = "\<lambda>k. \<exists>d'\<in>set recs. doc_key d' = k
          \<and> (\<exists>b. binding_from_record (env_uuid_ok E) d' = Inr b \<and> binds_memory i sc b)"
  have kept: "rows s' = filter (\<lambda>d. \<not> ?hit (doc_key d)) (rows s)" using facts by blast
  have "?hit k \<longleftrightarrow> bound_doc E i sc (rows s) k"
  proof
    assume "?hit k"
    then obtain d b where d: "d \<in> set (rows s)" "doc_key d = k" "prefix binding_prefix k"
      and b: "binding_from_record (env_uuid_ok E) d = Inr b" "binds_memory i sc b"
      unfolding rows by (auto simp: has_prefix_def)
    have "lookup_doc (rows s) k = Some d" using lookup_own [OF faithful_storeD(1) [OF st v] d(1)] d(2) by simp
    with d(3) b show "bound_doc E i sc (rows s) k" by (simp add: bound_doc_def)
  next
    assume "bound_doc E i sc (rows s) k"
    then show "?hit k"
      using lookup_doc_Some [of "rows s" k]
      by (auto simp: bound_doc_def rows has_prefix_def split: option.splits sum.splits)
  qed
  moreover have "lookup_doc (rows s') k = (if ?hit k then None else lookup_doc (rows s) k)"
  proof (cases "?hit k")
    case True
    then have "lookup_doc (rows s') k = None" unfolding lookup_doc_None kept by auto
    with True show ?thesis by simp
  next
    case False
    show ?thesis unfolding kept if_not_P [OF False]
      by (rule lookup_filter [of "\<lambda>k. \<not> ?hit k" k "rows s", OF False])
  qed
  ultimately show "lookup_doc (rows s') k = (if bound_doc E i sc (rows s) k then None else lookup_doc (rows s) k)"
    by simp
qed

lemma binding_not_entity:
  assumes "prefix entity_prefix k"
  shows "\<not> bound_doc E i sc ds k"
  using assms by (auto simp: bound_doc_def prefix_def entity_prefix_def binding_prefix_def)

lemma delete_memory_cases:
  assumes "faithful_store H valid rows rest" and "valid (en_store g)"
    and "delete_memory H O' E g i sc = Some (Inr (r, g'))"
  obtains (unseen) "get_memory H (env_b3 E) (env_q15_ok E) (en_tenant g) (en_store g) i sc = Some (Inr None)"
      "g' = g" "\<not> do_deleted r"
  | (seen) m s1 s2 s3 s4 where
      "get_memory H (env_b3 E) (env_q15_ok E) (en_tenant g) (en_store g) i sc = Some (Inr (Some m))"
      "unindex_entities H O' (env_b3 E) (env_q15_ok E) (lower_case (env_patterns E)) i (entities m) (en_store g)
        = Some (Inr s1)"
      "delete_graph_memory_bindings H O' E i sc s1 = Some (Inr s2)"
      "op_delete_vectors O' s2 [i] = Inr s3" "op_delete O' s3 i = Inr s4"
      "do_deleted r" "g' = g\<lparr>en_store := s4\<rparr>"
proof -
  let ?get = "get_memory H (env_b3 E) (env_q15_ok E) (en_tenant g) (en_store g) i sc"
  obtain found where get: "?get = Some (Inr found)"
    using assms(3) by (auto simp: delete_memory_def m_bind_Inr)
  show thesis
  proof (cases found)
    case None
    with get assms(3) have "g' = g" "\<not> do_deleted r"
      by (auto simp: delete_memory_def m_bind_Inr m_return_def)
    with get None unseen show ?thesis by blast
  next
    case (Some m)
    have id: "mem_id m = i" by (rule get_memory_id [OF assms(1,2) get [unfolded Some]])
    have "m_bind (unindex_entities H O' (env_b3 E) (env_q15_ok E) (lower_case (env_patterns E)) i (entities m)
        (en_store g)) (\<lambda>s1. m_bind (delete_graph_memory_bindings H O' E i sc s1) (\<lambda>s2.
        m_bind (from_store (op_delete_vectors O' s2 [i])) (\<lambda>s3. m_bind (from_store (op_delete O' s3 i)) (\<lambda>s4.
          m_return (\<lparr>do_id = i, do_deleted = True\<rparr>, g\<lparr>en_store := s4\<rparr>))))) = Some (Inr (r, g'))"
      using assms(3) unfolding delete_memory_def by (simp add: get Some id)
    then obtain s1 s2 s3 s4 where
      "unindex_entities H O' (env_b3 E) (env_q15_ok E) (lower_case (env_patterns E)) i (entities m) (en_store g)
        = Some (Inr s1)"
      "delete_graph_memory_bindings H O' E i sc s1 = Some (Inr s2)"
      "op_delete_vectors O' s2 [i] = Inr s3" "op_delete O' s3 i = Inr s4"
      and out: "r = \<lparr>do_id = i, do_deleted = True\<rparr>" "g' = g\<lparr>en_store := s4\<rparr>"
      by (auto simp: m_bind_Inr)
    then show ?thesis by (intro seen [OF get [unfolded Some]]) simp_all
  qed
qed

text \<open>The four writes of a deletion, document by document.\<close>

lemma deletion_effect:
  assumes st: "faithful_store H valid rows rest" "faithful_ops H O' valid rows vecs" and v: "valid s"
    and keyed: "keyed_index low (rows s)"
    and unindex: "unindex_entities H O' b3 q15_ok low i xs s = Some (Inr s1)"
    and unbind: "delete_graph_memory_bindings H O' E i sc s1 = Some (Inr s2)"
    and vec: "op_delete_vectors O' s2 [i] = Inr s3" and del: "op_delete O' s3 i = Inr s4"
  shows "lookup_doc (rows s4) i = None" and "vecs s4 = (vecs s)(i := None)"
    and "\<forall>d\<in>set (rows s4). prefix binding_prefix (doc_key d) \<longrightarrow>
      (\<exists>b. binding_from_record (env_uuid_ok E) d = Inr b \<and> \<not> binds_memory i sc b)"
    and "\<forall>k\<in>entity_keys low xs. k \<noteq> i \<longrightarrow>
      bound_ids (rows s4) k = filter (\<lambda>j. j \<noteq> i) (bound_ids (rows s) k)"
    and "\<forall>k. k \<noteq> i \<longrightarrow> k \<notin> entity_keys low xs \<longrightarrow>
      lookup_doc (rows s4) k = (if bound_doc E i sc (rows s) k then None else lookup_doc (rows s) k)"
proof -
  note s1 = unindex_entities_effect [OF st unindex v keyed]
  note s2 = delete_graph_memory_bindings_effect [OF st conjunct1 [OF s1] unbind]
  note s3 = faithful_opsD(5) [OF st(2) s2(1) vec]
  note s4 = faithful_opsD(3) [OF st(2) conjunct1 [OF s3] del]
  have rows: "lookup_doc (rows s4) k = (if k = i then None else lookup_doc (rows s2) k)" for k
    using s3 s4 by (simp add: lookup_deleted)
  show "lookup_doc (rows s4) i = None" by (simp add: rows)
  show "vecs s4 = (vecs s)(i := None)" using s1 s2(2) s3 s4 by auto
  show "\<forall>d\<in>set (rows s4). prefix binding_prefix (doc_key d) \<longrightarrow>
      (\<exists>b. binding_from_record (env_uuid_ok E) d = Inr b \<and> \<not> binds_memory i sc b)"
    using s2(4) s3 s4 by auto
  show "\<forall>k\<in>entity_keys low xs. k \<noteq> i \<longrightarrow>
      bound_ids (rows s4) k = filter (\<lambda>j. j \<noteq> i) (bound_ids (rows s) k)"
  proof (intro ballI impI)
    fix k assume k: "k \<in> entity_keys low xs" "k \<noteq> i"
    have "lookup_doc (rows s4) k = lookup_doc (rows s1) k"
      using rows [of k] s2(3) [of k] k(2) binding_not_entity [OF entity_keys_prefix [OF k(1)]] by simp
    then have "bound_ids (rows s4) k = bound_ids (rows s1) k" by (simp add: bound_ids_def)
    with s1 k(1) show "bound_ids (rows s4) k = filter (\<lambda>j. j \<noteq> i) (bound_ids (rows s) k)" by simp
  qed
  show "\<forall>k. k \<noteq> i \<longrightarrow> k \<notin> entity_keys low xs \<longrightarrow>
      lookup_doc (rows s4) k = (if bound_doc E i sc (rows s) k then None else lookup_doc (rows s) k)"
  proof (intro allI impI)
    fix k assume k: "k \<noteq> i" "k \<notin> entity_keys low xs"
    have "lookup_doc (rows s1) k = lookup_doc (rows s) k" using s1 k(2) by blast
    then show "lookup_doc (rows s4) k = (if bound_doc E i sc (rows s) k then None else lookup_doc (rows s) k)"
      using rows [of k] s2(3) [of k] k(1) by (simp add: bound_doc_def)
  qed
qed

text \<open>
  C9. Deletion is complete and touches nothing else. A memory the scope does not see is left alone. One it
  sees is gone afterwards, with its vector and every binding of it the scope sees, and no entry of one of
  its entities lists it any longer. Every other vector and document is as it was: bindings of other
  memories or of scopes the request does not see stay, and the entries of its entities, which are the only
  documents rewritten, lose no other memory.
\<close>

theorem delete_memory_complete:
  assumes "faithful_store H valid rows rest" and "faithful_ops H O' valid rows vecs" and "valid (en_store g)"
    and "keyed_index (lower_case (env_patterns E)) (rows (en_store g))"
    and "delete_memory H O' E g i sc = Some (Inr (r, g'))"
  shows "if do_deleted r
    then \<exists>m. get_memory H (env_b3 E) (env_q15_ok E) (en_tenant g) (en_store g) i sc = Some (Inr (Some m))
      \<and> g' = g\<lparr>en_store := en_store g'\<rparr>
      \<and> lookup_doc (rows (en_store g')) i = None
      \<and> vecs (en_store g') = (vecs (en_store g))(i := None)
      \<and> (\<forall>d\<in>set (rows (en_store g')). prefix binding_prefix (doc_key d) \<longrightarrow>
          (\<exists>b. binding_from_record (env_uuid_ok E) d = Inr b \<and> \<not> binds_memory i sc b))
      \<and> (\<forall>k\<in>entity_keys (lower_case (env_patterns E)) (entities m). k \<noteq> i \<longrightarrow>
          bound_ids (rows (en_store g')) k = filter (\<lambda>j. j \<noteq> i) (bound_ids (rows (en_store g)) k))
      \<and> (\<forall>k. k \<noteq> i \<longrightarrow> k \<notin> entity_keys (lower_case (env_patterns E)) (entities m) \<longrightarrow>
          lookup_doc (rows (en_store g')) k =
            (if bound_doc E i sc (rows (en_store g)) k then None else lookup_doc (rows (en_store g)) k))
    else g' = g \<and> get_memory H (env_b3 E) (env_q15_ok E) (en_tenant g) (en_store g) i sc = Some (Inr None)"
  using assms(1,3,5)
proof (cases rule: delete_memory_cases)
  case (seen m s1 s2 s3 s4)
  note effect = deletion_effect [OF assms(1-4) seen(2-5)]
  from seen effect show ?thesis by (intro if_P [THEN iffD2] exI [of _ m]) simp_all
qed simp

end
