(* ===== verification/Graph_Example.thy ===== *)
theory Graph_Example
  imports Graph_Claims Claim_Example Ingestion_Claims
begin

text \<open>
  The graph operations run on a concrete store: four entities, a split and a merge, one relation and
  the event they rest on. The witnesses of the graph properties.
\<close>

section \<open>The store\<close>

definition seen_in :: graph_evidence where
  "seen_in = \<lparr>gv_event_id = ''u1'', gv_excerpt = None\<rparr>"

definition person :: "string \<Rightarrow> canonical_entity" where
  "person i = \<lparr>ne_id = i, ne_scope = home_scope, ne_type = ''person'', ne_label = ''ana'',
     ne_recorded_at_ms = 1, ne_evidence_count = 1, ne_evidence = [seen_in]\<rparr>"

definition replaced :: "string \<Rightarrow> string \<Rightarrow> string list \<Rightarrow> lineage_type \<Rightarrow> entity_lineage" where
  "replaced i a bs ty = \<lparr>li_id = i, li_source = a, li_targets = bs, li_type = ty, li_effective_at_ms = 1,
     li_recorded_at_ms = 1, li_evidence = [seen_in]\<rparr>"

definition split_a :: entity_lineage where "split_a = replaced ''l1'' ''a'' [''b'', ''c''] SplitInto"
definition merge_b :: entity_lineage where "merge_b = replaced ''l2'' ''b'' [''c''] MergedInto"

definition knows :: entity_relation where
  "knows = \<lparr>el_id = ''r1'', el_scope = home_scope, el_source = ''a'', el_type = ''knows'', el_target = ''b'',
     el_ontology_version = ''1'', el_direction = Directed, el_traversable = True, el_confidence_nanos = 5,
     el_valid_from_ms = None, el_valid_to_ms = None, el_recorded_at_ms = 1, el_evidence = [seen_in],
     el_evidence_count = 1\<rparr>"

definition graph_rows :: "doc list" where
  "graph_rows = map (canonical_to_record \<circ> person) [''a'', ''b'', ''c'', ''d'']
     @ [lineage_to_record home_scope split_a, lineage_to_record home_scope merge_b, relation_to_record knows,
        ingestion_to_record (heard Materialized)]"

definition graph_engine :: "vec_state engine" where
  "graph_engine = example_engine\<lparr>en_store := (graph_rows, Map.empty)\<rparr>"

lemma graph_engine_fields [simp]:
  "en_store graph_engine = (graph_rows, Map.empty)" "en_tenant graph_engine = ''local''"
  "ne_id (person i) = i" "ne_type (person i) = ''person''" "ne_scope (person i) = home_scope"
  "ne_evidence (person i) = [seen_in]" "ne_evidence_count (person i) = 1"
  "env_uuid_ok blocking_env i" "gv_event_id seen_in = ''u1''" "gv_excerpt seen_in = None"
  by (simp_all add: graph_engine_def example_engine_def person_def blocking_env_def quiet_env_def seen_in_def)

lemma graph_keys [simp]:
  "doc_key (canonical_to_record e) = ''__celiums/graph/entity/'' @ ne_id e"
  "doc_key (lineage_to_record sc l) = ''__celiums/graph/lineage/'' @ li_id l"
  "doc_key (relation_to_record r) = ''__celiums/graph/relation/'' @ el_id r"
  "doc_key (ingestion_to_record (heard st)) = ''__celiums/ingestion/event/u1''"
  by (simp_all add: canonical_to_record_def canonical_entity_key_def canonical_entity_prefix_def
      lineage_to_record_def lineage_prefix_def relation_to_record_def relation_key_def relation_prefix_def
      ingestion_to_record_def ingestion_key_def ingestion_prefix_def)

lemma replaced_fields [simp]:
  "li_id split_a = ''l1''" "li_source split_a = ''a''" "li_targets split_a = [''b'', ''c'']"
  "li_id merge_b = ''l2''" "li_source merge_b = ''b''" "li_targets merge_b = [''c'']"
  "li_evidence split_a = [seen_in]" "li_evidence merge_b = [seen_in]"
  "li_effective_at_ms split_a = 1" "li_recorded_at_ms split_a = 1"
  "li_effective_at_ms merge_b = 1" "li_recorded_at_ms merge_b = 1"
  by (simp_all add: split_a_def merge_b_def replaced_def)

lemma knows_fields [simp]:
  "el_id knows = ''r1''" "el_scope knows = home_scope" "el_source knows = ''a''" "el_target knows = ''b''"
  "el_evidence knows = [seen_in]" "el_evidence_count knows = 1" "el_traversable knows" "el_direction knows = Directed"
  by (simp_all add: knows_def)

lemma graph_sorted: "(key_sorted \<circ> fst) (en_store graph_engine)"
  by (simp add: graph_rows_def key_sorted_def)

lemma graph_scan_rows:
  "scan_prefix vec_store (graph_rows, Map.empty) p = Some (Inr (filter (has_prefix p) graph_rows))"
  using vec_scan [of "(graph_rows, Map.empty)"] graph_sorted by simp

lemma graph_rows_of:
  "filter (has_prefix canonical_entity_prefix) graph_rows
     = map (canonical_to_record \<circ> person) [''a'', ''b'', ''c'', ''d'']"
  "filter (has_prefix lineage_prefix) graph_rows
     = [lineage_to_record home_scope split_a, lineage_to_record home_scope merge_b]"
  "filter (has_prefix relation_prefix) graph_rows = [relation_to_record knows]"
  by (simp_all add: graph_rows_def has_prefix_def canonical_entity_prefix_def lineage_prefix_def relation_prefix_def)

lemma graph_home [simp]: "graph_owner home_scope = home_scope" "graph_scope_visible home_scope home_scope"
  by (simp_all add: graph_owner_def home_scope_def graph_scope_visible_def)

lemma person_decodes: "canonical_from_record (env_uuid_ok blocking_env) (canonical_to_record (person i)) = Inr (person i)"
  using entity_roundtrip_graph [of "person i" "env_uuid_ok blocking_env"] wf_home_scope
  by (simp add: u64_sat_def person_def)

lemma lineage_decodes:
  "lineage_from_record (env_uuid_ok blocking_env) (lineage_to_record home_scope split_a) = Inr (split_a, home_scope)"
  "lineage_from_record (env_uuid_ok blocking_env) (lineage_to_record home_scope merge_b) = Inr (merge_b, home_scope)"
  using lineage_roundtrip [of home_scope "env_uuid_ok blocking_env"] wf_home_scope by simp_all

lemma knows_decodes: "relation_from_record (env_uuid_ok blocking_env) (relation_to_record knows) = Inr knows"
  using relation_roundtrip [of knows "env_uuid_ok blocking_env"] wf_home_scope
  by (simp add: u64_sat_def knows_def)

lemma graph_lineages:
  "visible_lineages vec_store blocking_env graph_engine home_scope = Some (Inr [split_a, merge_b])"
  by (simp add: visible_lineages_def graph_scan_def graph_scan_rows graph_rows_of from_scan_def from_store_def
      lineage_decodes from_graph_def)

lemma graph_entity:
  "i \<in> {''a'', ''b'', ''c'', ''d''}
   \<Longrightarrow> get_entity vec_store blocking_env graph_engine i home_scope = Some (Inr (Some (person i)))"
  by (auto simp: get_entity_def require_tenant_def from_store_def graph_rows_def lookup_doc_def
      canonical_entity_key_def canonical_entity_prefix_def person_decodes from_graph_def)

lemma graph_requires:
  "i \<in> {''a'', ''b'', ''c'', ''d''}
   \<Longrightarrow> require_entity vec_store blocking_env graph_engine home_scope i = Some (Inr (person i))"
  by (simp add: require_entity_def graph_entity)

section \<open>Merges and splits\<close>

lemma graph_event:
  "get_ingestion vec_store blocking_env ''local'' (graph_rows, Map.empty) ''u1'' home_scope = Some (Inr (Some (heard Materialized)))"
proof -
  have "ingestion_visible_to (heard Materialized) home_scope"
    by (simp add: ingestion_visible_to_def memory_identity_local_def home_scope_def)
      (simp add: heard_def new_ingestion_entry_def hear_request_def)
  moreover have "lookup_doc graph_rows (ingestion_key ''u1'') = Some (ingestion_to_record (heard Materialized))"
    by (simp add: graph_rows_def lookup_doc_def ingestion_key_def ingestion_prefix_def)
  ultimately show ?thesis
    by (simp add: get_ingestion_def get_ingestion_unscoped_def require_tenant_def from_store_def
        from_ingestion_def heard_decodes)
qed

lemma graph_evidence_valid:
  "validate_graph_evidence vec_store blocking_env graph_engine home_scope [seen_in] = Some (Inr ())"
  by (simp add: validate_graph_evidence_def check_graph_evidence_def graph_event m_return_def)

definition merging :: lineage_request where
  "merging = \<lparr>lq_scope = home_scope, lq_source = ''c'', lq_targets = [''d''], lq_type = MergedInto,
     lq_effective_at_ms = 1, lq_recorded_at_ms = 1, lq_evidence = [seen_in]\<rparr>"

definition merged :: entity_lineage where
  "merged = lineage_of_request (env_b3_raw blocking_env) (env_uuid_text blocking_env) merging"

definition merged_engine :: "vec_state engine" where
  "merged_engine = graph_engine\<lparr>en_store := (upsert (lineage_to_record home_scope merged) graph_rows, Map.empty)\<rparr>"

lemma graph_edges: "lineage_edges [split_a, merge_b] = [(''a'', ''b''), (''a'', ''c''), (''b'', ''c'')]"
  by (simp add: lineage_edges_def)

lemma d_reaches_nothing: "\<not> reaches (lineage_edges [split_a, merge_b]) ''d'' ''c''"
  unfolding reaches_iff graph_edges by (auto elim: converse_rtranclE)

lemma merging_run:
  "record_entity_lineage vec_store blocking_env graph_engine merging = Some (Inr (merged, merged_engine))"
  by (simp add: record_entity_lineage_def merging_def graph_requires check_lineage_target_def
      entity_reaches_def graph_lineages d_reaches_nothing graph_evidence_valid put_doc_def from_store_def Let_def)
    (simp add: merged_def merged_engine_def merging_def m_return_def)

lemma graph_entities_keyed: "entities_keyed blocking_env (fst (en_store graph_engine))"
  by (simp add: entities_keyed_def graph_rows_def person_decodes canonical_entity_key_def canonical_entity_prefix_def)
    (simp add: canonical_from_record_def graph_object_def canonical_entity_prefix_def)

theorem lineage_stays_acyclic_witness:
  "ok_or_hyphae (visible_lineages vec_store blocking_env merged_engine home_scope)
     (\<lambda>ls'. acyclic (set (lineage_edges ls')))"
proof -
  have fields: "lq_scope merging = home_scope" "lq_source merging = ''c''" "lq_targets merging = [''d'']"
    "lq_evidence merging = [seen_in]" by (simp_all add: merging_def)
  have "wf_lineage_request blocking_env merging"
    by (simp add: wf_lineage_request_def fields wf_home_scope)
  moreover have "acyclic (set (lineage_edges [split_a, merge_b]))"
    unfolding graph_edges by (rule acyclicI_order [of _ "\<lambda>x. if x = ''a'' then 2 else if x = ''b'' then 1 else (0::nat)"]) auto
  ultimately have "ok_or_hyphae (visible_lineages vec_store blocking_env merged_engine (lq_scope merging))
      (\<lambda>ls'. acyclic (set (lineage_edges ls')))"
    by (intro lineage_stays_acyclic [OF vec_store_faithful graph_sorted graph_entities_keyed _ _ _ merging_run])
      (simp_all add: fields graph_lineages)
  then show ?thesis by (simp add: fields)
qed

lemma graph_applicable:
  "applicable [split_a, merge_b] 1 1 ''a'' = Some split_a" "applicable [split_a, merge_b] 1 1 ''b'' = Some merge_b"
  "applicable [split_a, merge_b] 1 1 ''c'' = None"
  by (simp_all add: applicable_def)

text \<open>The lineages of the example: \<open>a\<close> was split into \<open>b\<close> and \<open>c\<close>, then \<open>b\<close> merged into \<open>c\<close>.\<close>

lemma example_lineages_acyclic: "acyclic (set (lineage_edges [split_a, merge_b]))"
proof -
  have "set (lineage_edges [split_a, merge_b]) = {(''a'', ''b''), (''a'', ''c''), (''b'', ''c'')}"
    by (auto simp: lineage_edges_def)
  moreover have "{(''a'', ''b''), (''a'', ''c''), (''b'', ''c'')} \<subseteq> {(x, y :: string). x < y}"
    by simp
  moreover have "acyclic {(x, y :: string). x < y}"
  proof -
    have "trans {(x, y :: string). x < y}" by (auto intro: transI)
    then show ?thesis by (simp add: acyclic_def trancl_id)
  qed
  ultimately show ?thesis using acyclic_subset by metis
qed

theorem uneven_split_unresolvable_witness:
  "acyclic (set (lineage_edges [split_a, merge_b]))
   \<and> resolve_entity_id vec_store blocking_env graph_engine ''a'' home_scope 1 1 = Some (Inl GraphLineageCycle)"
proof
  have "resolve_entity_id vec_store blocking_env graph_engine ''a'' home_scope 1 1 = Some (Inl GraphLineageCycle)
      \<and> ''c'' \<in> remaining (applicable [split_a, merge_b] 1 1) ''a''"
    by (rule uneven_split_unresolvable [where a = "''c''" and b = "''b''" and e = "person ''a''"
          and ls = "[split_a, merge_b]" and l = split_a])
      (simp_all add: graph_entity graph_lineages graph_applicable)
  then show "resolve_entity_id vec_store blocking_env graph_engine ''a'' home_scope 1 1
      = Some (Inl GraphLineageCycle)" by blast
qed (rule example_lineages_acyclic)

theorem resolution_exact_witness:
  "\<exists>ids. resolve_entity_id vec_store blocking_env graph_engine ''b'' home_scope 1 1 = Some (Inr (ResolvedTo ''c''))
     \<and> set ids = remaining (applicable [split_a, merge_b] 1 1) ''b'' \<and> ids = [''c'']"
proof -
  have loop: "resolve_loop [split_a, merge_b] 1 1 [''b''] [] = Some [''c'']"
    by (subst resolve_loop.simps) (simp add: graph_applicable Let_def resolve_loop.simps)
  then have run: "resolve_entity_id vec_store blocking_env graph_engine ''b'' home_scope 1 1 = Some (Inr (ResolvedTo ''c''))"
    by (simp add: resolve_entity_id_def graph_entity graph_lineages resolution_def m_return_def)
  from resolution_exact [OF this] obtain ids where ids: "set ids = remaining (applicable [split_a, merge_b] 1 1) ''b''"
      "ResolvedTo ''c'' = (case ids of [j] \<Rightarrow> ResolvedTo j | _ \<Rightarrow> AmbiguousAmong ids)"
    by (auto simp: graph_lineages)
  then have "ids = [''c'']" by (auto split: list.splits)
  with ids(1) run show ?thesis by blast
qed

section \<open>A walk\<close>

definition walk_from_a :: traversal_request where
  "walk_from_a = \<lparr>tq_scope = home_scope, tq_seeds = [''a''], tq_relation_types = [], tq_valid_at_ms = 1,
     tq_known_at_ms = 1, tq_max_depth = 3, tq_max_edges = 5, tq_max_entities = 5\<rparr>"

definition three_steps :: walk_limits where
  "three_steps = \<lparr>wl_depth = 3, wl_edges = 5, wl_entities = 5\<rparr>"

lemma walk_knows:
  "wk_entities (run_walk three_steps [knows] [''a'']) = [''a'', ''b'']"
  "wk_edges (run_walk three_steps [knows] [''a'']) = [\<lparr>te_relation = knows, te_depth = 1\<rparr>]"
  "wk_reason (run_walk three_steps [knows] [''a'']) = None"
  by (simp_all add: run_walk_def walk_start_def walk_loop.simps leaves_from_def neighbor_def
      follow_edge_def record_edge_def discover_def inspect_def note_reason_def three_steps_def Let_def)

lemma graph_relations:
  "entity_relations_at vec_store blocking_env graph_engine home_scope 1 1 = Some (Inr [knows])"
  by (simp add: entity_relations_at_def graph_scan_def graph_scan_rows graph_rows_of from_scan_def from_store_def
      knows_decodes from_graph_def require_tenant_def relation_valid_at_def known_and_valid_def m_return_def)
    (simp add: knows_def)

theorem traversal_exact_witness:
  "\<exists>res. traverse_graph vec_store blocking_env graph_engine walk_from_a = Some (Inr res)
     \<and> set (tr_entities res) = (links [knows])\<^sup>* `` {''a''}"
proof -
  have L: "traversal_limits walk_from_a = three_steps" "traversable_relations walk_from_a [knows] = [knows]"
    by (simp_all add: traversal_limits_def walk_from_a_def three_steps_def traversable_relations_def)
  have f: "tq_scope walk_from_a = home_scope" "tq_seeds walk_from_a = [''a'']" "tq_max_depth walk_from_a = 3"
    "tq_max_edges walk_from_a = 5" "tq_max_entities walk_from_a = 5" "tq_valid_at_ms walk_from_a = 1"
    "tq_known_at_ms walk_from_a = 1" by (simp_all add: walk_from_a_def)
  have "wl_entities three_steps = 5" by (simp add: three_steps_def)
  then obtain res where run: "traverse_graph vec_store blocking_env graph_engine walk_from_a = Some (Inr res)"
    and res: "\<not> tr_truncated res" "tr_entities res = [''a'', ''b'']"
    by (simp add: traverse_graph_def f L Let_def graph_requires graph_relations require_tenant_def walk_knows m_return_def)
  from traversal_exact [OF run] res show ?thesis
    by (simp add: f graph_relations L run)
qed

theorem graph_path_ends_witness:
  "\<exists>q. graph_path [''a''] ''b'' (wk_edges (run_walk three_steps [knows] [''a''])) = Some q \<and> is_path [knows] q"
proof -
  have "inj_on el_id (set [knows])" "distinct [''a'']" "length [''a''] \<le> wl_entities three_steps"
    "''b'' \<in> set (wk_entities (run_walk three_steps [knows] [''a'']))"
    by (simp_all add: walk_knows(1)) (simp add: three_steps_def)
  from graph_path_ends [OF this(2,3,1,4)] show ?thesis by blast
qed

end
