(* ===== verification/Recall_Example.thy ===== *)
theory Recall_Example
  imports Recall_Claims Lifecycle Deletion Graph_Example
begin

text \<open>
  A store with one relation and one governed memory, and the runs of a recall, of the lifecycle and of a
  deletion over it: the witnesses of their properties.
\<close>

section \<open>The store\<close>

definition kept :: memory where
  "kept = example_memory\<lparr>governance := Some (request_governance quiet_env (example_request None))\<rparr>"

definition kept_rows :: "doc list" where
  "kept_rows = [relation_to_record knows, memory_to_record kept]"

definition kept_engine :: "vec_state engine" where
  "kept_engine = example_engine\<lparr>en_store := (kept_rows, Map.empty)\<rparr>"

lemma kept_engine_fields [simp]:
  "en_store kept_engine = (kept_rows, Map.empty)" "en_tenant kept_engine = ''local''"
  "en_space kept_engine = example_space" "en_dimension kept_engine = 1"
  by (simp_all add: kept_engine_def example_engine_def)

lemma kept_wf: "wf_memory (\<lambda>_. True) kept"
proof -
  have "redaction_spans (gov_trace (request_governance quiet_env (example_request None))) = []"
    by (simp add: request_governance_def quiet_env_def example_request_def classify_governance_def
        detect_poisoning_def quiet_detectors_def detect_redactions_def Let_def raw_redactions_def add_matches_def
        add_capture_matches_def map_filter_simps normalize_spans_def)
  then show ?thesis using example_memory_wf by (simp add: wf_memory_def kept_def wf_governance_def)
qed

lemma kept_decodes: "memory_from_record b3 (\<lambda>_. True) (memory_to_record kept) = Inr (as_stored kept)"
  by (rule memory_decode_encode [OF kept_wf])

lemma kept_fields [simp]:
  "mem_id kept = ''m1''" "mem_id (as_stored kept) = ''m1''" "mem_state (as_stored kept) = Active"
  "governance (as_stored kept) = Some (request_governance quiet_env (example_request None))"
  "event_id (provenance (as_stored kept)) = None" "entities (as_stored kept) = []"
  "importance (as_stored kept) = Fin 0" "last_retrieved_at_ms (as_stored kept) = 7"
  "identity kept = memory_identity_local" "identity (as_stored kept) = memory_identity_local"
  "mem_scope (as_stored kept) = Global"
  by (simp_all add: kept_def as_stored_def example_memory_def provenance_legacy_def
      provenance_observed_def snap_def of_nanos_def saturate_i64_def round_half_away_def)

lemma kept_keys [simp]:
  "doc_key (memory_to_record kept) = ''m1''" "doc_key (relation_to_record knows) = ''__celiums/graph/relation/r1''"
  by (simp_all add: memory_to_record_def memory_key_def)

lemma kept_sorted: "(key_sorted \<circ> fst) (en_store kept_engine)" "key_sorted kept_rows"
  by (simp_all add: kept_rows_def key_sorted_def)

lemma kept_env [simp]: "env_q15_ok quiet_env = (\<lambda>_. True)" "env_uuid_ok quiet_env i"
  by (simp_all add: quiet_env_def)

lemma not_a_relation: "\<exists>e. relation_from_record uuid_ok (memory_to_record kept) = Inl e"
  by (simp add: relation_from_record_def graph_object_def relation_prefix_def)

lemma kept_relations: "relations_keyed quiet_env kept_rows"
proof -
  have "relation_from_record (env_uuid_ok quiet_env) (relation_to_record knows) = Inr knows"
    using relation_roundtrip [of knows "env_uuid_ok quiet_env"] wf_home_scope by (simp add: u64_sat_def knows_def)
  moreover obtain e where "relation_from_record (env_uuid_ok quiet_env) (memory_to_record kept) = Inl e"
    using not_a_relation by blast
  ultimately show ?thesis by (simp add: relations_keyed_def kept_rows_def relation_key_def relation_prefix_def)
qed

section \<open>Recall\<close>

definition found_all :: "unit search_ops" where
  "found_all = \<lparr>so_exact = (\<lambda>docs v n. Inr (ExactAbstained ExactNoCandidates)),
     so_lexical = (\<lambda>ds q n. Inr (Some (map (\<lambda>d. (doc_key d, 1)) ds))), so_alphanumeric = (\<lambda>_. True)\<rparr>"

lemma found_all_sound: "sound_search found_all"
  by (auto simp: sound_search_def found_all_def)

definition find_kept :: "branch_options \<Rightarrow> recall_request" where
  "find_kept bo =
     \<lparr>rq_query_text = ''hi'', rq_query_embedding = [Fin 1], rq_limit = 1, rq_current_state = Some neutral_pad,
      rq_recall_now_ms = 8, rq_recall_scope = None, rq_query_space = None, rq_authority = Owner,
      rq_disclosure_purpose = TaskExecution, rq_filter = None, rq_branches = bo, rq_relevance = Fin 1,
      rq_reranker = Deterministic\<rparr>"

definition plain_recall :: recall_config where
  "plain_recall = \<lparr>rc_weights = default_weights, rc_max_results = 10, rc_score_threshold = Fin 0\<rparr>"

theorem recall_always_returns_witness:
  "\<exists>r. recall vec_store (list_query fst) found_all quiet_env plain_recall kept_engine (find_kept default_branches)
     = Some r"
  using recall_always_returns [OF vec_store_faithful list_query_faithful found_all_sound kept_sorted(1)]
    kept_relations by simp

lemma found_all_search:
  "so_lexical found_all ds q n = Inr (Some (map (\<lambda>d. (doc_key d, 1)) ds))"
  by (simp add: found_all_def)

definition words_only :: branch_options where
  "words_only = default_branches\<lparr>bo_semantic := False, bo_graph := False, bo_temporal := False\<rparr>"

lemma list_query_each:
  "length (filter (plain_sat f) (rows s)) \<le> lifecycle_batch
   \<Longrightarrow> query_each (list_query rows) s f step acc = Some (fold_r step (filter (plain_sat f) (rows s)) acc)"
  by (simp add: query_each_def query_loop.simps list_query_def Let_def split: sum.split)

lemma kept_selected:
  "filter (plain_sat (owner_filter recall_scope_local)) kept_rows = [memory_to_record kept]"
  "filter (plain_sat kind_filter) kept_rows = [memory_to_record kept]"
proof -
  have "doc_field (relation_to_record knows) ''kind'' = Some (VString ''entity_relation'')"
    by (simp add: doc_field_def relation_to_record_def)
  then have "\<not> plain_sat (string_eq ''kind'' memory_kind) (relation_to_record knows)"
    by (simp add: string_eq_def memory_kind_def)
  moreover have "plain_sat (owner_filter recall_scope_local) (memory_to_record kept)"
    "plain_sat kind_filter (memory_to_record kept)"
    by (simp_all add: owner_filter_def kind_filter_def string_eq_def stored_text memory_kind_def recall_scope_local_def)
  ultimately show "filter (plain_sat (owner_filter recall_scope_local)) kept_rows = [memory_to_record kept]"
    "filter (plain_sat kind_filter) kept_rows = [memory_to_record kept]"
    by (simp_all add: kept_rows_def owner_filter_def kind_filter_def)
qed

lemma kept_recallable: "recallable recall_scope_local (as_stored kept)"
  by (simp add: recallable_def memory_visible_to_def example_governance recall_scope_local_def memory_identity_local_def)

lemma kept_authorized:
  "authorized_records (list_query fst) quiet_env kept_engine recall_scope_local None
   = Some (Inr [(''m1'', as_stored kept)])"
proof -
  have "collect_recallable quiet_env recall_scope_local (memory_to_record kept) []
      = (Inr [(''m1'', as_stored kept)] :: unit engine_error + corpus)"
    by (simp add: collect_recallable_def decode_memory_def kept_decodes kept_recallable entry_insert_def)
  then show ?thesis
    by (simp add: authorized_records_def with_requested_def list_query_each kept_selected lifecycle_batch_def)
qed

lemma kept_scan:
  "scan_prefix vec_store (kept_rows, Map.empty) p = Some (Inr (filter (has_prefix p) kept_rows))"
  using vec_scan [of "(kept_rows, Map.empty)"] kept_sorted by simp

lemma kept_scans:
  "filter (has_prefix claim_prefix) kept_rows = []" "filter (has_prefix link_prefix) kept_rows = []"
  "filter (has_prefix binding_prefix) kept_rows = []"
  by (simp_all add: kept_rows_def has_prefix_def claim_prefix_def link_prefix_def binding_prefix_def)

lemma kept_retired:
  "inactive_claim_events_for_query vec_store found_all quiet_env kept_engine recall_scope_local q now
   = Some (Inr {})"
  by (simp add: inactive_claim_events_for_query_def visible_claims_def claim_supersessions_def kept_scan kept_scans
      from_scan_def from_store_def from_claim_def require_tenant_def recall_scope_local_def
      memory_identity_local_def m_return_def)

lemma kept_corpus:
  "recall_corpus vec_store (list_query fst) found_all quiet_env kept_engine (find_kept bo)
   = Some (Inr [(''m1'', as_stored kept)])"
  by (simp add: recall_corpus_def scope_of_recall_def find_kept_def kept_authorized kept_retired not_retired_def
      m_return_def)

lemma kept_request:
  "validate_recall quiet_env kept_engine (find_kept words_only) = (Some (Inr [32767]) :: (unit, i16 list) outcome)"
  by (simp add: validate_recall_def scope_of_recall_def find_kept_def words_only_def default_branches_def
      require_tenant_def recall_scope_local_def memory_identity_local_def ensure_embedding_space_def
      quantize_def round_half_away_def)

lemma kept_words:
  "filtered_lexical_candidates found_all [(''m1'', as_stored kept)] ''hi'' n
   = (Inr ([(''m1'', Fin 1)], None) :: unit engine_error + _)"
proof -
  have "trim ''hi'' \<noteq> []" by code_simp
  then show ?thesis
    by (simp add: filtered_lexical_candidates_def found_all_search nanos_float_def memory_to_record_def memory_key_def)
qed

lemma kept_answer:
  "\<exists>rp. answer_recall quiet_env plain_recall (find_kept bo) current [(''m1'', as_stored kept)] sa la gb ta
     [(''m1'', c)] tr = (Some (Inr rp) :: (unit, recall_response) outcome) \<and> rp_candidate_count rp = 1"
  by (simp add: answer_recall_def score_all_def finish_recall_def find_kept_def apply_reranker_def m_return_def Let_def)

lemma off:
  "\<not> bo_graph (rq_branches rq) \<Longrightarrow> add_graph_candidates H E g rq sc ms cs = m_return (no_graph Disabled, cs)"
  "\<not> bo_temporal (rq_branches rq) \<Longrightarrow> add_temporal_candidates H S E g rq sc ms cs = m_return (Some Disabled, cs)"
  by (simp_all add: add_graph_candidates_def add_temporal_candidates_def Let_def)

lemma kept_recall:
  "\<exists>rp. recall vec_store (list_query fst) found_all quiet_env plain_recall kept_engine (find_kept words_only)
     = Some (Inr rp) \<and> rp_candidate_count rp = 1"
proof -
  have f: "rq_branches (find_kept words_only) = words_only" "rq_query_text (find_kept words_only) = ''hi''"
    by (simp_all add: find_kept_def)
  have b: "\<not> bo_semantic words_only" "bo_lexical words_only" "\<not> bo_graph words_only" "\<not> bo_temporal words_only"
    "bo_max_union_candidates words_only = 1000" by (simp_all add: words_only_def default_branches_def)
  show ?thesis
    unfolding recall_def Let_def kept_corpus kept_request f
    using kept_answer
    by (simp add: b branch_if_def kept_words off f m_return_def set_lexical_def truncate_candidate_union_def)
qed

theorem recall_only_authorized_witness:
  "\<exists>rp. recall vec_store (list_query fst) found_all quiet_env plain_recall kept_engine (find_kept words_only)
       = Some (Inr rp) \<and> rp_candidate_count rp = 1 \<and> (\<forall>r\<in>set (rp_results rp). sm_id r = ''m1'')"
proof -
  obtain rp where run: "recall vec_store (list_query fst) found_all quiet_env plain_recall kept_engine
      (find_kept words_only) = Some (Inr rp)" and n: "rp_candidate_count rp = 1"
    using kept_recall by blast
  have "sm_id r = ''m1''" if "r \<in> set (rp_results rp)" for r
  proof -
    from recall_only_authorized [OF vec_store_faithful list_query_faithful [of fst "key_sorted \<circ> fst"] kept_sorted(1) run] that obtain d m where
      "d \<in> set kept_rows" "holds_memory quiet_env d m" "sm_id r = mem_id m"
      "asked_for plain_sat recall_scope_local None d"
      by (fastforce simp: find_kept_def scope_of_recall_def)
    moreover from this(1,4) have "d \<in> set (filter (plain_sat (owner_filter recall_scope_local)) kept_rows)"
      by (simp add: asked_for_def)
    ultimately show ?thesis using holds_memory_id [of quiet_env d m] by (simp add: kept_selected)
  qed
  with run n show ?thesis by blast
qed

section \<open>Lifecycle\<close>

lemma kept_aged:
  "lifecycle_change_of 8 (as_stored kept)
   = ArchivedAs (as_stored kept\<lparr>importance := min_importance, mem_state := Archived\<rparr>)"
proof -
  have "decayed_importance 8 (as_stored kept) = min_importance"
    by (simp add: decayed_importance_def lifecycle_decay_def days_between_def min_importance_def)
  then show ?thesis
    by (simp add: lifecycle_change_of_def Let_def min_importance_def archive_threshold_def)
qed


section \<open>Deletion\<close>

lemma kept_get:
  "get_memory vec_store b3 (\<lambda>_. True) ''local'' (kept_rows, vs) ''m1'' recall_scope_local
   = Some (Inr (Some (as_stored kept)))"
proof -
  have "lookup_doc kept_rows ''m1'' = Some (memory_to_record kept)" by (simp add: kept_rows_def lookup_doc_def)
  moreover have "memory_visible_to (as_stored kept) recall_scope_local"
    by (simp add: memory_visible_to_def recall_scope_local_def memory_identity_local_def)
  moreover have "rs_tenant_id recall_scope_local = ''local''"
    by (simp add: recall_scope_local_def memory_identity_local_def)
  ultimately show ?thesis
    by (simp add: get_memory_def require_tenant_def from_store_def from_decode_def kept_decodes m_return_def)
qed

theorem delete_memory_complete_witness:
  "\<exists>r g'. delete_memory vec_store vec_ops quiet_env kept_engine ''m1'' recall_scope_local = Some (Inr (r, g'))
     \<and> do_deleted r \<and> lookup_doc (fst (en_store g')) ''m1'' = None"
proof -
  obtain r g' where run: "delete_memory vec_store vec_ops quiet_env kept_engine ''m1'' recall_scope_local
      = Some (Inr (r, g'))" and "do_deleted r"
    by (simp add: delete_memory_def kept_get delete_graph_memory_bindings_def kept_scan kept_scans from_scan_def
        from_store_def m_return_def vec_ops_def)
  have "keyed_index (lower_case (env_patterns quiet_env)) (fst (en_store kept_engine))"
    by (simp add: keyed_index_def kept_engine_def kept_rows_def memory_to_record_def memory_key_def kept_def
        entity_prefix_def example_memory_def)
  with delete_memory_complete [OF vec_store_faithful vec_ops_faithful kept_sorted(1) _ run] run \<open>do_deleted r\<close>
  show ?thesis by auto
qed

end
