(* ===== verification/Spec2Isabelle.thy ===== *)
theory Spec2Isabelle
  imports Journal_Recall Audit_Runs Filter_Claims Memory_Updates Redaction Governance_Policy
    Recall_Scoring Circadian Affect Remember_Retry Ranking_Claims Temporal Ingestion_Claims
    Ethics_Policy Recall_Example
begin

text \<open>
  A verification library of celiums-memory, the memory engine of \<open>src/rust/crates\<close>.

  \<^bold>\<open>The program.\<close> \<open>celiums-cognition\<close> is pure: it reads affect, importance and entities from a text,
  classifies it for governance, redacts it, keeps the model of mood and of the circadian rhythm, and
  scores memories. \<open>celiums-memory-engine\<close> is the stateful part: \<open>MemoryEngine\<close> (\<open>engine.rs\<close>) keeps
  everything as documents of the third-party store Hyphae and runs the operations on them, calling
  the first crate. A client names a scope (tenant, user, project, conversation, session); what it may
  see is decided by the visibility rules and by the disclosure class of each memory.

  \<^bold>\<open>Theories and sources.\<close>
  \<^item> Shared: \<open>Prelude\<close>, \<open>Rust_Text\<close>, \<open>Float_Arith\<close> (integers, text and \<open>f64\<close> of Rust), \<open>Store_Value\<close>,
    \<open>Store_Api\<close>, \<open>Store_Ops\<close>, \<open>Store_Agree\<close> (documents, the operations of the store, \<open>scan_prefix\<close>,
    runs on similar stores), \<open>Hash_Framing\<close>, \<open>Engine_Result\<close> (errors of the engine),
    \<open>Rust_Collections\<close> (sorts and ordered maps), \<open>Worklist\<close> (the graph search of the engine).
  \<^item> Cognition: \<open>Cognition_Types\<close> (the enumerations), \<open>Governance\<close>, \<open>Governance_Policy\<close>, \<open>Redaction\<close>
    (\<open>governance.rs\<close>), \<open>Limbic\<close>, \<open>Circadian\<close> (\<open>limbic.rs\<close>, \<open>circadian.rs\<close>),
    \<open>Affect\<close> (\<open>affect.rs\<close>, \<open>importance.rs\<close>, \<open>entities.rs\<close>), \<open>Recall_Scoring\<close> (\<open>recall.rs\<close>,
    \<open>retention.rs\<close>), \<open>Ethics\<close>, \<open>Ethics_Search\<close>, \<open>Ethics_Layers\<close>, \<open>Ethics_Gate\<close>,
    \<open>Ethics_Claims\<close>, \<open>Ethics_Policy\<close> (the files \<open>ethics*.rs\<close>: lexicon, structural patterns, the layers of
    risk, frameworks and precedents, and the verdict the engine takes from them, \<open>layered_verdict\<close>).
  \<^item> Documents: \<open>Identity\<close> (\<open>identity.rs\<close>, \<open>embedding_space.rs\<close>, shared readers of scopes), \<open>Governance_State\<close>,
    \<open>Governance_Audit\<close>, \<open>Audit_Integrity\<close>, \<open>Memory_Codec\<close>, \<open>Memory_Roundtrip\<close> (\<open>memory.rs\<close>),
    \<open>Filter_Language\<close>, \<open>Memory_Filter\<close>, \<open>Filter_Properties\<close>, \<open>Filter_Semantics\<close>, \<open>Filter_Claims\<close> (\<open>filter.rs\<close>),
    \<open>Journal\<close>, \<open>Idempotency\<close>, \<open>Entity_Index\<close>, \<open>Claim\<close>, \<open>Ingestion\<close> (the files of these names), \<open>Temporal\<close>,
    \<open>Graph\<close> (\<open>graph.rs\<close>).
  \<^item> Operations of \<open>engine.rs\<close>: \<open>Memory_Engine\<close>, \<open>Memory_Updates\<close> (reads and updates of
    memories, binding of the tenant; the visibility rules are in \<open>Memory_Codec\<close>), \<open>Audit_Engine\<close>,
    \<open>Audit_Runs\<close> (the trail, \<open>evaluate_action\<close>, feedback), \<open>Journal_Engine\<close>,
    \<open>Journal_Properties\<close>, \<open>Journal_Recall\<close>, \<open>Engine_State\<close> (mood and rhythm),
    \<open>Remember\<close>, \<open>Remember_Claims\<close>, \<open>Remember_Retry\<close>, \<open>Remember_Example\<close> (the write path), \<open>Entity_Claims\<close>
    (what the loops of the entity index change),
    \<open>Ingestion_Engine\<close>, \<open>Ingestion_Claims\<close> (the event ledger), \<open>Claim_Engine\<close>,
    \<open>Claim_Claims\<close>, \<open>Claim_Creation\<close>, \<open>Claim_Example\<close>, \<open>Graph_Engine\<close> (entities, relations, lineages,
    bindings), \<open>Graph_Traversal\<close>, \<open>Graph_Path\<close> (\<open>traverse_graph\<close>, \<open>graph_path\<close>), \<open>Graph_Claims\<close>,
    \<open>Graph_Example\<close>, \<open>Memory_Listing\<close> (queries and their pages, the authorized corpus,
    listings, counts), \<open>Recall_Ranking\<close>, \<open>Ranking_Claims\<close>, \<open>Recall_Pipeline\<close> (\<open>recall\<close> and its branches),
    \<open>Recall_Claims\<close>, \<open>Lifecycle\<close> (\<open>run_lifecycle\<close>), \<open>Deletion\<close> (\<open>delete_memory\<close>),
    \<open>Recall_Example\<close>.

  \<^bold>\<open>State and results.\<close> The state of an operation is the record \<open>engine\<close> (store, mood, circadian state,
  tenant and embedding space); an operation returns \<open>outcome\<close>: nothing where the code panics or does
  not return, an error of \<open>engine_error\<close>, or a value with the new state. A failed operation returns
  its error only; the documents it wrote before failing are not described. Where the code recovers
  from a failure of an inner operation, as the ingestion of an event does, the model continues from
  the state before it; the gate of \<open>remember\<close> precedes its writes, so this is exact for rejected content.

  \<^bold>\<open>What the lemmas show.\<close> Documents are read back as written, and readers accept valid documents only.
  Writes are described document by document: what \<open>remember\<close>, \<open>delete_memory\<close>, \<open>journal_write\<close> and
  \<open>evaluate_action\<close> leave under each key, and that no other key changes; for the entity index this needs
  its invariant \<open>keyed_index\<close>, that an entry is filed under its own name, which the loops over the index keep.
  Identifiers and hashes separate what they should, up to a collision of the digest; audit trail and
  journal reveal every change. Operations reach only documents their scope may see; disclosure and
  redaction hide what the policy says. Filters keep their meaning when compiled. Keyed writes can be
  retried, updates are optimistic, settled events stay settled. Supersession of claims stays acyclic
  and retires what it names; the lineage of entities stays acyclic too, and resolution and traversal of the
  graph are exact. A recall always returns and answers only from what its request may see; deletion and
  lifecycle runs change the rows they should and no other. Mood, circadian factors, scores and contexts stay in their bounds.
  Interfaces are locales (\<open>field_framing\<close>, \<open>owner_isolation\<close> and others), interpreted on the model.

  \<^bold>\<open>Parameters.\<close> Hyphae is a record of functions (\<open>hyphae\<close>, \<open>store_ops\<close>); \<open>faithful_store\<close>,
  \<open>faithful_ops\<close> and \<open>faithful_query\<close> state what its documentation promises, and a sorted list of documents
  satisfies them. Vector retrieval and BM25F are \<open>search_ops\<close>, \<open>sound_search\<close> their law.
  BLAKE3, the hexadecimal and UUID formats, \<open>to_lowercase\<close>, the bits of an \<open>f64\<close>, the regular
  expressions of the text readers and detectors, and the validity of a quantised vector are fields of \<open>rust_env\<close>, \<open>detectors\<close> and \<open>text_patterns\<close>, or arguments;
  \<open>env_ethics\<close>, the verdict \<open>remember\<close> asks for, is \<open>layered_verdict\<close> in \<open>Ethics_Policy\<close>; \<open>evaluate_action\<close> calls
  the ethics pipeline itself. Of \<open>to_lowercase\<close> one theorem uses that applying it twice changes nothing more.

  \<^bold>\<open>Numbers and loops.\<close> Integers have the width of the source, with its wrapping or saturating
  operations written out; \<open>usize\<close> is \<open>nat\<close>. \<open>f64\<close> is exact reals with infinities and NaN: rounding is
  not modelled, nor the order a sort gives to NaN scores. \<open>scan_prefix\<close>, which may not end on a store
  that lies, is a \<open>partial_function (option)\<close> proved to end on a faithful one, as is \<open>query_loop\<close>; so are
  \<open>occurrences\<close>, \<open>delimiter_loop\<close> and \<open>path_loop\<close>, proved to end where they are called. The other loops are
  structural or have a measure, such as the unvisited nodes of \<open>reach_loop\<close>. No fuel is used.

  \<^bold>\<open>Not modelled.\<close> Transaction ids of the store. Opening an engine and migrating old documents;
  derived memories and consolidation (\<open>derived.rs\<close> apart from invalidated sources), backups and export
  (\<open>timetravel.rs\<close>, \<open>portability.rs\<close>), which order calls of the store's own backup functions; the loops
  of \<open>ingest_batch\<close> and \<open>remember_batch\<close>, which go on after a failed item; the
  embedding and capture crates, the command line, the HTTP and MCP servers, and the TypeScript packages,
  which pass requests to the engine.
\<close>

end
